(* ===== verification/Prelude.thy ===== *)
theory Prelude
  imports Main "HOL-Library.AList" "HOL-Library.Char_ord" "HOL-Library.List_Lexorder"
begin

text \<open>The vocabulary the components share: the collections that carry their proofs, the JavaScript
  string and collection operations the sources use (Set insertion, Map insertion, split, trim,
  includes, findIndex), and the generic facts about them. A JavaScript string is a list of
  characters, one character for each UTF-16 unit of the Latin-1 range; an identifier is a string; a
  Date is its number of milliseconds, an int.\<close>

type_synonym id = string
type_synonym instant = int

named_theorems field_defs \<open>the constants a component is built from\<close>
named_theorems step_defs \<open>the operations of a component\<close>

section \<open>Sets and maps in insertion order\<close>

text \<open>A JavaScript Set iterates in the order of first insertion.\<close>

definition set_add :: "'a list \<Rightarrow> 'a \<Rightarrow> 'a list" where
  "set_add s x = (if x \<in> set s then s else s @ [x])"

definition set_add_all :: "'a list \<Rightarrow> 'a list \<Rightarrow> 'a list" where
  "set_add_all s xs = foldl set_add s xs"

definition js_set :: "'a list \<Rightarrow> 'a list" where
  "js_set xs = set_add_all [] xs"

lemma set_set_add [simp]: "set (set_add s x) = insert x (set s)"
  by (auto simp: set_add_def)

lemma distinct_set_add [simp]: "distinct (set_add s x) = distinct s"
  by (auto simp: set_add_def)

lemma set_add_all_Nil [simp]: "set_add_all s [] = s"
  by (simp add: set_add_all_def)

lemma set_add_all_Cons [simp]: "set_add_all s (x # xs) = set_add_all (set_add s x) xs"
  by (simp add: set_add_all_def)

lemma set_add_all_append [simp]: "set_add_all s (xs @ ys) = set_add_all (set_add_all s xs) ys"
  by (simp add: set_add_all_def)

lemma set_set_add_all [simp]: "set (set_add_all s xs) = set s \<union> set xs"
  by (induction xs arbitrary: s) auto

lemma distinct_set_add_all [simp]: "distinct (set_add_all s xs) = distinct s"
  by (induction xs arbitrary: s) auto

lemma set_js_set [simp]: "set (js_set xs) = set xs"
  by (simp add: js_set_def)

lemma distinct_js_set [simp]: "distinct (js_set xs)"
  by (simp add: js_set_def)

lemma js_set_Nil_iff [simp]: "js_set xs = [] \<longleftrightarrow> xs = []"
  by (metis set_empty set_js_set)

lemma set_add_all_distinct: "distinct (s @ xs) \<Longrightarrow> set_add_all s xs = s @ xs"
  by (induction xs arbitrary: s) (auto simp: set_add_def)

lemma js_set_id: "distinct xs \<Longrightarrow> js_set xs = xs"
  by (simp add: js_set_def set_add_all_distinct)

section \<open>Strings\<close>

definition starts_with :: "string \<Rightarrow> string \<Rightarrow> bool" where
  "starts_with p s \<longleftrightarrow> take (length p) s = p"

fun split_on :: "char \<Rightarrow> string \<Rightarrow> string list" where
  "split_on c [] = [[]]"
| "split_on c (x # xs) =
     (if x = c then [] # split_on c xs
      else case split_on c xs of [] \<Rightarrow> [[x]] | w # ws \<Rightarrow> (x # w) # ws)"

text \<open>Array.prototype.join.\<close>

fun join_with :: "string \<Rightarrow> string list \<Rightarrow> string" where
  "join_with sep [] = []"
| "join_with sep [x] = x"
| "join_with sep (x # y # ys) = x @ sep @ join_with sep (y # ys)"

text \<open>The white space and line terminators String.prototype.trim removes, in the Latin-1 range.\<close>

definition is_js_space :: "char \<Rightarrow> bool" where
  "is_js_space c \<longleftrightarrow> of_char c \<in> {9, 10, 11, 12, 13, 32, 160 :: nat}"

definition trim_start :: "string \<Rightarrow> string" where
  "trim_start s = dropWhile is_js_space s"

definition trim :: "string \<Rightarrow> string" where
  "trim s = rev (trim_start (rev (trim_start s)))"

text \<open>String.prototype.includes.\<close>

definition includes_text :: "string \<Rightarrow> string \<Rightarrow> bool" where
  "includes_text needle s \<longleftrightarrow> list_ex (\<lambda>n. take (length needle) (drop n s) = needle) [0..<Suc (length s)]"

definition is_digit :: "char \<Rightarrow> bool" where
  "is_digit c \<longleftrightarrow> 48 \<le> (of_char c :: nat) \<and> (of_char c :: nat) \<le> 57"

definition is_lower :: "char \<Rightarrow> bool" where
  "is_lower c \<longleftrightarrow> 97 \<le> (of_char c :: nat) \<and> (of_char c :: nat) \<le> 122"

lemma includes_text_iff: "includes_text p s \<longleftrightarrow> (\<exists>a b. s = a @ p @ b)"
proof
  assume "includes_text p s"
  then obtain n where "take (length p) (drop n s) = p" by (auto simp: includes_text_def list_ex_iff)
  then have "s = take n s @ p @ drop (length p) (drop n s)" by (metis append_take_drop_id)
  then show "\<exists>a b. s = a @ p @ b" by blast
next
  assume "\<exists>a b. s = a @ p @ b"
  then obtain a b where "s = a @ p @ b" by blast
  then show "includes_text p s"
    by (auto simp: includes_text_def list_ex_iff intro!: bexI[of _ "length a"])
qed

lemma split_on_not_Nil [simp]: "split_on c s \<noteq> []"
  by (induction s) (auto split: list.splits)

lemma split_on_no_sep: "c \<notin> set s \<Longrightarrow> split_on c s = [s]"
  by (induction s) auto

lemma split_on_sep: "c \<notin> set a \<Longrightarrow> split_on c (a @ c # b) = a # split_on c b"
  by (induction a) auto

lemma split_on_sep_notin: "w \<in> set (split_on c s) \<Longrightarrow> c \<notin> set w"
  by (induction s arbitrary: w) (auto split: list.splits if_splits)

lemma hd_split_on: "hd (split_on c s) = takeWhile (\<lambda>x. x \<noteq> c) s"
  by (induction s) (auto split: list.splits)

lemma trim_Nil [simp]: "trim [] = []"
  by (simp add: trim_def trim_start_def)

lemma length_trim: "length (trim s) \<le> length s"
  by (simp add: trim_def trim_start_def) (metis length_dropWhile_le length_rev order_trans)

lemma hd_trim:
  assumes "trim s \<noteq> []" shows "\<not> is_js_space (hd (trim s))"
proof -
  let ?t = "trim_start s"
  obtain pre where pre: "rev ?t = pre @ trim_start (rev ?t)"
    unfolding trim_start_def by (metis takeWhile_dropWhile_id)
  then have t: "?t = trim s @ rev pre"
    by (metis rev_append rev_rev_ident trim_def)
  moreover have "?t \<noteq> []" using assms t by auto
  ultimately show ?thesis
    by (metis assms hd_append2 hd_dropWhile trim_start_def)
qed

lemma last_trim: "trim s \<noteq> [] \<Longrightarrow> \<not> is_js_space (last (trim s))"
  by (simp add: trim_def last_rev hd_dropWhile trim_start_def)

lemma trim_trim [simp]: "trim (trim s) = trim s"
proof (cases "trim s = []")
  case False
  have "trim_start (trim s) = trim s"
    using hd_trim[OF False] False by (cases "trim s") (auto simp: trim_start_def)
  moreover have "trim_start (rev (trim s)) = rev (trim s)"
    using last_trim[OF False] False by (cases "rev (trim s)") (auto simp: trim_start_def)
  ultimately show ?thesis by (simp add: trim_def[of "trim s"])
qed simp

section \<open>Lists\<close>

text \<open>Array.prototype.findIndex, with None for the result -1.\<close>

fun find_index :: "('a \<Rightarrow> bool) \<Rightarrow> 'a list \<Rightarrow> nat option" where
  "find_index p [] = None"
| "find_index p (x # xs) = (if p x then Some 0 else map_option Suc (find_index p xs))"

lemma find_index_None: "find_index p xs = None \<longleftrightarrow> (\<forall>x \<in> set xs. \<not> p x)"
  by (induction xs) auto

lemma find_index_SomeD:
  "find_index p xs = Some i \<Longrightarrow> i < length xs \<and> p (xs ! i) \<and> (\<forall>j < i. \<not> p (xs ! j))"
proof (induction xs arbitrary: i)
  case (Cons x xs)
  show ?case
  proof (cases "p x")
    case False
    with Cons.prems obtain k where "find_index p xs = Some k" "i = Suc k" by auto
    with Cons.IH[of k] False show ?thesis by (auto simp: less_Suc_eq_0_disj)
  qed (use Cons.prems in auto)
qed simp

lemma map_of_AList_update [simp]:
  "map_of (AList.update k v al) = (map_of al)(k \<mapsto> v)"
  by (rule update_conv')

lemma filter_update_same:
  "\<lbrakk>i < length xs; distinct xs\<rbrakk> \<Longrightarrow> set (xs[i := y]) = insert y (set xs - {xs ! i})"
  by (rule set_update_distinct)

text \<open>Rows of a table are kept in a list; an update changes the rows a condition selects and
  reports how many it changed, as updateMany does.\<close>

definition update_rows :: "('r \<Rightarrow> bool) \<Rightarrow> ('r \<Rightarrow> 'r) \<Rightarrow> 'r list \<Rightarrow> 'r list" where
  "update_rows sel f rows = map (\<lambda>r. if sel r then f r else r) rows"

definition count_rows :: "('r \<Rightarrow> bool) \<Rightarrow> 'r list \<Rightarrow> nat" where
  "count_rows sel rows = length (filter sel rows)"

lemma length_update_rows [simp]: "length (update_rows sel f rows) = length rows"
  by (simp add: update_rows_def)

lemma update_rows_keys [simp]:
  "(\<And>r. key (f r) = key r) \<Longrightarrow> map key (update_rows sel f rows) = map key rows"
  by (auto simp: update_rows_def)

lemma in_update_rowsE:
  assumes "r \<in> set (update_rows sel f rows)"
  obtains (changed) r0 where "r0 \<in> set rows" "sel r0" "r = f r0"
        | (kept) "r \<in> set rows" "\<not> sel r"
  using assms by (auto simp: update_rows_def split: if_splits)

lemma update_rows_none: "count_rows sel rows = 0 \<Longrightarrow> update_rows sel f rows = rows"
  by (induction rows) (auto simp: update_rows_def count_rows_def split: if_splits)

lemma count_rows_map: "count_rows sel (map f xs) = count_rows (\<lambda>x. sel (f x)) xs"
  by (simp add: count_rows_def filter_map comp_def)

lemma count_rows_pos: "0 < count_rows sel rows \<longleftrightarrow> (\<exists>r \<in> set rows. sel r)"
  by (auto simp: count_rows_def filter_empty_conv)

lemma find_SomeD: "List.find p xs = Some x \<Longrightarrow> x \<in> set xs \<and> p x"
  by (auto simp: find_Some_iff)

lemma find_NoneD: "List.find p xs = None \<Longrightarrow> x \<in> set xs \<Longrightarrow> \<not> p x"
  by (auto simp: find_None_iff)

lemma find_distinct:
  assumes "distinct (map key xs)" "x \<in> set xs"
  shows "List.find (\<lambda>y. key y = key x) xs = Some x"
  using assms by (induction xs) (auto simp: image_iff)

lemma rows_append:
  "count_rows sel (xs @ r # ys) = count_rows sel xs + (if sel r then 1 else 0) + count_rows sel ys"
  "update_rows sel f (xs @ r # ys) = update_rows sel f xs @ (if sel r then f r else r) # update_rows sel f ys"
  by (simp_all add: count_rows_def update_rows_def)

lemma filter_one:
  assumes "distinct (map key es)" "y \<in> set es"
  shows "filter (\<lambda>z. key z = key y) es = [y]"
  using assms by (induction es) (auto simp: filter_empty_conv image_iff)

end
