(* ===== verification/Json_Text.thy ===== *)
theory Json_Text
  imports Prelude
begin

text \<open>JSON values and the two standard library functions the sources call on them, JSON.stringify
  and JSON.parse, over texts of the Latin-1 range. A number is kept as its numeral; parse returns
  None where JavaScript throws a SyntaxError. The parser takes fuel; \<open>json_parse\<close> gives it
  twice the length of the text and two more, which the round trip shows to be enough for every text
  the printer writes.\<close>

datatype json = JNull | JBool bool | JNum string | JStr string
  | JArr "json list" | JObj "(string \<times> json) list"

section \<open>Printing\<close>

definition hex_digit :: "nat \<Rightarrow> char" where
  "hex_digit n = (if n < 10 then char_of (48 + n) else char_of (87 + n))"

definition escape_char :: "char \<Rightarrow> string" where
  "escape_char c =
     (let n = (of_char c :: nat) in
      if n = 34 \<or> n = 92 then [CHR 0x5C, c]
      else if n = 8 then [CHR 0x5C, CHR ''b'']
      else if n = 9 then [CHR 0x5C, CHR ''t'']
      else if n = 10 then [CHR 0x5C, CHR ''n'']
      else if n = 12 then [CHR 0x5C, CHR ''f'']
      else if n = 13 then [CHR 0x5C, CHR ''r'']
      else if n < 32 then [CHR 0x5C, CHR ''u'', CHR ''0'', CHR ''0'', hex_digit (n div 16), hex_digit (n mod 16)]
      else [c])"

definition quote :: "string \<Rightarrow> string" where
  "quote s = CHR 0x22 # concat (map escape_char s) @ [CHR 0x22]"

fun stringify :: "json \<Rightarrow> string"
and stringify_elems :: "json list \<Rightarrow> string"
and stringify_members :: "(string \<times> json) list \<Rightarrow> string" where
  "stringify JNull = ''null''"
| "stringify (JBool b) = (if b then ''true'' else ''false'')"
| "stringify (JNum n) = n"
| "stringify (JStr s) = quote s"
| "stringify (JArr js) = CHR ''['' # stringify_elems js @ '']''"
| "stringify (JObj ms) = CHR ''{'' # stringify_members ms @ ''}''"
| "stringify_elems [] = []"
| "stringify_elems [j] = stringify j"
| "stringify_elems (j # k # js) = stringify j @ CHR '','' # stringify_elems (k # js)"
| "stringify_members [] = []"
| "stringify_members [(k, j)] = quote k @ CHR '':'' # stringify j"
| "stringify_members ((k, j) # m # ms) =
     quote k @ CHR '':'' # stringify j @ CHR '','' # stringify_members (m # ms)"

section \<open>Parsing\<close>

definition is_json_space :: "char \<Rightarrow> bool" where
  "is_json_space c \<longleftrightarrow> of_char c \<in> {9, 10, 13, 32 :: nat}"

definition skip_ws :: "string \<Rightarrow> string" where
  "skip_ws s = dropWhile is_json_space s"

definition hex_value :: "char \<Rightarrow> nat option" where
  "hex_value c =
     (let n = (of_char c :: nat) in
      if 48 \<le> n \<and> n \<le> 57 then Some (n - 48)
      else if 97 \<le> n \<and> n \<le> 102 then Some (n - 87)
      else if 65 \<le> n \<and> n \<le> 70 then Some (n - 55)
      else None)"

fun unicode_escape :: "string \<Rightarrow> (char \<times> string) option" where
  "unicode_escape (a # b # c # d # r) =
     (case (hex_value a, hex_value b, hex_value c, hex_value d) of
        (Some h1, Some h2, Some h3, Some h4) \<Rightarrow>
          if h1 = 0 \<and> h2 = 0 then Some (char_of (16 * h3 + h4), r) else None
      | _ \<Rightarrow> None)"
| "unicode_escape _ = None"

definition simple_escape :: "char \<Rightarrow> char option" where
  "simple_escape e =
     (if e = CHR 0x22 \<or> e = CHR 0x5C \<or> e = CHR ''/'' then Some e
      else if e = CHR ''b'' then Some (CHR 0x08)
      else if e = CHR ''t'' then Some (CHR 0x09)
      else if e = CHR ''n'' then Some (CHR 0x0A)
      else if e = CHR ''f'' then Some (CHR 0x0C)
      else if e = CHR ''r'' then Some (CHR 0x0D)
      else None)"

lemma unicode_escape_shorter: "unicode_escape s = Some (c, r) \<Longrightarrow> length r < length s"
  by (induction s rule: unicode_escape.induct) (auto split: option.splits if_splits)

function string_body :: "string \<Rightarrow> (string \<times> string) option" where
  "string_body [] = None"
| "string_body (c # cs) =
     (if c = CHR 0x22 then Some ([], cs)
      else if c = CHR 0x5C then
        (case cs of
           [] \<Rightarrow> None
         | e # es \<Rightarrow>
             (if e = CHR ''u'' then
                (case unicode_escape es of
                   None \<Rightarrow> None
                 | Some (x, r) \<Rightarrow> map_option (apfst ((#) x)) (string_body r))
              else
                (case simple_escape e of
                   None \<Rightarrow> None
                 | Some x \<Rightarrow> map_option (apfst ((#) x)) (string_body es))))
      else if (of_char c :: nat) < 32 then None
      else map_option (apfst ((#) c)) (string_body cs))"
  by pat_completeness auto
termination
  by (relation "measure length") (auto dest: unicode_escape_shorter)

text \<open>The longest numeral at the head of a text: sign, integer part, fraction, exponent.\<close>

definition digits_of :: "string \<Rightarrow> string" where
  "digits_of s = takeWhile is_digit s"

definition fraction_of :: "string \<Rightarrow> string" where
  "fraction_of s =
     (case s of c # d # r \<Rightarrow> if c = CHR ''.'' \<and> is_digit d then c # digits_of (d # r) else []
      | _ \<Rightarrow> [])"

definition exponent_of :: "string \<Rightarrow> string" where
  "exponent_of s =
     (case s of
        e # d # r \<Rightarrow>
          if e = CHR ''e'' \<or> e = CHR ''E'' then
            (if is_digit d then e # digits_of (d # r)
             else if (d = CHR ''+'' \<or> d = CHR ''-'') \<and> digits_of r \<noteq> [] then e # d # digits_of r
             else [])
          else []
      | _ \<Rightarrow> [])"

definition unsigned_numeral :: "string \<Rightarrow> string" where
  "unsigned_numeral s =
     (let ip = (case s of c # r \<Rightarrow> if c = CHR ''0'' then [c] else digits_of s | [] \<Rightarrow> []);
          fp = fraction_of (drop (length ip) s);
          ep = exponent_of (drop (length ip + length fp) s)
      in if ip = [] then [] else ip @ fp @ ep)"

definition parse_number :: "string \<Rightarrow> (json \<times> string) option" where
  "parse_number s =
     (let sign = (case s of c # r \<Rightarrow> if c = CHR ''-'' then [c] else [] | [] \<Rightarrow> []);
          u = unsigned_numeral (drop (length sign) s)
      in if u = [] then None else Some (JNum (sign @ u), drop (length sign + length u) s))"

text \<open>An object literal with a repeated key keeps the place of the first and the value of the
  last.\<close>

definition object_of :: "(string \<times> json) list \<Rightarrow> json" where
  "object_of ms = JObj (foldl (\<lambda>al (k, v). AList.update k v al) [] ms)"

fun parse_value :: "nat \<Rightarrow> string \<Rightarrow> (json \<times> string) option"
and parse_elems :: "nat \<Rightarrow> string \<Rightarrow> (json list \<times> string) option"
and parse_members :: "nat \<Rightarrow> string \<Rightarrow> ((string \<times> json) list \<times> string) option" where
  "parse_value 0 s = None"
| "parse_value (Suc n) s =
     (case skip_ws s of
        [] \<Rightarrow> None
      | c # r \<Rightarrow>
          if c = CHR 0x22 then map_option (apfst JStr) (string_body r)
          else if c = CHR ''['' then
            (case skip_ws r of
               d # r' \<Rightarrow>
                 if d = CHR '']'' then Some (JArr [], r')
                 else map_option (apfst JArr) (parse_elems n r)
             | [] \<Rightarrow> None)
          else if c = CHR ''{'' then
            (case skip_ws r of
               d # r' \<Rightarrow>
                 if d = CHR ''}'' then Some (JObj [], r')
                 else map_option (apfst object_of) (parse_members n r)
             | [] \<Rightarrow> None)
          else if starts_with ''null'' (c # r) then Some (JNull, drop 4 (c # r))
          else if starts_with ''true'' (c # r) then Some (JBool True, drop 4 (c # r))
          else if starts_with ''false'' (c # r) then Some (JBool False, drop 5 (c # r))
          else parse_number (c # r))"
| "parse_elems 0 s = None"
| "parse_elems (Suc n) s =
     (case parse_value n s of
        None \<Rightarrow> None
      | Some (j, r) \<Rightarrow>
          (case skip_ws r of
             [] \<Rightarrow> None
           | c # r' \<Rightarrow>
               if c = CHR '','' then map_option (apfst ((#) j)) (parse_elems n r')
               else if c = CHR '']'' then Some ([j], r')
               else None))"
| "parse_members 0 s = None"
| "parse_members (Suc n) s =
     (case skip_ws s of
        [] \<Rightarrow> None
      | c # r \<Rightarrow>
          if c \<noteq> CHR 0x22 then None
          else
            (case string_body r of
               None \<Rightarrow> None
             | Some (k, r1) \<Rightarrow>
                 (case skip_ws r1 of
                    [] \<Rightarrow> None
                  | d # r2 \<Rightarrow>
                      if d \<noteq> CHR '':'' then None
                      else
                        (case parse_value n r2 of
                           None \<Rightarrow> None
                         | Some (j, r3) \<Rightarrow>
                             (case skip_ws r3 of
                                [] \<Rightarrow> None
                              | e # r4 \<Rightarrow>
                                  if e = CHR '','' then map_option (apfst ((#) (k, j))) (parse_members n r4)
                                  else if e = CHR ''}'' then Some ([(k, j)], r4)
                                  else None)))))"

definition json_parse :: "string \<Rightarrow> json option" where
  "json_parse s =
     (case parse_value (2 * length s + 2) s of
        Some (j, r) \<Rightarrow> if skip_ws r = [] then Some j else None
      | None \<Rightarrow> None)"

section \<open>Parsing what was printed\<close>

definition natural_numeral :: "string \<Rightarrow> bool" where
  "natural_numeral n \<longleftrightarrow> n \<noteq> [] \<and> list_all is_digit n \<and> (hd n = CHR ''0'' \<longrightarrow> n = ''0'')"

text \<open>The values the program serializes: natural numerals and objects without repeated keys.\<close>

fun plain_json :: "json \<Rightarrow> bool" where
  "plain_json (JNum n) = natural_numeral n"
| "plain_json (JArr js) = list_all plain_json js"
| "plain_json (JObj ms) = (distinct (map fst ms) \<and> list_all (\<lambda>(k, j). plain_json j) ms)"
| "plain_json _ = True"

definition ends_value :: "string \<Rightarrow> bool" where
  "ends_value r \<longleftrightarrow> r = [] \<or> hd r \<in> {CHR '','', CHR '']'', CHR ''}''}"

lemma hex_value_digit: "n < 16 \<Longrightarrow> hex_value (hex_digit n) = Some n"
  by (auto simp: hex_value_def hex_digit_def Let_def)

lemma unicode_escape_hex:
  "n < 256 \<Longrightarrow>
   unicode_escape (CHR ''0'' # CHR ''0'' # hex_digit (n div 16) # hex_digit (n mod 16) # r)
     = Some (char_of n, r)"
  by (simp add: hex_value_digit) (simp add: hex_value_def)

lemma char_code_less: "(of_char c :: nat) < 256"
  by (metis char_of_char mod_less_divisor nat_of_char_less_256 zero_less_numeral)

lemma char_code: "of_char c = (of_char d :: nat) \<Longrightarrow> c = d"
  by simp

lemma escaped_codes:
  assumes "of_char c \<in> {8, 9, 10, 12, 13, 34, 92 :: nat}"
  shows "c \<in> {CHR 0x08, CHR 0x09, CHR 0x0A, CHR 0x0C, CHR 0x0D, CHR 0x22, CHR 0x5C}"
  using assms char_code[of c "CHR 0x08"] char_code[of c "CHR 0x09"] char_code[of c "CHR 0x0A"]
    char_code[of c "CHR 0x0C"] char_code[of c "CHR 0x0D"] char_code[of c "CHR 0x22"]
    char_code[of c "CHR 0x5C"]
  by (simp del: of_char_eq_iff, blast)

lemma string_body_char:
  "string_body (escape_char c @ r) = map_option (apfst ((#) c)) (string_body r)"
proof -
  consider "of_char c \<in> {8, 9, 10, 12, 13, 34, 92 :: nat}"
    | "(of_char c :: nat) < 32" "of_char c \<notin> {8, 9, 10, 12, 13, 34, 92 :: nat}"
    | "\<not> (of_char c :: nat) < 32" "of_char c \<notin> {34, 92 :: nat}"
    by fastforce
  then show ?thesis
  proof cases
    case 1
    from escaped_codes[OF 1] show ?thesis
      by (elim insertE emptyE) (simp_all add: escape_char_def simple_escape_def)
  next
    case 2
    then have "escape_char c = [CHR 0x5C, CHR ''u'', CHR ''0'', CHR ''0'',
        hex_digit (of_char c div 16), hex_digit (of_char c mod 16)]"
      by (simp add: escape_char_def Let_def)
    then show ?thesis
      using unicode_escape_hex[of "of_char c" r] char_code_less[of c]
      by (simp del: unicode_escape.simps)
  next
    case 3
    then have "c \<noteq> CHR 0x22" "c \<noteq> CHR 0x5C" by auto
    with 3 show ?thesis by (simp add: escape_char_def Let_def)
  qed
qed

lemma string_body_quoted:
  "string_body (concat (map escape_char s) @ CHR 0x22 # r) = Some (s, r)"
  by (induction s) (simp_all add: string_body_char del: string_body.simps(2), simp)

lemma digit_not_space: "is_digit c \<Longrightarrow> \<not> is_json_space c"
  by (simp add: is_digit_def is_json_space_def)

lemma not_digit:
  "\<not> is_digit (CHR 0x22)" "\<not> is_digit (CHR ''['')" "\<not> is_digit (CHR '']'')" "\<not> is_digit (CHR ''{'')"
  "\<not> is_digit (CHR ''}'')" "\<not> is_digit (CHR ''-'')" "\<not> is_digit (CHR ''n'')"
  "\<not> is_digit (CHR ''t'')" "\<not> is_digit (CHR ''f'')" "\<not> is_digit (CHR '','')" "\<not> is_digit (CHR '':'')"
  by (simp_all add: is_digit_def)

lemma ends_value_not_digit:
  assumes "ends_value r"
  shows "digits_of r = [] \<and> fraction_of r = [] \<and> exponent_of r = []"
proof (cases r)
  case Nil
  then show ?thesis by (simp add: digits_of_def fraction_of_def exponent_of_def)
next
  case (Cons c cs)
  have "\<not> is_digit c \<and> c \<noteq> CHR ''.'' \<and> c \<noteq> CHR ''e'' \<and> c \<noteq> CHR ''E''"
    using assms not_digit by (elim ends_value_def[THEN iffD1, elim_format]) (auto simp: Cons)
  then show ?thesis
    by (cases cs) (simp_all add: Cons digits_of_def fraction_of_def exponent_of_def)
qed

lemma parse_number_numeral:
  assumes "natural_numeral n" "ends_value r"
  shows "parse_number (n @ r) = Some (JNum n, r)"
proof -
  obtain c cs where n: "n = c # cs" using assms(1) by (cases n) (auto simp: natural_numeral_def)
  have c: "c \<noteq> CHR ''-''" using assms(1) not_digit(6) by (auto simp: natural_numeral_def n)
  have ds: "digits_of (n @ r) = n"
    using assms ends_value_not_digit[of r]
    by (simp add: natural_numeral_def digits_of_def list_all_iff takeWhile_append2)
  have "unsigned_numeral (n @ r) = n"
    using ds assms ends_value_not_digit[of r]
    by (auto simp: unsigned_numeral_def n natural_numeral_def)
  then show ?thesis using c by (simp add: parse_number_def n)
qed

lemma stringify_first:
  "plain_json j \<Longrightarrow> \<exists>c r. stringify j = c # r \<and> \<not> is_json_space c \<and> c \<noteq> CHR '']''"
proof (cases j)
  case (JNum n)
  moreover assume "plain_json j"
  ultimately obtain c r where "n = c # r" "is_digit c"
    by (cases n) (auto simp: natural_numeral_def)
  then show ?thesis using JNum digit_not_space not_digit(3) by auto
qed (simp_all add: quote_def is_json_space_def)

lemma skip_ws_stringify: "plain_json j \<Longrightarrow> skip_ws (stringify j @ r) = stringify j @ r"
  using stringify_first[of j] by (auto simp: skip_ws_def)

lemma update_fresh: "k \<notin> fst ` set al \<Longrightarrow> AList.update k v al = al @ [(k, v)]"
  by (induction al) auto

lemma object_of_distinct: "distinct (map fst ms) \<Longrightarrow> object_of ms = JObj ms"
proof -
  have "distinct (map fst (al @ ms)) \<Longrightarrow> foldl (\<lambda>al (k, v). AList.update k v al) al ms = al @ ms"
    for al :: "(string \<times> json) list"
  proof (induction ms arbitrary: al)
    case (Cons m ms)
    have "AList.update (fst m) (snd m) al = al @ [m]"
      using Cons.prems by (simp add: update_fresh)
    then show ?case using Cons.IH[of "al @ [m]"] Cons.prems by (simp add: case_prod_beta)
  qed simp
  from this[of "[]"] show "distinct (map fst ms) \<Longrightarrow> object_of ms = JObj ms"
    by (simp add: object_of_def)
qed

lemma parse_string:
  "parse_value (Suc n) (quote s @ r) = Some (JStr s, r)"
  by (simp add: quote_def skip_ws_def is_json_space_def string_body_quoted)

lemma parse_numeral:
  assumes "natural_numeral n" "ends_value r"
  shows "parse_value (Suc k) (n @ r) = Some (JNum n, r)"
proof -
  obtain c cs where n: "n = c # cs" "is_digit c"
    using assms(1) by (cases n) (auto simp: natural_numeral_def)
  then have "skip_ws (n @ r) = c # cs @ r"
    by (simp add: skip_ws_def digit_not_space)
  moreover have "c \<noteq> CHR 0x22" "c \<noteq> CHR ''[''" "c \<noteq> CHR ''{''" "c \<noteq> CHR ''n''" "c \<noteq> CHR ''t''" "c \<noteq> CHR ''f''"
    using n(2) not_digit by metis+
  ultimately show ?thesis
    using parse_number_numeral[OF assms] n by (simp add: starts_with_def)
qed

text \<open>Fuel of twice the length of the printed text is enough to read it back, whatever follows it.\<close>

lemma parse_stringify:
  "plain_json j \<Longrightarrow> ends_value r \<Longrightarrow> 2 * length (stringify j) \<le> n \<Longrightarrow>
     parse_value n (stringify j @ r) = Some (j, r)"
  "list_all plain_json js \<Longrightarrow> js \<noteq> [] \<Longrightarrow> 2 * length (stringify_elems js) < n \<Longrightarrow>
     parse_elems n (stringify_elems js @ CHR '']'' # r) = Some (js, r)"
  "list_all (\<lambda>(k, j). plain_json j) ms \<Longrightarrow> ms \<noteq> [] \<Longrightarrow> 2 * length (stringify_members ms) < n \<Longrightarrow>
     parse_members n (stringify_members ms @ CHR ''}'' # r) = Some (ms, r)"
proof (induction j and js and ms arbitrary: n r and n r and n r
    rule: stringify_stringify_elems_stringify_members.induct)
  case 1
  then show ?case by (cases n) (simp_all add: skip_ws_def is_json_space_def starts_with_def)
next
  case (2 b)
  then show ?case by (cases n; cases b) (simp_all add: skip_ws_def is_json_space_def starts_with_def)
next
  case (3 m)
  then show ?case
    using parse_numeral[of m r] by (cases n) (auto simp: natural_numeral_def)
next
  case (4 s)
  then show ?case using parse_string by (cases n) (auto simp: quote_def)
next
  case (5 js)
  show ?case
  proof (cases js)
    case Nil
    then show ?thesis using 5 by (cases n) (simp_all add: skip_ws_def is_json_space_def)
  next
    case (Cons j js')
    then obtain c t where "stringify_elems js = c # t" "\<not> is_json_space c" "c \<noteq> CHR '']''"
      using stringify_first[of j] 5(2) by (cases js') auto
    then show ?thesis using 5 Cons
      by (cases n) (simp_all add: skip_ws_def is_json_space_def)
  qed
next
  case (6 ms)
  show ?case
  proof (cases ms)
    case Nil
    then show ?thesis using 6 by (cases n) (simp_all add: skip_ws_def is_json_space_def)
  next
    case (Cons m ms')
    then obtain t where "stringify_members ms = CHR 0x22 # t"
      by (cases m; cases ms') (auto simp: quote_def)
    then show ?thesis using 6 Cons
      by (cases n) (simp_all add: skip_ws_def is_json_space_def object_of_distinct)
  qed
next
  case (8 j)
  then show ?case by (cases n) (simp_all add: skip_ws_def is_json_space_def ends_value_def)
next
  case (9 j k js)
  then show ?case by (cases n) (simp_all add: skip_ws_def is_json_space_def ends_value_def)
next
  case (11 k j)
  then show ?case
    by (cases n)
      (simp_all add: skip_ws_def is_json_space_def ends_value_def quote_def string_body_quoted)
next
  case (12 k j m ms)
  then show ?case
    by (cases n)
      (simp_all add: skip_ws_def is_json_space_def ends_value_def quote_def string_body_quoted)
qed simp_all

text \<open>JSON.parse undoes JSON.stringify on the values the program serializes.\<close>

lemma json_roundtrip: "plain_json j \<Longrightarrow> json_parse (stringify j) = Some j"
  using parse_stringify(1)[of j "[]" "2 * length (stringify j) + 2"]
  by (simp add: json_parse_def ends_value_def skip_ws_def)

section \<open>Numbers\<close>

text \<open>The numeral of a natural number.\<close>

fun decimal :: "nat \<Rightarrow> string" where
  "decimal n = (if n < 10 then [char_of (48 + n)] else decimal (n div 10) @ [char_of (48 + n mod 10)])"

declare decimal.simps [simp del]

definition read_decimal :: "string \<Rightarrow> nat" where
  "read_decimal s = foldl (\<lambda>n c. 10 * n + (of_char c - 48)) 0 s"

definition json_nat :: "nat \<Rightarrow> json" where
  "json_nat n = JNum (decimal n)"

lemma decimal_facts:
  "decimal n \<noteq> [] \<and> list_all is_digit (decimal n) \<and> read_decimal (decimal n) = n \<and>
     (hd (decimal n) = CHR ''0'' \<longrightarrow> n = 0)"
proof (induction n rule: decimal.induct)
  case (1 n)
  show ?case
  proof (cases "n < 10")
    case True
    then have "decimal n = [char_of (48 + n)]" by (simp add: decimal.simps)
    moreover have "char_of (48 + n) = CHR ''0'' \<Longrightarrow> n = 0"
    proof -
      assume "char_of (48 + n) = CHR ''0''"
      then have "(of_char (char_of (48 + n)) :: nat) = of_char (CHR ''0'')" by simp
      then show "n = 0" using True by simp
    qed
    ultimately show ?thesis using True by (simp add: is_digit_def read_decimal_def)
  next
    case False
    then have d: "decimal n = decimal (n div 10) @ [char_of (48 + n mod 10)]" by (simp add: decimal.simps)
    have "n mod 10 < 10" by simp
    then have "48 + n mod 10 < 256" by linarith
    then have "(of_char (char_of (48 + n mod 10) :: char) :: nat) = 48 + n mod 10" by simp
    then show ?thesis using 1[OF False] False d \<open>n mod 10 < 10\<close>
      by (auto simp: is_digit_def read_decimal_def)
  qed
qed

lemma natural_numeral_decimal [simp]: "natural_numeral (decimal n)"
proof -
  have "char_of (48 :: nat) = CHR ''0''" by (rule char_code) simp
  then have "decimal 0 = ''0''" by (simp add: decimal.simps)
  then show ?thesis using decimal_facts[of n] by (auto simp: natural_numeral_def)
qed

lemma read_decimal_decimal [simp]: "read_decimal (decimal n) = n"
  using decimal_facts by blast

lemma plain_json_nat [simp]: "plain_json (json_nat n)"
  by (simp add: json_nat_def)

end
