(* ===== verification/Iso_Date.thy ===== *)
theory Iso_Date
  imports Json_Text
begin

text \<open>Date.prototype.toISOString and the reading of the texts it writes. An instant is a number of
  milliseconds since the epoch; the calendar follows the ECMAScript definitions (DayFromYear, the
  year as the largest one that starts no later, months by their first day). Texts of years outside
  0 to 9999 have a sign and six digits; the round trip is stated for the four-digit years.\<close>

section \<open>Calendar\<close>

definition day_from_year :: "int \<Rightarrow> int" where
  "day_from_year y =
     365 * (y - 1970) + (y - 1969) div 4 - (y - 1901) div 100 + (y - 1601) div 400"

definition year_from_day :: "int \<Rightarrow> int" where
  "year_from_day d =
     (let y = 1970 + (400 * d) div 146097 in
      if d < day_from_year y then y - 1
      else if day_from_year (y + 1) \<le> d then y + 1
      else y)"

definition leap :: "int \<Rightarrow> bool" where
  "leap y \<longleftrightarrow> y mod 4 = 0 \<and> (y mod 100 \<noteq> 0 \<or> y mod 400 = 0)"

definition month_start :: "bool \<Rightarrow> nat \<Rightarrow> int" where
  "month_start lp m =
     [0, 31, 59, 90, 120, 151, 181, 212, 243, 273, 304, 334] ! (m - 1) + (if lp \<and> 2 < m then 1 else 0)"

definition month_of :: "bool \<Rightarrow> int \<Rightarrow> nat" where
  "month_of lp doy =
     (let k = (if lp then 1 else 0) in
      if doy < 31 then 1 else if doy < 59 + k then 2 else if doy < 90 + k then 3
      else if doy < 120 + k then 4 else if doy < 151 + k then 5 else if doy < 181 + k then 6
      else if doy < 212 + k then 7 else if doy < 243 + k then 8 else if doy < 273 + k then 9
      else if doy < 304 + k then 10 else if doy < 334 + k then 11 else 12)"

section \<open>Texts\<close>

definition digit_char :: "nat \<Rightarrow> char" where
  "digit_char n = char_of (48 + n mod 10)"

fun pad_decimal :: "nat \<Rightarrow> nat \<Rightarrow> string" where
  "pad_decimal 0 n = []"
| "pad_decimal (Suc w) n = pad_decimal w (n div 10) @ [digit_char n]"

definition year_text :: "int \<Rightarrow> string" where
  "year_text y =
     (if 0 \<le> y \<and> y \<le> 9999 then pad_decimal 4 (nat y)
      else (if y < 0 then CHR ''-'' else CHR ''+'') # pad_decimal 6 (nat (abs y)))"

definition ms_per_day :: int where
  "ms_per_day = 86400000"

definition time_text :: "nat \<Rightarrow> string" where
  "time_text ms =
     pad_decimal 2 (ms div 3600000) @ '':'' @ pad_decimal 2 (ms div 60000 mod 60) @ '':''
     @ pad_decimal 2 (ms div 1000 mod 60) @ ''.'' @ pad_decimal 3 (ms mod 1000) @ ''Z''"

definition toISOString :: "instant \<Rightarrow> string" where
  "toISOString t =
     (let d = t div ms_per_day; y = year_from_day d; doy = d - day_from_year y; m = month_of (leap y) doy in
      year_text y @ ''-'' @ pad_decimal 2 m @ ''-''
      @ pad_decimal 2 (nat (doy - month_start (leap y) m + 1)) @ ''T'' @ time_text (nat (t mod ms_per_day)))"

text \<open>The reading of a text in the format above with a four-digit year; Date accepts more texts, but
  every caller compares the result's toISOString with the text it read.\<close>

definition iso_shape :: "string \<Rightarrow> bool" where
  "iso_shape s \<longleftrightarrow>
     length s = 24 \<and>
     list_all (\<lambda>i. is_digit (s ! i)) [0, 1, 2, 3, 5, 6, 8, 9, 11, 12, 14, 15, 17, 18, 20, 21, 22] \<and>
     s ! 4 = CHR ''-'' \<and> s ! 7 = CHR ''-'' \<and> s ! 10 = CHR ''T'' \<and> s ! 13 = CHR '':'' \<and>
     s ! 16 = CHR '':'' \<and> s ! 19 = CHR ''.'' \<and> s ! 23 = CHR ''Z''"

definition field :: "string \<Rightarrow> nat \<Rightarrow> nat \<Rightarrow> nat" where
  "field s i w = read_decimal (take w (drop i s))"

definition parse_iso :: "string \<Rightarrow> instant option" where
  "parse_iso s =
     (if iso_shape s then
        (let y = int (field s 0 4); m = field s 5 2; d = int (field s 8 2);
             ms = 3600000 * field s 11 2 + 60000 * field s 14 2 + 1000 * field s 17 2 + field s 20 3
         in if 1 \<le> m \<and> m \<le> 12
            then Some (ms_per_day * (day_from_year y + month_start (leap y) m + d - 1) + int ms)
            else None)
      else None)"

section \<open>Facts about the calendar\<close>

lemma quotient_bounds:
  fixes a b :: int assumes "0 < b"
  obtains r where "a = b * (a div b) + r" "0 \<le> r" "r < b"
  using assms mult_div_mod_eq[of b a] pos_mod_bound[of b a] pos_mod_sign[of b a] that by metis

lemma day_from_year_bounds:
  "400 * day_from_year y \<le> 146097 * (y - 1970) + 600 \<and> 146097 * (y - 1970) - 600 \<le> 400 * day_from_year y"
proof -
  define q1 q2 q3 where q: "q1 = (y - 1969) div 4" "q2 = (y - 1901) div 100" "q3 = (y - 1601) div 400"
  obtain r1 where 1: "y - 1969 = 4 * q1 + r1" "0 \<le> r1" "r1 < 4"
    using quotient_bounds[of 4 "y - 1969"] q by auto
  obtain r2 where 2: "y - 1901 = 100 * q2 + r2" "0 \<le> r2" "r2 < 100"
    using quotient_bounds[of 100 "y - 1901"] q by auto
  obtain r3 where 3: "y - 1601 = 400 * q3 + r3" "0 \<le> r3" "r3 < 400"
    using quotient_bounds[of 400 "y - 1601"] q by auto
  have d: "day_from_year y = 365 * y - 719050 + q1 - q2 + q3" by (simp add: day_from_year_def q)
  have "400 * day_from_year y \<le> 146097 * y - 287810490" using 1 2 3 d by linarith
  moreover have "146097 * y - 287811690 \<le> 400 * day_from_year y" using 1 2 3 d by linarith
  ultimately show ?thesis by simp
qed

lemma year_from_day_spec:
  "day_from_year (year_from_day d) \<le> d \<and> d < day_from_year (year_from_day d + 1)"
proof -
  obtain r where r: "400 * d = 146097 * ((400 * d) div 146097) + r" "0 \<le> r" "r < 146097"
    using quotient_bounds[of 146097 "400 * d"] by (metis zero_less_numeral)
  define q where "q = (400 * d) div 146097"
  have d: "400 * d = 146097 * q + r" using r(1) by (simp only: q_def)
  have lo: "day_from_year (1970 + q - 1) \<le> d"
    using conjunct1[OF day_from_year_bounds[of "1970 + q - 1"]] d r(2,3) by simp
  have hi: "d < day_from_year (1970 + q + 2)"
    using conjunct2[OF day_from_year_bounds[of "1970 + q + 2"]] d r(2,3) by simp
  have y: "year_from_day d = (if d < day_from_year (1970 + q) then 1970 + q - 1
      else if day_from_year (1970 + q + 1) \<le> d then 1970 + q + 1 else 1970 + q)"
    by (simp add: year_from_day_def q_def Let_def)
  show ?thesis using lo hi unfolding y by (simp add: add.commute add.assoc split: if_split)
qed

lemma month_of_range: "1 \<le> month_of lp doy \<and> month_of lp doy \<le> 12"
  by (simp add: month_of_def Let_def)

lemma year_length: "day_from_year (y + 1) \<le> day_from_year y + 367"
proof -
  have "(y - 1968) div 4 \<le> (y - 1969) div 4 + 1" "(y - 1600) div 400 \<le> (y - 1601) div 400 + 1"
    using zdiv_mono1[of "y - 1968" "y - 1969 + 4" 4] zdiv_mono1[of "y - 1600" "y - 1601 + 400" 400]
    by simp_all
  moreover have "(y - 1901) div 100 \<le> (y - 1900) div 100" by (rule zdiv_mono1) simp_all
  ultimately show ?thesis by (simp add: day_from_year_def)
qed

lemma month_of_spec:
  assumes "0 \<le> doy" "doy \<le> 367"
  shows "month_start lp (month_of lp doy) \<le> doy \<and> doy < month_start lp (month_of lp doy) + 99"
  using assms by (cases lp) (simp_all add: month_of_def month_start_def)

section \<open>Facts about texts\<close>

lemma length_pad_decimal [simp]: "length (pad_decimal w n) = w"
  by (induction w arbitrary: n) auto

lemma code_digit_char: "of_char (digit_char n) = (48 + n mod 10 :: nat)"
  by (simp add: digit_char_def)

lemma digits_pad_decimal: "list_all is_digit (pad_decimal w n)"
  by (induction w arbitrary: n) (auto simp: is_digit_def code_digit_char)

lemma read_pad_decimal: "n < 10 ^ w \<Longrightarrow> read_decimal (pad_decimal w n) = n"
proof (induction w arbitrary: n)
  case (Suc w)
  then have "read_decimal (pad_decimal w (n div 10)) = n div 10"
    by (metis Suc.IH less_mult_imp_div_less mult.commute power_Suc)
  then show ?case by (simp add: read_decimal_def code_digit_char)
qed (simp add: read_decimal_def)

text \<open>The fields of a written text are where the reader looks for them.\<close>

lemma iso_layout:
  assumes "length a = 4" "length b = 2" "length c = 2" "length h = 2" "length mi = 2" "length sec = 2"
    "length ml = 3" "list_all is_digit (a @ b @ c @ h @ mi @ sec @ ml)"
    "s = a @ ''-'' @ b @ ''-'' @ c @ ''T'' @ h @ '':'' @ mi @ '':'' @ sec @ ''.'' @ ml @ ''Z''"
  shows "iso_shape s \<and> field s 0 4 = read_decimal a \<and> field s 5 2 = read_decimal b \<and>
     field s 8 2 = read_decimal c \<and> field s 11 2 = read_decimal h \<and> field s 14 2 = read_decimal mi \<and>
     field s 17 2 = read_decimal sec \<and> field s 20 3 = read_decimal ml"
proof -
  obtain a1 a2 a3 a4 b1 b2 c1 c2 h1 h2 m1 m2 s1 s2 l1 l2 l3 where
    "a = [a1, a2, a3, a4]" "b = [b1, b2]" "c = [c1, c2]" "h = [h1, h2]" "mi = [m1, m2]"
    "sec = [s1, s2]" "ml = [l1, l2, l3]"
    using assms(1-7) by (auto simp: length_Suc_conv numeral_eq_Suc)
  then show ?thesis using assms(8,9) by (simp add: iso_shape_def field_def)
qed

lemma time_fields:
  fixes ms :: nat
  shows "3600000 * (ms div 3600000) + 60000 * (ms div 60000 mod 60) + 1000 * (ms div 1000 mod 60) + ms mod 1000 = ms"
proof -
  have sum: "3600000 * c + 60000 * r3 + 1000 * r2 + r1 = k"
    if "k = 1000 * a + r1" "a = 60 * b + r2" "b = 60 * c + r3" for a b c r1 r2 r3 k :: nat
    using that by simp
  have "ms div 60000 = ms div 1000 div 60" "ms div 3600000 = ms div 60000 div 60"
    by (simp_all add: div_mult2_eq[symmetric])
  then show ?thesis
    by (intro sum[of ms "ms div 1000" _ "ms div 60000"]) simp_all
qed

lemma parse_toISOString:
  assumes y: "0 \<le> year_from_day (t div ms_per_day)" "year_from_day (t div ms_per_day) \<le> 9999"
  shows "parse_iso (toISOString t) = Some t"
proof -
  define d where "d = t div ms_per_day"
  define yr where "yr = year_from_day d"
  define doy where "doy = d - day_from_year yr"
  define m where "m = month_of (leap yr) doy"
  define dd where "dd = nat (doy - month_start (leap yr) m + 1)"
  define ms where "ms = nat (t mod ms_per_day)"
  have doy: "0 \<le> doy" using year_from_day_spec[of d] by (simp add: doy_def yr_def)
  have m: "1 \<le> m" "m \<le> 12" using month_of_range[of "leap yr" doy] by (simp_all add: m_def)
  have start: "month_start (leap yr) m \<le> doy \<and> doy < month_start (leap yr) m + 99"
  proof -
    have "doy \<le> 367" using year_from_day_spec[of d] year_length[of yr] by (simp add: doy_def yr_def)
    from month_of_spec[OF doy this, of "leap yr"] show ?thesis by (simp add: m_def)
  qed
  have ms: "ms < 86400000" by (simp add: ms_def ms_per_day_def nat_less_iff)
  have written: "toISOString t = pad_decimal 4 (nat yr) @ ''-'' @ pad_decimal 2 m @ ''-'' @ pad_decimal 2 dd
      @ ''T'' @ pad_decimal 2 (ms div 3600000) @ '':'' @ pad_decimal 2 (ms div 60000 mod 60) @ '':''
      @ pad_decimal 2 (ms div 1000 mod 60) @ ''.'' @ pad_decimal 3 (ms mod 1000) @ ''Z''"
    using y by (simp add: toISOString_def Let_def year_text_def time_text_def
        d_def[symmetric] yr_def[symmetric] doy_def[symmetric] m_def[symmetric] dd_def[symmetric] ms_def[symmetric])
  have rd: "read_decimal (pad_decimal 4 (nat yr)) = nat yr" "read_decimal (pad_decimal 2 m) = m"
    "read_decimal (pad_decimal 2 dd) = dd" "read_decimal (pad_decimal 2 (ms div 3600000)) = ms div 3600000"
    "read_decimal (pad_decimal 2 (ms div 60000 mod 60)) = ms div 60000 mod 60"
    "read_decimal (pad_decimal 2 (ms div 1000 mod 60)) = ms div 1000 mod 60"
    "read_decimal (pad_decimal 3 (ms mod 1000)) = ms mod 1000"
    using y m start ms
    by (auto intro!: read_pad_decimal simp: yr_def d_def dd_def less_mult_imp_div_less)
  have "list_all is_digit (pad_decimal 4 (nat yr) @ pad_decimal 2 m @ pad_decimal 2 dd
      @ pad_decimal 2 (ms div 3600000) @ pad_decimal 2 (ms div 60000 mod 60)
      @ pad_decimal 2 (ms div 1000 mod 60) @ pad_decimal 3 (ms mod 1000))"
    using digits_pad_decimal by (simp only: list_all_append)
  from iso_layout[OF _ _ _ _ _ _ _ this written]
  have shape: "iso_shape (toISOString t)"
    and fl: "field (toISOString t) 0 4 = nat yr" "field (toISOString t) 5 2 = m" "field (toISOString t) 8 2 = dd"
      "field (toISOString t) 11 2 = ms div 3600000" "field (toISOString t) 14 2 = ms div 60000 mod 60"
      "field (toISOString t) 17 2 = ms div 1000 mod 60" "field (toISOString t) 20 3 = ms mod 1000"
    by (simp_all add: rd)
  have "3600000 * (ms div 3600000) + 60000 * (ms div 60000 mod 60) + 1000 * (ms div 1000 mod 60) + ms mod 1000 = ms"
    by (rule time_fields)
  then show ?thesis
    using m y start doy shape
    by (simp add: parse_iso_def fl Let_def dd_def doy_def yr_def[symmetric] d_def[symmetric] ms_def)
       (simp add: d_def ms_per_day_def)
qed

end
