(* ===== verification/Errors.thy ===== *)
theory Errors
  imports Json_Text
begin

text \<open>The failures of the program as values. A DomainException is a record with its kind, code and
  violations; its constructor applies the defaults of libs/core. \<open>fieldProblem\<close>
  (libs/contracts) builds the options of the exception most handlers raise. The result of a fallible
  operation is \<open>Inl\<close> a failure or \<open>Inr\<close> a value: a failure is a DomainException, an
  HttpException of the framework with its status, or any other error.\<close>

section \<open>Domain exceptions\<close>

datatype error_kind = Malformed | Validation | Conflict | NotFound | Forbidden | Unavailable

record violation =
  vi_path :: string
  vi_code :: string
  vi_message :: string
  vi_messageKey :: "string option"
  vi_rule :: "string option"
  vi_constraint :: "(string \<times> json) list option"

record exception_options =
  opt_kind :: "error_kind option"
  opt_code :: "string option"
  opt_title :: "string option"
  opt_messageKey :: "string option"
  opt_args :: "(string \<times> json) list option"
  opt_violations :: "violation list"
  opt_permanent :: "bool option"

record domain_exception =
  ex_message :: string
  ex_kind :: error_kind
  ex_code :: string
  ex_title :: string
  ex_messageKey :: "string option"
  ex_args :: "(string \<times> json) list option"
  ex_violations :: "violation list"
  ex_permanent :: bool

definition default_to :: "'a \<Rightarrow> 'a option \<Rightarrow> 'a" where
  "default_to d v = (case v of None \<Rightarrow> d | Some x \<Rightarrow> x)"

definition new_domain_exception :: "exception_options \<Rightarrow> domain_exception" where
  "new_domain_exception opts =
     (let code = default_to ''business_rule_violation'' (opt_code opts) in
      \<lparr> ex_message = (case opt_violations opts of [] \<Rightarrow> code | v # _ \<Rightarrow> vi_message v),
        ex_kind = default_to Validation (opt_kind opts),
        ex_code = code,
        ex_title = default_to ''Business rule violation'' (opt_title opts),
        ex_messageKey = opt_messageKey opts,
        ex_args = opt_args opts,
        ex_violations = opt_violations opts,
        ex_permanent =
          (if opt_kind opts = Some Unavailable then False else default_to True (opt_permanent opts)) \<rparr>)"

datatype failure = Domain domain_exception | Http nat string | Internal string

type_synonym 'a outcome = "failure + 'a"

section \<open>Field problems\<close>

definition title_by_kind :: "error_kind \<Rightarrow> string" where
  "title_by_kind k =
     (case k of
        Malformed \<Rightarrow> ''common.bad_request''
      | Validation \<Rightarrow> ''common.unprocessable_entity''
      | Conflict \<Rightarrow> ''common.conflict''
      | NotFound \<Rightarrow> ''common.not_found''
      | Forbidden \<Rightarrow> ''common.forbidden''
      | Unavailable \<Rightarrow> ''common.service_unavailable'')"

record field_problem_input =
  fp_kind :: error_kind
  fp_code :: string
  fp_messageKey :: string
  fp_path :: string
  fp_message :: string
  fp_permanent :: "bool option"
  fp_violationCode :: "string option"
  fp_args :: "(string \<times> json) list option"

definition fieldProblem :: "field_problem_input \<Rightarrow> exception_options" where
  "fieldProblem i =
     \<lparr> opt_kind = Some (fp_kind i),
       opt_code = Some (fp_code i),
       opt_title = Some (title_by_kind (fp_kind i)),
       opt_messageKey = Some (fp_messageKey i),
       opt_args = fp_args i,
       opt_violations =
         [\<lparr> vi_path = fp_path i, vi_code = default_to (fp_code i) (fp_violationCode i),
            vi_message = fp_message i, vi_messageKey = Some (fp_messageKey i),
            vi_rule = None, vi_constraint = None \<rparr>],
       opt_permanent = fp_permanent i \<rparr>"

text \<open>The shape every module's error helper has: kind, code, message key, path and English copy,
  with the options no caller gives left out.\<close>

definition problem :: "error_kind \<Rightarrow> string \<Rightarrow> string \<Rightarrow> string \<Rightarrow> string \<Rightarrow> field_problem_input" where
  "problem k c key p m =
     \<lparr> fp_kind = k, fp_code = c, fp_messageKey = key, fp_path = p, fp_message = m,
       fp_permanent = None, fp_violationCode = None, fp_args = None \<rparr>"

definition raise_problem :: "field_problem_input \<Rightarrow> failure" where
  "raise_problem i = Domain (new_domain_exception (fieldProblem i))"

definition is_domain :: "failure \<Rightarrow> bool" where
  "is_domain f = (case f of Domain _ \<Rightarrow> True | _ \<Rightarrow> False)"

text \<open>What consumers that retry read: a DomainException marked permanent is not tried again.\<close>

definition permanent_failure :: "failure \<Rightarrow> bool" where
  "permanent_failure f = (case f of Domain e \<Rightarrow> ex_permanent e | _ \<Rightarrow> False)"

fun failure_code :: "failure \<Rightarrow> string option" where
  "failure_code (Domain e) = Some (ex_code e)"
| "failure_code _ = None"

fun failure_kind :: "failure \<Rightarrow> error_kind option" where
  "failure_kind (Domain e) = Some (ex_kind e)"
| "failure_kind _ = None"

section \<open>Facts\<close>

lemma default_to_simps [simp]: "default_to d None = d" "default_to d (Some x) = x"
  by (simp_all add: default_to_def)

lemma new_domain_exception_sel [simp]:
  "ex_code (new_domain_exception opts) = default_to ''business_rule_violation'' (opt_code opts)"
  "ex_kind (new_domain_exception opts) = default_to Validation (opt_kind opts)"
  "ex_violations (new_domain_exception opts) = opt_violations opts"
  "ex_messageKey (new_domain_exception opts) = opt_messageKey opts"
  "ex_title (new_domain_exception opts) = default_to ''Business rule violation'' (opt_title opts)"
  "ex_args (new_domain_exception opts) = opt_args opts"
  by (simp_all add: new_domain_exception_def Let_def)

lemma permanent_new:
  "ex_permanent (new_domain_exception opts) \<longleftrightarrow>
     opt_kind opts \<noteq> Some Unavailable \<and> opt_permanent opts \<noteq> Some False"
  by (cases "opt_permanent opts") (auto simp: new_domain_exception_def Let_def)

lemma raise_problem_facts [simp]:
  "failure_code (raise_problem i) = Some (fp_code i)"
  "failure_kind (raise_problem i) = Some (fp_kind i)"
  "permanent_failure (raise_problem i) \<longleftrightarrow> fp_kind i \<noteq> Unavailable \<and> fp_permanent i \<noteq> Some False"
  "is_domain (raise_problem i)"
  by (simp_all add: raise_problem_def fieldProblem_def permanent_failure_def is_domain_def permanent_new)

lemma problem_sel [simp]:
  "fp_kind (problem k c key p m) = k" "fp_code (problem k c key p m) = c"
  "fp_messageKey (problem k c key p m) = key" "fp_path (problem k c key p m) = p"
  "fp_message (problem k c key p m) = m" "fp_permanent (problem k c key p m) = None"
  "fp_violationCode (problem k c key p m) = None" "fp_args (problem k c key p m) = None"
  by (simp_all add: problem_def)

end
