(* ===== verification/Cursor.thy ===== *)
theory Cursor
  imports Iso_Date Errors Json_Text "HOL-Library.Product_Lexorder" "HOL-Library.Multiset"
begin

text \<open>Pagination (libs/shared/src/lib/cursor-pagination.ts and pagination.types.ts, the list envelopes
  of libs/contracts): the opaque cursor and its codec, the keyset condition, the page slice, and
  offset pages. Rows are ordered newest first by (createdAt, id). The uuid package is a parameter:
  \<open>is_uuid7\<close> stands for \<open>isUuid(id) && uuidVersion(id) === 7\<close>.\<close>

section \<open>base64url\<close>

definition base64_alphabet :: string where
  "base64_alphabet = ''ABCDEFGHIJKLMNOPQRSTUVWXYZabcdefghijklmnopqrstuvwxyz0123456789-_''"

definition sextet_char :: "nat \<Rightarrow> char" where
  "sextet_char n = base64_alphabet ! n"

definition char_sextet :: "char \<Rightarrow> nat option" where
  "char_sextet c = find_index (\<lambda>d. d = c) base64_alphabet"

fun encode_bytes :: "nat list \<Rightarrow> nat list" where
  "encode_bytes (a # b # c # r) =
     (a div 4) # ((a mod 4) * 16 + b div 16) # ((b mod 16) * 4 + c div 64) # (c mod 64) # encode_bytes r"
| "encode_bytes [a, b] = [a div 4, (a mod 4) * 16 + b div 16, (b mod 16) * 4]"
| "encode_bytes [a] = [a div 4, (a mod 4) * 16]"
| "encode_bytes [] = []"

fun decode_sextets :: "nat list \<Rightarrow> nat list" where
  "decode_sextets (p # q # s # t # r) =
     (p * 4 + q div 16) # ((q mod 16) * 16 + s div 4) # ((s mod 4) * 64 + t) # decode_sextets r"
| "decode_sextets [p, q, s] = [p * 4 + q div 16, (q mod 16) * 16 + s div 4]"
| "decode_sextets [p, q] = [p * 4 + q div 16]"
| "decode_sextets _ = []"

definition base64url_encode :: "string \<Rightarrow> string" where
  "base64url_encode s = map sextet_char (encode_bytes (map of_char s))"

definition BASE64URL :: "string \<Rightarrow> bool" where
  "BASE64URL s \<longleftrightarrow> s \<noteq> [] \<and> list_all (\<lambda>c. c \<in> set base64_alphabet) s"

definition base64url_decode :: "string \<Rightarrow> string" where
  "base64url_decode s = map char_of (decode_sextets (List.map_filter char_sextet s))"

section \<open>The cursor\<close>

record decoded_cursor =
  cu_createdAt :: instant
  cu_id :: id

definition encodeCursor :: "instant \<Rightarrow> id \<Rightarrow> string" where
  "encodeCursor sortField i = base64url_encode (toISOString sortField @ '':'' @ i)"

fun index_of_ZC :: "string \<Rightarrow> nat option" where
  "index_of_ZC (a # b # r) =
     (if a = CHR ''Z'' \<and> b = CHR '':'' then Some 0 else map_option Suc (index_of_ZC (b # r)))"
| "index_of_ZC _ = None"

definition decodeCursor :: "(id \<Rightarrow> bool) \<Rightarrow> string \<Rightarrow> decoded_cursor option" where
  "decodeCursor is_uuid7 cursor =
     (if \<not> BASE64URL cursor then None
      else
        (let raw = base64url_decode cursor in
         if base64url_encode raw \<noteq> cursor then None
         else
           (case index_of_ZC raw of
              None \<Rightarrow> None
            | Some splitIdx \<Rightarrow>
                (let encodedDate = take (splitIdx + 1) raw; i = drop (splitIdx + 2) raw in
                 case parse_iso encodedDate of
                   None \<Rightarrow> None
                 | Some createdAt \<Rightarrow>
                     if toISOString createdAt \<noteq> encodedDate \<or> \<not> is_uuid7 i then None
                     else Some \<lparr> cu_createdAt = createdAt, cu_id = i \<rparr>))))"

definition invalidCursorProblem :: "string \<Rightarrow> field_problem_input" where
  "invalidCursorProblem path =
     problem Malformed ''invalid_cursor'' ''errors.pagination.invalid_cursor'' path
       (path @ '' is not a valid cursor'')"

text \<open>Every list handler reads its cursor this way; an empty one counts as absent.\<close>

definition decodeStartingAfter :: "(id \<Rightarrow> bool) \<Rightarrow> string option \<Rightarrow> decoded_cursor option outcome" where
  "decodeStartingAfter is_uuid7 raw =
     (case raw of
        None \<Rightarrow> Inr None
      | Some c \<Rightarrow>
          if c = [] then Inr None
          else (case decodeCursor is_uuid7 c of
                  None \<Rightarrow> Inl (raise_problem (invalidCursorProblem ''startingAfter''))
                | Some d \<Rightarrow> Inr (Some d)))"

section \<open>Keyset pages\<close>

type_synonym cursor_key = "instant \<times> id"

definition cursor_key_of :: "decoded_cursor \<Rightarrow> cursor_key" where
  "cursor_key_of c = (cu_createdAt c, cu_id c)"

text \<open>\<open>OR: [{ createdAt: { lt } }, { createdAt, id: { lt } }]\<close>\<close>

definition keysetAfter :: "decoded_cursor \<Rightarrow> cursor_key \<Rightarrow> bool" where
  "keysetAfter c k \<longleftrightarrow> fst k < cu_createdAt c \<or> fst k = cu_createdAt c \<and> snd k < cu_id c"

record 'a page_slice =
  pg_items :: "'a list"
  pg_hasMore :: bool

definition takePage :: "'a list \<Rightarrow> nat \<Rightarrow> 'a page_slice" where
  "takePage rows limit = \<lparr> pg_items = take limit rows, pg_hasMore = (limit < length rows) \<rparr>"

definition lastCursorOf :: "('a \<Rightarrow> cursor_key) \<Rightarrow> 'a list \<Rightarrow> string option" where
  "lastCursorOf key items =
     (if items = [] then None else Some (encodeCursor (fst (key (last items))) (snd (key (last items)))))"

definition compareNewestFirst :: "cursor_key \<Rightarrow> cursor_key \<Rightarrow> int" where
  "compareNewestFirst l r =
     (let byDate = fst r - fst l in
      if byDate \<noteq> 0 then byDate
      else if snd r < snd l then -1 else if snd l < snd r then 1 else 0)"

text \<open>\<open>orderBy: [{ createdAt: 'desc' }, { id: 'desc' }]\<close>, and the stable sort by the
  comparator above.\<close>

definition newest_first :: "('a \<Rightarrow> cursor_key) \<Rightarrow> 'a list \<Rightarrow> 'a list" where
  "newest_first key rows = rev (sort_key key (rev rows))"

definition paginateNewestFirst ::
    "('a \<Rightarrow> cursor_key) \<Rightarrow> 'a list \<Rightarrow> decoded_cursor option \<Rightarrow> nat \<Rightarrow> 'a page_slice" where
  "paginateNewestFirst key rows startingAfter limit =
     (let sorted = newest_first key rows;
          remaining = (case startingAfter of
                         None \<Rightarrow> sorted
                       | Some c \<Rightarrow> filter (\<lambda>r. 0 < compareNewestFirst (key r) (cursor_key_of c)) sorted)
      in takePage remaining limit)"

text \<open>The query every list repository runs: the tenant's rows that match, after the cursor, newest
  first, one more than the page asks for.\<close>

definition keyset_query ::
    "('a \<Rightarrow> cursor_key) \<Rightarrow> ('a \<Rightarrow> bool) \<Rightarrow> 'a list \<Rightarrow> decoded_cursor option \<Rightarrow> nat \<Rightarrow> 'a page_slice" where
  "keyset_query key sel rows startingAfter limit =
     (let found = take (limit + 1)
           (newest_first key
             (filter (\<lambda>r. sel r \<and> (case startingAfter of None \<Rightarrow> True | Some c \<Rightarrow> keysetAfter c (key r))) rows))
      in takePage found limit)"

section \<open>Offset pages\<close>

record page_meta =
  pm_page :: int
  pm_pageSize :: int
  pm_total :: int
  pm_totalPages :: int
  pm_hasPrevPage :: bool
  pm_hasNextPage :: bool

definition ceil_div :: "int \<Rightarrow> int \<Rightarrow> int" where
  "ceil_div a b = - ((- a) div b)"

definition buildPageMeta :: "int \<Rightarrow> int \<Rightarrow> int \<Rightarrow> page_meta" where
  "buildPageMeta page pageSize total_rows =
     (let totalPages = max 1 (ceil_div total_rows (max 1 pageSize)) in
      \<lparr> pm_page = page, pm_pageSize = pageSize, pm_total = total_rows, pm_totalPages = totalPages,
        pm_hasPrevPage = (1 < page), pm_hasNextPage = (page < totalPages) \<rparr>)"

definition paginationSkip :: "int \<Rightarrow> int \<Rightarrow> int" where
  "paginationSkip page pageSize = (max 1 page - 1) * max 0 pageSize"

record 'a list_response =
  lr_url :: string
  lr_data :: "'a list"
  lr_hasMore :: bool
  lr_page :: "int option"
  lr_pageSize :: "int option"
  lr_totalCount :: "int option"
  lr_lastCursor :: "string option"

definition toListResponse :: "string \<Rightarrow> 'a list \<Rightarrow> int \<Rightarrow> int \<Rightarrow> int \<Rightarrow> bool \<Rightarrow> 'a list_response" where
  "toListResponse url items page pageSize total_rows includeTotal =
     (let lastPage = max 1 (ceil_div total_rows (max 1 pageSize)) in
      \<lparr> lr_url = url, lr_data = items, lr_hasMore = (page < lastPage), lr_page = Some page,
        lr_pageSize = Some pageSize,
        lr_totalCount = (if includeTotal then Some total_rows else None), lr_lastCursor = None \<rparr>)"

definition toCursorListResponse :: "string \<Rightarrow> 'a list \<Rightarrow> bool \<Rightarrow> string option \<Rightarrow> 'a list_response" where
  "toCursorListResponse url items hasMore lastCursor =
     \<lparr> lr_url = url, lr_data = items, lr_hasMore = hasMore, lr_page = None, lr_pageSize = None,
       lr_totalCount = None, lr_lastCursor = lastCursor \<rparr>"

definition toUnpaginatedListResponse :: "string \<Rightarrow> 'a list \<Rightarrow> 'a list_response" where
  "toUnpaginatedListResponse url items =
     toListResponse url items 1 (int (length items)) (int (length items)) True"

section \<open>Facts about base64url\<close>

lemma decode_encode_bytes: "list_all (\<lambda>b. b < 256) bs \<Longrightarrow> decode_sextets (encode_bytes bs) = bs"
  by (induction bs rule: encode_bytes.induct) auto

lemma encode_bytes_sextets: "list_all (\<lambda>b. b < 256) bs \<Longrightarrow> list_all (\<lambda>n. n < 64) (encode_bytes bs)"
  by (induction bs rule: encode_bytes.induct) auto

lemma alphabet_index_all: "list_all (\<lambda>n. char_sextet (sextet_char n) = Some n) [0..<64]"
  by code_simp

lemma char_sextet_char: "n < 64 \<Longrightarrow> char_sextet (sextet_char n) = Some n"
  using alphabet_index_all by (simp add: list_all_iff)

lemma base64url_roundtrip: "base64url_decode (base64url_encode s) = s"
proof -
  let ?bs = "map of_char s :: nat list"
  have b: "list_all (\<lambda>b. b < 256) ?bs" by (simp add: list_all_iff char_code_less)
  have "List.map_filter char_sextet (map sextet_char ns) = ns" if "list_all (\<lambda>n. n < 64) ns" for ns
    using that by (induction ns) (auto simp: char_sextet_char map_filter_simps)
  from this[OF encode_bytes_sextets[OF b]] show ?thesis
    by (simp add: base64url_decode_def base64url_encode_def decode_encode_bytes[OF b] comp_def)
qed

lemma encode_bytes_Nil_iff [simp]: "encode_bytes bs = [] \<longleftrightarrow> bs = []"
  by (cases bs rule: encode_bytes.cases) auto

lemma base64url_encode_alphabet: "s \<noteq> [] \<Longrightarrow> BASE64URL (base64url_encode s)"
proof -
  have b: "list_all (\<lambda>b. b < 256) (map of_char s :: nat list)" by (simp add: list_all_iff char_code_less)
  have "sextet_char n \<in> set base64_alphabet" if "n < 64" for n
    using that by (simp add: sextet_char_def base64_alphabet_def nth_mem del: list.set)
  then show "s \<noteq> [] \<Longrightarrow> BASE64URL (base64url_encode s)"
    using encode_bytes_sextets[OF b]
    by (auto simp: BASE64URL_def base64url_encode_def list_all_iff)
qed

section \<open>Facts about the cursor\<close>

definition four_digit_year :: "instant \<Rightarrow> bool" where
  "four_digit_year t \<longleftrightarrow>
     0 \<le> year_from_day (t div ms_per_day) \<and> year_from_day (t div ms_per_day) \<le> 9999"

lemma index_of_ZC_first:
  "CHR ''Z'' \<notin> set p \<Longrightarrow> index_of_ZC (p @ CHR ''Z'' # CHR '':'' # r) = Some (length p)"
proof (induction p)
  case (Cons x p)
  then show ?case by (cases p) auto
qed simp

lemma Z_not_digit: "list_all is_digit s \<Longrightarrow> CHR ''Z'' \<notin> set s"
  by (auto simp: list_all_iff is_digit_def)

lemma toISOString_Z:
  assumes "four_digit_year t"
  obtains p where "toISOString t = p @ ''Z''" "CHR ''Z'' \<notin> set p"
  using assms that
  by (simp add: toISOString_def Let_def year_text_def time_text_def four_digit_year_def
      digits_pad_decimal Z_not_digit)

lemma decode_encode_cursor:
  assumes "four_digit_year t" "is_uuid7 i"
  shows "decodeCursor is_uuid7 (encodeCursor t i) = Some \<lparr> cu_createdAt = t, cu_id = i \<rparr>"
proof -
  obtain p where p: "toISOString t = p @ ''Z''" "CHR ''Z'' \<notin> set p"
    using toISOString_Z[OF assms(1)] .
  let ?raw = "toISOString t @ '':'' @ i"
  have "index_of_ZC ?raw = Some (length p)" using index_of_ZC_first[OF p(2)] by (simp add: p(1))
  moreover have "BASE64URL (encodeCursor t i)"
    by (simp add: encodeCursor_def base64url_encode_alphabet p(1))
  moreover have "parse_iso (toISOString t) = Some t"
    using assms(1) by (intro parse_toISOString) (simp_all add: four_digit_year_def)
  ultimately show ?thesis
    using assms(2) by (simp add: decodeCursor_def encodeCursor_def base64url_roundtrip Let_def p(1))
qed

lemma decodeCursor_sound:
  assumes "decodeCursor is_uuid7 c = Some d"
  shows "c = encodeCursor (cu_createdAt d) (cu_id d) \<and> is_uuid7 (cu_id d)"
proof -
  obtain k t where k: "index_of_ZC (base64url_decode c) = Some k"
    and t: "toISOString t = take (k + 1) (base64url_decode c)" "is_uuid7 (drop (k + 2) (base64url_decode c))"
    and d: "d = \<lparr> cu_createdAt = t, cu_id = drop (k + 2) (base64url_decode c) \<rparr>"
    and c: "base64url_encode (base64url_decode c) = c"
    using assms by (auto simp: decodeCursor_def Let_def split: if_splits option.splits)
  have "take 1 (drop (k + 1) s) = '':''" if "index_of_ZC s = Some k" for s
    using that
    by (induction s arbitrary: k rule: index_of_ZC.induct) (auto split: if_splits)
  from this[OF k] have "drop (k + 1) (base64url_decode c) = '':'' @ drop (k + 2) (base64url_decode c)"
    by (metis add.commute add_Suc append_Cons append_Nil append_take_drop_id drop_drop one_add_one plus_1_eq_Suc)
  then have "toISOString t @ '':'' @ drop (k + 2) (base64url_decode c) = base64url_decode c"
    by (metis append_take_drop_id t(1))
  then show ?thesis using t(2) c by (simp add: d encodeCursor_def)
qed

section \<open>Facts about pages\<close>

lemma keysetAfter_less: "keysetAfter c k \<longleftrightarrow> k < cursor_key_of c"
  by (cases k) (auto simp: keysetAfter_def cursor_key_of_def less_prod_def')

lemma compareNewestFirst_pos: "0 < compareNewestFirst k l \<longleftrightarrow> k < l"
  by (cases k; cases l) (auto simp: compareNewestFirst_def Let_def less_prod_def')

lemma set_newest_first [simp]: "set (newest_first key rows) = set rows"
  by (simp add: newest_first_def)

lemma length_newest_first [simp]: "length (newest_first key rows) = length rows"
  by (simp add: newest_first_def)

lemma mset_newest_first [simp]: "mset (newest_first key rows) = mset rows"
  by (simp add: newest_first_def)

lemma sorted_newest_first: "sorted_wrt (\<lambda>a b. key b \<le> key a) (newest_first key rows)"
  by (simp add: newest_first_def sorted_wrt_rev) (metis (no_types) sorted_map sorted_sort_key)

text \<open>Filtering before or after the sort is the same, so the query and the in-memory pagination give
  the same page.\<close>

lemma newest_first_filter: "newest_first key (filter p rows) = filter p (newest_first key rows)"
  by (simp add: newest_first_def rev_filter filter_sort[symmetric])

lemma takePage_take_Suc: "takePage (take (limit + 1) xs) limit = takePage xs limit"
  by (auto simp: takePage_def min_def)

lemma keyset_query_paginates:
  "keyset_query key sel rows c limit = paginateNewestFirst key (filter sel rows) c limit"
  by (cases c)
    (simp_all add: keyset_query_def paginateNewestFirst_def Let_def takePage_take_Suc[simplified]
       newest_first_filter compareNewestFirst_pos keysetAfter_less filter_filter conj_commute)

lemma sort_key_map: "sort_key key (map f xs) = map f (sort_key (\<lambda>x. key (f x)) xs)"
proof (induction xs)
  case (Cons x xs)
  have "insort_key key (f y) (map f ys) = map f (insort_key (\<lambda>x. key (f x)) y ys)" for y ys
    by (induction ys) simp_all
  then show ?case using Cons by simp
qed simp

lemma newest_first_map: "newest_first key (map f xs) = map f (newest_first (\<lambda>x. key (f x)) xs)"
  by (simp add: newest_first_def rev_map sort_key_map)

lemma paginate_map:
  "paginateNewestFirst key (map f xs) c limit =
     (let page = paginateNewestFirst (\<lambda>x. key (f x)) xs c limit
      in \<lparr> pg_items = map f (pg_items page), pg_hasMore = pg_hasMore page \<rparr>)"
  by (cases c) (simp_all add: paginateNewestFirst_def newest_first_map takePage_def take_map Let_def filter_map comp_def)

text \<open>A page of a strictly descending list: the part after the cursor.\<close>

lemma filter_after_last:
  assumes "sorted_wrt (\<lambda>a b. key b < (key a :: cursor_key)) (xs @ ys)" "xs \<noteq> []"
  shows "filter (\<lambda>r. key r < key (last xs)) (xs @ ys) = ys"
proof -
  have l: "last xs \<in> set xs" using assms(2) by simp
  have "filter (\<lambda>r. key r < key (last xs)) xs = []"
  proof -
    obtain zs where zs: "xs = zs @ [last xs]" using assms(2) by (metis append_butlast_last_id)
    then have "sorted_wrt (\<lambda>a b. key b < key a) (zs @ [last xs])"
      using assms(1) by (metis sorted_wrt_append)
    then have "\<forall>z \<in> set zs. key (last xs) < key z" by (simp add: sorted_wrt_append)
    then have "filter (\<lambda>r. key r < key (last xs)) (zs @ [last xs]) = []"
      by (auto simp: filter_empty_conv)
    then show ?thesis using zs by simp
  qed
  moreover have "filter (\<lambda>r. key r < key (last xs)) ys = ys"
    using assms(1) l by (auto simp: filter_id_conv sorted_wrt_append)
  ultimately show ?thesis by simp
qed

lemma strictly_descending:
  assumes "distinct (map key rows)"
  shows "sorted_wrt (\<lambda>a b. key b < (key a :: cursor_key)) (newest_first key rows)"
proof -
  have "distinct (map key (newest_first key rows))"
    using assms by (metis mset_eq_imp_distinct_iff mset_map mset_newest_first)
  with sorted_newest_first[of key rows] show ?thesis
    by (auto simp: sorted_wrt_iff_nth_less distinct_conv_nth order.strict_iff_order)
qed

text \<open>Following the cursors: ask for a page, go on after its last row while there is more.\<close>

fun walk_pages :: "('a \<Rightarrow> cursor_key) \<Rightarrow> (decoded_cursor option \<Rightarrow> 'a page_slice) \<Rightarrow> nat \<Rightarrow> decoded_cursor option \<Rightarrow> 'a list" where
  "walk_pages key ask 0 c = []"
| "walk_pages key ask (Suc n) c =
     (let page = ask c in
      pg_items page @
      (if pg_hasMore page then
         walk_pages key ask n
           (Some \<lparr> cu_createdAt = fst (key (last (pg_items page))), cu_id = snd (key (last (pg_items page))) \<rparr>)
       else []))"

lemma page_after:
  assumes "sorted_wrt (\<lambda>a b. key b < (key a :: cursor_key)) (newest_first key rows)"
    "newest_first key rows = xs @ ys" "xs \<noteq> []" "k = key (last xs)"
  shows "paginateNewestFirst key rows (Some \<lparr> cu_createdAt = fst k, cu_id = snd k \<rparr>) limit = takePage ys limit"
  using filter_after_last[of key xs ys] assms
  by (simp add: paginateNewestFirst_def Let_def compareNewestFirst_pos cursor_key_of_def)

lemma walk_rest:
  assumes desc: "sorted_wrt (\<lambda>a b. key b < (key a :: cursor_key)) (newest_first key rows)"
    and split: "newest_first key rows = xs @ ys" and c: "c = (if xs = [] then None
       else Some \<lparr> cu_createdAt = fst (key (last xs)), cu_id = snd (key (last xs)) \<rparr>)"
    and limit: "0 < limit" and fuel: "length ys < n"
  shows "walk_pages key (\<lambda>c. paginateNewestFirst key rows c limit) n c = ys"
  using split c fuel
proof (induction n arbitrary: xs ys c)
  case (Suc n)
  have page: "paginateNewestFirst key rows c limit = takePage ys limit"
  proof (cases "xs = []")
    case True
    then show ?thesis using Suc.prems by (simp add: paginateNewestFirst_def Let_def)
  next
    case False
    then show ?thesis using page_after[OF desc Suc.prems(1) False refl] Suc.prems(2) by simp
  qed
  show ?case
  proof (cases "limit < length ys")
    case True
    let ?t = "take limit ys"
    have ne: "?t \<noteq> []" using True limit by auto
    have "walk_pages key (\<lambda>c. paginateNewestFirst key rows c limit) n
        (Some \<lparr> cu_createdAt = fst (key (last ?t)), cu_id = snd (key (last ?t)) \<rparr>) = drop limit ys"
      using True limit Suc.prems ne
      by (intro Suc.IH[of "xs @ ?t"]) (auto simp: last_append)
    then show ?thesis using True by (simp add: page takePage_def)
  qed (simp add: page takePage_def)
qed simp

text \<open>The next page starts before the last row exactly when rows remain.\<close>

lemma ceil_div_less:
  assumes "1 \<le> m"
  shows "p < ceil_div n m \<longleftrightarrow> p * m < (n :: int)"
proof -
  obtain r where r: "- n = m * ((- n) div m) + r" "0 \<le> r" "r < m"
    using quotient_bounds[of m "- n"] assms by auto
  let ?q = "(- n) div m"
  show ?thesis
  proof
    assume "p < ceil_div n m"
    then have "p + 1 \<le> - ?q" by (simp add: ceil_div_def)
    then have "(p + 1) * m \<le> (- ?q) * m" using assms by (intro mult_right_mono) simp_all
    then show "p * m < n" using r by (simp add: algebra_simps)
  next
    assume "p * m < n"
    show "p < ceil_div n m"
    proof (rule ccontr)
      assume "\<not> p < ceil_div n m"
      then have "- ?q \<le> p" by (simp add: ceil_div_def)
      then have "(- ?q) * m \<le> p * m" using assms by (intro mult_right_mono) simp_all
      then show False using r \<open>p * m < n\<close> by (simp add: algebra_simps)
    qed
  qed
qed

end
