(* ===== verification/Permissions.thy ===== *)
theory Permissions
  imports Json_Text "HOL-Library.Multiset"
begin

text \<open>The permission catalog of libs/shared/src/lib/permissions.ts, the system roles, and the text
  a tenant role is stored as: \<open>serializePermissionStatements\<close> groups permissions by
  resource and prints JSON, \<open>parsePermissionStatements\<close> reads it back and separates what the
  catalog knows from what it does not.\<close>

type_synonym permission = string

section \<open>Catalog\<close>

definition RESOURCE_TYPES :: "string list" where
  "RESOURCE_TYPES =
     [''organization'', ''member'', ''team'', ''invitation'', ''role'', ''file'', ''audit_log'',
      ''api_key'', ''feature_flag'', ''notification'', ''session'', ''term'']"

definition ALL_PERMISSIONS :: "permission list" where
  "ALL_PERMISSIONS =
     [''organization:read'', ''organization:update'', ''organization:delete'',
      ''member:read'', ''member:invite'', ''member:update'', ''member:remove'',
      ''team:read'', ''team:create'', ''team:update'', ''team:delete'',
      ''invitation:read'', ''invitation:cancel'',
      ''role:read'', ''role:create'', ''role:update'', ''role:delete'',
      ''file:read'', ''file:create'', ''file:delete'',
      ''audit_log:read'',
      ''api_key:read'', ''api_key:create'', ''api_key:revoke'',
      ''feature_flag:read'', ''feature_flag:manage'',
      ''notification:read'', ''notification:update'',
      ''session:read'', ''session:revoke'',
      ''term:read'', ''term:accept'']"

definition resourceTypeOf :: "permission \<Rightarrow> string" where
  "resourceTypeOf p = hd (split_on (CHR '':'') p)"

section \<open>Statements\<close>

text \<open>\<open>(grouped[resource] ??= []).push(action)\<close>, over the object's entries in insertion
  order.\<close>

definition push_action :: "(string \<times> string list) list \<Rightarrow> string \<Rightarrow> string \<Rightarrow> (string \<times> string list) list" where
  "push_action grouped resource action =
     AList.update resource
       ((case map_of grouped resource of None \<Rightarrow> [] | Some as \<Rightarrow> as) @ [action]) grouped"

definition group_step :: "(string \<times> string list) list \<Rightarrow> permission \<Rightarrow> (string \<times> string list) list" where
  "group_step grouped p =
     (case split_on (CHR '':'') p of
        resource # action # _ \<Rightarrow>
          if resource = [] \<or> action = [] then grouped else push_action grouped resource action
      | _ \<Rightarrow> grouped)"

definition groupPermissionsByResource :: "permission list \<Rightarrow> (string \<times> string list) list" where
  "groupPermissionsByResource ps = foldl group_step [] ps"

definition statements_json :: "(string \<times> string list) list \<Rightarrow> json" where
  "statements_json g = JObj (map (\<lambda>(r, as). (r, JArr (map JStr as))) g)"

definition serializePermissionStatements :: "permission list \<Rightarrow> string" where
  "serializePermissionStatements ps = stringify (statements_json (groupPermissionsByResource ps))"

record parsed_statements =
  granted :: "permission list"
  unknown :: "string list"

text \<open>Object.entries lists the array-index keys first, in ascending order, then the other keys in
  insertion order; the entries of an array are its elements under their indices.\<close>

definition array_index :: "string \<Rightarrow> bool" where
  "array_index k \<longleftrightarrow>
     natural_numeral k \<and> read_decimal k < 4294967295"

definition object_entries :: "(string \<times> 'v) list \<Rightarrow> (string \<times> 'v) list" where
  "object_entries ms =
     sort_key (\<lambda>m. read_decimal (fst m)) (filter (\<lambda>m. array_index (fst m)) ms)
     @ filter (\<lambda>m. \<not> array_index (fst m)) ms"

definition candidate :: "string \<Rightarrow> string \<Rightarrow> string" where
  "candidate resource action = resource @ '':'' @ action"

definition read_action :: "string \<Rightarrow> parsed_statements \<Rightarrow> json \<Rightarrow> parsed_statements" where
  "read_action resource acc a =
     (case a of
        JStr action \<Rightarrow>
          (let c = candidate resource action in
           if c \<in> set ALL_PERMISSIONS then acc \<lparr> granted := granted acc @ [c] \<rparr>
           else acc \<lparr> unknown := unknown acc @ [c] \<rparr>)
      | _ \<Rightarrow> acc)"

definition read_entry :: "parsed_statements \<Rightarrow> string \<times> json \<Rightarrow> parsed_statements" where
  "read_entry acc e =
     (case snd e of JArr actions \<Rightarrow> foldl (read_action (fst e)) acc actions | _ \<Rightarrow> acc)"

definition array_members :: "json list \<Rightarrow> (nat \<times> json) list" where
  "array_members js = enumerate 0 js"

definition no_statements :: parsed_statements where
  "no_statements = \<lparr> granted = [], unknown = [] \<rparr>"

definition parsePermissionStatements :: "string \<Rightarrow> parsed_statements option" where
  "parsePermissionStatements raw =
     (case json_parse raw of
        None \<Rightarrow> None
      | Some (JObj ms) \<Rightarrow> Some (foldl read_entry no_statements (object_entries ms))
      | Some (JArr js) \<Rightarrow>
          Some (foldl read_entry no_statements (map (\<lambda>(i, j). (decimal i, j)) (array_members js)))
      | Some _ \<Rightarrow> Some no_statements)"

section \<open>System roles\<close>

definition SYSTEM_ROLES :: "string list" where
  "SYSTEM_ROLES = [''owner'', ''admin'', ''member'', ''billing'', ''viewer'']"

definition OWNER_PERMISSIONS :: "permission list" where
  "OWNER_PERMISSIONS = ALL_PERMISSIONS"

definition ADMIN_PERMISSIONS :: "permission list" where
  "ADMIN_PERMISSIONS = filter (\<lambda>p. p \<noteq> ''organization:delete'') ALL_PERMISSIONS"

definition SELF_SERVICE_PERMISSIONS :: "permission list" where
  "SELF_SERVICE_PERMISSIONS =
     [''notification:read'', ''notification:update'', ''session:read'', ''session:revoke'',
      ''term:read'', ''term:accept'']"

definition MEMBER_PERMISSIONS :: "permission list" where
  "MEMBER_PERMISSIONS =
     [''organization:read'', ''member:read'', ''team:read'', ''file:read'', ''file:create'',
      ''file:delete'', ''feature_flag:read''] @ SELF_SERVICE_PERMISSIONS"

definition BILLING_PERMISSIONS :: "permission list" where
  "BILLING_PERMISSIONS = [''organization:read'', ''member:read''] @ SELF_SERVICE_PERMISSIONS"

definition VIEWER_PERMISSIONS :: "permission list" where
  "VIEWER_PERMISSIONS =
     [''organization:read'', ''member:read'', ''team:read'', ''file:read'', ''feature_flag:read'']
     @ SELF_SERVICE_PERMISSIONS"

definition SYSTEM_ROLE_PERMISSIONS :: "(string \<times> permission list) list" where
  "SYSTEM_ROLE_PERMISSIONS =
     [(''owner'', OWNER_PERMISSIONS), (''admin'', ADMIN_PERMISSIONS), (''member'', MEMBER_PERMISSIONS),
      (''billing'', BILLING_PERMISSIONS), (''viewer'', VIEWER_PERMISSIONS)]"

definition isSystemRole :: "string \<Rightarrow> bool" where
  "isSystemRole role \<longleftrightarrow> role \<in> fst ` set SYSTEM_ROLE_PERMISSIONS"

definition system_role_permissions :: "string \<Rightarrow> permission list" where
  "system_role_permissions role =
     (case map_of SYSTEM_ROLE_PERMISSIONS role of None \<Rightarrow> [] | Some ps \<Rightarrow> ps)"

section \<open>Facts about the catalog\<close>

definition splits_in_two :: "permission \<Rightarrow> bool" where
  "splits_in_two p =
     (case split_on (CHR '':'') p of
        [r, a] \<Rightarrow> r \<noteq> [] \<and> a \<noteq> [] \<and> p = candidate r a \<and> r \<in> set RESOURCE_TYPES \<and> \<not> array_index r
      | _ \<Rightarrow> False)"

lemma catalog_splits_all: "list_all splits_in_two ALL_PERMISSIONS"
  by code_simp

lemma catalog_splits:
  assumes "p \<in> set ALL_PERMISSIONS"
  obtains r a where "split_on (CHR '':'') p = [r, a]" "r \<noteq> []" "a \<noteq> []" "p = candidate r a"
    "r \<in> set RESOURCE_TYPES" "\<not> array_index r"
proof -
  have "splits_in_two p" using assms catalog_splits_all by (simp add: list_all_iff)
  then show ?thesis
    using that by (auto simp: splits_in_two_def split: list.splits)
qed

lemma resourceTypeOf_catalog: "p \<in> set ALL_PERMISSIONS \<Longrightarrow> resourceTypeOf p \<in> set RESOURCE_TYPES"
  by (elim catalog_splits) (simp add: resourceTypeOf_def)

lemma distinct_ALL_PERMISSIONS: "distinct ALL_PERMISSIONS"
  by code_simp

lemma ADMIN_PERMISSIONS_iff:
  "p \<in> set ADMIN_PERMISSIONS \<longleftrightarrow> p \<in> set ALL_PERMISSIONS \<and> p \<noteq> ''organization:delete''"
  by (auto simp: ADMIN_PERMISSIONS_def)

lemma isSystemRole_iff: "isSystemRole role \<longleftrightarrow> role \<in> set SYSTEM_ROLES"
  by (auto simp: isSystemRole_def SYSTEM_ROLE_PERMISSIONS_def SYSTEM_ROLES_def)

lemma system_roles_in_catalog_all:
  "list_all (\<lambda>(r, ps). list_all (\<lambda>p. p \<in> set ALL_PERMISSIONS) ps) SYSTEM_ROLE_PERMISSIONS"
  by code_simp

lemma system_role_permissions_catalog:
  "p \<in> set (system_role_permissions role) \<Longrightarrow> p \<in> set ALL_PERMISSIONS"
proof -
  assume p: "p \<in> set (system_role_permissions role)"
  then obtain ps where "map_of SYSTEM_ROLE_PERMISSIONS role = Some ps" "p \<in> set ps"
    by (cases "map_of SYSTEM_ROLE_PERMISSIONS role") (simp_all add: system_role_permissions_def)
  then show ?thesis
    using system_roles_in_catalog_all by (auto simp: list_all_iff dest!: map_of_SomeD)
qed

section \<open>Facts about statements\<close>

definition flat_statements :: "(string \<times> string list) list \<Rightarrow> permission list" where
  "flat_statements g = concat (map (\<lambda>(r, as). map (candidate r) as) g)"

lemma flat_update:
  "mset (flat_statements (AList.update r ((case map_of g r of None \<Rightarrow> [] | Some as \<Rightarrow> as) @ [a]) g))
     = add_mset (candidate r a) (mset (flat_statements g))"
  by (induction g) (auto simp: flat_statements_def)

lemma flat_group:
  assumes "set ps \<subseteq> set ALL_PERMISSIONS"
  shows "mset (flat_statements (foldl group_step g ps)) = mset (flat_statements g) + mset ps"
  using assms
proof (induction ps arbitrary: g)
  case (Cons p ps)
  then obtain r a where "split_on (CHR '':'') p = [r, a]" "r \<noteq> []" "a \<noteq> []" "p = candidate r a"
    by (auto elim: catalog_splits)
  then have "mset (flat_statements (group_step g p)) = add_mset p (mset (flat_statements g))"
    by (simp add: group_step_def push_action_def flat_update)
  then show ?case using Cons by simp
qed simp

definition plain_keys :: "(string \<times> 'v) list \<Rightarrow> bool" where
  "plain_keys g \<longleftrightarrow> distinct (map fst g) \<and> (\<forall>k \<in> fst ` set g. \<not> array_index k)"

lemma plain_keys_group_step:
  assumes "p \<in> set ALL_PERMISSIONS" "plain_keys g"
  shows "plain_keys (group_step g p)"
  using assms by (elim catalog_splits)
    (auto simp: plain_keys_def group_step_def push_action_def distinct_update dom_update
       simp flip: dom_map_of_conv_image_fst)

lemma plain_keys_group:
  "set ps \<subseteq> set ALL_PERMISSIONS \<Longrightarrow> plain_keys g \<Longrightarrow> plain_keys (foldl group_step g ps)"
  by (induction ps arbitrary: g) (simp_all add: plain_keys_group_step)

lemma statements_plain: "plain_keys g \<Longrightarrow> plain_json (statements_json g)"
  by (auto simp: plain_keys_def statements_json_def list_all_iff comp_def case_prod_beta)

lemma object_entries_plain: "plain_keys ms \<Longrightarrow> object_entries ms = ms"
  by (simp add: plain_keys_def object_entries_def filter_False filter_True)

definition known :: "permission list \<Rightarrow> permission list" where
  "known ps = filter (\<lambda>c. c \<in> set ALL_PERMISSIONS) ps"

definition not_known :: "permission list \<Rightarrow> permission list" where
  "not_known ps = filter (\<lambda>c. c \<notin> set ALL_PERMISSIONS) ps"

lemma read_actions:
  "foldl (read_action r) acc (map JStr as) =
     acc \<lparr> granted := granted acc @ known (map (candidate r) as),
           unknown := unknown acc @ not_known (map (candidate r) as) \<rparr>"
  by (induction as arbitrary: acc) (auto simp: read_action_def Let_def known_def not_known_def)

lemma read_entries:
  "foldl read_entry acc (map (\<lambda>(r, as). (r, JArr (map JStr as))) g) =
     acc \<lparr> granted := granted acc @ known (flat_statements g),
           unknown := unknown acc @ not_known (flat_statements g) \<rparr>"
  by (induction g arbitrary: acc)
    (auto simp: read_entry_def read_actions known_def not_known_def flat_statements_def)

lemma parse_serialized:
  assumes "set ps \<subseteq> set ALL_PERMISSIONS"
  shows "\<exists>r. parsePermissionStatements (serializePermissionStatements ps) = Some r \<and>
             mset (granted r) = mset ps \<and> unknown r = []"
proof -
  let ?g = "groupPermissionsByResource ps"
  have keys: "plain_keys ?g"
    using plain_keys_group[OF assms, of "[]"]
    by (simp add: groupPermissionsByResource_def plain_keys_def)
  have flat: "mset (flat_statements ?g) = mset ps"
    using flat_group[OF assms, of "[]"]
    by (simp add: groupPermissionsByResource_def flat_statements_def)
  then have all: "set (flat_statements ?g) \<subseteq> set ALL_PERMISSIONS"
    using assms by (metis set_mset_mset)
  have ent: "object_entries (map (\<lambda>(r, as). (r, JArr (map JStr as))) ?g)
               = map (\<lambda>(r, as). (r, JArr (map JStr as))) ?g"
    using keys by (intro object_entries_plain) (auto simp: plain_keys_def comp_def case_prod_beta)
  have "json_parse (serializePermissionStatements ps) = Some (statements_json ?g)"
    using keys by (simp add: serializePermissionStatements_def json_roundtrip statements_plain)
  then have "parsePermissionStatements (serializePermissionStatements ps) =
      Some \<lparr> granted = known (flat_statements ?g), unknown = not_known (flat_statements ?g) \<rparr>"
    by (simp add: parsePermissionStatements_def statements_json_def ent read_entries
          no_statements_def)
  moreover have "known (flat_statements ?g) = flat_statements ?g" "not_known (flat_statements ?g) = []"
    using all by (auto simp: known_def not_known_def filter_id_conv filter_empty_conv)
  ultimately show ?thesis using flat by simp
qed

definition well_sorted :: "parsed_statements \<Rightarrow> bool" where
  "well_sorted r \<longleftrightarrow>
     set (granted r) \<subseteq> set ALL_PERMISSIONS \<and> set (unknown r) \<inter> set ALL_PERMISSIONS = {}"

lemma well_sorted_read_entry: "well_sorted acc \<Longrightarrow> well_sorted (read_entry acc e)"
proof -
  have "well_sorted acc \<Longrightarrow> well_sorted (foldl (read_action r) acc as)" for r as
    by (induction as arbitrary: acc)
      (auto simp: well_sorted_def read_action_def Let_def split: json.splits)
  then show "well_sorted acc \<Longrightarrow> well_sorted (read_entry acc e)"
    by (auto simp: read_entry_def split: json.splits)
qed

lemma well_sorted_foldl: "well_sorted acc \<Longrightarrow> well_sorted (foldl read_entry acc es)"
  by (induction es arbitrary: acc) (auto simp: well_sorted_read_entry)

lemma well_sorted_parse: "parsePermissionStatements raw = Some r \<Longrightarrow> well_sorted r"
  by (auto simp: parsePermissionStatements_def well_sorted_foldl well_sorted_def[of no_statements]
        no_statements_def[unfolded atomize_eq] intro!: well_sorted_foldl
        split: option.splits json.splits) (auto simp: well_sorted_def no_statements_def)

end
