(* ===== verification/Access_Policy.thy ===== *)
theory Access_Policy
  imports Permissions Errors
begin

text \<open>The decision core of libs/infra/authorization: the principals, resources, decisions and
  filters of the authorization port (libs/core), the scope of a resource type, \<open>decideAccess\<close>
  for single resources, \<open>decideFilter\<close> for sets of rows and \<open>applyAccessFilter\<close>, which
  folds a filter into a query condition.\<close>

section \<open>Principals, resources, decisions\<close>

datatype principal =
    UserPrincipal (up_userId: id) (up_organizationId: id) (up_membershipId: "id option")
  | ApiKeyPrincipal (kp_apiKeyId: id) (kp_organizationId: id) (kp_scopes: "string list")
  | SystemPrincipal (sp_reason: string)

datatype resource_ref =
  ResourceRef (rr_type: string) (rr_id: id) (rr_ownerId: "id option")
    (rr_organizationId: "id option") (rr_parent: "resource_ref option")

record access_decision =
  allowed :: bool
  reason :: "string option"

record check_request =
  cr_permission :: permission
  cr_resource :: "resource_ref option"

text \<open>A query condition on one column: equality, membership of an enumeration, or any other
  condition of the caller's base query.\<close>

datatype column_condition = Equals string | OneOf "string list" | Other json

type_synonym query = "(string \<times> column_condition) list"

datatype access_filter = AllRows | NoRows | Predicate query | Ids "id list" bool

datatype resource_scope = OrganizationScope | OrganizationSelf | SelfScope | GlobalScope

record policy_context =
  pc_principal :: principal
  pc_permissions :: "permission list"
  pc_isMember :: bool

definition is_user :: "principal \<Rightarrow> bool" where
  "is_user p = (case p of UserPrincipal _ _ _ \<Rightarrow> True | _ \<Rightarrow> False)"

definition is_system :: "principal \<Rightarrow> bool" where
  "is_system p = (case p of SystemPrincipal _ \<Rightarrow> True | _ \<Rightarrow> False)"

definition organization_of :: "principal \<Rightarrow> id option" where
  "organization_of p =
     (case p of UserPrincipal _ org _ \<Rightarrow> Some org | ApiKeyPrincipal _ org _ \<Rightarrow> Some org
      | SystemPrincipal _ \<Rightarrow> None)"

definition user_of :: "principal \<Rightarrow> id option" where
  "user_of p = (case p of UserPrincipal u _ _ \<Rightarrow> Some u | _ \<Rightarrow> None)"

section \<open>Catalogs of the policy\<close>

definition OWNER_SCOPED_PERMISSIONS :: "permission list" where
  "OWNER_SCOPED_PERMISSIONS = [''file:read'', ''file:delete'']"

definition MEMBERSHIP_INDEPENDENT_PERMISSIONS :: "permission list" where
  "MEMBERSHIP_INDEPENDENT_PERMISSIONS =
     [''session:read'', ''session:revoke'', ''term:read'', ''term:accept'']"

definition crossOrganization :: string where
  "crossOrganization = ''resource belongs to another organization''"

definition notAMember :: string where
  "notAMember = ''principal is not a member of the organization''"

definition permissionNotGranted :: string where
  "permissionNotGranted = ''permission not granted''"

definition RESOURCE_SCOPES :: "(string \<times> resource_scope) list" where
  "RESOURCE_SCOPES =
     [(''organization'', OrganizationScope), (''member'', OrganizationScope),
      (''team'', OrganizationScope), (''invitation'', OrganizationScope),
      (''role'', OrganizationScope), (''file'', OrganizationScope),
      (''audit_log'', OrganizationScope), (''api_key'', OrganizationScope),
      (''feature_flag'', OrganizationScope), (''notification'', OrganizationSelf),
      (''session'', SelfScope), (''term'', GlobalScope)]"

definition scopeOf :: "permission \<Rightarrow> resource_scope option" where
  "scopeOf p = map_of RESOURCE_SCOPES (resourceTypeOf p)"

definition requiresMembership :: "permission \<Rightarrow> bool" where
  "requiresMembership p \<longleftrightarrow> scopeOf p = Some OrganizationScope \<or> scopeOf p = Some OrganizationSelf"

section \<open>Decisions\<close>

definition holdsMembershipIndependentGrant :: "principal \<Rightarrow> permission \<Rightarrow> bool" where
  "holdsMembershipIndependentGrant p perm \<longleftrightarrow>
     is_user p \<and> perm \<in> set MEMBERSHIP_INDEPENDENT_PERMISSIONS"

definition holds :: "policy_context \<Rightarrow> permission \<Rightarrow> bool" where
  "holds ctx perm \<longleftrightarrow>
     perm \<in> set (pc_permissions ctx) \<or> holdsMembershipIndependentGrant (pc_principal ctx) perm"

definition allow :: access_decision where
  "allow = \<lparr> allowed = True, reason = None \<rparr>"

definition deny :: "string \<Rightarrow> access_decision" where
  "deny why = \<lparr> allowed = False, reason = Some why \<rparr>"

definition decideWithoutOrganization :: "permission list \<Rightarrow> access_decision list" where
  "decideWithoutOrganization ps =
     map (\<lambda>p. if p \<in> set MEMBERSHIP_INDEPENDENT_PERMISSIONS then allow else deny permissionNotGranted) ps"

text \<open>\<open>request.resource?.organizationId && principal.type !== 'system' && \<dots> !==
  principal.organizationId\<close>: an absent or empty organization is not compared.\<close>

definition crosses_organization :: "principal \<Rightarrow> resource_ref option \<Rightarrow> bool" where
  "crosses_organization p res \<longleftrightarrow>
     (case res of
        None \<Rightarrow> False
      | Some r \<Rightarrow>
          (case rr_organizationId r of
             None \<Rightarrow> False
           | Some org \<Rightarrow> org \<noteq> [] \<and> \<not> is_system p \<and> Some org \<noteq> organization_of p))"

definition owns :: "principal \<Rightarrow> resource_ref option \<Rightarrow> bool" where
  "owns p res \<longleftrightarrow>
     (case user_of p of
        None \<Rightarrow> False
      | Some u \<Rightarrow> (case res of None \<Rightarrow> False | Some r \<Rightarrow> rr_ownerId r = Some u))"

definition decide_one :: "policy_context \<Rightarrow> check_request \<Rightarrow> access_decision" where
  "decide_one ctx req =
     (let p = pc_principal ctx; perm = cr_permission req in
      if is_user p \<and> \<not> pc_isMember ctx \<and> requiresMembership perm then deny notAMember
      else if crosses_organization p (cr_resource req) then deny crossOrganization
      else if holds ctx perm then allow
      else if is_user p \<and> pc_isMember ctx \<and> owns p (cr_resource req)
              \<and> perm \<in> set OWNER_SCOPED_PERMISSIONS then allow
      else deny permissionNotGranted)"

definition decideAccess :: "policy_context \<Rightarrow> check_request list \<Rightarrow> access_decision list" where
  "decideAccess ctx reqs = map (decide_one ctx) reqs"

section \<open>Filters\<close>

definition organization_where :: "principal \<Rightarrow> query" where
  "organization_where p =
     (case organization_of p of Some org \<Rightarrow> [(''organizationId'', Equals org)] | None \<Rightarrow> [])"

definition user_where :: "principal \<Rightarrow> query" where
  "user_where p = (case user_of p of Some u \<Rightarrow> [(''userId'', Equals u)] | None \<Rightarrow> [])"

definition organization_row_where :: "principal \<Rightarrow> query" where
  "organization_row_where p =
     (case organization_of p of Some org \<Rightarrow> [(''id'', Equals org)] | None \<Rightarrow> [])"

definition owner_scoped_filter :: "policy_context \<Rightarrow> permission \<Rightarrow> access_filter" where
  "owner_scoped_filter ctx perm =
     (let p = pc_principal ctx in
      if is_user p \<and> pc_isMember ctx \<and> perm \<in> set OWNER_SCOPED_PERMISSIONS
      then Predicate (organization_where p @ user_where p)
      else NoRows)"

definition decideFilter :: "policy_context \<Rightarrow> permission \<Rightarrow> string \<Rightarrow> access_filter" where
  "decideFilter ctx perm rtype =
     (let p = pc_principal ctx in
      if resourceTypeOf perm \<noteq> rtype then NoRows
      else if is_system p then AllRows
      else if is_user p \<and> \<not> pc_isMember ctx \<and> requiresMembership perm then NoRows
      else if holds ctx perm then
        (if rtype = ''organization'' then Predicate (organization_row_where p)
         else
           (case map_of RESOURCE_SCOPES rtype of
              Some OrganizationScope \<Rightarrow> Predicate (organization_where p)
            | Some OrganizationSelf \<Rightarrow>
                (if is_user p then Predicate (organization_where p @ user_where p)
                 else Predicate (organization_where p))
            | Some SelfScope \<Rightarrow> (if is_user p then Predicate (user_where p) else NoRows)
            | Some GlobalScope \<Rightarrow> AllRows
            | None \<Rightarrow> owner_scoped_filter ctx perm))
      else owner_scoped_filter ctx perm)"

section \<open>Folding a filter into a query\<close>

definition ACCESS_FILTER_TRUNCATED_CODE :: string where
  "ACCESS_FILTER_TRUNCATED_CODE = ''authorization_result_truncated''"

definition accessFilterTruncated :: failure where
  "accessFilterTruncated =
     Domain (new_domain_exception
       \<lparr> opt_kind = Some Conflict, opt_code = Some ACCESS_FILTER_TRUNCATED_CODE,
         opt_title = Some ''Authorization result truncated'', opt_messageKey = None,
         opt_args = None,
         opt_violations =
           [\<lparr> vi_path = ''authorization'', vi_code = ACCESS_FILTER_TRUNCATED_CODE,
              vi_message = ''The authorization engine could not enumerate every permitted resource for this request'',
              vi_messageKey = None, vi_rule = None, vi_constraint = None \<rparr>],
         opt_permanent = Some False \<rparr>)"

text \<open>The object spread \<open>{ ...base, ...where }\<close>: a column of the second replaces the same
  column of the first.\<close>

definition spread :: "query \<Rightarrow> query \<Rightarrow> query" where
  "spread base w = foldl (\<lambda>q (k, c). AList.update k c q) base w"

definition applyAccessFilter :: "query \<Rightarrow> access_filter \<Rightarrow> query option outcome" where
  "applyAccessFilter base f =
     (case f of
        AllRows \<Rightarrow> Inr (Some base)
      | NoRows \<Rightarrow> Inr None
      | Predicate w \<Rightarrow> Inr (Some (spread base w))
      | Ids ids truncated \<Rightarrow>
          if truncated then Inl accessFilterTruncated
          else if ids = [] then Inr None
          else Inr (Some (spread base [(''id'', OneOf ids)])))"

section \<open>What a query selects\<close>

text \<open>A row gives its columns; the conditions of a query are conjoined. \<open>sem\<close> reads the
  caller's own conditions, which the filter never inspects.\<close>

type_synonym row = "string \<Rightarrow> string option"
type_synonym condition_reading = "json \<Rightarrow> string option \<Rightarrow> bool"

definition meets :: "condition_reading \<Rightarrow> row \<Rightarrow> string \<Rightarrow> column_condition \<Rightarrow> bool" where
  "meets sem r k c =
     (case c of Equals v \<Rightarrow> r k = Some v
      | OneOf vs \<Rightarrow> (case r k of None \<Rightarrow> False | Some v \<Rightarrow> v \<in> set vs)
      | Other j \<Rightarrow> sem j (r k))"

definition selects :: "condition_reading \<Rightarrow> query \<Rightarrow> row \<Rightarrow> bool" where
  "selects sem q r \<longleftrightarrow> list_all (\<lambda>(k, c). meets sem r k c) q"

definition admits :: "condition_reading \<Rightarrow> access_filter \<Rightarrow> row \<Rightarrow> bool" where
  "admits sem f r =
     (case f of AllRows \<Rightarrow> True | NoRows \<Rightarrow> False | Predicate w \<Rightarrow> selects sem w r
      | Ids ids _ \<Rightarrow> meets sem r ''id'' (OneOf ids))"

text \<open>The reference a handler builds for a row: an organization is its own tenant.\<close>

definition ref_of_row :: "string \<Rightarrow> row \<Rightarrow> resource_ref" where
  "ref_of_row rtype r =
     ResourceRef rtype (case r ''id'' of Some i \<Rightarrow> i | None \<Rightarrow> []) (r ''userId'')
       (if rtype = ''organization'' then r ''id'' else r ''organizationId'') None"

section \<open>Facts about decisions\<close>

lemma allow_deny_simps [simp]:
  "allowed allow" "\<not> allowed (deny why)" "reason (deny why) = Some why" "reason allow = None"
  by (simp_all add: allow_def deny_def)

lemma principal_kind_simps [simp]:
  "is_user (UserPrincipal u org m)" "\<not> is_user (ApiKeyPrincipal k org sc)" "\<not> is_user (SystemPrincipal w)"
  "\<not> is_system (UserPrincipal u org m)" "\<not> is_system (ApiKeyPrincipal k org sc)" "is_system (SystemPrincipal w)"
  "organization_of (UserPrincipal u org m) = Some org" "organization_of (ApiKeyPrincipal k org sc) = Some org"
  "organization_of (SystemPrincipal w) = None"
  "user_of (UserPrincipal u org m) = Some u" "user_of (ApiKeyPrincipal k org sc) = None"
  "user_of (SystemPrincipal w) = None"
  by (simp_all add: is_user_def is_system_def organization_of_def user_of_def)

lemma user_not_system [simp]: "is_user p \<Longrightarrow> \<not> is_system p"
  by (cases p) auto

lemma allowed_decide_one:
  "allowed (decide_one ctx req) \<longleftrightarrow>
     (is_user (pc_principal ctx) \<longrightarrow> pc_isMember ctx \<or> \<not> requiresMembership (cr_permission req)) \<and>
     \<not> crosses_organization (pc_principal ctx) (cr_resource req) \<and>
     (holds ctx (cr_permission req) \<or>
      is_user (pc_principal ctx) \<and> pc_isMember ctx \<and> owns (pc_principal ctx) (cr_resource req)
        \<and> cr_permission req \<in> set OWNER_SCOPED_PERMISSIONS)"
  by (auto simp: decide_one_def Let_def)

lemma allowed_or_reason:
  "allowed (decide_one ctx req) \<and> reason (decide_one ctx req) = None \<or>
   \<not> allowed (decide_one ctx req) \<and>
     reason (decide_one ctx req) \<in> Some ` {crossOrganization, notAMember, permissionNotGranted}"
  by (auto simp: decide_one_def Let_def)

lemma length_decideAccess [simp]: "length (decideAccess ctx reqs) = length reqs"
  by (simp add: decideAccess_def)

lemma nth_decideAccess [simp]: "i < length reqs \<Longrightarrow> decideAccess ctx reqs ! i = decide_one ctx (reqs ! i)"
  by (simp add: decideAccess_def)

text \<open>The policy reads a permission list only as a set.\<close>

lemma decide_one_cong:
  assumes "pc_principal a = pc_principal b" "pc_isMember a = pc_isMember b"
    "set (pc_permissions a) = set (pc_permissions b)"
  shows "decide_one a req = decide_one b req"
proof -
  have "holds a = holds b" using assms by (intro ext) (simp add: holds_def)
  then show ?thesis using assms by (simp only: decide_one_def)
qed

lemma decideFilter_cong:
  assumes "pc_principal a = pc_principal b" "pc_isMember a = pc_isMember b"
    "set (pc_permissions a) = set (pc_permissions b)"
  shows "decideFilter a perm rt = decideFilter b perm rt"
proof -
  have "holds a = holds b" using assms by (intro ext) (simp add: holds_def)
  moreover have "owner_scoped_filter a perm = owner_scoped_filter b perm"
    using assms by (simp add: owner_scoped_filter_def)
  ultimately show ?thesis using assms by (simp only: decideFilter_def)
qed

lemma decide_one_mono:
  assumes "pc_principal a = pc_principal b" "pc_isMember a = pc_isMember b"
    "set (pc_permissions a) \<subseteq> set (pc_permissions b)" "allowed (decide_one a req)"
  shows "allowed (decide_one b req)"
  using assms by (auto simp: allowed_decide_one holds_def)

lemma no_cross_organization_one:
  assumes "allowed (decide_one ctx req)" "cr_resource req = Some res"
    "rr_organizationId res = Some org" "org \<noteq> []" "\<not> is_system (pc_principal ctx)"
  shows "organization_of (pc_principal ctx) = Some org"
  using assms by (auto simp: allowed_decide_one crosses_organization_def)

section \<open>Facts about queries\<close>

lemma selects_append [simp]: "selects sem (p @ q) r \<longleftrightarrow> selects sem p r \<and> selects sem q r"
  by (simp add: selects_def)

lemma selects_map_of:
  "distinct (map fst q) \<Longrightarrow> selects sem q r \<longleftrightarrow> (\<forall>k c. map_of q k = Some c \<longrightarrow> meets sem r k c)"
  by (auto simp: selects_def list_all_iff)

lemma spread_Cons: "spread base ((k, c) # w) = spread (AList.update k c base) w"
  by (simp add: spread_def)

lemma distinct_spread: "distinct (map fst base) \<Longrightarrow> distinct (map fst (spread base w))"
proof (induction w arbitrary: base)
  case (Cons kc w)
  then show ?case by (cases kc) (simp add: spread_Cons distinct_update)
qed (simp add: spread_def)

lemma map_of_spread:
  "distinct (map fst w) \<Longrightarrow> map_of (spread base w) = map_of base ++ map_of w"
proof (induction w arbitrary: base)
  case (Cons kc w)
  then show ?case
    by (cases kc)
      (auto simp: spread_Cons fun_eq_iff map_add_def map_of_eq_None_iff[symmetric] split: option.split)
qed (simp add: spread_def)

lemma selects_spread:
  assumes "distinct (map fst base)" "distinct (map fst w)"
  shows "selects sem (spread base w) r \<longleftrightarrow>
           selects sem w r \<and> (\<forall>k c. map_of base k = Some c \<longrightarrow> k \<notin> fst ` set w \<longrightarrow> meets sem r k c)"
proof -
  have "(map_of base ++ map_of w) k = Some c \<longleftrightarrow>
      map_of w k = Some c \<or> k \<notin> fst ` set w \<and> map_of base k = Some c" for k c
    by (auto simp: map_add_Some_iff map_of_eq_None_iff)
  then show ?thesis
    using assms distinct_spread[OF assms(1), of w]
    by (auto simp: selects_map_of map_of_spread)
qed

section \<open>Facts about filters\<close>

lemma where_simps [simp]:
  "selects sem (organization_where p) r \<longleftrightarrow>
     (\<forall>org. organization_of p = Some org \<longrightarrow> r ''organizationId'' = Some org)"
  "selects sem (user_where p) r \<longleftrightarrow> (\<forall>u. user_of p = Some u \<longrightarrow> r ''userId'' = Some u)"
  "selects sem (organization_row_where p) r \<longleftrightarrow>
     (\<forall>org. organization_of p = Some org \<longrightarrow> r ''id'' = Some org)"
  by (auto simp: organization_where_def user_where_def organization_row_where_def selects_def
      meets_def split: option.splits)

lemma distinct_where [simp]:
  "distinct (map fst (organization_where p @ user_where p))" "distinct (map fst (organization_where p))"
  "distinct (map fst (user_where p))" "distinct (map fst (organization_row_where p))"
  by (auto simp: organization_where_def user_where_def organization_row_where_def split: option.splits)

lemma owner_scoped_filter_shape:
  "owner_scoped_filter ctx perm
     \<in> {NoRows, Predicate (organization_where (pc_principal ctx) @ user_where (pc_principal ctx))}"
  by (simp add: owner_scoped_filter_def Let_def)

lemma decideFilter_shape:
  "decideFilter ctx perm rt \<in>
     {AllRows, NoRows, Predicate (organization_row_where (pc_principal ctx)),
      Predicate (organization_where (pc_principal ctx)), Predicate (user_where (pc_principal ctx)),
      Predicate (organization_where (pc_principal ctx) @ user_where (pc_principal ctx))}"
  using owner_scoped_filter_shape[of ctx perm]
  by (simp add: decideFilter_def Let_def split: option.split resource_scope.split) blast

lemma where_columns:
  "fst ` set (organization_where p) \<subseteq> {''organizationId''}" "fst ` set (user_where p) \<subseteq> {''userId''}"
  "fst ` set (organization_row_where p) \<subseteq> {''id''}"
  by (auto simp: organization_where_def user_where_def organization_row_where_def split: option.splits)

lemma decideFilter_keys:
  assumes "decideFilter ctx perm rt = Predicate w"
  shows "distinct (map fst w)" "fst ` set w \<subseteq> {''id'', ''organizationId'', ''userId''}"
proof -
  let ?p = "pc_principal ctx"
  have w: "w \<in> {organization_row_where ?p, organization_where ?p, user_where ?p,
      organization_where ?p @ user_where ?p}"
    using decideFilter_shape[of ctx perm rt] assms by simp
  then show "distinct (map fst w)" using distinct_where by auto
  show "fst ` set w \<subseteq> {''id'', ''organizationId'', ''userId''}"
    using w where_columns[of ?p] by (elim insertE emptyE; simp add: image_Un; blast)
qed

lemma applyAccessFilter_selects:
  assumes "applyAccessFilter base f = Inr (Some q)" "distinct (map fst base)"
    "\<And>w. f = Predicate w \<Longrightarrow> distinct (map fst w)" "selects sem q r"
  shows "admits sem f r"
proof (cases f)
  case (Predicate w)
  then have "q = spread base w" using assms(1) by (simp add: applyAccessFilter_def)
  then show ?thesis
    using assms(2,4) assms(3)[OF Predicate] Predicate by (simp add: selects_spread admits_def)
next
  case (Ids ids t)
  then have "q = spread base [(''id'', OneOf ids)]"
    using assms(1) by (simp add: applyAccessFilter_def split: if_splits)
  then show ?thesis
    using assms(2,4) Ids by (simp add: selects_spread admits_def) (simp add: selects_def)
qed (use assms in \<open>auto simp: applyAccessFilter_def admits_def\<close>)

lemma applyAccessFilter_base:
  assumes "applyAccessFilter base f = Inr (Some q)" "distinct (map fst base)"
    "\<And>w. f = Predicate w \<Longrightarrow> distinct (map fst w)" "selects sem q r" "(k, c) \<in> set base"
    "k \<notin> {''id'', ''organizationId'', ''userId''}"
    "\<And>w. f = Predicate w \<Longrightarrow> fst ` set w \<subseteq> {''id'', ''organizationId'', ''userId''}"
  shows "meets sem r k c"
proof (cases f)
  case (Predicate w)
  then have "q = spread base w" using assms(1) by (simp add: applyAccessFilter_def)
  moreover have "k \<notin> fst ` set w" using assms(6) assms(7)[OF Predicate] by blast
  ultimately show ?thesis
    using assms(2,4,5) assms(3)[OF Predicate] by (simp add: selects_spread)
next
  case (Ids ids t)
  then have "q = spread base [(''id'', OneOf ids)]"
    using assms(1) by (simp add: applyAccessFilter_def split: if_splits)
  then show ?thesis using assms(2,4,5,6) by (simp add: selects_spread)
qed (use assms in \<open>auto simp: applyAccessFilter_def selects_def list_all_iff\<close>)

lemma request_eta: "\<lparr> cr_permission = cr_permission q, cr_resource = cr_resource q \<rparr> = q"
  by simp

lemma owner_scoped_not_organization:
  "perm \<in> set OWNER_SCOPED_PERMISSIONS \<Longrightarrow> resourceTypeOf perm \<noteq> ''organization''"
  by (auto simp: OWNER_SCOPED_PERMISSIONS_def resourceTypeOf_def)

text \<open>What an admitted row says of the principal, once for each way the filter can admit it.\<close>

lemma admits_owner_scoped:
  assumes "admits sem (owner_scoped_filter ctx perm) r"
  obtains u org where "user_of (pc_principal ctx) = Some u" "organization_of (pc_principal ctx) = Some org"
    "pc_isMember ctx" "perm \<in> set OWNER_SCOPED_PERMISSIONS"
    "r ''organizationId'' = Some org" "r ''userId'' = Some u"
  using assms
  by (cases "pc_principal ctx") (auto simp: owner_scoped_filter_def Let_def admits_def split: if_splits)

lemma admits_filterE:
  assumes "admits sem (decideFilter ctx perm (resourceTypeOf perm)) r" "\<not> is_system (pc_principal ctx)"
  obtains (granted) "holds ctx perm"
      "resourceTypeOf perm = ''organization'' \<Longrightarrow> r ''id'' = organization_of (pc_principal ctx)"
      "resourceTypeOf perm \<noteq> ''organization'' \<Longrightarrow>
         r ''organizationId'' = organization_of (pc_principal ctx) \<or>
         scopeOf perm \<in> {Some SelfScope, Some GlobalScope}"
    | (owned) "admits sem (owner_scoped_filter ctx perm) r"
proof (cases "\<not> holds ctx perm \<or> admits sem (owner_scoped_filter ctx perm) r")
  case True
  then show ?thesis
    using assms owned
    by (auto simp: decideFilter_def Let_def admits_def split: if_splits)
next
  case False
  have org: "\<exists>org. organization_of (pc_principal ctx) = Some org"
    using assms(2) by (cases "pc_principal ctx") auto
  show ?thesis
  proof (rule granted)
    show "resourceTypeOf perm = ''organization'' \<Longrightarrow> r ''id'' = organization_of (pc_principal ctx)"
      using assms False org by (auto simp: decideFilter_def Let_def admits_def split: if_splits)
    show "resourceTypeOf perm \<noteq> ''organization'' \<Longrightarrow>
         r ''organizationId'' = organization_of (pc_principal ctx) \<or>
         scopeOf perm \<in> {Some SelfScope, Some GlobalScope}"
      using assms False org
      by (cases "scopeOf perm"; cases "the (scopeOf perm)")
        (auto simp: decideFilter_def Let_def scopeOf_def admits_def split: if_splits)
  qed (use False in blast)
qed

lemma admits_membership:
  "admits sem (decideFilter ctx perm rt) r \<Longrightarrow> is_user (pc_principal ctx) \<Longrightarrow>
     pc_isMember ctx \<or> \<not> requiresMembership perm"
  by (auto simp: decideFilter_def Let_def admits_def split: if_splits)

text \<open>A row the filter admits is a row the check allows.\<close>

lemma filter_sound_context:
  assumes adm: "admits sem (decideFilter ctx perm (resourceTypeOf perm)) r"
    and sys: "is_system (pc_principal ctx) \<Longrightarrow> perm \<in> set (pc_permissions ctx)"
    and cols: "scopeOf perm \<in> {Some SelfScope, Some GlobalScope} \<Longrightarrow> r ''organizationId'' = None"
  shows "allowed (decide_one ctx \<lparr> cr_permission = perm, cr_resource = Some (ref_of_row (resourceTypeOf perm) r) \<rparr>)"
proof (cases "is_system (pc_principal ctx)")
  case True
  then show ?thesis
    using sys[OF True]
    by (cases "pc_principal ctx")
      (auto simp: allowed_decide_one holds_def crosses_organization_def split: option.splits)
next
  case False
  have mem: "is_user (pc_principal ctx) \<longrightarrow> pc_isMember ctx \<or> \<not> requiresMembership perm"
    using admits_membership[OF adm] by blast
  from adm False show ?thesis
  proof (cases rule: admits_filterE)
    case granted
    then have "\<not> crosses_organization (pc_principal ctx) (Some (ref_of_row (resourceTypeOf perm) r))"
      using cols by (auto simp: crosses_organization_def ref_of_row_def split: option.splits)
    then show ?thesis using granted(1) mem by (simp add: allowed_decide_one)
  next
    case owned
    then show ?thesis
    proof (cases rule: admits_owner_scoped)
      case (1 u org)
      then have "is_user (pc_principal ctx)" by (cases "pc_principal ctx") auto
      with 1 mem owner_scoped_not_organization[OF 1(4)] show ?thesis
        by (auto simp: allowed_decide_one crosses_organization_def owns_def ref_of_row_def)
    qed
  qed
qed

text \<open>For the organization-scoped types the converse holds too: the filter hides no row of a tenant
  that the check would allow.\<close>

lemma filter_complete_context:
  assumes al: "allowed (decide_one ctx \<lparr> cr_permission = perm, cr_resource = Some (ref_of_row (resourceTypeOf perm) r) \<rparr>)"
    and ns: "\<not> is_system (pc_principal ctx)"
    and scope: "scopeOf perm = Some OrganizationScope" "resourceTypeOf perm \<noteq> ''organization''"
    and org: "r ''organizationId'' = Some org" "org \<noteq> []"
  shows "admits sem (decideFilter ctx perm (resourceTypeOf perm)) r"
proof -
  have "organization_of (pc_principal ctx) = Some org"
    using al ns org scope(2)
    by (auto simp: allowed_decide_one crosses_organization_def ref_of_row_def)
  moreover have "is_user (pc_principal ctx) \<longrightarrow> pc_isMember ctx"
    using al scope by (auto simp: allowed_decide_one requiresMembership_def)
  moreover have "holds ctx perm \<or> is_user (pc_principal ctx) \<and> perm \<in> set OWNER_SCOPED_PERMISSIONS \<and>
      user_of (pc_principal ctx) \<noteq> None \<and> r ''userId'' = user_of (pc_principal ctx)"
    using al by (auto simp: allowed_decide_one owns_def ref_of_row_def split: option.splits)
  ultimately show ?thesis
    using ns scope org
    by (auto simp: decideFilter_def owner_scoped_filter_def Let_def scopeOf_def admits_def)
qed

end
