(* ===== verification/Authorization.thy ===== *)
theory Authorization
  imports Access_Policy
begin

text \<open>The authorization port and its two engines (libs/infra/authorization): the base adapter that
  turns a policy context into answers, the in-memory engine over two Maps, and the Postgres PBAC
  engine over the member and organization_roles tables. The locale \<open>authorization_engine\<close> states
  what the port's clients rely on; both engines interpret it.\<close>

section \<open>The base adapter\<close>

type_synonym 's engine = "'s \<Rightarrow> principal \<Rightarrow> policy_context"

definition permissionsForNonUserPrincipal :: "principal \<Rightarrow> permission list option" where
  "permissionsForNonUserPrincipal p =
     (case p of
        SystemPrincipal _ \<Rightarrow> Some (system_role_permissions ''owner'')
      | ApiKeyPrincipal _ _ scopes \<Rightarrow> Some (filter (\<lambda>s. CHR '':'' \<in> set s) scopes)
      | UserPrincipal _ _ _ \<Rightarrow> None)"

definition check :: "'s engine \<Rightarrow> 's \<Rightarrow> principal \<Rightarrow> permission \<Rightarrow> resource_ref option \<Rightarrow> access_decision" where
  "check policy s p perm res =
     (case decideAccess (policy s p) [\<lparr> cr_permission = perm, cr_resource = res \<rparr>] of
        d # _ \<Rightarrow> d
      | [] \<Rightarrow> deny ''no decision produced'')"

definition checkMany :: "'s engine \<Rightarrow> 's \<Rightarrow> principal \<Rightarrow> check_request list \<Rightarrow> access_decision list" where
  "checkMany policy s p reqs = decideAccess (policy s p) reqs"

definition access_filter_for :: "'s engine \<Rightarrow> 's \<Rightarrow> principal \<Rightarrow> permission \<Rightarrow> string \<Rightarrow> access_filter" where
  "access_filter_for policy s p perm rtype = decideFilter (policy s p) perm rtype"

text \<open>Reachability is derived from the row itself: the port's creation and deletion hooks change
  nothing.\<close>

definition onResourceCreated :: "'s \<Rightarrow> principal \<Rightarrow> resource_ref \<Rightarrow> 's" where
  "onResourceCreated s actor res = s"

definition onResourceDeleted :: "'s \<Rightarrow> resource_ref \<Rightarrow> 's" where
  "onResourceDeleted s res = s"

section \<open>The in-memory engine\<close>

record in_memory =
  im_roles :: "(string \<times> string list) list"
  im_customRoles :: "(string \<times> permission list) list"

definition membershipKey :: "id \<Rightarrow> id \<Rightarrow> string" where
  "membershipKey org user = org @ '':'' @ user"

definition setMemberRoles :: "id \<Rightarrow> id \<Rightarrow> string list \<Rightarrow> in_memory \<Rightarrow> in_memory" where
  "setMemberRoles org user roles s =
     s \<lparr> im_roles := AList.update (membershipKey org user) roles (im_roles s) \<rparr>"

definition defineCustomRole :: "id \<Rightarrow> string \<Rightarrow> permission list \<Rightarrow> in_memory \<Rightarrow> in_memory" where
  "defineCustomRole org role ps s =
     s \<lparr> im_customRoles := AList.update (org @ '':'' @ role) ps (im_customRoles s) \<rparr>"

definition reset :: "in_memory \<Rightarrow> in_memory" where
  "reset s = s \<lparr> im_roles := [], im_customRoles := [] \<rparr>"

definition custom_permissions :: "in_memory \<Rightarrow> id \<Rightarrow> string \<Rightarrow> permission list" where
  "custom_permissions s org role =
     (case map_of (im_customRoles s) (org @ '':'' @ role) of None \<Rightarrow> [] | Some ps \<Rightarrow> ps)"

definition add_role_grants :: "in_memory \<Rightarrow> id \<Rightarrow> permission list \<Rightarrow> string \<Rightarrow> permission list" where
  "add_role_grants s org acc role =
     (if isSystemRole role then set_add_all acc (system_role_permissions role)
      else set_add_all acc (custom_permissions s org role))"

definition im_resolvePermissions :: "in_memory \<Rightarrow> principal \<Rightarrow> permission list" where
  "im_resolvePermissions s p =
     (case p of
        UserPrincipal user org _ \<Rightarrow>
          (case map_of (im_roles s) (membershipKey org user) of
             None \<Rightarrow> []
           | Some roles \<Rightarrow> foldl (add_role_grants s org) [] roles)
      | _ \<Rightarrow> (case permissionsForNonUserPrincipal p of None \<Rightarrow> [] | Some ps \<Rightarrow> ps))"

definition im_policyContext :: "in_memory engine" where
  "im_policyContext s p =
     \<lparr> pc_principal = p, pc_permissions = im_resolvePermissions s p,
       pc_isMember =
         (case p of
            UserPrincipal user org _ \<Rightarrow> map_of (im_roles s) (membershipKey org user) \<noteq> None
          | _ \<Rightarrow> True) \<rparr>"

section \<open>The Postgres engine\<close>

record member_row =
  mr_organizationId :: id
  mr_userId :: id
  mr_role :: string

record organization_role_row =
  or_organizationId :: id
  or_role :: string
  or_permission :: string

record pbac_db =
  db_members :: "member_row list"
  db_organizationRoles :: "organization_role_row list"

definition find_member :: "pbac_db \<Rightarrow> id \<Rightarrow> id \<Rightarrow> member_row option" where
  "find_member db org user =
     List.find (\<lambda>m. mr_organizationId m = org \<and> mr_userId m = user) (db_members db)"

definition membershipRole :: "pbac_db \<Rightarrow> principal \<Rightarrow> string option" where
  "membershipRole db p =
     (case p of
        UserPrincipal user org _ \<Rightarrow> map_option mr_role (find_member db org user)
      | _ \<Rightarrow> None)"

definition role_names :: "string \<Rightarrow> string list" where
  "role_names rawRole = filter (\<lambda>r. r \<noteq> []) (map trim (split_on (CHR '','') rawRole))"

definition system_grants :: "string list \<Rightarrow> permission list" where
  "system_grants roles =
     foldl (\<lambda>acc role. if isSystemRole role then set_add_all acc (system_role_permissions role) else acc)
       [] roles"

definition add_row_grants :: "permission list \<Rightarrow> organization_role_row \<Rightarrow> permission list" where
  "add_row_grants acc row =
     (case parsePermissionStatements (or_permission row) of
        Some st \<Rightarrow> set_add_all acc (granted st)
      | None \<Rightarrow> acc)"

definition pg_resolvePermissions :: "pbac_db \<Rightarrow> id \<Rightarrow> string \<Rightarrow> permission list" where
  "pg_resolvePermissions db org rawRole =
     (let roles = role_names rawRole;
          granted = system_grants roles;
          customRoleNames = filter (\<lambda>r. \<not> isSystemRole r) roles
      in if customRoleNames = [] then granted
         else foldl add_row_grants granted
                (filter (\<lambda>row. or_organizationId row = org \<and> or_role row \<in> set customRoleNames)
                   (db_organizationRoles db)))"

definition pg_permissionsFor :: "pbac_db \<Rightarrow> principal \<Rightarrow> permission list" where
  "pg_permissionsFor db p =
     (case p of
        UserPrincipal user org _ \<Rightarrow>
          (case membershipRole db p of None \<Rightarrow> [] | Some role \<Rightarrow> pg_resolvePermissions db org role)
      | _ \<Rightarrow> (case permissionsForNonUserPrincipal p of None \<Rightarrow> [] | Some ps \<Rightarrow> ps))"

definition pg_policyContext :: "pbac_db engine" where
  "pg_policyContext db p =
     (case p of
        UserPrincipal user org _ \<Rightarrow>
          (case membershipRole db p of
             None \<Rightarrow> \<lparr> pc_principal = p, pc_permissions = [], pc_isMember = False \<rparr>
           | Some role \<Rightarrow>
               \<lparr> pc_principal = p, pc_permissions = pg_resolvePermissions db org role,
                 pc_isMember = True \<rparr>)
      | _ \<Rightarrow> \<lparr> pc_principal = p, pc_permissions = pg_permissionsFor db p, pc_isMember = True \<rparr>)"

section \<open>The contract of an engine\<close>

text \<open>What the port's clients rely on: the context speaks of the principal it was asked about, the
  system principal holds the catalog, an API key holds exactly its well-formed scopes, and a user
  without a membership holds nothing.\<close>

locale authorization_engine =
  fixes policy :: "'s \<Rightarrow> principal \<Rightarrow> policy_context"
  assumes same_principal: "pc_principal (policy s p) = p"
    and system_holds_catalog: "is_system p \<Longrightarrow> set (pc_permissions (policy s p)) = set ALL_PERMISSIONS"
    and api_key_holds_scopes:
      "pc_permissions (policy s (ApiKeyPrincipal k org scopes)) = filter (\<lambda>x. CHR '':'' \<in> set x) scopes"
    and non_member_holds_nothing:
      "\<not> pc_isMember (policy s (UserPrincipal u org m)) \<Longrightarrow> pc_permissions (policy s (UserPrincipal u org m)) = []"
begin

lemma check_is_head: "check policy s p perm res = hd (checkMany policy s p [\<lparr> cr_permission = perm, cr_resource = res \<rparr>])"
  by (simp add: check_def checkMany_def decideAccess_def)

lemma check_decides: "check policy s p perm res = decide_one (policy s p) \<lparr> cr_permission = perm, cr_resource = res \<rparr>"
  by (simp add: check_def decideAccess_def)

lemma checkMany_pointwise:
  "checkMany policy s p reqs = map (\<lambda>q. check policy s p (cr_permission q) (cr_resource q)) reqs"
  by (simp add: checkMany_def decideAccess_def check_decides request_eta)

lemma never_crosses:
  assumes "allowed (check policy s p perm (Some res))" "rr_organizationId res = Some org" "org \<noteq> []"
    "\<not> is_system p"
  shows "organization_of p = Some org"
  using no_cross_organization_one[of "policy s p" "\<lparr> cr_permission = perm, cr_resource = Some res \<rparr>"] assms
  by (simp add: check_decides same_principal)

lemma non_member_only_independent:
  assumes "allowed (check policy s (UserPrincipal u org m) perm res)"
    "\<not> pc_isMember (policy s (UserPrincipal u org m))"
  shows "perm \<in> set MEMBERSHIP_INDEPENDENT_PERMISSIONS"
  using assms non_member_holds_nothing[OF assms(2)]
  by (auto simp: check_decides allowed_decide_one holds_def holdsMembershipIndependentGrant_def)

lemma api_key_only_scopes:
  assumes "allowed (check policy s (ApiKeyPrincipal k org scopes) perm res)"
  shows "perm \<in> set scopes"
  using assms
  by (auto simp: check_decides allowed_decide_one holds_def holdsMembershipIndependentGrant_def
      same_principal api_key_holds_scopes)

text \<open>A row the filter admits is a row the check allows, for every row of a table the resource type
  names.\<close>

lemma filter_sound:
  assumes adm: "admits sem (access_filter_for policy s p perm (resourceTypeOf perm)) r"
    and perm: "perm \<in> set ALL_PERMISSIONS"
    and cols: "scopeOf perm \<in> {Some SelfScope, Some GlobalScope} \<Longrightarrow> r ''organizationId'' = None"
  shows "allowed (check policy s p perm (Some (ref_of_row (resourceTypeOf perm) r)))"
  using assms system_holds_catalog[of p s]
    filter_sound_context[of sem "policy s p" perm r]
  by (simp add: check_decides access_filter_for_def same_principal)

end

section \<open>Both engines meet the contract\<close>

lemma owner_catalog: "system_role_permissions ''owner'' = ALL_PERMISSIONS"
  by (simp add: system_role_permissions_def SYSTEM_ROLE_PERMISSIONS_def OWNER_PERMISSIONS_def)

interpretation in_memory: authorization_engine im_policyContext
proof
  fix s p
  show "pc_principal (im_policyContext s p) = p" by (simp add: im_policyContext_def)
  show "is_system p \<Longrightarrow> set (pc_permissions (im_policyContext s p)) = set ALL_PERMISSIONS"
    by (cases p)
      (auto simp: im_policyContext_def im_resolvePermissions_def permissionsForNonUserPrincipal_def owner_catalog)
next
  fix s k org scopes
  show "pc_permissions (im_policyContext s (ApiKeyPrincipal k org scopes))
      = filter (\<lambda>x. CHR '':'' \<in> set x) scopes"
    by (simp add: im_policyContext_def im_resolvePermissions_def permissionsForNonUserPrincipal_def)
next
  fix s u org m
  show "\<not> pc_isMember (im_policyContext s (UserPrincipal u org m)) \<Longrightarrow>
      pc_permissions (im_policyContext s (UserPrincipal u org m)) = []"
    by (simp add: im_policyContext_def im_resolvePermissions_def)
qed

interpretation postgres: authorization_engine pg_policyContext
proof
  fix s p
  show "pc_principal (pg_policyContext s p) = p"
    by (simp add: pg_policyContext_def split: principal.split option.split)
  show "is_system p \<Longrightarrow> set (pc_permissions (pg_policyContext s p)) = set ALL_PERMISSIONS"
    by (cases p)
      (auto simp: pg_policyContext_def pg_permissionsFor_def permissionsForNonUserPrincipal_def owner_catalog)
next
  fix s k org scopes
  show "pc_permissions (pg_policyContext s (ApiKeyPrincipal k org scopes))
      = filter (\<lambda>x. CHR '':'' \<in> set x) scopes"
    by (simp add: pg_policyContext_def pg_permissionsFor_def permissionsForNonUserPrincipal_def)
next
  fix s u org m
  show "\<not> pc_isMember (pg_policyContext s (UserPrincipal u org m)) \<Longrightarrow>
      pc_permissions (pg_policyContext s (UserPrincipal u org m)) = []"
    by (simp add: pg_policyContext_def split: option.splits)
qed

section \<open>The engines agree\<close>

text \<open>The Maps of the in-memory engine mirror the tables for one user of one organization: the same
  membership with the same role names, and for each of its custom roles the permissions its rows
  grant.\<close>

definition grants_of_row :: "organization_role_row \<Rightarrow> permission list" where
  "grants_of_row row =
     (case parsePermissionStatements (or_permission row) of Some st \<Rightarrow> granted st | None \<Rightarrow> [])"

definition row_grants :: "pbac_db \<Rightarrow> id \<Rightarrow> string \<Rightarrow> permission list" where
  "row_grants db org role =
     concat (map grants_of_row
       (filter (\<lambda>row. or_organizationId row = org \<and> or_role row = role) (db_organizationRoles db)))"

definition mirrors :: "in_memory \<Rightarrow> pbac_db \<Rightarrow> id \<Rightarrow> id \<Rightarrow> bool" where
  "mirrors s db org user \<longleftrightarrow>
     (case find_member db org user of
        None \<Rightarrow> map_of (im_roles s) (membershipKey org user) = None
      | Some m \<Rightarrow>
          map_of (im_roles s) (membershipKey org user) = Some (role_names (mr_role m)) \<and>
          list_all (\<lambda>role. isSystemRole role \<or> set (custom_permissions s org role) = set (row_grants db org role))
            (role_names (mr_role m)))"

lemma set_im_grants:
  "set (foldl (add_role_grants s org) acc roles) =
     set acc \<union> (\<Union>role \<in> set roles.
       if isSystemRole role then set (system_role_permissions role) else set (custom_permissions s org role))"
  by (induction roles arbitrary: acc) (auto simp: add_role_grants_def)

lemma set_system_grants:
  "set (system_grants roles) = (\<Union>role \<in> {r \<in> set roles. isSystemRole r}. set (system_role_permissions role))"
proof -
  have "set (foldl (\<lambda>acc role. if isSystemRole role then set_add_all acc (system_role_permissions role) else acc)
      acc roles) = set acc \<union> (\<Union>role \<in> {r \<in> set roles. isSystemRole r}. set (system_role_permissions role))" for acc
    by (induction roles arbitrary: acc) (auto split: if_splits)
  then show ?thesis by (simp add: system_grants_def)
qed

lemma set_row_grants:
  "set (foldl add_row_grants acc rows) = set acc \<union> (\<Union>row \<in> set rows. set (grants_of_row row))"
proof (induction rows arbitrary: acc)
  case (Cons row rows)
  have "set (add_row_grants acc row) = set acc \<union> set (grants_of_row row)"
    by (simp add: add_row_grants_def grants_of_row_def split: option.split)
  then show ?case using Cons by auto
qed simp

lemma set_pg_resolvePermissions:
  "set (pg_resolvePermissions db org raw) =
     (\<Union>role \<in> set (role_names raw).
        if isSystemRole role then set (system_role_permissions role) else set (row_grants db org role))"
  by (auto simp: pg_resolvePermissions_def Let_def set_row_grants set_system_grants filter_empty_conv
      row_grants_def)

lemma mirrored_context:
  assumes "mirrors s db org user"
  shows "pc_isMember (im_policyContext s (UserPrincipal user org m))
           = pc_isMember (pg_policyContext db (UserPrincipal user org m))"
    and "set (pc_permissions (im_policyContext s (UserPrincipal user org m)))
           = set (pc_permissions (pg_policyContext db (UserPrincipal user org m)))"
  using assms
  by (auto simp: mirrors_def im_policyContext_def pg_policyContext_def membershipRole_def
      im_resolvePermissions_def set_im_grants set_pg_resolvePermissions list_all_iff
      split: option.splits if_splits)

lemma mirrored_answers:
  assumes "\<And>user org m. p = UserPrincipal user org m \<Longrightarrow> mirrors s db org user"
  shows "checkMany im_policyContext s p reqs = checkMany pg_policyContext db p reqs"
    and "access_filter_for im_policyContext s p perm rt = access_filter_for pg_policyContext db p perm rt"
proof -
  let ?a = "im_policyContext s p" and ?b = "pg_policyContext db p"
  have "pc_isMember ?a = pc_isMember ?b \<and> set (pc_permissions ?a) = set (pc_permissions ?b)"
  proof (cases p)
    case (UserPrincipal user org m)
    then show ?thesis using mirrored_context[OF assms] by simp
  qed (simp_all add: im_policyContext_def pg_policyContext_def im_resolvePermissions_def pg_permissionsFor_def)
  moreover have "pc_principal ?a = pc_principal ?b"
    by (simp add: in_memory.same_principal postgres.same_principal)
  ultimately show "checkMany im_policyContext s p reqs = checkMany pg_policyContext db p reqs"
    and "access_filter_for im_policyContext s p perm rt = access_filter_for pg_policyContext db p perm rt"
    using decide_one_cong[of ?a ?b] decideFilter_cong[of ?a ?b]
    by (simp_all add: checkMany_def decideAccess_def access_filter_for_def)
qed

end
