(* ===== verification/Api_Keys.thy ===== *)
theory Api_Keys
  imports Cursor Authorization
begin

text \<open>API keys: issuing, storing, listing, revoking and presenting them
  (libs/shared/src/lib/api-key.ts, libs/modules/api-keys, the lookup of
  libs/infra/auth/src/lib/api-key.guard.ts). SHA-256 is the parameter \<open>sha256\<close>; the random secret,
  the new id and the clock are arguments. The locale \<open>api_key_repository\<close> is the repository port;
  the Prisma repository and the in-memory one interpret it.\<close>

section \<open>Secrets\<close>

definition API_KEY_PREFIX :: string where
  "API_KEY_PREFIX = ''sk_''"

definition API_KEY_DISPLAY_PREFIX_LENGTH :: nat where
  "API_KEY_DISPLAY_PREFIX_LENGTH = length API_KEY_PREFIX + 8"

record generated_api_key =
  gk_raw :: string
  gk_prefix :: string
  gk_hash :: string

definition apiKeyDisplayPrefix :: "string \<Rightarrow> string" where
  "apiKeyDisplayPrefix raw = take API_KEY_DISPLAY_PREFIX_LENGTH raw"

definition generateApiKey :: "(string \<Rightarrow> string) \<Rightarrow> string \<Rightarrow> generated_api_key" where
  "generateApiKey sha256 randomText =
     (let raw = API_KEY_PREFIX @ randomText in
      \<lparr> gk_raw = raw, gk_prefix = apiKeyDisplayPrefix raw, gk_hash = sha256 raw \<rparr>)"

definition looksLikeApiKey :: "string \<Rightarrow> bool" where
  "looksLikeApiKey c \<longleftrightarrow> starts_with API_KEY_PREFIX c \<and> API_KEY_DISPLAY_PREFIX_LENGTH < length c"

section \<open>The entity\<close>

record api_key =
  ak_id :: id
  ak_organizationId :: id
  ak_name :: string
  ak_prefix :: string
  ak_keyHash :: string
  ak_scopes :: "permission list"
  ak_createdById :: "id option"
  ak_lastUsedAt :: "instant option"
  ak_expiresAt :: "instant option"
  ak_revokedAt :: "instant option"
  ak_createdAt :: instant
  ak_updatedAt :: instant

record issue_input =
  in_organizationId :: id
  in_name :: string
  in_scopes :: "string list"
  in_createdById :: "id option"
  in_expiresAt :: "instant option"
  in_grantedToIssuer :: "permission list"

definition ak_validation :: "string \<Rightarrow> string \<Rightarrow> string \<Rightarrow> string \<Rightarrow> failure" where
  "ak_validation path code message messageKey = raise_problem (problem Validation code messageKey path message)"

definition assertNonEmptyName :: "string \<Rightarrow> string outcome" where
  "assertNonEmptyName name =
     (if trim name = []
      then Inl (ak_validation ''name'' ''validation_failed'' ''name must not be empty'' ''validation.too_short'')
      else Inr (trim name))"

definition assertScopes :: "string list \<Rightarrow> permission list \<Rightarrow> permission list outcome" where
  "assertScopes scopes held =
     (let unknown = filter (\<lambda>s. s \<notin> set ALL_PERMISSIONS) scopes;
          escalating = filter (\<lambda>s. s \<notin> set held) scopes
      in if scopes = []
         then Inl (ak_validation ''scopes'' ''validation_failed''
                     ''an API key must carry at least one scope'' ''errors.api_keys.empty_scopes'')
         else if unknown \<noteq> []
         then Inl (ak_validation ''scopes'' ''validation_failed''
                     (''unknown scopes: '' @ join_with '', '' unknown) ''errors.api_keys.unknown_scope'')
         else if escalating \<noteq> []
         then Inl (ak_validation ''scopes'' ''api_key_scope_exceeds_grant''
                     (''scopes exceed the issuer's own permissions: '' @ join_with '', '' escalating)
                     ''errors.api_keys.scope_exceeds_grant'')
         else Inr (js_set scopes))"

definition assertFutureExpiry :: "instant option \<Rightarrow> instant \<Rightarrow> instant option outcome" where
  "assertFutureExpiry expiresAt now =
     (case expiresAt of
        None \<Rightarrow> Inr None
      | Some t \<Rightarrow>
          if t \<le> now
          then Inl (ak_validation ''expiresAt'' ''validation_failed'' ''expiresAt must be in the future''
                      ''errors.api_keys.expiry_in_past'')
          else Inr (Some t))"

definition issue :: "id \<Rightarrow> instant \<Rightarrow> generated_api_key \<Rightarrow> issue_input \<Rightarrow> (api_key \<times> string) outcome" where
  "issue newId now secret i =
     (case assertScopes (in_scopes i) (in_grantedToIssuer i) of
        Inl e \<Rightarrow> Inl e
      | Inr scopes \<Rightarrow>
          (case assertFutureExpiry (in_expiresAt i) now of
             Inl e \<Rightarrow> Inl e
           | Inr expiresAt \<Rightarrow>
               (case assertNonEmptyName (in_name i) of
                  Inl e \<Rightarrow> Inl e
                | Inr name \<Rightarrow>
                    Inr (\<lparr> ak_id = newId, ak_organizationId = in_organizationId i, ak_name = name,
                           ak_prefix = gk_prefix secret, ak_keyHash = gk_hash secret, ak_scopes = scopes,
                           ak_createdById = in_createdById i, ak_lastUsedAt = None, ak_expiresAt = expiresAt,
                           ak_revokedAt = None, ak_createdAt = now, ak_updatedAt = now \<rparr>,
                         gk_raw secret))))"

record api_key_dto =
  akd_id :: id
  akd_name :: string
  akd_prefix :: string
  akd_scopes :: "permission list"
  akd_createdById :: "id option"
  akd_lastUsedAt :: "instant option"
  akd_expiresAt :: "instant option"
  akd_revokedAt :: "instant option"
  akd_createdAt :: instant

definition toApiKeyDto :: "api_key \<Rightarrow> api_key_dto" where
  "toApiKeyDto k =
     \<lparr> akd_id = ak_id k, akd_name = ak_name k, akd_prefix = ak_prefix k, akd_scopes = ak_scopes k,
       akd_createdById = ak_createdById k, akd_lastUsedAt = ak_lastUsedAt k,
       akd_expiresAt = ak_expiresAt k, akd_revokedAt = ak_revokedAt k, akd_createdAt = ak_createdAt k \<rparr>"

section \<open>The repository port\<close>

text \<open>The Prisma repository keeps the rows of the table; a row whose id or key hash exists already is
  refused (P2002). An update sets \<open>updatedAt\<close> to the time of the statement.\<close>

definition prisma_create :: "api_key \<Rightarrow> api_key list \<Rightarrow> unit outcome \<times> api_key list" where
  "prisma_create k rows =
     (if \<exists>r \<in> set rows. ak_id r = ak_id k \<or> ak_keyHash r = ak_keyHash k
      then (Inl (Internal ''P2002''), rows)
      else (Inr (), rows @ [k \<lparr> ak_lastUsedAt := None, ak_revokedAt := None \<rparr>]))"

definition live_row :: "id \<Rightarrow> id \<Rightarrow> api_key \<Rightarrow> bool" where
  "live_row org i r \<longleftrightarrow> ak_id r = i \<and> ak_organizationId r = org \<and> ak_revokedAt r = None"

definition prisma_revoke :: "id \<Rightarrow> id \<Rightarrow> instant \<Rightarrow> api_key list \<Rightarrow> bool \<times> api_key list" where
  "prisma_revoke org i revokedAt rows =
     (0 < count_rows (live_row org i) rows,
      update_rows (live_row org i) (\<lambda>r. r \<lparr> ak_revokedAt := Some revokedAt, ak_updatedAt := revokedAt \<rparr>) rows)"

definition prisma_exists :: "id \<Rightarrow> id \<Rightarrow> api_key list \<Rightarrow> bool" where
  "prisma_exists org i rows \<longleftrightarrow> List.find (\<lambda>r. ak_id r = i \<and> ak_organizationId r = org) rows \<noteq> None"

definition ak_cursor_key :: "api_key \<Rightarrow> cursor_key" where
  "ak_cursor_key k = (ak_createdAt k, ak_id k)"

definition prisma_findAllCursor ::
    "id \<Rightarrow> decoded_cursor option \<Rightarrow> nat \<Rightarrow> bool \<Rightarrow> api_key list \<Rightarrow> api_key page_slice" where
  "prisma_findAllCursor org startingAfter limit includeRevoked rows =
     keyset_query ak_cursor_key
       (\<lambda>r. ak_organizationId r = org \<and> (includeRevoked \<or> ak_revokedAt r = None)) rows startingAfter limit"

text \<open>The in-memory repository of the module's testing library: a Map of keys and a Map of revocation
  times.\<close>

record memory_keys =
  mk_keys :: "(id \<times> api_key) list"
  mk_revoked :: "(id \<times> instant) list"

definition memory_create :: "api_key \<Rightarrow> memory_keys \<Rightarrow> memory_keys" where
  "memory_create k s = s \<lparr> mk_keys := AList.update (ak_id k) k (mk_keys s) \<rparr>"

definition memory_revoke :: "id \<Rightarrow> id \<Rightarrow> instant \<Rightarrow> memory_keys \<Rightarrow> bool \<times> memory_keys" where
  "memory_revoke org i now s =
     (case map_of (mk_keys s) i of
        None \<Rightarrow> (False, s)
      | Some k \<Rightarrow>
          if ak_organizationId k \<noteq> org \<or> map_of (mk_revoked s) i \<noteq> None then (False, s)
          else (True, s \<lparr> mk_revoked := AList.update i now (mk_revoked s) \<rparr>))"

definition memory_exists :: "id \<Rightarrow> id \<Rightarrow> memory_keys \<Rightarrow> bool" where
  "memory_exists org i s =
     (case map_of (mk_keys s) i of None \<Rightarrow> False | Some k \<Rightarrow> ak_organizationId k = org)"

definition memory_findAllCursor ::
    "id \<Rightarrow> decoded_cursor option \<Rightarrow> nat \<Rightarrow> bool \<Rightarrow> memory_keys \<Rightarrow> api_key page_slice" where
  "memory_findAllCursor org startingAfter limit includeRevoked s =
     paginateNewestFirst ak_cursor_key
       (filter (\<lambda>k. includeRevoked \<or> map_of (mk_revoked s) (ak_id k) = None)
         (filter (\<lambda>k. ak_organizationId k = org) (map snd (mk_keys s))))
       startingAfter limit"

definition memory_live :: "id \<Rightarrow> id \<Rightarrow> memory_keys \<Rightarrow> bool" where
  "memory_live org i s \<longleftrightarrow> memory_exists org i s \<and> map_of (mk_revoked s) i = None"

definition prisma_live :: "id \<Rightarrow> id \<Rightarrow> api_key list \<Rightarrow> bool" where
  "prisma_live org i rows \<longleftrightarrow> (\<exists>r \<in> set rows. live_row org i r)"

section \<open>The handlers\<close>

definition apiKeyNotFound :: failure where
  "apiKeyNotFound =
     raise_problem (problem NotFound ''api_key_not_found'' ''errors.api_keys.not_found'' ''id'' ''API key not found'')"

definition revoke_api_key ::
    "(id \<Rightarrow> id \<Rightarrow> instant \<Rightarrow> 's \<Rightarrow> bool \<times> 's) \<Rightarrow> (id \<Rightarrow> id \<Rightarrow> 's \<Rightarrow> bool) \<Rightarrow> id \<Rightarrow> id \<Rightarrow> instant \<Rightarrow> 's
     \<Rightarrow> unit outcome \<times> 's" where
  "revoke_api_key revoke existing org i now s =
     (case revoke org i now s of
        (done, s') \<Rightarrow>
          if done then (Inr (), s')
          else if existing org i s' then (Inr (), s')
          else (Inl apiKeyNotFound, s'))"

record create_api_key_command =
  cc_organizationId :: id
  cc_userId :: id
  cc_name :: string
  cc_scopes :: "string list"
  cc_expiresAt :: "instant option"

definition create_api_key ::
    "pbac_db \<Rightarrow> id \<Rightarrow> instant \<Rightarrow> generated_api_key \<Rightarrow> create_api_key_command \<Rightarrow> api_key list
     \<Rightarrow> (api_key_dto \<times> string) outcome \<times> api_key list" where
  "create_api_key db newId now secret cmd rows =
     (let granted = pg_permissionsFor db (UserPrincipal (cc_userId cmd) (cc_organizationId cmd) None) in
      case issue newId now secret
             \<lparr> in_organizationId = cc_organizationId cmd, in_name = cc_name cmd, in_scopes = cc_scopes cmd,
               in_createdById = Some (cc_userId cmd), in_expiresAt = cc_expiresAt cmd,
               in_grantedToIssuer = granted \<rparr> of
        Inl e \<Rightarrow> (Inl e, rows)
      | Inr (entity, raw) \<Rightarrow>
          (case prisma_create entity rows of
             (Inl e, rows') \<Rightarrow> (Inl e, rows')
           | (Inr _, rows') \<Rightarrow> (Inr (toApiKeyDto entity, raw), rows')))"

record list_api_keys_result =
  lk_data :: "api_key_dto list"
  lk_hasMore :: bool
  lk_lastCursor :: "string option"

definition list_api_keys ::
    "(id \<Rightarrow> bool) \<Rightarrow> id \<Rightarrow> nat \<Rightarrow> string option \<Rightarrow> bool \<Rightarrow> api_key list \<Rightarrow> list_api_keys_result outcome" where
  "list_api_keys is_uuid7 org limit startingAfter includeRevoked rows =
     (case decodeStartingAfter is_uuid7 startingAfter of
        Inl e \<Rightarrow> Inl e
      | Inr c \<Rightarrow>
          (let page = prisma_findAllCursor org c limit includeRevoked rows in
           Inr \<lparr> lk_data = map toApiKeyDto (pg_items page), lk_hasMore = pg_hasMore page,
                 lk_lastCursor = lastCursorOf ak_cursor_key (pg_items page) \<rparr>))"

section \<open>Presenting a key\<close>

record authenticated_api_key =
  aa_apiKeyId :: id
  aa_organizationId :: id
  aa_scopes :: "permission list"

definition invalidCredential :: failure where
  "invalidCredential = Http 401 ''API key is missing, revoked, or expired''"

definition verify_presented :: "(string \<Rightarrow> string) \<Rightarrow> instant \<Rightarrow> api_key list \<Rightarrow> string \<Rightarrow> authenticated_api_key outcome" where
  "verify_presented sha256 now rows presented =
     (case List.find (\<lambda>r. ak_keyHash r = sha256 presented) rows of
        None \<Rightarrow> Inl invalidCredential
      | Some r \<Rightarrow>
          if ak_revokedAt r \<noteq> None then Inl invalidCredential
          else if (case ak_expiresAt r of None \<Rightarrow> False | Some t \<Rightarrow> t \<le> now) then Inl invalidCredential
          else Inr \<lparr> aa_apiKeyId = ak_id r, aa_organizationId = ak_organizationId r,
                     aa_scopes = ak_scopes r \<rparr>)"

definition touchLastUsed :: "id \<Rightarrow> instant \<Rightarrow> api_key list \<Rightarrow> api_key list" where
  "touchLastUsed i now rows =
     update_rows (\<lambda>r. ak_id r = i) (\<lambda>r. r \<lparr> ak_lastUsedAt := Some now, ak_updatedAt := now \<rparr>) rows"

section \<open>The contract of the repository\<close>

text \<open>\<open>live org i s\<close>: the organization has a key with this id that is not revoked. Revoking is a
  compare-and-set from live to revoked and touches nothing else.\<close>

locale api_key_repository =
  fixes revoke :: "id \<Rightarrow> id \<Rightarrow> instant \<Rightarrow> 's \<Rightarrow> bool \<times> 's"
    and existing :: "id \<Rightarrow> id \<Rightarrow> 's \<Rightarrow> bool"
    and live :: "id \<Rightarrow> id \<Rightarrow> 's \<Rightarrow> bool"
  assumes revoke_reports: "fst (revoke org i t s) = live org i s"
    and revoke_kills: "\<not> live org i (snd (revoke org i t s))"
    and revoke_elsewhere: "(org', j) \<noteq> (org, i) \<Longrightarrow> live org' j (snd (revoke org i t s)) = live org' j s"
    and revoke_keeps_existing: "existing org' j (snd (revoke org i t s)) = existing org' j s"
    and live_existing: "live org i s \<Longrightarrow> existing org i s"
begin

lemma handler_succeeds_iff: "fst (revoke_api_key revoke existing org i t s) = Inr () \<longleftrightarrow> existing org i s"
  using revoke_reports[of org i t s] revoke_keeps_existing[of org i org i t s] live_existing[of org i s]
  by (auto simp: revoke_api_key_def split: prod.splits)

lemma handler_not_found:
  "\<not> existing org i s \<Longrightarrow> fst (revoke_api_key revoke existing org i t s) = Inl apiKeyNotFound"
  using revoke_reports[of org i t s] revoke_keeps_existing[of org i org i t s] live_existing[of org i s]
  by (auto simp: revoke_api_key_def split: prod.splits)

lemma handler_state: "snd (revoke_api_key revoke existing org i t s) = snd (revoke org i t s)"
  by (simp add: revoke_api_key_def split: prod.splits)

lemma handler_kills: "\<not> live org i (snd (revoke_api_key revoke existing org i t s))"
  by (simp add: handler_state revoke_kills)

lemma handler_elsewhere:
  "(org', j) \<noteq> (org, i) \<Longrightarrow> live org' j (snd (revoke_api_key revoke existing org i t s)) = live org' j s"
  by (simp add: handler_state revoke_elsewhere)

text \<open>A retried revocation answers as the first one did.\<close>

lemma handler_retry:
  "fst (revoke_api_key revoke existing org i t' (snd (revoke_api_key revoke existing org i t s)))
     = fst (revoke_api_key revoke existing org i t s)"
proof (cases "existing org i s")
  case True
  then have "existing org i (snd (revoke_api_key revoke existing org i t s))"
    by (simp add: handler_state revoke_keeps_existing)
  with True show ?thesis using handler_succeeds_iff by metis
next
  case False
  then have "\<not> existing org i (snd (revoke_api_key revoke existing org i t s))"
    by (simp add: handler_state revoke_keeps_existing)
  with False show ?thesis using handler_not_found by metis
qed

end

lemma revoked_not_live [simp]: "\<not> live_row org i (r \<lparr> ak_revokedAt := Some t, ak_updatedAt := t' \<rparr>)"
  by (simp add: live_row_def)

lemma live_after_revoke:
  "live_row org' j (if live_row org i r then r \<lparr> ak_revokedAt := Some t, ak_updatedAt := t \<rparr> else r)
     \<longleftrightarrow> live_row org' j r \<and> \<not> live_row org i r"
  by (auto simp: live_row_def)

lemma find_map_same:
  "(\<And>r. p (f r) = p r) \<Longrightarrow> (List.find p (map f rows) = None) = (List.find p rows = None)"
  by (induction rows) auto

interpretation prisma_keys: api_key_repository prisma_revoke prisma_exists prisma_live
proof
  fix org i t and s :: "api_key list"
  show "fst (prisma_revoke org i t s) = prisma_live org i s"
    by (simp add: prisma_revoke_def prisma_live_def count_rows_pos)
  show "\<not> prisma_live org i (snd (prisma_revoke org i t s))"
    by (auto simp: prisma_revoke_def prisma_live_def update_rows_def live_after_revoke)
  show "prisma_live org i s \<Longrightarrow> prisma_exists org i s"
    by (auto simp: prisma_live_def prisma_exists_def find_None_iff live_row_def)
  fix org' j
  show "(org', j) \<noteq> (org, i) \<Longrightarrow> prisma_live org' j (snd (prisma_revoke org i t s)) = prisma_live org' j s"
    by (auto simp: prisma_revoke_def prisma_live_def update_rows_def live_after_revoke)
       (auto simp: live_row_def)
  show "prisma_exists org' j (snd (prisma_revoke org i t s)) = prisma_exists org' j s"
    by (simp add: prisma_revoke_def prisma_exists_def update_rows_def find_map_same)
qed

interpretation memory_keys: api_key_repository memory_revoke memory_exists memory_live
  by unfold_locales
    (auto simp: memory_revoke_def memory_live_def memory_exists_def split: option.splits if_splits)

section \<open>Facts about issuing\<close>

lemma join_failures [simp]: "ak_validation p c m k \<noteq> Internal x"
  by (simp add: ak_validation_def raise_problem_def)

lemma assertScopes_Inr:
  "assertScopes scopes held = Inr r \<longleftrightarrow>
     scopes \<noteq> [] \<and> set scopes \<subseteq> set ALL_PERMISSIONS \<and> set scopes \<subseteq> set held \<and> r = js_set scopes"
  by (auto simp: assertScopes_def Let_def filter_empty_conv)

lemma assertFutureExpiry_Inr:
  "assertFutureExpiry e now = Inr r \<longleftrightarrow> r = e \<and> (\<forall>t. e = Some t \<longrightarrow> now < t)"
  by (auto simp: assertFutureExpiry_def split: option.splits)

lemma assertNonEmptyName_Inr: "assertNonEmptyName n = Inr r \<longleftrightarrow> trim n \<noteq> [] \<and> r = trim n"
  by (auto simp: assertNonEmptyName_def)

lemma issue_Inr:
  "issue newId now secret i = Inr (k, raw) \<longleftrightarrow>
     in_scopes i \<noteq> [] \<and> set (in_scopes i) \<subseteq> set ALL_PERMISSIONS \<and> set (in_scopes i) \<subseteq> set (in_grantedToIssuer i) \<and>
     (\<forall>t. in_expiresAt i = Some t \<longrightarrow> now < t) \<and> trim (in_name i) \<noteq> [] \<and> raw = gk_raw secret \<and>
     k = \<lparr> ak_id = newId, ak_organizationId = in_organizationId i, ak_name = trim (in_name i),
           ak_prefix = gk_prefix secret, ak_keyHash = gk_hash secret, ak_scopes = js_set (in_scopes i),
           ak_createdById = in_createdById i, ak_lastUsedAt = None, ak_expiresAt = in_expiresAt i,
           ak_revokedAt = None, ak_createdAt = now, ak_updatedAt = now \<rparr>"
  (is "?L \<longleftrightarrow> ?R")
proof
  assume ?L
  then obtain sc ex nm where
    "assertScopes (in_scopes i) (in_grantedToIssuer i) = Inr sc" "assertFutureExpiry (in_expiresAt i) now = Inr ex"
    "assertNonEmptyName (in_name i) = Inr nm" "raw = gk_raw secret"
    "k = \<lparr> ak_id = newId, ak_organizationId = in_organizationId i, ak_name = nm,
           ak_prefix = gk_prefix secret, ak_keyHash = gk_hash secret, ak_scopes = sc,
           ak_createdById = in_createdById i, ak_lastUsedAt = None, ak_expiresAt = ex,
           ak_revokedAt = None, ak_createdAt = now, ak_updatedAt = now \<rparr>"
    by (auto simp: issue_def split: sum.splits)
  then show ?R by (simp add: assertScopes_Inr assertFutureExpiry_Inr assertNonEmptyName_Inr)
next
  assume R: ?R
  then have "assertScopes (in_scopes i) (in_grantedToIssuer i) = Inr (js_set (in_scopes i))"
    "assertFutureExpiry (in_expiresAt i) now = Inr (in_expiresAt i)"
    "assertNonEmptyName (in_name i) = Inr (trim (in_name i))"
    by (simp_all add: assertScopes_Inr assertFutureExpiry_Inr assertNonEmptyName_Inr)
  with R show ?L by (simp add: issue_def)
qed

section \<open>Keys over time\<close>

text \<open>What can happen to the table: a key is created, revoked, or used.\<close>

datatype key_event = Create api_key | Revoke id id instant | Touch id instant

definition key_step :: "api_key list \<Rightarrow> key_event \<Rightarrow> api_key list" where
  "key_step rows ev =
     (case ev of
        Create k \<Rightarrow> snd (prisma_create k rows)
      | Revoke org i t \<Rightarrow> snd (prisma_revoke org i t rows)
      | Touch i t \<Rightarrow> touchLastUsed i t rows)"

definition run_keys :: "api_key list \<Rightarrow> key_event list \<Rightarrow> api_key list" where
  "run_keys rows evs = foldl key_step rows evs"

definition unique_keys :: "api_key list \<Rightarrow> bool" where
  "unique_keys rows \<longleftrightarrow> distinct (map ak_id rows) \<and> distinct (map ak_keyHash rows)"

lemma map_update_rows:
  "(\<And>r. key (f r) = key r) \<Longrightarrow> map key (update_rows sel f rows) = map key rows"
  by (simp add: update_rows_def)

lemma unique_keys_step: "unique_keys rows \<Longrightarrow> unique_keys (key_step rows ev)"
proof (cases ev)
  case (Create k)
  then show "unique_keys rows \<Longrightarrow> ?thesis"
    by (auto simp: unique_keys_def key_step_def prisma_create_def)
qed (simp_all add: unique_keys_def key_step_def prisma_revoke_def touchLastUsed_def)

lemma unique_keys_run: "unique_keys rows \<Longrightarrow> unique_keys (run_keys rows evs)"
  by (induction evs arbitrary: rows) (auto simp: run_keys_def unique_keys_step)

text \<open>A revoked row stays: no event clears \<open>revokedAt\<close>, and its hash cannot be issued again.\<close>

definition dead_hash :: "string \<Rightarrow> api_key list \<Rightarrow> bool" where
  "dead_hash h rows \<longleftrightarrow> (\<exists>r \<in> set rows. ak_keyHash r = h \<and> ak_revokedAt r \<noteq> None)"

lemma dead_hash_update:
  assumes "dead_hash h rows" "\<And>r. ak_keyHash (f r) = ak_keyHash r" "\<And>r. ak_revokedAt r \<noteq> None \<Longrightarrow> ak_revokedAt (f r) \<noteq> None"
  shows "dead_hash h (update_rows sel f rows)"
proof -
  obtain r where r: "r \<in> set rows" "ak_keyHash r = h" "ak_revokedAt r \<noteq> None"
    using assms(1) by (auto simp: dead_hash_def)
  then have "(if sel r then f r else r) \<in> set (update_rows sel f rows)" by (simp add: update_rows_def)
  moreover have "ak_keyHash (if sel r then f r else r) = h" "ak_revokedAt (if sel r then f r else r) \<noteq> None"
    using r assms(2,3) by auto
  ultimately show ?thesis unfolding dead_hash_def by blast
qed

lemma dead_hash_step: "dead_hash h rows \<Longrightarrow> dead_hash h (key_step rows ev)"
proof (cases ev)
  case (Create k)
  then show "dead_hash h rows \<Longrightarrow> ?thesis"
    by (auto simp: key_step_def prisma_create_def dead_hash_def)
qed (auto simp: key_step_def prisma_revoke_def touchLastUsed_def intro!: dead_hash_update)

lemma dead_hash_run: "dead_hash h rows \<Longrightarrow> dead_hash h (run_keys rows evs)"
  by (induction evs arbitrary: rows) (auto simp: run_keys_def dead_hash_step)

lemma dead_hash_rejected:
  assumes "dead_hash (sha256 raw) rows" "unique_keys rows"
  shows "verify_presented sha256 now rows raw = Inl invalidCredential"
proof -
  obtain r where r: "r \<in> set rows" "ak_keyHash r = sha256 raw" "ak_revokedAt r \<noteq> None"
    using assms(1) by (auto simp: dead_hash_def)
  then have "List.find (\<lambda>x. ak_keyHash x = sha256 raw) rows = Some r"
    using find_distinct[of ak_keyHash rows r] assms(2) by (simp add: unique_keys_def)
  then show ?thesis using r by (simp add: verify_presented_def)
qed

lemma verify_presented_Inr:
  assumes "verify_presented sha256 now rows raw = Inr a"
  obtains r where "r \<in> set rows" "ak_keyHash r = sha256 raw" "ak_revokedAt r = None"
    "\<And>t. ak_expiresAt r = Some t \<Longrightarrow> now < t"
    "a = \<lparr> aa_apiKeyId = ak_id r, aa_organizationId = ak_organizationId r, aa_scopes = ak_scopes r \<rparr>"
proof -
  obtain r where f: "List.find (\<lambda>r. ak_keyHash r = sha256 raw) rows = Some r"
    using assms by (auto simp: verify_presented_def split: option.splits)
  show ?thesis
    using assms f find_SomeD[OF f]
    by (intro that[of r]) (auto simp: verify_presented_def split: if_splits option.splits)
qed

end
