(* ===== verification/Http_Guards.thy ===== *)
theory Http_Guards
  imports Api_Keys
begin

text \<open>The global guards of the api in the order app.module.ts registers them: the API key guard, the
  session guard, the platform role guard (libs/infra/auth) and the permission guard
  (libs/infra/authorization), and the tenant scope they leave on the request. Each guard returns the
  request it lets through or the failure it raises. Better Auth's getSession is a parameter: the
  session it found, if any.\<close>

section \<open>Requests and routes\<close>

datatype transport = HttpContext | GraphqlContext | WsContext

datatype header = NoHeader | OneHeader string | ManyHeaders "string list"

record authenticated_session =
  as_userId :: id
  as_email :: string
  as_name :: string
  as_role :: string
  as_status :: string
  as_sessionId :: id
  as_sessionToken :: string
  as_organizationId :: "id option"
  as_teamId :: "id option"

record http_request =
  rq_xApiKey :: header
  rq_authorization :: "string option"
  rq_apiKey :: "authenticated_api_key option"
  rq_user :: "authenticated_session option"

text \<open>Reflector.getAllAndOverride over the handler's metadata, then the class's.\<close>

definition getAllAndOverride :: "'a option \<Rightarrow> 'a option \<Rightarrow> 'a option" where
  "getAllAndOverride onHandler onClass = (case onHandler of Some x \<Rightarrow> Some x | None \<Rightarrow> onClass)"

record route =
  ro_transport :: transport
  ro_public :: bool
  ro_allowApiKey :: bool
  ro_roles :: "string list"
  ro_permissions :: "permission list"

record metadata =
  md_public :: "bool option"
  md_allowApiKey :: "bool option"
  md_roles :: "string list option"
  md_permissions :: "permission list option"

definition route_of :: "transport \<Rightarrow> metadata \<Rightarrow> metadata \<Rightarrow> route" where
  "route_of tr h c =
     \<lparr> ro_transport = tr,
       ro_public = default_to False (getAllAndOverride (md_public h) (md_public c)),
       ro_allowApiKey = default_to False (getAllAndOverride (md_allowApiKey h) (md_allowApiKey c)),
       ro_roles = default_to [] (getAllAndOverride (md_roles h) (md_roles c)),
       ro_permissions = default_to [] (getAllAndOverride (md_permissions h) (md_permissions c)) \<rparr>"

section \<open>The API key guard\<close>

definition BEARER_PREFIX :: string where
  "BEARER_PREFIX = ''Bearer ''"

definition header_value :: "header \<Rightarrow> string option" where
  "header_value h =
     (case h of NoHeader \<Rightarrow> None | OneHeader v \<Rightarrow> Some v
      | ManyHeaders vs \<Rightarrow> (case vs of [] \<Rightarrow> None | v # _ \<Rightarrow> Some v))"

definition bearer_key :: "string option \<Rightarrow> string option" where
  "bearer_key authorization =
     (case authorization of
        None \<Rightarrow> None
      | Some a \<Rightarrow>
          if starts_with BEARER_PREFIX a then
            (let c = trim (drop (length BEARER_PREFIX) a) in if looksLikeApiKey c then Some c else None)
          else None)"

definition extractKey :: "http_request \<Rightarrow> string option" where
  "extractKey req =
     (case header_value (rq_xApiKey req) of
        Some h \<Rightarrow> if looksLikeApiKey h then Some h else bearer_key (rq_authorization req)
      | None \<Rightarrow> bearer_key (rq_authorization req))"

definition api_key_guard ::
    "(string \<Rightarrow> string) \<Rightarrow> instant \<Rightarrow> api_key list \<Rightarrow> route \<Rightarrow> http_request \<Rightarrow> http_request outcome" where
  "api_key_guard sha256 now keys ro req =
     (if ro_transport ro = WsContext \<or> ro_public ro then Inr req
      else
        (case extractKey req of
           None \<Rightarrow> Inr req
         | Some presented \<Rightarrow>
             if \<not> ro_allowApiKey ro then Inl invalidCredential
             else
               (case verify_presented sha256 now keys presented of
                  Inl e \<Rightarrow> Inl e
                | Inr a \<Rightarrow> Inr (req \<lparr> rq_apiKey := Some a \<rparr>))))"

section \<open>The session guard\<close>

record session_user =
  su_id :: id
  su_email :: string
  su_name :: string
  su_role :: string
  su_status :: string

record session_row =
  ss_id :: id
  ss_token :: string
  ss_expiresAt :: "instant option"
  ss_activeOrganizationId :: "id option"
  ss_activeTeamId :: "id option"

record found_session =
  fs_user :: "session_user option"
  fs_session :: "session_row option"

record team_member_row =
  tm_teamId :: id
  tm_userId :: id
  tm_teamOrganizationId :: id

definition USER_STATUS_ACTIVE :: string where
  "USER_STATUS_ACTIVE = ''ACTIVE''"

definition resolveActiveScope ::
    "pbac_db \<Rightarrow> team_member_row list \<Rightarrow> session_row \<Rightarrow> id \<Rightarrow> id option \<times> id option" where
  "resolveActiveScope db teamMembers sess user =
     (case ss_activeOrganizationId sess of
        None \<Rightarrow> (None, None)
      | Some org \<Rightarrow>
          if org = [] then (None, None)
          else
            (case find_member db org user of
               None \<Rightarrow> (None, None)
             | Some m \<Rightarrow>
                 (let organizationId = mr_organizationId m in
                  case ss_activeTeamId sess of
                    None \<Rightarrow> (Some organizationId, None)
                  | Some team \<Rightarrow>
                      if team = [] then (Some organizationId, None)
                      else
                        (case List.find (\<lambda>t. tm_teamId t = team \<and> tm_userId t = user
                                            \<and> tm_teamOrganizationId t = organizationId) teamMembers of
                           None \<Rightarrow> (Some organizationId, None)
                         | Some t \<Rightarrow> (Some organizationId, Some (tm_teamId t))))))"

definition truthy :: "string option \<Rightarrow> string option" where
  "truthy v = (case v of None \<Rightarrow> None | Some s \<Rightarrow> if s = [] then None else Some s)"

definition session_guard ::
    "pbac_db \<Rightarrow> team_member_row list \<Rightarrow> instant \<Rightarrow> found_session option \<Rightarrow> route \<Rightarrow> http_request
     \<Rightarrow> http_request outcome" where
  "session_guard db teamMembers now found ro req =
     (if ro_transport ro = WsContext \<or> ro_public ro then Inr req
      else if rq_apiKey req \<noteq> None then Inr req
      else
        (case found of
           None \<Rightarrow> Inl (Http 401 ''Session not found or expired'')
         | Some fs \<Rightarrow>
             (case (fs_user fs, fs_session fs) of
                (Some user, Some sess) \<Rightarrow>
                  if (case ss_expiresAt sess of None \<Rightarrow> False | Some t \<Rightarrow> t < now)
                  then Inl (Http 401 ''Session expired'')
                  else if su_status user \<noteq> USER_STATUS_ACTIVE
                  then Inl (Http 403 ''Account is not active'')
                  else
                    (case resolveActiveScope db teamMembers sess (su_id user) of
                       (organizationId, teamId) \<Rightarrow>
                         Inr (req \<lparr> rq_user := Some
                           \<lparr> as_userId = su_id user, as_email = su_email user, as_name = su_name user,
                             as_role = su_role user, as_status = su_status user,
                             as_sessionId = ss_id sess, as_sessionToken = ss_token sess,
                             as_organizationId = truthy organizationId, as_teamId = truthy teamId \<rparr> \<rparr>))
              | _ \<Rightarrow> Inl (Http 401 ''Session not found or expired''))))"

section \<open>The platform role guard\<close>

definition roles_guard :: "authenticated_session option \<Rightarrow> route \<Rightarrow> http_request \<Rightarrow> http_request outcome" where
  "roles_guard socketUser ro req =
     (if ro_public ro then Inr req
      else if ro_roles ro = [] then Inr req
      else
        (let user = (if ro_transport ro = WsContext then socketUser else rq_user req) in
         case user of
           None \<Rightarrow> Inl (Http 403 ''Insufficient permissions'')
         | Some u \<Rightarrow>
             if as_role u \<in> set (ro_roles ro) then Inr req
             else Inl (Http 403 ''Insufficient permissions'')))"

section \<open>Tenant scope\<close>

definition organizationContextRequired :: failure where
  "organizationContextRequired =
     Domain (new_domain_exception
       \<lparr> opt_kind = Some Forbidden, opt_code = Some ''organization_context_required'',
         opt_title = Some ''Organization context required'',
         opt_messageKey = Some ''errors.auth.organization_context_required'', opt_args = None,
         opt_violations =
           [\<lparr> vi_path = ''session.activeOrganizationId'', vi_code = ''organization_context_required'',
              vi_message = ''No active organization selected for this session'',
              vi_messageKey = Some ''errors.auth.organization_context_required'',
              vi_rule = None, vi_constraint = None \<rparr>],
         opt_permanent = None \<rparr>)"

definition requireOrganizationId :: "authenticated_session option \<Rightarrow> id outcome" where
  "requireOrganizationId session =
     (case Option.bind session (\<lambda>s. truthy (as_organizationId s)) of
        Some org \<Rightarrow> Inr org
      | None \<Rightarrow> Inl organizationContextRequired)"

definition resolveOrganizationId ::
    "authenticated_session option \<Rightarrow> authenticated_api_key option \<Rightarrow> id outcome" where
  "resolveOrganizationId user apiKey =
     (case apiKey of Some k \<Rightarrow> Inr (aa_organizationId k) | None \<Rightarrow> requireOrganizationId user)"

section \<open>The permission guard\<close>

definition forbidden :: "permission \<Rightarrow> failure" where
  "forbidden perm =
     Domain (new_domain_exception
       \<lparr> opt_kind = Some Forbidden, opt_code = Some ''forbidden'',
         opt_title = Some ''Insufficient permissions'',
         opt_messageKey = Some ''errors.auth.insufficient_permissions'', opt_args = None,
         opt_violations =
           [\<lparr> vi_path = ''permission'', vi_code = ''permission_denied'',
              vi_message = ''Missing permission '' @ [CHR 0x22] @ perm @ [CHR 0x22],
              vi_messageKey = Some ''errors.auth.insufficient_permissions'',
              vi_rule = None, vi_constraint = None \<rparr>],
         opt_permanent = None \<rparr>)"

definition decide :: "'s engine \<Rightarrow> 's \<Rightarrow> http_request \<Rightarrow> permission list \<Rightarrow> access_decision list outcome" where
  "decide policy s req required =
     (let requests = map (\<lambda>p. \<lparr> cr_permission = p, cr_resource = None \<rparr>) required in
      case rq_apiKey req of
        Some k \<Rightarrow>
          Inr (checkMany policy s
                 (ApiKeyPrincipal (aa_apiKeyId k) (aa_organizationId k) (aa_scopes k)) requests)
      | None \<Rightarrow>
          (case rq_user req of
             None \<Rightarrow> Inl (forbidden (hd required))
           | Some user \<Rightarrow>
               if truthy (as_organizationId user) = None \<and> list_all (\<lambda>p. \<not> requiresMembership p) required
               then Inr (decideWithoutOrganization required)
               else
                 (case requireOrganizationId (Some user) of
                    Inl e \<Rightarrow> Inl e
                  | Inr org \<Rightarrow> Inr (checkMany policy s (UserPrincipal (as_userId user) org None) requests))))"

definition permission_guard :: "'s engine \<Rightarrow> 's \<Rightarrow> route \<Rightarrow> http_request \<Rightarrow> http_request outcome" where
  "permission_guard policy s ro req =
     (if ro_transport ro = WsContext \<or> ro_public ro \<or> ro_permissions ro = [] then Inr req
      else
        (case decide policy s req (ro_permissions ro) of
           Inl e \<Rightarrow> Inl e
         | Inr decisions \<Rightarrow>
             (case find_index (\<lambda>d. \<not> allowed d) decisions of
                Some i \<Rightarrow> Inl (forbidden (ro_permissions ro ! i))
              | None \<Rightarrow> Inr req)))"

section \<open>The chain\<close>

record environment =
  env_db :: pbac_db
  env_teamMembers :: "team_member_row list"
  env_apiKeys :: "api_key list"
  env_now :: instant
  env_session :: "found_session option"
  env_socketUser :: "authenticated_session option"

definition guard_chain :: "(string \<Rightarrow> string) \<Rightarrow> environment \<Rightarrow> route \<Rightarrow> http_request \<Rightarrow> http_request outcome" where
  "guard_chain sha256 env ro req =
     (case api_key_guard sha256 (env_now env) (env_apiKeys env) ro req of
        Inl e \<Rightarrow> Inl e
      | Inr r1 \<Rightarrow>
          (case session_guard (env_db env) (env_teamMembers env) (env_now env) (env_session env) ro r1 of
             Inl e \<Rightarrow> Inl e
           | Inr r2 \<Rightarrow>
               (case roles_guard (env_socketUser env) ro r2 of
                  Inl e \<Rightarrow> Inl e
                | Inr r3 \<Rightarrow> permission_guard pg_policyContext (env_db env) ro r3)))"

text \<open>A request as it arrives: nothing has stamped it yet.\<close>

definition arriving :: "header \<Rightarrow> string option \<Rightarrow> http_request" where
  "arriving h auth = \<lparr> rq_xApiKey = h, rq_authorization = auth, rq_apiKey = None, rq_user = None \<rparr>"

section \<open>Facts\<close>

lemma find_index_denied:
  "find_index (\<lambda>d. \<not> allowed d) ds = None \<longleftrightarrow> (\<forall>d \<in> set ds. allowed d)"
  by (simp add: find_index_None)

lemma bearer_key_looks: "bearer_key a = Some k \<Longrightarrow> looksLikeApiKey k"
  by (auto simp: bearer_key_def Let_def split: option.splits if_splits)

lemma extractKey_looks: "extractKey req = Some k \<Longrightarrow> looksLikeApiKey k"
  by (cases "header_value (rq_xApiKey req)")
    (simp_all add: extractKey_def bearer_key_looks split: if_splits)

lemma requireOrganizationId_Some:
  "requireOrganizationId (Some u) = Inr org \<longleftrightarrow> truthy (as_organizationId u) = Some org"
  by (cases "truthy (as_organizationId u)") (simp_all add: requireOrganizationId_def)

lemma independent_decisions:
  assumes "\<forall>d \<in> set (decideWithoutOrganization ps). allowed d"
  shows "set ps \<subseteq> set MEMBERSHIP_INDEPENDENT_PERMISSIONS"
proof
  fix p assume "p \<in> set ps"
  then have "(if p \<in> set MEMBERSHIP_INDEPENDENT_PERMISSIONS then allow else deny permissionNotGranted)
      \<in> set (decideWithoutOrganization ps)"
    unfolding decideWithoutOrganization_def set_map by (rule imageI)
  with assms have "allowed (if p \<in> set MEMBERSHIP_INDEPENDENT_PERMISSIONS then allow else deny permissionNotGranted)"
    by blast
  then show "p \<in> set MEMBERSHIP_INDEPENDENT_PERMISSIONS" by (simp split: if_splits)
qed

context authorization_engine
begin

text \<open>A request the permission guard lets through: every required permission was allowed to the
  machine caller or to the user in the active organization; without one, each is independent of
  membership.\<close>

lemma guard_admits:
  assumes "permission_guard policy s ro req = Inr req'" "ro_transport ro \<noteq> WsContext" "\<not> ro_public ro"
    "ro_permissions ro \<noteq> []"
  shows "req' = req"
    and "(\<exists>k. rq_apiKey req = Some k \<and>
            (\<forall>p \<in> set (ro_permissions ro).
               allowed (check policy s (ApiKeyPrincipal (aa_apiKeyId k) (aa_organizationId k) (aa_scopes k)) p None)))
       \<or> (\<exists>u. rq_apiKey req = None \<and> rq_user req = Some u \<and>
            (truthy (as_organizationId u) = None \<and>
               set (ro_permissions ro) \<subseteq> set MEMBERSHIP_INDEPENDENT_PERMISSIONS \<or>
             (\<exists>org. truthy (as_organizationId u) = Some org \<and>
               (\<forall>p \<in> set (ro_permissions ro). allowed (check policy s (UserPrincipal (as_userId u) org None) p None)))))"
proof -
  obtain ds where ds: "decide policy s req (ro_permissions ro) = Inr ds"
    and al: "\<forall>d \<in> set ds. allowed d" and r: "req' = req"
    using assms by (auto simp: permission_guard_def find_index_denied split: sum.splits option.splits)
  show "req' = req" by (rule r)
  show "(\<exists>k. rq_apiKey req = Some k \<and>
            (\<forall>p \<in> set (ro_permissions ro).
               allowed (check policy s (ApiKeyPrincipal (aa_apiKeyId k) (aa_organizationId k) (aa_scopes k)) p None)))
       \<or> (\<exists>u. rq_apiKey req = None \<and> rq_user req = Some u \<and>
            (truthy (as_organizationId u) = None \<and>
               set (ro_permissions ro) \<subseteq> set MEMBERSHIP_INDEPENDENT_PERMISSIONS \<or>
             (\<exists>org. truthy (as_organizationId u) = Some org \<and>
               (\<forall>p \<in> set (ro_permissions ro). allowed (check policy s (UserPrincipal (as_userId u) org None) p None)))))"
  proof (cases "rq_apiKey req")
    case (Some k)
    then show ?thesis using ds al by (auto simp: decide_def Let_def checkMany_pointwise)
  next
    case None
    then obtain u where u: "rq_user req = Some u"
      using ds by (auto simp: decide_def Let_def split: option.splits)
    show ?thesis
    proof (cases "truthy (as_organizationId u)")
      case None: None
      then have "ds = decideWithoutOrganization (ro_permissions ro)"
        using ds u \<open>rq_apiKey req = None\<close>
        by (auto simp: decide_def Let_def requireOrganizationId_def split: if_splits)
      then have "set (ro_permissions ro) \<subseteq> set MEMBERSHIP_INDEPENDENT_PERMISSIONS"
        using al independent_decisions by blast
      then show ?thesis using u None \<open>rq_apiKey req = None\<close> by blast
    next
      case (Some org)
      then show ?thesis
        using ds al u \<open>rq_apiKey req = None\<close>
        by (auto simp: decide_def Let_def checkMany_pointwise requireOrganizationId_def)
    qed
  qed
qed

text \<open>A denial names the first required permission that is missing.\<close>

lemma guard_denies_first:
  assumes "decide policy s req (ro_permissions ro) = Inr ds" "ro_transport ro \<noteq> WsContext" "\<not> ro_public ro"
    "i < length ds" "\<not> allowed (ds ! i)" "\<And>j. j < i \<Longrightarrow> allowed (ds ! j)"
  shows "permission_guard policy s ro req = (if ro_permissions ro = [] then Inr req else Inl (forbidden (ro_permissions ro ! i)))"
proof -
  have "find_index (\<lambda>d. \<not> allowed d) ds \<noteq> None" using assms(4,5) by (auto simp: find_index_None)
  then obtain k where k: "find_index (\<lambda>d. \<not> allowed d) ds = Some k" by blast
  from find_index_SomeD[OF k] have "k = i"
    using assms(5,6) by (metis linorder_neqE_nat)
  then show ?thesis using assms k by (simp add: permission_guard_def)
qed

end

lemma api_key_guard_stamps:
  assumes "api_key_guard sha256 now keys ro req = Inr req'" "ro_transport ro \<noteq> WsContext" "\<not> ro_public ro"
    "rq_apiKey req = None"
  shows "rq_user req' = rq_user req \<and>
    (\<forall>k. rq_apiKey req' = Some k \<longrightarrow>
       ro_allowApiKey ro \<and> (\<exists>raw. extractKey req = Some raw \<and> verify_presented sha256 now keys raw = Inr k))"
  using assms by (auto simp: api_key_guard_def split: option.splits sum.splits if_splits)

lemma session_guard_stamps:
  assumes "session_guard db teams now found ro req = Inr req'" "ro_transport ro \<noteq> WsContext" "\<not> ro_public ro"
    "rq_apiKey req = None"
  obtains user sess u where "found = Some \<lparr> fs_user = Some user, fs_session = Some sess \<rparr>"
    "\<And>t. ss_expiresAt sess = Some t \<Longrightarrow> now \<le> t" "su_status user = USER_STATUS_ACTIVE"
    "rq_user req' = Some u" "rq_apiKey req' = None" "as_userId u = su_id user" "as_role u = su_role user"
    "as_organizationId u = truthy (fst (resolveActiveScope db teams sess (su_id user)))"
proof -
  obtain fs user sess where f: "found = Some fs" "fs_user fs = Some user" "fs_session fs = Some sess"
    using assms by (auto simp: session_guard_def split: option.splits)
  obtain o' t' where rs: "resolveActiveScope db teams sess (su_id user) = (o', t')" by fastforce
  show ?thesis
    using assms f rs
    by (intro that[of user sess "the (rq_user req')"])
      (auto simp: session_guard_def split: if_splits option.splits)
qed

lemma resolveActiveScope_member:
  "fst (resolveActiveScope db teams sess user) = Some org \<Longrightarrow> \<exists>m. find_member db org user = Some m"
  by (auto simp: resolveActiveScope_def Let_def find_member_def dest: find_SomeD split: option.splits if_splits)

lemma truthy_Some: "truthy v = Some x \<longleftrightarrow> v = Some x \<and> x \<noteq> []"
  by (auto simp: truthy_def split: option.splits)

lemma truthy_truthy [simp]: "truthy (truthy v) = truthy v"
  by (simp add: truthy_def split: option.split)

lemma user_check_pg:
  assumes "allowed (check pg_policyContext db (UserPrincipal user org None) p None)"
  shows "p \<in> set MEMBERSHIP_INDEPENDENT_PERMISSIONS \<or>
    (\<exists>m. find_member db org user = Some m \<and> p \<in> set (pg_resolvePermissions db org (mr_role m)))"
  using assms
  by (auto simp: postgres.check_decides allowed_decide_one holds_def holdsMembershipIndependentGrant_def
      owns_def pg_policyContext_def membershipRole_def split: option.splits)

lemma roles_guard_role:
  "roles_guard socketUser ro req = Inr req' \<Longrightarrow> \<not> ro_public ro \<Longrightarrow> ro_transport ro \<noteq> WsContext \<Longrightarrow>
     req' = req \<and> (ro_roles ro \<noteq> [] \<longrightarrow> (\<exists>u. rq_user req = Some u \<and> as_role u \<in> set (ro_roles ro)))"
  by (auto simp: roles_guard_def Let_def split: if_splits option.splits)

end
