(* ===== verification/Error_Catalog.thy ===== *)
theory Error_Catalog
  imports Errors
begin

text \<open>The error codes of libs/contracts/src/lib/errors and the catalog that documents them. A problem's
  \<open>type\<close> is a URI ending in the slug of its code; the catalog answers at that slug. The texts
  are those of the source, a hyphen standing for its em dash.\<close>

section \<open>Codes\<close>

definition ERROR_CODES :: "string list" where
  "ERROR_CODES =
     [''bad_request'',
      ''unauthorized'',
      ''forbidden'',
      ''not_found'',
      ''method_not_allowed'',
      ''conflict'',
      ''unprocessable_entity'',
      ''rate_limited'',
      ''internal_server_error'',
      ''service_unavailable'',
      ''request_timeout'',
      ''not_implemented'',
      ''validation_failed'',
      ''payload_too_large'',
      ''unsupported_media_type'',
      ''business_rule_violation'',
      ''idempotency_key_invalid'',
      ''idempotency_key_conflict'',
      ''idempotency_key_mismatch'',
      ''user_not_found'',
      ''user_already_exists'',
      ''organization_context_required'',
      ''invalid_audit_log_id'',
      ''invalid_cursor'',
      ''upload_mime_not_allowed'',
      ''upload_size_out_of_range'',
      ''upload_magic_bytes_unknown'',
      ''upload_magic_bytes_mismatch'',
      ''upload_in_progress'',
      ''organization_not_found'',
      ''organization_role_not_found'',
      ''organization_role_already_exists'',
      ''organization_role_in_use'',
      ''team_not_found'',
      ''team_name_taken'',
      ''invitation_not_found'',
      ''invitation_not_pending'',
      ''api_key_not_found'',
      ''api_key_invalid_credential'',
      ''api_key_scope_exceeds_grant'',
      ''notification_not_found'',
      ''feature_flag_not_found'',
      ''feature_flag_key_taken'',
      ''term_not_found'',
      ''term_not_published'',
      ''term_version_taken'',
      ''session_not_found'',
      ''storage_upload_failed'',
      ''storage_presign_failed'',
      ''storage_head_failed'',
      ''storage_signed_url_failed'',
      ''storage_delete_failed'',
      ''storage_finalize_failed'',
      ''storage_read_failed'']"

definition errorTypeSlug :: "string \<Rightarrow> string" where
  "errorTypeSlug code = map (\<lambda>c. if c = CHR ''_'' then CHR ''-'' else c) code"

text \<open>\<open>base.replace(/\/+$/, '')\<close>\<close>

definition strip_trailing_slashes :: "string \<Rightarrow> string" where
  "strip_trailing_slashes s = rev (dropWhile (\<lambda>c. c = CHR ''/'') (rev s))"

text \<open>\<open>base\<close> is the ERROR_DOCS_BASE_URL of the environment.\<close>

definition errorTypeUrl :: "string option \<Rightarrow> string \<Rightarrow> string" where
  "errorTypeUrl docsBase code =
     (let base = (case docsBase of None \<Rightarrow> ''/errors'' | Some b \<Rightarrow> if trim b = [] then ''/errors'' else trim b)
      in strip_trailing_slashes base @ ''/'' @ errorTypeSlug code)"

section \<open>The catalog\<close>

record error_type_doc =
  ed_code :: string
  ed_status :: nat
  ed_title :: string
  ed_meaning :: string
  ed_resolution :: string

definition doc :: "string \<Rightarrow> nat \<Rightarrow> string \<Rightarrow> string \<Rightarrow> string \<Rightarrow> error_type_doc" where
  "doc c st t m r =
     \<lparr> ed_code = c, ed_status = st, ed_title = t, ed_meaning = m, ed_resolution = r \<rparr>"

definition DOCS_generic :: "error_type_doc list" where
  "DOCS_generic =
     [doc ''bad_request'' 400 ''Bad request''
        ''The request could not be understood - a header, query string or body failed to parse.''
        ''Fix the request syntax. Retrying the same bytes will fail identically.'',
      doc ''unauthorized'' 401 ''Unauthorized''
        ''No valid session. The `better-auth.session_token` cookie is absent, expired or was revoked.''
        ''Sign in again via POST /api/auth/sign-in/email, then replay the request.'',
      doc ''forbidden'' 403 ''Forbidden''
        ''The session is valid but lacks the role or ownership the route requires.''
        ''Do not retry with the same account. Request access, or act as the owning user.'',
      doc ''not_found'' 404 ''Not found''
        ''The resource does not exist, or the caller is not allowed to learn that it does. Both cases answer identically on purpose - a distinguishable 403 would leak existence.''
        ''Check the identifier. Do not infer from a 404 that the resource never existed.'',
      doc ''method_not_allowed'' 405 ''Method not allowed''
        ''The path exists but not for this HTTP method.''
        ''Use a method listed for the route in the OpenAPI spec.'',
      doc ''conflict'' 409 ''Conflict''
        ''The request collided with current state - a duplicate unique value, a stale version, or work already in flight.''
        ''Re-read the resource and decide from its current state before retrying.'',
      doc ''unprocessable_entity'' 422 ''Unprocessable entity''
        ''The request parsed correctly but broke a rule the server enforces.''
        ''Correct the offending field. The same payload will keep failing.'',
      doc ''rate_limited'' 429 ''Too many requests''
        ''A rate-limit bucket for this caller is exhausted.''
        ''Wait the number of seconds in the `Retry-After` response header, then retry.'',
      doc ''internal_server_error'' 500 ''Internal server error''
        ''An unhandled failure. The response body is deliberately generic in every environment; the cause is recorded server-side against `requestId`.''
        ''Retry once. If it persists, report the `requestId` from the response body.'',
      doc ''service_unavailable'' 503 ''Service unavailable''
        ''A dependency the request needs (database, cache, queue) is not currently reachable.''
        ''Retry with backoff. This condition is expected to be transient.'',
      doc ''request_timeout'' 504 ''Request timeout''
        ''The handler exceeded HTTP_REQUEST_TIMEOUT_MS. Only the client wait was aborted - server-side work may still complete.''
        ''Retry idempotent requests freely. For mutations, send an `Idempotency-Key` so a retry cannot duplicate the effect.'',
      doc ''not_implemented'' 501 ''Not implemented''
        ''The route exists but its handler is a scaffold that was never filled in.''
        ''Not a client error - the endpoint is unfinished. Do not retry.'',
      doc ''validation_failed'' 422 ''Validation failed''
        ''One or more fields failed validation. The `errors[]` extension lists each one with a `path` and a stable `code`; rejected values are never echoed back.''
        ''Fix every entry in `errors[]`. Key client-side messages off `code`, not `message`.'',
      doc ''payload_too_large'' 413 ''Payload too large''
        ''The body exceeded HTTP_BODY_LIMIT_BYTES, or an upload exceeded UPLOAD_MAX_FILE_BYTES.''
        ''Send a smaller body. Large files go through the presign flow, not a direct POST.'',
      doc ''unsupported_media_type'' 415 ''Unsupported media type''
        ''The `Content-Type` is not one this route accepts.''
        ''Send `application/json` unless the route documents otherwise.'',
      doc ''business_rule_violation'' 422 ''Business rule violation''
        ''A domain rule rejected the request. `errors[]` names the rule that fired.''
        ''Change the request so it satisfies the rule. Retrying unchanged cannot succeed.'',
      doc ''idempotency_key_invalid'' 400 ''Invalid idempotency key''
        ''The `Idempotency-Key` header is empty, too long, or contains disallowed characters.''
        ''Send an opaque key such as a UUID.'',
      doc ''idempotency_key_conflict'' 409 ''Idempotency key in flight''
        ''A request with this key is still being processed.''
        ''Wait and retry with the same key - the stored response is replayed once it lands.'']"

definition DOCS_organizations :: "error_type_doc list" where
  "DOCS_organizations =
     [doc ''idempotency_key_mismatch'' 422 ''Idempotency key reused with a different body''
        ''This key was already used for a different payload. Replaying it would be ambiguous.''
        ''Use a fresh key for a different request body.'',
      doc ''user_not_found'' 404 ''User not found''
        ''No user matches the supplied identifier.''
        ''Verify the id. Ids in this API are UUID v7.'',
      doc ''user_already_exists'' 409 ''User already exists''
        ''The email is already registered.''
        ''Sign in instead, or start a password reset.'',
      doc ''organization_context_required'' 403 ''Organization context required''
        ''The session has no active organization, so the request cannot be scoped to a tenant.''
        ''Select an organization for the session (POST /api/auth/organization/set-active) and retry.'',
      doc ''invalid_audit_log_id'' 400 ''Invalid audit log id''
        ''The audit log id is not a value the database can accept as a UUID.''
        ''Pass an id taken verbatim from a previous list response.'',
      doc ''invalid_cursor'' 400 ''Invalid cursor''
        ''The `startingAfter` cursor did not decode. Cursors are opaque `base64url(timestamp:id)` values and are not constructible by hand.''
        ''Restart pagination without a cursor, then follow the value the API returns.'',
      doc ''upload_mime_not_allowed'' 422 ''Upload media type not allowed''
        ''The declared content type is outside the upload allow-list.''
        ''Upload a permitted type. The allow-list is enforced by magic bytes, not by name.'',
      doc ''upload_size_out_of_range'' 422 ''Upload size out of range''
        ''The declared or actual object size is zero, or above UPLOAD_MAX_FILE_BYTES.''
        ''Send a non-empty object within the documented limit.'',
      doc ''upload_magic_bytes_unknown'' 422 ''Upload file signature unrecognised''
        ''The leading bytes match no known signature, so the real type cannot be established.''
        ''Upload an intact file of a supported type.'',
      doc ''upload_magic_bytes_mismatch'' 422 ''Upload file signature mismatch''
        ''The bytes belong to a different type than the one declared at presign time.''
        ''Declare the true content type, or upload the file the declaration described.'',
      doc ''upload_in_progress'' 409 ''Upload already in progress''
        ''This object is already being verified by the worker.''
        ''Wait for verification to settle before confirming again.'',
      doc ''storage_upload_failed'' 503 ''Storage upload failed''
        ''The object store rejected the upload. This is a transient infrastructure error.''
        ''Retry with backoff. The condition is expected to be temporary.'',
      doc ''storage_presign_failed'' 503 ''Storage presign failed''
        ''The object store could not generate a presigned upload policy.''
        ''Retry with backoff. The condition is expected to be temporary.'',
      doc ''storage_head_failed'' 503 ''Storage head failed''
        ''The object store could not return object metadata.''
        ''Retry with backoff. The condition is expected to be temporary.'',
      doc ''storage_signed_url_failed'' 503 ''Storage signed URL failed''
        ''The object store could not generate a signed download URL.''
        ''Retry with backoff. The condition is expected to be temporary.'',
      doc ''storage_delete_failed'' 503 ''Storage delete failed''
        ''The object store could not delete the object.''
        ''Retry with backoff. The condition is expected to be temporary.'',
      doc ''storage_finalize_failed'' 503 ''Storage finalize failed''
        ''The object store could not move the object from staging to its final location.''
        ''Retry with backoff. The condition is expected to be temporary.'',
      doc ''storage_read_failed'' 503 ''Storage read failed''
        ''The object store could not read the requested byte range.''
        ''Retry with backoff. The condition is expected to be temporary.'']"

definition DOCS_modules :: "error_type_doc list" where
  "DOCS_modules =
     [doc ''organization_not_found'' 404 ''Organization not found''
        ''The active organization on the session no longer exists.''
        ''Switch to another organization, then replay the request.'',
      doc ''organization_role_not_found'' 404 ''Role not found''
        ''No tenant-defined role with that name exists in the active organization.''
        ''List roles first; system roles are not editable through this endpoint.'',
      doc ''organization_role_already_exists'' 409 ''Role already exists''
        ''A role with this name is already defined in the organization.''
        ''Pick a different name, or update the existing role instead.'',
      doc ''organization_role_in_use'' 409 ''Role still in use''
        ''The role is still assigned to at least one member, so deleting it would strip their permissions silently.''
        ''Reassign every member holding the role, then delete it.'',
      doc ''team_not_found'' 404 ''Team not found''
        ''No team with that id exists in the active organization.''
        ''Check the identifier against the team list.'',
      doc ''team_name_taken'' 409 ''Team name taken''
        ''A team with this name already exists in the organization.''
        ''Pick a different name.'',
      doc ''invitation_not_found'' 404 ''Invitation not found''
        ''No invitation with that id exists in the active organization.''
        ''Check the identifier against the invitation list.'',
      doc ''invitation_not_pending'' 409 ''Invitation not pending''
        ''The invitation was already accepted, rejected or canceled, so it cannot be canceled again.''
        ''Send a new invitation instead of canceling a settled one.'',
      doc ''api_key_not_found'' 404 ''API key not found''
        ''No API key with that id exists in the active organization.''
        ''Check the identifier against the API key list.'',
      doc ''api_key_invalid_credential'' 401 ''Invalid API key''
        ''The presented API key does not match a live key - it is unknown, revoked, or expired.''
        ''Issue a new key. The raw value is only shown once, at creation.'',
      doc ''api_key_scope_exceeds_grant'' 422 ''API key scope exceeds grant''
        ''The requested scopes include a permission the caller does not hold, which would let a key escalate its creator.''
        ''Request only scopes within your own permissions.'',
      doc ''notification_not_found'' 404 ''Notification not found''
        ''No notification with that id is addressed to the caller.''
        ''Check the identifier against the notification list.'',
      doc ''feature_flag_not_found'' 404 ''Feature flag not found''
        ''No feature flag with that id exists in the active organization.''
        ''Check the identifier against the feature flag list.'',
      doc ''feature_flag_key_taken'' 409 ''Feature flag key taken''
        ''A feature flag with this key already exists in the organization.''
        ''Pick a different key, or update the existing flag.'',
      doc ''term_not_found'' 404 ''Term not found''
        ''No term document with that id or type exists.''
        ''Check the identifier, or list the published terms first.'',
      doc ''term_not_published'' 409 ''Term not published''
        ''The term version exists but has no publication date, so it cannot be accepted yet.''
        ''Accept the currently published version instead.'',
      doc ''term_version_taken'' 409 ''Term version taken''
        ''This version string already exists for this term type.''
        ''Publish a new version string.'',
      doc ''session_not_found'' 404 ''Session not found''
        ''No session with that id belongs to the caller.''
        ''Refresh the session list; it may already have been revoked or expired.'']"

definition DOCS :: "error_type_doc list" where
  "DOCS = DOCS_generic @ DOCS_organizations @ DOCS_modules"

text \<open>\<open>new Map(DOCS.map((doc) => [errorTypeSlug(doc.code), doc]))\<close>\<close>

definition ERROR_CATALOG :: "(string \<times> error_type_doc) list" where
  "ERROR_CATALOG = foldl (\<lambda>m d. AList.update (errorTypeSlug (ed_code d)) d m) [] DOCS"

definition findErrorTypeDoc :: "string \<Rightarrow> error_type_doc option" where
  "findErrorTypeDoc slug = map_of ERROR_CATALOG slug"


section \<open>Facts\<close>

lemma documented_codes: "set (map ed_code DOCS) = set ERROR_CODES"
  by code_simp

lemma slugs_distinct: "distinct (map (\<lambda>d. errorTypeSlug (ed_code d)) DOCS)"
  by code_simp

lemma catalog_build:
  "distinct (map fst m @ map f ds) \<Longrightarrow> foldl (\<lambda>m d. AList.update (f d) d m) m ds = m @ map (\<lambda>d. (f d, d)) ds"
proof (induction ds arbitrary: m)
  case (Cons d ds)
  have "AList.update k v m = m @ [(k, v)]" if "k \<notin> set (map fst m)" for k v
    using that by (induction m) auto
  then have "AList.update (f d) d m = m @ [(f d, d)]" using Cons.prems by auto
  then show ?case using Cons.IH[of "m @ [(f d, d)]"] Cons.prems by auto
qed simp

lemma ERROR_CATALOG_docs: "ERROR_CATALOG = map (\<lambda>d. (errorTypeSlug (ed_code d), d)) DOCS"
  unfolding ERROR_CATALOG_def
  using catalog_build[of "[]" "\<lambda>d. errorTypeSlug (ed_code d)" DOCS] slugs_distinct by simp

text \<open>Every code finds its own document under its slug.\<close>

lemma find_documented:
  assumes "c \<in> set ERROR_CODES"
  shows "\<exists>d. findErrorTypeDoc (errorTypeSlug c) = Some d \<and> ed_code d = c"
proof -
  have "c \<in> set (map ed_code DOCS)" using assms by (simp only: documented_codes)
  then obtain d where d: "d \<in> set DOCS" "ed_code d = c" by (auto simp only: set_map)
  have "map_of (map (\<lambda>d. (errorTypeSlug (ed_code d), d)) DOCS) (errorTypeSlug c) = Some d"
    using d slugs_distinct by (intro map_of_is_SomeI) (auto simp only: map_map comp_def fst_conv set_map)
  then show ?thesis using d(2) unfolding findErrorTypeDoc_def ERROR_CATALOG_docs by blast
qed

end
