(* ===== verification/Problem_Details.thy ===== *)
theory Problem_Details
  imports Error_Catalog Iso_Date
begin

text \<open>How the api answers a failure (apps/api/src/common/filters): \<open>normalizeException\<close> classifies
  whatever was thrown, \<open>buildProblemDetails\<close> shapes the RFC 9457 body, and the onSend hook masks
  every response of status 500 and above before it leaves. Node's own reason phrases are the parameter
  \<open>reasons\<close>; a request's ids, its url and the clock are arguments. A field of a thrown object is an
  optional JSON value, None standing for undefined.\<close>

section \<open>Status tables\<close>

definition HTTP_STATUS_TITLES :: "(nat \<times> string) list" where
  "HTTP_STATUS_TITLES =
     [(400, ''Bad Request''), (401, ''Unauthorized''), (403, ''Forbidden''), (404, ''Not Found''),
      (405, ''Method Not Allowed''), (409, ''Conflict''), (413, ''Payload Too Large''),
      (415, ''Unsupported Media Type''), (422, ''Unprocessable Entity''), (429, ''Too Many Requests''),
      (408, ''Request Timeout''), (500, ''Internal Server Error''), (501, ''Not Implemented''),
      (502, ''Bad Gateway''), (503, ''Service Unavailable''), (504, ''Gateway Timeout'')]"

definition HTTP_STATUS_CODES :: "(nat \<times> string) list" where
  "HTTP_STATUS_CODES =
     [(400, ''bad_request''), (401, ''unauthorized''), (403, ''forbidden''), (404, ''not_found''),
      (405, ''method_not_allowed''), (409, ''conflict''), (413, ''payload_too_large''),
      (415, ''unsupported_media_type''), (422, ''unprocessable_entity''), (429, ''rate_limited''),
      (500, ''internal_server_error''), (503, ''service_unavailable''), (504, ''request_timeout''),
      (408, ''request_timeout''), (501, ''not_implemented''), (502, ''service_unavailable'')]"

definition statusTitle :: "(nat \<Rightarrow> string option) \<Rightarrow> nat \<Rightarrow> string" where
  "statusTitle reasons st =
     (case map_of HTTP_STATUS_TITLES st of
        Some t \<Rightarrow> t
      | None \<Rightarrow> (case reasons st of Some r \<Rightarrow> r | None \<Rightarrow> ''Error''))"

definition statusCode :: "nat \<Rightarrow> string" where
  "statusCode st =
     (case map_of HTTP_STATUS_CODES st of
        Some c \<Rightarrow> c
      | None \<Rightarrow> if 500 \<le> st then ''internal_server_error'' else ''bad_request'')"

definition domain_kind_status :: "error_kind \<Rightarrow> nat" where
  "domain_kind_status k =
     (case k of Malformed \<Rightarrow> 400 | Validation \<Rightarrow> 422 | Conflict \<Rightarrow> 409 | NotFound \<Rightarrow> 404
      | Forbidden \<Rightarrow> 403 | Unavailable \<Rightarrow> 503)"

definition PRISMA_ERROR_MAP :: "(string \<times> (nat \<times> string)) list" where
  "PRISMA_ERROR_MAP =
     [(''P2002'', (409, ''conflict'')), (''P2003'', (409, ''conflict'')), (''P2025'', (404, ''not_found'')),
      (''P2023'', (400, ''bad_request'')), (''P2028'', (503, ''service_unavailable'')),
      (''P2024'', (503, ''service_unavailable''))]"

definition FASTIFY_CODE_TO_ERROR_CODE :: "(string \<times> string) list" where
  "FASTIFY_CODE_TO_ERROR_CODE =
     [(''FST_ERR_CTP_INVALID_JSON_BODY'', ''bad_request''), (''FST_ERR_CTP_EMPTY_JSON_BODY'', ''bad_request''),
      (''FST_ERR_CTP_INVALID_MEDIA_TYPE'', ''unsupported_media_type''),
      (''FST_ERR_CTP_INVALID_CONTENT_LENGTH'', ''bad_request''),
      (''FST_ERR_CTP_BODY_TOO_LARGE'', ''payload_too_large''), (''FST_ERR_VALIDATION'', ''validation_failed'')]"

section \<open>JSON views\<close>

definition json_member :: "string \<Rightarrow> json \<Rightarrow> json option" where
  "json_member k j = (case j of JObj ms \<Rightarrow> map_of ms k | _ \<Rightarrow> None)"

definition text_of :: "json option \<Rightarrow> string option" where
  "text_of v = (case v of Some (JStr s) \<Rightarrow> Some s | _ \<Rightarrow> None)"

definition number_of :: "json option \<Rightarrow> nat option" where
  "number_of v =
     (case v of Some (JNum n) \<Rightarrow> if natural_numeral n then Some (read_decimal n) else None | _ \<Rightarrow> None)"

definition nonempty_text_of :: "json option \<Rightarrow> string option" where
  "nonempty_text_of v = (case text_of v of Some s \<Rightarrow> if s = [] then None else Some s | None \<Rightarrow> None)"

text \<open>The operator ?? also passes over null.\<close>

definition present :: "json option \<Rightarrow> json option" where
  "present v = (case v of Some JNull \<Rightarrow> None | _ \<Rightarrow> v)"

definition or_else :: "'a option \<Rightarrow> 'a option \<Rightarrow> 'a option" where
  "or_else a b = (case a of Some x \<Rightarrow> Some x | None \<Rightarrow> b)"

section \<open>Request urls and errors in the logs\<close>

text \<open>Everything before the first question mark or hash.\<close>

definition sanitizeUrlForLogging :: "string \<Rightarrow> string" where
  "sanitizeUrlForLogging url = takeWhile (\<lambda>c. c \<noteq> CHR ''?'' \<and> c \<noteq> CHR ''#'') url"

section \<open>The body\<close>

record problem_args =
  pa_status :: nat
  pa_title :: string
  pa_detail :: "json option"
  pa_code :: string
  pa_instance :: "string option"
  pa_requestId :: "string option"
  pa_errors :: "json list option"
  pa_checks :: "(string \<times> json) list option"

definition member_if :: "string \<Rightarrow> json option \<Rightarrow> (string \<times> json) list" where
  "member_if k v = (case v of None \<Rightarrow> [] | Some j \<Rightarrow> [(k, j)])"

definition shape_error_item :: "json \<Rightarrow> json" where
  "shape_error_item item =
     JObj ([(''path'', the (json_member ''path'' item)), (''code'', the (json_member ''code'' item)),
            (''message'', the (json_member ''message'' item))]
           @ member_if ''messageKey'' (map_option JStr (text_of (json_member ''messageKey'' item)))
           @ member_if ''rule'' (map_option JStr (text_of (json_member ''rule'' item)))
           @ member_if ''constraint''
               (case json_member ''constraint'' item of Some (JObj ms) \<Rightarrow> Some (JObj ms) | _ \<Rightarrow> None))"

definition well_formed_item :: "json \<Rightarrow> bool" where
  "well_formed_item item \<longleftrightarrow>
     text_of (json_member ''path'' item) \<noteq> None \<and> text_of (json_member ''code'' item) \<noteq> None \<and>
     text_of (json_member ''message'' item) \<noteq> None"

definition shape_errors :: "json list option \<Rightarrow> json option" where
  "shape_errors errors =
     (case errors of
        None \<Rightarrow> None
      | Some items \<Rightarrow>
          (let shaped = map shape_error_item (filter well_formed_item items) in
           if shaped = [] then None else Some (JArr shaped)))"

definition shape_checks :: "(string \<times> json) list option \<Rightarrow> json option" where
  "shape_checks checks =
     (case checks of
        None \<Rightarrow> None
      | Some cs \<Rightarrow>
          if cs = [] then None
          else Some (JObj (map (\<lambda>(name, c). (name, JObj [(''status'', the (json_member ''status'' c))]))
                       (filter (\<lambda>(name, c). text_of (json_member ''status'' c) \<noteq> None) cs))))"

definition buildProblemDetails :: "string option \<Rightarrow> instant \<Rightarrow> problem_args \<Rightarrow> json" where
  "buildProblemDetails docsBase now a =
     JObj ([(''type'', JStr (errorTypeUrl docsBase (pa_code a))), (''title'', JStr (pa_title a)),
            (''status'', json_nat (pa_status a))]
           @ member_if ''detail'' (pa_detail a)
           @ member_if ''instance'' (map_option JStr (pa_instance a))
           @ [(''code'', JStr (pa_code a))]
           @ member_if ''requestId'' (map_option JStr (pa_requestId a))
           @ [(''timestamp'', JStr (toISOString now))]
           @ member_if ''errors'' (shape_errors (pa_errors a))
           @ member_if ''checks'' (shape_checks (pa_checks a)))"

section \<open>Classifying what was thrown\<close>

text \<open>A DomainException; an HttpException with its status, response and message; any other object,
  with the fields the filter reads; or a primitive.\<close>

datatype http_response = TextResponse string | ObjectResponse json

record foreign_error =
  fe_name :: "json option"
  fe_code :: "json option"
  fe_status :: "json option"
  fe_statusCode :: "json option"
  fe_title :: "json option"
  fe_type :: "json option"
  fe_detail :: "json option"
  fe_message :: "json option"

datatype thrown =
    ThrownDomain domain_exception
  | ThrownHttp nat http_response string
  | ThrownObject foreign_error
  | ThrownPrimitive

record normalized_error =
  ne_status :: nat
  ne_title :: string
  ne_detail :: "string option"
  ne_code :: string
  ne_args :: "json option"
  ne_errors :: "json list option"
  ne_checks :: "(string \<times> json) list option"

definition violation_json :: "violation \<Rightarrow> json" where
  "violation_json v =
     JObj ([(''path'', JStr (vi_path v)), (''code'', JStr (vi_code v)), (''message'', JStr (vi_message v))]
           @ member_if ''messageKey'' (map_option JStr (vi_messageKey v))
           @ member_if ''rule'' (map_option JStr (vi_rule v))
           @ member_if ''constraint'' (map_option JObj (vi_constraint v)))"

definition in_error_range :: "nat option \<Rightarrow> bool" where
  "in_error_range n = (case n of Some st \<Rightarrow> 400 \<le> st \<and> st < 600 | None \<Rightarrow> False)"

definition isFastifyLevelError :: "foreign_error \<Rightarrow> bool" where
  "isFastifyLevelError e \<longleftrightarrow>
     (case text_of (fe_code e) of Some c \<Rightarrow> starts_with ''FST_'' c | None \<Rightarrow> False) \<or>
     in_error_range (number_of (fe_status e)) \<and> text_of (fe_title e) \<noteq> None \<and> text_of (fe_type e) \<noteq> None"

definition resolveFastifyStatus :: "foreign_error \<Rightarrow> nat" where
  "resolveFastifyStatus e =
     (if in_error_range (number_of (fe_statusCode e)) then the (number_of (fe_statusCode e))
      else if in_error_range (number_of (fe_status e)) then the (number_of (fe_status e))
      else
        (case Option.bind (text_of (fe_code e)) (\<lambda>c. map_option (\<lambda>x. c) (map_of FASTIFY_CODE_TO_ERROR_CODE c)) of
           Some c \<Rightarrow>
             if c = ''FST_ERR_CTP_BODY_TOO_LARGE'' then 413
             else if c = ''FST_ERR_CTP_INVALID_MEDIA_TYPE'' then 415
             else 400
         | None \<Rightarrow> 500))"

definition resolveFastifyCode :: "string option \<Rightarrow> nat \<Rightarrow> string" where
  "resolveFastifyCode code st =
     (case Option.bind code (map_of FASTIFY_CODE_TO_ERROR_CODE) of Some c \<Rightarrow> c | None \<Rightarrow> statusCode st)"

text \<open>\<open>/^P\d{4}$/\<close>\<close>

definition prisma_code :: "string \<Rightarrow> bool" where
  "prisma_code c \<longleftrightarrow> (case c of p # ds \<Rightarrow> p = CHR ''P'' \<and> length ds = 4 \<and> list_all is_digit ds | [] \<Rightarrow> False)"

definition isPrismaKnownError :: "foreign_error \<Rightarrow> bool" where
  "isPrismaKnownError e \<longleftrightarrow>
     text_of (fe_name e) = Some ''PrismaClientKnownRequestError'' \<and>
     (case text_of (fe_code e) of Some c \<Rightarrow> prisma_code c | None \<Rightarrow> False)"

definition isPrismaError :: "foreign_error \<Rightarrow> bool" where
  "isPrismaError e \<longleftrightarrow> (case text_of (fe_name e) of Some n \<Rightarrow> starts_with ''PrismaClient'' n | None \<Rightarrow> False)"

definition extractFailingHealthChecks :: "json \<Rightarrow> (string \<times> json) list option" where
  "extractFailingHealthChecks res =
     (if text_of (json_member ''status'' res) \<noteq> Some ''error'' then None
      else (case json_member ''error'' res of
              Some (JObj ms) \<Rightarrow> if ms = [] then None else Some ms
            | _ \<Rightarrow> None))"

definition internalError :: "(nat \<Rightarrow> string option) \<Rightarrow> string \<Rightarrow> normalized_error" where
  "internalError reasons title =
     \<lparr> ne_status = 500, ne_title = title, ne_detail = Some ''common.internal_server_error'',
       ne_code = ''internal_server_error'', ne_args = None, ne_errors = None, ne_checks = None \<rparr>"

definition normalize_http :: "(nat \<Rightarrow> string option) \<Rightarrow> nat \<Rightarrow> http_response \<Rightarrow> string \<Rightarrow> normalized_error" where
  "normalize_http reasons st response message =
     (let defaultTitle = statusTitle reasons st; defaultCode = statusCode st; redact = (500 \<le> st);
          plain = (\<lambda>d. \<lparr> ne_status = st, ne_title = defaultTitle, ne_detail = Some d, ne_code = defaultCode,
                         ne_args = None, ne_errors = None, ne_checks = None \<rparr>)
      in case response of
           TextResponse res \<Rightarrow> plain (if redact then defaultTitle else res)
         | ObjectResponse res \<Rightarrow>
             (case extractFailingHealthChecks res of
                Some checks \<Rightarrow>
                  (plain (''Unhealthy dependencies: '' @ join_with '', '' (map fst checks)))
                    \<lparr> ne_checks := Some checks \<rparr>
              | None \<Rightarrow>
                  if redact then plain defaultTitle
                  else
                    (let title = default_to defaultTitle (text_of (json_member ''title'' res));
                         code = default_to defaultCode (text_of (json_member ''code'' res));
                         source = or_else (present (json_member ''messageKey'' res)) (json_member ''message'' res)
                     in case json_member ''errors'' res of
                          Some (JArr (x # xs)) \<Rightarrow>
                            \<lparr> ne_status = st, ne_title = title,
                              ne_detail = Some (default_to ''validation.failed_detail'' (text_of source)),
                              ne_code = (if code = defaultCode then ''validation_failed'' else code),
                              ne_args = json_member ''args'' res, ne_errors = Some (x # xs), ne_checks = None \<rparr>
                        | _ \<Rightarrow>
                            \<lparr> ne_status = st, ne_title = title,
                              ne_detail = Some (case source of
                                  Some (JArr js) \<Rightarrow> join_with ''; '' (map (\<lambda>j. default_to [] (text_of (Some j))) js)
                                | _ \<Rightarrow> default_to message (text_of source)),
                              ne_code = code, ne_args = json_member ''args'' res, ne_errors = None,
                              ne_checks = None \<rparr>)))"

definition normalize_foreign :: "(nat \<Rightarrow> string option) \<Rightarrow> foreign_error \<Rightarrow> normalized_error" where
  "normalize_foreign reasons e =
     (if isFastifyLevelError e then
        (let st = resolveFastifyStatus e;
             title = default_to (statusTitle reasons st) (text_of (fe_title e));
             code = text_of (fe_code e)
         in \<lparr> ne_status = st, ne_title = title,
              ne_detail =
                Some (if 500 \<le> st then title
                      else default_to title (or_else (text_of (fe_detail e)) (text_of (fe_message e)))),
              ne_code =
                (case code of
                   Some c \<Rightarrow> if c \<noteq> [] \<and> \<not> starts_with ''FST_'' c then c else resolveFastifyCode code st
                 | None \<Rightarrow> resolveFastifyCode code st),
              ne_args = None, ne_errors = None, ne_checks = None \<rparr>)
      else
        (case (if isPrismaKnownError e then map_of PRISMA_ERROR_MAP (the (text_of (fe_code e))) else None) of
           Some (st, code) \<Rightarrow>
             \<lparr> ne_status = st, ne_title = statusTitle reasons st, ne_detail = None, ne_code = code,
               ne_args = None, ne_errors = None, ne_checks = None \<rparr>
         | None \<Rightarrow>
             if isPrismaError e then internalError reasons (statusTitle reasons 500)
             else internalError reasons ''common.internal_server_error''))"

definition normalizeException :: "(nat \<Rightarrow> string option) \<Rightarrow> thrown \<Rightarrow> normalized_error" where
  "normalizeException reasons x =
     (case x of
        ThrownDomain e \<Rightarrow>
          \<lparr> ne_status = domain_kind_status (ex_kind e), ne_title = ex_title e, ne_detail = ex_messageKey e,
            ne_code = ex_code e, ne_args = map_option JObj (ex_args e),
            ne_errors = Some (map violation_json (ex_violations e)), ne_checks = None \<rparr>
      | ThrownHttp st response message \<Rightarrow> normalize_http reasons st response message
      | ThrownObject e \<Rightarrow> normalize_foreign reasons e
      | ThrownPrimitive \<Rightarrow> internalError reasons ''common.internal_server_error'')"

section \<open>The global filter\<close>

definition HTTP_STATUS_TO_I18N_KEY :: "(nat \<times> string) list" where
  "HTTP_STATUS_TO_I18N_KEY =
     [(400, ''common.bad_request''), (401, ''common.unauthorized''), (403, ''common.forbidden''),
      (404, ''common.not_found''), (409, ''common.conflict''), (413, ''common.payload_too_large''),
      (415, ''common.unsupported_media_type''), (422, ''common.unprocessable_entity''),
      (429, ''common.too_many_requests''), (500, ''common.internal_server_error''),
      (503, ''common.service_unavailable''), (504, ''common.request_timeout'')]"

text \<open>\<open>tr\<close> is translateOrFallback in the request's language, with the interpolation arguments.\<close>

type_synonym translation = "string \<Rightarrow> json option \<Rightarrow> string"

definition maybeTranslate :: "translation \<Rightarrow> string \<Rightarrow> json option \<Rightarrow> string" where
  "maybeTranslate tr v args = (if CHR ''.'' \<in> set v then tr v args else v)"

definition translate_item :: "translation \<Rightarrow> json \<Rightarrow> json" where
  "translate_item tr item =
     (case (item, nonempty_text_of (json_member ''messageKey'' item)) of
        (JObj ms, Some key) \<Rightarrow>
          JObj (AList.update ''message''
                  (JStr (tr key (Some (JObj ((''path'', the (json_member ''path'' item)) #
                     (case json_member ''constraint'' item of Some (JObj cs) \<Rightarrow> cs | _ \<Rightarrow> [])))))) ms)
      | _ \<Rightarrow> item)"

definition translateNormalized :: "translation \<Rightarrow> normalized_error \<Rightarrow> normalized_error" where
  "translateNormalized tr n =
     n \<lparr> ne_title := maybeTranslate tr (ne_title n) (ne_args n),
         ne_detail :=
           (case ne_detail n of
              Some d \<Rightarrow>
                if d \<noteq> [] then Some (maybeTranslate tr d (ne_args n))
                else map_option (\<lambda>k. tr k None) (map_of HTTP_STATUS_TO_I18N_KEY (ne_status n))
            | None \<Rightarrow> map_option (\<lambda>k. tr k None) (map_of HTTP_STATUS_TO_I18N_KEY (ne_status n))),
         ne_errors := map_option (map (translate_item tr)) (ne_errors n) \<rparr>"

record response_context =
  rc_docsBase :: "string option"
  rc_now :: instant
  rc_url :: string
  rc_requestId :: string
  rc_graphqlRoute :: bool

definition filter_reply ::
    "(nat \<Rightarrow> string option) \<Rightarrow> translation \<Rightarrow> response_context \<Rightarrow> thrown \<Rightarrow> nat \<times> json" where
  "filter_reply reasons tr ctx x =
     (let n = translateNormalized tr (normalizeException reasons x) in
      (ne_status n,
       buildProblemDetails (rc_docsBase ctx) (rc_now ctx)
         \<lparr> pa_status = ne_status n, pa_title = ne_title n, pa_detail = map_option JStr (ne_detail n),
           pa_code = ne_code n, pa_instance = Some (sanitizeUrlForLogging (rc_url ctx)),
           pa_requestId = Some (rc_requestId ctx), pa_errors = ne_errors n, pa_checks = ne_checks n \<rparr>))"

section \<open>The onSend hook\<close>

definition parseSerializedError :: "string \<Rightarrow> json option" where
  "parseSerializedError payload =
     (if payload = [] then None
      else (case json_parse payload of
              Some (JObj ms) \<Rightarrow> Some (JObj ms)
            | Some (JArr js) \<Rightarrow> Some (JArr js)
            | _ \<Rightarrow> None))"

definition source_member :: "string \<Rightarrow> json option \<Rightarrow> json option" where
  "source_member k src = Option.bind src (json_member k)"

definition isGraphqlErrorEnvelope :: "json option \<Rightarrow> bool" where
  "isGraphqlErrorEnvelope src \<longleftrightarrow> (case source_member ''errors'' src of Some (JArr _) \<Rightarrow> True | _ \<Rightarrow> False)"

definition isProblemDetailsShape :: "json option \<Rightarrow> bool" where
  "isProblemDetailsShape src \<longleftrightarrow>
     in_error_range (number_of (source_member ''status'' src)) \<and>
     text_of (source_member ''title'' src) \<noteq> None \<and> text_of (source_member ''type'' src) \<noteq> None"

definition append_member :: "string \<Rightarrow> json option \<Rightarrow> json \<Rightarrow> json" where
  "append_member k v j = (case j of JObj ms \<Rightarrow> JObj (ms @ member_if k v) | _ \<Rightarrow> j)"

definition problem_answer ::
    "(nat \<Rightarrow> string option) \<Rightarrow> response_context \<Rightarrow> nat \<Rightarrow> json option \<Rightarrow> json" where
  "problem_answer reasons ctx st src =
     (let server = (500 \<le> st);
          title = (if server then statusTitle reasons st else the (text_of (source_member ''title'' src)));
          detail = (if server then Some (JStr title) else source_member ''detail'' src);
          code = (case text_of (source_member ''code'' src) of
                    Some c \<Rightarrow> if server then statusCode st else c
                  | None \<Rightarrow> statusCode st);
          inst = sanitizeUrlForLogging (default_to (rc_url ctx) (text_of (source_member ''instance'' src)));
          body = buildProblemDetails (rc_docsBase ctx) (rc_now ctx)
            \<lparr> pa_status = st, pa_title = title, pa_detail = detail, pa_code = code, pa_instance = Some inst,
              pa_requestId = Some (rc_requestId ctx),
              pa_errors = (case source_member ''errors'' src of
                             Some (JArr es) \<Rightarrow> if server then None else Some es | _ \<Rightarrow> None),
              pa_checks = (case source_member ''checks'' src of
                             Some (JObj cs) \<Rightarrow> if server then Some cs else None | _ \<Rightarrow> None) \<rparr>
      in case source_member ''retryAfter'' src of
           Some (JNum r) \<Rightarrow> if server then body else append_member ''retryAfter'' (Some (JNum r)) body
         | _ \<Rightarrow> body)"

definition unshaped_answer ::
    "(nat \<Rightarrow> string option) \<Rightarrow> response_context \<Rightarrow> nat \<Rightarrow> json option \<Rightarrow> json" where
  "unshaped_answer reasons ctx st src =
     (let rawCode = text_of (source_member ''code'' src);
          code = (case rawCode of
                    Some c \<Rightarrow> if st < 500 \<and> c \<noteq> [] \<and> \<not> starts_with ''FST_'' c then c else resolveFastifyCode rawCode st
                  | None \<Rightarrow> resolveFastifyCode rawCode st);
          title = default_to (statusTitle reasons st)
                    (or_else (nonempty_text_of (source_member ''title'' src))
                       (nonempty_text_of (source_member ''error'' src)));
          rawDetail = default_to title
                    (or_else (nonempty_text_of (source_member ''detail'' src))
                       (nonempty_text_of (source_member ''message'' src)));
          detail = (if 500 \<le> st then title
                    else if nonempty_text_of (source_member ''type'' src) \<noteq> None then rawDetail else title)
      in buildProblemDetails (rc_docsBase ctx) (rc_now ctx)
           \<lparr> pa_status = st, pa_title = title, pa_detail = Some (JStr detail), pa_code = code,
             pa_instance = Some (sanitizeUrlForLogging (rc_url ctx)), pa_requestId = Some (rc_requestId ctx),
             pa_errors = None, pa_checks = None \<rparr>)"

text \<open>The payload that leaves: None when the hook passes the original on.\<close>

definition on_send ::
    "(nat \<Rightarrow> string option) \<Rightarrow> response_context \<Rightarrow> nat \<Rightarrow> string \<Rightarrow> string option" where
  "on_send reasons ctx st payload =
     (if st < 400 then None
      else
        (let src = parseSerializedError payload in
         if rc_graphqlRoute ctx \<and> isGraphqlErrorEnvelope src then None
         else if isProblemDetailsShape src \<and> number_of (source_member ''status'' src) = Some st
         then Some (stringify (problem_answer reasons ctx st src))
         else Some (stringify (unshaped_answer reasons ctx st src))))"

text \<open>A failed REST request: the filter answers, Fastify serializes, the hook has the last word.\<close>

definition answer_failure ::
    "(nat \<Rightarrow> string option) \<Rightarrow> translation \<Rightarrow> response_context \<Rightarrow> thrown \<Rightarrow> nat \<times> string" where
  "answer_failure reasons tr ctx x =
     (case filter_reply reasons tr ctx x of
        (st, body) \<Rightarrow> (st, default_to (stringify body) (on_send reasons ctx st (stringify body))))"

section \<open>Facts\<close>

lemma map_of_member_if [simp]: "map_of (member_if k v) k' = (if k' = k then v else None)"
  by (simp add: member_if_def split: option.split)

lemma set_member_if [simp]: "set (member_if k v) = (case v of None \<Rightarrow> {} | Some j \<Rightarrow> {(k, j)})"
  by (simp add: member_if_def split: option.split)

lemma keys_member_if [simp]: "map fst (member_if k v) = (if v = None then [] else [k])"
  by (simp add: member_if_def split: option.split)

lemma list_all_member_if [simp]: "list_all P (member_if k v) = (case v of None \<Rightarrow> True | Some j \<Rightarrow> P (k, j))"
  by (simp add: member_if_def split: option.split)

lemma text_of_Some [simp]: "text_of (Some (JStr s)) = Some s" "text_of None = None"
  by (simp_all add: text_of_def)

lemma text_ofD: "text_of v = Some s \<Longrightarrow> v = Some (JStr s)"
  by (auto simp: text_of_def split: option.splits json.splits)

lemma number_of_json_nat [simp]: "number_of (Some (json_nat n)) = Some n"
  by (simp add: number_of_def json_nat_def)

lemma plain_member: "plain_json j \<Longrightarrow> json_member k j = Some v \<Longrightarrow> plain_json v"
  by (cases j) (auto simp: json_member_def list_all_iff dest!: map_of_SomeD)

lemma well_formed_members:
  assumes "well_formed_item item"
  obtains p c m where "json_member ''path'' item = Some (JStr p)" "json_member ''code'' item = Some (JStr c)"
    "json_member ''message'' item = Some (JStr m)"
  using assms by (auto simp: well_formed_item_def dest!: text_ofD)

lemma plain_shape_error_item:
  assumes "plain_json item" "well_formed_item item"
  shows "plain_json (shape_error_item item)"
proof -
  obtain p c m where "json_member ''path'' item = Some (JStr p)" "json_member ''code'' item = Some (JStr c)"
    "json_member ''message'' item = Some (JStr m)"
    using assms(2) by (rule well_formed_members)
  then show ?thesis
    using plain_member[OF assms(1), of "''constraint''"]
    by (auto simp: shape_error_item_def split: option.splits json.splits)
qed

definition plain_checks :: "(string \<times> json) list option \<Rightarrow> bool" where
  "plain_checks cs = (case cs of None \<Rightarrow> True | Some l \<Rightarrow> distinct (map fst l))"

definition plain_errors :: "json list option \<Rightarrow> bool" where
  "plain_errors es = (case es of None \<Rightarrow> True | Some l \<Rightarrow> list_all plain_json l)"

lemma plain_shape_errors: "plain_errors es \<Longrightarrow> shape_errors es = Some j \<Longrightarrow> plain_json j"
  by (auto simp: shape_errors_def plain_errors_def Let_def list_all_iff plain_shape_error_item
      split: option.splits if_splits)

definition status_of_check :: "json \<Rightarrow> json" where
  "status_of_check c = JObj [(''status'', the (json_member ''status'' c))]"

definition kept_checks :: "(string \<times> json) list \<Rightarrow> (string \<times> json) list" where
  "kept_checks cs =
     map (\<lambda>(name, c). (name, status_of_check c))
       (filter (\<lambda>(name, c). text_of (json_member ''status'' c) \<noteq> None) cs)"

lemma shape_checks_kept:
  "shape_checks checks = (case checks of None \<Rightarrow> None | Some cs \<Rightarrow> if cs = [] then None else Some (JObj (kept_checks cs)))"
  by (simp add: shape_checks_def kept_checks_def status_of_check_def[abs_def] split: option.split)

lemma kept_checks_kept: "kept_checks (kept_checks cs) = kept_checks cs"
  by (induction cs) (auto simp: kept_checks_def status_of_check_def json_member_def dest: text_ofD)

lemma keys_kept_checks: "distinct (map fst cs) \<Longrightarrow> distinct (map fst (kept_checks cs))"
proof -
  have "map fst (kept_checks cs) = map fst (filter (\<lambda>(name, c). text_of (json_member ''status'' c) \<noteq> None) cs)"
    by (simp add: kept_checks_def comp_def case_prod_beta)
  then show "distinct (map fst cs) \<Longrightarrow> distinct (map fst (kept_checks cs))"
    by (simp only: distinct_map_filter)
qed

lemma plain_kept_checks: "list_all (\<lambda>(k, j). plain_json j) (kept_checks cs)"
  by (induction cs) (auto simp: kept_checks_def status_of_check_def dest!: text_ofD)

lemma plain_shape_checks: "plain_checks cs \<Longrightarrow> shape_checks cs = Some j \<Longrightarrow> plain_json j"
  by (auto simp: shape_checks_kept plain_checks_def keys_kept_checks plain_kept_checks
      split: option.splits if_splits)

definition plain_args :: "problem_args \<Rightarrow> bool" where
  "plain_args a \<longleftrightarrow> (case pa_detail a of None \<Rightarrow> True | Some j \<Rightarrow> plain_json j) \<and>
     plain_errors (pa_errors a) \<and> plain_checks (pa_checks a)"

lemma plain_body: "plain_args a \<Longrightarrow> plain_json (buildProblemDetails docsBase now a)"
  by (auto simp: buildProblemDetails_def plain_args_def plain_shape_errors plain_shape_checks
      split: option.splits)

lemma body_members:
  "json_member ''status'' (buildProblemDetails docsBase now a) = Some (json_nat (pa_status a))"
  "json_member ''title'' (buildProblemDetails docsBase now a) = Some (JStr (pa_title a))"
  "json_member ''type'' (buildProblemDetails docsBase now a) = Some (JStr (errorTypeUrl docsBase (pa_code a)))"
  "json_member ''instance'' (buildProblemDetails docsBase now a) = map_option JStr (pa_instance a)"
  "json_member ''retryAfter'' (buildProblemDetails docsBase now a) = None"
  "json_member ''checks'' (buildProblemDetails docsBase now a) = shape_checks (pa_checks a)"
  "json_member ''code'' (buildProblemDetails docsBase now a) = Some (JStr (pa_code a))"
  by (simp_all add: buildProblemDetails_def json_member_def map_add_def split: option.split)

lemma body_object: "\<exists>ms. buildProblemDetails docsBase now a = JObj ms \<and> ms \<noteq> []"
  by (simp add: buildProblemDetails_def)

lemma reparsed_body:
  assumes "plain_args a"
  shows "parseSerializedError (stringify (buildProblemDetails docsBase now a)) = Some (buildProblemDetails docsBase now a)"
proof -
  obtain ms where ms: "buildProblemDetails docsBase now a = JObj ms"
    using body_object by blast
  have "json_parse (stringify (JObj ms)) = Some (JObj ms)"
    using json_roundtrip[of "JObj ms"] plain_body[OF assms, of docsBase now] unfolding ms by blast
  then show ?thesis by (simp add: parseSerializedError_def ms)
qed

lemma sanitize_idem [simp]: "sanitizeUrlForLogging (sanitizeUrlForLogging u) = sanitizeUrlForLogging u"
  unfolding sanitizeUrlForLogging_def takeWhile_eq_all_conv by (auto dest: set_takeWhileD)

text \<open>The body a server failure leaves with: built from the status, the url, the request id, the clock and
  the dependency states alone.\<close>

definition masked_body ::
    "(nat \<Rightarrow> string option) \<Rightarrow> response_context \<Rightarrow> nat \<Rightarrow> (string \<times> json) list option \<Rightarrow> json" where
  "masked_body reasons ctx st checks =
     buildProblemDetails (rc_docsBase ctx) (rc_now ctx)
       \<lparr> pa_status = st, pa_title = statusTitle reasons st, pa_detail = Some (JStr (statusTitle reasons st)),
         pa_code = statusCode st, pa_instance = Some (sanitizeUrlForLogging (rc_url ctx)),
         pa_requestId = Some (rc_requestId ctx), pa_errors = None, pa_checks = checks \<rparr>"

lemma problem_answer_masked:
  assumes "500 \<le> st" "pa_status a = st" "pa_instance a = Some (sanitizeUrlForLogging (rc_url ctx))"
  shows "problem_answer reasons ctx st (Some (buildProblemDetails docsBase now a))
    = masked_body reasons ctx st (case pa_checks a of None \<Rightarrow> None | Some cs \<Rightarrow> if cs = [] then None else Some (kept_checks cs))"
  using assms
  by (simp add: problem_answer_def masked_body_def source_member_def body_members Let_def shape_checks_kept
      split: option.split json.split)

lemma masked_body_kept: "masked_body reasons ctx st (Some (kept_checks cs)) = 
    masked_body reasons ctx st (if kept_checks cs = [] then None else Some (kept_checks cs))"
  by (simp add: masked_body_def buildProblemDetails_def shape_checks_kept)

lemma plain_update:
  "plain_json (JObj ms) \<Longrightarrow> plain_json j \<Longrightarrow> plain_json (JObj (AList.update k j ms))"
proof -
  have "list_all (\<lambda>(k, j). plain_json j) ms \<Longrightarrow> plain_json j \<Longrightarrow>
      list_all (\<lambda>(k, j). plain_json j) (AList.update k j ms)"
    by (induction ms) auto
  then show "plain_json (JObj ms) \<Longrightarrow> plain_json j \<Longrightarrow> plain_json (JObj (AList.update k j ms))"
    by (simp add: distinct_update)
qed

lemma plain_translate_item: "plain_json item \<Longrightarrow> plain_json (translate_item tr item)"
  by (auto simp: translate_item_def plain_update simp del: plain_json.simps(3)
      split: json.split option.split)

text \<open>A thrown value whose errors and checks are ordinary JSON objects, without repeated keys.\<close>

definition plain_thrown :: "(nat \<Rightarrow> string option) \<Rightarrow> thrown \<Rightarrow> bool" where
  "plain_thrown reasons x \<longleftrightarrow>
     plain_errors (ne_errors (normalizeException reasons x)) \<and> plain_checks (ne_checks (normalizeException reasons x))"

definition failure_status :: "(nat \<Rightarrow> string option) \<Rightarrow> thrown \<Rightarrow> nat" where
  "failure_status reasons x = ne_status (normalizeException reasons x)"

lemma filter_reply_masked:
  assumes "plain_thrown reasons x" "500 \<le> failure_status reasons x" "failure_status reasons x < 600"
    "\<not> rc_graphqlRoute ctx"
  shows "answer_failure reasons tr ctx x =
    (failure_status reasons x,
     stringify (masked_body reasons ctx (failure_status reasons x)
       (case ne_checks (normalizeException reasons x) of
          None \<Rightarrow> None | Some cs \<Rightarrow> if cs = [] then None else Some (kept_checks cs))))"
proof -
  define n where "n = translateNormalized tr (normalizeException reasons x)"
  define a where "a = \<lparr> pa_status = ne_status n, pa_title = ne_title n, pa_detail = map_option JStr (ne_detail n),
           pa_code = ne_code n, pa_instance = Some (sanitizeUrlForLogging (rc_url ctx)),
           pa_requestId = Some (rc_requestId ctx), pa_errors = ne_errors n, pa_checks = ne_checks n \<rparr>"
  define st where "st = failure_status reasons x"
  have n: "ne_status n = st" "ne_checks n = ne_checks (normalizeException reasons x)"
    by (simp_all add: n_def translateNormalized_def failure_status_def st_def)
  have "plain_errors (ne_errors n)"
    using assms(1) plain_translate_item
    by (auto simp: n_def translateNormalized_def plain_thrown_def plain_errors_def list_all_iff split: option.splits)
  then have plain: "plain_args a"
    using assms(1) by (auto simp: plain_args_def a_def n plain_thrown_def split: option.splits)
  let ?b = "buildProblemDetails (rc_docsBase ctx) (rc_now ctx) a"
  have reply: "filter_reply reasons tr ctx x = (st, ?b)"
    by (simp add: filter_reply_def Let_def n_def[symmetric] a_def n)
  have shape: "isProblemDetailsShape (Some ?b)" "number_of (source_member ''status'' (Some ?b)) = Some st"
    using assms(2,3)
    by (simp_all add: isProblemDetailsShape_def source_member_def body_members a_def n in_error_range_def st_def)
  have "on_send reasons ctx st (stringify ?b) = Some (stringify (problem_answer reasons ctx st (Some ?b)))"
    using assms(2,4) shape reparsed_body[OF plain, of "rc_docsBase ctx" "rc_now ctx"]
    by (simp add: on_send_def Let_def st_def)
  moreover have "problem_answer reasons ctx st (Some ?b) = masked_body reasons ctx st
      (case ne_checks (normalizeException reasons x) of
          None \<Rightarrow> None | Some cs \<Rightarrow> if cs = [] then None else Some (kept_checks cs))"
    using problem_answer_masked[of st a ctx reasons "rc_docsBase ctx" "rc_now ctx"] assms(2)
    by (simp add: a_def n st_def)
  ultimately show ?thesis by (simp add: answer_failure_def reply st_def)
qed


section \<open>Client errors pass the hook unchanged\<close>

lemma body_members_more:
  "json_member ''detail'' (buildProblemDetails docsBase now a) = pa_detail a"
  "json_member ''errors'' (buildProblemDetails docsBase now a) = shape_errors (pa_errors a)"
  by (simp_all add: buildProblemDetails_def json_member_def map_add_def split: option.split)

lemma shaped_item:
  assumes "well_formed_item item"
  shows "well_formed_item (shape_error_item item)" "shape_error_item (shape_error_item item) = shape_error_item item"
    "json_member ''path'' (shape_error_item item) = json_member ''path'' item"
proof -
  obtain p c m where m: "json_member ''path'' item = Some (JStr p)" "json_member ''code'' item = Some (JStr c)"
    "json_member ''message'' item = Some (JStr m)"
    using assms by (rule well_formed_members)
  let ?k = "json_member ''messageKey'' item" and ?r = "json_member ''rule'' item" and ?c = "json_member ''constraint'' item"
  have sel: "json_member ''path'' (shape_error_item item) = Some (JStr p)"
      "json_member ''code'' (shape_error_item item) = Some (JStr c)"
      "json_member ''message'' (shape_error_item item) = Some (JStr m)"
      "json_member ''messageKey'' (shape_error_item item) = map_option JStr (text_of ?k)"
      "json_member ''rule'' (shape_error_item item) = map_option JStr (text_of ?r)"
      "json_member ''constraint'' (shape_error_item item) = (case ?c of Some (JObj ms) \<Rightarrow> Some (JObj ms) | _ \<Rightarrow> None)"
    by (simp_all add: shape_error_item_def m json_member_def[of _ "JObj _"] map_add_def split: option.split)
  show "json_member ''path'' (shape_error_item item) = json_member ''path'' item" by (simp add: sel m)
  show "well_formed_item (shape_error_item item)" by (simp add: well_formed_item_def sel)
  have [simp]: "text_of (map_option JStr x) = x" for x by (cases x) simp_all
  have con: "(case (case x of Some (JObj ms) \<Rightarrow> Some (JObj ms) | _ \<Rightarrow> None) of Some (JObj ms) \<Rightarrow> Some (JObj ms) | _ \<Rightarrow> None)
      = (case x of Some (JObj ms) \<Rightarrow> Some (JObj ms) | _ \<Rightarrow> None)" for x
    by (simp split: option.split json.split)
  show "shape_error_item (shape_error_item item) = shape_error_item item"
    by (simp add: shape_error_item_def[of "shape_error_item item"] sel con) (simp add: shape_error_item_def m)
qed

lemma shape_errors_stable:
  "shape_errors (case shape_errors es of Some (JArr l) \<Rightarrow> Some l | _ \<Rightarrow> None) = shape_errors es"
proof (cases es)
  case (Some items)
  let ?l = "map shape_error_item (filter well_formed_item items)"
  have "filter well_formed_item ?l = ?l" by (rule filter_True) (auto simp: shaped_item)
  then show ?thesis using Some by (simp add: shape_errors_def shaped_item comp_def Let_def cong: map_cong)
qed (simp add: shape_errors_def)

lemma problem_answer_client:
  assumes "st < 500" "pa_status a = st" "pa_requestId a = Some (rc_requestId ctx)" "pa_checks a = None"
    "pa_instance a = Some (sanitizeUrlForLogging (rc_url ctx))"
  shows "problem_answer reasons ctx st (Some (buildProblemDetails (rc_docsBase ctx) (rc_now ctx) a))
    = buildProblemDetails (rc_docsBase ctx) (rc_now ctx) a"
proof -
  let ?e = "case shape_errors (pa_errors a) of Some (JArr l) \<Rightarrow> Some l | _ \<Rightarrow> None"
  have "problem_answer reasons ctx st (Some (buildProblemDetails (rc_docsBase ctx) (rc_now ctx) a))
      = buildProblemDetails (rc_docsBase ctx) (rc_now ctx) (a \<lparr> pa_errors := ?e \<rparr>)"
    using assms
    by (cases a) (simp add: problem_answer_def source_member_def body_members body_members_more Let_def shape_checks_def
        cong: option.case_cong json.case_cong)
  then show ?thesis by (simp add: buildProblemDetails_def shape_errors_stable)
qed

lemma client_reply_unchanged:
  assumes "plain_thrown reasons x" "400 \<le> failure_status reasons x" "failure_status reasons x < 500"
    "\<not> rc_graphqlRoute ctx" "ne_checks (normalizeException reasons x) = None"
  shows "answer_failure reasons tr ctx x =
    (failure_status reasons x, stringify (snd (filter_reply reasons tr ctx x)))"
    and "json_parse (stringify (snd (filter_reply reasons tr ctx x))) = Some (snd (filter_reply reasons tr ctx x))"
proof -
  define n where "n = translateNormalized tr (normalizeException reasons x)"
  define a where "a = \<lparr> pa_status = ne_status n, pa_title = ne_title n, pa_detail = map_option JStr (ne_detail n),
           pa_code = ne_code n, pa_instance = Some (sanitizeUrlForLogging (rc_url ctx)),
           pa_requestId = Some (rc_requestId ctx), pa_errors = ne_errors n, pa_checks = ne_checks n \<rparr>"
  define st where "st = failure_status reasons x"
  have n: "ne_status n = st" "ne_checks n = None"
    using assms(5) by (simp_all add: n_def translateNormalized_def failure_status_def st_def)
  have "plain_errors (ne_errors n)"
    using assms(1) plain_translate_item
    by (auto simp: n_def translateNormalized_def plain_thrown_def plain_errors_def list_all_iff split: option.splits)
  then have plain: "plain_args a"
    by (auto simp: plain_args_def a_def n plain_checks_def split: option.splits)
  let ?b = "buildProblemDetails (rc_docsBase ctx) (rc_now ctx) a"
  have reply: "filter_reply reasons tr ctx x = (st, ?b)"
    by (simp add: filter_reply_def Let_def n_def[symmetric] a_def n)
  have shape: "isProblemDetailsShape (Some ?b)" "number_of (source_member ''status'' (Some ?b)) = Some st"
    using assms(2,3)
    by (simp_all add: isProblemDetailsShape_def source_member_def body_members a_def n in_error_range_def st_def)
  have "on_send reasons ctx st (stringify ?b) = Some (stringify (problem_answer reasons ctx st (Some ?b)))"
    using assms(2,4) shape reparsed_body[OF plain, of "rc_docsBase ctx" "rc_now ctx"]
    by (simp add: on_send_def Let_def st_def)
  moreover have "problem_answer reasons ctx st (Some ?b) = ?b"
    using assms(3) by (intro problem_answer_client) (simp_all add: a_def n st_def)
  ultimately show "answer_failure reasons tr ctx x =
    (failure_status reasons x, stringify (snd (filter_reply reasons tr ctx x)))"
    by (simp add: answer_failure_def reply st_def)
  obtain ms where "?b = JObj ms" using body_object by blast
  then show "json_parse (stringify (snd (filter_reply reasons tr ctx x))) = Some (snd (filter_reply reasons tr ctx x))"
    using json_roundtrip[of "JObj ms"] plain_body[OF plain, of "rc_docsBase ctx" "rc_now ctx"] by (simp add: reply)
qed


section \<open>What the answers guarantee\<close>

text \<open>The catalog is complete and exact: every error code has a document under the slug of its own
  type URI, no document stands for another code, and the code derived from any status is documented,
  so the type of every problem the filters derive resolves.\<close>

theorem error_codes_documented:
  "list_all (\<lambda>c. map_option ed_code (findErrorTypeDoc (errorTypeSlug c)) = Some c) ERROR_CODES \<and>
   set (map ed_code DOCS) = set ERROR_CODES \<and> length DOCS = length ERROR_CODES \<and>
   findErrorTypeDoc (errorTypeSlug (statusCode st)) \<noteq> None"
proof (intro conjI)
  have derived: "list_all (\<lambda>c. c \<in> set ERROR_CODES) (''internal_server_error'' # ''bad_request'' # map snd HTTP_STATUS_CODES)"
    by code_simp
  have "statusCode st \<in> set (''internal_server_error'' # ''bad_request'' # map snd HTTP_STATUS_CODES)"
    by (auto simp: statusCode_def image_iff split: option.split dest!: map_of_SomeD intro!: bexI[of _ "(st, x)" for x])
  then have "statusCode st \<in> set ERROR_CODES" using derived unfolding list_all_iff by blast
  then show "findErrorTypeDoc (errorTypeSlug (statusCode st)) \<noteq> None" using find_documented by fastforce
  show "list_all (\<lambda>c. map_option ed_code (findErrorTypeDoc (errorTypeSlug c)) = Some c) ERROR_CODES"
    using find_documented by (simp add: list_all_iff)
qed (rule documented_codes, code_simp)


definition example_context :: response_context where
  "example_context =
     \<lparr> rc_docsBase = None, rc_now = 1779160000123, rc_url = ''/api/files?token=secret'', rc_requestId = ''r1'',
       rc_graphqlRoute = False \<rparr>"

definition leaky_error :: foreign_error where
  "leaky_error =
     \<lparr> fe_name = Some (JStr ''PrismaClientInitializationError''), fe_code = None, fe_status = None,
       fe_statusCode = None, fe_title = None, fe_type = None, fe_detail = None,
       fe_message = Some (JStr ''connect ECONNREFUSED postgres://user:pw@db'') \<rparr>"


text \<open>C12. A business error reaches the client whole: the answer to a DomainException other than an
  unavailability has the status of its kind, and its body parses to a problem with the exception's code,
  the type URI of that code, the status of the response and one item for each violation, in order and with
  its path, through filter, serialization and hook.\<close>

theorem domain_errors_reach_client:
  assumes "plain_errors (Some (map violation_json (ex_violations e)))" "ex_kind e \<noteq> Unavailable"
    "\<not> rc_graphqlRoute ctx"
  shows "\<exists>body. fst (answer_failure reasons tr ctx (ThrownDomain e)) = domain_kind_status (ex_kind e) \<and>
     json_parse (snd (answer_failure reasons tr ctx (ThrownDomain e))) = Some body \<and>
     json_member ''code'' body = Some (JStr (ex_code e)) \<and>
     json_member ''type'' body = Some (JStr (errorTypeUrl (rc_docsBase ctx) (ex_code e))) \<and>
     json_member ''status'' body = Some (json_nat (domain_kind_status (ex_kind e))) \<and>
     map (json_member ''path'') (case json_member ''errors'' body of Some (JArr es) \<Rightarrow> es | _ \<Rightarrow> [])
       = map (\<lambda>v. Some (JStr (vi_path v))) (ex_violations e)"
proof -
  let ?x = "ThrownDomain e"
  have st: "failure_status reasons ?x = domain_kind_status (ex_kind e)"
    "ne_checks (normalizeException reasons ?x) = None"
    by (simp_all add: failure_status_def normalizeException_def)
  have range: "400 \<le> domain_kind_status (ex_kind e)" "domain_kind_status (ex_kind e) < 500"
    using assms(2) by (cases "ex_kind e"; simp add: domain_kind_status_def)+
  have plain: "plain_thrown reasons ?x"
    using assms(1) by (simp add: plain_thrown_def normalizeException_def plain_checks_def)
  note reply = client_reply_unchanged[OF plain _ _ assms(3) st(2), of tr, unfolded st, OF range]
  let ?b = "snd (filter_reply reasons tr ctx ?x)"
  have item: "well_formed_item (translate_item tr (violation_json v)) \<and>
      json_member ''path'' (translate_item tr (violation_json v)) = Some (JStr (vi_path v))" for v
    by (auto simp: translate_item_def violation_json_def well_formed_item_def json_member_def map_add_def
        split: option.split json.split)
  have errors: "shape_errors (Some (map (translate_item tr) (map violation_json vs)))
      = (if vs = [] then None else Some (JArr (map (shape_error_item \<circ> translate_item tr \<circ> violation_json) vs)))" for vs
  proof -
    have "filter well_formed_item (map (translate_item tr) (map violation_json vs)) = map (translate_item tr) (map violation_json vs)"
      using item by (intro filter_True) auto
    then show ?thesis by (simp add: shape_errors_def Let_def comp_def)
  qed
  have "map (json_member ''path'') (case json_member ''errors'' ?b of Some (JArr es) \<Rightarrow> es | _ \<Rightarrow> [])
      = map (\<lambda>v. Some (JStr (vi_path v))) (ex_violations e)"
    using item errors[of "ex_violations e"]
    by (simp add: filter_reply_def Let_def body_members_more normalizeException_def translateNormalized_def
        shaped_item comp_def errors del: map_map) (simp add: shaped_item item comp_def)
  then show ?thesis
    by (intro exI[of _ ?b]) (simp add: reply, simp add: filter_reply_def Let_def body_members
        normalizeException_def translateNormalized_def)
qed

definition example_exception :: domain_exception where
  "example_exception =
     new_domain_exception (fieldProblem (problem NotFound ''team_not_found'' ''errors.teams.not_found'' ''id'' ''Team not found''))"

theorem domain_errors_reach_client_witness:
  "\<exists>body. json_parse (snd (answer_failure (\<lambda>st. None) (\<lambda>k a. k) example_context (ThrownDomain example_exception))) = Some body \<and>
     json_member ''code'' body = Some (JStr ''team_not_found'') \<and> json_member ''status'' body = Some (json_nat 404)"
proof -
  have "plain_errors (Some (map violation_json (ex_violations example_exception)))"
    "ex_kind example_exception \<noteq> Unavailable" "\<not> rc_graphqlRoute example_context"
    "ex_code example_exception = ''team_not_found''" "domain_kind_status (ex_kind example_exception) = 404"
    by code_simp+
  then show ?thesis
    using domain_errors_reach_client[of example_exception example_context "\<lambda>st. None" "\<lambda>k a. k"] by metis
qed

text \<open>A body of status 500 that is no problem document is not masked: its own title is sent on.\<close>

lemma unshaped_server_text_sent:
  "json_member ''title'' (unshaped_answer reasons ctx 500 (Some (JObj [(''error'', JStr ''pg: relation users'')])))
     = Some (JStr ''pg: relation users'')"
  by (simp add: unshaped_answer_def source_member_def json_member_def[of _ "JObj [_]"] body_members Let_def
      nonempty_text_of_def or_else_def)

end
