(* ===== verification/Feature_Flags.thy ===== *)
theory Feature_Flags
  imports Cursor "HOL-Library.Word"
begin

text \<open>Feature flags (libs/modules/feature-flags): the entity with its key pattern and rollout range, the
  deterministic bucketing of a subject, the Prisma repository and the handlers. The SHA-256 digest is
  the parameter \<open>sha256\<close>, giving bytes. A JavaScript number is a whole number or not one.\<close>

datatype js_number = Whole int | NotWhole

record feature_flag =
  ff_id :: id
  ff_organizationId :: id
  ff_key :: string
  ff_description :: "string option"
  ff_enabled :: bool
  ff_rolloutPercentage :: int
  ff_createdAt :: instant
  ff_updatedAt :: instant

text \<open>In a change or an input, None is undefined; in a description, the inner None is null.\<close>

record flag_changes =
  fc_description :: "string option option"
  fc_enabled :: "bool option"
  fc_rolloutPercentage :: "js_number option"

record create_flag_input =
  fi_organizationId :: id
  fi_key :: string
  fi_description :: "string option option"
  fi_enabled :: "bool option"
  fi_rolloutPercentage :: "js_number option"

section \<open>The entity\<close>

definition ff_validation :: "string \<Rightarrow> string \<Rightarrow> string \<Rightarrow> string \<Rightarrow> failure" where
  "ff_validation path code message messageKey = raise_problem (problem Validation code messageKey path message)"

text \<open>\<open>/^[a-z][a-z0-9._-]{1,99}$/\<close>\<close>

definition KEY_PATTERN :: "string \<Rightarrow> bool" where
  "KEY_PATTERN k \<longleftrightarrow>
     (case k of
        [] \<Rightarrow> False
      | c # r \<Rightarrow>
          is_lower c \<and> 1 \<le> length r \<and> length r \<le> 99 \<and>
          list_all (\<lambda>d. is_lower d \<or> is_digit d \<or> d = CHR ''.'' \<or> d = CHR ''_'' \<or> d = CHR ''-'') r)"

definition assertKey :: "string \<Rightarrow> string outcome" where
  "assertKey k =
     (if \<not> KEY_PATTERN k
      then Inl (ff_validation ''key'' ''validation_failed''
        ''key must be 2-100 characters of lowercase letters, digits, dot, hyphen or underscore, starting with a letter''
        ''errors.feature_flags.invalid_key'')
      else Inr k)"

definition assertRollout :: "js_number \<Rightarrow> int outcome" where
  "assertRollout p =
     (case p of
        Whole n \<Rightarrow>
          if n < 0 \<or> 100 < n
          then Inl (ff_validation ''rolloutPercentage'' ''validation_failed''
                 ''rolloutPercentage must be an integer between 0 and 100'' ''errors.feature_flags.invalid_rollout'')
          else Inr n
      | NotWhole \<Rightarrow> Inl (ff_validation ''rolloutPercentage'' ''validation_failed''
                 ''rolloutPercentage must be an integer between 0 and 100'' ''errors.feature_flags.invalid_rollout''))"

definition create_flag :: "id \<Rightarrow> instant \<Rightarrow> create_flag_input \<Rightarrow> feature_flag outcome" where
  "create_flag newId now i =
     (case assertKey (fi_key i) of
        Inl e \<Rightarrow> Inl e
      | Inr k \<Rightarrow>
          (case assertRollout (default_to (Whole 100) (fi_rolloutPercentage i)) of
             Inl e \<Rightarrow> Inl e
           | Inr p \<Rightarrow>
               Inr \<lparr> ff_id = newId, ff_organizationId = fi_organizationId i, ff_key = k,
                     ff_description = default_to None (fi_description i),
                     ff_enabled = default_to False (fi_enabled i), ff_rolloutPercentage = p,
                     ff_createdAt = now, ff_updatedAt = now \<rparr>))"

definition withChanges :: "instant \<Rightarrow> flag_changes \<Rightarrow> feature_flag \<Rightarrow> feature_flag outcome" where
  "withChanges now ch f =
     (case (case fc_rolloutPercentage ch of None \<Rightarrow> Inr (ff_rolloutPercentage f) | Some p \<Rightarrow> assertRollout p) of
        Inl e \<Rightarrow> Inl e
      | Inr p \<Rightarrow>
          Inr (f \<lparr> ff_description := default_to (ff_description f) (fc_description ch),
                   ff_enabled := default_to (ff_enabled f) (fc_enabled ch),
                   ff_rolloutPercentage := p, ff_updatedAt := now \<rparr>))"

text \<open>\<open>digest.readUInt32BE(0)\<close>\<close>

definition readUInt32BE :: "8 word list \<Rightarrow> nat" where
  "readUInt32BE bs = foldl (\<lambda>n b. 256 * n + unat b) 0 (take 4 bs)"

definition bucket_of :: "(string \<Rightarrow> 8 word list) \<Rightarrow> string \<Rightarrow> string \<Rightarrow> nat" where
  "bucket_of sha256 key subject = readUInt32BE (sha256 (key @ '':'' @ subject)) mod 100"

definition isEnabledFor :: "(string \<Rightarrow> 8 word list) \<Rightarrow> feature_flag \<Rightarrow> string \<Rightarrow> bool" where
  "isEnabledFor sha256 f subject =
     (if \<not> ff_enabled f then False
      else if 100 \<le> ff_rolloutPercentage f then True
      else if ff_rolloutPercentage f \<le> 0 then False
      else int (bucket_of sha256 (ff_key f) subject) < ff_rolloutPercentage f)"

section \<open>The repository\<close>

definition featureFlagNotFound :: failure where
  "featureFlagNotFound =
     raise_problem (problem NotFound ''feature_flag_not_found'' ''errors.feature_flags.not_found'' ''id''
       ''Feature flag not found'')"

definition featureFlagKeyTaken :: failure where
  "featureFlagKeyTaken =
     raise_problem ((problem Conflict ''feature_flag_key_taken'' ''errors.feature_flags.key_taken'' ''key''
       ''A feature flag with this key already exists in the organization'') \<lparr> fp_permanent := Some False \<rparr>)"

type_synonym flag_table = "feature_flag list"

definition flag_where :: "id \<Rightarrow> id \<Rightarrow> feature_flag \<Rightarrow> bool" where
  "flag_where org i f \<longleftrightarrow> ff_id f = i \<and> ff_organizationId f = org"

definition flags_create :: "feature_flag \<Rightarrow> flag_table \<Rightarrow> unit outcome \<times> flag_table" where
  "flags_create f rows =
     (if \<exists>r \<in> set rows. ff_id r = ff_id f \<or> ff_organizationId r = ff_organizationId f \<and> ff_key r = ff_key f
      then (Inl featureFlagKeyTaken, rows)
      else (Inr (), rows @ [f]))"

definition flags_findById :: "id \<Rightarrow> id \<Rightarrow> flag_table \<Rightarrow> feature_flag option" where
  "flags_findById org i rows = List.find (flag_where org i) rows"

definition flags_findAll :: "id \<Rightarrow> flag_table \<Rightarrow> feature_flag list" where
  "flags_findAll org rows = sort_key ff_key (filter (\<lambda>f. ff_organizationId f = org) rows)"

definition ff_cursor_key :: "feature_flag \<Rightarrow> cursor_key" where
  "ff_cursor_key f = (ff_createdAt f, ff_id f)"

definition flags_findAllCursor :: "id \<Rightarrow> decoded_cursor option \<Rightarrow> nat \<Rightarrow> flag_table \<Rightarrow> feature_flag page_slice" where
  "flags_findAllCursor org c limit rows =
     keyset_query ff_cursor_key (\<lambda>f. ff_organizationId f = org) rows c limit"

text \<open>A column whose value is undefined is left as it is; the rollout reaches the statement only after
  \<open>withChanges\<close> has checked it.\<close>

definition written_rollout :: "int \<Rightarrow> js_number option \<Rightarrow> int" where
  "written_rollout old p = (case p of Some (Whole n) \<Rightarrow> n | _ \<Rightarrow> old)"

definition apply_changes :: "flag_changes \<Rightarrow> instant \<Rightarrow> feature_flag \<Rightarrow> feature_flag" where
  "apply_changes ch at f =
     f \<lparr> ff_description := default_to (ff_description f) (fc_description ch),
         ff_enabled := default_to (ff_enabled f) (fc_enabled ch),
         ff_rolloutPercentage := written_rollout (ff_rolloutPercentage f) (fc_rolloutPercentage ch),
         ff_updatedAt := at \<rparr>"

definition flags_update :: "id \<Rightarrow> id \<Rightarrow> flag_changes \<Rightarrow> instant \<Rightarrow> flag_table \<Rightarrow> bool \<times> flag_table" where
  "flags_update org i ch at rows =
     (0 < count_rows (flag_where org i) rows, update_rows (flag_where org i) (apply_changes ch at) rows)"

definition flags_delete :: "id \<Rightarrow> id \<Rightarrow> flag_table \<Rightarrow> bool \<times> flag_table" where
  "flags_delete org i rows =
     (0 < count_rows (flag_where org i) rows, filter (\<lambda>f. \<not> flag_where org i f) rows)"

section \<open>The handlers\<close>

record feature_flag_dto =
  fd_id :: id
  fd_key :: string
  fd_description :: "string option"
  fd_enabled :: bool
  fd_rolloutPercentage :: int
  fd_createdAt :: instant
  fd_updatedAt :: instant

definition toFeatureFlagDto :: "feature_flag \<Rightarrow> feature_flag_dto" where
  "toFeatureFlagDto f =
     \<lparr> fd_id = ff_id f, fd_key = ff_key f, fd_description = ff_description f, fd_enabled = ff_enabled f,
       fd_rolloutPercentage = ff_rolloutPercentage f, fd_createdAt = ff_createdAt f,
       fd_updatedAt = ff_updatedAt f \<rparr>"

definition create_feature_flag ::
    "id \<Rightarrow> instant \<Rightarrow> create_flag_input \<Rightarrow> flag_table \<Rightarrow> feature_flag_dto outcome \<times> flag_table" where
  "create_feature_flag newId now i rows =
     (case create_flag newId now i of
        Inl e \<Rightarrow> (Inl e, rows)
      | Inr f \<Rightarrow>
          (case flags_create f rows of
             (Inl e, rows') \<Rightarrow> (Inl e, rows')
           | (Inr _, rows') \<Rightarrow> (Inr (toFeatureFlagDto f), rows')))"

text \<open>The update handler reads the flag, then writes the changed columns; \<open>between\<close> is what other
  requests do to the table in the meantime.\<close>

definition update_feature_flag ::
    "(flag_table \<Rightarrow> flag_table) \<Rightarrow> id \<Rightarrow> id \<Rightarrow> flag_changes \<Rightarrow> instant \<Rightarrow> flag_table
     \<Rightarrow> feature_flag_dto outcome \<times> flag_table" where
  "update_feature_flag between org i ch now rows =
     (case flags_findById org i rows of
        None \<Rightarrow> (Inl featureFlagNotFound, between rows)
      | Some f \<Rightarrow>
          (case withChanges now ch f of
             Inl e \<Rightarrow> (Inl e, between rows)
           | Inr updated \<Rightarrow>
               (case flags_update org i ch (ff_updatedAt updated) (between rows) of
                  (applied, rows') \<Rightarrow>
                    if applied then (Inr (toFeatureFlagDto updated), rows')
                    else (Inl featureFlagNotFound, rows'))))"

definition delete_feature_flag :: "id \<Rightarrow> id \<Rightarrow> flag_table \<Rightarrow> unit outcome \<times> flag_table" where
  "delete_feature_flag org i rows =
     (case flags_delete org i rows of
        (deleted, rows') \<Rightarrow> if deleted then (Inr (), rows') else (Inl featureFlagNotFound, rows'))"

definition evaluate_feature_flags :: "(string \<Rightarrow> 8 word list) \<Rightarrow> id \<Rightarrow> string \<Rightarrow> flag_table \<Rightarrow> (string \<times> bool) list" where
  "evaluate_feature_flags sha256 org subject rows =
     foldl (\<lambda>ev f. AList.update (ff_key f) (isEnabledFor sha256 f subject) ev) [] (flags_findAll org rows)"

record list_flags_result =
  lf_data :: "feature_flag_dto list"
  lf_hasMore :: bool
  lf_lastCursor :: "string option"

definition list_feature_flags ::
    "(id \<Rightarrow> bool) \<Rightarrow> id \<Rightarrow> nat \<Rightarrow> string option \<Rightarrow> flag_table \<Rightarrow> list_flags_result outcome" where
  "list_feature_flags is_uuid7 org limit startingAfter rows =
     (case decodeStartingAfter is_uuid7 startingAfter of
        Inl e \<Rightarrow> Inl e
      | Inr c \<Rightarrow>
          (let page = flags_findAllCursor org c limit rows in
           Inr \<lparr> lf_data = map toFeatureFlagDto (pg_items page), lf_hasMore = pg_hasMore page,
                 lf_lastCursor = lastCursorOf ff_cursor_key (pg_items page) \<rparr>))"

section \<open>Facts\<close>

text \<open>Of the first n numbers, how many fall below p modulo m.\<close>

lemma count_mod_less:
  fixes p m n :: nat
  assumes "0 < m" "p \<le> m"
  shows "card {k. k < n \<and> k mod m < p} = (n div m) * p + min p (n mod m)"
proof (induction n)
  case (Suc n)
  have "{k. k < Suc n \<and> k mod m < p} = (if n mod m < p then insert n {k. k < n \<and> k mod m < p} else {k. k < n \<and> k mod m < p})"
    by (auto simp: less_Suc_eq)
  then have step: "card {k. k < Suc n \<and> k mod m < p} = card {k. k < n \<and> k mod m < p} + (if n mod m < p then 1 else 0)"
    by simp
  show ?case
  proof (cases "Suc (n mod m) = m")
    case True
    then have "Suc n mod m = 0" "Suc n div m = Suc (n div m)"
      by (simp_all add: mod_Suc div_Suc)
    moreover have "n mod m < p \<longleftrightarrow> p = m" using True assms by linarith
    ultimately show ?thesis using step Suc True assms by (auto simp: min_def)
  next
    case False
    then have "Suc n mod m = Suc (n mod m)" "Suc n div m = n div m"
      by (simp_all add: mod_Suc div_Suc)
    then show ?thesis using step Suc by (auto simp: min_def)
  qed
qed simp

lemma assertRollout_Inr: "assertRollout p = Inr n \<longleftrightarrow> p = Whole n \<and> 0 \<le> n \<and> n \<le> 100"
  by (cases p) (auto simp: assertRollout_def)

lemma assertKey_Inr: "assertKey k = Inr r \<longleftrightarrow> KEY_PATTERN k \<and> r = k"
  by (auto simp: assertKey_def)

definition valid_flag :: "feature_flag \<Rightarrow> bool" where
  "valid_flag f \<longleftrightarrow> KEY_PATTERN (ff_key f) \<and> 0 \<le> ff_rolloutPercentage f \<and> ff_rolloutPercentage f \<le> 100"

definition valid_flags :: "flag_table \<Rightarrow> bool" where
  "valid_flags rows \<longleftrightarrow> list_all valid_flag rows \<and> distinct (map ff_id rows) \<and>
     distinct (map (\<lambda>f. (ff_organizationId f, ff_key f)) rows)"

lemma create_flag_valid: "create_flag newId now i = Inr f \<Longrightarrow> valid_flag f"
  by (auto simp: create_flag_def valid_flag_def assertRollout_Inr assertKey_Inr split: sum.splits)

lemma apply_changes_valid:
  assumes "valid_flag f" "\<And>p. fc_rolloutPercentage ch = Some p \<Longrightarrow> \<exists>n. assertRollout p = Inr n"
  shows "valid_flag (apply_changes ch at f)"
proof (cases "fc_rolloutPercentage ch")
  case None
  then show ?thesis using assms(1) by (simp add: apply_changes_def valid_flag_def written_rollout_def)
next
  case (Some p)
  then obtain n where "p = Whole n" "0 \<le> n" "n \<le> 100" using assms(2) by (auto simp: assertRollout_Inr)
  then show ?thesis using assms(1) Some by (simp add: apply_changes_def valid_flag_def written_rollout_def)
qed

lemma withChanges_checked:
  "withChanges now ch f = Inr u \<Longrightarrow> fc_rolloutPercentage ch = Some p \<Longrightarrow> \<exists>n. assertRollout p = Inr n"
  by (auto simp: withChanges_def split: sum.splits)

lemma apply_changes_keys [simp]:
  "ff_id (apply_changes ch at f) = ff_id f" "ff_organizationId (apply_changes ch at f) = ff_organizationId f"
  "ff_key (apply_changes ch at f) = ff_key f"
  by (simp_all add: apply_changes_def)

lemma valid_flags_update:
  assumes "valid_flags rows" "\<And>p. fc_rolloutPercentage ch = Some p \<Longrightarrow> \<exists>n. assertRollout p = Inr n"
  shows "valid_flags (snd (flags_update org i ch at rows))"
  using assms apply_changes_valid[OF _ assms(2)]
  by (auto simp: valid_flags_def flags_update_def list_all_iff elim!: in_update_rowsE)

lemma valid_flags_create: "valid_flags rows \<Longrightarrow> valid_flag f \<Longrightarrow> valid_flags (snd (flags_create f rows))"
  by (auto simp: valid_flags_def flags_create_def)

lemma valid_flags_delete: "valid_flags rows \<Longrightarrow> valid_flags (snd (flags_delete org i rows))"
  by (auto simp: valid_flags_def flags_delete_def list_all_iff distinct_map_filter)


section \<open>The rollout\<close>

text \<open>The first four bytes of a digest that reads as n.\<close>

definition digest_of :: "nat \<Rightarrow> 8 word list" where
  "digest_of n = [of_nat (n div 16777216), of_nat (n div 65536), of_nat (n div 256), of_nat n]"

lemma read_digest_of:
  assumes "n < 2 ^ 32" shows "readUInt32BE (digest_of n) = n"
proof -
  have "n div 16777216 mod 256 = n div 16777216" using assms by (simp add: less_mult_imp_div_less)
  moreover have "n div 65536 = 256 * (n div 16777216) + n div 65536 mod 256"
    using mult_div_mod_eq[of 256 "n div 65536"] by (simp add: div_mult2_eq[symmetric])
  moreover have "n div 256 = 256 * (n div 65536) + n div 256 mod 256"
    using mult_div_mod_eq[of 256 "n div 256"] by (simp add: div_mult2_eq[symmetric])
  moreover have "n = 256 * (n div 256) + n mod 256" by simp
  moreover have "readUInt32BE (digest_of n)
      = 256 * (256 * (256 * (n div 16777216 mod 256) + n div 65536 mod 256) + n div 256 mod 256) + n mod 256"
    by (simp add: readUInt32BE_def digest_of_def unsigned_of_nat take_bit_eq_mod)
  ultimately show ?thesis by presburger
qed

lemma isEnabledFor_bucket:
  "isEnabledFor sha256 f s \<longleftrightarrow> ff_enabled f \<and> int (bucket_of sha256 (ff_key f) s) < ff_rolloutPercentage f"
proof -
  have "bucket_of sha256 (ff_key f) s < 100" by (simp add: bucket_of_def)
  then show ?thesis by (auto simp: isEnabledFor_def)
qed

text \<open>C13. The rollout of a flag is gradual and as fair as 32 bits allow: raising the percentage never
  takes a flag away from a subject that had it, and of the 2^32 values the first four bytes of a digest
  can have, an enabled flag at p percent admits exactly 42949672 p + min p 96, none at 0 and all at
  100.\<close>

theorem rollout_contract:
  assumes "valid_flag f" "ff_enabled f"
  shows "(ff_key g = ff_key f \<and> ff_enabled g \<and> ff_rolloutPercentage f \<le> ff_rolloutPercentage g \<and>
            isEnabledFor sha256 f s \<longrightarrow> isEnabledFor sha256 g s) \<and>
     int (card {n. n < 2 ^ 32 \<and> isEnabledFor (\<lambda>t. digest_of n) f s})
       = 42949672 * ff_rolloutPercentage f + min (ff_rolloutPercentage f) 96"
proof (rule conjI)
  show "ff_key g = ff_key f \<and> ff_enabled g \<and> ff_rolloutPercentage f \<le> ff_rolloutPercentage g \<and>
            isEnabledFor sha256 f s \<longrightarrow> isEnabledFor sha256 g s"
    by (auto simp: isEnabledFor_bucket)
  let ?p = "nat (ff_rolloutPercentage f)"
  have p: "int ?p = ff_rolloutPercentage f" "?p \<le> 100" using assms(1) by (auto simp: valid_flag_def)
  have "{n. n < 2 ^ 32 \<and> isEnabledFor (\<lambda>t. digest_of n) f s} = {n. n < 2 ^ 32 \<and> n mod 100 < ?p}"
    using assms p(1) by (auto simp: isEnabledFor_bucket bucket_of_def read_digest_of zless_nat_conj)
  then have "card {n. n < 2 ^ 32 \<and> isEnabledFor (\<lambda>t. digest_of n) f s} = 42949672 * ?p + min ?p 96"
    using count_mod_less[of 100 ?p "2 ^ 32"] p(2) by simp
  then show "int (card {n. n < 2 ^ 32 \<and> isEnabledFor (\<lambda>t. digest_of n) f s})
       = 42949672 * ff_rolloutPercentage f + min (ff_rolloutPercentage f) 96"
    using p(1) by (simp add: of_nat_min)
qed

definition example_flag :: feature_flag where
  "example_flag =
     \<lparr> ff_id = ''f1'', ff_organizationId = ''o1'', ff_key = ''new.ui'', ff_description = None, ff_enabled = True,
       ff_rolloutPercentage = 25, ff_createdAt = 1, ff_updatedAt = 1 \<rparr>"

theorem rollout_contract_witness:
  "card {n. n < 2 ^ 32 \<and> isEnabledFor (\<lambda>t. digest_of n) example_flag ''u1''} = 1073741825"
proof -
  have "valid_flag example_flag" "ff_enabled example_flag" "ff_rolloutPercentage example_flag = 25"
    by (simp_all add: example_flag_def valid_flag_def KEY_PATTERN_def is_lower_def)
  then show ?thesis
    using conjunct2[OF rollout_contract[of example_flag undefined undefined "''u1''"]] by simp
qed

section \<open>The table\<close>

text \<open>The flag table stays well formed through every handler, whatever other requests do to it
  between the read and the write of an update as long as they keep it well formed: every key matches the
  pattern, every rollout lies in 0..100, no id and no key of an organization occurs twice.\<close>

theorem flags_stay_valid:
  assumes "valid_flags rows" "\<And>t. valid_flags t \<Longrightarrow> valid_flags (between t)"
  shows "valid_flags (snd (create_feature_flag newId now i rows)) \<and>
    valid_flags (snd (update_feature_flag between org fid ch now rows)) \<and>
    valid_flags (snd (delete_feature_flag org fid rows))"
proof (intro conjI)
  show "valid_flags (snd (create_feature_flag newId now i rows))"
    using assms(1) valid_flags_create[of rows] create_flag_valid[of newId now i]
    by (auto simp: create_feature_flag_def split: sum.splits prod.splits) (metis snd_conv)+
  show "valid_flags (snd (delete_feature_flag org fid rows))"
    using valid_flags_delete[OF assms(1), of org fid]
    by (auto simp: delete_feature_flag_def split: prod.splits)
  show "valid_flags (snd (update_feature_flag between org fid ch now rows))"
  proof (cases "flags_findById org fid rows")
    case (Some f)
    show ?thesis
    proof (cases "withChanges now ch f")
      case (Inr u)
      have "valid_flags (snd (flags_update org fid ch (ff_updatedAt u) (between rows)))"
        using withChanges_checked[OF Inr] by (intro valid_flags_update assms)
      then show ?thesis using Some Inr by (auto simp: update_feature_flag_def split: prod.splits)
    qed (use assms Some in \<open>simp add: update_feature_flag_def\<close>)
  qed (use assms in \<open>simp add: update_feature_flag_def\<close>)
qed

theorem flags_stay_valid_witness:
  "valid_flags (snd (update_feature_flag (\<lambda>t. snd (delete_feature_flag ''o1'' ''f1'' t)) ''o1'' ''f1''
     \<lparr> fc_description = None, fc_enabled = None, fc_rolloutPercentage = Some (Whole 101) \<rparr> 5 [example_flag]))"
proof -
  have "valid_flags [example_flag]" by code_simp
  moreover have "valid_flags (snd (delete_feature_flag ''o1'' ''f1'' t))" if "valid_flags t" for t
    using valid_flags_delete[OF that, of "''o1''" "''f1''"] by (auto simp: delete_feature_flag_def split: prod.splits)
  ultimately show ?thesis by (intro conjunct1[OF conjunct2[OF flags_stay_valid]])
qed

lemma flags_find_update:
  "flags_findById org i (snd (flags_update org i ch at rows)) = map_option (apply_changes ch at) (flags_findById org i rows)"
  by (induction rows) (auto simp: flags_update_def update_rows_def flags_findById_def flag_where_def)

lemma flags_find_update_other:
  "(org', i') \<noteq> (org, i) \<Longrightarrow>
   flags_findById org' i' (snd (flags_update org i ch at rows)) = flags_findById org' i' rows"
  by (induction rows) (auto simp: flags_update_def update_rows_def flags_findById_def flag_where_def)

lemma flags_update_applied: "fst (flags_update org i ch at rows) \<longleftrightarrow> flags_findById org i rows \<noteq> None"
  by (auto simp: flags_update_def flags_findById_def count_rows_pos find_None_iff)

lemma withChanges_updatedAt: "withChanges now ch f = Inr u \<Longrightarrow> ff_updatedAt u = now"
  by (auto simp: withChanges_def split: sum.splits)

text \<open>An update writes only the columns it was given, onto whatever the row is by then: concurrent
  changes to the other columns survive, a flag deleted in the meantime is answered not found and nothing
  is written, and no flag of another id or organization is touched.\<close>

theorem update_writes_given_columns:
  assumes "flags_findById org i rows = Some f" "withChanges now ch f = Inr u"
  shows "(case flags_findById org i (between rows) of
       None \<Rightarrow> update_feature_flag between org i ch now rows = (Inl featureFlagNotFound, between rows)
     | Some g \<Rightarrow> \<exists>h. fst (update_feature_flag between org i ch now rows) = Inr (toFeatureFlagDto u) \<and>
         flags_findById org i (snd (update_feature_flag between org i ch now rows)) = Some h \<and>
         (fc_description ch = None \<longrightarrow> ff_description h = ff_description g) \<and>
         (fc_enabled ch = None \<longrightarrow> ff_enabled h = ff_enabled g) \<and>
         (fc_rolloutPercentage ch = None \<longrightarrow> ff_rolloutPercentage h = ff_rolloutPercentage g) \<and>
         (\<forall>d. fc_description ch = Some d \<longrightarrow> ff_description h = d) \<and>
         (\<forall>b. fc_enabled ch = Some b \<longrightarrow> ff_enabled h = b) \<and>
         (\<forall>p. fc_rolloutPercentage ch = Some p \<longrightarrow> p = Whole (ff_rolloutPercentage h)) \<and>
         ff_updatedAt h = now \<and> ff_key h = ff_key g \<and> ff_createdAt h = ff_createdAt g) \<and>
    ((org', i') \<noteq> (org, i) \<longrightarrow>
       flags_findById org' i' (snd (update_feature_flag between org i ch now rows)) = flags_findById org' i' (between rows))"
proof -
  let ?t = "flags_update org i ch now (between rows)"
  have upd: "update_feature_flag between org i ch now rows
      = (if fst ?t then Inr (toFeatureFlagDto u) else Inl featureFlagNotFound, snd ?t)"
    using assms withChanges_updatedAt[OF assms(2)] by (simp add: update_feature_flag_def split: prod.splits)
  have whole: "\<exists>n. p = Whole n" if "fc_rolloutPercentage ch = Some p" for p
    using withChanges_checked[OF assms(2) that] by (auto simp: assertRollout_Inr)
  show ?thesis
  proof (cases "flags_findById org i (between rows)")
    case None
    then have "snd ?t = between rows"
      by (auto simp: flags_update_def flags_findById_def count_rows_def find_None_iff filter_empty_conv intro: update_rows_none)
    then show ?thesis using None by (simp add: upd flags_update_applied)
  next
    case (Some g)
    have "flags_findById org i (snd ?t) = Some (apply_changes ch now g)"
      using Some by (simp add: flags_find_update)
    then show ?thesis
      using Some whole flags_find_update_other[of org' i' org i ch now "between rows"]
      by (auto simp: upd flags_update_applied apply_changes_def written_rollout_def split: option.splits)
  qed
qed

theorem update_writes_given_columns_witness:
  "\<exists>h. flags_findById ''o1'' ''f1'' (snd (update_feature_flag
       (\<lambda>t. snd (flags_update ''o1'' ''f1'' \<lparr> fc_description = None, fc_enabled = Some False, fc_rolloutPercentage = None \<rparr> 4 t))
       ''o1'' ''f1'' \<lparr> fc_description = None, fc_enabled = None, fc_rolloutPercentage = Some (Whole 40) \<rparr> 5 [example_flag])) = Some h
     \<and> \<not> ff_enabled h \<and> ff_rolloutPercentage h = 40"
proof -
  let ?b = "\<lambda>t. snd (flags_update ''o1'' ''f1'' \<lparr> fc_description = None, fc_enabled = Some False, fc_rolloutPercentage = None \<rparr> 4 t)"
  let ?ch = "\<lparr> fc_description = None, fc_enabled = None, fc_rolloutPercentage = Some (Whole 40) \<rparr>"
  have "flags_findById ''o1'' ''f1'' [example_flag] = Some example_flag"
    "withChanges 5 ?ch example_flag = Inr (example_flag \<lparr> ff_rolloutPercentage := 40, ff_updatedAt := 5 \<rparr>)"
    "flags_findById ''o1'' ''f1'' (?b [example_flag]) = Some (example_flag \<lparr> ff_enabled := False, ff_updatedAt := 4 \<rparr>)"
    by (simp_all add: flags_findById_def flag_where_def example_flag_def withChanges_def assertRollout_def
        flags_update_def update_rows_def apply_changes_def written_rollout_def)
  then show ?thesis
    using conjunct1[OF update_writes_given_columns[of "''o1''" "''f1''" "[example_flag]" example_flag 5 ?ch _ ?b]]
    by auto
qed

lemma map_of_foldl_update:
  "map_of (foldl (\<lambda>ev f. AList.update (k f) (v f) ev) m fs) x
     = (case List.find (\<lambda>f. k f = x) (rev fs) of Some f \<Rightarrow> Some (v f) | None \<Rightarrow> map_of m x)"
  by (induction fs arbitrary: m rule: rev_induct) auto

lemma find_unique_key:
  assumes "distinct (map k xs)" "x \<in> set xs" "k x = a"
  shows "List.find (\<lambda>y. k y = a) xs = Some x"
  using find_distinct[OF assms(1,2)] assms(3) by simp

text \<open>Evaluation answers for exactly the flags of the caller's organization: the result maps a key to
  the decision of that organization's flag with the key, and has no entry for any other key.\<close>

theorem evaluation_exact:
  assumes "valid_flags rows"
  shows "map_of (evaluate_feature_flags sha256 org s rows) k
    = map_option (\<lambda>f. isEnabledFor sha256 f s)
        (List.find (\<lambda>f. ff_organizationId f = org \<and> ff_key f = k) rows)"
proof -
  let ?own = "filter (\<lambda>f. ff_organizationId f = org) rows"
  have "distinct (map (\<lambda>f. (ff_organizationId f, ff_key f)) ?own)"
    using assms by (auto simp: valid_flags_def distinct_map_filter)
  moreover have "map (\<lambda>f. (ff_organizationId f, ff_key f)) ?own = map (Pair org) (map ff_key ?own)" by simp
  ultimately have own: "distinct (map ff_key ?own)" by (simp only: distinct_map)
  then have srt: "distinct (map ff_key (rev (flags_findAll org rows)))"
    by (simp add: flags_findAll_def rev_map[symmetric] distinct_map)
  have "List.find (\<lambda>f. ff_key f = k) (rev (flags_findAll org rows)) = List.find (\<lambda>f. ff_key f = k) ?own"
  proof (cases "List.find (\<lambda>f. ff_key f = k) ?own")
    case None
    then have "List.find (\<lambda>f. ff_key f = k) (rev (flags_findAll org rows)) = None"
      by (auto simp: find_None_iff flags_findAll_def)
    then show ?thesis using None by simp
  next
    case (Some f)
    have "f \<in> set ?own" "ff_key f = k" using find_SomeD[OF Some] by simp_all
    then show ?thesis using find_unique_key[OF srt] Some by (simp add: flags_findAll_def)
  qed
  moreover have "List.find (\<lambda>f. ff_key f = k) ?own = List.find (\<lambda>f. ff_organizationId f = org \<and> ff_key f = k) rows"
    by (induction rows) auto
  ultimately show ?thesis
    by (simp add: evaluate_feature_flags_def map_of_foldl_update split: option.split)
qed

theorem evaluation_exact_witness:
  "map_of (evaluate_feature_flags (\<lambda>t. digest_of 7) ''o1'' ''u1'' [example_flag]) ''new.ui'' = Some True"
proof -
  have "valid_flags [example_flag]" by code_simp
  moreover have "isEnabledFor (\<lambda>t. digest_of 7) example_flag ''u1''"
    by (simp add: isEnabledFor_bucket bucket_of_def read_digest_of example_flag_def)
  ultimately show ?thesis
    using evaluation_exact[of "[example_flag]" "\<lambda>t. digest_of 7" "''o1''" "''u1''" "''new.ui''"]
    by (simp add: example_flag_def)
qed

end
