(* ===== verification/Organization_Roles.thy ===== *)
theory Organization_Roles
  imports Authorization
begin

text \<open>The custom roles of an organization (libs/modules/organizations): the entity with its name
  pattern and its check against the actor's own grant, the Prisma repository over the organization_roles
  table and the in-memory one, and the handlers. The locale \<open>role_repository\<close> states what the handlers
  rely on; both repositories interpret it. The white space Postgres strips with \<open>\s\<close> depends on the
  database's locale and is the parameter \<open>sql_space\<close>.\<close>

section \<open>The entity\<close>

record organization_role =
  ro_id :: id
  ro_organizationId :: id
  ro_role :: string
  ro_grants :: "permission list"
  ro_createdAt :: instant
  ro_updatedAt :: "instant option"

record create_role_input =
  ri_organizationId :: id
  ri_role :: string
  ri_permissions :: "string list"
  ri_grantedToActor :: "permission list"

text \<open>\<open>/^[a-z][a-z0-9_-]{1,49}$/\<close>\<close>

definition role_name_char :: "char \<Rightarrow> bool" where
  "role_name_char c \<longleftrightarrow> is_lower c \<or> is_digit c \<or> c = CHR ''_'' \<or> c = CHR ''-''"

definition ROLE_NAME_PATTERN :: "string \<Rightarrow> bool" where
  "ROLE_NAME_PATTERN s \<longleftrightarrow>
     (case s of
        [] \<Rightarrow> False
      | c # r \<Rightarrow> is_lower c \<and> 1 \<le> length r \<and> length r \<le> 49 \<and> list_all role_name_char r)"

definition invalid :: "string \<Rightarrow> string \<Rightarrow> string \<Rightarrow> string \<Rightarrow> failure" where
  "invalid path code message messageKey =
     Domain (new_domain_exception
       \<lparr> opt_kind = Some Validation, opt_code = Some ''validation_failed'',
         opt_title = Some ''common.unprocessable_entity'', opt_messageKey = Some messageKey, opt_args = None,
         opt_violations =
           [\<lparr> vi_path = path, vi_code = code, vi_message = message, vi_messageKey = Some messageKey,
              vi_rule = None, vi_constraint = None \<rparr>],
         opt_permanent = None \<rparr>)"

definition assertRoleName :: "string \<Rightarrow> unit outcome" where
  "assertRoleName role =
     (if \<not> ROLE_NAME_PATTERN role
      then Inl (invalid ''role'' ''invalid_role_name''
        ''role must be 2-50 characters of lowercase letters, digits, hyphen or underscore, starting with a letter''
        ''errors.organizations.invalid_role_name'')
      else if isSystemRole role
      then Inl (invalid ''role'' ''reserved_role_name'' ''role name is reserved by a built-in system role''
        ''errors.organizations.reserved_role_name'')
      else Inr ())"

definition assertKnownPermissions :: "string list \<Rightarrow> permission list outcome" where
  "assertKnownPermissions ps =
     (let unknown = filter (\<lambda>p. p \<notin> set ALL_PERMISSIONS) ps in
      if ps = []
      then Inl (invalid ''permissions'' ''empty_permissions'' ''a role must grant at least one permission''
                  ''errors.organizations.empty_permissions'')
      else if unknown \<noteq> []
      then Inl (invalid ''permissions'' ''unknown_permission''
                  (''unknown permissions: '' @ join_with '', '' unknown) ''errors.organizations.unknown_permission'')
      else Inr (js_set ps))"

definition assertWithinActorGrant :: "permission list \<Rightarrow> permission list \<Rightarrow> permission list outcome" where
  "assertWithinActorGrant ps held =
     (let escalating = filter (\<lambda>p. p \<notin> set held) ps in
      if escalating \<noteq> []
      then Inl (Domain (new_domain_exception
        \<lparr> opt_kind = Some Forbidden, opt_code = Some ''forbidden'', opt_title = Some ''common.forbidden'',
          opt_messageKey = None, opt_args = None,
          opt_violations =
            [\<lparr> vi_path = ''permissions'', vi_code = ''permission_exceeds_grant'',
               vi_message = ''permissions exceed the caller's own grant: '' @ join_with '', '' escalating,
               vi_messageKey = None, vi_rule = None, vi_constraint = None \<rparr>],
          opt_permanent = None \<rparr>))
      else Inr ps)"

definition resolveGrantablePermissions :: "string list \<Rightarrow> permission list \<Rightarrow> permission list outcome" where
  "resolveGrantablePermissions ps held =
     (case assertKnownPermissions ps of Inl e \<Rightarrow> Inl e | Inr named \<Rightarrow> assertWithinActorGrant named held)"

definition create_role :: "id \<Rightarrow> instant \<Rightarrow> create_role_input \<Rightarrow> organization_role outcome" where
  "create_role newId now i =
     (case assertRoleName (ri_role i) of
        Inl e \<Rightarrow> Inl e
      | Inr _ \<Rightarrow>
          (case resolveGrantablePermissions (ri_permissions i) (ri_grantedToActor i) of
             Inl e \<Rightarrow> Inl e
           | Inr ps \<Rightarrow>
               Inr \<lparr> ro_id = newId, ro_organizationId = ri_organizationId i, ro_role = ri_role i, ro_grants = ps,
                     ro_createdAt = now, ro_updatedAt = None \<rparr>))"

definition withPermissions :: "instant \<Rightarrow> string list \<Rightarrow> permission list \<Rightarrow> organization_role \<Rightarrow> organization_role outcome" where
  "withPermissions now ps held r =
     (case resolveGrantablePermissions ps held of
        Inl e \<Rightarrow> Inl e
      | Inr grantable \<Rightarrow> Inr (r \<lparr> ro_grants := grantable, ro_updatedAt := Some now \<rparr>))"

section \<open>Errors\<close>

definition roleNotFound :: failure where
  "roleNotFound =
     raise_problem (problem NotFound ''organization_role_not_found'' ''errors.organizations.role_not_found''
       ''role'' ''Role not found'')"

definition conflict :: "string \<Rightarrow> string \<Rightarrow> string \<Rightarrow> string \<Rightarrow> failure" where
  "conflict path code message messageKey =
     raise_problem ((problem Conflict code messageKey path message) \<lparr> fp_permanent := Some False \<rparr>)"

definition roleAlreadyExists :: failure where
  "roleAlreadyExists =
     conflict ''role'' ''organization_role_already_exists''
       ''A role with this name already exists in the organization'' ''errors.organizations.role_already_exists''"

definition roleInUse :: failure where
  "roleInUse =
     conflict ''role'' ''organization_role_in_use'' ''Role is still assigned to at least one member''
       ''errors.organizations.role_in_use''"

datatype deletion_outcome = Deleted | InUse | NoSuchRole

section \<open>The handlers, over any repository\<close>

record organization_role_dto =
  rd_id :: "id option"
  rd_role :: string
  rd_system :: bool
  rd_permissions :: "permission list"
  rd_createdAt :: "instant option"
  rd_updatedAt :: "instant option"

definition toRoleDto :: "organization_role \<Rightarrow> organization_role_dto" where
  "toRoleDto r =
     \<lparr> rd_id = Some (ro_id r), rd_role = ro_role r, rd_system = False, rd_permissions = ro_grants r,
       rd_createdAt = Some (ro_createdAt r), rd_updatedAt = ro_updatedAt r \<rparr>"

record role_command =
  co_organizationId :: id
  co_role :: string
  co_permissions :: "string list"

type_synonym 's find_role = "id \<Rightarrow> string \<Rightarrow> 's \<Rightarrow> organization_role option outcome"

definition create_organization_role ::
    "'s find_role \<Rightarrow> (organization_role \<Rightarrow> 's \<Rightarrow> unit outcome \<times> 's) \<Rightarrow> permission list \<Rightarrow> id \<Rightarrow> instant
     \<Rightarrow> role_command \<Rightarrow> 's \<Rightarrow> organization_role_dto outcome \<times> 's" where
  "create_organization_role findByName create grant newId now cmd s =
     (case create_role newId now
             \<lparr> ri_organizationId = co_organizationId cmd, ri_role = co_role cmd,
               ri_permissions = co_permissions cmd, ri_grantedToActor = grant \<rparr> of
        Inl e \<Rightarrow> (Inl e, s)
      | Inr role \<Rightarrow>
          (case findByName (co_organizationId cmd) (ro_role role) s of
             Inl e \<Rightarrow> (Inl e, s)
           | Inr (Some _) \<Rightarrow> (Inl roleAlreadyExists, s)
           | Inr None \<Rightarrow>
               (case create role s of
                  (Inl e, s') \<Rightarrow> (Inl e, s')
                | (Inr _, s') \<Rightarrow> (Inr (toRoleDto role), s'))))"

definition update_organization_role ::
    "'s find_role \<Rightarrow> (organization_role \<Rightarrow> instant \<Rightarrow> 's \<Rightarrow> bool \<times> 's) \<Rightarrow> permission list \<Rightarrow> instant
     \<Rightarrow> role_command \<Rightarrow> 's \<Rightarrow> organization_role_dto outcome \<times> 's" where
  "update_organization_role findByName update grant now cmd s =
     (case findByName (co_organizationId cmd) (co_role cmd) s of
        Inl e \<Rightarrow> (Inl e, s)
      | Inr None \<Rightarrow> (Inl roleNotFound, s)
      | Inr (Some existing) \<Rightarrow>
          (case withPermissions now (co_permissions cmd) grant existing of
             Inl e \<Rightarrow> (Inl e, s)
           | Inr updated \<Rightarrow>
               (case update updated now s of
                  (found, s') \<Rightarrow> if found then (Inr (toRoleDto updated), s') else (Inl roleNotFound, s'))))"

definition delete_organization_role ::
    "(id \<Rightarrow> string \<Rightarrow> 's \<Rightarrow> deletion_outcome \<times> 's) \<Rightarrow> id \<Rightarrow> string \<Rightarrow> 's \<Rightarrow> unit outcome \<times> 's" where
  "delete_organization_role deleteUnlessHeld org role s =
     (case deleteUnlessHeld org role s of
        (Deleted, s') \<Rightarrow> (Inr (), s')
      | (InUse, s') \<Rightarrow> (Inl roleInUse, s')
      | (NoSuchRole, s') \<Rightarrow> (Inl roleNotFound, s'))"

definition list_organization_roles ::
    "(id \<Rightarrow> 's \<Rightarrow> organization_role list outcome) \<Rightarrow> id \<Rightarrow> 's \<Rightarrow> organization_role_dto list outcome" where
  "list_organization_roles findAll org s =
     (case findAll org s of
        Inl e \<Rightarrow> Inl e
      | Inr custom \<Rightarrow>
          Inr (map (\<lambda>role. \<lparr> rd_id = None, rd_role = role, rd_system = True,
                             rd_permissions = system_role_permissions role, rd_createdAt = None,
                             rd_updatedAt = None \<rparr>) SYSTEM_ROLES
               @ map toRoleDto custom))"

section \<open>The Prisma repository\<close>

record stored_role =
  sr_id :: id
  sr_organizationId :: id
  sr_role :: string
  sr_permission :: string
  sr_createdAt :: instant
  sr_updatedAt :: "instant option"

type_synonym role_db = "member_row list \<times> stored_role list"

text \<open>A row whose payload does not parse makes the mapping throw.\<close>

definition role_entity :: "stored_role \<Rightarrow> organization_role outcome" where
  "role_entity row =
     (case parsePermissionStatements (sr_permission row) of
        None \<Rightarrow> Inl (Internal ''SyntaxError'')
      | Some st \<Rightarrow>
          Inr \<lparr> ro_id = sr_id row, ro_organizationId = sr_organizationId row, ro_role = sr_role row,
                ro_grants = granted st, ro_createdAt = sr_createdAt row, ro_updatedAt = sr_updatedAt row \<rparr>)"

definition role_key :: "id \<Rightarrow> string \<Rightarrow> stored_role \<Rightarrow> bool" where
  "role_key org role row \<longleftrightarrow> sr_organizationId row = org \<and> sr_role row = role"

fun all_entities :: "stored_role list \<Rightarrow> organization_role list outcome" where
  "all_entities [] = Inr []"
| "all_entities (row # rows) =
     (case role_entity row of
        Inl e \<Rightarrow> Inl e
      | Inr r \<Rightarrow> (case all_entities rows of Inl e \<Rightarrow> Inl e | Inr rs \<Rightarrow> Inr (r # rs)))"

definition roles_findAll :: "id \<Rightarrow> role_db \<Rightarrow> organization_role list outcome" where
  "roles_findAll org db = all_entities (sort_key sr_role (filter (\<lambda>r. sr_organizationId r = org) (snd db)))"

definition roles_findByName :: "role_db find_role" where
  "roles_findByName org role db =
     (case List.find (role_key org role) (snd db) of
        None \<Rightarrow> Inr None
      | Some row \<Rightarrow> (case role_entity row of Inl e \<Rightarrow> Inl e | Inr r \<Rightarrow> Inr (Some r)))"

text \<open>The unique index on the organization and the name, and the primary key, are the table's own.
  The column updatedAt is maintained by Prisma, on creation too.\<close>

definition roles_create :: "organization_role \<Rightarrow> role_db \<Rightarrow> unit outcome \<times> role_db" where
  "roles_create r db =
     (if \<exists>row \<in> set (snd db). sr_id row = ro_id r \<or> role_key (ro_organizationId r) (ro_role r) row
      then (Inl roleAlreadyExists, db)
      else (Inr (), (fst db, snd db @
        [\<lparr> sr_id = ro_id r, sr_organizationId = ro_organizationId r, sr_role = ro_role r,
           sr_permission = serializePermissionStatements (ro_grants r), sr_createdAt = ro_createdAt r,
           sr_updatedAt = Some (ro_createdAt r) \<rparr>])))"

definition roles_update :: "organization_role \<Rightarrow> instant \<Rightarrow> role_db \<Rightarrow> bool \<times> role_db" where
  "roles_update r now db =
     (0 < count_rows (role_key (ro_organizationId r) (ro_role r)) (snd db),
      (fst db, update_rows (role_key (ro_organizationId r) (ro_role r))
         (\<lambda>row. row \<lparr> sr_permission := serializePermissionStatements (ro_grants r), sr_updatedAt := Some now \<rparr>)
         (snd db)))"

text \<open>\<open>role = ANY(string_to_array(regexp_replace("role", '\s', '', 'g'), ','))\<close>; the array of an empty
  string is empty.\<close>

definition sql_holds :: "(char \<Rightarrow> bool) \<Rightarrow> string \<Rightarrow> string \<Rightarrow> bool" where
  "sql_holds sql_space role raw \<longleftrightarrow>
     (let stripped = filter (\<lambda>c. \<not> sql_space c) raw in
      stripped \<noteq> [] \<and> role \<in> set (split_on (CHR '','') stripped))"

definition deleteUnlessHeld :: "(char \<Rightarrow> bool) \<Rightarrow> id \<Rightarrow> string \<Rightarrow> role_db \<Rightarrow> deletion_outcome \<times> role_db" where
  "deleteUnlessHeld sql_space org role db =
     (let target = map sr_id (filter (role_key org role) (snd db));
          holders = length (filter (\<lambda>m. mr_organizationId m = org \<and> sql_holds sql_space role (mr_role m)) (fst db));
          deleted = (if holders = 0 then filter (\<lambda>r. sr_id r \<in> set target) (snd db) else [])
      in (if target = [] then NoSuchRole
          else if deleted \<noteq> [] then Deleted
          else if 0 < holders then InUse
          else NoSuchRole,
          (fst db, if holders = 0 then filter (\<lambda>r. sr_id r \<notin> set target) (snd db) else snd db)))"

text \<open>What the authorization engine reads of the two tables.\<close>

definition pbac_row :: "stored_role \<Rightarrow> organization_role_row" where
  "pbac_row r = \<lparr> or_organizationId = sr_organizationId r, or_role = sr_role r, or_permission = sr_permission r \<rparr>"

definition pbac_view :: "role_db \<Rightarrow> pbac_db" where
  "pbac_view db = \<lparr> db_members = fst db, db_organizationRoles = map pbac_row (snd db) \<rparr>"

section \<open>The in-memory repository\<close>

record memory_roles =
  me_roles :: "(string \<times> organization_role) list"
  me_holders :: "(string \<times> nat) list"

definition role_map_key :: "id \<Rightarrow> string \<Rightarrow> string" where
  "role_map_key org role = org @ ''::'' @ role"

definition setHolders :: "id \<Rightarrow> string \<Rightarrow> nat \<Rightarrow> memory_roles \<Rightarrow> memory_roles" where
  "setHolders org role n s = s \<lparr> me_holders := AList.update (role_map_key org role) n (me_holders s) \<rparr>"

definition memory_roles_findAll :: "id \<Rightarrow> memory_roles \<Rightarrow> organization_role list outcome" where
  "memory_roles_findAll org s = Inr (filter (\<lambda>r. ro_organizationId r = org) (map snd (me_roles s)))"

definition memory_roles_findByName :: "memory_roles find_role" where
  "memory_roles_findByName org role s = Inr (map_of (me_roles s) (role_map_key org role))"

definition memory_roles_create :: "organization_role \<Rightarrow> memory_roles \<Rightarrow> unit outcome \<times> memory_roles" where
  "memory_roles_create r s =
     (Inr (), s \<lparr> me_roles := AList.update (role_map_key (ro_organizationId r) (ro_role r)) r (me_roles s) \<rparr>)"

definition memory_roles_update :: "organization_role \<Rightarrow> instant \<Rightarrow> memory_roles \<Rightarrow> bool \<times> memory_roles" where
  "memory_roles_update r now s =
     (let key = role_map_key (ro_organizationId r) (ro_role r) in
      if map_of (me_roles s) key = None then (False, s)
      else (True, s \<lparr> me_roles := AList.update key r (me_roles s) \<rparr>))"

definition memory_deleteUnlessHeld :: "id \<Rightarrow> string \<Rightarrow> memory_roles \<Rightarrow> deletion_outcome \<times> memory_roles" where
  "memory_deleteUnlessHeld org role s =
     (let key = role_map_key org role in
      if map_of (me_roles s) key = None then (NoSuchRole, s)
      else if 0 < default_to 0 (map_of (me_holders s) key) then (InUse, s)
      else (Deleted, s \<lparr> me_roles := AList.delete key (me_roles s) \<rparr>))"


section \<open>Facts about the entity\<close>

lemma resolveGrantable_Inr:
  "resolveGrantablePermissions ps held = Inr r \<longleftrightarrow>
     ps \<noteq> [] \<and> set ps \<subseteq> set ALL_PERMISSIONS \<and> set ps \<subseteq> set held \<and> r = js_set ps"
  by (auto simp: resolveGrantablePermissions_def assertKnownPermissions_def assertWithinActorGrant_def Let_def
      filter_empty_conv split: if_splits)

lemma create_role_Inr:
  "create_role newId now i = Inr r \<longleftrightarrow>
     ROLE_NAME_PATTERN (ri_role i) \<and> \<not> isSystemRole (ri_role i) \<and> ri_permissions i \<noteq> [] \<and>
     set (ri_permissions i) \<subseteq> set ALL_PERMISSIONS \<and> set (ri_permissions i) \<subseteq> set (ri_grantedToActor i) \<and>
     r = \<lparr> ro_id = newId, ro_organizationId = ri_organizationId i, ro_role = ri_role i,
           ro_grants = js_set (ri_permissions i), ro_createdAt = now, ro_updatedAt = None \<rparr>"
  using resolveGrantable_Inr[of "ri_permissions i" "ri_grantedToActor i"]
  by (cases "resolveGrantablePermissions (ri_permissions i) (ri_grantedToActor i)")
    (auto simp: create_role_def assertRoleName_def)

lemma withPermissions_Inr:
  "withPermissions now ps held r = Inr u \<longleftrightarrow>
     ps \<noteq> [] \<and> set ps \<subseteq> set ALL_PERMISSIONS \<and> set ps \<subseteq> set held \<and>
     u = r \<lparr> ro_grants := js_set ps, ro_updatedAt := Some now \<rparr>"
proof (cases "resolveGrantablePermissions ps held")
  case (Inl e)
  then have "\<not> (ps \<noteq> [] \<and> set ps \<subseteq> set ALL_PERMISSIONS \<and> set ps \<subseteq> set held)"
    using resolveGrantable_Inr[of ps held "js_set ps"] by simp
  then show ?thesis using Inl by (simp add: withPermissions_def) blast
next
  case (Inr x)
  then have "ps \<noteq> [] \<and> set ps \<subseteq> set ALL_PERMISSIONS \<and> set ps \<subseteq> set held \<and> x = js_set ps"
    using resolveGrantable_Inr[of ps held x] by simp
  then show ?thesis using Inr by (simp add: withPermissions_def eq_commute)
qed

section \<open>The contract of a role repository\<close>

text \<open>\<open>ok\<close> is the repository's own invariant and \<open>plain_id\<close> the identifiers its keys keep apart; \<open>held\<close>
  says that some member holds the role. A stored role reads back with its permissions, in some order.\<close>

locale role_repository =
  fixes ok :: "'s \<Rightarrow> bool" and plain_id :: "id \<Rightarrow> bool"
    and findByName :: "'s find_role"
    and create :: "organization_role \<Rightarrow> 's \<Rightarrow> unit outcome \<times> 's"
    and update :: "organization_role \<Rightarrow> instant \<Rightarrow> 's \<Rightarrow> bool \<times> 's"
    and delete_role :: "id \<Rightarrow> string \<Rightarrow> 's \<Rightarrow> deletion_outcome \<times> 's"
    and held :: "id \<Rightarrow> string \<Rightarrow> 's \<Rightarrow> bool"
  assumes found_key: "ok s \<Longrightarrow> plain_id org \<Longrightarrow> findByName org n s = Inr (Some e) \<Longrightarrow>
        ro_organizationId e = org \<and> ro_role e = n"
    and find_created: "findByName (ro_organizationId r) (ro_role r) s = Inr None \<Longrightarrow>
        create r s = (Inr (), s') \<Longrightarrow> set (ro_grants r) \<subseteq> set ALL_PERMISSIONS \<Longrightarrow>
        \<exists>e. findByName (ro_organizationId r) (ro_role r) s' = Inr (Some e) \<and> mset (ro_grants e) = mset (ro_grants r)"
    and create_other: "create r s = (res, s') \<Longrightarrow> plain_id (ro_organizationId r) \<Longrightarrow> plain_id org \<Longrightarrow>
        (org, n) \<noteq> (ro_organizationId r, ro_role r) \<Longrightarrow> findByName org n s' = findByName org n s"
    and find_updated: "findByName (ro_organizationId r) (ro_role r) s = Inr (Some e0) \<Longrightarrow>
        set (ro_grants r) \<subseteq> set ALL_PERMISSIONS \<Longrightarrow>
        \<exists>s' e. update r now s = (True, s') \<and> findByName (ro_organizationId r) (ro_role r) s' = Inr (Some e) \<and>
          mset (ro_grants e) = mset (ro_grants r)"
    and deletion: "ok s \<Longrightarrow> (case delete_role org n s of
        (Deleted, s') \<Rightarrow> \<not> held org n s \<and> findByName org n s' = Inr None
      | (InUse, s') \<Rightarrow> held org n s \<and> s' = s
      | (NoSuchRole, s') \<Rightarrow> findByName org n s = Inr None \<and> findByName org n s' = Inr None)"
    and deletion_complete: "ok s \<Longrightarrow> findByName org n s = Inr None \<Longrightarrow> fst (delete_role org n s) = NoSuchRole"
    and deletion_ok: "ok s \<Longrightarrow> ok (snd (delete_role org n s))"
begin

lemma created_stored:
  assumes "create_organization_role findByName create grant newId now cmd s = (Inr dto, s')"
  shows "\<exists>e. findByName (co_organizationId cmd) (co_role cmd) s' = Inr (Some e) \<and>
     set (ro_grants e) = set (co_permissions cmd) \<and> distinct (ro_grants e) \<and> set (co_permissions cmd) \<subseteq> set grant"
proof -
  obtain r where r: "create_role newId now
             \<lparr> ri_organizationId = co_organizationId cmd, ri_role = co_role cmd,
               ri_permissions = co_permissions cmd, ri_grantedToActor = grant \<rparr> = Inr r"
    "findByName (co_organizationId cmd) (ro_role r) s = Inr None" "create r s = (Inr (), s')"
    using assms by (auto simp: create_organization_role_def split: sum.splits option.splits prod.splits)
  note role = r(1)[unfolded create_role_Inr, simplified]
  have sel: "ro_organizationId r = co_organizationId cmd" "ro_role r = co_role cmd" "ro_grants r = js_set (co_permissions cmd)"
    using role by simp_all
  obtain e where e: "findByName (co_organizationId cmd) (co_role cmd) s' = Inr (Some e)"
      "mset (ro_grants e) = mset (js_set (co_permissions cmd))"
    using find_created[of r s s'] r(2,3) role by (auto simp: sel)
  have "set (ro_grants e) = set (co_permissions cmd)" "distinct (ro_grants e)"
    using e(2) by (metis set_mset_mset set_js_set, metis distinct_js_set mset_eq_imp_distinct_iff)
  then show ?thesis using e(1) role by blast
qed

lemma updated_stored:
  assumes "ok s" "plain_id (co_organizationId cmd)"
    "update_organization_role findByName update grant now cmd s = (Inr dto, s')"
  shows "\<exists>e. findByName (co_organizationId cmd) (co_role cmd) s' = Inr (Some e) \<and>
     set (ro_grants e) = set (co_permissions cmd) \<and> set (co_permissions cmd) \<subseteq> set grant"
proof -
  obtain x u where x: "findByName (co_organizationId cmd) (co_role cmd) s = Inr (Some x)"
      "withPermissions now (co_permissions cmd) grant x = Inr u" "update u now s = (True, s')"
    using assms(3) by (auto simp: update_organization_role_def split: sum.splits option.splits prod.splits if_splits)
  have u: "ro_organizationId u = co_organizationId cmd" "ro_role u = co_role cmd" "ro_grants u = js_set (co_permissions cmd)"
    using x(2) found_key[OF assms(1,2) x(1)] by (auto simp: withPermissions_Inr)
  obtain e where e: "findByName (co_organizationId cmd) (co_role cmd) s' = Inr (Some e)"
      "mset (ro_grants e) = mset (js_set (co_permissions cmd))"
    using find_updated[of u s x now] x u by (auto simp: withPermissions_Inr)
  have "set (ro_grants e) = set (co_permissions cmd)" using e(2) by (metis set_mset_mset set_js_set)
  then show ?thesis using e(1) x(2) by (auto simp: withPermissions_Inr)
qed

lemma created_once:
  assumes "create_organization_role findByName create grant newId now cmd s = (Inr dto, s')"
  shows "fst (create_organization_role findByName create grant' newId' now' cmd s') \<noteq> Inr dto'"
  using created_stored[OF assms]
  by (auto simp: create_organization_role_def create_role_Inr split: sum.splits option.splits)

lemma delete_result:
  assumes "ok s"
  shows "case delete_organization_role delete_role org n s of
      (Inr _, s') \<Rightarrow> \<not> held org n s \<and> findByName org n s' = Inr None
    | (Inl e, s') \<Rightarrow> e = roleInUse \<and> held org n s \<and> s' = s \<or> e = roleNotFound \<and> findByName org n s = Inr None"
  using deletion[OF assms, of org n]
  by (auto simp: delete_organization_role_def split: prod.splits deletion_outcome.splits)

lemma delete_again:
  assumes "ok s" "fst (delete_organization_role delete_role org n s) = Inr ()"
  shows "fst (delete_organization_role delete_role org n (snd (delete_organization_role delete_role org n s))) = Inl roleNotFound"
proof -
  obtain s' where d: "delete_role org n s = (Deleted, s')"
    using assms(2) by (auto simp: delete_organization_role_def split: prod.splits deletion_outcome.splits)
  then have "findByName org n s' = Inr None" "ok s'"
    using deletion[OF assms(1), of org n] deletion_ok[OF assms(1), of org n] by simp_all
  then have "fst (delete_role org n s') = NoSuchRole" by (rule deletion_complete[rotated])
  then show ?thesis using d by (auto simp: delete_organization_role_def split: prod.splits)
qed

end


section \<open>Both repositories meet the contract\<close>

lemma role_entity_serialized:
  assumes "set ps \<subseteq> set ALL_PERMISSIONS" "sr_permission row = serializePermissionStatements ps"
  shows "\<exists>e. role_entity row = Inr e \<and> mset (ro_grants e) = mset ps"
  using parse_serialized[OF assms(1)] by (auto simp: role_entity_def assms(2))

lemma role_entity_key: "role_entity row = Inr e \<Longrightarrow> ro_organizationId e = sr_organizationId row \<and> ro_role e = sr_role row"
  by (auto simp: role_entity_def split: option.splits)

lemma findByName_None: "roles_findByName org n db = Inr None \<longleftrightarrow> (\<forall>row \<in> set (snd db). \<not> role_key org n row)"
  by (auto simp: roles_findByName_def find_None_iff split: option.splits sum.splits dest: find_SomeD)

lemma find_append_None: "List.find P xs = None \<Longrightarrow> List.find P (xs @ [x]) = (if P x then Some x else None)"
  by (induction xs) (auto split: if_splits)

lemma find_append_other: "\<not> P x \<Longrightarrow> List.find P (xs @ [x]) = List.find P xs"
  by (induction xs) auto

lemma find_update_rows:
  assumes "\<And>r. sel (f r) = sel r"
  shows "List.find sel (update_rows sel f rows) = map_option f (List.find sel rows)"
  using assms by (induction rows) (auto simp: update_rows_def)

text \<open>Some member of the organization holds the role, in the reading of the deletion statement.\<close>

definition prisma_held :: "(char \<Rightarrow> bool) \<Rightarrow> id \<Rightarrow> string \<Rightarrow> role_db \<Rightarrow> bool" where
  "prisma_held sql_space org n db \<longleftrightarrow>
     (\<exists>m \<in> set (fst db). mr_organizationId m = org \<and> sql_holds sql_space n (mr_role m))"

lemma deleteUnlessHeld_cases:
  "deleteUnlessHeld sp org n db =
     (if \<not> (\<exists>row \<in> set (snd db). role_key org n row) then (NoSuchRole, db)
      else if prisma_held sp org n db then (InUse, db)
      else (Deleted, (fst db,
        filter (\<lambda>r. sr_id r \<notin> sr_id ` {row \<in> set (snd db). role_key org n row}) (snd db))))"
proof -
  have target: "map sr_id (filter (role_key org n) (snd db)) = [] \<longleftrightarrow> \<not> (\<exists>row \<in> set (snd db). role_key org n row)"
    by (auto simp: filter_empty_conv)
  have held: "length (filter (\<lambda>m. mr_organizationId m = org \<and> sql_holds sp n (mr_role m)) (fst db)) = 0
      \<longleftrightarrow> \<not> prisma_held sp org n db"
    by (auto simp: filter_empty_conv prisma_held_def)
  then have held': "filter (\<lambda>m. mr_organizationId m = org \<and> sql_holds sp n (mr_role m)) (fst db) = []
      \<longleftrightarrow> \<not> prisma_held sp org n db"
    by simp
  have ids: "set (map sr_id (filter (role_key org n) (snd db))) = sr_id ` {row \<in> set (snd db). role_key org n row}"
    by auto
  have del: "filter (\<lambda>r. sr_id r \<in> set (map sr_id (filter (role_key org n) (snd db)))) (snd db) \<noteq> []"
    if "\<exists>row \<in> set (snd db). role_key org n row"
    using that by (auto simp: filter_empty_conv)
  show ?thesis
    unfolding deleteUnlessHeld_def Let_def target held ids[symmetric]
    using del by (auto simp: held' filter_id_conv prod_eq_iff)
qed

interpretation prisma_roles: role_repository "\<lambda>db. True" "\<lambda>i. True" roles_findByName roles_create roles_update
    "deleteUnlessHeld sp" "prisma_held sp" for sp
proof unfold_locales
  fix db :: role_db and org n e
  assume "roles_findByName org n db = Inr (Some e)"
  then show "ro_organizationId e = org \<and> ro_role e = n"
    by (auto simp: roles_findByName_def role_key_def split: option.splits sum.splits
        dest!: find_SomeD role_entity_key)
next
  fix r and s s' :: role_db
  assume a: "roles_findByName (ro_organizationId r) (ro_role r) s = Inr None" "roles_create r s = (Inr (), s')"
    "set (ro_grants r) \<subseteq> set ALL_PERMISSIONS"
  let ?k = "role_key (ro_organizationId r) (ro_role r)"
  let ?row = "\<lparr> sr_id = ro_id r, sr_organizationId = ro_organizationId r, sr_role = ro_role r,
           sr_permission = serializePermissionStatements (ro_grants r), sr_createdAt = ro_createdAt r,
           sr_updatedAt = Some (ro_createdAt r) \<rparr>"
  have "List.find ?k (snd s) = None" using a(1) by (auto simp: findByName_None find_None_iff)
  then have "List.find ?k (snd s') = Some ?row"
    using a(2) by (auto simp: roles_create_def role_key_def find_append_None split: if_splits)
  then show "\<exists>e. roles_findByName (ro_organizationId r) (ro_role r) s' = Inr (Some e) \<and> mset (ro_grants e) = mset (ro_grants r)"
    using role_entity_serialized[OF a(3), of ?row] by (auto simp: roles_findByName_def)
next
  fix r and s s' :: role_db and org n res
  assume "roles_create r s = (res, s')" "(org, n) \<noteq> (ro_organizationId r, ro_role r)"
  then have "List.find (role_key org n) (snd s') = List.find (role_key org n) (snd s)"
    by (auto simp: roles_create_def role_key_def find_append_other split: if_splits)
  then show "roles_findByName org n s' = roles_findByName org n s" by (simp add: roles_findByName_def)
next
  fix r :: organization_role and s :: role_db and e0 now
  let ?k = "role_key (ro_organizationId r) (ro_role r)"
  let ?f = "\<lambda>row. row \<lparr> sr_permission := serializePermissionStatements (ro_grants r), sr_updatedAt := Some now \<rparr>"
  assume a: "roles_findByName (ro_organizationId r) (ro_role r) s = Inr (Some e0)" "set (ro_grants r) \<subseteq> set ALL_PERMISSIONS"
  then obtain row where row: "List.find ?k (snd s) = Some row"
    by (auto simp: roles_findByName_def split: option.splits)
  then have "List.find ?k (update_rows ?k ?f (snd s)) = Some (?f row)"
    by (simp add: find_update_rows role_key_def)
  moreover have "0 < count_rows ?k (snd s)" using row by (auto simp: count_rows_pos dest: find_SomeD)
  ultimately show "\<exists>s' e. roles_update r now s = (True, s') \<and>
      roles_findByName (ro_organizationId r) (ro_role r) s' = Inr (Some e) \<and> mset (ro_grants e) = mset (ro_grants r)"
    using role_entity_serialized[OF a(2), of "?f row"] by (auto simp: roles_update_def roles_findByName_def)
next
  fix s :: role_db and org n
  show "case deleteUnlessHeld sp org n s of
        (Deleted, s') \<Rightarrow> \<not> prisma_held sp org n s \<and> roles_findByName org n s' = Inr None
      | (InUse, s') \<Rightarrow> prisma_held sp org n s \<and> s' = s
      | (NoSuchRole, s') \<Rightarrow> roles_findByName org n s = Inr None \<and> roles_findByName org n s' = Inr None"
    by (auto simp: deleteUnlessHeld_cases findByName_None)
next
  fix s :: role_db and org n
  assume "roles_findByName org n s = Inr None"
  then show "fst (deleteUnlessHeld sp org n s) = NoSuchRole" by (auto simp: deleteUnlessHeld_cases findByName_None)
qed simp

definition colon_free :: "id \<Rightarrow> bool" where
  "colon_free i \<longleftrightarrow> CHR '':'' \<notin> set i"

definition keyed_roles :: "memory_roles \<Rightarrow> bool" where
  "keyed_roles s \<longleftrightarrow>
     list_all (\<lambda>(k, r). k = role_map_key (ro_organizationId r) (ro_role r) \<and> colon_free (ro_organizationId r)) (me_roles s)"

lemma role_map_key_inj:
  assumes "colon_free org" "colon_free org'" "role_map_key org n = role_map_key org' n'"
  shows "org = org' \<and> n = n'"
proof -
  have "takeWhile (\<lambda>c. c \<noteq> CHR '':'') (role_map_key o1 m) = o1" if "colon_free o1" for o1 m
    using that by (induction o1) (auto simp: role_map_key_def colon_free_def)
  then have "org = org'" using assms by metis
  then show ?thesis using assms(3) by (simp add: role_map_key_def)
qed

definition memory_held :: "id \<Rightarrow> string \<Rightarrow> memory_roles \<Rightarrow> bool" where
  "memory_held org n s \<longleftrightarrow> 0 < default_to 0 (map_of (me_holders s) (role_map_key org n))"

interpretation memory_roles: role_repository keyed_roles colon_free memory_roles_findByName memory_roles_create
    memory_roles_update memory_deleteUnlessHeld memory_held
proof unfold_locales
  fix s org n e
  assume "keyed_roles s" "colon_free org" "memory_roles_findByName org n s = Inr (Some e)"
  then have "(role_map_key org n, e) \<in> set (me_roles s)"
    by (simp add: memory_roles_findByName_def map_of_SomeD)
  then have "role_map_key org n = role_map_key (ro_organizationId e) (ro_role e)" "colon_free (ro_organizationId e)"
    using \<open>keyed_roles s\<close> by (auto simp: keyed_roles_def list_all_iff)
  then show "ro_organizationId e = org \<and> ro_role e = n"
    using role_map_key_inj \<open>colon_free org\<close> by metis
next
  fix r s s' org n res
  assume a: "memory_roles_create r s = (res, s')" "colon_free (ro_organizationId r)" "colon_free org"
    "(org, n) \<noteq> (ro_organizationId r, ro_role r)"
  then have "role_map_key org n \<noteq> role_map_key (ro_organizationId r) (ro_role r)" by (metis role_map_key_inj)
  then show "memory_roles_findByName org n s' = memory_roles_findByName org n s"
    using a(1) by (auto simp: memory_roles_create_def memory_roles_findByName_def)
next
  fix s org n
  assume "keyed_roles s"
  then show "keyed_roles (snd (memory_deleteUnlessHeld org n s))"
    by (auto simp: memory_deleteUnlessHeld_def Let_def keyed_roles_def list_all_iff AList.delete_eq)
next
  fix s org n
  show "case memory_deleteUnlessHeld org n s of
        (Deleted, s') \<Rightarrow> \<not> memory_held org n s \<and> memory_roles_findByName org n s' = Inr None
      | (InUse, s') \<Rightarrow> memory_held org n s \<and> s' = s
      | (NoSuchRole, s') \<Rightarrow> memory_roles_findByName org n s = Inr None \<and> memory_roles_findByName org n s' = Inr None"
    by (simp add: memory_deleteUnlessHeld_def memory_held_def memory_roles_findByName_def Let_def AList.delete_conv')
next
  fix r :: organization_role and s e0 now
  assume "memory_roles_findByName (ro_organizationId r) (ro_role r) s = Inr (Some e0)"
  then show "\<exists>s' e. memory_roles_update r now s = (True, s') \<and>
      memory_roles_findByName (ro_organizationId r) (ro_role r) s' = Inr (Some e) \<and> mset (ro_grants e) = mset (ro_grants r)"
    by (simp add: memory_roles_update_def memory_roles_findByName_def Let_def)
next
  fix r :: organization_role and s s'
  assume "memory_roles_create r s = (Inr (), s')"
  then show "\<exists>e. memory_roles_findByName (ro_organizationId r) (ro_role r) s' = Inr (Some e) \<and> mset (ro_grants e) = mset (ro_grants r)"
    by (auto simp: memory_roles_create_def memory_roles_findByName_def)
next
  fix s org n
  assume "memory_roles_findByName org n s = Inr None"
  then show "fst (memory_deleteUnlessHeld org n s) = NoSuchRole"
    by (simp add: memory_deleteUnlessHeld_def memory_roles_findByName_def Let_def)
qed


section \<open>Roles and what members resolve to\<close>

lemma view_row_grants:
  "set (row_grants (pbac_view db) org n) = (\<Union>row \<in> {row \<in> set (snd db). role_key org n row}. set (grants_of_row (pbac_row row)))"
  by (auto simp: row_grants_def pbac_view_def pbac_row_def role_key_def)

lemma serialized_grants:
  assumes "set ps \<subseteq> set ALL_PERMISSIONS" "sr_permission row = serializePermissionStatements ps"
  shows "set (grants_of_row (pbac_row row)) = set ps"
proof -
  obtain st where "parsePermissionStatements (serializePermissionStatements ps) = Some st" "mset (granted st) = mset ps"
    using parse_serialized[OF assms(1)] by blast
  then show ?thesis by (simp add: grants_of_row_def pbac_row_def assms(2)) (metis set_mset_mset)
qed

lemma resolve_within:
  assumes "\<And>n. set (row_grants db' org n) \<subseteq> set (row_grants db org n) \<union> A"
  shows "set (pg_resolvePermissions db' org raw) \<subseteq> set (pg_resolvePermissions db org raw) \<union> A"
  using assms unfolding set_pg_resolvePermissions by (fastforce split: if_splits)

lemma resolve_same:
  assumes "\<And>n. n \<in> set (role_names raw) \<Longrightarrow> set (row_grants db' org n) = set (row_grants db org n)"
  shows "set (pg_resolvePermissions db' org raw) = set (pg_resolvePermissions db org raw)"
  using assms unfolding set_pg_resolvePermissions by (intro SUP_cong) auto

lemma create_row_grants:
  assumes "roles_create r db = (Inr (), db')" "set (ro_grants r) \<subseteq> set ALL_PERMISSIONS"
  shows "set (row_grants (pbac_view db') org n) = set (row_grants (pbac_view db) org n) \<union>
    (if (org, n) = (ro_organizationId r, ro_role r) then set (ro_grants r) else {})" "fst db' = fst db"
    "\<not> (\<exists>row \<in> set (snd db). role_key (ro_organizationId r) (ro_role r) row)"
proof -
  let ?row = "\<lparr> sr_id = ro_id r, sr_organizationId = ro_organizationId r, sr_role = ro_role r,
           sr_permission = serializePermissionStatements (ro_grants r), sr_createdAt = ro_createdAt r,
           sr_updatedAt = Some (ro_createdAt r) \<rparr>"
  have db': "db' = (fst db, snd db @ [?row])"
    and new: "\<not> (\<exists>row \<in> set (snd db). role_key (ro_organizationId r) (ro_role r) row)"
    using assms(1) by (auto simp: roles_create_def split: if_splits)
  show "fst db' = fst db" "\<not> (\<exists>row \<in> set (snd db). role_key (ro_organizationId r) (ro_role r) row)"
    using db' new by simp_all
  have "{row \<in> set (snd db'). role_key org n row}
      = {row \<in> set (snd db). role_key org n row} \<union> (if (org, n) = (ro_organizationId r, ro_role r) then {?row} else {})"
    by (auto simp: db' role_key_def)
  then show "set (row_grants (pbac_view db') org n) = set (row_grants (pbac_view db) org n) \<union>
    (if (org, n) = (ro_organizationId r, ro_role r) then set (ro_grants r) else {})"
    using serialized_grants[OF assms(2), of ?row] by (simp add: view_row_grants)
qed

lemma update_row_grants:
  assumes "set (ro_grants r) \<subseteq> set ALL_PERMISSIONS"
  shows "set (row_grants (pbac_view (snd (roles_update r now db))) org n) \<subseteq> set (row_grants (pbac_view db) org n) \<union>
    (if (org, n) = (ro_organizationId r, ro_role r) then set (ro_grants r) else {})"
proof (cases "(org, n) = (ro_organizationId r, ro_role r)")
  case True
  have "set (grants_of_row (pbac_row row)) = set (ro_grants r)"
    if "row \<in> set (snd (snd (roles_update r now db)))" "role_key org n row" for row
    using that True
    by (auto simp: roles_update_def role_key_def elim!: in_update_rowsE intro!: serialized_grants[OF assms])
  then show ?thesis using True by (auto simp: view_row_grants)
next
  case False
  then have "{row \<in> set (snd (snd (roles_update r now db))). role_key org n row} = {row \<in> set (snd db). role_key org n row}"
    by (auto simp: roles_update_def role_key_def update_rows_def image_iff)
  then show ?thesis using False by (auto simp: view_row_grants)
qed

lemma created_role:
  assumes "create_organization_role find_by repo_create grant newId now cmd s = (Inr dto, s')"
  shows "\<exists>r :: organization_role. ROLE_NAME_PATTERN (co_role cmd) \<and> \<not> isSystemRole (co_role cmd) \<and> co_permissions cmd \<noteq> [] \<and>
    set (co_permissions cmd) \<subseteq> set ALL_PERMISSIONS \<and> set (co_permissions cmd) \<subseteq> set grant \<and>
    ro_organizationId r = co_organizationId cmd \<and> ro_role r = co_role cmd \<and> ro_grants r = js_set (co_permissions cmd) \<and>
    repo_create r s = (Inr (), s')"
proof -
  obtain r where r: "create_role newId now
             \<lparr> ri_organizationId = co_organizationId cmd, ri_role = co_role cmd,
               ri_permissions = co_permissions cmd, ri_grantedToActor = grant \<rparr> = Inr r" "repo_create r s = (Inr (), s')"
    using assms by (auto simp: create_organization_role_def split: sum.splits option.splits prod.splits)
  then show ?thesis by (intro exI[of _ r]) (auto simp: create_role_Inr)
qed

lemma updated_role:
  assumes "update_organization_role roles_findByName roles_update grant now cmd db = (Inr dto, db')"
  shows "\<exists>r :: organization_role. set (co_permissions cmd) \<subseteq> set ALL_PERMISSIONS \<and> set (co_permissions cmd) \<subseteq> set grant \<and>
    ro_organizationId r = co_organizationId cmd \<and> ro_role r = co_role cmd \<and> ro_grants r = js_set (co_permissions cmd) \<and>
    db' = snd (roles_update r now db)"
proof -
  obtain x u where x: "roles_findByName (co_organizationId cmd) (co_role cmd) db = Inr (Some x)"
      "withPermissions now (co_permissions cmd) grant x = Inr u" "roles_update u now db = (True, db')"
    using assms by (auto simp: update_organization_role_def split: sum.splits option.splits prod.splits if_splits)
  then show ?thesis
    using prisma_roles.found_key[OF _ _ x(1)] by (intro exI[of _ u]) (auto simp: withPermissions_Inr)
qed

text \<open>C14. Managing roles cannot escalate: after an actor has created or changed a custom role, under the
  actor's own permissions of that moment, every member of every organization resolves at most to what the
  member resolved to before and, in the actor's organization, what the actor held; so nobody there gains
  what the actor lacks, the actor gains nothing, and no other organization is affected.\<close>

theorem role_changes_cannot_escalate:
  assumes "create_organization_role roles_findByName roles_create grant newId now cmd db = (Inr dto, db') \<or>
      update_organization_role roles_findByName roles_update grant now cmd db = (Inr dto, db')"
    "grant = pg_permissionsFor (pbac_view db) (UserPrincipal actor (co_organizationId cmd) None)"
  shows "set (pg_resolvePermissions (pbac_view db') org raw)
       \<subseteq> set (pg_resolvePermissions (pbac_view db) org raw) \<union> (if org = co_organizationId cmd then set grant else {}) \<and>
    set (pg_permissionsFor (pbac_view db') (UserPrincipal actor (co_organizationId cmd) None)) \<subseteq> set grant"
proof -
  have rows: "set (row_grants (pbac_view db') o1 n) \<subseteq> set (row_grants (pbac_view db) o1 n) \<union>
      (if o1 = co_organizationId cmd then set grant else {})" "fst db' = fst db" for o1 n
    using assms(1)
  proof (atomize(full), elim disjE)
    assume "create_organization_role roles_findByName roles_create grant newId now cmd db = (Inr dto, db')"
    then obtain r :: organization_role where r: "set (co_permissions cmd) \<subseteq> set ALL_PERMISSIONS" "set (co_permissions cmd) \<subseteq> set grant"
      "ro_organizationId r = co_organizationId cmd" "ro_grants r = js_set (co_permissions cmd)"
      "roles_create r db = (Inr (), db')"
      using created_role[of roles_findByName roles_create grant newId now cmd db dto db'] by metis
    show "(set (row_grants (pbac_view db') o1 n) \<subseteq> set (row_grants (pbac_view db) o1 n) \<union>
      (if o1 = co_organizationId cmd then set grant else {})) \<and> fst db' = fst db"
      using create_row_grants(1)[OF r(5), of o1 n] create_row_grants(2)[OF r(5)] r(1-4) by auto
  next
    assume "update_organization_role roles_findByName roles_update grant now cmd db = (Inr dto, db')"
    then obtain r :: organization_role where r: "set (co_permissions cmd) \<subseteq> set ALL_PERMISSIONS" "set (co_permissions cmd) \<subseteq> set grant"
      "ro_organizationId r = co_organizationId cmd" "ro_grants r = js_set (co_permissions cmd)"
      "db' = snd (roles_update r now db)"
      using updated_role[of grant now cmd db dto db'] by metis
    show "(set (row_grants (pbac_view db') o1 n) \<subseteq> set (row_grants (pbac_view db) o1 n) \<union>
      (if o1 = co_organizationId cmd then set grant else {})) \<and> fst db' = fst db"
      using update_row_grants[of r now db o1 n] r by (auto simp: roles_update_def split: if_splits)
  qed
  have within: "set (pg_resolvePermissions (pbac_view db') o1 w)
       \<subseteq> set (pg_resolvePermissions (pbac_view db) o1 w) \<union> (if o1 = co_organizationId cmd then set grant else {})" for o1 w
    using rows(1) by (rule resolve_within)
  have "membershipRole (pbac_view db') p = membershipRole (pbac_view db) p" for p
    by (cases p) (simp_all add: membershipRole_def find_member_def pbac_view_def rows(2))
  then have "set (pg_permissionsFor (pbac_view db') (UserPrincipal actor (co_organizationId cmd) None)) \<subseteq> set grant"
    using within[of "co_organizationId cmd"] assms(2) by (auto simp: pg_permissionsFor_def split: option.splits)
  then show ?thesis using within by blast
qed


definition example_role_db :: role_db where
  "example_role_db =
     ([\<lparr> mr_organizationId = ''o1'', mr_userId = ''u1'', mr_role = ''admin'' \<rparr>,
       \<lparr> mr_organizationId = ''o1'', mr_userId = ''u2'', mr_role = ''viewer, auditor'' \<rparr>],
      [\<lparr> sr_id = ''r0'', sr_organizationId = ''o1'', sr_role = ''auditor'',
         sr_permission = serializePermissionStatements [''audit_log:read''], sr_createdAt = 1, sr_updatedAt = None \<rparr>])"

definition example_role_command :: role_command where
  "example_role_command =
     \<lparr> co_organizationId = ''o1'', co_role = ''reviewer'', co_permissions = [''file:read'', ''team:read'', ''file:read''] \<rparr>"

definition example_grant :: "permission list" where
  "example_grant = pg_permissionsFor (pbac_view example_role_db) (UserPrincipal ''u1'' ''o1'' None)"

lemma example_created:
  "\<exists>dto db'. create_organization_role roles_findByName roles_create example_grant ''r1'' 9 example_role_command example_role_db
     = (Inr dto, db')"
proof -
  have "(case fst (create_organization_role roles_findByName roles_create example_grant ''r1'' 9 example_role_command
      example_role_db) of Inr _ \<Rightarrow> True | _ \<Rightarrow> False)" by code_simp
  then show ?thesis by (auto split: sum.splits) (metis surj_pair fst_conv)
qed

theorem role_changes_cannot_escalate_witness:
  "\<exists>db'. set (pg_resolvePermissions (pbac_view db') ''o1'' ''viewer, reviewer'')
     \<subseteq> set (pg_resolvePermissions (pbac_view example_role_db) ''o1'' ''viewer, reviewer'') \<union> set example_grant"
proof -
  obtain dto db' where c: "create_organization_role roles_findByName roles_create example_grant ''r1'' 9
      example_role_command example_role_db = (Inr dto, db')"
    using example_created by blast
  have org: "co_organizationId example_role_command = ''o1''" by (simp add: example_role_command_def)
  show ?thesis
    using conjunct1[OF role_changes_cannot_escalate[OF disjI1[OF c], of "''u1''" "''o1''" "''viewer, reviewer''"]]
    by (intro exI[of _ db']) (simp add: org example_grant_def[symmetric])
qed

lemma role_pattern_chars:
  assumes "ROLE_NAME_PATTERN n" shows "n \<noteq> []" "CHR '','' \<notin> set n" "\<forall>c \<in> set n. \<not> is_js_space c"
proof -
  have "\<forall>c \<in> set n. role_name_char c" using assms
    by (cases n) (auto simp: ROLE_NAME_PATTERN_def list_all_iff role_name_char_def)
  moreover have "\<not> role_name_char (CHR '','')" by (simp add: role_name_char_def is_lower_def is_digit_def)
  moreover have "role_name_char c \<Longrightarrow> \<not> is_js_space c" for c
    by (auto simp: role_name_char_def is_lower_def is_digit_def is_js_space_def)
  ultimately show "CHR '','' \<notin> set n" "\<forall>c \<in> set n. \<not> is_js_space c" by blast+
  show "n \<noteq> []" using assms by (auto simp: ROLE_NAME_PATTERN_def)
qed

lemma trim_no_space: "\<forall>c \<in> set n. \<not> is_js_space c \<Longrightarrow> trim n = n"
proof -
  have *: "\<forall>c \<in> set n. \<not> is_js_space c \<Longrightarrow> trim_start n = n" for n by (cases n) (auto simp: trim_start_def)
  assume "\<forall>c \<in> set n. \<not> is_js_space c"
  then show "trim n = n" using *[of n] *[of "rev n"] by (simp add: trim_def)
qed

lemma role_names_single: "ROLE_NAME_PATTERN n \<Longrightarrow> role_names n = [n]"
  using role_pattern_chars[of n] by (simp add: role_names_def split_on_no_sep trim_no_space)

text \<open>A created role means what was asked for: a member whose membership names just that role resolves
  to exactly the requested permissions, and reading the role back from either repository gives them too,
  each once.\<close>

theorem created_role_grants_exactly:
  assumes "create_organization_role roles_findByName roles_create grant newId now cmd db = (Inr dto, db')"
    "create_organization_role memory_roles_findByName memory_roles_create grant newId now cmd s = (Inr dto', s')"
  shows "set (pg_resolvePermissions (pbac_view db') (co_organizationId cmd) (co_role cmd)) = set (co_permissions cmd) \<and>
    (\<exists>e. roles_findByName (co_organizationId cmd) (co_role cmd) db' = Inr (Some e) \<and>
         set (ro_grants e) = set (co_permissions cmd) \<and> distinct (ro_grants e)) \<and>
    (\<exists>e. memory_roles_findByName (co_organizationId cmd) (co_role cmd) s' = Inr (Some e) \<and>
         set (ro_grants e) = set (co_permissions cmd) \<and> distinct (ro_grants e))"
proof -
  obtain r :: organization_role where r: "ROLE_NAME_PATTERN (co_role cmd)" "\<not> isSystemRole (co_role cmd)"
    "set (co_permissions cmd) \<subseteq> set ALL_PERMISSIONS"
    "ro_organizationId r = co_organizationId cmd" "ro_role r = co_role cmd" "ro_grants r = js_set (co_permissions cmd)"
    "roles_create r db = (Inr (), db')"
    using created_role[OF assms(1)] by blast
  have none: "set (row_grants (pbac_view db) (co_organizationId cmd) (co_role cmd)) = {}"
    using create_row_grants(3)[OF r(7)] r(3-6) by (auto simp: view_row_grants)
  have "set (row_grants (pbac_view db') (co_organizationId cmd) (co_role cmd)) = set (co_permissions cmd)"
    using create_row_grants(1)[OF r(7), of "co_organizationId cmd" "co_role cmd"] r(3-6) none by simp
  then have "set (pg_resolvePermissions (pbac_view db') (co_organizationId cmd) (co_role cmd)) = set (co_permissions cmd)"
    using r(1,2) by (simp add: set_pg_resolvePermissions role_names_single)
  then show ?thesis
    using prisma_roles.created_stored[OF assms(1)] memory_roles.created_stored[OF assms(2)] by blast
qed

theorem created_role_grants_exactly_witness:
  "\<exists>db'. set (pg_resolvePermissions (pbac_view db') ''o1'' ''reviewer'') = {''file:read'', ''team:read''}"
proof -
  obtain dto db' where c: "create_organization_role roles_findByName roles_create example_grant ''r1'' 9
      example_role_command example_role_db = (Inr dto, db')"
    using example_created by blast
  have "(case fst (create_organization_role memory_roles_findByName memory_roles_create example_grant ''r1'' 9
      example_role_command \<lparr> me_roles = [], me_holders = [] \<rparr>) of Inr _ \<Rightarrow> True | _ \<Rightarrow> False)" by code_simp
  then obtain dto' s' where m: "create_organization_role memory_roles_findByName memory_roles_create example_grant ''r1'' 9
      example_role_command \<lparr> me_roles = [], me_holders = [] \<rparr> = (Inr dto', s')"
    by (auto split: sum.splits) (metis surj_pair fst_conv)
  have "set (co_permissions example_role_command) = {''file:read'', ''team:read''}"
    "co_organizationId example_role_command = ''o1''" "co_role example_role_command = ''reviewer''"
    by (auto simp: example_role_command_def)
  then show ?thesis using conjunct1[OF created_role_grants_exactly[OF c m]] by (intro exI[of _ db']) simp
qed

lemma set_split_on: "w \<in> set (split_on c s) \<Longrightarrow> set w \<subseteq> set s"
proof (induction s arbitrary: w)
  case (Cons x s)
  obtain v vs where v: "split_on c s = v # vs" by (cases "split_on c s") auto
  have "set u \<subseteq> set s" if "u \<in> set (v # vs)" for u using Cons.IH[of u] that v by simp
  then show ?case using Cons.prems v by (auto split: if_splits) blast+
qed simp

lemma split_on_filter:
  "P c \<Longrightarrow> split_on c (filter P s) = map (filter P) (split_on c s)"
  by (induction s) (auto split: list.splits)

lemma trim_parts: "\<exists>pre post. s = pre @ trim s @ post \<and> (\<forall>c \<in> set pre \<union> set post. is_js_space c)"
proof -
  let ?t = "trim_start s"
  have a: "s = takeWhile is_js_space s @ ?t" by (simp add: trim_start_def)
  have "rev ?t = takeWhile is_js_space (rev ?t) @ trim_start (rev ?t)" by (simp add: trim_start_def)
  then have b: "?t = trim s @ rev (takeWhile is_js_space (rev ?t))" by (metis rev_append rev_rev_ident trim_def)
  show ?thesis
    using a b by (intro exI[of _ "takeWhile is_js_space s"] exI[of _ "rev (takeWhile is_js_space (rev ?t))"])
      (auto dest: set_takeWhileD)
qed

text \<open>The deletion statement counts every member whose role list names the role.\<close>

lemma sql_holds_role:
  assumes "ROLE_NAME_PATTERN n" "n \<in> set (role_names raw)"
    "\<And>c. c \<in> set raw \<Longrightarrow> is_js_space c \<Longrightarrow> sp c" "\<And>c. sp c \<Longrightarrow> is_js_space c"
  shows "sql_holds sp n raw"
proof -
  obtain w where w: "w \<in> set (split_on (CHR '','') raw)" "n = trim w"
    using assms(2) by (auto simp: role_names_def)
  obtain pre post where parts: "w = pre @ n @ post" "\<forall>c \<in> set pre \<union> set post. is_js_space c"
    using trim_parts[of w] w(2) by auto
  have sub: "set w \<subseteq> set raw"
    using w(1) by (rule set_split_on)
  have "filter (\<lambda>c. \<not> sp c) pre = []" "filter (\<lambda>c. \<not> sp c) post = []"
    using parts assms(3) sub by (auto simp: filter_empty_conv)
  moreover have "filter (\<lambda>c. \<not> sp c) n = n"
    using role_pattern_chars(3)[OF assms(1)] assms(4) by (intro filter_True) blast
  ultimately have fw: "filter (\<lambda>c. \<not> sp c) w = n" by (simp add: parts(1))
  have "\<not> sp (CHR '','')" using assms(4)[of "CHR '',''"] by (auto simp: is_js_space_def)
  then have "n \<in> set (split_on (CHR '','') (filter (\<lambda>c. \<not> sp c) raw))"
    using w(1) fw by (force simp: split_on_filter)
  moreover have "filter (\<lambda>c. \<not> sp c) raw \<noteq> []"
    using role_pattern_chars(1)[OF assms(1)] fw sub by (auto simp: filter_empty_conv) blast
  ultimately show ?thesis by (simp add: sql_holds_def Let_def)
qed

text \<open>Deleting a custom role takes no permission away from anyone: when the handler succeeds, no member
  of the organization named the role and every member of every organization resolves to what it did
  before; when it does not, the table is unchanged. The role's name has the shape every created role has,
  ids are unique, and the white space Postgres strips is the white space the engine trims.\<close>

theorem role_deletion_is_safe:
  assumes "ROLE_NAME_PATTERN n" "distinct (map sr_id (snd db))"
    "\<And>m c. m \<in> set (fst db) \<Longrightarrow> c \<in> set (mr_role m) \<Longrightarrow> is_js_space c \<Longrightarrow> sp c" "\<And>c. sp c \<Longrightarrow> is_js_space c"
  shows "case delete_organization_role (deleteUnlessHeld sp) org n db of
      (Inl e, db') \<Rightarrow> db' = db \<and> (e = roleInUse \<or> e = roleNotFound)
    | (Inr _, db') \<Rightarrow> fst db' = fst db \<and>
        list_all (\<lambda>m. (mr_organizationId m = org \<longrightarrow> n \<notin> set (role_names (mr_role m))) \<and>
          set (pg_resolvePermissions (pbac_view db') (mr_organizationId m) (mr_role m))
            = set (pg_resolvePermissions (pbac_view db) (mr_organizationId m) (mr_role m))) (fst db)"
proof -
  let ?rows = "{row \<in> set (snd db). role_key org n row}"
  show ?thesis
  proof (cases "?rows \<noteq> {} \<and> \<not> prisma_held sp org n db")
    case False
    then show ?thesis
      by (auto simp: delete_organization_role_def deleteUnlessHeld_cases)
  next
    case True
    let ?db' = "(fst db, filter (\<lambda>r. sr_id r \<notin> sr_id ` ?rows) (snd db))"
    have kept: "{row \<in> set (snd ?db'). role_key o1 m row} = {row \<in> set (snd db). role_key o1 m row}"
      if "(o1, m) \<noteq> (org, n)" for o1 m
    proof -
      have "sr_id row \<notin> sr_id ` ?rows" if "row \<in> set (snd db)" "role_key o1 m row" for row
        using that \<open>(o1, m) \<noteq> (org, n)\<close> assms(2) by (auto simp: role_key_def distinct_map inj_on_def)
      then show ?thesis by auto
    qed
    have free: "n \<notin> set (role_names (mr_role m))" if "m \<in> set (fst db)" "mr_organizationId m = org" for m
      using sql_holds_role[OF assms(1), of "mr_role m" sp] assms(3,4) True that by (auto simp: prisma_held_def)
    have same: "set (pg_resolvePermissions (pbac_view ?db') (mr_organizationId m) (mr_role m))
            = set (pg_resolvePermissions (pbac_view db) (mr_organizationId m) (mr_role m))" if "m \<in> set (fst db)" for m
    proof (rule resolve_same)
      fix k assume "k \<in> set (role_names (mr_role m))"
      then have "(mr_organizationId m, k) \<noteq> (org, n)" using free[OF that] by auto
      from kept[OF this]
      show "set (row_grants (pbac_view ?db') (mr_organizationId m) k) = set (row_grants (pbac_view db) (mr_organizationId m) k)"
        unfolding view_row_grants by (rule arg_cong)
    qed
    have "delete_organization_role (deleteUnlessHeld sp) org n db = (Inr (), ?db')"
      using True by (auto simp: delete_organization_role_def deleteUnlessHeld_cases)
    then show ?thesis using free same by (simp add: list_all_iff)
  qed
qed

theorem role_deletion_is_safe_witness:
  "\<exists>db'. delete_organization_role (deleteUnlessHeld is_js_space) ''o1'' ''auditor'' example_role_db = (Inl roleInUse, db')
     \<and> db' = example_role_db"
proof -
  have "ROLE_NAME_PATTERN ''auditor''" by code_simp
  moreover have "distinct (map sr_id (snd example_role_db))" by (simp add: example_role_db_def)
  ultimately have "case delete_organization_role (deleteUnlessHeld is_js_space) ''o1'' ''auditor'' example_role_db of
      (Inl e, db') \<Rightarrow> db' = example_role_db \<and> (e = roleInUse \<or> e = roleNotFound) | (Inr _, db') \<Rightarrow> True"
    using role_deletion_is_safe[of "''auditor''" example_role_db is_js_space "''o1''"] by (auto split: sum.splits prod.splits)
  moreover have "fst (delete_organization_role (deleteUnlessHeld is_js_space) ''o1'' ''auditor'' example_role_db) = Inl roleInUse"
    by code_simp
  ultimately show ?thesis by (cases "delete_organization_role (deleteUnlessHeld is_js_space) ''o1'' ''auditor'' example_role_db") auto
qed

end
