(* ===== verification/Outbox.thy ===== *)
theory Outbox
  imports Problem_Details "HOL-Library.Multiset" "HOL-Library.Sublist"
begin

text \<open>The transactional outbox (libs/infra/messaging): the publisher that stores an event with its
  envelope, the relay that claims a batch, publishes it on the in-process bus and marks the rows, and the
  purge tasks of the scheduler. The table is a list of rows in any order. Third-party behaviour comes as
  parameters: Date.parse, the issues Zod reports, the listeners of the bus, which database writes
  succeed, which rows another transaction has locked, and the order in which Postgres returns the rows of
  an UPDATE. A delay is in milliseconds.\<close>

section \<open>Events and envelopes\<close>

record domain_event =
  de_eventId :: string
  de_eventType :: string
  de_aggregateId :: string
  de_occurredAt :: instant
  de_payload :: "(string \<times> json) list"
  de_organizationId :: "id option"

record outbox_row =
  ob_id :: id
  ob_organizationId :: "id option"
  ob_eventType :: string
  ob_aggregateId :: string
  ob_payload :: json
  ob_processedAt :: "instant option"
  ob_attempts :: nat
  ob_lastError :: "string option"
  ob_createdAt :: instant
  ob_nextAttemptAt :: "instant option"

type_synonym outbox_table = "outbox_row list"

definition OUTBOX_SCHEMA_VERSION :: nat where
  "OUTBOX_SCHEMA_VERSION = 1"

record outbox_envelope =
  oe_schemaVersion :: "nat option"
  oe_eventId :: string
  oe_occurredAt :: instant
  oe_payload :: "(string \<times> json) list"

text \<open>\<open>outboxEnvelopeSchema.safeParse\<close>; an absent member is undefined, and null is no version.\<close>

definition envelope_version :: "json option \<Rightarrow> nat option option" where
  "envelope_version v =
     (case v of
        None \<Rightarrow> Some None
      | Some j \<Rightarrow> (case number_of (Some j) of Some n \<Rightarrow> if 1 \<le> n then Some (Some n) else None | None \<Rightarrow> None))"

definition parse_envelope :: "(string \<Rightarrow> instant option) \<Rightarrow> json \<Rightarrow> outbox_envelope option" where
  "parse_envelope date_parse j =
     (case (envelope_version (json_member ''schemaVersion'' j), nonempty_text_of (json_member ''eventId'' j),
            Option.bind (text_of (json_member ''occurredAt'' j)) date_parse, json_member ''payload'' j, j) of
        (Some v, Some e, Some t, Some (JObj ms), JObj _) \<Rightarrow>
          Some \<lparr> oe_schemaVersion = v, oe_eventId = e, oe_occurredAt = t, oe_payload = ms \<rparr>
      | _ \<Rightarrow> None)"

definition formatEnvelopeIssues :: "(string list \<times> string) list \<Rightarrow> string" where
  "formatEnvelopeIssues issues =
     join_with ''; ''
       (map (\<lambda>(path, message).
          (if join_with ''.'' path = [] then ''<root>'' else join_with ''.'' path) @ '': '' @ message) issues)"

section \<open>The publisher\<close>

definition serializePayload :: "domain_event \<Rightarrow> json" where
  "serializePayload e =
     JObj [(''schemaVersion'', json_nat OUTBOX_SCHEMA_VERSION), (''eventId'', JStr (de_eventId e)),
           (''occurredAt'', JStr (toISOString (de_occurredAt e))), (''payload'', JObj (de_payload e))]"

text \<open>The columns the statement leaves out take their defaults.\<close>

definition outbox_row_of :: "instant \<Rightarrow> id \<times> domain_event \<Rightarrow> outbox_row" where
  "outbox_row_of now ie =
     \<lparr> ob_id = fst ie, ob_organizationId = de_organizationId (snd ie), ob_eventType = de_eventType (snd ie),
       ob_aggregateId = de_aggregateId (snd ie), ob_payload = serializePayload (snd ie), ob_processedAt = None,
       ob_attempts = 0, ob_lastError = None, ob_createdAt = now, ob_nextAttemptAt = None \<rparr>"

definition publishAll :: "id list \<Rightarrow> instant \<Rightarrow> domain_event list \<Rightarrow> outbox_table \<Rightarrow> outbox_table" where
  "publishAll newIds now events rows =
     (if events = [] then rows else rows @ map (outbox_row_of now) (zip newIds events))"

section \<open>The bus\<close>

text \<open>The listeners of an event type all run, one after the other in the model; the publication fails with the
  first rejection, and also when there is no listener.\<close>

fun run_listeners ::
    "(domain_event \<Rightarrow> 's \<Rightarrow> unit outcome \<times> 's) list \<Rightarrow> domain_event \<Rightarrow> 's \<Rightarrow> unit outcome list \<times> 's" where
  "run_listeners [] e s = ([], s)"
| "run_listeners (l # ls) e s =
     (case l e s of (r, s') \<Rightarrow> (case run_listeners ls e s' of (rs, s'') \<Rightarrow> (r # rs, s'')))"

definition bus_publish ::
    "(string \<Rightarrow> (domain_event \<Rightarrow> 's \<Rightarrow> unit outcome \<times> 's) list) \<Rightarrow> domain_event \<Rightarrow> 's \<Rightarrow> unit outcome \<times> 's" where
  "bus_publish listeners e s =
     (case run_listeners (listeners (de_eventType e)) e s of
        (results, s') \<Rightarrow>
          (case concat (map (\<lambda>r. case r of Inl f \<Rightarrow> [f] | Inr _ \<Rightarrow> []) results) of
             f # _ \<Rightarrow> (Inl f, s')
           | [] \<Rightarrow>
               if results = []
               then (Inl (Internal (''No listener registered for domain event '' @ [CHR 0x22] @ de_eventType e @ [CHR 0x22])), s')
               else (Inr (), s')))"

fun bus_publishAll ::
    "(string \<Rightarrow> (domain_event \<Rightarrow> 's \<Rightarrow> unit outcome \<times> 's) list) \<Rightarrow> domain_event list \<Rightarrow> 's \<Rightarrow> unit outcome \<times> 's" where
  "bus_publishAll listeners [] s = (Inr (), s)"
| "bus_publishAll listeners (e # es) s =
     (case bus_publish listeners e s of (Inl f, s') \<Rightarrow> (Inl f, s') | (Inr _, s') \<Rightarrow> bus_publishAll listeners es s')"

section \<open>The relay\<close>

record relay_config =
  cf_batchSize :: nat
  cf_maxAttempts :: nat
  cf_retryBaseMs :: nat
  cf_retryMaxMs :: nat

definition backoff_ms :: "relay_config \<Rightarrow> nat \<Rightarrow> nat" where
  "backoff_ms cfg attempts = min (cf_retryBaseMs cfg * 2 ^ min attempts 30) (cf_retryMaxMs cfg)"

definition claimable :: "relay_config \<Rightarrow> instant \<Rightarrow> outbox_row \<Rightarrow> bool" where
  "claimable cfg now r \<longleftrightarrow>
     ob_processedAt r = None \<and> ob_attempts r < cf_maxAttempts cfg \<and>
     (case ob_nextAttemptAt r of None \<Rightarrow> True | Some t \<Rightarrow> t \<le> now)"

definition claim_row :: "relay_config \<Rightarrow> instant \<Rightarrow> outbox_row \<Rightarrow> outbox_row" where
  "claim_row cfg now r =
     r \<lparr> ob_attempts := ob_attempts r + 1, ob_nextAttemptAt := Some (now + int (backoff_ms cfg (ob_attempts r))) \<rparr>"

definition creation_order :: "outbox_row \<Rightarrow> int \<times> string" where
  "creation_order r = (ob_createdAt r, ob_id r)"

text \<open>The order of \<open>ORDER BY "createdAt", id\<close>, by insertion.\<close>

fun insert_row :: "outbox_row \<Rightarrow> outbox_row list \<Rightarrow> outbox_row list" where
  "insert_row r [] = [r]"
| "insert_row r (x # xs) =
     (if ob_createdAt r < ob_createdAt x \<or> ob_createdAt r = ob_createdAt x \<and> ob_id r \<le> ob_id x
      then r # x # xs else x # insert_row r xs)"

definition in_creation_order :: "outbox_row list \<Rightarrow> outbox_row list" where
  "in_creation_order rows = foldr insert_row rows []"

definition lockable :: "relay_config \<Rightarrow> (id \<Rightarrow> bool) \<Rightarrow> instant \<Rightarrow> outbox_table \<Rightarrow> outbox_row list" where
  "lockable cfg locked now rows =
     take (cf_batchSize cfg) (in_creation_order (filter (\<lambda>r. claimable cfg now r \<and> \<not> locked (ob_id r)) rows))"

definition claimBatch ::
    "relay_config \<Rightarrow> (outbox_row list \<Rightarrow> outbox_row list) \<Rightarrow> (id \<Rightarrow> bool) \<Rightarrow> instant \<Rightarrow> outbox_table
     \<Rightarrow> outbox_row list \<times> outbox_table" where
  "claimBatch cfg returned locked now rows =
     (let ids = map ob_id (lockable cfg locked now rows) in
      (returned (map (claim_row cfg now) (filter (\<lambda>r. ob_id r \<in> set ids) rows)),
       update_rows (\<lambda>r. ob_id r \<in> set ids) (claim_row cfg now) rows))"

text \<open>The three writes after a dispatch; an update of a missing row is an error of the client library.\<close>

definition MAX_OUTBOX_ERROR_MESSAGE_LENGTH :: nat where
  "MAX_OUTBOX_ERROR_MESSAGE_LENGTH = 2000"

definition markProcessed :: "id \<Rightarrow> instant \<Rightarrow> outbox_table \<Rightarrow> outbox_table" where
  "markProcessed i now rows =
     update_rows (\<lambda>r. ob_id r = i)
       (\<lambda>r. r \<lparr> ob_processedAt := Some now, ob_lastError := None, ob_nextAttemptAt := None \<rparr>) rows"

definition parkPermanently :: "relay_config \<Rightarrow> id \<Rightarrow> string \<Rightarrow> outbox_table \<Rightarrow> outbox_table" where
  "parkPermanently cfg i message rows =
     update_rows (\<lambda>r. ob_id r = i)
       (\<lambda>r. r \<lparr> ob_lastError := Some (take MAX_OUTBOX_ERROR_MESSAGE_LENGTH message),
                ob_attempts := cf_maxAttempts cfg \<rparr>) rows"

definition recordError :: "id \<Rightarrow> string \<Rightarrow> outbox_table \<Rightarrow> outbox_table" where
  "recordError i message rows =
     update_rows (\<lambda>r. ob_id r = i)
       (\<lambda>r. r \<lparr> ob_lastError := Some (take MAX_OUTBOX_ERROR_MESSAGE_LENGTH message) \<rparr>) rows"

text \<open>What a dispatch runs against: the bus, the clock, the writes that succeed, and the texts.\<close>

record relay_env =
  re_publish :: "domain_event \<Rightarrow> unit outcome"
  re_now :: instant
  re_write_ok :: "id \<Rightarrow> bool"
  re_date_parse :: "string \<Rightarrow> instant option"
  re_issues :: "json \<Rightarrow> (string list \<times> string) list"
  re_summary :: "failure \<Rightarrow> string"

record relay_state =
  rs_rows :: outbox_table
  rs_published :: "(id \<times> domain_event) list"

definition write_rows :: "relay_env \<Rightarrow> id \<Rightarrow> (outbox_table \<Rightarrow> outbox_table) \<Rightarrow> relay_state \<Rightarrow> relay_state" where
  "write_rows env i f s = (if re_write_ok env i then s \<lparr> rs_rows := f (rs_rows s) \<rparr> else s)"

definition event_of_row :: "outbox_row \<Rightarrow> outbox_envelope \<Rightarrow> domain_event" where
  "event_of_row row p =
     \<lparr> de_eventId = oe_eventId p, de_eventType = ob_eventType row, de_aggregateId = ob_aggregateId row,
       de_occurredAt = oe_occurredAt p, de_payload = oe_payload p, de_organizationId = ob_organizationId row \<rparr>"

definition dispatchOne :: "relay_config \<Rightarrow> relay_env \<Rightarrow> outbox_row \<Rightarrow> relay_state \<Rightarrow> bool \<times> relay_state" where
  "dispatchOne cfg env row s =
     (case parse_envelope (re_date_parse env) (ob_payload row) of
        None \<Rightarrow>
          (False, write_rows env (ob_id row)
             (parkPermanently cfg (ob_id row)
               (''Invalid outbox payload envelope - '' @ formatEnvelopeIssues (re_issues env (ob_payload row)))) s)
      | Some p \<Rightarrow>
          if OUTBOX_SCHEMA_VERSION < default_to 1 (oe_schemaVersion p)
          then (False, write_rows env (ob_id row)
                  (parkPermanently cfg (ob_id row)
                    (''Unsupported outbox schemaVersion='' @ decimal (default_to 1 (oe_schemaVersion p)) @
                     '' (relay supports up to '' @ decimal OUTBOX_SCHEMA_VERSION @ '') - producer/consumer deploy skew'')) s)
          else
            (case re_publish env (event_of_row row p) of
               Inl e \<Rightarrow>
                 if permanent_failure e
                 then (False, write_rows env (ob_id row) (parkPermanently cfg (ob_id row) (re_summary env e)) s)
                 else (False, write_rows env (ob_id row) (recordError (ob_id row) (re_summary env e)) s)
             | Inr _ \<Rightarrow>
                 (let s' = s \<lparr> rs_published := rs_published s @ [(ob_id row, event_of_row row p)] \<rparr> in
                  if re_write_ok env (ob_id row)
                  then (True, s' \<lparr> rs_rows := markProcessed (ob_id row) (re_now env) (rs_rows s') \<rparr>)
                  else (False, s'))))"

text \<open>The Map of the groups, in the order their first rows came.\<close>

definition by_aggregate :: "outbox_row list \<Rightarrow> (string \<times> outbox_row list) list" where
  "by_aggregate rows =
     foldl (\<lambda>m row. AList.update (ob_aggregateId row) (default_to [] (map_of m (ob_aggregateId row)) @ [row]) m) [] rows"

definition dispatch_rows :: "relay_config \<Rightarrow> relay_env \<Rightarrow> outbox_row list \<Rightarrow> nat \<times> relay_state \<Rightarrow> nat \<times> relay_state" where
  "dispatch_rows cfg env rows a =
     foldl (\<lambda>(n, s) row. case dispatchOne cfg env row s of (ok, s') \<Rightarrow> (if ok then n + 1 else n, s')) a rows"

text \<open>The pool works the groups off one after another in each of its workers; the groups are independent of
  each other, and the model takes them in order.\<close>

definition dispatchClaimed :: "relay_config \<Rightarrow> relay_env \<Rightarrow> outbox_row list \<Rightarrow> relay_state \<Rightarrow> nat \<times> relay_state" where
  "dispatchClaimed cfg env rows s = dispatch_rows cfg env (concat (map snd (by_aggregate rows))) (0, s)"

text \<open>\<open>leader\<close> is None without a leadership service; \<open>busy\<close> says that a tick is running or the relay was
  stopped.\<close>

definition relay_tick ::
    "relay_config \<Rightarrow> relay_env \<Rightarrow> (outbox_row list \<Rightarrow> outbox_row list) \<Rightarrow> (id \<Rightarrow> bool) \<Rightarrow> bool option \<Rightarrow> bool
     \<Rightarrow> relay_state \<Rightarrow> nat \<times> relay_state" where
  "relay_tick cfg env returned locked leader busy s =
     (if leader = Some False \<or> busy then (0, s)
      else
        (case claimBatch cfg returned locked (re_now env) (rs_rows s) of
           (claimed, rows') \<Rightarrow>
             if claimed = [] then (0, s \<lparr> rs_rows := rows' \<rparr>)
             else dispatchClaimed cfg env claimed (s \<lparr> rs_rows := rows' \<rparr>)))"

definition STUCK_CHECK_INTERVAL_MS :: int where
  "STUCK_CHECK_INTERVAL_MS = 60000"

text \<open>The rows the stuck check warns of, and when it looks.\<close>

definition stuck_rows :: "relay_config \<Rightarrow> outbox_table \<Rightarrow> nat" where
  "stuck_rows cfg rows = count_rows (\<lambda>r. cf_maxAttempts cfg \<le> ob_attempts r \<and> ob_processedAt r = None) rows"

definition stuck_check_due :: "instant option \<Rightarrow> instant \<Rightarrow> bool" where
  "stuck_check_due checkedAt now = (case checkedAt of None \<Rightarrow> True | Some t \<Rightarrow> \<not> now - t < STUCK_CHECK_INTERVAL_MS)"

section \<open>The purge tasks\<close>

text \<open>One batch deletes at most \<open>batch\<close> of the rows that match, in the statement's order; the loop stops at an
  empty batch.\<close>

definition purge_batch :: "('r list \<Rightarrow> 'r list) \<Rightarrow> ('r \<Rightarrow> bool) \<Rightarrow> nat \<Rightarrow> 'r list \<Rightarrow> nat \<times> 'r list" where
  "purge_batch order_by old batch rows =
     (let chosen = take batch (order_by (filter old rows)) in (length chosen, filter (\<lambda>r. r \<notin> set chosen) rows))"

fun purge_batches :: "('r list \<Rightarrow> 'r list) \<Rightarrow> ('r \<Rightarrow> bool) \<Rightarrow> nat \<Rightarrow> nat \<Rightarrow> 'r list \<Rightarrow> nat \<times> 'r list" where
  "purge_batches order_by old batch 0 rows = (0, rows)"
| "purge_batches order_by old batch (Suc n) rows =
     (case purge_batch order_by old batch rows of
        (k, rows') \<Rightarrow>
          if k = 0 then (0, rows')
          else (case purge_batches order_by old batch n rows' of (m, rows'') \<Rightarrow> (k + m, rows'')))"

definition days_ms :: "nat \<Rightarrow> int" where
  "days_ms d = int d * 86400000"

definition purgeOldOutboxEvents :: "bool \<Rightarrow> bool \<Rightarrow> nat \<Rightarrow> nat \<Rightarrow> nat \<Rightarrow> instant \<Rightarrow> outbox_table \<Rightarrow> outbox_table" where
  "purgeOldOutboxEvents leader running retentionDays batchSize maxBatches now rows =
     (if \<not> leader \<or> running then rows
      else snd (purge_batches id (\<lambda>r. ob_createdAt r < now - days_ms retentionDays \<and> ob_processedAt r \<noteq> None)
                  batchSize maxBatches rows))"

definition purgeParkedOutboxEvents ::
    "relay_config \<Rightarrow> bool \<Rightarrow> bool \<Rightarrow> nat \<Rightarrow> nat \<Rightarrow> nat \<Rightarrow> instant \<Rightarrow> outbox_table \<Rightarrow> outbox_table" where
  "purgeParkedOutboxEvents cfg leader running parkedRetentionDays batchSize maxBatches now rows =
     (if \<not> leader \<or> running then rows
      else snd (purge_batches (sort_key ob_createdAt)
                  (\<lambda>r. ob_processedAt r = None \<and> cf_maxAttempts cfg \<le> ob_attempts r \<and>
                       ob_createdAt r < now - days_ms parkedRetentionDays)
                  batchSize maxBatches rows))"


section \<open>Facts about rows and batches\<close>

lemma publish_ids: "length newIds = length events \<Longrightarrow> map ob_id (publishAll newIds now events rows) = map ob_id rows @ newIds"
  by (cases events) (simp_all add: publishAll_def outbox_row_of_def comp_def)

lemma claim_row_sel [simp]:
  "ob_id (claim_row cfg now r) = ob_id r" "ob_processedAt (claim_row cfg now r) = ob_processedAt r"
  "ob_attempts (claim_row cfg now r) = ob_attempts r + 1" "ob_payload (claim_row cfg now r) = ob_payload r"
  "ob_aggregateId (claim_row cfg now r) = ob_aggregateId r" "ob_eventType (claim_row cfg now r) = ob_eventType r"
  "ob_organizationId (claim_row cfg now r) = ob_organizationId r"
  by (simp_all add: claim_row_def)

lemma set_insert_row [simp]: "set (insert_row r xs) = insert r (set xs)"
  by (induction xs) auto

lemma mset_insert_row [simp]: "length (insert_row r xs) = Suc (length xs)"
  by (induction xs) auto

lemma set_in_creation_order [simp]: "set (in_creation_order rows) = set rows"
  by (induction rows) (auto simp: in_creation_order_def)

lemma lockable_claimable: "r \<in> set (lockable cfg locked now rows) \<Longrightarrow> r \<in> set rows \<and> claimable cfg now r \<and> \<not> locked (ob_id r)"
  by (auto simp: lockable_def dest: in_set_takeD)

lemma unique_row: "distinct (map ob_id rows) \<Longrightarrow> r \<in> set rows \<Longrightarrow> r' \<in> set rows \<Longrightarrow> ob_id r = ob_id r' \<Longrightarrow> r = r'"
  by (auto simp: distinct_map inj_on_def)

lemma locked_ids:
  assumes "distinct (map ob_id rows)" "r \<in> set rows"
  shows "ob_id r \<in> set (map ob_id (lockable cfg locked now rows)) \<longleftrightarrow> r \<in> set (lockable cfg locked now rows)"
proof
  assume "ob_id r \<in> set (map ob_id (lockable cfg locked now rows))"
  then obtain x where x: "x \<in> set (lockable cfg locked now rows)" "ob_id x = ob_id r" by auto
  then show "r \<in> set (lockable cfg locked now rows)"
    using unique_row[OF assms] lockable_claimable[OF x(1)] by metis
qed simp

text \<open>A claim bumps and returns exactly the locked rows.\<close>

lemma claimed_rows:
  assumes "claimBatch cfg returned locked now rows = (cl, rows')" "\<And>xs. mset (returned xs) = mset xs"
  shows "mset cl = mset (map (claim_row cfg now) (filter (\<lambda>r. ob_id r \<in> set (map ob_id (lockable cfg locked now rows))) rows))"
    and "rows' = update_rows (\<lambda>r. ob_id r \<in> set (map ob_id (lockable cfg locked now rows))) (claim_row cfg now) rows"
  using assms by (auto simp: claimBatch_def Let_def)

lemma mark_ids [simp]:
  "map ob_id (markProcessed i now rows) = map ob_id rows"
  "map ob_id (parkPermanently cfg i m rows) = map ob_id rows"
  "map ob_id (recordError i m rows) = map ob_id rows"
  by (simp_all add: markProcessed_def parkPermanently_def recordError_def)

text \<open>The shape of a dispatch: it publishes at most once, and writes to its own row only.\<close>

datatype row_write = NoWrite | Mark | Park string | Note string

definition apply_write :: "relay_config \<Rightarrow> instant \<Rightarrow> id \<Rightarrow> row_write \<Rightarrow> outbox_table \<Rightarrow> outbox_table" where
  "apply_write cfg now i w rows =
     (case w of NoWrite \<Rightarrow> rows | Mark \<Rightarrow> markProcessed i now rows | Park m \<Rightarrow> parkPermanently cfg i m rows
      | Note m \<Rightarrow> recordError i m rows)"

lemma dispatchOne_cases:
  "\<exists>w. rs_rows (snd (dispatchOne cfg env row s)) = apply_write cfg (re_now env) (ob_id row) w (rs_rows s) \<and>
     ((rs_published (snd (dispatchOne cfg env row s)) = rs_published s \<and> w \<noteq> Mark) \<or>
      (\<exists>e. rs_published (snd (dispatchOne cfg env row s)) = rs_published s @ [(ob_id row, e)] \<and>
           de_aggregateId e = ob_aggregateId row \<and> w \<in> {NoWrite, Mark}))"
proof -
  let ?P = "\<lambda>t. \<exists>w. rs_rows t = apply_write cfg (re_now env) (ob_id row) w (rs_rows s) \<and>
     ((rs_published t = rs_published s \<and> w \<noteq> Mark) \<or>
      (\<exists>e. rs_published t = rs_published s @ [(ob_id row, e)] \<and>
           de_aggregateId e = ob_aggregateId row \<and> w \<in> {NoWrite, Mark}))"
  have park: "?P (write_rows env (ob_id row) (parkPermanently cfg (ob_id row) m) s)" for m
    by (rule exI[of _ "if re_write_ok env (ob_id row) then Park m else NoWrite"])
      (simp add: write_rows_def apply_write_def)
  have noted: "?P (write_rows env (ob_id row) (recordError (ob_id row) m) s)" for m
    by (rule exI[of _ "if re_write_ok env (ob_id row) then Note m else NoWrite"])
      (simp add: write_rows_def apply_write_def)
  show ?thesis
  proof (cases "parse_envelope (re_date_parse env) (ob_payload row)")
    case None
    then show ?thesis by (simp only: dispatchOne_def option.case snd_conv park)
  next
    case (Some p)
    show ?thesis
    proof (cases "OUTBOX_SCHEMA_VERSION < default_to 1 (oe_schemaVersion p)")
      case True
      then show ?thesis by (simp only: dispatchOne_def Some option.case if_True snd_conv park)
    next
      case False
      show ?thesis
      proof (cases "re_publish env (event_of_row row p)")
        case (Inl e)
        show ?thesis
          by (cases "permanent_failure e")
            (simp_all only: dispatchOne_def Some option.case False Inl sum.case if_True if_False snd_conv park noted)
      next
        case (Inr u)
        have "?P (snd (dispatchOne cfg env row s))"
          by (rule exI[of _ "if re_write_ok env (ob_id row) then Mark else NoWrite"])
            (use Some False Inr in \<open>simp add: dispatchOne_def Let_def apply_write_def event_of_row_def\<close>)
        then show ?thesis .
      qed
    qed
  qed
qed


section \<open>Relays at work\<close>

text \<open>The outbox with any number of relays: the table, the claimed rows that no dispatch has taken up yet,
  and the log of publications. Each step is one transaction of the source: events are stored, a relay
  claims a batch, a claimed row is dispatched against some bus and database, a relay crashes and forgets a
  claimed row, a purge runs.\<close>

record relay_system =
  sy_rows :: outbox_table
  sy_claimed :: "outbox_row list"
  sy_log :: "(id \<times> domain_event) list"

inductive relay_step :: "relay_config \<Rightarrow> relay_system \<Rightarrow> relay_system \<Rightarrow> bool" for cfg where
  Store:
    "length newIds = length events \<Longrightarrow> distinct newIds \<Longrightarrow>
     set newIds \<inter> (ob_id ` set (sy_rows s) \<union> ob_id ` set (sy_claimed s) \<union> fst ` set (sy_log s)) = {} \<Longrightarrow>
     relay_step cfg s (s \<lparr> sy_rows := publishAll newIds now events (sy_rows s) \<rparr>)"
| Claim:
    "claimBatch cfg returned locked now (sy_rows s) = (cl, rows') \<Longrightarrow> (\<And>xs. mset (returned xs) = mset xs) \<Longrightarrow>
     relay_step cfg s (s \<lparr> sy_rows := rows', sy_claimed := sy_claimed s @ cl \<rparr>)"
| Dispatch:
    "row \<in> set (sy_claimed s) \<Longrightarrow>
     dispatchOne cfg env row \<lparr> rs_rows = sy_rows s, rs_published = sy_log s \<rparr> = (ok, t) \<Longrightarrow>
     relay_step cfg s (s \<lparr> sy_rows := rs_rows t, sy_claimed := remove1 row (sy_claimed s), sy_log := rs_published t \<rparr>)"
| Crash:
    "row \<in> set (sy_claimed s) \<Longrightarrow> relay_step cfg s (s \<lparr> sy_claimed := remove1 row (sy_claimed s) \<rparr>)"
| Purge_Old:
    "relay_step cfg s (s \<lparr> sy_rows := purgeOldOutboxEvents leader running days batch batches now (sy_rows s) \<rparr>)"
| Purge_Parked:
    "relay_step cfg s (s \<lparr> sy_rows := purgeParkedOutboxEvents cfg leader running days batch batches now (sy_rows s) \<rparr>)"

inductive_cases relay_stepE: "relay_step cfg s s'"

abbreviation publications :: "relay_system \<Rightarrow> id \<Rightarrow> nat" where
  "publications s i \<equiv> count_list (map fst (sy_log s)) i"

abbreviation claims :: "relay_system \<Rightarrow> id \<Rightarrow> nat" where
  "claims s i \<equiv> count_list (map ob_id (sy_claimed s)) i"

definition outbox_inv :: "relay_config \<Rightarrow> relay_system \<Rightarrow> bool" where
  "outbox_inv cfg s \<longleftrightarrow>
     distinct (map ob_id (sy_rows s)) \<and>
     (\<forall>r \<in> set (sy_rows s).
        publications s (ob_id r) + claims s (ob_id r) \<le> ob_attempts r \<and> ob_attempts r \<le> cf_maxAttempts cfg \<and>
        (ob_processedAt r \<noteq> None \<longrightarrow> 0 < publications s (ob_id r)))"

lemma outbox_invD:
  assumes "outbox_inv cfg s" "r \<in> set (sy_rows s)"
  shows "publications s (ob_id r) + claims s (ob_id r) \<le> ob_attempts r" "ob_attempts r \<le> cf_maxAttempts cfg"
    "ob_processedAt r \<noteq> None \<Longrightarrow> 0 < publications s (ob_id r)"
  using assms by (auto simp: outbox_inv_def)

lemma outbox_inv_subset:
  assumes "outbox_inv cfg s" "\<exists>P. rows' = filter P (sy_rows s)"
  shows "outbox_inv cfg (s \<lparr> sy_rows := rows' \<rparr>)"
  using assms by (auto simp: outbox_inv_def distinct_map_filter)

lemma purge_batches_filter: "\<exists>P. snd (purge_batches order_by old batch n rows) = filter P rows"
proof (induction n arbitrary: rows)
  case 0
  show ?case by (intro exI[of _ "\<lambda>r. True"]) simp
next
  case (Suc n)
  obtain k rows' where b: "purge_batch order_by old batch rows = (k, rows')" by (cases "purge_batch order_by old batch rows")
  then obtain Q where Q: "rows' = filter Q rows" by (auto simp: purge_batch_def Let_def)
  show ?case
  proof (cases "k = 0")
    case True
    then show ?thesis using b Q by auto
  next
    case False
    obtain P where P: "snd (purge_batches order_by old batch n rows') = filter P rows'" using Suc by blast
    have "snd (purge_batches order_by old batch (Suc n) rows) = snd (purge_batches order_by old batch n rows')"
      using b False by (simp split: prod.split)
    then show ?thesis using P Q by (auto simp: filter_filter)
  qed
qed

lemma inv_store:
  assumes "outbox_inv cfg s" "length newIds = length events" "distinct newIds"
    "set newIds \<inter> (ob_id ` set (sy_rows s) \<union> ob_id ` set (sy_claimed s) \<union> fst ` set (sy_log s)) = {}"
  shows "outbox_inv cfg (s \<lparr> sy_rows := publishAll newIds now events (sy_rows s) \<rparr>)"
proof -
  have ids: "distinct (map ob_id (publishAll newIds now events (sy_rows s)))"
    using assms by (auto simp: publish_ids outbox_inv_def)
  have new: "publications s (ob_id r) = 0 \<and> claims s (ob_id r) = 0 \<and> ob_attempts r = 0 \<and> ob_processedAt r = None"
    if r: "r \<in> set (publishAll newIds now events (sy_rows s))" "r \<notin> set (sy_rows s)" for r
  proof -
    obtain i e where ie: "(i, e) \<in> set (zip newIds events)" "r = outbox_row_of now (i, e)"
      using r by (auto simp: publishAll_def split: if_splits)
    then have "i \<in> set newIds" by (auto dest: set_zip_leftD)
    then have "i \<notin> fst ` set (sy_log s)" "i \<notin> ob_id ` set (sy_claimed s)" using assms(4) by auto
    then show ?thesis using ie(2) by (simp add: outbox_row_of_def count_list_0_iff)
  qed
  have "publications s (ob_id r) + claims s (ob_id r) \<le> ob_attempts r \<and> ob_attempts r \<le> cf_maxAttempts cfg \<and>
        (ob_processedAt r \<noteq> None \<longrightarrow> 0 < publications s (ob_id r))"
    if "r \<in> set (publishAll newIds now events (sy_rows s))" for r
    using new[OF that] outbox_invD[OF assms(1), of r] by (cases "r \<in> set (sy_rows s)") auto
  then show ?thesis using ids by (simp add: outbox_inv_def)
qed

lemma count_list_mset: "count_list xs x = count (mset xs) x"
  by (simp add: count_mset)

lemma inv_claim:
  assumes "outbox_inv cfg s" "claimBatch cfg returned locked now (sy_rows s) = (cl, rows')" "\<And>xs. mset (returned xs) = mset xs"
  shows "outbox_inv cfg (s \<lparr> sy_rows := rows', sy_claimed := sy_claimed s @ cl \<rparr>)"
proof -
  let ?ids = "set (map ob_id (lockable cfg locked now (sy_rows s)))"
  note cl = claimed_rows[OF assms(2,3)]
  have dist: "distinct (map ob_id (sy_rows s))" using assms(1) by (simp add: outbox_inv_def)
  have "mset (map ob_id cl) = mset (map ob_id (filter (\<lambda>r. ob_id r \<in> ?ids) (sy_rows s)))"
    using arg_cong[OF cl(1), of "image_mset ob_id"] by (simp add: multiset.map_comp comp_def del: set_map)
  then have count: "count_list (map ob_id cl) i = (if i \<in> ?ids then 1 else 0)" if "i \<in> ob_id ` set (sy_rows s)" for i
    using that distinct_map_filter[OF dist, of "\<lambda>r. ob_id r \<in> ?ids"]
    by (auto simp: count_list_mset distinct_count_atmost_1 simp del: mset_map mset_filter)
  have "publications s (ob_id r) + (claims s (ob_id r) + count_list (map ob_id cl) (ob_id r)) \<le> ob_attempts r \<and>
      ob_attempts r \<le> cf_maxAttempts cfg \<and> (ob_processedAt r \<noteq> None \<longrightarrow> 0 < publications s (ob_id r))"
    if "r \<in> set rows'" for r
    using that unfolding cl(2)
  proof (cases rule: in_update_rowsE)
    case (changed r0)
    then have "r0 \<in> set (lockable cfg locked now (sy_rows s))" using locked_ids[OF dist changed(1)] by blast
    then have "ob_attempts r0 < cf_maxAttempts cfg" by (auto simp: claimable_def dest: lockable_claimable)
    then show ?thesis using outbox_invD[OF assms(1) changed(1)] count[of "ob_id r0"] changed by simp
  next
    case kept
    then show ?thesis using outbox_invD[OF assms(1) kept(1)] count[of "ob_id r"] by simp
  qed
  moreover have "distinct (map ob_id rows')" using dist unfolding cl(2) by simp
  ultimately show ?thesis by (simp add: outbox_inv_def)
qed

lemma claims_remove1:
  assumes "row \<in> set xs"
  shows "count_list (map ob_id xs) i = count_list (map ob_id (remove1 row xs)) i + (if ob_id row = i then 1 else 0)"
  using assms by (induction xs) auto

lemma inv_forget:
  assumes "outbox_inv cfg s" "row \<in> set (sy_claimed s)"
  shows "outbox_inv cfg (s \<lparr> sy_claimed := remove1 row (sy_claimed s) \<rparr>)"
  using assms(1) claims_remove1[OF assms(2)] by (fastforce simp: outbox_inv_def)

lemma inv_dispatch:
  assumes "outbox_inv cfg s" "row \<in> set (sy_claimed s)"
    "dispatchOne cfg env row \<lparr> rs_rows = sy_rows s, rs_published = sy_log s \<rparr> = (ok, t)"
  shows "outbox_inv cfg (s \<lparr> sy_rows := rs_rows t, sy_claimed := remove1 row (sy_claimed s), sy_log := rs_published t \<rparr>)"
proof -
  obtain w where w: "rs_rows t = apply_write cfg (re_now env) (ob_id row) w (sy_rows s)"
      "(rs_published t = sy_log s \<and> w \<noteq> Mark) \<or>
       (\<exists>e. rs_published t = sy_log s @ [(ob_id row, e)] \<and> w \<in> {NoWrite, Mark})"
    using dispatchOne_cases[of cfg env row "\<lparr> rs_rows = sy_rows s, rs_published = sy_log s \<rparr>"] assms(3) by auto
  have log: "count_list (map fst (rs_published t)) i + count_list (map ob_id (remove1 row (sy_claimed s))) i
      \<le> publications s i + claims s i \<and> publications s i \<le> count_list (map fst (rs_published t)) i \<and>
      (w = Mark \<longrightarrow> 0 < count_list (map fst (rs_published t)) (ob_id row))" for i
    using w(2) claims_remove1[OF assms(2), of i] by auto
  have row: "\<exists>r0 \<in> set (sy_rows s). ob_id r = ob_id r0 \<and>
      (ob_attempts r = ob_attempts r0 \<or> ob_attempts r = cf_maxAttempts cfg) \<and>
      (ob_processedAt r = ob_processedAt r0 \<or> w = Mark \<and> ob_id r = ob_id row)" if "r \<in> set (rs_rows t)" for r
    using that unfolding w(1)
    by (cases w) (auto simp: apply_write_def markProcessed_def parkPermanently_def recordError_def
        elim!: in_update_rowsE intro: bexI[rotated])
  have "count_list (map fst (rs_published t)) (ob_id r) + count_list (map ob_id (remove1 row (sy_claimed s))) (ob_id r) \<le> ob_attempts r
      \<and> ob_attempts r \<le> cf_maxAttempts cfg \<and> (ob_processedAt r \<noteq> None \<longrightarrow> 0 < count_list (map fst (rs_published t)) (ob_id r))"
    if r: "r \<in> set (rs_rows t)" for r
  proof -
    obtain r0 where r0: "r0 \<in> set (sy_rows s)" "ob_id r = ob_id r0"
      "ob_attempts r = ob_attempts r0 \<or> ob_attempts r = cf_maxAttempts cfg"
      "ob_processedAt r = ob_processedAt r0 \<or> w = Mark \<and> ob_id r = ob_id row"
      using row[OF r] by blast
    note inv = outbox_invD[OF assms(1) r0(1)]
    have "ob_attempts r0 \<le> ob_attempts r \<and> ob_attempts r \<le> cf_maxAttempts cfg" using r0(3) inv(2) by auto
    moreover have "ob_processedAt r \<noteq> None \<longrightarrow> 0 < count_list (map fst (rs_published t)) (ob_id r)"
      using r0(2,4) inv(3) log[of "ob_id r"] by (metis less_le_trans)
    ultimately show ?thesis using log[of "ob_id r0"] inv(1) r0(2) by simp
  qed
  moreover have "distinct (map ob_id (rs_rows t))"
    using assms(1) by (cases w) (simp_all add: w(1) apply_write_def outbox_inv_def)
  ultimately show ?thesis by (simp add: outbox_inv_def)
qed

lemma outbox_inv_step: "relay_step cfg s s' \<Longrightarrow> outbox_inv cfg s \<Longrightarrow> outbox_inv cfg s'"
proof (induction rule: relay_step.induct)
  case (Claim s returned locked now cl rows')
  then show ?case by (intro inv_claim)
next
  case Purge_Old
  then show ?case using purge_batches_filter by (intro outbox_inv_subset) (auto simp: purgeOldOutboxEvents_def intro: exI[of _ "\<lambda>r. True"])
next
  case Purge_Parked
  then show ?case using purge_batches_filter by (intro outbox_inv_subset) (auto simp: purgeParkedOutboxEvents_def intro: exI[of _ "\<lambda>r. True"])
qed (blast intro: inv_store inv_dispatch inv_forget)+

lemma outbox_inv_run: "(relay_step cfg)\<^sup>*\<^sup>* s s' \<Longrightarrow> outbox_inv cfg s \<Longrightarrow> outbox_inv cfg s'"
  by (induction rule: rtranclp_induct) (auto intro: outbox_inv_step)

definition empty_outbox :: relay_system where
  "empty_outbox = \<lparr> sy_rows = [], sy_claimed = [], sy_log = [] \<rparr>"

text \<open>C15. However many relays work, crash and retry in whatever order, and whatever the bus and the
  database do: no event is published more often than the configured number of attempts, a row marked
  processed has been published, and no row exceeds its attempts or shares its id.\<close>

theorem outbox_delivery_invariant:
  assumes "(relay_step cfg)\<^sup>*\<^sup>* empty_outbox s" "r \<in> set (sy_rows s)"
  shows "publications s (ob_id r) \<le> ob_attempts r \<and> ob_attempts r \<le> cf_maxAttempts cfg \<and>
    (ob_processedAt r \<noteq> None \<longrightarrow> 0 < publications s (ob_id r)) \<and> distinct (map ob_id (sy_rows s))"
proof -
  have inv: "outbox_inv cfg s"
    using outbox_inv_run[OF assms(1)] by (simp add: outbox_inv_def empty_outbox_def)
  then show ?thesis using outbox_invD[OF inv assms(2)] by (auto simp: outbox_inv_def)
qed

definition example_event :: domain_event where
  "example_event =
     \<lparr> de_eventId = ''e1'', de_eventType = ''users.registered'', de_aggregateId = ''u1'',
       de_occurredAt = 1779160000123, de_payload = [(''email'', JStr ''a@b.c'')], de_organizationId = None \<rparr>"

definition example_relay :: relay_config where
  "example_relay = \<lparr> cf_batchSize = 50, cf_maxAttempts = 10, cf_retryBaseMs = 2000, cf_retryMaxMs = 300000 \<rparr>"

definition example_env :: relay_env where
  "example_env =
     \<lparr> re_publish = \<lambda>e. Inr (), re_now = 9, re_write_ok = \<lambda>i. True, re_date_parse = parse_iso,
       re_issues = \<lambda>j. [], re_summary = \<lambda>f. ''Error'' \<rparr>"

theorem outbox_delivery_invariant_witness:
  "\<exists>r s. r \<in> set (sy_rows s) \<and> ob_attempts r = 1 \<and> publications s (ob_id r) \<le> 1"
proof -
  let ?s1 = "empty_outbox \<lparr> sy_rows := publishAll [''i1''] 5 [example_event] [] \<rparr>"
  obtain cl rows' where c: "claimBatch example_relay (\<lambda>xs. xs) (\<lambda>i. False) 6 (sy_rows ?s1) = (cl, rows')" by fastforce
  let ?s2 = "?s1 \<lparr> sy_rows := rows', sy_claimed := sy_claimed ?s1 @ cl \<rparr>"
  have "relay_step example_relay empty_outbox
      (empty_outbox \<lparr> sy_rows := publishAll [''i1''] 5 [example_event] (sy_rows empty_outbox) \<rparr>)"
    by (rule relay_step.Store) (simp_all add: empty_outbox_def)
  then have "relay_step example_relay empty_outbox ?s1" by (simp add: empty_outbox_def)
  moreover have "relay_step example_relay ?s1 ?s2" using c by (rule relay_step.Claim) simp
  ultimately have run: "(relay_step example_relay)\<^sup>*\<^sup>* empty_outbox ?s2"
    by (meson converse_rtranclp_into_rtranclp rtranclp.rtrancl_refl)
  have "rows' = snd (claimBatch example_relay (\<lambda>xs. xs) (\<lambda>i. False) 6 (publishAll [''i1''] 5 [example_event] []))"
    using c by simp
  moreover have "(case snd (claimBatch example_relay (\<lambda>xs. xs) (\<lambda>i. False) 6 (publishAll [''i1''] 5 [example_event] [])) of
      [r] \<Rightarrow> ob_attempts r = 1 | _ \<Rightarrow> False)"
    by (simp add: publishAll_def claimBatch_def lockable_def in_creation_order_def outbox_row_of_def claimable_def
        example_relay_def update_rows_def Let_def)
  ultimately obtain r where "r \<in> set (sy_rows ?s2)" "ob_attempts r = 1" by (auto split: list.splits)
  then show ?thesis using outbox_delivery_invariant[OF run, of r] by metis
qed


section \<open>One tick\<close>

lemma envelope_roundtrip:
  assumes "de_eventId e \<noteq> []" "date_parse (toISOString (de_occurredAt e)) = Some (de_occurredAt e)"
  shows "parse_envelope date_parse (serializePayload e) =
    Some \<lparr> oe_schemaVersion = Some 1, oe_eventId = de_eventId e, oe_occurredAt = de_occurredAt e, oe_payload = de_payload e \<rparr>"
  using assms
  by (simp add: parse_envelope_def serializePayload_def json_member_def envelope_version_def OUTBOX_SCHEMA_VERSION_def
      nonempty_text_of_def)

abbreviation of_aggregate :: "string \<Rightarrow> outbox_row \<Rightarrow> bool" where
  "of_aggregate a r \<equiv> ob_aggregateId r = a"

lemma by_aggregate_snoc:
  "by_aggregate (rows @ [r]) =
     AList.update (ob_aggregateId r) (default_to [] (map_of (by_aggregate rows) (ob_aggregateId r)) @ [r]) (by_aggregate rows)"
  by (simp add: by_aggregate_def)

lemma mset_group_update:
  "mset (concat (map snd (AList.update k (default_to [] (map_of m k) @ [x]) m))) = mset (concat (map snd m)) + {#x#}"
proof (induction m)
  case (Cons p m)
  then show ?case by (cases p) (auto simp: ac_simps)
qed simp

lemma by_aggregate_groups:
  "distinct (map fst (by_aggregate rows)) \<and>
   list_all (\<lambda>(k, g). list_all (of_aggregate k) g) (by_aggregate rows) \<and>
   default_to [] (map_of (by_aggregate rows) a) = filter (of_aggregate a) rows \<and>
   mset (concat (map snd (by_aggregate rows))) = mset rows"
proof (induction rows rule: rev_induct)
  case Nil
  show ?case by (simp add: by_aggregate_def)
next
  case (snoc r rows)
  let ?m = "by_aggregate rows" and ?k = "ob_aggregateId r"
  have groups: "list_all (of_aggregate ?k) (default_to [] (map_of ?m ?k))"
    using snoc by (auto simp: default_to_def list_all_iff split: option.split dest!: map_of_SomeD)
  have keep: "list_all (\<lambda>(k, g). list_all (of_aggregate k) g) m \<Longrightarrow> list_all (of_aggregate k) g \<Longrightarrow>
      list_all (\<lambda>(k, g). list_all (of_aggregate k) g) (AList.update k g m)" for k g m
    by (induction m) auto
  have "default_to [] (map_of (by_aggregate (rows @ [r])) a) = filter (of_aggregate a) (rows @ [r])"
  proof (cases "a = ?k")
    case True
    have "default_to [] (map_of ?m ?k) = filter (of_aggregate ?k) rows" using snoc True by simp
    then show ?thesis using True by (simp add: by_aggregate_snoc)
  next
    case False
    then show ?thesis using snoc by (simp add: by_aggregate_snoc)
  qed
  then show ?case
    using snoc groups keep[of ?m ?k "default_to [] (map_of ?m ?k) @ [r]"]
    by (simp add: by_aggregate_snoc distinct_update mset_group_update)
qed

lemma filter_groups:
  assumes "distinct (map fst m)" "list_all (\<lambda>(k, g). list_all (of_aggregate k) g) m"
  shows "filter (of_aggregate a) (concat (map snd m)) = default_to [] (map_of m a)"
  using assms
proof (induction m)
  case (Cons p m)
  obtain k g where p: "p = (k, g)" by (cases p)
  have tail: "filter (of_aggregate a) (concat (map snd m)) = default_to [] (map_of m a)" using Cons by simp
  show ?case
  proof (cases "a = k")
    case True
    have "map_of m a = None" using Cons.prems(1) True p by (simp add: map_of_eq_None_iff)
    moreover have "filter (of_aggregate a) g = g" using Cons.prems(2) True p by (intro filter_True) (auto simp: list_all_iff)
    ultimately show ?thesis using tail True p by simp
  next
    case False
    then have "filter (of_aggregate a) g = []" using Cons.prems(2) p by (auto simp: filter_empty_conv list_all_iff)
    then show ?thesis using tail False p by simp
  qed
qed simp

lemma dispatch_order:
  "filter (of_aggregate a) (concat (map snd (by_aggregate rows))) = filter (of_aggregate a) rows"
  using by_aggregate_groups[of rows a] filter_groups[of "by_aggregate rows" a] by simp

lemma dispatch_rows_simps [simp]:
  "dispatch_rows cfg env [] a = a"
  "dispatch_rows cfg env (row # rows) (n, s) =
     dispatch_rows cfg env rows (if fst (dispatchOne cfg env row s) then n + 1 else n, snd (dispatchOne cfg env row s))"
  by (simp_all add: dispatch_rows_def split: prod.split)

lemma dispatch_rows_append: "dispatch_rows cfg env (xs @ ys) a = dispatch_rows cfg env ys (dispatch_rows cfg env xs a)"
  by (simp add: dispatch_rows_def)

abbreviation row_of :: "id \<Rightarrow> outbox_table \<Rightarrow> outbox_row list" where
  "row_of i rows \<equiv> filter (\<lambda>r. ob_id r = i) rows"

lemma row_of_update:
  "row_of i (update_rows (\<lambda>r. ob_id r = j) f rows) = (if i = j then map f (row_of i rows) else row_of i rows)"
  if "\<And>r. ob_id (f r) = ob_id r"
  using that by (induction rows) (auto simp: update_rows_def)

lemma row_of_unique: "distinct (map ob_id rows) \<Longrightarrow> row \<in> set rows \<Longrightarrow> row_of (ob_id row) rows = [row]"
  by (induction rows) (auto simp: filter_empty_conv image_iff)

lemma row_of_write: "i \<noteq> j \<Longrightarrow> row_of i (apply_write cfg now j w rows) = row_of i rows"
  by (cases w) (simp_all add: apply_write_def markProcessed_def parkPermanently_def recordError_def row_of_update)

lemma dispatch_rows_log:
  "\<exists>new. rs_published (snd (dispatch_rows cfg env xs (n, s))) = rs_published s @ new \<and>
     subseq (map (\<lambda>(i, e). (i, de_aggregateId e)) new) (map (\<lambda>r. (ob_id r, ob_aggregateId r)) xs)"
proof (induction xs arbitrary: n s)
  case (Cons x xs)
  let ?t = "snd (dispatchOne cfg env x s)"
  obtain new where new: "rs_published (snd (dispatch_rows cfg env (x # xs) (n, s))) = rs_published ?t @ new"
      "subseq (map (\<lambda>(i, e). (i, de_aggregateId e)) new) (map (\<lambda>r. (ob_id r, ob_aggregateId r)) xs)"
    using Cons[of _ ?t] by fastforce
  consider "rs_published ?t = rs_published s" | e where "rs_published ?t = rs_published s @ [(ob_id x, e)]" "de_aggregateId e = ob_aggregateId x"
    using dispatchOne_cases[of cfg env x s] by blast
  then show ?case
  proof cases
    case 1
    then show ?thesis using new by (intro exI[of _ new]) (auto intro: list_emb_Cons)
  next
    case (2 e)
    then show ?thesis using new by (intro exI[of _ "(ob_id x, e) # new"]) auto
  qed
qed simp

lemma dispatch_rows_other:
  "i \<notin> ob_id ` set xs \<Longrightarrow> row_of i (rs_rows (snd (dispatch_rows cfg env xs (n, s)))) = row_of i (rs_rows s)"
proof (induction xs arbitrary: n s)
  case (Cons x xs)
  obtain w where "rs_rows (snd (dispatchOne cfg env x s)) = apply_write cfg (re_now env) (ob_id x) w (rs_rows s)"
    using dispatchOne_cases by blast
  then show ?case using Cons row_of_write[of i "ob_id x"] by simp
qed simp

text \<open>Events of one aggregate are published in the order they were claimed, however the batch is spread
  over the pool; every claimed row is dispatched exactly once in the tick, and only claimed rows are
  published.\<close>

theorem aggregate_order_kept:
  "\<exists>new. rs_published (snd (dispatchClaimed cfg env rows s)) = rs_published s @ new \<and>
     subseq (map fst (filter (\<lambda>(i, e). de_aggregateId e = a) new)) (map ob_id (filter (\<lambda>r. ob_aggregateId r = a) rows)) \<and>
     mset (concat (map snd (by_aggregate rows))) = mset rows"
proof -
  let ?xs = "concat (map snd (by_aggregate rows))"
  obtain new where new: "rs_published (snd (dispatchClaimed cfg env rows s)) = rs_published s @ new"
      "subseq (map (\<lambda>(i, e). (i, de_aggregateId e)) new) (map (\<lambda>r. (ob_id r, ob_aggregateId r)) ?xs)"
    using dispatch_rows_log[of cfg env ?xs 0 s] by (auto simp: dispatchClaimed_def)
  have "subseq (map fst (filter (\<lambda>p. snd p = a) (map (\<lambda>(i, e). (i, de_aggregateId e)) new)))
      (map fst (filter (\<lambda>p. snd p = a) (map (\<lambda>r. (ob_id r, ob_aggregateId r)) ?xs)))"
    using new(2) by (intro subseq_map subseq_filter)
  then have "subseq (map fst (filter (\<lambda>(i, e). de_aggregateId e = a) new)) (map ob_id (filter (of_aggregate a) ?xs))"
    by (simp add: filter_map comp_def split_def)
  then show ?thesis using new(1) by_aggregate_groups[of rows a] by (intro exI[of _ new]) (simp add: dispatch_order)
qed

text \<open>C16. A stored event arrives: when a relay ticks, every event whose row is among the first claimable
  ones is handed to the bus as it was published, with the same ids, time, payload and tenant, and if its
  listeners accept it and the database is up its row is processed and never claimed again.\<close>

theorem stored_event_delivered:
  assumes "row = outbox_row_of t0 (i, e) \<lparr> ob_attempts := n, ob_nextAttemptAt := due, ob_lastError := err \<rparr>"
    "row \<in> set (lockable cfg locked (re_now env) (rs_rows s))" "distinct (map ob_id (rs_rows s))"
    "\<And>xs. mset (returned xs) = mset xs" "leader \<noteq> Some False" "\<not> busy"
    "de_eventId e \<noteq> []" "re_date_parse env (toISOString (de_occurredAt e)) = Some (de_occurredAt e)"
    "re_publish env e = Inr ()" "re_write_ok env i"
  shows "(i, e) \<in> set (rs_published (snd (relay_tick cfg env returned locked leader busy s))) \<and>
    list_all (\<lambda>r. ob_processedAt r = Some (re_now env) \<and> \<not> claimable cfg t r)
      (row_of i (rs_rows (snd (relay_tick cfg env returned locked leader busy s)))) \<and>
    length (row_of i (rs_rows (snd (relay_tick cfg env returned locked leader busy s)))) = 1"
proof -
  let ?now = "re_now env"
  obtain cl rows' where c: "claimBatch cfg returned locked ?now (rs_rows s) = (cl, rows')" by fastforce
  note cl = claimed_rows[OF c assms(4)]
  let ?ids = "set (map ob_id (lockable cfg locked ?now (rs_rows s)))"
  let ?x = "claim_row cfg ?now row"
  let ?xs = "concat (map snd (by_aggregate cl))"
  have row: "ob_id row = i" "row \<in> set (rs_rows s)" using assms(1,2) lockable_claimable by (auto simp: outbox_row_of_def)
  have rows': "row_of i rows' = [?x]"
  proof -
    have "row_of i (rs_rows s) = [row]"
      using row_of_unique[OF assms(3) row(2)] row(1) by simp
    moreover have "i \<in> ?ids" using assms(2) row(1) by auto
    moreover have "row_of i (update_rows P f xs) = map (\<lambda>r. if P r then f r else r) (row_of i xs)"
      if "\<And>r. ob_id (f r) = ob_id r" for P f xs
      using that by (induction xs) (auto simp: update_rows_def)
    ultimately show ?thesis unfolding cl(2) using row(1) by simp
  qed
  have "mset ?xs = mset cl" using by_aggregate_groups by blast
  then have perm: "mset ?xs = mset (map (claim_row cfg ?now) (filter (\<lambda>r. ob_id r \<in> ?ids) (rs_rows s)))"
    using cl(1) by simp
  have "?x \<in># mset (map (claim_row cfg ?now) (filter (\<lambda>r. ob_id r \<in> ?ids) (rs_rows s)))"
    using assms(2) row by auto
  then have "?x \<in> set ?xs" using perm by (metis set_mset_mset)
  then obtain as bs where split: "?xs = as @ ?x # bs" using split_list by metis
  have "mset (map ob_id ?xs) = mset (map ob_id (filter (\<lambda>r. ob_id r \<in> ?ids) (rs_rows s)))"
    using arg_cong[OF perm, of "image_mset ob_id"] by (simp add: multiset.map_comp comp_def del: set_map)
  then have "distinct (map ob_id ?xs)" using distinct_map_filter[OF assms(3)] by (metis mset_eq_imp_distinct_iff)
  then have fresh: "i \<notin> ob_id ` set as" "i \<notin> ob_id ` set bs" using split row(1) by auto
  have tick: "relay_tick cfg env returned locked leader busy s = dispatch_rows cfg env ?xs (0, s \<lparr> rs_rows := rows' \<rparr>)"
    using assms(5,6) c \<open>?x \<in> set ?xs\<close> by (auto simp: relay_tick_def dispatchClaimed_def by_aggregate_def split: if_splits)
  obtain m u where u: "dispatch_rows cfg env as (0, s \<lparr> rs_rows := rows' \<rparr>) = (m, u)" by fastforce
  have before: "row_of i (rs_rows u) = [?x]"
    using dispatch_rows_other[OF fresh(1), of cfg env 0 "s \<lparr> rs_rows := rows' \<rparr>"] u rows' by simp
  have ev: "event_of_row ?x \<lparr> oe_schemaVersion = Some 1, oe_eventId = de_eventId e, oe_occurredAt = de_occurredAt e, oe_payload = de_payload e \<rparr> = e"
    by (simp add: event_of_row_def assms(1) outbox_row_of_def)
  have "ob_payload ?x = serializePayload e" using assms(1) by (simp add: outbox_row_of_def)
  then have "dispatchOne cfg env ?x u = (True, u \<lparr> rs_published := rs_published u @ [(i, e)], rs_rows := markProcessed i ?now (rs_rows u) \<rparr>)"
    using assms(7-10) row(1) ev
    by (simp add: dispatchOne_def envelope_roundtrip OUTBOX_SCHEMA_VERSION_def Let_def)
  then have after: "snd (dispatch_rows cfg env ?xs (0, s \<lparr> rs_rows := rows' \<rparr>))
      = snd (dispatch_rows cfg env bs (m + 1, u \<lparr> rs_published := rs_published u @ [(i, e)], rs_rows := markProcessed i ?now (rs_rows u) \<rparr>))"
    by (simp add: split dispatch_rows_append u)
  have log: "(i, e) \<in> set (rs_published (snd (relay_tick cfg env returned locked leader busy s)))"
    using dispatch_rows_log[of cfg env bs "m + 1" "u \<lparr> rs_published := rs_published u @ [(i, e)], rs_rows := markProcessed i ?now (rs_rows u) \<rparr>"]
    by (auto simp: tick after)
  have "row_of i (rs_rows (snd (relay_tick cfg env returned locked leader busy s)))
      = [?x \<lparr> ob_processedAt := Some ?now, ob_lastError := None, ob_nextAttemptAt := None \<rparr>]"
    by (simp add: tick after dispatch_rows_other[OF fresh(2)] markProcessed_def row_of_update before)
  then show ?thesis using log by (simp add: claimable_def)
qed

theorem stored_event_delivered_witness:
  "(''i1'', example_event) \<in> set (rs_published (snd (relay_tick example_relay example_env rev (\<lambda>i. False) None False
     \<lparr> rs_rows = publishAll [''i1''] 5 [example_event] [], rs_published = [] \<rparr>)))"
proof (rule conjunct1[OF stored_event_delivered])
  show "outbox_row_of 5 (''i1'', example_event)
      = outbox_row_of 5 (''i1'', example_event) \<lparr> ob_attempts := 0, ob_nextAttemptAt := None, ob_lastError := None \<rparr>"
    by (simp add: outbox_row_of_def)
  show "outbox_row_of 5 (''i1'', example_event) \<in> set (lockable example_relay (\<lambda>i. False) (re_now example_env)
      (rs_rows \<lparr> rs_rows = publishAll [''i1''] 5 [example_event] [], rs_published = [] \<rparr>))"
    by (simp add: lockable_def in_creation_order_def publishAll_def outbox_row_of_def claimable_def example_relay_def)
  show "re_date_parse example_env (toISOString (de_occurredAt example_event)) = Some (de_occurredAt example_event)"
  proof -
    have "0 \<le> year_from_day (1779160000123 div ms_per_day) \<and> year_from_day (1779160000123 div ms_per_day) \<le> 9999"
      by code_simp
    then show ?thesis using parse_toISOString[of 1779160000123] by (simp add: example_env_def example_event_def)
  qed
qed (simp_all add: example_env_def example_event_def publishAll_def)


text \<open>Retries follow the schedule: a row claimed at its a-th previous attempt is claimable again exactly
  when attempts remain and min(base * 2^a, max) milliseconds have passed; the delays never shrink from one
  attempt to the next and never exceed the maximum; and a parked row is never claimed again.\<close>

theorem retry_schedule:
  assumes "claimable cfg now r"
  shows "(claimable cfg t (claim_row cfg now r) \<longleftrightarrow>
       ob_attempts r + 1 < cf_maxAttempts cfg \<and> now + int (backoff_ms cfg (ob_attempts r)) \<le> t) \<and>
    backoff_ms cfg a \<le> backoff_ms cfg (a + 1) \<and> backoff_ms cfg a \<le> cf_retryMaxMs cfg \<and>
    list_all (\<lambda>x. ob_id x = i \<longrightarrow> \<not> claimable cfg t x) (parkPermanently cfg i m rows)"
proof (intro conjI)
  show "claimable cfg t (claim_row cfg now r) \<longleftrightarrow>
       ob_attempts r + 1 < cf_maxAttempts cfg \<and> now + int (backoff_ms cfg (ob_attempts r)) \<le> t"
    using assms by (auto simp: claimable_def claim_row_def)
  have "(2 :: nat) ^ min a 30 \<le> 2 ^ min (a + 1) 30" by (intro power_increasing) auto
  then have "cf_retryBaseMs cfg * 2 ^ min a 30 \<le> cf_retryBaseMs cfg * 2 ^ min (a + 1) 30" by (intro mult_le_mono2)
  then show "backoff_ms cfg a \<le> backoff_ms cfg (a + 1)" unfolding backoff_ms_def by (intro min.mono order_refl)
  show "backoff_ms cfg a \<le> cf_retryMaxMs cfg" by (simp add: backoff_ms_def)
  show "list_all (\<lambda>x. ob_id x = i \<longrightarrow> \<not> claimable cfg t x) (parkPermanently cfg i m rows)"
    by (induction rows) (simp_all add: parkPermanently_def claimable_def update_rows_def)
qed

theorem retry_schedule_witness:
  "claimable example_relay 2005 (claim_row example_relay 5 (outbox_row_of 5 (''i1'', example_event)))"
proof -
  have c: "claimable example_relay 5 (outbox_row_of 5 (''i1'', example_event))"
    by (simp add: claimable_def outbox_row_of_def example_relay_def)
  show ?thesis
    using conjunct1[OF retry_schedule[OF c, of 2005 0 "''i''" "[]" "[]"]]
    by (simp add: outbox_row_of_def example_relay_def backoff_ms_def)
qed

lemma purge_batch_effect:
  assumes "distinct rows" "\<And>xs. mset (order_by xs) = mset xs" "purge_batch order_by old batch rows = (k, rows')"
  shows "k = min batch (length (filter old rows))" "distinct rows'"
    "length (filter old rows') = length (filter old rows) - k" "filter (\<lambda>r. \<not> old r) rows' = filter (\<lambda>r. \<not> old r) rows"
proof -
  let ?m = "order_by (filter old rows)"
  have m: "length ?m = length (filter old rows)" "set ?m = set (filter old rows)" "distinct ?m"
    using assms(2)[of "filter old rows"] assms(1) by (metis mset_eq_length, metis set_mset_mset, metis distinct_filter mset_eq_imp_distinct_iff)
  let ?c = "take batch ?m"
  have k: "k = length ?c" and rows': "rows' = filter (\<lambda>r. r \<notin> set ?c) rows"
    using assms(3) by (auto simp: purge_batch_def Let_def)
  show "k = min batch (length (filter old rows))" using k m(1) by simp
  show "distinct rows'" using rows' assms(1) by simp
  have sub: "set ?c \<subseteq> set (filter old rows)" using m(2) set_take_subset by metis
  show "filter (\<lambda>r. \<not> old r) rows' = filter (\<lambda>r. \<not> old r) rows"
    unfolding rows' filter_filter using sub by (intro filter_cong) auto
  have "set (filter old rows') = set (filter old rows) - set ?c" using rows' by auto
  moreover have "length (filter old rows') = card (set (filter old rows'))"
    using \<open>distinct rows'\<close> by (metis distinct_card distinct_filter)
  moreover have "card (set (filter old rows)) = length (filter old rows)"
    using assms(1) by (simp only: distinct_card distinct_filter)
  moreover have "card (set ?c) = k" using k m(3) by (simp add: distinct_card)
  ultimately show "length (filter old rows') = length (filter old rows) - k"
    using sub by (simp only: card_Diff_subset finite_set)
qed

lemma purge_batches_effect:
  assumes "distinct rows" "\<And>xs. mset (order_by xs) = mset xs" "0 < batch"
    "purge_batches order_by old batch n rows = (k, rows')"
  shows "k = min (batch * n) (length (filter old rows)) \<and>
    length (filter old rows') = length (filter old rows) - k \<and> filter (\<lambda>r. \<not> old r) rows' = filter (\<lambda>r. \<not> old r) rows"
  using assms(1,4)
proof (induction n arbitrary: rows k rows')
  case (Suc n)
  obtain j rows1 where b: "purge_batch order_by old batch rows = (j, rows1)" by fastforce
  note eff = purge_batch_effect[OF Suc.prems(1) assms(2) b]
  show ?case
  proof (cases "j = 0")
    case True
    then have "length (filter old rows) = 0" using eff(1) assms(3) by (simp add: min_def split: if_splits)
    then show ?thesis using Suc.prems(2) b True eff by simp
  next
    case False
    obtain m rows2 where r: "purge_batches order_by old batch n rows1 = (m, rows2)" by fastforce
    have k: "k = j + m" "rows' = rows2" using Suc.prems(2) b r False by simp_all
    note ih = Suc.IH[OF eff(2) r]
    have "(min b l :: nat) + min bn (l - min b l) = min (b + bn) l" for b bn l by arith
    then have "k = min (batch * Suc n) (length (filter old rows))"
      using ih k eff(1,3) by (metis mult_Suc_right)
    then show ?thesis using ih eff(3,4) k by simp
  qed
qed simp

text \<open>C17. A purge is bounded and exact: it removes rows that match only, the number of batches times the
  batch size of them or all there are, whichever is less; so with enough batches none is left, and the
  loop ends. For the outbox this means that an event still to be delivered is never purged.\<close>

theorem purge_bounded:
  assumes "distinct rows" "0 < batch"
  shows "fst (purge_batches (sort_key ob_createdAt) old batch n rows) = min (batch * n) (length (filter old rows)) \<and>
    length (filter old (snd (purge_batches (sort_key ob_createdAt) old batch n rows)))
      = length (filter old rows) - batch * n \<and>
    filter (\<lambda>r. ob_processedAt r = None \<and> ob_attempts r < cf_maxAttempts cfg)
        (purgeParkedOutboxEvents cfg leader running days batch n now (purgeOldOutboxEvents leader running days' batch n now rows))
      = filter (\<lambda>r. ob_processedAt r = None \<and> ob_attempts r < cf_maxAttempts cfg) rows"
proof -
  have eff: "fst (purge_batches (sort_key ob_createdAt) old batch n rows) = min (batch * n) (length (filter old rows)) \<and>
    length (filter old (snd (purge_batches (sort_key ob_createdAt) old batch n rows)))
      = length (filter old rows) - fst (purge_batches (sort_key ob_createdAt) old batch n rows)"
    using purge_batches_effect[OF assms(1), of "sort_key ob_createdAt" batch old n] assms(2)
    by (cases "purge_batches (sort_key ob_createdAt) old batch n rows") simp
  let ?live = "\<lambda>r. ob_processedAt r = None \<and> ob_attempts r < cf_maxAttempts cfg"
  have narrow: "filter (\<lambda>r. \<not> P r) ys = filter (\<lambda>r. \<not> P r) xs \<Longrightarrow> (\<And>r. Q r \<Longrightarrow> \<not> P r) \<Longrightarrow> filter Q ys = filter Q xs"
    for P Q and xs ys :: outbox_table
  proof -
    assume eq: "filter (\<lambda>r. \<not> P r) ys = filter (\<lambda>r. \<not> P r) xs" and q: "\<And>r. Q r \<Longrightarrow> \<not> P r"
    have "filter Q zs = filter Q (filter (\<lambda>r. \<not> P r) zs)" for zs using q by (induction zs) auto
    then show "filter Q ys = filter Q xs" using eq by metis
  qed
  have old: "filter ?live (purgeOldOutboxEvents leader running days' batch n now rows) = filter ?live rows"
    "distinct (purgeOldOutboxEvents leader running days' batch n now rows)"
  proof -
    let ?P = "\<lambda>r. ob_createdAt r < now - days_ms days' \<and> ob_processedAt r \<noteq> None"
    obtain k rows1 where b: "purge_batches id ?P batch n rows = (k, rows1)" by fastforce
    have "filter (\<lambda>r. \<not> ?P r) rows1 = filter (\<lambda>r. \<not> ?P r) rows"
      using purge_batches_effect[OF assms(1) _ assms(2) b] by simp
    then have "filter ?live rows1 = filter ?live rows" by (rule narrow) auto
    then show "filter ?live (purgeOldOutboxEvents leader running days' batch n now rows) = filter ?live rows"
      using b by (simp add: purgeOldOutboxEvents_def)
    obtain Q where "rows1 = filter Q rows" using purge_batches_filter[of id ?P batch n rows] b by auto
    then show "distinct (purgeOldOutboxEvents leader running days' batch n now rows)"
      using b assms(1) by (simp add: purgeOldOutboxEvents_def)
  qed
  let ?rows = "purgeOldOutboxEvents leader running days' batch n now rows"
  let ?P = "\<lambda>r. ob_processedAt r = None \<and> cf_maxAttempts cfg \<le> ob_attempts r \<and> ob_createdAt r < now - days_ms days"
  obtain k rows1 where b: "purge_batches (sort_key ob_createdAt) ?P batch n ?rows = (k, rows1)" by fastforce
  have "filter (\<lambda>r. \<not> ?P r) rows1 = filter (\<lambda>r. \<not> ?P r) ?rows"
    using purge_batches_effect[OF old(2) _ assms(2) b] by simp
  then have "filter ?live rows1 = filter ?live ?rows" by (rule narrow) auto
  then have "filter ?live (purgeParkedOutboxEvents cfg leader running days batch n now ?rows) = filter ?live rows"
    unfolding purgeParkedOutboxEvents_def b using old(1) by (simp only: snd_conv split: if_split) blast
  then show ?thesis using eff by (simp add: min_def)
qed

theorem purge_bounded_witness:
  "fst (purge_batches (sort_key ob_createdAt) (\<lambda>r. True) 2 3 (publishAll [''a'', ''b'', ''c''] 5 [example_event, example_event, example_event] [])) = 3"
proof -
  let ?rows = "publishAll [''a'', ''b'', ''c''] 5 [example_event, example_event, example_event] []"
  have "distinct ?rows" "length ?rows = 3" by (simp_all add: publishAll_def outbox_row_of_def)
  then show ?thesis
    using conjunct1[OF purge_bounded[of ?rows 2 "\<lambda>r. True" 3 example_relay False False 0 0 0]] by simp
qed

text \<open>The order holds within a tick among the events that are published; an event that fails does not hold
  back the later ones of its aggregate.\<close>

definition picky_env :: relay_env where
  "picky_env = example_env
     \<lparr> re_publish := \<lambda>e. if de_eventId e = ''e1'' then Inl (Internal ''timeout'') else Inr (),
       re_date_parse := \<lambda>t. Some 1779160000123 \<rparr>"

definition two_events :: outbox_table where
  "two_events = publishAll [''i1'', ''i2''] 5 [example_event, example_event \<lparr> de_eventId := ''e2'' \<rparr>] []"

lemma failed_event_overtaken:
  "map fst (rs_published (snd (dispatchClaimed example_relay picky_env two_events
     \<lparr> rs_rows = two_events, rs_published = [] \<rparr>))) = [''i2'']"
  by (simp add: dispatchClaimed_def by_aggregate_def two_events_def publishAll_def outbox_row_of_def dispatchOne_def
      picky_env_def example_env_def example_event_def parse_envelope_def serializePayload_def json_member_def
      envelope_version_def OUTBOX_SCHEMA_VERSION_def nonempty_text_of_def event_of_row_def permanent_failure_def
      write_rows_def Let_def)

end
