(* ===== verification/Leader_Lease.thy ===== *)
theory Leader_Lease
  imports Prelude
begin

text \<open>The single-writer lease over one Redis key (libs/infra/redis/src/lib/redis-leader-lease.ts). A store is
  the value of the key with the time it expires. Each replica has its own token, and a tick makes at most
  two Redis calls, between which other replicas may act. A call may fail before or after its effect.\<close>

type_synonym redis_key = "(string \<times> instant) option"

definition LEASE_TTL_MS :: int where
  "LEASE_TTL_MS = 30000"

definition LEASE_RENEW_INTERVAL_MS :: int where
  "LEASE_RENEW_INTERVAL_MS = 10000"

section \<open>Redis\<close>

definition redis_get :: "instant \<Rightarrow> redis_key \<Rightarrow> string option" where
  "redis_get now k = (case k of Some (v, t) \<Rightarrow> if now < t then Some v else None | None \<Rightarrow> None)"

definition set_px_nx :: "instant \<Rightarrow> string \<Rightarrow> int \<Rightarrow> redis_key \<Rightarrow> bool \<times> redis_key" where
  "set_px_nx now v ttl k = (if redis_get now k = None then (True, Some (v, now + ttl)) else (False, k))"

definition renew_script :: "instant \<Rightarrow> string \<Rightarrow> int \<Rightarrow> redis_key \<Rightarrow> nat \<times> redis_key" where
  "renew_script now v ttl k = (if redis_get now k = Some v then (1, Some (v, now + ttl)) else (0, k))"

definition release_script :: "instant \<Rightarrow> string \<Rightarrow> redis_key \<Rightarrow> nat \<times> redis_key" where
  "release_script now v k = (if redis_get now k = Some v then (1, None) else (0, k))"

text \<open>How a call ends: with its answer, or with an error before or after it took effect.\<close>

datatype call_end = Answered | Lost_Before | Lost_After

definition call_effect :: "call_end \<Rightarrow> redis_key \<Rightarrow> redis_key \<Rightarrow> redis_key" where
  "call_effect e before done_key = (if e = Lost_Before then before else done_key)"

section \<open>The lease of a replica\<close>

record lease =
  le_leader :: bool
  le_stopped :: bool
  le_lost :: nat

definition setLeader :: "bool \<Rightarrow> lease \<Rightarrow> lease" where
  "setLeader next_leader l =
     l \<lparr> le_leader := next_leader, le_lost := le_lost l + (if le_leader l \<and> \<not> next_leader then 1 else 0) \<rparr>"

text \<open>The first call of a tick, made by a leader. The Boolean says that the tick goes on to acquire.\<close>

definition renew_phase :: "string \<Rightarrow> instant \<Rightarrow> call_end \<Rightarrow> redis_key \<times> lease \<Rightarrow> bool \<times> redis_key \<times> lease" where
  "renew_phase token now e s =
     (case s of (k, l) \<Rightarrow>
        (case renew_script now token LEASE_TTL_MS k of
           (renewed, k') \<Rightarrow>
             if e \<noteq> Answered then (False, call_effect e k k', setLeader False l)
             else if le_stopped l \<or> renewed = 1 then (False, k', l)
             else (True, k', setLeader False l)))"

text \<open>The second call; a replica stopped in the meantime gives an acquired lease back.\<close>

definition acquire_phase :: "string \<Rightarrow> instant \<Rightarrow> call_end \<Rightarrow> redis_key \<times> lease \<Rightarrow> bool \<times> redis_key \<times> lease" where
  "acquire_phase token now e s =
     (case s of (k, l) \<Rightarrow>
        (case set_px_nx now token LEASE_TTL_MS k of
           (acquired, k') \<Rightarrow>
             if e \<noteq> Answered then (False, call_effect e k k', setLeader False l)
             else if le_stopped l then (acquired, k', l)
             else (False, k', setLeader acquired l)))"

definition give_back_phase :: "string \<Rightarrow> instant \<Rightarrow> call_end \<Rightarrow> redis_key \<times> lease \<Rightarrow> redis_key \<times> lease" where
  "give_back_phase token now e s =
     (case s of (k, l) \<Rightarrow>
        (call_effect e k (snd (release_script now token k)), if e \<noteq> Answered then setLeader False l else l))"

text \<open>The release of \<open>stop\<close>: leadership is dropped however the call ends.\<close>

definition release_phase :: "string \<Rightarrow> instant \<Rightarrow> call_end \<Rightarrow> redis_key \<times> lease \<Rightarrow> redis_key \<times> lease" where
  "release_phase token now e s =
     (case s of (k, l) \<Rightarrow> (call_effect e k (snd (release_script now token k)), setLeader False l))"

text \<open>A tick without interruption: the calls at \<open>now\<close>, \<open>now'\<close> and \<open>now''\<close>.\<close>

definition runTick ::
    "string \<Rightarrow> instant \<times> instant \<times> instant \<Rightarrow> call_end \<times> call_end \<times> call_end \<Rightarrow> redis_key \<times> lease \<Rightarrow> redis_key \<times> lease" where
  "runTick token clock ends s =
     (case (clock, ends) of
        ((now, now', now''), (e, e', e'')) \<Rightarrow>
          (case (if le_leader (snd s) then renew_phase token now e s else (True, s)) of
             (False, s') \<Rightarrow> s'
           | (True, s') \<Rightarrow>
               (case acquire_phase token now' e' s' of
                  (False, s'') \<Rightarrow> s''
                | (True, s'') \<Rightarrow> give_back_phase token now'' e'' s'')))"

definition lease_tick ::
    "string \<Rightarrow> instant \<times> instant \<times> instant \<Rightarrow> call_end \<times> call_end \<times> call_end \<Rightarrow> redis_key \<times> lease \<Rightarrow> redis_key \<times> lease" where
  "lease_tick token clock ends s = (if le_stopped (snd s) then s else runTick token clock ends s)"

text \<open>Stopping: no new tick starts, the running ones finish (\<open>in_flight\<close>), and a leader releases.\<close>

definition stop_lease ::
    "string \<Rightarrow> instant \<Rightarrow> call_end \<Rightarrow> (redis_key \<times> lease \<Rightarrow> redis_key \<times> lease) \<Rightarrow> redis_key \<times> lease \<Rightarrow> redis_key \<times> lease" where
  "stop_lease token now e in_flight s =
     (case in_flight (fst s, (snd s) \<lparr> le_stopped := True \<rparr>) of
        (k, l) \<Rightarrow> if le_leader l then release_phase token now e (k, l) else (k, setLeader False l))"

section \<open>Replicas sharing the key\<close>

text \<open>Every replica with the number of its ticks that have got as far as acquiring and as releasing; the
  ghost \<open>sl_confirmed\<close> is the time of its last call that took effect, cleared by its release.\<close>

record lease_system =
  sl_now :: instant
  sl_key :: redis_key
  sl_lease :: "string \<Rightarrow> lease"
  sl_acquiring :: "string \<Rightarrow> nat"
  sl_releasing :: "string \<Rightarrow> nat"
  sl_confirmed :: "string \<Rightarrow> instant option"

definition holds_now :: "string \<Rightarrow> lease_system \<Rightarrow> bool" where
  "holds_now r s \<longleftrightarrow> redis_get (sl_now s) (sl_key s) = Some r"

text \<open>A call takes effect for a replica when the key is its own afterwards with the full time to live.\<close>

definition confirm :: "string \<Rightarrow> redis_key \<Rightarrow> lease_system \<Rightarrow> string \<Rightarrow> instant option" where
  "confirm r k' s = (if k' = Some (r, sl_now s + LEASE_TTL_MS) then (sl_confirmed s)(r := Some (sl_now s)) else sl_confirmed s)"

definition unconfirm :: "string \<Rightarrow> call_end \<Rightarrow> lease_system \<Rightarrow> string \<Rightarrow> instant option" where
  "unconfirm r e s = (if e = Lost_Before then sl_confirmed s else (sl_confirmed s)(r := None))"

inductive lease_step :: "lease_system \<Rightarrow> lease_system \<Rightarrow> bool" where
  Time: "sl_now s \<le> t \<Longrightarrow> lease_step s (s \<lparr> sl_now := t \<rparr>)"
| Renew:
    "le_leader (sl_lease s r) \<Longrightarrow> renew_phase r (sl_now s) e (sl_key s, sl_lease s r) = (on, k', l') \<Longrightarrow>
     lease_step s (s \<lparr> sl_key := k', sl_lease := (sl_lease s)(r := l'),
       sl_acquiring := (sl_acquiring s)(r := sl_acquiring s r + (if on then 1 else 0)),
       sl_confirmed := confirm r k' s \<rparr>)"
| Follow:
    "\<not> le_leader (sl_lease s r) \<Longrightarrow> \<not> le_stopped (sl_lease s r) \<Longrightarrow>
     lease_step s (s \<lparr> sl_acquiring := (sl_acquiring s)(r := sl_acquiring s r + 1) \<rparr>)"
| Acquire:
    "0 < sl_acquiring s r \<Longrightarrow> acquire_phase r (sl_now s) e (sl_key s, sl_lease s r) = (give_back, k', l') \<Longrightarrow>
     lease_step s (s \<lparr> sl_key := k', sl_lease := (sl_lease s)(r := l'),
       sl_acquiring := (sl_acquiring s)(r := sl_acquiring s r - 1),
       sl_releasing := (sl_releasing s)(r := sl_releasing s r + (if give_back then 1 else 0)),
       sl_confirmed := confirm r k' s \<rparr>)"
| Stop:
    "lease_step s (s \<lparr> sl_lease := (sl_lease s)(r := (sl_lease s r) \<lparr> le_stopped := True \<rparr>) \<rparr>)"
| Give_Back:
    "0 < sl_releasing s r \<Longrightarrow> give_back_phase r (sl_now s) e (sl_key s, sl_lease s r) = (k', l') \<Longrightarrow>
     lease_step s (s \<lparr> sl_key := k', sl_lease := (sl_lease s)(r := l'),
       sl_releasing := (sl_releasing s)(r := sl_releasing s r - 1), sl_confirmed := unconfirm r e s \<rparr>)"
| Release:
    "le_stopped (sl_lease s r) \<Longrightarrow> le_leader (sl_lease s r) \<Longrightarrow> sl_acquiring s r = 0 \<Longrightarrow> sl_releasing s r = 0 \<Longrightarrow>
     release_phase r (sl_now s) e (sl_key s, sl_lease s r) = (k', l') \<Longrightarrow>
     lease_step s (s \<lparr> sl_key := k', sl_lease := (sl_lease s)(r := l'), sl_confirmed := unconfirm r e s \<rparr>)"
| Restart:
    "le_stopped (sl_lease s r) \<Longrightarrow> \<not> le_leader (sl_lease s r) \<Longrightarrow> sl_acquiring s r = 0 \<Longrightarrow> sl_releasing s r = 0 \<Longrightarrow>
     lease_step s (s \<lparr> sl_lease := (sl_lease s)(r := (sl_lease s r) \<lparr> le_stopped := False \<rparr>) \<rparr>)"

text \<open>Whoever was confirmed less than the time to live ago has the key; a running leader has been confirmed;
  only a stopped replica gives back.\<close>

definition fresh_holds :: "instant \<Rightarrow> redis_key \<Rightarrow> (string \<Rightarrow> instant option) \<Rightarrow> bool" where
  "fresh_holds now k confirmed \<longleftrightarrow>
     (\<forall>r t. confirmed r = Some t \<longrightarrow> t \<le> now \<and> (now < t + LEASE_TTL_MS \<longrightarrow> k = Some (r, t + LEASE_TTL_MS)))"

definition lease_inv :: "lease_system \<Rightarrow> bool" where
  "lease_inv s \<longleftrightarrow>
     fresh_holds (sl_now s) (sl_key s) (sl_confirmed s) \<and>
     (\<forall>r. le_leader (sl_lease s r) \<and> \<not> le_stopped (sl_lease s r) \<longrightarrow> sl_confirmed s r \<noteq> None) \<and>
     (\<forall>r. 0 < sl_releasing s r \<longrightarrow> le_stopped (sl_lease s r))"

section \<open>The invariant\<close>

lemma setLeader_sel [simp]:
  "le_leader (setLeader b l) = b" "le_stopped (setLeader b l) = le_stopped l"
  by (simp_all add: setLeader_def)

lemma redis_get_Some: "redis_get now k = Some v \<longleftrightarrow> (\<exists>t. k = Some (v, t) \<and> now < t)"
  by (auto simp: redis_get_def split: option.splits if_splits)

lemma redis_get_None: "redis_get now k = None \<longleftrightarrow> (\<forall>v t. k = Some (v, t) \<longrightarrow> t \<le> now)"
  by (auto simp: redis_get_def split: option.splits if_splits)

text \<open>Taking the key when it is free or one's own keeps every fresh confirmation true.\<close>

lemma fresh_holds_take:
  assumes "fresh_holds (sl_now s) (sl_key s) (sl_confirmed s)" "redis_get (sl_now s) (sl_key s) \<in> {None, Some r}"
  shows "fresh_holds (sl_now s) (Some (r, sl_now s + LEASE_TTL_MS)) (confirm r (Some (r, sl_now s + LEASE_TTL_MS)) s)"
proof -
  have "r' = r" if "sl_confirmed s r' = Some t" "sl_now s < t + LEASE_TTL_MS" for r' t
  proof -
    have "sl_key s = Some (r', t + LEASE_TTL_MS)" using assms(1) that by (auto simp: fresh_holds_def)
    then show ?thesis using assms(2) that(2) by (auto simp: redis_get_def)
  qed
  then show ?thesis using assms(1) by (auto simp: fresh_holds_def confirm_def)
qed

lemma fresh_holds_keep:
  "fresh_holds (sl_now s) (sl_key s) (sl_confirmed s) \<Longrightarrow> fresh_holds (sl_now s) (sl_key s) (confirm r (sl_key s) s)"
  by (auto simp: fresh_holds_def confirm_def)

lemma renew_key:
  assumes "renew_phase r now e (k, l) = (on, k', l')"
  shows "k' = k \<or> redis_get now k = Some r \<and> k' = Some (r, now + LEASE_TTL_MS)"
    "le_leader l' \<Longrightarrow> le_leader l" "le_stopped l' = le_stopped l"
  using assms by (auto simp: renew_phase_def renew_script_def call_effect_def split: if_splits)

lemma acquire_key:
  assumes "acquire_phase r now e (k, l) = (give, k', l')"
  shows "k' = k \<or> redis_get now k = None \<and> k' = Some (r, now + LEASE_TTL_MS)"
    "le_leader l' \<Longrightarrow> \<not> le_stopped l' \<Longrightarrow> k' = Some (r, now + LEASE_TTL_MS)" "le_stopped l' = le_stopped l" "give \<Longrightarrow> le_stopped l"
  using assms by (auto simp: acquire_phase_def set_px_nx_def call_effect_def split: if_splits)

lemma fresh_holds_release:
  assumes "fresh_holds (sl_now s) (sl_key s) (sl_confirmed s)"
  shows "fresh_holds (sl_now s) (call_effect e (sl_key s) (snd (release_script (sl_now s) r (sl_key s)))) (unconfirm r e s)"
proof (cases "e = Lost_Before")
  case True
  then show ?thesis using assms by (simp add: call_effect_def unconfirm_def)
next
  case False
  have "snd (release_script (sl_now s) r (sl_key s)) = Some (r', t + LEASE_TTL_MS)"
    if "sl_confirmed s r' = Some t" "r' \<noteq> r" "sl_now s < t + LEASE_TTL_MS" for r' t
    using assms that by (auto simp: fresh_holds_def release_script_def redis_get_def)
  then show ?thesis using False assms by (auto simp: call_effect_def unconfirm_def fresh_holds_def)
qed

lemma lease_inv_step: "lease_step s s' \<Longrightarrow> lease_inv s \<Longrightarrow> lease_inv s'"
proof (induction rule: lease_step.induct)
  case (Time s t)
  then show ?case by (fastforce simp: lease_inv_def fresh_holds_def)
next
  case (Renew s r e on k' l')
  note k = renew_key[OF Renew(2)]
  have "fresh_holds (sl_now s) k' (confirm r k' s)"
    using k(1) fresh_holds_take[of s r] fresh_holds_keep[of s r] Renew(3) by (auto simp: lease_inv_def)
  then show ?case using Renew(1,3) k(2,3) by (auto simp: lease_inv_def confirm_def)
next
  case (Acquire s r e give_back k' l')
  note k = acquire_key[OF Acquire(2)]
  have "fresh_holds (sl_now s) k' (confirm r k' s)"
    using k(1) fresh_holds_take[of s r] fresh_holds_keep[of s r] Acquire(3) by (auto simp: lease_inv_def)
  then show ?case using Acquire(3) k(2-4) by (auto simp: lease_inv_def confirm_def)
next
  case (Give_Back s r e k' l')
  have stopped: "le_stopped (sl_lease s r)" using Give_Back(1,3) by (auto simp: lease_inv_def)
  have "k' = call_effect e (sl_key s) (snd (release_script (sl_now s) r (sl_key s)))" "le_stopped l'"
    using Give_Back(2) stopped by (auto simp: give_back_phase_def split: if_splits)
  then show ?case using Give_Back(3) fresh_holds_release[of s e r] stopped by (auto simp: lease_inv_def unconfirm_def)
next
  case (Release s r e k' l')
  then have "k' = call_effect e (sl_key s) (snd (release_script (sl_now s) r (sl_key s)))" "\<not> le_leader l'" "le_stopped l'"
    by (auto simp: release_phase_def)
  then show ?case using Release(6) fresh_holds_release[of s e r] by (auto simp: lease_inv_def unconfirm_def)
qed (auto simp: lease_inv_def)

definition lease_start :: lease_system where
  "lease_start =
     \<lparr> sl_now = 0, sl_key = None, sl_lease = \<lambda>r. \<lparr> le_leader = False, le_stopped = False, le_lost = 0 \<rparr>,
       sl_acquiring = \<lambda>r. 0, sl_releasing = \<lambda>r. 0, sl_confirmed = \<lambda>r. None \<rparr>"

lemma lease_inv_run: "lease_step\<^sup>*\<^sup>* s s' \<Longrightarrow> lease_inv s \<Longrightarrow> lease_inv s'"
  by (induction rule: rtranclp_induct) (auto intro: lease_inv_step)

text \<open>C18. At most one replica acts as leader on a valid lease: in any interleaving of ticks, stops, restarts,
  lost calls and passing time, a running leader has been confirmed by Redis, one whose last confirmation is
  younger than the time to live is the holder of the key, and two such leaders are the same replica.\<close>

theorem one_confirmed_leader:
  assumes "lease_step\<^sup>*\<^sup>* lease_start s" "le_leader (sl_lease s a)" "\<not> le_stopped (sl_lease s a)"
    "le_leader (sl_lease s b)" "\<not> le_stopped (sl_lease s b)"
  shows "\<exists>ta tb. sl_confirmed s a = Some ta \<and> sl_confirmed s b = Some tb \<and>
     (sl_now s < ta + LEASE_TTL_MS \<longrightarrow> redis_get (sl_now s) (sl_key s) = Some a) \<and>
     (sl_now s < ta + LEASE_TTL_MS \<and> sl_now s < tb + LEASE_TTL_MS \<longrightarrow> a = b)"
proof -
  have inv: "lease_inv s" using lease_inv_run[OF assms(1)]
    by (simp add: lease_inv_def lease_start_def fresh_holds_def)
  then obtain ta tb where t: "sl_confirmed s a = Some ta" "sl_confirmed s b = Some tb"
    using assms(2-5) by (metis lease_inv_def option.exhaust)
  have "sl_now s < ta + LEASE_TTL_MS \<Longrightarrow> sl_key s = Some (a, ta + LEASE_TTL_MS)"
    "sl_now s < tb + LEASE_TTL_MS \<Longrightarrow> sl_key s = Some (b, tb + LEASE_TTL_MS)"
    using inv t by (auto simp: lease_inv_def fresh_holds_def)
  then show ?thesis using t by (auto simp: redis_get_def)
qed

theorem one_confirmed_leader_witness:
  "\<exists>s :: lease_system. le_leader (sl_lease s ''a'') \<and> redis_get (sl_now s) (sl_key s) = Some ''a''"
proof -
  let ?s1 = "lease_start \<lparr> sl_acquiring := (sl_acquiring lease_start)(''a'' := sl_acquiring lease_start ''a'' + 1) \<rparr>"
  have 1: "lease_step lease_start ?s1" by (rule lease_step.Follow) (simp_all add: lease_start_def)
  obtain g k' l' where a: "acquire_phase ''a'' (sl_now ?s1) Answered (sl_key ?s1, sl_lease ?s1 ''a'') = (g, k', l')"
    by (metis prod_cases3)
  let ?s2 = "?s1 \<lparr> sl_key := k', sl_lease := (sl_lease ?s1)(''a'' := l'),
       sl_acquiring := (sl_acquiring ?s1)(''a'' := sl_acquiring ?s1 ''a'' - 1),
       sl_releasing := (sl_releasing ?s1)(''a'' := sl_releasing ?s1 ''a'' + (if g then 1 else 0)),
       sl_confirmed := confirm ''a'' k' ?s1 \<rparr>"
  have "lease_step ?s1 ?s2" by (rule lease_step.Acquire[OF _ a]) simp
  with 1 have run: "lease_step\<^sup>*\<^sup>* lease_start ?s2" by (meson converse_rtranclp_into_rtranclp rtranclp.rtrancl_refl)
  have l': "le_leader l'" "\<not> le_stopped l'" "k' = Some (''a'', LEASE_TTL_MS)"
    using a by (auto simp: acquire_phase_def set_px_nx_def lease_start_def redis_get_def setLeader_def)
  then have lead: "le_leader (sl_lease ?s2 ''a'')" "\<not> le_stopped (sl_lease ?s2 ''a'')" by simp_all
  from one_confirmed_leader[OF run lead lead]
  have key: "redis_get (sl_now ?s2) (sl_key ?s2) = Some ''a''"
    using l'(3) by (auto simp: confirm_def lease_start_def LEASE_TTL_MS_def)
  show ?thesis by (rule exI[of _ ?s2], rule conjI[OF lead(1) key])
qed

text \<open>The lease fails closed and is taken over: a tick that cannot reach Redis leaves its replica without
  leadership, and once the time to live of a dead holder has passed, the next undisturbed tick of any
  running replica makes it the leader with a full time to live, whatever it was before.\<close>

theorem lease_takeover:
  assumes "\<not> le_stopped l"
  shows "(e \<noteq> Answered \<and> le_leader l \<longrightarrow> \<not> le_leader (snd (lease_tick token clock (e, e', e'') (k, l)))) \<and>
    (e' \<noteq> Answered \<and> \<not> le_leader l \<longrightarrow> \<not> le_leader (snd (lease_tick token clock (e, e', e'') (k, l)))) \<and>
    (expiry \<le> t \<and> t \<le> t' \<longrightarrow>
       lease_tick token (t, t', t'') (Answered, Answered, Answered) (Some (dead, expiry), l)
         = (Some (token, t' + LEASE_TTL_MS), setLeader True (if le_leader l then setLeader False l else l)))"
  using assms
  by (cases clock; cases "le_leader l")
    (auto simp: lease_tick_def runTick_def renew_phase_def acquire_phase_def give_back_phase_def renew_script_def
      set_px_nx_def redis_get_def split: prod.splits if_splits)

theorem lease_takeover_witness:
  "lease_tick ''b'' (40, 41, 42) (Answered, Answered, Answered)
     (Some (''a'', 30), \<lparr> le_leader = False, le_stopped = False, le_lost = 0 \<rparr>)
   = (Some (''b'', 41 + LEASE_TTL_MS), \<lparr> le_leader = True, le_stopped = False, le_lost = 0 \<rparr>)"
  using lease_takeover[of "\<lparr> le_leader = False, le_stopped = False, le_lost = 0 \<rparr>" Answered "''b''" "(40, 41, 42)"
      Answered Answered None 30 40 41 42 "''a''"]
  by (simp add: setLeader_def)

end
