(* ===== verification/Effects.thy ===== *)
theory Effects
  imports Errors
begin

text \<open>Asynchronous handlers as actions on a state: an action takes the state and gives its outcome
  with the next state, whether it returns or throws. \<open>bindE\<close> is \<open>await\<close> followed by the rest
  of the handler, \<open>catchE\<close> is \<open>try ... catch\<close>. The triples say what an action does to every
  state (a transitive relation between the state it starts and the state it ends in) together with a
  precondition and a postcondition; their rules follow the shape of a handler.\<close>

type_synonym ('s, 'a) action = "'s \<Rightarrow> 'a outcome \<times> 's"

definition returnE :: "'a \<Rightarrow> ('s, 'a) action" where
  "returnE x s = (Inr x, s)"

definition throwE :: "failure \<Rightarrow> ('s, 'a) action" where
  "throwE e s = (Inl e, s)"

definition fromE :: "'a outcome \<Rightarrow> ('s, 'a) action" where
  "fromE r s = (r, s)"

definition readE :: "('s \<Rightarrow> 'a) \<Rightarrow> ('s, 'a) action" where
  "readE f s = (Inr (f s), s)"

definition bindE :: "('s, 'a) action \<Rightarrow> ('a \<Rightarrow> ('s, 'b) action) \<Rightarrow> ('s, 'b) action" where
  "bindE m f s = (case m s of (Inl e, s') \<Rightarrow> (Inl e, s') | (Inr x, s') \<Rightarrow> f x s')"

definition thenE :: "('s, 'a) action \<Rightarrow> ('s, 'b) action \<Rightarrow> ('s, 'b) action" where
  "thenE m n = bindE m (\<lambda>_. n)"

definition catchE :: "('s, 'a) action \<Rightarrow> (failure \<Rightarrow> ('s, 'a) action) \<Rightarrow> ('s, 'a) action" where
  "catchE m h s = (case m s of (Inl e, s') \<Rightarrow> h e s' | (Inr x, s') \<Rightarrow> (Inr x, s'))"

text \<open>\<open>await m.catch(() => log)\<close>\<close>

definition quietly :: "('s, unit) action \<Rightarrow> ('s, unit) action" where
  "quietly m = catchE m (\<lambda>_. returnE ())"

fun each :: "('a \<Rightarrow> ('s, unit) action) \<Rightarrow> 'a list \<Rightarrow> ('s, unit) action" where
  "each f [] = returnE ()"
| "each f (x # xs) = thenE (f x) (each f xs)"

text \<open>\<open>Promise.all\<close>: every call is made, the first rejection is the outcome.\<close>

fun promise_all :: "('a \<Rightarrow> ('s, 'b) action) \<Rightarrow> 'a list \<Rightarrow> ('s, 'b list) action" where
  "promise_all f [] s = (Inr [], s)"
| "promise_all f (x # xs) s =
     (case f x s of
        (r, s') \<Rightarrow>
          (case promise_all f xs s' of
             (rs, s'') \<Rightarrow>
               (case r of
                  Inl e \<Rightarrow> (Inl e, s'')
                | Inr y \<Rightarrow> (case rs of Inl e \<Rightarrow> (Inl e, s'') | Inr ys \<Rightarrow> (Inr (y # ys), s'')))))"

text \<open>An action on one part of a state.\<close>

definition zoom :: "('w \<Rightarrow> 's) \<Rightarrow> ('s \<Rightarrow> 'w \<Rightarrow> 'w) \<Rightarrow> ('s, 'a) action \<Rightarrow> ('w, 'a) action" where
  "zoom get put m w = (case m (get w) of (r, s) \<Rightarrow> (r, put s w))"

lemmas action_defs = returnE_def throwE_def fromE_def readE_def bindE_def thenE_def catchE_def quietly_def

section \<open>Triples\<close>

definition triple ::
  "('s \<Rightarrow> 's \<Rightarrow> bool) \<Rightarrow> ('s \<Rightarrow> bool) \<Rightarrow> ('s, 'a) action \<Rightarrow> ('a outcome \<Rightarrow> 's \<Rightarrow> bool) \<Rightarrow> bool" where
  "triple G P m Q \<longleftrightarrow> (\<forall>s. P s \<longrightarrow> G s (snd (m s)) \<and> Q (fst (m s)) (snd (m s)))"

definition preorder_on_states :: "('s \<Rightarrow> 's \<Rightarrow> bool) \<Rightarrow> bool" where
  "preorder_on_states G \<longleftrightarrow> reflp G \<and> transp G"

lemma tripleI: "(\<And>s. P s \<Longrightarrow> G s (snd (m s)) \<and> Q (fst (m s)) (snd (m s))) \<Longrightarrow> triple G P m Q"
  by (simp add: triple_def)

lemma tripleD: "triple G P m Q \<Longrightarrow> P s \<Longrightarrow> m s = (r, s') \<Longrightarrow> G s s' \<and> Q r s'"
  by (metis triple_def fst_conv snd_conv)

lemma triple_weaken:
  assumes "triple G P' m Q'" "\<And>s. P s \<Longrightarrow> P' s" "\<And>r s. Q' r s \<Longrightarrow> Q r s"
  shows "triple G P m Q"
  using assms by (simp add: triple_def)

lemma triple_return:
  "preorder_on_states G \<Longrightarrow> (\<And>s. P s \<Longrightarrow> Q (Inr x) s) \<Longrightarrow> triple G P (returnE x) Q"
  by (simp add: triple_def returnE_def preorder_on_states_def reflpD)

lemma triple_throw:
  "preorder_on_states G \<Longrightarrow> (\<And>s. P s \<Longrightarrow> Q (Inl e) s) \<Longrightarrow> triple G P (throwE e) Q"
  by (simp add: triple_def throwE_def preorder_on_states_def reflpD)

lemma triple_from:
  "preorder_on_states G \<Longrightarrow> (\<And>s. P s \<Longrightarrow> Q r s) \<Longrightarrow> triple G P (fromE r) Q"
  by (simp add: triple_def fromE_def preorder_on_states_def reflpD)

lemma triple_read:
  "preorder_on_states G \<Longrightarrow> (\<And>s. P s \<Longrightarrow> Q (Inr (f s)) s) \<Longrightarrow> triple G P (readE f) Q"
  by (simp add: triple_def readE_def preorder_on_states_def reflpD)

lemma triple_bind:
  assumes "preorder_on_states G" "triple G P m R"
    and "\<And>x. triple G (R (Inr x)) (f x) Q" "\<And>e s. R (Inl e) s \<Longrightarrow> Q (Inl e) s"
  shows "triple G P (bindE m f) Q"
proof (rule tripleI)
  fix s assume "P s"
  obtain r s' where m: "m s = (r, s')" by force
  have R: "G s s' \<and> R r s'" using tripleD[OF assms(2) \<open>P s\<close> m] .
  show "G s (snd (bindE m f s)) \<and> Q (fst (bindE m f s)) (snd (bindE m f s))"
  proof (cases r)
    case (Inl e)
    then show ?thesis using R m assms(4) by (simp add: bindE_def)
  next
    case (Inr x)
    obtain r2 s2 where f: "f x s' = (r2, s2)" by force
    have "G s' s2 \<and> Q r2 s2" using tripleD[OF assms(3)[of x] _ f] R Inr by simp
    then show ?thesis using R m Inr f assms(1)
      by (auto simp: bindE_def preorder_on_states_def dest: transpD)
  qed
qed

lemma triple_then:
  assumes "preorder_on_states G" "triple G P m R" "triple G (\<lambda>s. \<exists>x. R (Inr x) s) n Q"
    and "\<And>e s. R (Inl e) s \<Longrightarrow> Q (Inl e) s"
  shows "triple G P (thenE m n) Q"
  unfolding thenE_def
  by (rule triple_bind[OF assms(1,2)]) (rule triple_weaken[OF assms(3)], auto intro: assms(4))

lemma triple_catch:
  assumes "preorder_on_states G" "triple G P m R"
    and "\<And>e. triple G (R (Inl e)) (h e) Q" "\<And>x s. R (Inr x) s \<Longrightarrow> Q (Inr x) s"
  shows "triple G P (catchE m h) Q"
proof (rule tripleI)
  fix s assume "P s"
  obtain r s' where m: "m s = (r, s')" by force
  have R: "G s s' \<and> R r s'" using tripleD[OF assms(2) \<open>P s\<close> m] .
  show "G s (snd (catchE m h s)) \<and> Q (fst (catchE m h s)) (snd (catchE m h s))"
  proof (cases r)
    case (Inr x)
    then show ?thesis using R m assms(4) by (simp add: catchE_def)
  next
    case (Inl e)
    obtain r2 s2 where h: "h e s' = (r2, s2)" by force
    have "G s' s2 \<and> Q r2 s2" using tripleD[OF assms(3)[of e] _ h] R Inl by simp
    then show ?thesis using R m Inl h assms(1)
      by (auto simp: catchE_def preorder_on_states_def dest: transpD)
  qed
qed

lemma triple_quietly:
  assumes "preorder_on_states G" "triple G P m R" "\<And>r s. R r s \<Longrightarrow> Q s"
  shows "triple G P (quietly m) (\<lambda>r s. r = Inr () \<and> Q s)"
  unfolding quietly_def
  by (rule triple_catch[OF assms(1,2)], rule triple_return[OF assms(1)]) (auto intro: assms(3))

text \<open>A loop with an invariant.\<close>

lemma triple_each:
  assumes "preorder_on_states G" "\<And>x. x \<in> set xs \<Longrightarrow> triple G I (f x) (\<lambda>r s. I s)"
  shows "triple G I (each f xs) (\<lambda>r s. I s)"
  using assms(2)
proof (induction xs)
  case Nil
  show ?case unfolding each.simps by (rule triple_return[OF assms(1)])
next
  case (Cons x xs)
  show ?case unfolding each.simps
    by (rule triple_then[OF assms(1), where R = "\<lambda>r s. I s"]) (use Cons in \<open>auto simp: triple_def\<close>)
qed

lemma triple_promise_all:
  assumes "preorder_on_states G"
    and "\<And>x. x \<in> set xs \<Longrightarrow> triple G I (f x) (\<lambda>r s. I s \<and> (\<forall>y. r = Inr y \<longrightarrow> A y))"
  shows "triple G I (promise_all f xs) (\<lambda>r s. I s \<and> (\<forall>ys. r = Inr ys \<longrightarrow> (\<forall>y \<in> set ys. A y)))"
  using assms(2)
proof (induction xs)
  case Nil
  show ?case using assms(1) by (simp add: triple_def preorder_on_states_def reflpD)
next
  case (Cons x xs)
  have fx: "triple G I (f x) (\<lambda>r s. I s \<and> (\<forall>y. r = Inr y \<longrightarrow> A y))" by (rule Cons.prems) simp
  have ih: "triple G I (promise_all f xs) (\<lambda>r s. I s \<and> (\<forall>ys. r = Inr ys \<longrightarrow> (\<forall>y \<in> set ys. A y)))"
    by (rule Cons.IH) (simp add: Cons.prems)
  show ?case
  proof (rule tripleI)
    fix s assume "I s"
    obtain r s1 where 1: "f x s = (r, s1)" by force
    obtain rs s2 where 2: "promise_all f xs s1 = (rs, s2)" by force
    have a: "G s s1 \<and> I s1 \<and> (\<forall>y. r = Inr y \<longrightarrow> A y)" using tripleD[OF fx \<open>I s\<close> 1] by simp
    have b: "G s1 s2 \<and> I s2 \<and> (\<forall>ys. rs = Inr ys \<longrightarrow> (\<forall>y \<in> set ys. A y))" using tripleD[OF ih _ 2] a by simp
    have "G s s2" using a b assms(1) by (auto simp: preorder_on_states_def dest: transpD)
    moreover have "promise_all f (x # xs) s = ((case r of Inl e \<Rightarrow> Inl e | Inr y \<Rightarrow>
        (case rs of Inl e \<Rightarrow> Inl e | Inr ys \<Rightarrow> Inr (y # ys))), s2)"
      using 1 2 by (simp split: sum.split)
    ultimately show "G s (snd (promise_all f (x # xs) s)) \<and> I (snd (promise_all f (x # xs) s)) \<and>
        (\<forall>ys. fst (promise_all f (x # xs) s) = Inr ys \<longrightarrow> (\<forall>y \<in> set ys. A y))"
      using a b by (auto split: sum.splits)
  qed
qed

end
