(* ===== verification/File_Signature.thy ===== *)
theory File_Signature
  imports Errors "HOL-Library.Word"
begin

text \<open>libs/shared/src/lib/file-signature.ts: the binary signatures an upload may have, the allow-list
  and the extensions derived from them, and the detection of a type from the leading bytes. A Buffer
  is a list of 8-bit words; a wildcard byte is \<open>None\<close>.\<close>

type_synonym bytes = "8 word list"

record signature =
  sig_mimeType :: string
  sig_extensions :: "string list"
  sig_bytes :: "8 word option list"

definition SIGNATURES :: "signature list" where
  "SIGNATURES =
     [\<lparr> sig_mimeType = ''image/jpeg'', sig_extensions = [''jpg'', ''jpeg''],
        sig_bytes = [Some 0xff, Some 0xd8, Some 0xff] \<rparr>,
      \<lparr> sig_mimeType = ''image/png'', sig_extensions = [''png''],
        sig_bytes = [Some 0x89, Some 0x50, Some 0x4e, Some 0x47, Some 0x0d, Some 0x0a, Some 0x1a, Some 0x0a] \<rparr>,
      \<lparr> sig_mimeType = ''image/gif'', sig_extensions = [''gif''],
        sig_bytes = [Some 0x47, Some 0x49, Some 0x46, Some 0x38] \<rparr>,
      \<lparr> sig_mimeType = ''image/webp'', sig_extensions = [''webp''],
        sig_bytes = [Some 0x52, Some 0x49, Some 0x46, Some 0x46, None, None, None, None,
                     Some 0x57, Some 0x45, Some 0x42, Some 0x50] \<rparr>,
      \<lparr> sig_mimeType = ''application/pdf'', sig_extensions = [''pdf''],
        sig_bytes = [Some 0x25, Some 0x50, Some 0x44, Some 0x46] \<rparr>]"

definition ALLOWED_MIME_TYPES :: "string list" where
  "ALLOWED_MIME_TYPES = js_set (map sig_mimeType SIGNATURES)"

definition MIME_EXTENSIONS :: "(string \<times> string) list" where
  "MIME_EXTENSIONS = foldl (\<lambda>m s. AList.update (sig_mimeType s) (hd (sig_extensions s)) m) [] SIGNATURES"

record detected_file_type =
  dt_mimeType :: string
  dt_extension :: string

definition matches_signature :: "bytes \<Rightarrow> signature \<Rightarrow> bool" where
  "matches_signature buffer s \<longleftrightarrow>
     length (sig_bytes s) \<le> length buffer \<and>
     list_all2 (\<lambda>expected b. expected = None \<or> expected = Some b)
       (sig_bytes s) (take (length (sig_bytes s)) buffer)"

definition detectFileType :: "bytes \<Rightarrow> detected_file_type option" where
  "detectFileType buffer =
     map_option (\<lambda>s. \<lparr> dt_mimeType = sig_mimeType s, dt_extension = hd (sig_extensions s) \<rparr>)
       (List.find (matches_signature buffer) SIGNATURES)"

section \<open>Facts\<close>

lemma mime_extensions_eval:
  "MIME_EXTENSIONS =
     [(''image/jpeg'', ''jpg''), (''image/png'', ''png''), (''image/gif'', ''gif''),
      (''image/webp'', ''webp''), (''application/pdf'', ''pdf'')]"
  by (simp add: MIME_EXTENSIONS_def SIGNATURES_def)

lemma allowed_eval:
  "ALLOWED_MIME_TYPES = [''image/jpeg'', ''image/png'', ''image/gif'', ''image/webp'', ''application/pdf'']"
  unfolding ALLOWED_MIME_TYPES_def SIGNATURES_def by (subst js_set_id) simp_all

lemma allowed_has_extension: "ct \<in> set ALLOWED_MIME_TYPES \<longleftrightarrow> map_of MIME_EXTENSIONS ct \<noteq> None"
  by (simp add: allowed_eval mime_extensions_eval)

lemma find_take:
  assumes "\<And>s. s \<in> set ss \<Longrightarrow> length (sig_bytes s) \<le> n"
  shows "List.find (matches_signature (take n b)) ss = List.find (matches_signature b) ss"
  using assms
proof (induction ss)
  case (Cons s ss)
  have "length (sig_bytes s) \<le> n" using Cons.prems by simp
  then have "matches_signature (take n b) s = matches_signature b s"
    by (simp add: matches_signature_def min_def)
  then show ?case using Cons by simp
qed simp

lemma signature_lengths: "s \<in> set SIGNATURES \<Longrightarrow> length (sig_bytes s) \<le> 12"
  by (auto simp: SIGNATURES_def)

lemma detect_head: "12 \<le> n \<Longrightarrow> detectFileType (take n b) = detectFileType b"
  unfolding detectFileType_def
  by (subst find_take) (use signature_lengths in \<open>auto intro: order_trans\<close>)

lemma detected_mime:
  assumes "detectFileType b = Some t"
  shows "dt_mimeType t \<in> set ALLOWED_MIME_TYPES" "map_of MIME_EXTENSIONS (dt_mimeType t) = Some (dt_extension t)"
proof -
  obtain s where s: "s \<in> set SIGNATURES" "t = \<lparr> dt_mimeType = sig_mimeType s, dt_extension = hd (sig_extensions s) \<rparr>"
    using assms by (auto simp: detectFileType_def dest: find_SomeD)
  show "dt_mimeType t \<in> set ALLOWED_MIME_TYPES" using s by (simp add: ALLOWED_MIME_TYPES_def)
  show "map_of MIME_EXTENSIONS (dt_mimeType t) = Some (dt_extension t)"
    using s by (auto simp: SIGNATURES_def mime_extensions_eval)
qed

end
