(* ===== verification/Storage.thy ===== *)
theory Storage
  imports Effects File_Signature
begin

text \<open>The storage port of libs/infra/storage: its data, the failures every adapter raises
  (storage-failure.ts), and the laws its clients rely on, as the locale \<open>storage_provider\<close>. The port is a
  record of actions on the adapter's own state; \<open>contents\<close> reads the bytes stored under a
  bucket and key off that state.\<close>

section \<open>Failures\<close>

record storage_failure_contract =
  sfc_code :: string
  sfc_messageKey :: string
  sfc_message :: string
  sfc_log :: string

definition upload_failure :: storage_failure_contract where
  "upload_failure = \<lparr> sfc_code = ''storage_upload_failed'', sfc_messageKey = ''errors.storage.upload_failed'',
     sfc_message = ''Storage upload failed'', sfc_log = ''storage upload failed'' \<rparr>"

definition presign_failure :: storage_failure_contract where
  "presign_failure = \<lparr> sfc_code = ''storage_presign_failed'', sfc_messageKey = ''errors.storage.presign_failed'',
     sfc_message = ''Storage presign failed'', sfc_log = ''storage presign upload failed'' \<rparr>"

definition head_failure :: storage_failure_contract where
  "head_failure = \<lparr> sfc_code = ''storage_head_failed'', sfc_messageKey = ''errors.storage.head_failed'',
     sfc_message = ''Storage head failed'', sfc_log = ''storage head failed'' \<rparr>"

definition signedUrl_failure :: storage_failure_contract where
  "signedUrl_failure = \<lparr> sfc_code = ''storage_signed_url_failed'', sfc_messageKey = ''errors.storage.signed_url_failed'',
     sfc_message = ''Storage signed URL generation failed'', sfc_log = ''storage getSignedUrl failed'' \<rparr>"

definition delete_failure :: storage_failure_contract where
  "delete_failure = \<lparr> sfc_code = ''storage_delete_failed'', sfc_messageKey = ''errors.storage.delete_failed'',
     sfc_message = ''Storage delete failed'', sfc_log = ''storage delete failed'' \<rparr>"

definition finalize_failure :: storage_failure_contract where
  "finalize_failure = \<lparr> sfc_code = ''storage_finalize_failed'', sfc_messageKey = ''errors.storage.commit_failed'',
     sfc_message = ''Storage finalize failed; retry confirmation'', sfc_log = ''storage finalize copy failed'' \<rparr>"

definition readRange_failure :: storage_failure_contract where
  "readRange_failure = \<lparr> sfc_code = ''storage_read_failed'', sfc_messageKey = ''errors.storage.read_range_failed'',
     sfc_message = ''Storage readRange failed'', sfc_log = ''storage readRange failed'' \<rparr>"

definition readStream_failure :: storage_failure_contract where
  "readStream_failure = \<lparr> sfc_code = ''storage_read_failed'', sfc_messageKey = ''errors.storage.read_range_failed'',
     sfc_message = ''Storage readStream failed'', sfc_log = ''storage readStream failed'' \<rparr>"

definition storageFailure :: "storage_failure_contract \<Rightarrow> failure" where
  "storageFailure f =
     Domain (new_domain_exception
       \<lparr> opt_kind = Some Unavailable, opt_code = Some (sfc_code f), opt_title = None,
         opt_messageKey = Some (sfc_messageKey f), opt_args = None,
         opt_violations =
           [\<lparr> vi_path = ''storage'', vi_code = sfc_code f, vi_message = sfc_message f,
              vi_messageKey = Some (sfc_messageKey f), vi_rule = None, vi_constraint = None \<rparr>],
         opt_permanent = None \<rparr>)"

section \<open>The port\<close>

record object_metadata =
  om_contentType :: string
  om_size :: int
  om_bucket :: string
  om_etag :: string

record presigned_upload =
  pu_url :: string
  pu_fields :: "(string \<times> string) list"
  pu_key :: string
  pu_bucket :: string
  pu_expiresAt :: string
  pu_maxBytes :: int

record presign_options =
  po_bucket :: "string option"
  po_contentType :: string
  po_maxBytes :: int
  po_expiresInSeconds :: "int option"

text \<open>Options of a streamed upload; \<open>su_aborted\<close> is the state of its AbortSignal.\<close>

record stream_upload_options =
  su_bucket :: "string option"
  su_contentType :: "string option"
  su_size :: int
  su_aborted :: bool

datatype stored_file_status = FINALIZING | VERIFYING | READY | REJECTED

text \<open>What the API answers for a file (\<open>StoredFile\<close> of storage.port.ts).\<close>

record file_result =
  fr_id :: "id option"
  fr_key :: string
  fr_bucket :: string
  fr_size :: int
  fr_status :: "stored_file_status option"
  fr_url :: "string option"

record 's storage_port =
  st_uploadStream :: "string \<Rightarrow> bytes \<Rightarrow> stream_upload_options \<Rightarrow> ('s, file_result) action"
  st_presignUpload :: "string \<Rightarrow> presign_options \<Rightarrow> ('s, presigned_upload) action"
  st_head :: "string \<Rightarrow> string option \<Rightarrow> ('s, object_metadata option) action"
  st_getSignedUrl :: "string \<Rightarrow> int option \<Rightarrow> string option \<Rightarrow> ('s, string) action"
  st_delete :: "string \<Rightarrow> string option \<Rightarrow> ('s, unit) action"
  st_finalize :: "string \<Rightarrow> string \<Rightarrow> string \<Rightarrow> string option \<Rightarrow> ('s, unit) action"
  st_readRange :: "string \<Rightarrow> nat \<Rightarrow> string option \<Rightarrow> ('s, bytes) action"
  st_readStream :: "string \<Rightarrow> string option \<Rightarrow> ('s, bytes) action"

section \<open>The laws of a storage provider\<close>

text \<open>Reads change no content; a range of at least a byte is a prefix of the object; a write or a delete touches only the
  keys it names, whether it succeeds or fails; a deleted object is gone.\<close>

locale storage_provider =
  fixes port :: "'s storage_port"
    and contents :: "'s \<Rightarrow> string \<Rightarrow> string \<Rightarrow> bytes option"
    and bucket_or :: "string option \<Rightarrow> string"
  assumes bucket_given: "bucket_or (Some b) = b"
    and head_reads: "contents (snd (st_head port k ob s)) = contents s"
    and presign_reads: "contents (snd (st_presignUpload port k po s)) = contents s"
    and url_reads: "contents (snd (st_getSignedUrl port k ex ob s)) = contents s"
    and range_reads: "contents (snd (st_readRange port k n ob s)) = contents s"
    and range_prefix: "0 < n \<Longrightarrow> fst (st_readRange port k n ob s) = Inr h \<Longrightarrow>
          \<exists>b. contents s (bucket_or ob) k = Some b \<and> h = take n b"
    and stream_reads: "contents (snd (st_readStream port k ob s)) = contents s"
    and stream_content: "fst (st_readStream port k ob s) = Inr body \<Longrightarrow> contents s (bucket_or ob) k = Some body"
    and delete_frame: "(b, k') \<noteq> (bucket_or ob, k) \<Longrightarrow>
          contents (snd (st_delete port k ob s)) b k' = contents s b k'"
    and delete_gone: "fst (st_delete port k ob s) = Inr () \<Longrightarrow>
          contents (snd (st_delete port k ob s)) (bucket_or ob) k = None"
    and delete_writes_nothing: "contents s b k' = None \<Longrightarrow> contents (snd (st_delete port k ob s)) b k' = None"
    and finalize_frame: "(b, k') \<noteq> (bucket_or ob, src) \<Longrightarrow> (b, k') \<noteq> (bucket_or ob, dst) \<Longrightarrow>
          contents (snd (st_finalize port src dst etag ob s)) b k' = contents s b k'"
    and upload_frame: "(b, k') \<noteq> (bucket_or (su_bucket opts), k) \<Longrightarrow>
          contents (snd (st_uploadStream port k body opts s)) b k' = contents s b k'"
    and upload_content: "fst (st_uploadStream port k body opts s) = Inr res \<Longrightarrow>
          contents (snd (st_uploadStream port k body opts s)) (bucket_or (su_bucket opts)) k = Some body"
begin

text \<open>A detection on the head read from the store is a detection on the whole object.\<close>

lemma range_detects:
  assumes "fst (st_readRange port k n ob s) = Inr h" "12 \<le> n"
  shows "\<exists>b. contents s (bucket_or ob) k = Some b \<and> detectFileType h = detectFileType b"
  using range_prefix[OF _ assms(1)] detect_head[OF assms(2)] assms(2) by (metis less_le_trans zero_less_numeral)

end

lemma storageFailure_facts [simp]:
  "failure_kind (storageFailure f) = Some Unavailable"
  "failure_code (storageFailure f) = Some (sfc_code f)"
  "\<not> permanent_failure (storageFailure f)"
  by (simp_all add: storageFailure_def permanent_failure_def permanent_new)

end
