(* ===== verification/Stored_Files.thy ===== *)
theory Stored_Files
  imports Storage
begin

text \<open>The stored-file entity and its rules (stored-file.entity.ts), the limits and the magic byte check
  (upload-limits.ts, read-magic-bytes.ts), and the Prisma repository over the table
  \<open>stored_files\<close> with its unique keys, its check on the size and the row-level
  security policy of the migrations.\<close>

section \<open>The entity\<close>

record stored_file =
  sf_id :: id
  sf_organizationId :: id
  sf_userId :: id
  sf_sourceKey :: string
  sf_key :: string
  sf_bucket :: string
  sf_contentType :: string
  sf_size :: int
  sf_etag :: string
  sf_status :: stored_file_status

definition withStatus :: "stored_file_status \<Rightarrow> stored_file \<Rightarrow> stored_file" where
  "withStatus s f = f \<lparr> sf_status := s \<rparr>"

text \<open>A number in a message, as JavaScript prints it.\<close>

definition int_text :: "int \<Rightarrow> string" where
  "int_text n = (if n < 0 then ''-'' @ decimal (nat (- n)) else decimal (nat n))"

definition int_json :: "int \<Rightarrow> json" where
  "int_json n = JNum (int_text n)"

definition upload_problem :: "error_kind \<Rightarrow> string \<Rightarrow> string \<Rightarrow> string \<Rightarrow> string \<Rightarrow> (string \<times> json) list \<Rightarrow> failure" where
  "upload_problem kind code violation path message args =
     raise_problem ((problem kind code (''errors.upload.'' @ violation) path message)
       \<lparr> fp_violationCode := Some violation, fp_args := Some args \<rparr>)"

definition mimeNotAllowed :: "string \<Rightarrow> string \<Rightarrow> failure" where
  "mimeNotAllowed contentType path =
     upload_problem Validation ''upload_mime_not_allowed'' ''mime_not_allowed'' path
       (''Mime type \"'' @ contentType @ ''\" is not allowed'') [(''contentType'', JStr contentType)]"

definition extensionForMimeType :: "string \<Rightarrow> string outcome" where
  "extensionForMimeType contentType =
     (case map_of MIME_EXTENSIONS contentType of
        None \<Rightarrow> Inl (mimeNotAllowed contentType ''contentType'')
      | Some ext \<Rightarrow> if ext = [] then Inl (mimeNotAllowed contentType ''contentType'') else Inr ext)"

definition assertMimeAllowed :: "string \<Rightarrow> unit outcome" where
  "assertMimeAllowed contentType =
     (if contentType \<in> set ALLOWED_MIME_TYPES then Inr () else Inl (mimeNotAllowed contentType ''key''))"

definition assertSizeWithinLimit :: "int \<Rightarrow> int \<Rightarrow> unit outcome" where
  "assertSizeWithinLimit n maxBytes =
     (if 0 < n \<and> n \<le> maxBytes then Inr ()
      else Inl (upload_problem Validation ''upload_size_out_of_range'' ''size_out_of_range'' ''key''
             (''Object size '' @ int_text n @ '' bytes is outside the allowed range (1..'' @ int_text maxBytes @ '')'')
             [(''size'', int_json n), (''max'', int_json maxBytes)]))"

definition assertMagicBytesMatch :: "bytes \<Rightarrow> string \<Rightarrow> string \<Rightarrow> unit outcome" where
  "assertMagicBytesMatch head declaredContentType key =
     (case detectFileType head of
        None \<Rightarrow>
          Inl (upload_problem Validation ''upload_magic_bytes_unknown'' ''magic_bytes_unknown'' ''key''
            (''Object at \"'' @ key @ ''\" has no recognized binary signature'') [(''key'', JStr key)])
      | Some detected \<Rightarrow>
          if dt_mimeType detected \<noteq> declaredContentType
          then Inl (upload_problem Validation ''upload_magic_bytes_mismatch'' ''magic_bytes_mismatch'' ''key''
            (''Magic bytes indicate \"'' @ dt_mimeType detected @ ''\" but Content-Type is \"'' @
              declaredContentType @ ''\"'')
            [(''detected'', JStr (dt_mimeType detected)), (''declared'', JStr declaredContentType)])
          else Inr ())"

definition objectNotFound :: "string \<Rightarrow> failure" where
  "objectNotFound key =
     upload_problem NotFound ''not_found'' ''object_not_found'' ''key''
       (''No object stored at \"'' @ key @ ''\"'') [(''key'', JStr key)]"

definition assertOwnsSourceKey :: "string \<Rightarrow> id \<Rightarrow> unit outcome" where
  "assertOwnsSourceKey sourceKey userId =
     (if starts_with (''uploads/'' @ userId @ ''/'') sourceKey then Inr () else Inl (objectNotFound sourceKey))"

section \<open>Limits\<close>

definition UPLOAD_DEFAULT_MAX_FILE_BYTES :: int where
  "UPLOAD_DEFAULT_MAX_FILE_BYTES = 10 * 1024 * 1024"

definition UPLOAD_MAGIC_BYTE_COUNT :: nat where
  "UPLOAD_MAGIC_BYTE_COUNT = 16"

record upload_limits =
  ul_maxFileBytes :: int
  ul_presignExpiresSeconds :: int
  ul_magicByteCount :: nat
  ul_malwareScanEnabled :: bool
  ul_bucket :: string

text \<open>The environment variables a process reads: \<open>process.env\<close>.\<close>

type_synonym process_env = "string \<Rightarrow> string option"

definition plain_integer :: "string \<Rightarrow> int option" where
  "plain_integer s =
     (let d = (case s of c # r \<Rightarrow> if c = CHR ''-'' then r else s | [] \<Rightarrow> [])
      in if d = [] \<or> \<not> list_all is_digit d then None
         else Some (if d = s then int (read_decimal d) else - int (read_decimal d)))"

definition is_safe_integer :: "int \<Rightarrow> bool" where
  "is_safe_integer n \<longleftrightarrow> \<bar>n\<bar> \<le> 2 ^ 53 - 1"

definition intEnv :: "process_env \<Rightarrow> string \<Rightarrow> int \<Rightarrow> int" where
  "intEnv env name fallback =
     (case env name of
        None \<Rightarrow> fallback
      | Some raw \<Rightarrow>
          if trim raw = [] then fallback
          else (case plain_integer (trim raw) of
                  None \<Rightarrow> fallback
                | Some n \<Rightarrow> if is_safe_integer n then n else fallback))"

definition positiveIntEnv :: "process_env \<Rightarrow> string \<Rightarrow> int \<Rightarrow> int" where
  "positiveIntEnv env name fallback =
     (let parsed = intEnv env name fallback in if 0 < parsed then parsed else fallback)"

definition readUploadLimits :: "process_env \<Rightarrow> upload_limits" where
  "readUploadLimits env =
     \<lparr> ul_maxFileBytes = positiveIntEnv env ''UPLOAD_MAX_FILE_BYTES'' UPLOAD_DEFAULT_MAX_FILE_BYTES,
       ul_presignExpiresSeconds = positiveIntEnv env ''UPLOAD_PRESIGN_EXPIRES_SECONDS'' 300,
       ul_magicByteCount = UPLOAD_MAGIC_BYTE_COUNT,
       ul_malwareScanEnabled = (env ''MALWARE_SCANNER_ENABLED'' = Some ''true''),
       ul_bucket = default_to ''uploads'' (env ''STORAGE_BUCKET'') \<rparr>"

section \<open>The table\<close>

record stored_row =
  sr_file :: stored_file
  sr_failureReason :: "string option"
  sr_scanOutcome :: "string option"
  sr_verifiedAt :: "instant option"
  sr_deletedAt :: "instant option"

type_synonym file_table = "stored_row list"

text \<open>The tenant a request runs for. Without one the repository uses the plain client; the policy on
  the table compares the organization of a row with the setting bound to the transaction, and does not
  apply to a database role that bypasses it.\<close>

record tenant =
  tn_organization :: "id option"
  tn_bypass :: bool

definition visible_to :: "tenant \<Rightarrow> stored_row \<Rightarrow> bool" where
  "visible_to t r \<longleftrightarrow> tn_bypass t \<or> tn_organization t = Some (sf_organizationId (sr_file r))"

datatype selector = ById id | ByKey string | BySourceKey string

definition selected :: "selector \<Rightarrow> stored_row \<Rightarrow> bool" where
  "selected sel r =
     (case sel of
        ById i \<Rightarrow> sf_id (sr_file r) = i
      | ByKey k \<Rightarrow> sf_key (sr_file r) = k
      | BySourceKey k \<Rightarrow> sf_sourceKey (sr_file r) = k)"

definition toDomain :: "stored_row \<Rightarrow> stored_file" where
  "toDomain r = sr_file r"

definition findOne :: "tenant \<Rightarrow> selector \<Rightarrow> file_table \<Rightarrow> stored_file option" where
  "findOne t sel rows =
     map_option toDomain
       (List.find (\<lambda>r. visible_to t r \<and> selected sel r \<and> sr_deletedAt r = None) rows)"

definition new_row :: "stored_file \<Rightarrow> stored_row" where
  "new_row f = \<lparr> sr_file = f, sr_failureReason = None, sr_scanOutcome = None, sr_verifiedAt = None,
     sr_deletedAt = None \<rparr>"

definition collides :: "stored_file \<Rightarrow> stored_row \<Rightarrow> bool" where
  "collides f r \<longleftrightarrow>
     sf_id (sr_file r) = sf_id f \<or> sf_sourceKey (sr_file r) = sf_sourceKey f \<or> sf_key (sr_file r) = sf_key f"

text \<open>One INSERT: the policy, the check constraint, the unique indexes.\<close>

definition insert_stored :: "tenant \<Rightarrow> stored_file \<Rightarrow> file_table \<Rightarrow> unit outcome \<times> file_table" where
  "insert_stored t f rows =
     (if \<not> visible_to t (new_row f) then (Inl (Internal ''row-level security''), rows)
      else if sf_size f \<le> 0 then (Inl (Internal ''stored_files_size_check''), rows)
      else if list_ex (collides f) rows then (Inl (Internal ''P2002''), rows)
      else (Inr (), rows @ [new_row f]))"

datatype create_outcome = Created | Duplicate

definition isUniqueConstraintViolation :: "failure \<Rightarrow> bool" where
  "isUniqueConstraintViolation e \<longleftrightarrow> e = Internal ''P2002''"

definition files_create :: "tenant \<Rightarrow> stored_file \<Rightarrow> file_table \<Rightarrow> create_outcome outcome \<times> file_table" where
  "files_create t f rows =
     (case insert_stored t f rows of
        (Inr _, rows') \<Rightarrow> (Inr Created, rows')
      | (Inl e, rows') \<Rightarrow> if isUniqueConstraintViolation e then (Inr Duplicate, rows') else (Inl e, rows'))"

text \<open>createMany is one statement: all rows or none.\<close>

fun insert_all :: "tenant \<Rightarrow> stored_file list \<Rightarrow> file_table \<Rightarrow> unit outcome \<times> file_table" where
  "insert_all t [] rows = (Inr (), rows)"
| "insert_all t (f # fs) rows =
     (case insert_stored t f rows of
        (Inl e, _) \<Rightarrow> (Inl e, rows)
      | (Inr _, rows') \<Rightarrow>
          (case insert_all t fs rows' of (Inl e, _) \<Rightarrow> (Inl e, rows) | (Inr _, rows'') \<Rightarrow> (Inr (), rows'')))"

definition files_createBatch :: "tenant \<Rightarrow> stored_file list \<Rightarrow> file_table \<Rightarrow> unit outcome \<times> file_table" where
  "files_createBatch t fs rows =
     (if fs = [] then (Inl (Internal ''Cannot create an empty upload batch''), rows) else insert_all t fs rows)"

definition with_row_status :: "stored_file_status \<Rightarrow> stored_row \<Rightarrow> stored_row" where
  "with_row_status s r = r \<lparr> sr_file := (sr_file r) \<lparr> sf_status := s \<rparr> \<rparr>"

text \<open>In a tenant context the statement and the count run in one transaction, which a wrong count
  rolls back; the plain client has committed the update by then.\<close>

definition files_publishBatch :: "tenant \<Rightarrow> id list \<Rightarrow> stored_file_status \<Rightarrow> file_table \<Rightarrow> unit outcome \<times> file_table" where
  "files_publishBatch t ids status rows =
     (if ids = [] \<or> \<not> distinct ids
      then (Inl (Internal ''Upload publication requires a nonempty set of distinct IDs''), rows)
      else
        let sel = (\<lambda>r. visible_to t r \<and> sf_id (sr_file r) \<in> set ids \<and> sf_status (sr_file r) = FINALIZING \<and>
                      sr_deletedAt r = None);
            updated = update_rows sel (with_row_status status) rows
        in if count_rows sel rows \<noteq> length ids
           then (Inl (Internal ''Upload batch changed before publication''),
                 if tn_organization t = None then updated else rows)
           else (Inr (), updated))"

definition REJECTABLE_FROM_STATUSES :: "stored_file_status list" where
  "REJECTABLE_FROM_STATUSES = [FINALIZING, VERIFYING]"

definition matchesSoftDeleted :: "stored_file_status \<Rightarrow> stored_file_status \<Rightarrow> bool" where
  "matchesSoftDeleted from_status to_status \<longleftrightarrow>
     to_status = REJECTED \<and> from_status \<in> set REJECTABLE_FROM_STATUSES"

text \<open>The fields a transition may carry; an absent field is not written.\<close>

record transition_fields =
  tf_verifiedAt :: "instant option"
  tf_failureReason :: "string option option"
  tf_scanOutcome :: "string option"

definition no_fields :: transition_fields where
  "no_fields = \<lparr> tf_verifiedAt = None, tf_failureReason = None, tf_scanOutcome = None \<rparr>"

definition write_fields :: "transition_fields \<Rightarrow> stored_row \<Rightarrow> stored_row" where
  "write_fields fs r =
     r \<lparr> sr_verifiedAt := (case tf_verifiedAt fs of None \<Rightarrow> sr_verifiedAt r | Some v \<Rightarrow> Some v),
         sr_failureReason := default_to (sr_failureReason r) (tf_failureReason fs),
         sr_scanOutcome := (case tf_scanOutcome fs of None \<Rightarrow> sr_scanOutcome r | Some v \<Rightarrow> Some v) \<rparr>"

definition status_where :: "tenant \<Rightarrow> selector \<Rightarrow> stored_file_status \<Rightarrow> stored_file_status \<Rightarrow> stored_row \<Rightarrow> bool" where
  "status_where t sel from_status to_status r \<longleftrightarrow>
     visible_to t r \<and> selected sel r \<and> sf_status (sr_file r) = from_status \<and>
     (matchesSoftDeleted from_status to_status \<or> sr_deletedAt r = None)"

definition setStatus :: "tenant \<Rightarrow> selector \<Rightarrow> stored_file_status \<Rightarrow> stored_file_status \<Rightarrow> transition_fields \<Rightarrow>
    file_table \<Rightarrow> bool \<times> file_table" where
  "setStatus t sel from_status to_status fs rows =
     (0 < count_rows (status_where t sel from_status to_status) rows,
      update_rows (status_where t sel from_status to_status)
        (\<lambda>r. write_fields fs (with_row_status to_status r)) rows)"

definition files_transition :: "tenant \<Rightarrow> id \<Rightarrow> stored_file_status \<Rightarrow> stored_file_status \<Rightarrow> transition_fields \<Rightarrow>
    file_table \<Rightarrow> bool \<times> file_table" where
  "files_transition t i = setStatus t (ById i)"

definition files_transitionByKey :: "tenant \<Rightarrow> string \<Rightarrow> stored_file_status \<Rightarrow> stored_file_status \<Rightarrow> transition_fields \<Rightarrow>
    file_table \<Rightarrow> bool \<times> file_table" where
  "files_transitionByKey t k = setStatus t (ByKey k)"

definition files_deleteIfStatus :: "tenant \<Rightarrow> id \<Rightarrow> stored_file_status \<Rightarrow> file_table \<Rightarrow> file_table" where
  "files_deleteIfStatus t i status rows =
     filter (\<lambda>r. \<not> (visible_to t r \<and> sf_id (sr_file r) = i \<and> sf_status (sr_file r) = status)) rows"

definition files_softDelete :: "tenant \<Rightarrow> instant \<Rightarrow> id \<Rightarrow> file_table \<Rightarrow> bool \<times> file_table" where
  "files_softDelete t now i rows =
     (let sel = (\<lambda>r. visible_to t r \<and> sf_id (sr_file r) = i \<and> sr_deletedAt r = None)
      in (0 < count_rows sel rows, update_rows sel (\<lambda>r. r \<lparr> sr_deletedAt := Some now \<rparr>) rows))"

end
