(* ===== verification/Uploads.thy ===== *)
theory Uploads
  imports Stored_Files Authorization
begin

text \<open>The upload handlers: presign, confirm, multipart upload, verification, deletion and reading of
  a file, with the publication service and the BullMQ dispatcher they share. A handler acts on a world
  of the table, the object store and the job queue; between its awaits other requests and jobs
  may change that world (\<open>ue_between\<close>). A ghost component, \<open>uw_issued\<close>, records every
  file id that was ever in the table. The queue is BullMQ, the scanner is the worker's
  adapter, and SHA-256 is a library function: all three are parameters.\<close>

section \<open>World and environment\<close>

record ('s, 'q) upload_world =
  uw_rows :: file_table
  uw_store :: 's
  uw_queue :: 'q
  uw_issued :: "id list"

record verification_request =
  vr_key :: string
  vr_declaredContentType :: string
  vr_bucket :: string
  vr_correlationId :: "string option"

text \<open>The calls on a BullMQ queue: \<open>getJob\<close> (whether the job exists),
  \<open>getState\<close>, \<open>retry\<close> and \<open>add\<close>.\<close>

record 'q job_queue =
  jq_getJob :: "string \<Rightarrow> ('q, bool) action"
  jq_getState :: "string \<Rightarrow> ('q, string) action"
  jq_retry :: "string \<Rightarrow> string \<Rightarrow> ('q, unit) action"
  jq_add :: "string \<Rightarrow> verification_request \<Rightarrow> ('q, unit) action"

datatype scan_verdict = Clean | Infected | Unscannable

record ('s, 'q) upload_env =
  ue_storage :: "'s storage_port"
  ue_queue :: "'q job_queue"
  ue_limits :: upload_limits
  ue_tenant :: tenant
  ue_newId :: "nat \<Rightarrow> id"
  ue_scan :: "bytes \<Rightarrow> int option \<Rightarrow> scan_verdict outcome"
  ue_check :: "principal \<Rightarrow> permission \<Rightarrow> resource_ref option \<Rightarrow> access_decision"
  ue_sha256hex :: "string \<Rightarrow> string"
  ue_now :: instant
  ue_between :: "nat \<Rightarrow> ('s, 'q) upload_world \<Rightarrow> ('s, 'q) upload_world"

type_synonym ('s, 'q, 'a) upload_action = "(('s, 'q) upload_world, 'a) action"

text \<open>An awaited call: others run first, then the call.\<close>

definition awaiting :: "('s, 'q) upload_env \<Rightarrow> nat \<Rightarrow> ('s, 'q, 'a) upload_action \<Rightarrow> ('s, 'q, 'a) upload_action" where
  "awaiting env k m w = m (ue_between env k w)"

definition on_store :: "('s, 'q) upload_env \<Rightarrow> nat \<Rightarrow> ('s, 'a) action \<Rightarrow> ('s, 'q, 'a) upload_action" where
  "on_store env k m = awaiting env k (zoom uw_store (\<lambda>s w. w \<lparr> uw_store := s \<rparr>) m)"

definition on_queue :: "('s, 'q) upload_env \<Rightarrow> nat \<Rightarrow> ('q, 'a) action \<Rightarrow> ('s, 'q, 'a) upload_action" where
  "on_queue env k m = awaiting env k (zoom uw_queue (\<lambda>q w. w \<lparr> uw_queue := q \<rparr>) m)"

definition on_rows :: "('s, 'q) upload_env \<Rightarrow> nat \<Rightarrow> (file_table, 'a) action \<Rightarrow> ('s, 'q, 'a) upload_action" where
  "on_rows env k m =
     awaiting env k (zoom uw_rows
       (\<lambda>r w. w \<lparr> uw_rows := r, uw_issued := set_add_all (uw_issued w) (map (sf_id \<circ> sr_file) r) \<rparr>) m)"

definition found :: "('s, 'q) upload_env \<Rightarrow> nat \<Rightarrow> selector \<Rightarrow> ('s, 'q, stored_file option) upload_action" where
  "found env k sel = on_rows env k (readE (findOne (ue_tenant env) sel))"

definition transitioned :: "('s, 'q) upload_env \<Rightarrow> nat \<Rightarrow> selector \<Rightarrow> stored_file_status \<Rightarrow> stored_file_status \<Rightarrow>
    transition_fields \<Rightarrow> ('s, 'q, bool) upload_action" where
  "transitioned env k sel from_status to_status fs =
     on_rows env k (\<lambda>rows. case setStatus (ue_tenant env) sel from_status to_status fs rows of
       (done, rows') \<Rightarrow> (Inr done, rows'))"

section \<open>The dispatcher\<close>

definition verificationJobId :: "('s, 'q) upload_env \<Rightarrow> string \<Rightarrow> string" where
  "verificationJobId env storageKey = ''verify__'' @ ue_sha256hex env storageKey"

definition enqueueUploadVerification :: "('s, 'q) upload_env \<Rightarrow> nat \<Rightarrow> verification_request \<Rightarrow>
    ('s, 'q, unit) upload_action" where
  "enqueueUploadVerification env k request =
     (let jobId = verificationJobId env (vr_key request); queue = ue_queue env;
          add = on_queue env (k + 3) (jq_add queue jobId request)
      in bindE (on_queue env k (jq_getJob queue jobId)) (\<lambda>existing.
           if existing then
             bindE (on_queue env (k + 1) (jq_getState queue jobId)) (\<lambda>state.
               thenE
                 (if state = ''failed'' \<or> state = ''completed''
                  then on_queue env (k + 2) (jq_retry queue jobId state) else returnE ())
                 (if state \<noteq> ''unknown'' then returnE () else add))
           else add))"

section \<open>The publication service\<close>

definition file_answer :: "stored_file \<Rightarrow> string option \<Rightarrow> file_result" where
  "file_answer f url =
     \<lparr> fr_id = Some (sf_id f), fr_key = sf_key f, fr_bucket = sf_bucket f, fr_size = sf_size f,
       fr_status = Some (sf_status f), fr_url = url \<rparr>"

definition publication_result :: "('s, 'q) upload_env \<Rightarrow> nat \<Rightarrow> stored_file \<Rightarrow> string option \<Rightarrow>
    ('s, 'q, file_result) upload_action" where
  "publication_result env k file correlationId =
     thenE
       (if sf_status file = VERIFYING
        then quietly (enqueueUploadVerification env k
               \<lparr> vr_key = sf_key file, vr_declaredContentType = sf_contentType file,
                 vr_bucket = sf_bucket file, vr_correlationId = correlationId \<rparr>)
        else returnE ())
       (if sf_status file = READY
        then bindE (on_store env (k + 4) (st_getSignedUrl (ue_storage env) (sf_key file) None (Some (sf_bucket file))))
               (\<lambda>url. returnE (file_answer file (Some url)))
        else returnE (file_answer file None))"

section \<open>Presigning\<close>

definition presign_upload :: "('s, 'q) upload_env \<Rightarrow> id \<Rightarrow> string \<Rightarrow> ('s, 'q, presigned_upload) upload_action" where
  "presign_upload env userId contentType =
     bindE (fromE (extensionForMimeType contentType)) (\<lambda>extension.
       on_store env 0 (st_presignUpload (ue_storage env)
         (''uploads/'' @ userId @ ''/'' @ ue_newId env 0 @ ''.'' @ extension)
         \<lparr> po_bucket = None, po_contentType = contentType,
           po_maxBytes = ul_maxFileBytes (ue_limits env),
           po_expiresInSeconds = Some (ul_presignExpiresSeconds (ue_limits env)) \<rparr>))"

section \<open>Confirming\<close>

record confirm_command =
  ccf_organizationId :: id
  ccf_userId :: id
  ccf_sourceKey :: string
  ccf_correlationId :: "string option"

definition isPolicyViolation :: "failure \<Rightarrow> bool" where
  "isPolicyViolation e \<longleftrightarrow> failure_kind e = Some Validation"

definition commitFailed :: failure where
  "commitFailed = Internal ''Failed to finalize upload''"

definition uploadInProgress :: failure where
  "uploadInProgress =
     Domain (new_domain_exception
       \<lparr> opt_kind = Some Conflict, opt_code = Some ''upload_in_progress'', opt_title = Some ''common.conflict'',
         opt_messageKey = None, opt_args = None,
         opt_violations =
           [\<lparr> vi_path = ''key'', vi_code = ''upload_in_progress'',
              vi_message = ''Upload confirmation is still in progress; retry shortly'',
              vi_messageKey = None, vi_rule = None, vi_constraint = None \<rparr>],
         opt_permanent = Some False \<rparr>)"

definition readHeadAndAssertMagicBytes :: "('s, 'q) upload_env \<Rightarrow> nat \<Rightarrow> string \<Rightarrow> string \<Rightarrow> string \<Rightarrow>
    ('s, 'q, unit) upload_action" where
  "readHeadAndAssertMagicBytes env k key contentType bucket =
     bindE (on_store env k (st_readRange (ue_storage env) key (ul_magicByteCount (ue_limits env)) (Some bucket)))
       (\<lambda>head. fromE (assertMagicBytesMatch head contentType key))"

definition safeDelete :: "('s, 'q) upload_env \<Rightarrow> nat \<Rightarrow> string \<Rightarrow> ('s, 'q, unit) upload_action" where
  "safeDelete env k key = quietly (on_store env k (st_delete (ue_storage env) key None))"

definition validateStagedObject :: "('s, 'q) upload_env \<Rightarrow> nat \<Rightarrow> string \<Rightarrow> object_metadata \<Rightarrow>
    ('s, 'q, unit) upload_action" where
  "validateStagedObject env k sourceKey meta =
     catchE
       (thenE (fromE (assertMimeAllowed (om_contentType meta)))
              (fromE (assertSizeWithinLimit (om_size meta) (ul_maxFileBytes (ue_limits env)))))
       (\<lambda>e. thenE (if isPolicyViolation e then safeDelete env k sourceKey else returnE ()) (throwE e))"

text \<open>The magic bytes, checked on the published copy when no scan will follow.\<close>

definition check_finalized :: "('s, 'q) upload_env \<Rightarrow> nat \<Rightarrow> stored_file \<Rightarrow> ('s, 'q, unit) upload_action" where
  "check_finalized env k stored =
     (if ul_malwareScanEnabled (ue_limits env) then returnE ()
      else catchE
        (readHeadAndAssertMagicBytes env k (sf_key stored) (sf_contentType stored) (sf_bucket stored))
        (\<lambda>e. thenE
          (if isPolicyViolation e then
             bindE (transitioned env (k + 1) (ById (sf_id stored)) FINALIZING REJECTED no_fields) (\<lambda>rejected.
               if rejected
               then on_store env (k + 2) (st_delete (ue_storage env) (sf_key stored) (Some (sf_bucket stored)))
               else returnE ())
           else returnE ())
          (throwE e)))"

definition published_status :: "('s, 'q) upload_env \<Rightarrow> stored_file_status" where
  "published_status env = (if ul_malwareScanEnabled (ue_limits env) then VERIFYING else READY)"

definition completeFinalizing :: "('s, 'q) upload_env \<Rightarrow> nat \<Rightarrow> stored_file \<Rightarrow> string option \<Rightarrow>
    ('s, 'q, file_result) upload_action" where
  "completeFinalizing env k stored correlationId =
     thenE (check_finalized env k stored)
       (bindE (transitioned env (k + 3) (ById (sf_id stored)) FINALIZING (published_status env) no_fields)
         (\<lambda>moved.
           if \<not> moved then
             bindE (found env (k + 4) (ById (sf_id stored))) (\<lambda>current.
               case current of
                 None \<Rightarrow> throwE commitFailed
               | Some c \<Rightarrow>
                   if sf_status c = FINALIZING \<or> sf_status c = REJECTED then throwE commitFailed
                   else publication_result env (k + 5) c correlationId)
           else publication_result env (k + 5) (withStatus (published_status env) stored) correlationId))"

definition recoverExisting :: "('s, 'q) upload_env \<Rightarrow> nat \<Rightarrow> stored_file \<Rightarrow> string option \<Rightarrow>
    ('s, 'q, file_result) upload_action" where
  "recoverExisting env k stored correlationId =
     (if sf_status stored = REJECTED then throwE (objectNotFound (sf_sourceKey stored))
      else if sf_status stored \<noteq> FINALIZING then publication_result env k stored correlationId
      else bindE (on_store env k (st_head (ue_storage env) (sf_key stored) (Some (sf_bucket stored)))) (\<lambda>meta.
             case meta of
               None \<Rightarrow> throwE uploadInProgress
             | Some _ \<Rightarrow> completeFinalizing env (k + 1) stored correlationId))"

text \<open>\<open>dotIndex >= 0 ? sourceKey.slice(dotIndex) : ''\<close>\<close>

definition extension_of :: "string \<Rightarrow> string" where
  "extension_of key =
     (if CHR ''.'' \<in> set key then CHR ''.'' # rev (takeWhile (\<lambda>c. c \<noteq> CHR ''.'') (rev key)) else [])"

definition confirm_props :: "('s, 'q) upload_env \<Rightarrow> confirm_command \<Rightarrow> object_metadata \<Rightarrow> stored_file" where
  "confirm_props env command meta =
     \<lparr> sf_id = ue_newId env 0, sf_organizationId = ccf_organizationId command, sf_userId = ccf_userId command,
       sf_sourceKey = ccf_sourceKey command,
       sf_key = ''files/'' @ ccf_userId command @ ''/'' @ ue_newId env 0 @ extension_of (ccf_sourceKey command),
       sf_bucket = om_bucket meta, sf_contentType = om_contentType meta, sf_size = om_size meta,
       sf_etag = om_etag meta, sf_status = FINALIZING \<rparr>"

definition publish :: "('s, 'q) upload_env \<Rightarrow> confirm_command \<Rightarrow> object_metadata \<Rightarrow>
    ('s, 'q, file_result) upload_action" where
  "publish env command meta =
     (let props = confirm_props env command meta
      in bindE (on_rows env 3 (files_create (ue_tenant env) props)) (\<lambda>created.
           if created = Duplicate then
             bindE (found env 4 (BySourceKey (ccf_sourceKey command))) (\<lambda>concurrent.
               case concurrent of
                 Some c \<Rightarrow> recoverExisting env 20 c (ccf_correlationId command)
               | None \<Rightarrow> throwE commitFailed)
           else
             thenE
               (catchE
                 (on_store env 5 (st_finalize (ue_storage env) (ccf_sourceKey command) (sf_key props)
                    (om_etag meta) (Some (om_bucket meta))))
                 (\<lambda>_. thenE
                   (quietly (on_rows env 6 (\<lambda>rows.
                      (Inr (), files_deleteIfStatus (ue_tenant env) (sf_id props) FINALIZING rows))))
                   (throwE commitFailed)))
               (completeFinalizing env 30 props (ccf_correlationId command))))"

definition confirm_upload :: "('s, 'q) upload_env \<Rightarrow> confirm_command \<Rightarrow> ('s, 'q, file_result) upload_action" where
  "confirm_upload env command =
     thenE (fromE (assertOwnsSourceKey (ccf_sourceKey command) (ccf_userId command)))
       (bindE (found env 0 (BySourceKey (ccf_sourceKey command))) (\<lambda>existing.
          case existing of
            Some f \<Rightarrow>
              if sf_organizationId f \<noteq> ccf_organizationId command \<or> sf_userId f \<noteq> ccf_userId command
              then throwE (objectNotFound (ccf_sourceKey command))
              else recoverExisting env 10 f (ccf_correlationId command)
          | None \<Rightarrow>
              bindE (on_store env 1 (st_head (ue_storage env) (ccf_sourceKey command) None)) (\<lambda>meta.
                case meta of
                  None \<Rightarrow> throwE (objectNotFound (ccf_sourceKey command))
                | Some m \<Rightarrow>
                    thenE (validateStagedObject env 2 (ccf_sourceKey command) m) (publish env command m))))"

section \<open>Verification\<close>

record verify_command =
  vc_key :: string
  vc_declaredContentType :: string
  vc_bucket :: string

datatype verify_outcome = Verified | Rejected | Skipped

definition reject_upload :: "('s, 'q) upload_env \<Rightarrow> nat \<Rightarrow> string \<Rightarrow> string \<Rightarrow> string \<Rightarrow>
    ('s, 'q, verify_outcome) upload_action" where
  "reject_upload env k key bucket failureReason =
     bindE (transitioned env k (ByKey key) VERIFYING REJECTED
              (no_fields \<lparr> tf_failureReason := Some (Some failureReason) \<rparr>)) (\<lambda>claimed.
       if \<not> claimed then
         bindE (found env (k + 1) (ByKey key)) (\<lambda>stored.
           case stored of
             Some r \<Rightarrow>
               if sf_status r = REJECTED
               then thenE (on_store env (k + 2) (st_delete (ue_storage env) key (Some bucket))) (returnE Rejected)
               else returnE Skipped
           | None \<Rightarrow> returnE Skipped)
       else thenE (on_store env (k + 2) (st_delete (ue_storage env) key (Some bucket))) (returnE Rejected))"

definition scan_and_publish :: "('s, 'q) upload_env \<Rightarrow> verify_command \<Rightarrow> ('s, 'q, verify_outcome) upload_action" where
  "scan_and_publish env command =
     bindE (on_store env 1 (st_head (ue_storage env) (vc_key command) (Some (vc_bucket command)))) (\<lambda>meta.
     bindE (on_store env 2 (st_readStream (ue_storage env) (vc_key command) (Some (vc_bucket command)))) (\<lambda>content.
     bindE (fromE (ue_scan env content (map_option om_size meta))) (\<lambda>verdict.
       if verdict = Infected
       then reject_upload env 10 (vc_key command) (vc_bucket command) ''Malware scan rejected the object''
       else
         bindE (transitioned env 3 (ByKey (vc_key command)) VERIFYING READY
                  \<lparr> tf_verifiedAt = Some (ue_now env), tf_failureReason = Some None,
                    tf_scanOutcome = Some (if verdict = Unscannable then ''SKIPPED_TOO_LARGE'' else ''CLEAN'') \<rparr>)
           (\<lambda>flipped. returnE (if flipped then Verified else Skipped)))))"

text \<open>\<open>err.code\<close> of the DomainException becomes the failure reason of the row.\<close>

definition verify_upload :: "('s, 'q) upload_env \<Rightarrow> verify_command \<Rightarrow> ('s, 'q, verify_outcome) upload_action" where
  "verify_upload env command =
     bindE
       (catchE
         (thenE (readHeadAndAssertMagicBytes env 0 (vc_key command) (vc_declaredContentType command) (vc_bucket command))
                (returnE None))
         (\<lambda>e. if isPolicyViolation e then returnE (failure_code e) else throwE e))
       (\<lambda>violation.
         case violation of
           Some why \<Rightarrow> reject_upload env 20 (vc_key command) (vc_bucket command) why
         | None \<Rightarrow> scan_and_publish env command)"

section \<open>Multipart uploads\<close>

text \<open>A prepared file, with the bytes of its temporary file.\<close>

record multipart_file =
  mf_content :: bytes
  mf_contentType :: string
  mf_size :: int
  mf_digest :: string

record upload_files_command =
  uf_organizationId :: id
  uf_userId :: id
  uf_files :: "multipart_file list"
  uf_aborted :: "nat \<Rightarrow> bool"
  uf_correlationId :: "string option"

definition throwIfAborted :: "upload_files_command \<Rightarrow> nat \<Rightarrow> ('w, unit) action" where
  "throwIfAborted command n = (if uf_aborted command n then throwE (Internal ''AbortError'') else returnE ())"

definition prepare :: "('s, 'q) upload_env \<Rightarrow> upload_files_command \<Rightarrow> nat \<Rightarrow> multipart_file \<Rightarrow> stored_file outcome" where
  "prepare env command i file =
     (case extensionForMimeType (mf_contentType file) of
        Inl e \<Rightarrow> Inl e
      | Inr ext \<Rightarrow>
          let key = ''files/'' @ uf_userId command @ ''/'' @ ue_newId env i @ ''.'' @ ext
          in Inr \<lparr> sf_id = ue_newId env i, sf_organizationId = uf_organizationId command,
                   sf_userId = uf_userId command, sf_sourceKey = key, sf_key = key,
                   sf_bucket = ul_bucket (ue_limits env), sf_contentType = mf_contentType file,
                   sf_size = mf_size file, sf_etag = mf_digest file, sf_status = FINALIZING \<rparr>)"

fun prepare_all :: "('s, 'q) upload_env \<Rightarrow> upload_files_command \<Rightarrow> nat \<Rightarrow> multipart_file list \<Rightarrow>
    (multipart_file \<times> stored_file) list outcome" where
  "prepare_all env command i [] = Inr []"
| "prepare_all env command i (f # fs) =
     (case prepare env command i f of
        Inl e \<Rightarrow> Inl e
      | Inr props \<Rightarrow>
          (case prepare_all env command (i + 1) fs of Inl e \<Rightarrow> Inl e | Inr rest \<Rightarrow> Inr ((f, props) # rest)))"

definition upload_one :: "('s, 'q) upload_env \<Rightarrow> upload_files_command \<Rightarrow> nat \<Rightarrow> multipart_file \<times> stored_file \<Rightarrow>
    ('s, 'q, unit) upload_action" where
  "upload_one env command i fp =
     (case fp of (file, props) \<Rightarrow>
        thenE (throwIfAborted command i)
          (bindE (on_store env (100 + i) (st_uploadStream (ue_storage env) (sf_key props) (mf_content file)
                    \<lparr> su_bucket = Some (sf_bucket props), su_contentType = Some (sf_contentType props),
                      su_size = sf_size props, su_aborted = uf_aborted command i \<rparr>))
            (\<lambda>_. returnE ())))"

definition cleanup_one :: "('s, 'q) upload_env \<Rightarrow> stored_file \<Rightarrow> ('s, 'q, unit) upload_action" where
  "cleanup_one env file =
     quietly
       (thenE (on_store env 50 (st_delete (ue_storage env) (sf_key file) (Some (sf_bucket file))))
              (on_rows env 51 (\<lambda>rows.
                 (Inr (), files_deleteIfStatus (ue_tenant env) (sf_id file) FINALIZING rows))))"

definition upload_files :: "('s, 'q) upload_env \<Rightarrow> upload_files_command \<Rightarrow>
    ('s, 'q, file_result list) upload_action" where
  "upload_files env command =
     thenE (throwIfAborted command 0)
     (bindE (fromE (prepare_all env command 0 (uf_files command))) (\<lambda>prepared.
       thenE (on_rows env 1 (files_createBatch (ue_tenant env) (map snd prepared)))
       (thenE
         (catchE
           (thenE (each (\<lambda>(i, fp). upload_one env command i fp) (List.enumerate 1 prepared))
                  (throwIfAborted command (length prepared + 1)))
           (\<lambda>e. thenE (each (cleanup_one env) (map snd prepared)) (throwE e)))
         (thenE
           (on_rows env 2 (files_publishBatch (ue_tenant env) (map (sf_id \<circ> snd) prepared) (published_status env)))
           (promise_all (\<lambda>(_, props).
               publication_result env 60 (withStatus (published_status env) props) (uf_correlationId command))
             prepared)))))"

section \<open>Reading and deleting\<close>

definition file_ref :: "stored_file \<Rightarrow> resource_ref" where
  "file_ref f = ResourceRef ''file'' (sf_id f) (Some (sf_userId f)) (Some (sf_organizationId f)) None"

definition delete_upload :: "('s, 'q) upload_env \<Rightarrow> id \<Rightarrow> id \<Rightarrow> id \<Rightarrow> ('s, 'q, unit) upload_action" where
  "delete_upload env organizationId userId fileId =
     bindE (found env 0 (ById fileId)) (\<lambda>file.
       case file of
         None \<Rightarrow> throwE (objectNotFound fileId)
       | Some f \<Rightarrow>
           if \<not> allowed (ue_check env (UserPrincipal userId organizationId None) ''file:delete'' (Some (file_ref f)))
           then throwE (objectNotFound fileId)
           else bindE (on_rows env 1 (\<lambda>rows. case files_softDelete (ue_tenant env) (ue_now env) fileId rows of
                    (gone, rows') \<Rightarrow> (Inr gone, rows'))) (\<lambda>_. returnE ()))"

definition get_upload :: "('s, 'q) upload_env \<Rightarrow> id \<Rightarrow> id \<Rightarrow> id \<Rightarrow> ('s, 'q, file_result) upload_action" where
  "get_upload env organizationId userId fileId =
     bindE (found env 0 (ById fileId)) (\<lambda>file.
       case file of
         None \<Rightarrow> throwE (objectNotFound fileId)
       | Some f \<Rightarrow>
           if sf_organizationId f \<noteq> organizationId then throwE (objectNotFound fileId)
           else if \<not> allowed (ue_check env (UserPrincipal userId organizationId None) ''file:read'' (Some (file_ref f)))
           then throwE (objectNotFound fileId)
           else publication_result env 1 f None)"

end
