(* ===== verification/Multipart.thy ===== *)
theory Multipart
  imports Uploads
begin

text \<open>The multipart preparation of libs/modules/upload/src/presentation/multipart: at most so many
  requests at a time, each part streamed chunk by chunk through an inspector that counts bytes, keeps
  the first sixteen and stops at the limits, then checked for size and magic bytes. A part arrives as a list of
  chunks, cut anywhere. The multipart parser is @fastify/multipart: its parts are the input, its
  failures a constructor of it.\<close>

section \<open>One file\<close>

record inspector =
  in_signature :: bytes
  in_size :: nat
  in_remaining :: int
  in_written :: bytes

text \<open>\<open>chunk.copy(signature, size, 0, UPLOAD_MAGIC_BYTE_COUNT - size)\<close>\<close>

definition copy_into :: "bytes \<Rightarrow> nat \<Rightarrow> bytes \<Rightarrow> bytes" where
  "copy_into target offset chunk =
     (let piece = take (length target - offset) chunk
      in take offset target @ piece @ drop (offset + length piece) target)"

definition byte_limit_exceeded :: failure where
  "byte_limit_exceeded = Http 413 ''Upload exceeds the byte limit.''"

definition inspect_chunk :: "int \<Rightarrow> bytes \<Rightarrow> inspector \<Rightarrow> failure option \<times> inspector" where
  "inspect_chunk maximum chunk s =
     (let sig = (if in_size s < UPLOAD_MAGIC_BYTE_COUNT then copy_into (in_signature s) (in_size s) chunk
                 else in_signature s);
          n = in_size s + length chunk;
          rest = in_remaining s - int (length chunk);
          s' = s \<lparr> in_signature := sig, in_size := n, in_remaining := rest \<rparr>
      in if rest < 0 \<or> maximum < int n then (Some byte_limit_exceeded, s')
         else (None, s' \<lparr> in_written := in_written s @ chunk \<rparr>))"

fun inspect_all :: "int \<Rightarrow> bytes list \<Rightarrow> inspector \<Rightarrow> failure option \<times> inspector" where
  "inspect_all maximum [] s = (None, s)"
| "inspect_all maximum (c # cs) s =
     (case inspect_chunk maximum c s of
        (Some e, s') \<Rightarrow> (Some e, s')
      | (None, s') \<Rightarrow> inspect_all maximum cs s')"

definition fresh_inspector :: "int \<Rightarrow> inspector" where
  "fresh_inspector remaining =
     \<lparr> in_signature = replicate UPLOAD_MAGIC_BYTE_COUNT 0, in_size = 0, in_remaining = remaining, in_written = [] \<rparr>"

record file_part =
  pt_fieldname :: string
  pt_mimetype :: string
  pt_chunks :: "bytes list"
  pt_truncated :: bool

text \<open>\<open>saveFile\<close>, with the remaining byte budget of the request before and after. The digest is
  SHA-256, a parameter.\<close>

definition saveFile :: "(bytes \<Rightarrow> string) \<Rightarrow> int \<Rightarrow> int \<Rightarrow> file_part \<Rightarrow> multipart_file outcome \<times> int" where
  "saveFile sha256hex maximum remaining part =
     (case inspect_all maximum (pt_chunks part) (fresh_inspector remaining) of
        (Some e, s) \<Rightarrow> (Inl e, in_remaining s)
      | (None, s) \<Rightarrow>
          (if pt_truncated part then Inl (Http 413 ''File exceeds the byte limit.'')
           else case assertSizeWithinLimit (int (in_size s)) maximum of
             Inl e \<Rightarrow> Inl e
           | Inr _ \<Rightarrow>
               (case assertMagicBytesMatch (take (min (in_size s) UPLOAD_MAGIC_BYTE_COUNT) (in_signature s))
                       (pt_mimetype part) ''file'' of
                  Inl e \<Rightarrow> Inl e
                | Inr _ \<Rightarrow>
                    Inr \<lparr> mf_content = in_written s, mf_contentType = pt_mimetype part,
                          mf_size = int (in_size s), mf_digest = sha256hex (in_written s) \<rparr>),
           in_remaining s))"

section \<open>The request\<close>

datatype form_part = FormField string | FormFile file_part | ParserError nat

record multipart_limits =
  ml_maxFileBytes :: int
  ml_maxFiles :: int
  ml_maxTotalBytes :: int
  ml_maxConcurrent :: int

definition read_multipart_limits :: "process_env \<Rightarrow> multipart_limits" where
  "read_multipart_limits env =
     \<lparr> ml_maxFileBytes = ul_maxFileBytes (readUploadLimits env),
       ml_maxFiles = positiveIntEnv env ''UPLOAD_MAX_FILES'' 10,
       ml_maxTotalBytes = positiveIntEnv env ''UPLOAD_MAX_TOTAL_BYTES'' (1024 * 1024 * 1024),
       ml_maxConcurrent = positiveIntEnv env ''UPLOAD_MAX_CONCURRENT_REQUESTS'' 4 \<rparr>"

definition acquireRequest :: "int \<Rightarrow> int \<Rightarrow> unit outcome \<times> int" where
  "acquireRequest maximum activeRequests =
     (if maximum \<le> activeRequests then (Inl (Http 429 ''Upload capacity reached. Retry shortly.''), activeRequests)
      else (Inr (), activeRequests + 1))"

text \<open>A finished or closed reply releases its slot once.\<close>

definition release_request :: "bool \<Rightarrow> int \<Rightarrow> bool \<times> int" where
  "release_request released activeRequests =
     (if released then (True, activeRequests) else (True, activeRequests - 1))"

definition aborted_error :: failure where
  "aborted_error = Internal ''AbortError''"

fun prepare_parts :: "(bytes \<Rightarrow> string) \<Rightarrow> multipart_limits \<Rightarrow> (nat \<Rightarrow> bool) \<Rightarrow> nat \<Rightarrow> form_part list \<Rightarrow>
    int \<Rightarrow> multipart_file list \<Rightarrow> multipart_file list outcome" where
  "prepare_parts sha l aborted n [] remaining files =
     (if files = [] then Inl (Http 400 ''At least one file is required.'') else Inr files)"
| "prepare_parts sha l aborted n (p # ps) remaining files =
     (case p of
        ParserError status \<Rightarrow> Inl (Http status ''Invalid multipart upload.'')
      | FormField _ \<Rightarrow>
          if aborted n then Inl aborted_error else Inl (Http 400 ''Only file fields named file are accepted.'')
      | FormFile part \<Rightarrow>
          if aborted n then Inl aborted_error
          else if pt_fieldname part \<noteq> ''file'' then Inl (Http 400 ''Only file fields named file are accepted.'')
          else if ml_maxFiles l \<le> int (length files) then Inl (Http 413 ''Upload exceeds the file count limit.'')
          else
            (case assertMimeAllowed (pt_mimetype part) of
               Inl e \<Rightarrow> Inl e
             | Inr _ \<Rightarrow>
                 (case saveFile sha (ml_maxFileBytes l) remaining part of
                    (Inl e, _) \<Rightarrow> Inl e
                  | (Inr f, remaining') \<Rightarrow> prepare_parts sha l aborted (n + 1) ps remaining' (files @ [f]))))"

definition prepare_multipart :: "(bytes \<Rightarrow> string) \<Rightarrow> multipart_limits \<Rightarrow> bool \<Rightarrow> (nat \<Rightarrow> bool) \<Rightarrow> form_part list \<Rightarrow>
    int \<Rightarrow> multipart_file list outcome \<times> int" where
  "prepare_multipart sha l isMultipart aborted parts activeRequests =
     (if \<not> isMultipart then (Inl (Http 400 ''Expected multipart/form-data.''), activeRequests)
      else case acquireRequest (ml_maxConcurrent l) activeRequests of
        (Inl e, active) \<Rightarrow> (Inl e, active)
      | (Inr _, active) \<Rightarrow> (prepare_parts sha l aborted 0 parts (ml_maxTotalBytes l) [], active))"

definition prepareMultipartUpload :: "multipart_file list outcome \<Rightarrow> multipart_file outcome" where
  "prepareMultipartUpload result =
     (case result of
        Inl e \<Rightarrow> Inl e
      | Inr files \<Rightarrow> (case files of [f] \<Rightarrow> Inr f | _ \<Rightarrow> Inl (Http 400 ''Exactly one file is required.'')))"

section \<open>Streaming is inspection of the whole\<close>

text \<open>What a file must be, said of its bytes at once.\<close>

definition whole_file_check :: "(bytes \<Rightarrow> string) \<Rightarrow> int \<Rightarrow> int \<Rightarrow> bytes \<Rightarrow> string \<Rightarrow> bool \<Rightarrow> multipart_file outcome" where
  "whole_file_check sha256hex maximum remaining body mimetype truncated =
     (let n = int (length body)
      in if remaining < n \<or> maximum < n then Inl byte_limit_exceeded
         else if truncated then Inl (Http 413 ''File exceeds the byte limit.'')
         else case assertSizeWithinLimit n maximum of
           Inl e \<Rightarrow> Inl e
         | Inr _ \<Rightarrow>
             (case assertMagicBytesMatch body mimetype ''file'' of
                Inl e \<Rightarrow> Inl e
              | Inr _ \<Rightarrow> Inr \<lparr> mf_content = body, mf_contentType = mimetype, mf_size = n, mf_digest = sha256hex body \<rparr>))"

text \<open>The inspector after some bytes.\<close>

definition inspected :: "int \<Rightarrow> bytes \<Rightarrow> inspector \<Rightarrow> bool" where
  "inspected remaining body s \<longleftrightarrow>
     in_size s = length body \<and> in_remaining s = remaining - int (length body) \<and> in_written s = body \<and>
     in_signature s = take 16 body @ replicate (16 - length body) 0"

lemma inspected_fresh: "inspected remaining [] (fresh_inspector remaining)"
  by (simp add: inspected_def fresh_inspector_def UPLOAD_MAGIC_BYTE_COUNT_def)

lemma copied_signature:
  assumes "length body < 16"
  shows "copy_into (take 16 body @ replicate (16 - length body) 0) (length body) chunk =
     take 16 (body @ chunk) @ replicate (16 - length (body @ chunk)) (0 :: 8 word)"
  using assms by (simp add: copy_into_def Let_def min_def)

lemma inspect_chunk_step:
  assumes "inspected remaining body s"
  shows "inspect_chunk maximum chunk s =
     (if remaining < int (length (body @ chunk)) \<or> maximum < int (length (body @ chunk))
      then (Some byte_limit_exceeded, snd (inspect_chunk maximum chunk s))
      else (None, snd (inspect_chunk maximum chunk s))) \<and>
     (\<not> (remaining < int (length (body @ chunk)) \<or> maximum < int (length (body @ chunk))) \<longrightarrow>
        inspected remaining (body @ chunk) (snd (inspect_chunk maximum chunk s)))"
proof (cases "length body < 16")
  case True
  then show ?thesis using assms copied_signature[OF True, of chunk]
    by (simp add: inspect_chunk_def inspected_def Let_def UPLOAD_MAGIC_BYTE_COUNT_def)
next
  case False
  then show ?thesis using assms
    by (simp add: inspect_chunk_def inspected_def Let_def UPLOAD_MAGIC_BYTE_COUNT_def)
qed

lemma inspect_all_whole:
  assumes "inspected remaining body s" "int (length body) \<le> remaining" "int (length body) \<le> maximum"
  shows "(if remaining < int (length (body @ concat chunks)) \<or> maximum < int (length (body @ concat chunks))
          then fst (inspect_all maximum chunks s) = Some byte_limit_exceeded
          else fst (inspect_all maximum chunks s) = None \<and>
               inspected remaining (body @ concat chunks) (snd (inspect_all maximum chunks s)))"
  using assms
proof (induction chunks arbitrary: body s)
  case (Cons c chunks)
  note step = inspect_chunk_step[OF Cons.prems(1), of maximum c]
  show ?case
  proof (cases "remaining < int (length (body @ c)) \<or> maximum < int (length (body @ c))")
    case True
    then have "fst (inspect_all maximum (c # chunks) s) = Some byte_limit_exceeded"
      using step by (auto split: prod.splits option.splits)
    then show ?thesis using True by auto
  next
    case False
    then have i: "inspect_chunk maximum c s = (None, snd (inspect_chunk maximum c s))"
      "inspected remaining (body @ c) (snd (inspect_chunk maximum c s))" using step by auto
    have e: "inspect_all maximum (c # chunks) s = inspect_all maximum chunks (snd (inspect_chunk maximum c s))"
      by (subst inspect_all.simps, subst i(1)) simp
    have a: "(body @ c) @ concat chunks = body @ concat (c # chunks)" by simp
    have b: "int (length (body @ c)) \<le> remaining" "int (length (body @ c)) \<le> maximum" using False by auto
    show ?thesis unfolding e using Cons.IH[OF i(2) b] unfolding a .
  qed
qed simp

lemma detect_signature:
  "detectFileType (take (min (length body) 16) (take 16 body @ replicate (16 - length body) 0)) = detectFileType body"
proof -
  have e: "take (min (length body) 16) (take 16 body @ replicate (16 - length body) (0 :: 8 word)) = take 16 body"
    by (cases "length body \<le> 16") (simp_all add: min_def)
  show ?thesis unfolding e by (rule detect_head) simp
qed

text \<open>C19. Inspecting a part chunk by chunk is inspecting the file as a whole: however the
  bytes are cut, the counts, the copied signature and the limits give the same verdict as one look at
  all the bytes, and an accepted file costs the request's budget exactly its size.\<close>

theorem streamed_file_is_inspected_whole:
  assumes "0 \<le> remaining" "0 \<le> maximum"
  shows "fst (saveFile sha256hex maximum remaining part) =
      whole_file_check sha256hex maximum remaining (concat (pt_chunks part)) (pt_mimetype part) (pt_truncated part) \<and>
    (\<forall>f remaining'. saveFile sha256hex maximum remaining part = (Inr f, remaining') \<longrightarrow>
       remaining' = remaining - int (length (concat (pt_chunks part))) \<and> 0 \<le> remaining')"
proof -
  let ?body = "concat (pt_chunks part)"
  let ?r = "inspect_all maximum (pt_chunks part) (fresh_inspector remaining)"
  note whole = inspect_all_whole[OF inspected_fresh, of remaining maximum "pt_chunks part", simplified, OF assms]
  show ?thesis
  proof (cases "remaining < int (length ?body) \<or> maximum < int (length ?body)")
    case True
    then have "fst ?r = Some byte_limit_exceeded" using whole by auto
    then obtain s where "?r = (Some byte_limit_exceeded, s)" by (cases ?r) simp
    then show ?thesis using True by (simp add: saveFile_def whole_file_check_def Let_def)
  next
    case False
    then have "fst ?r = None" "inspected remaining ?body (snd ?r)" using whole by auto
    then obtain s where r: "?r = (None, s)" and i: "inspected remaining ?body s" by (cases ?r) auto
    have m: "assertMagicBytesMatch (take (min (in_size s) UPLOAD_MAGIC_BYTE_COUNT) (in_signature s)) m l =
        assertMagicBytesMatch ?body m l" for m l
      using i detect_signature[of ?body]
      by (simp add: assertMagicBytesMatch_def inspected_def UPLOAD_MAGIC_BYTE_COUNT_def)
    have f: "in_size s = length ?body" "in_remaining s = remaining - int (length ?body)" "in_written s = ?body"
      using i by (simp_all add: inspected_def)
    have saved: "saveFile sha256hex maximum remaining part =
        (whole_file_check sha256hex maximum remaining ?body (pt_mimetype part) (pt_truncated part),
         remaining - int (length ?body))"
      using False unfolding saveFile_def r whole_file_check_def Let_def m[unfolded f(1)] f
      by (simp only: prod.case option.case f m[unfolded f(1)] de_Morgan_disj simp_thms if_False)
    show ?thesis using False unfolding saved by simp
  qed
qed

text \<open>A GIF cut into three chunks.\<close>

definition example_part :: file_part where
  "example_part = \<lparr> pt_fieldname = ''file'', pt_mimetype = ''image/gif'',
     pt_chunks = [[0x47, 0x49], [], [0x46, 0x38, 0x39, 0x61]], pt_truncated = False \<rparr>"

theorem streamed_file_is_inspected_whole_witness:
  "fst (saveFile (\<lambda>_. ''d'') 10 8 example_part) =
     whole_file_check (\<lambda>_. ''d'') 10 8 [0x47, 0x49, 0x46, 0x38, 0x39, 0x61] ''image/gif'' False"
  using conjunct1[OF streamed_file_is_inspected_whole[of 8 10 "\<lambda>_. ''d''" example_part]]
  by (simp add: example_part_def)

end
