(* ===== verification/Local_Storage.thy ===== *)
theory Local_Storage
  imports Storage Iso_Date
begin

text \<open>The file-system storage adapter (local-storage.adapter.ts). The file system below the storage root
  is an association list from paths, the lists of their components, to files; directories are implicit. A
  temporary file is private to the call that made it and lives in that call's variables. Between
  the awaits of a call other requests may change the files (\<open>lc_between\<close>). SHA-256 and
  HMAC-SHA256 are library functions and parameters; disk faults other than missing and clashing
  paths are not modelled.\<close>

section \<open>State and configuration\<close>

type_synonym path = "string list"

record stored_meta =
  sm_contentType :: string
  sm_size :: int
  sm_etag :: string

datatype local_file = ObjectFile bytes | MetaFile stored_meta | CorruptFile

type_synonym local_fs = "(path \<times> local_file) list"

record local_config =
  lc_bucket :: string
  lc_downloadUrlExpiresSeconds :: int
  lc_publicEndpoint :: "string option"
  lc_signingSecret :: "string option"
  lc_production :: bool
  lc_nowMs :: int
  lc_sha256hex :: "bytes \<Rightarrow> string"
  lc_hmac :: "string \<Rightarrow> string \<Rightarrow> string"
  lc_between :: "nat \<Rightarrow> local_fs \<Rightarrow> local_fs"

definition then_others :: "local_config \<Rightarrow> nat \<Rightarrow> (local_fs, 'a) action \<Rightarrow> (local_fs, 'a) action" where
  "then_others cfg k m fs = m (lc_between cfg k fs)"

definition nowSeconds :: "local_config \<Rightarrow> int" where
  "nowSeconds cfg = lc_nowMs cfg div 1000"

text \<open>\<open>catch (err) { throw this.failure(...) }\<close>\<close>

definition failing_as :: "storage_failure_contract \<Rightarrow> ('s, 'a) action \<Rightarrow> ('s, 'a) action" where
  "failing_as contract m = catchE m (\<lambda>_. throwE (storageFailure contract))"

section \<open>Failures of the adapter\<close>

definition signingDenied :: "string \<Rightarrow> failure" where
  "signingDenied message =
     Domain (new_domain_exception
       \<lparr> opt_kind = Some Forbidden, opt_code = Some ''forbidden'', opt_title = Some ''common.forbidden'',
         opt_messageKey = None, opt_args = None,
         opt_violations = [\<lparr> vi_path = ''signature'', vi_code = ''signature_invalid'', vi_message = message,
           vi_messageKey = None, vi_rule = None, vi_constraint = None \<rparr>],
         opt_permanent = None \<rparr>)"

definition malformedUpload :: "string \<Rightarrow> string \<Rightarrow> failure" where
  "malformedUpload name message =
     Domain (new_domain_exception
       \<lparr> opt_kind = Some Malformed, opt_code = Some ''bad_request'', opt_title = Some ''common.bad_request'',
         opt_messageKey = None, opt_args = None,
         opt_violations = [\<lparr> vi_path = name, vi_code = ''field_invalid'', vi_message = message,
           vi_messageKey = None, vi_rule = None, vi_constraint = None \<rparr>],
         opt_permanent = None \<rparr>)"

definition signed_int_text :: "int \<Rightarrow> string" where
  "signed_int_text n = (if n < 0 then CHR ''-'' # decimal (nat (- n)) else decimal (nat n))"

definition sizeOutOfRange :: "int \<Rightarrow> failure" where
  "sizeOutOfRange maxBytes =
     Domain (new_domain_exception
       \<lparr> opt_kind = Some Validation, opt_code = Some ''upload_size_out_of_range'', opt_title = None,
         opt_messageKey = Some ''errors.upload.size_out_of_range'', opt_args = None,
         opt_violations = [\<lparr> vi_path = ''file'', vi_code = ''size_out_of_range'',
           vi_message = ''Object size is outside the allowed range (1..'' @ signed_int_text maxBytes @ '')'',
           vi_messageKey = Some ''errors.upload.size_out_of_range'', vi_rule = None, vi_constraint = None \<rparr>],
         opt_permanent = None \<rparr>)"

section \<open>Locations\<close>

definition is_alnum :: "char \<Rightarrow> bool" where
  "is_alnum c \<longleftrightarrow> is_digit c \<or> is_lower c \<or> (65 \<le> (of_char c :: nat) \<and> (of_char c :: nat) \<le> 90)"

text \<open>\<open>/^[A-Za-z0-9][A-Za-z0-9._-]*$/\<close>\<close>

definition SEGMENT_PATTERN :: "string \<Rightarrow> bool" where
  "SEGMENT_PATTERN s \<longleftrightarrow>
     s \<noteq> [] \<and> is_alnum (hd s) \<and>
     list_all (\<lambda>c. is_alnum c \<or> c = CHR ''.'' \<or> c = CHR ''_'' \<or> c = CHR ''-'') s"

definition segments :: "string \<Rightarrow> string \<Rightarrow> string list outcome" where
  "segments bucket key =
     (let segs = split_on CHR ''/'' key
      in if \<not> SEGMENT_PATTERN bucket \<or> \<not> list_all SEGMENT_PATTERN segs
         then Inl (Internal (''Invalid local storage location \"'' @ bucket @ ''/'' @ key @ ''\"''))
         else Inr segs)"

record object_location =
  ol_objectPath :: path
  ol_metaPath :: path

definition locate :: "string \<Rightarrow> string \<Rightarrow> object_location outcome" where
  "locate bucket key =
     (case segments bucket key of
        Inl e \<Rightarrow> Inl e
      | Inr segs \<Rightarrow>
          Inr \<lparr> ol_objectPath = ''objects'' # bucket # segs,
                ol_metaPath = ''meta'' # bucket # butlast segs @ [last segs @ ''.json''] \<rparr>)"

section \<open>Files\<close>

definition above :: "path \<Rightarrow> path \<Rightarrow> bool" where
  "above p q \<longleftrightarrow> length p < length q \<and> take (length p) q = p"

definition is_directory :: "local_fs \<Rightarrow> path \<Rightarrow> bool" where
  "is_directory fs p = list_ex (\<lambda>(q, _). above p q) fs"

definition under_a_file :: "local_fs \<Rightarrow> path \<Rightarrow> bool" where
  "under_a_file fs p = list_ex (\<lambda>(q, _). above q p) fs"

definition unlink :: "path \<Rightarrow> local_fs \<Rightarrow> local_fs" where
  "unlink p fs = AList.delete p fs"

definition put_file :: "path \<Rightarrow> local_file \<Rightarrow> local_fs \<Rightarrow> local_fs" where
  "put_file p f fs = AList.update p f fs"

text \<open>mkdir, then two renames: the metadata first.\<close>

definition commit :: "local_config \<Rightarrow> nat \<Rightarrow> bytes \<Rightarrow> object_location \<Rightarrow> stored_meta \<Rightarrow> (local_fs, unit) action" where
  "commit cfg k body loc meta =
     thenE (\<lambda>fs.
       if under_a_file fs (ol_objectPath loc) \<or> under_a_file fs (ol_metaPath loc) \<or> is_directory fs (ol_metaPath loc)
       then (Inl (Internal ''EEXIST''), fs)
       else (Inr (), put_file (ol_metaPath loc) (MetaFile meta) fs))
     (then_others cfg k (\<lambda>fs.
       if under_a_file fs (ol_objectPath loc) \<or> is_directory fs (ol_objectPath loc)
       then (Inl (Internal ''EISDIR''), fs)
       else (Inr (), put_file (ol_objectPath loc) (ObjectFile body) fs)))"

definition readMeta :: "object_location \<Rightarrow> (local_fs, stored_meta option) action" where
  "readMeta loc fs =
     (if map_of fs (ol_objectPath loc) = None \<and> \<not> is_directory fs (ol_objectPath loc) then (Inr None, fs)
      else (case map_of fs (ol_metaPath loc) of
              None \<Rightarrow> if is_directory fs (ol_metaPath loc) then (Inl (Internal ''EISDIR''), fs) else (Inr None, fs)
            | Some (MetaFile m) \<Rightarrow> (Inr (Some m), fs)
            | Some _ \<Rightarrow> (Inl (Internal ''Corrupt local storage metadata''), fs)))"

definition remove_path :: "path \<Rightarrow> (local_fs, unit) action" where
  "remove_path p fs = (if is_directory fs p then (Inl (Internal ''EISDIR''), fs) else (Inr (), unlink p fs))"

definition removeObject :: "object_location \<Rightarrow> (local_fs, unit) action" where
  "removeObject loc = thenE (remove_path (ol_objectPath loc)) (remove_path (ol_metaPath loc))"

definition etag_of :: "local_config \<Rightarrow> bytes \<Rightarrow> string" where
  "etag_of cfg body = ''\"'' @ lc_sha256hex cfg body @ ''\"''"

definition object_size_out_of_range :: failure where
  "object_size_out_of_range = Internal ''ObjectSizeOutOfRange''"

definition writeObject :: "local_config \<Rightarrow> nat \<Rightarrow> object_location \<Rightarrow> bytes \<Rightarrow> string option \<Rightarrow> int \<Rightarrow> int \<Rightarrow>
    (local_fs, unit) action" where
  "writeObject cfg k loc body contentType minBytes maxBytes =
     (let n = int (length body)
      in if maxBytes < n \<or> n < minBytes then throwE object_size_out_of_range
         else commit cfg k body loc
           \<lparr> sm_contentType = default_to ''application/octet-stream'' contentType, sm_size = n,
             sm_etag = etag_of cfg body \<rparr>)"

section \<open>Reading and writing objects\<close>

definition target_bucket :: "local_config \<Rightarrow> string option \<Rightarrow> string" where
  "target_bucket cfg bucket = default_to (lc_bucket cfg) bucket"

definition ls_uploadStream :: "local_config \<Rightarrow> string \<Rightarrow> bytes \<Rightarrow> stream_upload_options \<Rightarrow>
    (local_fs, file_result) action" where
  "ls_uploadStream cfg key body opts =
     (let bucket = target_bucket cfg (su_bucket opts)
      in failing_as upload_failure
        (if su_size opts \<le> 0 \<or> 2 ^ 53 - 1 < su_size opts
         then throwE (Internal ''Stream upload size must be a positive safe integer'')
         else if su_aborted opts then throwE (Internal ''AbortError'')
         else bindE (fromE (locate bucket key)) (\<lambda>loc.
           thenE (writeObject cfg 0 loc body (su_contentType opts) (su_size opts) (su_size opts))
             (returnE \<lparr> fr_id = None, fr_key = key, fr_bucket = bucket, fr_size = su_size opts,
                        fr_status = None, fr_url = None \<rparr>))))"

definition ls_head :: "local_config \<Rightarrow> string \<Rightarrow> string option \<Rightarrow> (local_fs, object_metadata option) action" where
  "ls_head cfg key bucket =
     failing_as head_failure
       (bindE (fromE (locate (target_bucket cfg bucket) key)) (\<lambda>loc.
        bindE (readMeta loc) (\<lambda>m.
          returnE (map_option (\<lambda>m. \<lparr> om_contentType = sm_contentType m, om_size = sm_size m,
            om_bucket = target_bucket cfg bucket, om_etag = sm_etag m \<rparr>) m))))"

definition ls_delete :: "local_config \<Rightarrow> string \<Rightarrow> string option \<Rightarrow> (local_fs, unit) action" where
  "ls_delete cfg key bucket =
     failing_as delete_failure (bindE (fromE (locate (target_bucket cfg bucket) key)) removeObject)"

definition read_object :: "path \<Rightarrow> (local_fs, bytes) action" where
  "read_object p fs =
     (case map_of fs p of
        Some (ObjectFile b) \<Rightarrow> (Inr b, fs)
      | _ \<Rightarrow> (Inl (Internal (if is_directory fs p then ''EISDIR'' else ''ENOENT'')), fs))"

definition ls_readRange :: "local_config \<Rightarrow> string \<Rightarrow> nat \<Rightarrow> string option \<Rightarrow> (local_fs, bytes) action" where
  "ls_readRange cfg key byteCount bucket =
     failing_as readRange_failure
       (bindE (fromE (locate (target_bucket cfg bucket) key)) (\<lambda>loc.
        bindE (read_object (ol_objectPath loc)) (\<lambda>b. returnE (take byteCount b))))"

definition ls_readStream :: "local_config \<Rightarrow> string \<Rightarrow> string option \<Rightarrow> (local_fs, bytes) action" where
  "ls_readStream cfg key bucket =
     failing_as readStream_failure
       (bindE (fromE (locate (target_bucket cfg bucket) key)) (\<lambda>loc. read_object (ol_objectPath loc)))"

section \<open>Finalizing\<close>

text \<open>The object moves to a private path, is digested there, and either becomes the final object or goes
  back, unless a newer object has taken its place.\<close>

definition claim_source :: "path \<Rightarrow> (local_fs, bytes) action" where
  "claim_source p fs =
     (case map_of fs p of
        Some (ObjectFile b) \<Rightarrow> (Inr b, unlink p fs)
      | _ \<Rightarrow> (Inl (Internal ''ENOENT''), fs))"

definition restoreClaimed :: "bytes \<Rightarrow> path \<Rightarrow> (local_fs, unit) action" where
  "restoreClaimed body p fs =
     (Inr (), if map_of fs p \<noteq> None \<or> is_directory fs p \<or> under_a_file fs p then fs
              else put_file p (ObjectFile body) fs)"

definition finalize_claimed :: "local_config \<Rightarrow> object_location \<Rightarrow> object_location \<Rightarrow> stored_meta \<Rightarrow> string \<Rightarrow>
    bytes \<Rightarrow> (local_fs, unit) action" where
  "finalize_claimed cfg source_loc target_loc meta expectedEtag body =
     catchE
       (if etag_of cfg body \<noteq> expectedEtag
        then throwE (Internal ''Source object changed before it could be finalized'')
        else then_others cfg 2 (commit cfg 3 body target_loc meta))
       (\<lambda>e. thenE (then_others cfg 4 (restoreClaimed body (ol_objectPath source_loc))) (throwE e))"

definition finalize_located :: "local_config \<Rightarrow> object_location \<Rightarrow> object_location \<Rightarrow> string \<Rightarrow> (local_fs, unit) action" where
  "finalize_located cfg source_loc target_loc expectedEtag =
     bindE (readMeta source_loc) (\<lambda>m.
       case m of
         None \<Rightarrow> throwE (Internal ''Source object is missing or no longer matches the confirmed ETag'')
       | Some meta \<Rightarrow>
           if sm_etag meta \<noteq> expectedEtag
           then throwE (Internal ''Source object is missing or no longer matches the confirmed ETag'')
           else
             bindE (then_others cfg 1 (claim_source (ol_objectPath source_loc))) (\<lambda>body.
             thenE (finalize_claimed cfg source_loc target_loc meta expectedEtag body)
               (then_others cfg 5 (quietly (remove_path (ol_metaPath source_loc))))))"

definition ls_finalize :: "local_config \<Rightarrow> string \<Rightarrow> string \<Rightarrow> string \<Rightarrow> string option \<Rightarrow> (local_fs, unit) action" where
  "ls_finalize cfg sourceKey finalKey expectedEtag bucket =
     failing_as finalize_failure
       (bindE (fromE (locate (target_bucket cfg bucket) sourceKey)) (\<lambda>source_loc.
        bindE (fromE (locate (target_bucket cfg bucket) finalKey)) (\<lambda>target_loc.
          finalize_located cfg source_loc target_loc expectedEtag)))"

section \<open>Signed URLs\<close>

definition uploadPayload :: "string \<Rightarrow> string \<Rightarrow> string \<Rightarrow> int \<Rightarrow> int \<Rightarrow> string" where
  "uploadPayload bucket key contentType maxBytes expires =
     join_with [CHR 0x0A] [''upload'', bucket, key, contentType, signed_int_text maxBytes, signed_int_text expires]"

definition downloadPayload :: "string \<Rightarrow> string \<Rightarrow> int \<Rightarrow> string" where
  "downloadPayload bucket key expires =
     join_with [CHR 0x0A] [''download'', bucket, key, signed_int_text expires]"

definition requireSetting :: "local_config \<Rightarrow> string \<Rightarrow> string option \<Rightarrow> string \<Rightarrow> string outcome" where
  "requireSetting cfg key value devDefault =
     (case value of
        Some (c # cs) \<Rightarrow> Inr (c # cs)
      | _ \<Rightarrow>
          if lc_production cfg
          then Inl (Internal (''StorageModule: required env var \"'' @ key @ ''\" is not set''))
          else Inr devDefault)"

definition signingSecret :: "local_config \<Rightarrow> string outcome" where
  "signingSecret cfg =
     (case requireSetting cfg ''STORAGE_LOCAL_SIGNING_SECRET'' (lc_signingSecret cfg)
             ''local-storage-development-signing-secret'' of
        Inl e \<Rightarrow> Inl e
      | Inr secret \<Rightarrow>
          if length secret < 32
          then Inl (Internal ''STORAGE_LOCAL_SIGNING_SECRET must be at least 32 characters'')
          else Inr secret)"

definition sign :: "local_config \<Rightarrow> string \<Rightarrow> string outcome" where
  "sign cfg payload =
     (case signingSecret cfg of Inl e \<Rightarrow> Inl e | Inr secret \<Rightarrow> Inr (lc_hmac cfg secret payload))"

definition verify_signature :: "local_config \<Rightarrow> string \<Rightarrow> string \<Rightarrow> unit outcome" where
  "verify_signature cfg payload signature =
     (case sign cfg payload of
        Inl e \<Rightarrow> Inl e
      | Inr expected \<Rightarrow>
          if expected = signature then Inr ()
          else Inl (signingDenied ''Signature does not match the requested object''))"

definition assertNotExpired :: "local_config \<Rightarrow> int \<Rightarrow> unit outcome" where
  "assertNotExpired cfg expires =
     (if expires < nowSeconds cfg then Inl (signingDenied ''Signed URL has expired'') else Inr ())"

definition publicUrl :: "local_config \<Rightarrow> string \<Rightarrow> string outcome" where
  "publicUrl cfg route =
     (case requireSetting cfg ''STORAGE_PUBLIC_ENDPOINT'' (lc_publicEndpoint cfg) ''http://localhost:3000'' of
        Inl e \<Rightarrow> Inl e
      | Inr endpoint \<Rightarrow>
          Inr (rev (dropWhile (\<lambda>c. c = CHR ''/'') (rev endpoint)) @ ''/api/v1/storage/local/'' @ route))"

definition ls_presignUpload :: "local_config \<Rightarrow> string \<Rightarrow> presign_options \<Rightarrow> (local_fs, presigned_upload) action" where
  "ls_presignUpload cfg key opts =
     (let bucket = target_bucket cfg (po_bucket opts);
          expires = nowSeconds cfg + default_to 300 (po_expiresInSeconds opts)
      in failing_as presign_failure
        (thenE (fromE (locate bucket key))
        (bindE (fromE (sign cfg (uploadPayload bucket key (po_contentType opts) (po_maxBytes opts) expires))) (\<lambda>signature.
         bindE (fromE (publicUrl cfg ''uploads'')) (\<lambda>url.
           returnE
             \<lparr> pu_url = url,
               pu_fields =
                 [(''key'', key), (''bucket'', bucket), (''Content-Type'', po_contentType opts),
                  (''max-bytes'', signed_int_text (po_maxBytes opts)),
                  (''expires'', signed_int_text expires), (''signature'', signature)],
               pu_key = key, pu_bucket = bucket,
               pu_expiresAt = toISOString (expires * 1000), pu_maxBytes = po_maxBytes opts \<rparr>)))))"

text \<open>The application/x-www-form-urlencoded serializer of URLSearchParams, in the Latin-1 range.\<close>

definition upper_hex :: "nat \<Rightarrow> char" where
  "upper_hex n = (if n < 10 then char_of (48 + n) else char_of (55 + n))"

definition utf8_bytes :: "char \<Rightarrow> nat list" where
  "utf8_bytes c = (let n = of_char c in if n < 128 then [n] else [192 + n div 64, 128 + n mod 64])"

definition form_char :: "char \<Rightarrow> string" where
  "form_char c =
     (if is_alnum c \<or> c \<in> {CHR ''*'', CHR ''-'', CHR ''.'', CHR ''_''} then [c]
      else if c = CHR '' '' then ''+''
      else concat (map (\<lambda>n. [CHR ''%'', upper_hex (n div 16), upper_hex (n mod 16)]) (utf8_bytes c)))"

definition form_encode :: "(string \<times> string) list \<Rightarrow> string" where
  "form_encode ps =
     join_with ''&'' (map (\<lambda>(k, v). concat (map form_char k) @ ''='' @ concat (map form_char v)) ps)"

definition ls_getSignedUrl :: "local_config \<Rightarrow> string \<Rightarrow> int option \<Rightarrow> string option \<Rightarrow> (local_fs, string) action" where
  "ls_getSignedUrl cfg key expiresIn bucket =
     (let b = target_bucket cfg bucket;
          expires = nowSeconds cfg + default_to (lc_downloadUrlExpiresSeconds cfg) expiresIn
      in failing_as signedUrl_failure
        (thenE (fromE (locate b key))
        (bindE (fromE (sign cfg (downloadPayload b key expires))) (\<lambda>signature.
         bindE (fromE (publicUrl cfg ''objects'')) (\<lambda>url.
           returnE (url @ ''?'' @ form_encode
             [(''bucket'', b), (''key'', key), (''expires'', signed_int_text expires), (''signature'', signature)]))))))"

section \<open>Accepting what was signed\<close>

text \<open>\<open>Number(text)\<close> where it is a safe integer: white space around a decimal literal or a
  hexadecimal, octal or binary one. A literal is read exactly; the rounding of a fraction to the nearest
  double is not.\<close>

definition decimal_scaled :: "string \<Rightarrow> string \<Rightarrow> int \<Rightarrow> int option" where
  "decimal_scaled ip fp e =
     (let m = int (read_decimal (ip @ fp)); s = e - int (length fp)
      in if 0 \<le> s then (if m = 0 then Some 0 else if 400 < s then None else Some (m * 10 ^ nat s))
         else if m mod 10 ^ nat (- s) = 0 then Some (m div 10 ^ nat (- s)) else None)"

definition exponent_value :: "string \<Rightarrow> int option" where
  "exponent_value s =
     (case s of
        [] \<Rightarrow> Some 0
      | e # r \<Rightarrow>
          if e \<noteq> CHR ''e'' \<and> e \<noteq> CHR ''E'' then None
          else
            let d = (case r of c # t \<Rightarrow> if c = CHR ''-'' \<or> c = CHR ''+'' then t else r | [] \<Rightarrow> [])
            in if d = [] \<or> \<not> list_all is_digit d then None
               else if hd r = CHR ''-'' then Some (- int (read_decimal d)) else Some (int (read_decimal d)))"

definition decimal_literal :: "string \<Rightarrow> int option" where
  "decimal_literal s =
     (let ip = takeWhile is_digit s; r = dropWhile is_digit s;
          has_dot = (r \<noteq> [] \<and> hd r = CHR ''.'');
          fp = (if has_dot then takeWhile is_digit (tl r) else []);
          ep = (if has_dot then dropWhile is_digit (tl r) else r)
      in if ip = [] \<and> fp = [] then None
         else (case exponent_value ep of None \<Rightarrow> None | Some e \<Rightarrow> decimal_scaled ip fp e))"

definition digit_value :: "char \<Rightarrow> nat option" where
  "digit_value c =
     (if is_digit c then Some (of_char c - 48)
      else if is_lower c then Some (of_char c - 87)
      else if is_alnum c then Some (of_char c - 55) else None)"

definition radix_literal :: "nat \<Rightarrow> string \<Rightarrow> int option" where
  "radix_literal radix s =
     (if s = [] then None
      else foldl (\<lambda>v c. case (v, digit_value c) of
              (Some n, Some d) \<Rightarrow> if d < radix then Some (int radix * n + int d) else None
            | _ \<Rightarrow> None) (Some 0) s)"

definition Number_integer :: "string \<Rightarrow> int option" where
  "Number_integer raw =
     (let s = trim raw;
          v = (case s of
                 [] \<Rightarrow> Some 0
               | [c] \<Rightarrow> decimal_literal s
               | c # d # r \<Rightarrow>
                   if c = CHR ''0'' \<and> (d = CHR ''x'' \<or> d = CHR ''X'') then radix_literal 16 r
                   else if c = CHR ''0'' \<and> (d = CHR ''o'' \<or> d = CHR ''O'') then radix_literal 8 r
                   else if c = CHR ''0'' \<and> (d = CHR ''b'' \<or> d = CHR ''B'') then radix_literal 2 r
                   else if c = CHR ''-'' then map_option uminus (decimal_literal (d # r))
                   else if c = CHR ''+'' then decimal_literal (d # r)
                   else decimal_literal s)
      in case v of None \<Rightarrow> None | Some n \<Rightarrow> if \<bar>n\<bar> \<le> 2 ^ 53 - 1 then Some n else None)"

type_synonym form_fields = "(string \<times> string) list"

definition requireField :: "form_fields \<Rightarrow> string \<Rightarrow> string outcome" where
  "requireField form name =
     (case map_of form name of
        Some (c # cs) \<Rightarrow> Inr (c # cs)
      | _ \<Rightarrow> Inl (malformedUpload name (''Form field \"'' @ name @ ''\" is required'')))"

definition requireInteger :: "form_fields \<Rightarrow> string \<Rightarrow> int outcome" where
  "requireInteger form name =
     (case requireField form name of
        Inl e \<Rightarrow> Inl e
      | Inr v \<Rightarrow>
          (case Number_integer v of
             None \<Rightarrow> Inl (malformedUpload name (''Form field \"'' @ name @ ''\" must be a positive integer''))
           | Some n \<Rightarrow>
               if n \<le> 0 then Inl (malformedUpload name (''Form field \"'' @ name @ ''\" must be a positive integer''))
               else Inr n))"

definition acceptPresignedUpload :: "local_config \<Rightarrow> form_fields \<Rightarrow> bytes \<Rightarrow> (local_fs, unit) action" where
  "acceptPresignedUpload cfg form body =
     catchE
       (bindE (fromE (requireField form ''key'')) (\<lambda>key.
        bindE (fromE (requireField form ''bucket'')) (\<lambda>bucket.
        bindE (fromE (requireField form ''Content-Type'')) (\<lambda>contentType.
        bindE (fromE (requireInteger form ''max-bytes'')) (\<lambda>maxBytes.
        bindE (fromE (requireInteger form ''expires'')) (\<lambda>expires.
        bindE (fromE (requireField form ''signature'')) (\<lambda>signature.
        thenE (fromE (verify_signature cfg (uploadPayload bucket key contentType maxBytes expires) signature))
        (thenE (fromE (assertNotExpired cfg expires))
          (catchE
            (bindE (fromE (locate bucket key)) (\<lambda>loc. writeObject cfg 0 loc body (Some contentType) 1 maxBytes))
            (\<lambda>e. throwE (if e = object_size_out_of_range then sizeOutOfRange maxBytes else e)))))))))))
       (\<lambda>e. throwE (if is_domain e then e else storageFailure upload_failure))"

record local_download =
  ld_content :: bytes
  ld_contentType :: string
  ld_size :: int

definition isMissing :: "failure \<Rightarrow> bool" where
  "isMissing e \<longleftrightarrow> e = Internal ''ENOENT''"

definition openSignedDownload :: "local_config \<Rightarrow> string \<Rightarrow> string \<Rightarrow> int \<Rightarrow> string \<Rightarrow>
    (local_fs, local_download option) action" where
  "openSignedDownload cfg bucket key expires signature =
     thenE (fromE (verify_signature cfg (downloadPayload bucket key expires) signature))
     (thenE (fromE (assertNotExpired cfg expires))
       (catchE
         (bindE (fromE (locate bucket key)) (\<lambda>loc.
          bindE (readMeta loc) (\<lambda>m.
            case m of
              None \<Rightarrow> returnE None
            | Some meta \<Rightarrow>
                bindE (then_others cfg 0 (read_object (ol_objectPath loc))) (\<lambda>b.
                  returnE (Some \<lparr> ld_content = b, ld_contentType = sm_contentType meta, ld_size = sm_size meta \<rparr>)))))
         (\<lambda>e. if isMissing e then returnE None else throwE (storageFailure readStream_failure))))"

text \<open>The port this adapter provides.\<close>

definition local_port :: "local_config \<Rightarrow> local_fs storage_port" where
  "local_port cfg =
     \<lparr> st_uploadStream = ls_uploadStream cfg, st_presignUpload = ls_presignUpload cfg, st_head = ls_head cfg,
       st_getSignedUrl = ls_getSignedUrl cfg, st_delete = ls_delete cfg, st_finalize = ls_finalize cfg,
       st_readRange = ls_readRange cfg, st_readStream = ls_readStream cfg \<rparr>"

section \<open>Contents\<close>

text \<open>The bytes stored under a bucket and key.\<close>

definition local_contents :: "local_fs \<Rightarrow> string \<Rightarrow> string \<Rightarrow> bytes option" where
  "local_contents fs bucket key =
     (case locate bucket key of
        Inl _ \<Rightarrow> None
      | Inr loc \<Rightarrow> (case map_of fs (ol_objectPath loc) of Some (ObjectFile b) \<Rightarrow> Some b | _ \<Rightarrow> None))"

text \<open>The configuration in which no other request runs during a call.\<close>

definition undisturbed :: "local_config \<Rightarrow> local_config" where
  "undisturbed cfg = cfg \<lparr> lc_between := \<lambda>_ fs. fs \<rparr>"

lemma join_split: "join_with [c] (split_on c s) = s"
proof (induction s)
  case (Cons x s)
  obtain w ws where e: "split_on c s = w # ws" using split_on_not_Nil[of c s] by (cases "split_on c s") auto
  then show ?case using Cons by (cases ws) auto
qed simp

lemma split_on_inject: "split_on c a = split_on c b \<longleftrightarrow> a = b"
  by (metis join_split)

lemma locate_object:
  "locate b k = Inr loc \<Longrightarrow> ol_objectPath loc = ''objects'' # b # split_on CHR ''/'' k"
  by (auto simp: locate_def segments_def Let_def split: if_splits)

lemma locate_meta: "locate b k = Inr loc \<Longrightarrow> \<exists>p. ol_metaPath loc = ''meta'' # p"
  by (auto simp: locate_def segments_def Let_def split: if_splits)

lemma object_not_meta: "locate b k = Inr loc \<Longrightarrow> locate b' k' = Inr loc' \<Longrightarrow> ol_objectPath loc \<noteq> ol_metaPath loc'"
  using locate_object locate_meta by fastforce

lemma object_inject:
  "locate b k = Inr loc \<Longrightarrow> locate b' k' = Inr loc' \<Longrightarrow> ol_objectPath loc = ol_objectPath loc' \<longleftrightarrow> b = b' \<and> k = k'"
  by (auto simp: locate_object split_on_inject)

text \<open>What the steps leave of the other files.\<close>

definition spares :: "path set \<Rightarrow> (local_fs, 'a) action \<Rightarrow> bool" where
  "spares P m \<longleftrightarrow> (\<forall>fs p. p \<notin> P \<longrightarrow> map_of (snd (m fs)) p = map_of fs p)"

named_theorems spares_rules

lemma spares_pure [spares_rules]: "spares P (returnE x)" "spares P (throwE e)" "spares P (fromE r)"
  by (simp_all add: spares_def action_defs)

lemma spares_bind [spares_rules]: "spares P m \<Longrightarrow> (\<And>x. spares P (f x)) \<Longrightarrow> spares P (bindE m f)"
  by (simp add: spares_def bindE_def split: prod.split sum.split) (metis snd_conv)

lemma spares_then [spares_rules]: "spares P m \<Longrightarrow> spares P n \<Longrightarrow> spares P (thenE m n)"
  unfolding thenE_def by (rule spares_bind)

lemma spares_catch [spares_rules]: "spares P m \<Longrightarrow> (\<And>e. spares P (h e)) \<Longrightarrow> spares P (catchE m h)"
  by (simp add: spares_def catchE_def split: prod.split sum.split) (metis snd_conv)

lemma spares_failing [spares_rules]: "spares P m \<Longrightarrow> spares P (failing_as c m)"
  unfolding failing_as_def by (intro spares_rules)

lemma spares_quietly [spares_rules]: "spares P m \<Longrightarrow> spares P (quietly m)"
  unfolding quietly_def by (intro spares_rules)

lemma spares_others [spares_rules]: "spares P m \<Longrightarrow> spares P (then_others (undisturbed cfg) k m)"
  by (simp add: spares_def then_others_def undisturbed_def)

lemma spares_read [spares_rules]: "spares P (readMeta loc)" "spares P (read_object p)"
  by (auto simp: spares_def readMeta_def read_object_def split: option.split local_file.split)

lemma spares_remove [spares_rules]: "p \<in> P \<Longrightarrow> spares P (remove_path p)"
  by (auto simp: spares_def remove_path_def unlink_def AList.delete_conv')

lemma spares_claim [spares_rules]: "p \<in> P \<Longrightarrow> spares P (claim_source p)"
  by (auto simp: spares_def claim_source_def unlink_def AList.delete_conv' split: option.split local_file.split)

lemma spares_restore [spares_rules]: "p \<in> P \<Longrightarrow> spares P (restoreClaimed b p)"
  by (auto simp: spares_def restoreClaimed_def put_file_def)

lemma spares_commit [spares_rules]:
  assumes "ol_objectPath loc \<in> P" "ol_metaPath loc \<in> P"
  shows "spares P (commit (undisturbed cfg) k body loc meta)"
proof -
  have 1: "spares P (\<lambda>fs. if under_a_file fs (ol_objectPath loc) \<or> under_a_file fs (ol_metaPath loc) \<or>
      is_directory fs (ol_metaPath loc) then (Inl (Internal ''EEXIST''), fs)
      else (Inr (), put_file (ol_metaPath loc) (MetaFile meta) fs))"
    using assms by (auto simp: spares_def put_file_def)
  have 2: "spares P (\<lambda>fs. if under_a_file fs (ol_objectPath loc) \<or> is_directory fs (ol_objectPath loc)
      then (Inl (Internal ''EISDIR''), fs) else (Inr (), put_file (ol_objectPath loc) (ObjectFile body) fs))"
    using assms by (auto simp: spares_def put_file_def)
  show ?thesis unfolding commit_def by (intro spares_rules 1 2)
qed

lemma spares_removeObject [spares_rules]:
  "ol_objectPath loc \<in> P \<Longrightarrow> ol_metaPath loc \<in> P \<Longrightarrow> spares P (removeObject loc)"
  unfolding removeObject_def by (intro spares_rules)

lemma spares_write [spares_rules]:
  "ol_objectPath loc \<in> P \<Longrightarrow> ol_metaPath loc \<in> P \<Longrightarrow> spares P (writeObject (undisturbed cfg) k loc body ct lo hi)"
  unfolding writeObject_def Let_def by (simp add: spares_rules)

text \<open>The paths of an object.\<close>

definition paths_of :: "string \<Rightarrow> string \<Rightarrow> path set" where
  "paths_of b k = (case locate b k of Inl _ \<Rightarrow> {} | Inr loc \<Rightarrow> {ol_objectPath loc, ol_metaPath loc})"

lemma contents_spared:
  assumes "spares P m" "\<And>loc. locate b k = Inr loc \<Longrightarrow> ol_objectPath loc \<notin> P"
  shows "local_contents (snd (m fs)) b k = local_contents fs b k"
  using assms by (auto simp: local_contents_def spares_def split: sum.split)

lemma object_path_foreign:
  "locate b k = Inr loc \<Longrightarrow> (b, k) \<noteq> (b', k') \<Longrightarrow> ol_objectPath loc \<notin> paths_of b' k'"
  by (auto simp: paths_of_def object_inject object_not_meta split: sum.splits)

lemma spares_located:
  "(\<And>loc. locate b k = Inr loc \<Longrightarrow> spares (paths_of b k) (f loc)) \<Longrightarrow> spares (paths_of b k) (bindE (fromE (locate b k)) f)"
  by (cases "locate b k") (auto simp: spares_def action_defs)

lemma spares_mono: "spares P m \<Longrightarrow> P \<subseteq> Q \<Longrightarrow> spares Q m"
  by (auto simp: spares_def)

lemma in_paths: "locate b k = Inr loc \<Longrightarrow> ol_objectPath loc \<in> paths_of b k \<and> ol_metaPath loc \<in> paths_of b k"
  by (simp add: paths_of_def)

section \<open>The laws of the port\<close>

lemma read_only_ops [spares_rules]:
  "spares P (ls_head cfg k ob)" "spares P (ls_getSignedUrl cfg k ex ob)"
  "spares P (ls_readRange cfg k n ob)" "spares P (ls_readStream cfg k ob)" "spares P (ls_presignUpload cfg k po)"
  unfolding ls_head_def ls_getSignedUrl_def ls_readRange_def ls_readStream_def ls_presignUpload_def Let_def
  by (intro spares_rules)+

lemma spares_nothing: "spares {} m \<Longrightarrow> local_contents (snd (m fs)) = local_contents fs"
  by (intro ext contents_spared) auto

lemma delete_spares: "spares (paths_of (target_bucket cfg ob) k) (ls_delete cfg k ob)"
  unfolding ls_delete_def by (intro spares_failing spares_located spares_removeObject) (simp_all add: in_paths)

lemma upload_spares:
  "spares (paths_of (target_bucket cfg (su_bucket opts)) k) (ls_uploadStream (undisturbed cfg) k body opts)"
proof -
  have *: "target_bucket (undisturbed cfg) ob = target_bucket cfg ob" for ob
    by (simp add: target_bucket_def undisturbed_def)
  show ?thesis
    unfolding ls_uploadStream_def Let_def *
    by (intro spares_failing) (auto intro!: spares_rules spares_located simp: in_paths)
qed

lemma finalize_claimed_spares:
  assumes "ol_objectPath src \<in> P" "ol_objectPath dst \<in> P" "ol_metaPath dst \<in> P"
  shows "spares P (finalize_claimed (undisturbed cfg) src dst meta etag body)"
  unfolding finalize_claimed_def by (rule spares_catch) (use assms in \<open>auto intro!: spares_rules\<close>)

lemma finalize_spares:
  "spares (paths_of (target_bucket cfg ob) src \<union> paths_of (target_bucket cfg ob) dst)
     (ls_finalize (undisturbed cfg) src dst etag ob)"
proof -
  have *: "target_bucket (undisturbed cfg) ob = target_bucket cfg ob"
    by (simp add: target_bucket_def undisturbed_def)
  let ?P = "paths_of (target_bucket cfg ob) src \<union> paths_of (target_bucket cfg ob) dst"
  show ?thesis
  proof (cases "locate (target_bucket cfg ob) src")
    case (Inl e)
    then show ?thesis unfolding ls_finalize_def * Inl
      by (intro spares_failing) (simp add: spares_def action_defs)
  next
    case (Inr sl)
    show ?thesis
    proof (cases "locate (target_bucket cfg ob) dst")
      case Inl2: (Inl e)
      then show ?thesis unfolding ls_finalize_def * Inr Inl2
        by (intro spares_failing) (simp add: spares_def action_defs)
    next
      case Inr2: (Inr dl)
      have "ol_objectPath sl \<in> ?P" "ol_metaPath sl \<in> ?P" "ol_objectPath dl \<in> ?P" "ol_metaPath dl \<in> ?P"
        using in_paths[OF Inr] in_paths[OF Inr2] by auto
      then have "spares ?P (then_others (undisturbed cfg) 5 (quietly (remove_path (ol_metaPath sl))))"
        and "\<And>m b e. spares ?P (finalize_claimed (undisturbed cfg) sl dl m e b)"
        and "\<And>k. spares ?P (then_others (undisturbed cfg) k (claim_source (ol_objectPath sl)))"
        by (auto intro!: spares_rules finalize_claimed_spares)
      note parts = this
      have "spares ?P (finalize_located (undisturbed cfg) sl dl etag)"
        unfolding finalize_located_def
        by (intro spares_bind spares_read) (auto split: option.split intro!: spares_bind spares_then spares_pure parts)
      then have "spares ?P (bindE (fromE (Inr sl)) (\<lambda>sl. bindE (fromE (Inr dl)) (\<lambda>dl. finalize_located (undisturbed cfg) sl dl etag)))"
        by (simp add: spares_def bindE_def fromE_def)
      then show ?thesis unfolding ls_finalize_def * Inr Inr2 by (rule spares_failing)
    qed
  qed
qed

lemma failing_Inr:
  assumes "fst (failing_as c m fs) = Inr x"
  shows "fst (m fs) = Inr x \<and> snd (failing_as c m fs) = snd (m fs)"
  using assms by (auto simp: failing_as_def catchE_def throwE_def split: prod.splits sum.splits)

lemma read_object_Inr: "fst (read_object p fs) = Inr b \<Longrightarrow> map_of fs p = Some (ObjectFile b)"
  by (auto simp: read_object_def split: option.splits local_file.splits)

lemma located_Inr:
  assumes "fst (bindE (fromE (locate b k)) f fs) = Inr x"
  obtains loc where "locate b k = Inr loc" "fst (f loc fs) = Inr x" "snd (bindE (fromE (locate b k)) f fs) = snd (f loc fs)"
  using assms by (cases "locate b k") (auto simp: action_defs)

lemma range_is_prefix:
  assumes "fst (ls_readRange cfg k n ob fs) = Inr h"
  shows "\<exists>b. local_contents fs (target_bucket cfg ob) k = Some b \<and> h = take n b"
proof -
  have "fst (bindE (fromE (locate (target_bucket cfg ob) k))
      (\<lambda>loc. bindE (read_object (ol_objectPath loc)) (\<lambda>b. returnE (take n b))) fs) = Inr h"
    using failing_Inr[OF assms[unfolded ls_readRange_def]] by simp
  then obtain loc where loc: "locate (target_bucket cfg ob) k = Inr loc"
    and r: "fst (bindE (read_object (ol_objectPath loc)) (\<lambda>b. returnE (take n b)) fs) = Inr h"
    by (rule located_Inr)
  obtain b where b: "fst (read_object (ol_objectPath loc) fs) = Inr b" "h = take n b"
    using r by (auto simp: bindE_def returnE_def split: prod.splits sum.splits)
  show ?thesis using read_object_Inr[OF b(1)] b(2) loc by (simp add: local_contents_def)
qed

lemma stream_is_content:
  assumes "fst (ls_readStream cfg k ob fs) = Inr b"
  shows "local_contents fs (target_bucket cfg ob) k = Some b"
proof -
  have "fst (bindE (fromE (locate (target_bucket cfg ob) k)) (\<lambda>loc. read_object (ol_objectPath loc)) fs) = Inr b"
    using failing_Inr[OF assms[unfolded ls_readStream_def]] by simp
  then obtain loc where "locate (target_bucket cfg ob) k = Inr loc" "fst (read_object (ol_objectPath loc) fs) = Inr b"
    by (rule located_Inr)
  then show ?thesis using read_object_Inr by (auto simp: local_contents_def)
qed

lemma remove_then_absent: "fst (removeObject loc fs) = Inr () \<Longrightarrow> ol_objectPath loc \<noteq> ol_metaPath loc \<Longrightarrow>
   map_of (snd (removeObject loc fs)) (ol_objectPath loc) = None"
  by (auto simp: removeObject_def action_defs remove_path_def unlink_def AList.delete_conv' split: if_splits)

lemma deleted_is_gone:
  assumes "fst (ls_delete cfg k ob fs) = Inr ()"
  shows "local_contents (snd (ls_delete cfg k ob fs)) (target_bucket cfg ob) k = None"
proof -
  note f = failing_Inr[OF assms[unfolded ls_delete_def]]
  obtain loc where loc: "locate (target_bucket cfg ob) k = Inr loc" "fst (removeObject loc fs) = Inr ()"
    "snd (bindE (fromE (locate (target_bucket cfg ob) k)) removeObject fs) = snd (removeObject loc fs)"
    using f by (blast intro: located_Inr)
  have "map_of (snd (removeObject loc fs)) (ol_objectPath loc) = None"
    by (rule remove_then_absent[OF loc(2) object_not_meta[OF loc(1,1)]])
  then show ?thesis using f loc unfolding ls_delete_def by (simp add: local_contents_def)
qed

lemma delete_only_unlinks: "map_of (snd (ls_delete cfg k ob fs)) p \<in> {None, map_of fs p}"
  by (cases "locate (target_bucket cfg ob) k")
    (simp_all add: ls_delete_def failing_as_def removeObject_def remove_path_def unlink_def action_defs AList.delete_conv')

lemma deleting_writes_nothing:
  assumes "local_contents fs b k' = None"
  shows "local_contents (snd (ls_delete cfg k ob fs)) b k' = None"
proof (cases "locate b k'")
  case (Inr loc)
  then show ?thesis using assms delete_only_unlinks[of cfg k ob fs "ol_objectPath loc"]
    by (auto simp: local_contents_def)
qed (simp add: local_contents_def)

lemma committed:
  assumes "commit (undisturbed cfg) n body loc meta fs = (Inr (), fs')" "ol_objectPath loc \<noteq> ol_metaPath loc"
  shows "map_of fs' (ol_objectPath loc) = Some (ObjectFile body)" "map_of fs' (ol_metaPath loc) = Some (MetaFile meta)"
  using assms by (auto simp: commit_def action_defs then_others_def undisturbed_def put_file_def split: if_splits)

lemma uploaded_is_content:
  assumes "fst (ls_uploadStream (undisturbed cfg) k body opts fs) = Inr res"
  shows "local_contents (snd (ls_uploadStream (undisturbed cfg) k body opts fs)) (target_bucket cfg (su_bucket opts)) k
           = Some body"
proof -
  let ?c = "undisturbed cfg"
  have tb: "target_bucket ?c ob = target_bucket cfg ob" for ob by (simp add: target_bucket_def undisturbed_def)
  note f = failing_Inr[OF assms[unfolded ls_uploadStream_def Let_def tb]]
  have "\<not> (su_size opts \<le> 0 \<or> 2 ^ 53 - 1 < su_size opts)" "\<not> su_aborted opts"
    using f by (auto simp: throwE_def split: if_splits)
  note f' = f[unfolded if_not_P[OF this(1)] if_not_P[OF this(2)]]
  obtain loc where loc: "locate (target_bucket cfg (su_bucket opts)) k = Inr loc"
    and w: "fst (thenE (writeObject ?c 0 loc body (su_contentType opts) (su_size opts) (su_size opts))
             (returnE \<lparr> fr_id = None, fr_key = k, fr_bucket = target_bucket cfg (su_bucket opts), fr_size = su_size opts,
                        fr_status = None, fr_url = None \<rparr>) fs) = Inr res"
    by (rule located_Inr[OF conjunct1[OF f']])
  obtain fs' where wr: "writeObject ?c 0 loc body (su_contentType opts) (su_size opts) (su_size opts) fs = (Inr (), fs')"
    using w by (cases "writeObject ?c 0 loc body (su_contentType opts) (su_size opts) (su_size opts) fs")
      (auto simp: action_defs split: sum.splits)
  have "\<exists>meta. commit ?c 0 body loc meta fs = (Inr (), fs')"
    using wr by (auto simp: writeObject_def Let_def throwE_def split: if_splits)
  then have "map_of fs' (ol_objectPath loc) = Some (ObjectFile body)"
    using committed(1)[OF _ object_not_meta[OF loc loc]] by blast
  moreover have "snd (ls_uploadStream ?c k body opts fs) = fs'"
    using conjunct2[OF f'] wr loc
    unfolding ls_uploadStream_def Let_def tb
      if_not_P[OF \<open>\<not> (su_size opts \<le> 0 \<or> 2 ^ 53 - 1 < su_size opts)\<close>] if_not_P[OF \<open>\<not> su_aborted opts\<close>]
    by (simp add: action_defs)
  ultimately show ?thesis using loc by (simp add: local_contents_def)
qed

lemma frame_of:
  assumes "spares (paths_of b1 k1) m" "(b, k) \<noteq> (b1, k1)"
  shows "local_contents (snd (m fs)) b k = local_contents fs b k"
  by (rule contents_spared[OF assms(1)]) (rule object_path_foreign[OF _ assms(2)])

interpretation local_files: storage_provider "local_port (undisturbed cfg)" local_contents "target_bucket cfg"
proof
  have tb: "target_bucket (undisturbed cfg) ob = target_bucket cfg ob" for ob
    by (simp add: target_bucket_def undisturbed_def)
  show "target_bucket cfg (Some b) = b" for b by (simp add: target_bucket_def)
  show "local_contents (snd (st_head (local_port (undisturbed cfg)) k ob s)) = local_contents s" for k ob s
    by (simp add: local_port_def spares_nothing read_only_ops)
  show "local_contents (snd (st_presignUpload (local_port (undisturbed cfg)) k po s)) = local_contents s" for k po s
    by (simp add: local_port_def spares_nothing read_only_ops)
  show "local_contents (snd (st_getSignedUrl (local_port (undisturbed cfg)) k ex ob s)) = local_contents s" for k ex ob s
    by (simp add: local_port_def spares_nothing read_only_ops)
  show "local_contents (snd (st_readRange (local_port (undisturbed cfg)) k n ob s)) = local_contents s" for k n ob s
    by (simp add: local_port_def spares_nothing read_only_ops)
  show "local_contents (snd (st_readStream (local_port (undisturbed cfg)) k ob s)) = local_contents s" for k ob s
    by (simp add: local_port_def spares_nothing read_only_ops)
  show "\<exists>b. local_contents s (target_bucket cfg ob) k = Some b \<and> h = take n b"
    if "0 < n" "fst (st_readRange (local_port (undisturbed cfg)) k n ob s) = Inr h" for k n ob s h
    using range_is_prefix[of "undisturbed cfg" k n ob s h] that by (simp add: local_port_def tb)
  show "local_contents s (target_bucket cfg ob) k = Some body"
    if "fst (st_readStream (local_port (undisturbed cfg)) k ob s) = Inr body" for k ob s body
    using stream_is_content[of "undisturbed cfg" k ob s body] that by (simp add: local_port_def tb)
  show "local_contents (snd (st_delete (local_port (undisturbed cfg)) k ob s)) b k' = local_contents s b k'"
    if "(b, k') \<noteq> (target_bucket cfg ob, k)" for b k' k ob s
    using frame_of[OF delete_spares that[folded tb]] by (simp add: local_port_def)
  show "local_contents (snd (st_delete (local_port (undisturbed cfg)) k ob s)) (target_bucket cfg ob) k = None"
    if "fst (st_delete (local_port (undisturbed cfg)) k ob s) = Inr ()" for k ob s
    using deleted_is_gone[of "undisturbed cfg" k ob s] that by (simp add: local_port_def tb)
  show "local_contents (snd (st_delete (local_port (undisturbed cfg)) k ob s)) b k' = None"
    if "local_contents s b k' = None" for b k' k ob s
    using deleting_writes_nothing[OF that] by (simp add: local_port_def)
  show "local_contents (snd (st_finalize (local_port (undisturbed cfg)) src dst etag ob s)) b k' = local_contents s b k'"
    if "(b, k') \<noteq> (target_bucket cfg ob, src)" "(b, k') \<noteq> (target_bucket cfg ob, dst)" for b k' src dst etag ob s
    unfolding local_port_def storage_port.simps
    by (rule contents_spared[OF finalize_spares]) (use object_path_foreign that in blast)
  show "local_contents (snd (st_uploadStream (local_port (undisturbed cfg)) k body opts s)) b k' = local_contents s b k'"
    if "(b, k') \<noteq> (target_bucket cfg (su_bucket opts), k)" for b k' k body opts s
    using frame_of[OF upload_spares that] by (simp add: local_port_def)
  show "local_contents (snd (st_uploadStream (local_port (undisturbed cfg)) k body opts s))
      (target_bucket cfg (su_bucket opts)) k = Some body"
    if "fst (st_uploadStream (local_port (undisturbed cfg)) k body opts s) = Inr res" for k body opts s res
    using uploaded_is_content that by (simp add: local_port_def)
qed

section \<open>Payloads are read back unambiguously\<close>

lemma split_append: "split_on c (a @ c # b) = split_on c a @ split_on c b"
proof (induction a)
  case (Cons x a)
  then show ?case using split_on_not_Nil[of c a] by (cases "split_on c a") auto
qed simp

lemma split_join: "xs \<noteq> [] \<Longrightarrow> split_on c (join_with [c] xs) = concat (map (split_on c) xs)"
proof (induction xs)
  case (Cons x xs)
  then show ?case using split_append[of c x] by (cases xs) auto
qed simp

lemma split_lengths: "length xs \<le> length (concat (map (split_on c) xs))"
proof (induction xs)
  case (Cons x xs)
  then show ?case using split_on_not_Nil[of c x] by (cases "split_on c x") auto
qed simp

lemma split_all_single:
  assumes "length (concat (map (split_on c) xs)) = length xs"
  shows "concat (map (split_on c) xs) = xs"
  using assms
proof (induction xs)
  case (Cons x xs)
  obtain w ws where e: "split_on c x = w # ws" using split_on_not_Nil[of c x] by (cases "split_on c x") auto
  have "ws = []" using Cons.prems split_lengths[of xs c] e by (cases ws) auto
  then have "w = x" using e join_split[of c x] by simp
  then show ?case using Cons \<open>ws = []\<close> e by simp
qed simp

text \<open>Parts joined by a separator none of the signed parts contains can only be those parts.\<close>

lemma join_inject:
  assumes "join_with [c] xs = join_with [c] ys" "length xs = length ys" "xs \<noteq> []" "\<And>y. y \<in> set ys \<Longrightarrow> c \<notin> set y"
  shows "xs = ys"
proof -
  have "ys \<noteq> []" using assms(2,3) by auto
  have singles: "map (split_on c) ys = map (\<lambda>y. [y]) ys"
    using assms(4) split_on_no_sep by fastforce
  have "concat (map (split_on c) xs) = concat (map (split_on c) ys)"
    using split_join[OF assms(3), of c] split_join[OF \<open>ys \<noteq> []\<close>, of c] assms(1) by simp
  also have "\<dots> = ys" by (simp add: singles)
  finally show ?thesis using split_all_single[of c xs] assms(2) by simp
qed

lemma digit_chars: "list_all is_digit s \<Longrightarrow> c \<in> set s \<Longrightarrow> is_digit c"
  by (simp add: list_all_iff)

lemma not_digits [simp]: "\<not> is_digit (CHR 0x0A)" "\<not> is_digit (CHR ''-'')" "\<not> is_alnum (CHR 0x0A)"
  by (simp_all add: is_digit_def is_alnum_def is_lower_def)

lemma decimal_has_no_newline: "CHR 0x0A \<notin> set (decimal n)"
  using digit_chars[OF conjunct1[OF conjunct2[OF decimal_facts]]] not_digits(1) by metis

lemma number_has_no_newline: "CHR 0x0A \<notin> set (signed_int_text n)"
  by (simp add: signed_int_text_def decimal_has_no_newline)

lemma decimal_inject: "decimal m = decimal n \<longleftrightarrow> m = n"
  by (metis decimal_facts)

lemma decimal_no_sign: "decimal n \<noteq> CHR ''-'' # s"
  by (metis decimal_facts list.set_intros(1) digit_chars not_digits(2))

lemma number_text_inject: "signed_int_text m = signed_int_text n \<longleftrightarrow> m = n"
  using decimal_no_sign by (auto simp: signed_int_text_def decimal_inject split: if_splits) metis+

lemma segment_has_no_newline: "SEGMENT_PATTERN s \<Longrightarrow> CHR 0x0A \<notin> set s"
  by (auto simp: SEGMENT_PATTERN_def list_all_iff)

lemma location_has_no_newline:
  assumes "locate b k = Inr loc"
  shows "CHR 0x0A \<notin> set b" "CHR 0x0A \<notin> set k"
proof -
  have s: "SEGMENT_PATTERN b" "\<And>w. w \<in> set (split_on CHR ''/'' k) \<Longrightarrow> SEGMENT_PATTERN w"
    using assms by (auto simp: locate_def segments_def Let_def list_all_iff split: if_splits sum.splits)
  show "CHR 0x0A \<notin> set b" by (rule segment_has_no_newline[OF s(1)])
  have "CHR 0x0A \<notin> set (join_with ''/'' ws)" if "\<And>w. w \<in> set ws \<Longrightarrow> CHR 0x0A \<notin> set w" for ws
    using that by (induction "''/''" ws rule: join_with.induct) auto
  then have "CHR 0x0A \<notin> set (join_with ''/'' (split_on CHR ''/'' k))"
    using s(2) segment_has_no_newline by blast
  then show "CHR 0x0A \<notin> set k" by (simp add: join_split)
qed

lemma upload_payload_inject:
  assumes "uploadPayload b k ct m e = uploadPayload b' k' ct' m' e'" "locate b' k' = Inr loc" "CHR 0x0A \<notin> set ct'"
  shows "b = b' \<and> k = k' \<and> ct = ct' \<and> m = m' \<and> e = e'"
proof -
  have "[''upload'', b, k, ct, signed_int_text m, signed_int_text e] =
        [''upload'', b', k', ct', signed_int_text m', signed_int_text e']"
    by (rule join_inject[OF assms(1)[unfolded uploadPayload_def]])
       (use location_has_no_newline[OF assms(2)] assms(3) number_has_no_newline in auto)
  then show ?thesis by (simp add: number_text_inject)
qed

lemma payload_kinds: "uploadPayload b k ct m e \<noteq> downloadPayload b' k' e'"
  by (simp add: uploadPayload_def downloadPayload_def)

text \<open>A payload the service signed: at some time, by a presign of the handler or for a download.\<close>

definition presigned_payload :: "string \<Rightarrow> bool" where
  "presigned_payload p \<longleftrightarrow>
     (\<exists>cfg key opts fs pu.
        fst (ls_presignUpload cfg key opts fs) = Inr pu \<and> po_contentType opts \<in> set ALLOWED_MIME_TYPES \<and>
        p = uploadPayload (pu_bucket pu) key (po_contentType opts) (po_maxBytes opts)
              (nowSeconds cfg + default_to 300 (po_expiresInSeconds opts)))"

definition download_payload :: "string \<Rightarrow> bool" where
  "download_payload p \<longleftrightarrow> (\<exists>b k e. p = downloadPayload b k e)"

lemma allowed_has_no_newline: "ct \<in> set ALLOWED_MIME_TYPES \<Longrightarrow> CHR 0x0A \<notin> set ct"
  by (auto simp: allowed_eval)

lemma presigned_located:
  assumes "fst (ls_presignUpload cfg key opts fs) = Inr pu"
  shows "pu_bucket pu = target_bucket cfg (po_bucket opts) \<and> (\<exists>loc. locate (pu_bucket pu) key = Inr loc)"
proof -
  note f = failing_Inr[OF assms[unfolded ls_presignUpload_def Let_def]]
  obtain loc where loc: "locate (target_bucket cfg (po_bucket opts)) key = Inr loc"
    using f by (cases "locate (target_bucket cfg (po_bucket opts)) key") (auto simp: action_defs)
  show ?thesis using f loc
    by (auto simp: action_defs split: sum.splits)
qed

section \<open>Accepted uploads\<close>

lemma bindE_InrD:
  assumes "bindE m f s = (Inr x, s')"
  obtains y s1 where "m s = (Inr y, s1)" "f y s1 = (Inr x, s')"
  using assms by (auto simp: bindE_def split: prod.splits sum.splits)

lemma thenE_InrD:
  assumes "thenE m n s = (Inr x, s')"
  obtains y s1 where "m s = (Inr y, s1)" "n s1 = (Inr x, s')"
  using assms unfolding thenE_def by (rule bindE_InrD)

lemma rethrow_InrD: "catchE m (\<lambda>e. throwE (g e)) s = (Inr x, s') \<Longrightarrow> m s = (Inr x, s')"
  by (auto simp: catchE_def throwE_def split: prod.splits sum.splits)

lemma fromE_InrD: "fromE r s = (Inr x, s') \<Longrightarrow> r = Inr x \<and> s' = s"
  by (auto simp: fromE_def)

lemma accepted_parts:
  assumes "acceptPresignedUpload cfg form body fs = (Inr (), fs')"
  obtains key bucket ct m e signature loc where
    "requireField form ''key'' = Inr key" "requireField form ''bucket'' = Inr bucket"
    "requireField form ''Content-Type'' = Inr ct" "requireField form ''signature'' = Inr signature"
    "verify_signature cfg (uploadPayload bucket key ct m e) signature = Inr ()"
    "assertNotExpired cfg e = Inr ()" "locate bucket key = Inr loc"
    "writeObject cfg 0 loc body (Some ct) 1 m fs = (Inr (), fs')"
proof -
  note step = rethrow_InrD[OF assms[unfolded acceptPresignedUpload_def]]
  from step show thesis
    by (elim bindE_InrD thenE_InrD) (auto dest!: fromE_InrD rethrow_InrD elim!: bindE_InrD intro: that)
qed

lemma written_object:
  assumes "writeObject cfg k loc body ct lo hi fs = (Inr (), fs')"
  shows "lo \<le> int (length body) \<and> int (length body) \<le> hi \<and> map_of fs' (ol_objectPath loc) = Some (ObjectFile body)"
  using assms
  by (auto simp: writeObject_def commit_def Let_def action_defs then_others_def put_file_def split: if_splits)

lemma requireField_Inr: "requireField form name = Inr v \<longleftrightarrow> map_of form name = Some v \<and> v \<noteq> []"
  by (auto simp: requireField_def split: option.splits list.splits)


text \<open>A service whose MAC is the text itself, and the upload it presigned.\<close>

definition example_local :: local_config where
  "example_local =
     \<lparr> lc_bucket = ''uploads'', lc_downloadUrlExpiresSeconds = 3600, lc_publicEndpoint = None,
       lc_signingSecret = None, lc_production = False, lc_nowMs = 0,
       lc_sha256hex = (\<lambda>b. map (\<lambda>w. char_of (unat w)) b), lc_hmac = (\<lambda>_ p. p),
       lc_between = (\<lambda>_ fs. fs) \<rparr>"

definition example_presign :: presign_options where
  "example_presign = \<lparr> po_bucket = None, po_contentType = ''image/gif'', po_maxBytes = 5, po_expiresInSeconds = Some 9 \<rparr>"

definition example_form :: form_fields where
  "example_form =
     [(''key'', ''uploads/u/a.gif''), (''bucket'', ''uploads''), (''Content-Type'', ''image/gif''),
      (''max-bytes'', ''5''), (''expires'', ''9''),
      (''signature'', uploadPayload ''uploads'' ''uploads/u/a.gif'' ''image/gif'' 5 9)]"

lemma example_local_sel [simp]:
  "lc_bucket example_local = ''uploads''" "lc_publicEndpoint example_local = None"
  "lc_signingSecret example_local = None" "\<not> lc_production example_local" "lc_nowMs example_local = 0"
  "lc_hmac example_local secret p = p" "lc_between example_local k fs = fs"
  by (simp_all add: example_local_def)

lemma example_numbers: "signed_int_text 5 = ''5''" "signed_int_text 9 = ''9''"
  "Number_integer ''5'' = Some 5" "Number_integer ''9'' = Some 9"
  by (simp_all add: signed_int_text_def decimal.simps) code_simp+

lemma example_location: "locate ''uploads'' ''uploads/u/a.gif'' =
   Inr \<lparr> ol_objectPath = [''objects'', ''uploads'', ''uploads'', ''u'', ''a.gif''],
         ol_metaPath = [''meta'', ''uploads'', ''uploads'', ''u'', ''a.gif.json''] \<rparr>"
  by code_simp

lemma example_accepted: "fst (acceptPresignedUpload example_local example_form [0x47] []) = Inr ()"
proof -
  have n: "requireInteger example_form ''max-bytes'' = Inr 5" "requireInteger example_form ''expires'' = Inr 9"
    by (simp_all add: requireInteger_def requireField_def example_form_def example_numbers)
  have f: "requireField example_form ''key'' = Inr ''uploads/u/a.gif''"
    "requireField example_form ''bucket'' = Inr ''uploads''"
    "requireField example_form ''Content-Type'' = Inr ''image/gif''"
    "requireField example_form ''signature'' = Inr (uploadPayload ''uploads'' ''uploads/u/a.gif'' ''image/gif'' 5 9)"
    by (simp_all add: requireField_def example_form_def) (simp add: uploadPayload_def)
  have v: "verify_signature example_local p p = Inr ()" for p
    by (simp add: verify_signature_def sign_def signingSecret_def requireSetting_def)
  show ?thesis
    unfolding acceptPresignedUpload_def f n
    by (simp add: action_defs v assertNotExpired_def nowSeconds_def example_location writeObject_def Let_def
        commit_def then_others_def under_a_file_def is_directory_def above_def put_file_def)
qed

lemma example_presigned: "presigned_payload (uploadPayload ''uploads'' ''uploads/u/a.gif'' ''image/gif'' 5 9)"
proof -
  have "\<exists>pu. fst (ls_presignUpload example_local ''uploads/u/a.gif'' example_presign []) = Inr pu \<and>
      pu_bucket pu = ''uploads''"
    unfolding ls_presignUpload_def
    by (simp add: failing_as_def action_defs target_bucket_def example_location example_presign_def sign_def
        signingSecret_def publicUrl_def requireSetting_def Let_def)
  then show ?thesis
    unfolding presigned_payload_def
    by (elim exE conjE, intro exI[of _ example_local] exI[of _ "''uploads/u/a.gif''"] exI[of _ example_presign]
          exI[of _ "[]"] exI conjI)
       (auto simp: example_presign_def allowed_eval nowSeconds_def)
qed


section \<open>Finalizing is bound to the confirmed version\<close>

lemma commit_target:
  assumes "commit cfg k body loc meta fs = (r, fs')" "ol_objectPath loc \<noteq> ol_metaPath loc"
    and others: "\<And>k fs p. p \<in> {ol_objectPath loc, ol_metaPath loc} \<Longrightarrow> map_of (lc_between cfg k fs) p = map_of fs p"
  shows "(r = Inr () \<and> map_of fs' (ol_objectPath loc) = Some (ObjectFile body) \<and>
            map_of fs' (ol_metaPath loc) = Some (MetaFile meta)) \<or>
         (r \<noteq> Inr () \<and> map_of fs' (ol_objectPath loc) = map_of fs (ol_objectPath loc))"
  using assms
  by (auto simp: commit_def action_defs then_others_def put_file_def others split: if_splits)

lemma meta_inject:
  "locate b k = Inr loc \<Longrightarrow> locate b k' = Inr loc' \<Longrightarrow> ol_metaPath loc = ol_metaPath loc' \<longleftrightarrow> k = k'"
proof -
  assume l: "locate b k = Inr loc" "locate b k' = Inr loc'"
  have m: "ol_metaPath loc = ''meta'' # b # butlast (split_on CHR ''/'' k) @ [last (split_on CHR ''/'' k) @ ''.json'']"
    "ol_metaPath loc' = ''meta'' # b # butlast (split_on CHR ''/'' k') @ [last (split_on CHR ''/'' k') @ ''.json'']"
    using l by (auto simp: locate_def segments_def Let_def split: if_splits)
  have "split_on CHR ''/'' k = split_on CHR ''/'' k'" if "ol_metaPath loc = ol_metaPath loc'"
  proof -
    have "butlast (split_on CHR ''/'' k) = butlast (split_on CHR ''/'' k')"
      "last (split_on CHR ''/'' k) = last (split_on CHR ''/'' k')"
      using that unfolding m by auto
    then show ?thesis using append_butlast_last_id[OF split_on_not_Nil] by metis
  qed
  then show ?thesis using m by (auto simp: split_on_inject)
qed

lemma spares_with_others:
  assumes "\<And>k fs p. p \<notin> P \<Longrightarrow> map_of (lc_between cfg k fs) p = map_of fs p" "spares P m"
  shows "spares P (then_others cfg k m)"
  using assms by (simp add: spares_def then_others_def)

lemma spares_same: "spares (- P) m \<Longrightarrow> m fs = (r, fs') \<Longrightarrow> p \<in> P \<Longrightarrow> map_of fs' p = map_of fs p"
  by (metis spares_def ComplD snd_conv)

text \<open>The steps of a finalize, once both keys name places.\<close>

lemma claimed_publication:
  assumes run: "finalize_claimed cfg sl dl meta etag body fs = (r, fs')"
    and places: "ol_objectPath sl \<notin> {ol_objectPath dl, ol_metaPath dl}" "ol_objectPath dl \<noteq> ol_metaPath dl"
    and alone: "\<And>k fs p. p \<in> {ol_objectPath dl, ol_metaPath dl} \<Longrightarrow> map_of (lc_between cfg k fs) p = map_of fs p"
  shows "(r = Inr () \<and> etag_of cfg body = etag \<and> map_of fs' (ol_objectPath dl) = Some (ObjectFile body) \<and>
            map_of fs' (ol_metaPath dl) = Some (MetaFile meta)) \<or>
         (r \<noteq> Inr () \<and> map_of fs' (ol_objectPath dl) = map_of fs (ol_objectPath dl))"
proof -
  let ?restore = "\<lambda>e. thenE (then_others cfg 4 (restoreClaimed body (ol_objectPath sl))) (throwE e) :: (local_fs, unit) action"
  have undone: "fst (?restore e fs1) \<noteq> Inr () \<and>
      map_of (snd (?restore e fs1)) (ol_objectPath dl) = map_of fs1 (ol_objectPath dl)" for e fs1
    using places alone by (auto simp: action_defs then_others_def restoreClaimed_def put_file_def)
  show ?thesis
  proof (cases "etag_of cfg body = etag")
    case False
    then have "finalize_claimed cfg sl dl meta etag body fs =
        ?restore (Internal ''Source object changed before it could be finalized'') fs"
      by (simp add: finalize_claimed_def catchE_def throwE_def[of "Internal _" fs])
    then have eq: "?restore (Internal ''Source object changed before it could be finalized'') fs = (r, fs')"
      using run by simp
    show ?thesis
      using undone[of "Internal ''Source object changed before it could be finalized''" fs] unfolding eq by simp
  next
    case True
    obtain r1 fs1 where c: "commit cfg 3 body dl meta (lc_between cfg 2 fs) = (r1, fs1)" by force
    note target = commit_target[OF c places(2) alone]
    show ?thesis
    proof (cases r1)
      case (Inr u)
      then show ?thesis using run c target True
        by (auto simp: finalize_claimed_def catchE_def then_others_def)
    next
      case (Inl e)
      then have "finalize_claimed cfg sl dl meta etag body fs = ?restore e fs1"
        using c True by (simp add: finalize_claimed_def catchE_def then_others_def[of cfg 2])
      then have eq: "?restore e fs1 = (r, fs')" using run by simp
      show ?thesis using Inl target undone[of e fs1] alone unfolding eq by simp
    qed
  qed
qed

lemma located_publication:
  assumes run: "finalize_located cfg sl dl etag fs = (r0, fs')"
    and places: "ol_objectPath sl \<notin> {ol_objectPath dl, ol_metaPath dl}" "ol_metaPath sl \<notin> {ol_objectPath dl, ol_metaPath dl}"
      "ol_objectPath dl \<noteq> ol_metaPath dl"
    and alone: "\<And>k fs p. p \<in> {ol_objectPath dl, ol_metaPath dl} \<Longrightarrow> map_of (lc_between cfg k fs) p = map_of fs p"
  shows "(r0 = Inr () \<and> (\<exists>body meta. etag_of cfg body = etag \<and> sm_etag meta = etag \<and>
              map_of fs' (ol_objectPath dl) = Some (ObjectFile body) \<and> map_of fs' (ol_metaPath dl) = Some (MetaFile meta))) \<or>
         (r0 \<noteq> Inr () \<and> map_of fs' (ol_objectPath dl) = map_of fs (ol_objectPath dl))"
proof -
  let ?P = "{ol_objectPath dl, ol_metaPath dl}"
  have others: "spares (- ?P) m \<Longrightarrow> spares (- ?P) (then_others cfg k m)" for k and m :: "(local_fs, 'x) action"
    by (rule spares_with_others) (use alone in auto)
  obtain rm fs1 where rm: "readMeta sl fs = (rm, fs1)" by force
  have fs1: "fs1 = fs" using rm by (auto simp: readMeta_def split: if_splits option.splits local_file.splits)
  show ?thesis
  proof (cases "\<exists>meta. rm = Inr (Some meta) \<and> sm_etag meta = etag")
    case False
    then have "r0 \<noteq> Inr () \<and> fs' = fs"
      using run rm fs1 by (auto simp: finalize_located_def bindE_def throwE_def split: sum.splits option.splits if_splits)
    then show ?thesis by simp
  next
    case True
    then obtain meta where meta: "rm = Inr (Some meta)" "sm_etag meta = etag" by blast
    obtain rc fs2 where rc: "then_others cfg 1 (claim_source (ol_objectPath sl)) fs = (rc, fs2)" by force
    have fs2: "map_of fs2 p = map_of fs p" if "p \<in> ?P" for p
      by (rule spares_same[OF others[OF spares_claim] rc that]) (use places in auto)
    show ?thesis
    proof (cases rc)
      case (Inl e)
      then have "r0 \<noteq> Inr () \<and> fs' = fs2"
        using run rm fs1 meta rc by (auto simp: finalize_located_def bindE_def)
      then show ?thesis using fs2 by simp
    next
      case (Inr body)
      obtain rf fs3 where rf: "finalize_claimed cfg sl dl meta etag body fs2 = (rf, fs3)" by force
      note outcome = claimed_publication[OF rf places(1,3) alone]
      show ?thesis
      proof (cases rf)
        case (Inl e)
        then have "r0 \<noteq> Inr () \<and> fs' = fs3"
          using run rm fs1 meta rc Inr rf by (auto simp: finalize_located_def bindE_def thenE_def)
        then show ?thesis using outcome Inl fs2 by auto
      next
        case ok: (Inr u)
        have last_step: "then_others cfg 5 (quietly (remove_path (ol_metaPath sl))) fs3 = (r0, fs')"
          using run rm fs1 meta rc Inr rf ok by (auto simp: finalize_located_def bindE_def thenE_def)
        have fs4: "map_of fs' p = map_of fs3 p" if "p \<in> ?P" for p
          by (rule spares_same[OF others[OF spares_quietly[OF spares_remove]] last_step that]) (use places in auto)
        have "r0 = Inr ()"
          using last_step by (auto simp: then_others_def quietly_def catchE_def returnE_def split: prod.splits sum.splits)
        then show ?thesis using outcome ok fs4 meta(2) by auto
      qed
    qed
  qed
qed

text \<open>C25. Finalizing publishes exactly the confirmed version: whatever other requests do to the staged
  object between the steps of a finalize (as long as the fresh final key is its own), success means that the
  final key holds bytes with the digest that was confirmed and metadata with that ETag, and
  a failure leaves the content of the final key as it was.\<close>

theorem finalize_publishes_confirmed_version:
  assumes run: "ls_finalize cfg src dst etag ob fs = (r, fs')"
    and distinct_keys: "src \<noteq> dst"
    and alone: "\<And>k fs p. p \<in> paths_of (target_bucket cfg ob) dst \<Longrightarrow> map_of (lc_between cfg k fs) p = map_of fs p"
  shows "(r = Inr () \<longrightarrow>
            (\<exists>body m. etag_of cfg body = etag \<and> local_contents fs' (target_bucket cfg ob) dst = Some body \<and>
               fst (ls_head cfg dst ob fs') = Inr (Some m) \<and> om_etag m = etag)) \<and>
         (r \<noteq> Inr () \<longrightarrow> local_contents fs' (target_bucket cfg ob) dst = local_contents fs (target_bucket cfg ob) dst)"
proof (cases "\<exists>sl dl. locate (target_bucket cfg ob) src = Inr sl \<and> locate (target_bucket cfg ob) dst = Inr dl")
  case False
  then have "r \<noteq> Inr () \<and> fs' = fs"
    using run unfolding ls_finalize_def
    by (cases "locate (target_bucket cfg ob) src"; cases "locate (target_bucket cfg ob) dst") (auto simp: failing_as_def action_defs)
  then show ?thesis by simp
next
  case True
  then obtain sl dl where sl: "locate (target_bucket cfg ob) src = Inr sl" and dl: "locate (target_bucket cfg ob) dst = Inr dl"
    by blast
  have places: "ol_objectPath sl \<notin> {ol_objectPath dl, ol_metaPath dl}" "ol_metaPath sl \<notin> {ol_objectPath dl, ol_metaPath dl}"
    "ol_objectPath dl \<noteq> ol_metaPath dl"
    using object_inject[OF sl dl] object_not_meta[OF sl dl] object_not_meta[OF dl sl] meta_inject[OF sl dl]
      object_not_meta[OF dl dl] distinct_keys by auto
  have run': "failing_as finalize_failure (finalize_located cfg sl dl etag) fs = (r, fs')"
    using run unfolding ls_finalize_def sl dl by (simp add: failing_as_def catchE_def bindE_def fromE_def)
  obtain r0 where r0: "finalize_located cfg sl dl etag fs = (r0, fs')" "r = Inr () \<longleftrightarrow> r0 = Inr ()"
    using run' by (auto simp: failing_as_def catchE_def throwE_def split: prod.splits sum.splits)
  have "fst (ls_head cfg dst ob fs') = Inr (Some \<lparr> om_contentType = sm_contentType meta, om_size = sm_size meta,
      om_bucket = target_bucket cfg ob, om_etag = sm_etag meta \<rparr>)"
    if "map_of fs' (ol_objectPath dl) = Some (ObjectFile body)" "map_of fs' (ol_metaPath dl) = Some (MetaFile meta)"
    for body meta
    using that dl by (simp add: ls_head_def failing_as_def action_defs readMeta_def)
  then show ?thesis
    using located_publication[OF r0(1) places] alone r0(2) dl by (fastforce simp: local_contents_def paths_of_def)
qed

text \<open>A staged object that another upload replaces while it is being finalized.\<close>

definition staged_fs :: local_fs where
  "staged_fs =
     [([''objects'', ''uploads'', ''uploads'', ''u'', ''a.gif''], ObjectFile [0x47]),
      ([''meta'', ''uploads'', ''uploads'', ''u'', ''a.gif.json''],
        MetaFile \<lparr> sm_contentType = ''image/gif'', sm_size = 1, sm_etag = ''\"G\"'' \<rparr>)]"

definition racing_local :: local_config where
  "racing_local = example_local \<lparr> lc_between := \<lambda>k fs. if k = 3
     then put_file [''objects'', ''uploads'', ''uploads'', ''u'', ''a.gif''] (ObjectFile [0x48]) fs else fs \<rparr>"

lemma racing_alone:
  "p \<in> paths_of (target_bucket racing_local None) ''files/u/1.gif'' \<Longrightarrow> map_of (lc_between racing_local k fs) p = map_of fs p"
proof -
  have "locate ''uploads'' ''files/u/1.gif'' =
     Inr \<lparr> ol_objectPath = [''objects'', ''uploads'', ''files'', ''u'', ''1.gif''],
           ol_metaPath = [''meta'', ''uploads'', ''files'', ''u'', ''1.gif.json''] \<rparr>"
    by code_simp
  then show "p \<in> paths_of (target_bucket racing_local None) ''files/u/1.gif'' \<Longrightarrow>
      map_of (lc_between racing_local k fs) p = map_of fs p"
    by (auto simp: paths_of_def target_bucket_def racing_local_def put_file_def)
qed

lemma racing_succeeds:
  "fst (ls_finalize racing_local ''uploads/u/a.gif'' ''files/u/1.gif'' ''\"G\"'' None staged_fs) = Inr ()"
  by code_simp

theorem finalize_publishes_confirmed_version_witness:
  "let out = ls_finalize racing_local ''uploads/u/a.gif'' ''files/u/1.gif'' ''\"G\"'' None staged_fs
   in \<exists>body m. etag_of racing_local body = ''\"G\"'' \<and>
        local_contents (snd out) (target_bucket racing_local None) ''files/u/1.gif'' = Some body \<and>
        fst (ls_head racing_local ''files/u/1.gif'' None (snd out)) = Inr (Some m) \<and> om_etag m = ''\"G\"''"
  unfolding Let_def
  by (rule mp[OF conjunct1[OF finalize_publishes_confirmed_version[OF prod.collapse[symmetric]]] racing_succeeds])
     (auto intro: racing_alone)

end
