(* ===== verification/Upload_Guarantee.thy ===== *)
theory Upload_Guarantee
  imports Uploads Local_Storage
begin

text \<open>What every upload handler guarantees when the others running between its awaits do: the status
  of a file only moves forward, its other columns never change, the objects behind published files
  stay, and a file that is READY has an object whose leading bytes match its declared type.\<close>

section \<open>The guarantee\<close>

definition same_file :: "stored_file \<Rightarrow> stored_file \<Rightarrow> bool" where
  "same_file f g \<longleftrightarrow> g = withStatus (sf_status g) f"

definition may_become :: "stored_file_status \<Rightarrow> stored_file_status \<Rightarrow> bool" where
  "may_become a b \<longleftrightarrow> a = b \<or> a = FINALIZING \<or> (a = VERIFYING \<and> b \<noteq> FINALIZING)"

definition status_of :: "stored_row \<Rightarrow> stored_file_status" where
  "status_of r = sf_status (sr_file r)"

definition row_id :: "stored_row \<Rightarrow> id" where
  "row_id r = sf_id (sr_file r)"

definition follows :: "stored_row \<Rightarrow> stored_row \<Rightarrow> bool" where
  "follows r r' \<longleftrightarrow>
     same_file (sr_file r) (sr_file r') \<and> may_become (status_of r) (status_of r') \<and>
     (sr_deletedAt r \<noteq> None \<longrightarrow> sr_deletedAt r' = sr_deletedAt r)"

text \<open>The object of the file has leading bytes of its declared type.\<close>

definition holds_type :: "('s \<Rightarrow> string \<Rightarrow> string \<Rightarrow> bytes option) \<Rightarrow> 's \<Rightarrow> stored_file \<Rightarrow> bool" where
  "holds_type c s f \<longleftrightarrow>
     (\<exists>b t. c s (sf_bucket f) (sf_key f) = Some b \<and> detectFileType b = Some t \<and> dt_mimeType t = sf_contentType f)"

definition upload_inv :: "('s \<Rightarrow> string \<Rightarrow> string \<Rightarrow> bytes option) \<Rightarrow> ('s, 'q) upload_world \<Rightarrow> bool" where
  "upload_inv c w \<longleftrightarrow>
     distinct (map row_id (uw_rows w)) \<and> distinct (map (sf_key \<circ> sr_file) (uw_rows w)) \<and>
     (\<forall>r \<in> set (uw_rows w).
        row_id r \<in> set (uw_issued w) \<and> starts_with ''files/'' (sf_key (sr_file r)) \<and>
        (status_of r = READY \<longrightarrow> holds_type c (uw_store w) (sr_file r)))"

text \<open>The object of a row must stay: it was published, or a confirmed upload is being finalized.\<close>

definition confirmed :: "stored_file \<Rightarrow> bool" where
  "confirmed f \<longleftrightarrow> starts_with ''uploads/'' (sf_sourceKey f)"

definition anchored :: "stored_file \<Rightarrow> bool" where
  "anchored f \<longleftrightarrow> sf_status f \<noteq> FINALIZING \<or> confirmed f"

definition object_kept :: "('s \<Rightarrow> string \<Rightarrow> string \<Rightarrow> bytes option) \<Rightarrow> 's \<Rightarrow> 's \<Rightarrow> stored_file \<Rightarrow> bool" where
  "object_kept c s s' f \<longleftrightarrow>
     (\<forall>b. c s (sf_bucket f) (sf_key f) = Some b \<longrightarrow> c s' (sf_bucket f) (sf_key f) = Some b)"

definition steps :: "('s \<Rightarrow> string \<Rightarrow> string \<Rightarrow> bytes option) \<Rightarrow> ('s, 'q) upload_world \<Rightarrow> ('s, 'q) upload_world \<Rightarrow> bool" where
  "steps c w w' \<longleftrightarrow>
     set (uw_issued w) \<subseteq> set (uw_issued w') \<and>
     (\<forall>r \<in> set (uw_rows w). status_of r \<noteq> FINALIZING \<longrightarrow> (\<exists>r' \<in> set (uw_rows w'). follows r r')) \<and>
     (\<forall>r' \<in> set (uw_rows w'). row_id r' \<in> set (uw_issued w) \<longrightarrow>
        (\<exists>r \<in> set (uw_rows w). follows r r' \<and>
           (anchored (sr_file r) \<and> status_of r' \<noteq> REJECTED \<longrightarrow>
              object_kept c (uw_store w) (uw_store w') (sr_file r))))"

definition guarantee :: "('s \<Rightarrow> string \<Rightarrow> string \<Rightarrow> bytes option) \<Rightarrow> ('s, 'q) upload_world \<Rightarrow> ('s, 'q) upload_world \<Rightarrow> bool" where
  "guarantee c w w' \<longleftrightarrow> (upload_inv c w \<longrightarrow> upload_inv c w' \<and> steps c w w')"

lemma same_file_refl [simp]: "same_file f f"
  by (simp add: same_file_def withStatus_def)

lemma same_file_trans: "same_file f g \<Longrightarrow> same_file g h \<Longrightarrow> same_file f h"
  by (simp add: same_file_def withStatus_def) (metis stored_file.surjective stored_file.update_convs(10))

lemma same_file_sel:
  assumes "same_file f g"
  shows "sf_id g = sf_id f" "sf_key g = sf_key f" "sf_bucket g = sf_bucket f" "sf_contentType g = sf_contentType f"
    "sf_sourceKey g = sf_sourceKey f" "sf_organizationId g = sf_organizationId f" "sf_userId g = sf_userId f"
proof -
  have g: "g = f \<lparr> sf_status := sf_status g \<rparr>" using assms by (simp add: same_file_def withStatus_def)
  show "sf_id g = sf_id f" "sf_key g = sf_key f" "sf_bucket g = sf_bucket f" "sf_contentType g = sf_contentType f"
    "sf_sourceKey g = sf_sourceKey f" "sf_organizationId g = sf_organizationId f" "sf_userId g = sf_userId f"
    by (subst g, simp)+
qed

lemma same_file_sym: "same_file f g \<Longrightarrow> same_file g f"
proof -
  assume "same_file f g"
  then have g: "g = f \<lparr> sf_status := sf_status g \<rparr>" by (simp add: same_file_def withStatus_def)
  have "f = f \<lparr> sf_status := sf_status g \<rparr> \<lparr> sf_status := sf_status f \<rparr>" by simp
  then show "same_file g f" unfolding same_file_def withStatus_def g[symmetric] .
qed

lemma may_become_refl [simp]: "may_become a a"
  by (simp add: may_become_def)

lemma may_become_trans: "may_become a b \<Longrightarrow> may_become b d \<Longrightarrow> may_become a d"
  by (auto simp: may_become_def)

lemma follows_refl [simp]: "follows r r"
  by (simp add: follows_def)

lemma follows_trans: "follows r s \<Longrightarrow> follows s t \<Longrightarrow> follows r t"
  by (auto simp: follows_def intro: same_file_trans may_become_trans)

lemma follows_id: "follows r r' \<Longrightarrow> row_id r' = row_id r"
  by (simp add: follows_def row_id_def same_file_sel)

lemma anchored_follows: "follows r r' \<Longrightarrow> anchored (sr_file r) \<Longrightarrow> anchored (sr_file r')"
  by (auto simp: follows_def anchored_def confirmed_def status_of_def may_become_def same_file_sel)

lemma holds_type_same: "same_file f g \<Longrightarrow> holds_type c s g = holds_type c s f"
  by (simp add: holds_type_def same_file_sel)

lemma holds_type_kept: "object_kept c s s' f \<Longrightarrow> holds_type c s f \<Longrightarrow> holds_type c s' f"
  by (auto simp: object_kept_def holds_type_def)

lemma rejected_stays: "follows r r' \<Longrightarrow> status_of r' \<noteq> REJECTED \<Longrightarrow> status_of r \<noteq> REJECTED"
  by (auto simp: follows_def may_become_def)

lemma steps_refl: "upload_inv c w \<Longrightarrow> steps c w w"
  by (auto simp: steps_def object_kept_def intro: follows_refl)

lemma steps_trans:
  assumes "upload_inv c w" "steps c w w1" "steps c w1 w2"
  shows "steps c w w2"
  unfolding steps_def
proof (intro conjI ballI impI)
  show "set (uw_issued w) \<subseteq> set (uw_issued w2)" using assms by (auto simp: steps_def)
next
  fix r assume r: "r \<in> set (uw_rows w)" "status_of r \<noteq> FINALIZING"
  then obtain r1 where r1: "r1 \<in> set (uw_rows w1)" "follows r r1" using assms(2) by (auto simp: steps_def)
  then have "status_of r1 \<noteq> FINALIZING" using r by (auto simp: follows_def may_become_def)
  then obtain r2 where "r2 \<in> set (uw_rows w2)" "follows r1 r2" using assms(3) r1 by (auto simp: steps_def)
  then show "\<exists>r' \<in> set (uw_rows w2). follows r r'" using r1 follows_trans by blast
next
  fix r2 assume r2: "r2 \<in> set (uw_rows w2)" "row_id r2 \<in> set (uw_issued w)"
  then have "row_id r2 \<in> set (uw_issued w1)" using assms(2) by (auto simp: steps_def)
  then obtain r1 where r1: "r1 \<in> set (uw_rows w1)" "follows r1 r2"
    "anchored (sr_file r1) \<and> status_of r2 \<noteq> REJECTED \<longrightarrow> object_kept c (uw_store w1) (uw_store w2) (sr_file r1)"
    using assms(3) r2(1) unfolding steps_def by blast
  have "row_id r1 \<in> set (uw_issued w)" using r1(2) r2(2) by (simp add: follows_id)
  then obtain r where r: "r \<in> set (uw_rows w)" "follows r r1"
    "anchored (sr_file r) \<and> status_of r1 \<noteq> REJECTED \<longrightarrow> object_kept c (uw_store w) (uw_store w1) (sr_file r)"
    using assms(2) r1(1) unfolding steps_def by blast
  have same: "same_file (sr_file r) (sr_file r1)" using r(2) by (simp add: follows_def)
  show "\<exists>r \<in> set (uw_rows w). follows r r2 \<and> (anchored (sr_file r) \<and> status_of r2 \<noteq> REJECTED \<longrightarrow>
      object_kept c (uw_store w) (uw_store w2) (sr_file r))"
  proof (intro bexI[OF _ r(1)] conjI impI)
    show "follows r r2" by (rule follows_trans[OF r(2) r1(2)])
    assume a: "anchored (sr_file r) \<and> status_of r2 \<noteq> REJECTED"
    have "object_kept c (uw_store w) (uw_store w1) (sr_file r)"
      using r(3) a rejected_stays[OF r1(2)] by blast
    moreover have "object_kept c (uw_store w1) (uw_store w2) (sr_file r1)"
      using r1(3) a anchored_follows[OF r(2)] by blast
    ultimately show "object_kept c (uw_store w) (uw_store w2) (sr_file r)"
      using same_file_sel[OF same] by (auto simp: object_kept_def)
  qed
qed

lemma guarantee_preorder: "preorder_on_states (guarantee c)"
  unfolding preorder_on_states_def
proof
  show "reflp (guarantee c)" by (rule reflpI) (simp add: guarantee_def steps_refl)
  show "transp (guarantee c)" by (rule transpI) (auto simp: guarantee_def intro: steps_trans)
qed

section \<open>Assertions that survive\<close>

definition steadfast :: "('s \<Rightarrow> string \<Rightarrow> string \<Rightarrow> bytes option) \<Rightarrow> (('s, 'q) upload_world \<Rightarrow> bool) \<Rightarrow> bool" where
  "steadfast c S \<longleftrightarrow> (\<forall>w w'. upload_inv c w \<and> upload_inv c w' \<and> steps c w w' \<and> S w \<longrightarrow> S w')"

text \<open>The file is known: every row with its id is that file, further on.\<close>

definition known_file :: "stored_file \<Rightarrow> ('s, 'q) upload_world \<Rightarrow> bool" where
  "known_file f w \<longleftrightarrow>
     sf_id f \<in> set (uw_issued w) \<and>
     (\<forall>r \<in> set (uw_rows w). row_id r = sf_id f \<longrightarrow> same_file f (sr_file r) \<and> may_become (sf_status f) (status_of r))"

definition checked_file :: "('s \<Rightarrow> string \<Rightarrow> string \<Rightarrow> bytes option) \<Rightarrow> stored_file \<Rightarrow> ('s, 'q) upload_world \<Rightarrow> bool" where
  "checked_file c f w \<longleftrightarrow>
     anchored f \<and> known_file f w \<and>
     (\<forall>r \<in> set (uw_rows w). row_id r = sf_id f \<and> status_of r \<noteq> REJECTED \<longrightarrow> holds_type c (uw_store w) f)"

text \<open>A settled file: its row stays.\<close>

definition standing :: "stored_file \<Rightarrow> ('s, 'q) upload_world \<Rightarrow> bool" where
  "standing f w \<longleftrightarrow>
     sf_status f \<noteq> FINALIZING \<and>
     (\<exists>r \<in> set (uw_rows w). same_file f (sr_file r) \<and> may_become (sf_status f) (status_of r))"

lemma steadfast_conj: "steadfast c S \<Longrightarrow> steadfast c T \<Longrightarrow> steadfast c (\<lambda>w. S w \<and> T w)"
  by (simp add: steadfast_def) blast

lemma steadfast_ball: "(\<And>x. x \<in> A \<Longrightarrow> steadfast c (S x)) \<Longrightarrow> steadfast c (\<lambda>w. \<forall>x \<in> A. S x w)"
  unfolding steadfast_def by metis

lemma steadfast_True [simp]: "steadfast c (\<lambda>w. True)" and steadfast_const [simp]: "steadfast c (\<lambda>w. b)"
  by (simp_all add: steadfast_def)

lemma steadfast_known [simp]: "steadfast c (known_file f)"
  unfolding steadfast_def known_file_def
proof (intro allI impI, elim conjE, intro conjI ballI impI)
  fix w w'
  assume s: "steps c w w'" and i: "sf_id f \<in> set (uw_issued w)"
    and all: "\<forall>r \<in> set (uw_rows w). row_id r = sf_id f \<longrightarrow> same_file f (sr_file r) \<and> may_become (sf_status f) (status_of r)"
  show "sf_id f \<in> set (uw_issued w')" using s i unfolding steps_def by blast
  fix r' assume r': "r' \<in> set (uw_rows w')" "row_id r' = sf_id f"
  then obtain r where r: "r \<in> set (uw_rows w)" "follows r r'" using s i unfolding steps_def by metis
  then have "row_id r = sf_id f" using r' by (simp add: follows_id)
  then have "same_file f (sr_file r)" "may_become (sf_status f) (status_of r)" using all r(1) by auto
  then show "same_file f (sr_file r')" "may_become (sf_status f) (status_of r')"
    using r(2) same_file_trans may_become_trans by (auto simp: follows_def)
qed

lemma known_issued: "known_file f w \<Longrightarrow> sf_id f \<in> set (uw_issued w)"
  by (simp add: known_file_def)

lemma steadfast_checked [simp]: "steadfast c (checked_file c f)"
  unfolding steadfast_def
proof (intro allI impI, elim conjE)
  fix w w'
  assume a: "upload_inv c w" "upload_inv c w'" "steps c w w'" "checked_file c f w"
  have k: "known_file f w'" using a steadfast_known[of c f] by (auto simp: checked_file_def steadfast_def)
  have "holds_type c (uw_store w') f" if r': "r' \<in> set (uw_rows w')" "row_id r' = sf_id f" "status_of r' \<noteq> REJECTED" for r'
  proof -
    have "row_id r' \<in> set (uw_issued w)" using a(4) r'(2) by (simp add: checked_file_def known_issued)
    then obtain r where r: "r \<in> set (uw_rows w)" "follows r r'"
      "anchored (sr_file r) \<and> status_of r' \<noteq> REJECTED \<longrightarrow> object_kept c (uw_store w) (uw_store w') (sr_file r)"
      using a(3) r'(1) unfolding steps_def by blast
    have rid: "row_id r = sf_id f" using r(2) r'(2) by (simp add: follows_id)
    have same: "same_file f (sr_file r)" "may_become (sf_status f) (status_of r)"
      using a(4) rid r(1) by (auto simp: checked_file_def known_file_def)
    have "anchored (sr_file r)"
      using a(4) same by (auto simp: checked_file_def anchored_def confirmed_def may_become_def status_of_def same_file_sel)
    then have kept: "object_kept c (uw_store w) (uw_store w') (sr_file r)" using r(3) r'(3) by blast
    have "holds_type c (uw_store w) f"
      using a(4) r(1) rid rejected_stays[OF r(2) r'(3)] by (auto simp: checked_file_def)
    then show ?thesis using holds_type_kept[OF kept] by (simp add: holds_type_same[OF same(1)])
  qed
  then show "checked_file c f w'" using a(4) k by (auto simp: checked_file_def)
qed

lemma steadfast_standing [simp]: "steadfast c (standing f)"
  unfolding steadfast_def standing_def
proof (intro allI impI, elim conjE bexE, intro conjI)
  fix w w' r
  assume s: "steps c w w'" and r: "r \<in> set (uw_rows w)" "same_file f (sr_file r)" "may_become (sf_status f) (status_of r)"
    and f: "sf_status f \<noteq> FINALIZING"
  then have "status_of r \<noteq> FINALIZING" by (auto simp: may_become_def)
  then obtain r' where "r' \<in> set (uw_rows w')" "follows r r'" using s r(1) unfolding steps_def by blast
  then show "\<exists>r \<in> set (uw_rows w'). same_file f (sr_file r) \<and> may_become (sf_status f) (status_of r)"
    using r same_file_trans may_become_trans by (auto simp: follows_def intro!: bexI[of _ r'])
qed

section \<open>Safe actions\<close>

definition safe :: "('s \<Rightarrow> string \<Rightarrow> string \<Rightarrow> bytes option) \<Rightarrow> (('s, 'q) upload_world \<Rightarrow> bool) \<Rightarrow>
    ('s, 'q, 'a) upload_action \<Rightarrow> ('a outcome \<Rightarrow> ('s, 'q) upload_world \<Rightarrow> bool) \<Rightarrow> bool" where
  "safe c P m Q \<longleftrightarrow> triple (guarantee c) (\<lambda>w. upload_inv c w \<and> P w) m (\<lambda>r w. upload_inv c w \<and> Q r w)"

text \<open>The others: every run between two awaits gives the guarantee.\<close>

definition rely :: "('s \<Rightarrow> string \<Rightarrow> string \<Rightarrow> bytes option) \<Rightarrow> ('s, 'q) upload_env \<Rightarrow> bool" where
  "rely c env \<longleftrightarrow> (\<forall>k w. guarantee c w (ue_between env k w))"

lemma safeI:
  "(\<And>w. upload_inv c w \<Longrightarrow> P w \<Longrightarrow>
      upload_inv c (snd (m w)) \<and> steps c w (snd (m w)) \<and> Q (fst (m w)) (snd (m w))) \<Longrightarrow> safe c P m Q"
  by (simp add: safe_def triple_def guarantee_def)

lemma safeD:
  "safe c P m Q \<Longrightarrow> upload_inv c w \<Longrightarrow> P w \<Longrightarrow> m w = (r, w') \<Longrightarrow> upload_inv c w' \<and> steps c w w' \<and> Q r w'"
  by (auto simp: safe_def triple_def guarantee_def)

lemma safe_weaken:
  "safe c P' m Q' \<Longrightarrow> (\<And>w. P w \<Longrightarrow> P' w) \<Longrightarrow> (\<And>r w. upload_inv c w \<Longrightarrow> Q' r w \<Longrightarrow> Q r w) \<Longrightarrow> safe c P m Q"
  unfolding safe_def by (erule triple_weaken) auto

lemma safe_pure:
  "(\<And>w. P w \<Longrightarrow> Q (Inr x) w) \<Longrightarrow> safe c P (returnE x) Q"
  "(\<And>w. P w \<Longrightarrow> Q (Inl e) w) \<Longrightarrow> safe c P (throwE e) Q"
  "(\<And>w. P w \<Longrightarrow> Q r w) \<Longrightarrow> safe c P (fromE r) Q"
  unfolding safe_def
  by (auto intro: triple_return triple_throw triple_from guarantee_preorder)

lemma safe_false: "safe c (\<lambda>w. False) m Q"
  by (simp add: safe_def triple_def)

lemma safe_if:
  "(b \<Longrightarrow> safe c P m Q) \<Longrightarrow> (\<not> b \<Longrightarrow> safe c P n Q) \<Longrightarrow> safe c P (if b then m else n) Q"
  by simp

lemma safe_option:
  "(x = None \<Longrightarrow> safe c P m Q) \<Longrightarrow> (\<And>y. x = Some y \<Longrightarrow> safe c P (f y) Q) \<Longrightarrow>
   safe c P (case x of None \<Rightarrow> m | Some y \<Rightarrow> f y) Q"
  by (cases x) simp_all

lemma safe_bind:
  "safe c P m R \<Longrightarrow> (\<And>x. safe c (R (Inr x)) (f x) Q) \<Longrightarrow> (\<And>e w. R (Inl e) w \<Longrightarrow> Q (Inl e) w) \<Longrightarrow>
   safe c P (bindE m f) Q"
  unfolding safe_def by (rule triple_bind[OF guarantee_preorder, where R = "\<lambda>r w. upload_inv c w \<and> R r w"]) auto

lemma safe_then:
  "safe c P m R \<Longrightarrow> (\<And>x. safe c (R (Inr x)) n Q) \<Longrightarrow> (\<And>e w. R (Inl e) w \<Longrightarrow> Q (Inl e) w) \<Longrightarrow>
   safe c P (thenE m n) Q"
  unfolding thenE_def by (rule safe_bind)

lemma safe_catch:
  "safe c P m R \<Longrightarrow> (\<And>e. safe c (R (Inl e)) (h e) Q) \<Longrightarrow> (\<And>x w. R (Inr x) w \<Longrightarrow> Q (Inr x) w) \<Longrightarrow>
   safe c P (catchE m h) Q"
  unfolding safe_def by (rule triple_catch[OF guarantee_preorder, where R = "\<lambda>r w. upload_inv c w \<and> R r w"]) auto

lemma safe_quietly: "safe c P m R \<Longrightarrow> (\<And>r w. R r w \<Longrightarrow> Q w) \<Longrightarrow> safe c P (quietly m) (\<lambda>r w. r = Inr () \<and> Q w)"
  unfolding quietly_def
  by (rule safe_catch[where R = "\<lambda>r w. Q w"]) (auto intro: safe_weaken intro!: safe_pure)

lemma safe_each: "(\<And>x. x \<in> set xs \<Longrightarrow> safe c I (f x) (\<lambda>r w. I w)) \<Longrightarrow> safe c I (each f xs) (\<lambda>r w. I w)"
  unfolding safe_def by (rule triple_each[OF guarantee_preorder]) auto

lemma safe_promise_all:
  "(\<And>x. x \<in> set xs \<Longrightarrow> safe c I (f x) (\<lambda>r w. I w \<and> (\<forall>y. r = Inr y \<longrightarrow> A y))) \<Longrightarrow>
   safe c I (promise_all f xs) (\<lambda>r w. I w \<and> (\<forall>ys. r = Inr ys \<longrightarrow> (\<forall>y \<in> set ys. A y)))"
  unfolding safe_def
  using triple_promise_all[OF guarantee_preorder[of c], of xs "\<lambda>w. upload_inv c w \<and> I w" f A] by (simp add: conj_assoc)

lemma safe_keep:
  assumes "safe c P m Q" "steadfast c S"
  shows "safe c (\<lambda>w. P w \<and> S w) m (\<lambda>r w. Q r w \<and> S w)"
proof (rule safeI)
  fix w assume "upload_inv c w" "P w \<and> S w"
  moreover obtain r w' where m: "m w = (r, w')" by force
  ultimately show "upload_inv c (snd (m w)) \<and> steps c w (snd (m w)) \<and> Q (fst (m w)) (snd (m w)) \<and> S (snd (m w))"
    using safeD[OF assms(1) _ _ m] assms(2) unfolding steadfast_def by auto
qed

lemma safe_await:
  assumes "rely c env" "\<And>w. upload_inv c w \<Longrightarrow> P w \<Longrightarrow> P (ue_between env k w)" "safe c P m Q"
  shows "safe c P (awaiting env k m) Q"
proof (rule safeI)
  fix w assume w: "upload_inv c w" "P w"
  have g: "upload_inv c (ue_between env k w)" "steps c w (ue_between env k w)"
    using assms(1) w by (auto simp: rely_def guarantee_def)
  obtain r w' where m: "m (ue_between env k w) = (r, w')" by force
  have "upload_inv c w' \<and> steps c (ue_between env k w) w' \<and> Q r w'"
    by (rule safeD[OF assms(3) g(1) assms(2)[OF w] m])
  then show "upload_inv c (snd (awaiting env k m w)) \<and> steps c w (snd (awaiting env k m w)) \<and>
      Q (fst (awaiting env k m w)) (snd (awaiting env k m w))"
    using m steps_trans[OF w(1) g(2)] by (simp add: awaiting_def)
qed

lemma safe_await_steadfast:
  assumes "rely c env" "steadfast c P" "safe c P m Q"
  shows "safe c P (awaiting env k m) Q"
  by (rule safe_await[OF assms(1) _ assms(3)])
     (use assms(1,2) in \<open>auto simp: rely_def guarantee_def steadfast_def\<close>)

section \<open>Changes of the table\<close>

definition with_rows :: "('s, 'q) upload_world \<Rightarrow> file_table \<Rightarrow> ('s, 'q) upload_world" where
  "with_rows w rows = w \<lparr> uw_rows := rows, uw_issued := set_add_all (uw_issued w) (map (sf_id \<circ> sr_file) rows) \<rparr>"

lemma on_rows_run: "zoom uw_rows (\<lambda>r w. w \<lparr> uw_rows := r, uw_issued := set_add_all (uw_issued w) (map (sf_id \<circ> sr_file) r) \<rparr>) m w =
   (fst (m (uw_rows w)), with_rows w (snd (m (uw_rows w))))"
  by (simp add: zoom_def with_rows_def split: prod.split)

lemma with_rows_sel [simp]:
  "uw_rows (with_rows w rows) = rows" "uw_store (with_rows w rows) = uw_store w"
  "set (uw_issued (with_rows w rows)) = set (uw_issued w) \<union> row_id ` set rows"
  by (auto simp: with_rows_def row_id_def)

lemma object_kept_refl [simp]: "object_kept c s s f"
  by (simp add: object_kept_def)

lemma rows_step:
  assumes "upload_inv c w"
    and "distinct (map row_id rows)" "distinct (map (sf_key \<circ> sr_file) rows)"
    and "\<And>r. r \<in> set rows \<Longrightarrow> starts_with ''files/'' (sf_key (sr_file r)) \<and>
           (status_of r = READY \<longrightarrow> holds_type c (uw_store w) (sr_file r))"
    and "\<And>r. r \<in> set (uw_rows w) \<Longrightarrow> status_of r \<noteq> FINALIZING \<Longrightarrow> \<exists>r' \<in> set rows. follows r r'"
    and "\<And>r'. r' \<in> set rows \<Longrightarrow> row_id r' \<in> set (uw_issued w) \<Longrightarrow> \<exists>r \<in> set (uw_rows w). follows r r'"
  shows "upload_inv c (with_rows w rows) \<and> steps c w (with_rows w rows)"
  using assms unfolding upload_inv_def steps_def by (simp add: ball_Un)

lemma update_step:
  assumes inv: "upload_inv c w"
    and "\<And>r. r \<in> set (uw_rows w) \<Longrightarrow> sel r \<Longrightarrow>
           follows r (g r) \<and> (status_of (g r) = READY \<longrightarrow> status_of r = READY \<or> holds_type c (uw_store w) (sr_file r))"
  shows "upload_inv c (with_rows w (update_rows sel g (uw_rows w))) \<and> steps c w (with_rows w (update_rows sel g (uw_rows w)))"
proof (rule rows_step[OF inv])
  let ?rows = "update_rows sel g (uw_rows w)"
  have ids: "map row_id ?rows = map row_id (uw_rows w)" "map (sf_key \<circ> sr_file) ?rows = map (sf_key \<circ> sr_file) (uw_rows w)"
    using assms(2) by (auto simp: update_rows_def follows_id follows_def same_file_sel)
  show "distinct (map row_id ?rows)" "distinct (map (sf_key \<circ> sr_file) ?rows)"
    using inv unfolding ids by (simp_all add: upload_inv_def)
  have from_row: "\<exists>r \<in> set (uw_rows w). r' = r \<or> sel r \<and> r' = g r" if "r' \<in> set ?rows" for r'
    using that by (auto simp: update_rows_def)
  show "\<exists>r \<in> set (uw_rows w). follows r r'" if "r' \<in> set ?rows" "row_id r' \<in> set (uw_issued w)" for r'
    using from_row[OF that(1)] assms(2) follows_refl by blast
  show "\<exists>r' \<in> set ?rows. follows r r'" if "r \<in> set (uw_rows w)" for r
  proof (rule bexI[of _ "if sel r then g r else r"])
    show "follows r (if sel r then g r else r)" using assms(2)[OF that] by simp
    show "(if sel r then g r else r) \<in> set ?rows" using that by (auto simp: update_rows_def)
  qed
  fix r' assume "r' \<in> set ?rows"
  then obtain r where r: "r \<in> set (uw_rows w)" "r' = r \<or> sel r \<and> r' = g r" using from_row by blast
  have i: "starts_with ''files/'' (sf_key (sr_file r))" "status_of r = READY \<Longrightarrow> holds_type c (uw_store w) (sr_file r)"
    using inv r(1) by (auto simp: upload_inv_def)
  show "starts_with ''files/'' (sf_key (sr_file r')) \<and> (status_of r' = READY \<longrightarrow> holds_type c (uw_store w) (sr_file r'))"
  proof (cases "r' = r")
    case False
    then have g: "sel r" "r' = g r" using r(2) by auto
    have same: "same_file (sr_file r) (sr_file r')" using assms(2)[OF r(1) g(1)] g(2) by (simp add: follows_def)
    show ?thesis using assms(2)[OF r(1) g(1)] g(2) i same_file_sel(2)[OF same] holds_type_same[OF same] by metis
  qed (use i in simp)
qed

lemma filter_step:
  assumes inv: "upload_inv c w" and "\<And>r. r \<in> set (uw_rows w) \<Longrightarrow> \<not> keep r \<Longrightarrow> status_of r = FINALIZING"
  shows "upload_inv c (with_rows w (filter keep (uw_rows w))) \<and> steps c w (with_rows w (filter keep (uw_rows w)))"
proof (rule rows_step[OF inv])
  show "\<exists>r' \<in> set (filter keep (uw_rows w)). follows r r'" if "r \<in> set (uw_rows w)" "status_of r \<noteq> FINALIZING" for r
    by (rule bexI[of _ r]) (use that assms(2) in auto)
  show "\<exists>r \<in> set (uw_rows w). follows r r'" if "r' \<in> set (filter keep (uw_rows w))" for r'
    by (rule bexI[of _ r']) (use that in auto)
qed (use inv in \<open>auto simp: upload_inv_def distinct_map_filter\<close>)

lemma insert_step:
  assumes inv: "upload_inv c w" and "\<not> list_ex (collides f) (uw_rows w)" "sf_id f \<notin> set (uw_issued w)"
    and "starts_with ''files/'' (sf_key f)" "sf_status f = FINALIZING"
  shows "upload_inv c (with_rows w (uw_rows w @ [new_row f])) \<and> steps c w (with_rows w (uw_rows w @ [new_row f]))"
proof (rule rows_step[OF inv])
  show "distinct (map row_id (uw_rows w @ [new_row f]))" "distinct (map (sf_key \<circ> sr_file) (uw_rows w @ [new_row f]))"
    using inv assms(2) by (auto simp: upload_inv_def list_ex_iff collides_def new_row_def row_id_def)
  show "\<exists>r' \<in> set (uw_rows w @ [new_row f]). follows r r'" if "r \<in> set (uw_rows w)" for r
    by (rule bexI[of _ r]) (use that in auto)
  show "\<exists>r \<in> set (uw_rows w). follows r r'"
    if "r' \<in> set (uw_rows w @ [new_row f])" "row_id r' \<in> set (uw_issued w)" for r'
    by (rule bexI[of _ r']) (use that assms(3) in \<open>auto simp: new_row_def row_id_def\<close>)
qed (use inv assms(4,5) in \<open>auto simp: upload_inv_def new_row_def status_of_def row_id_def\<close>)

section \<open>Changes of the store\<close>

lemma store_step:
  assumes inv: "upload_inv c w"
    and frame: "\<And>r. r \<in> set (uw_rows w) \<Longrightarrow>
       (anchored (sr_file r) \<and> status_of r \<noteq> REJECTED) \<Longrightarrow> object_kept c (uw_store w) s' (sr_file r)"
  shows "upload_inv c (w \<lparr> uw_store := s' \<rparr>) \<and> steps c w (w \<lparr> uw_store := s' \<rparr>)"
proof -
  have "holds_type c s' (sr_file r)" if "r \<in> set (uw_rows w)" "status_of r = READY" for r
    using holds_type_kept[OF frame[OF that(1)]] inv that by (auto simp: upload_inv_def anchored_def status_of_def)
  then have "upload_inv c (w \<lparr> uw_store := s' \<rparr>)" using inv by (simp add: upload_inv_def)
  moreover have "steps c w (w \<lparr> uw_store := s' \<rparr>)"
    unfolding steps_def by (auto intro!: bexI[OF _ _] frame intro: follows_refl)
  ultimately show ?thesis by blast
qed

lemma one_row_per_key:
  "upload_inv c w \<Longrightarrow> r \<in> set (uw_rows w) \<Longrightarrow> r' \<in> set (uw_rows w) \<Longrightarrow> sf_key (sr_file r) = sf_key (sr_file r') \<Longrightarrow> r = r'"
  by (auto simp: upload_inv_def distinct_map inj_on_def)

lemma one_row_per_id:
  "upload_inv c w \<Longrightarrow> r \<in> set (uw_rows w) \<Longrightarrow> r' \<in> set (uw_rows w) \<Longrightarrow> row_id r = row_id r' \<Longrightarrow> r = r'"
  by (auto simp: upload_inv_def distinct_map inj_on_def)

lemma staged_is_no_final_key: "starts_with ''uploads/'' k \<Longrightarrow> \<not> starts_with ''files/'' k"
  by (cases k) (auto simp: starts_with_def)

section \<open>Assertions under interference\<close>

definition firm :: "('s \<Rightarrow> string \<Rightarrow> string \<Rightarrow> bytes option) \<Rightarrow> ('s, 'q) upload_env \<Rightarrow> (('s, 'q) upload_world \<Rightarrow> bool) \<Rightarrow> bool" where
  "firm c env P \<longleftrightarrow>
     (\<forall>k w. upload_inv c w \<and> P w \<longrightarrow> P (ue_between env k w)) \<and>
     (\<forall>w w'. upload_inv c w \<and> P w \<and> uw_rows w' = uw_rows w \<and> uw_issued w' = uw_issued w \<and>
        c (uw_store w') = c (uw_store w) \<longrightarrow> P w')"

lemma same_world_steps:
  assumes "upload_inv c w" "uw_rows w' = uw_rows w" "uw_issued w' = uw_issued w" "c (uw_store w') = c (uw_store w)"
  shows "upload_inv c w' \<and> steps c w w'"
proof -
  have "upload_inv c w'" using assms by (simp add: upload_inv_def holds_type_def)
  moreover have "steps c w w'"
    using assms by (auto simp: steps_def object_kept_def intro!: bexI[OF _ _] follows_refl)
  ultimately show ?thesis by blast
qed

lemma firm_steadfast: "rely c env \<Longrightarrow> steadfast c P \<Longrightarrow> firm c env P"
  unfolding firm_def steadfast_def rely_def guarantee_def using same_world_steps by metis

lemma firm_conj: "firm c env P \<Longrightarrow> firm c env Q \<Longrightarrow> firm c env (\<lambda>w. P w \<and> Q w)"
  unfolding firm_def by blast

lemma firm_await: "rely c env \<Longrightarrow> firm c env P \<Longrightarrow> safe c P m Q \<Longrightarrow> safe c P (awaiting env k m) Q"
  by (rule safe_await) (auto simp: firm_def)

lemma safe_on_queue:
  assumes "rely c env" "firm c env P"
  shows "safe c P (on_queue env k m) (\<lambda>r w. P w)"
  unfolding on_queue_def
proof (rule firm_await[OF assms], rule safeI)
  fix w assume w: "upload_inv c w" "P w"
  let ?w = "snd (zoom uw_queue (\<lambda>q w. w \<lparr> uw_queue := q \<rparr>) m w)"
  have "uw_rows ?w = uw_rows w" "uw_issued ?w = uw_issued w" "uw_store ?w = uw_store w"
    by (simp_all add: zoom_def split: prod.split)
  then show "upload_inv c ?w \<and> steps c w ?w \<and> P ?w"
    using same_world_steps[OF w(1), of ?w] assms(2) w unfolding firm_def by metis
qed

lemma safe_on_store_read:
  assumes "rely c env" "firm c env P" "\<And>s. c (snd (m s)) = c s"
  shows "safe c P (on_store env k m) (\<lambda>r w. P w \<and> (\<exists>s. c s = c (uw_store w) \<and> r = fst (m s)))"
  unfolding on_store_def
proof (rule firm_await[OF assms(1,2)], rule safeI)
  fix w assume w: "upload_inv c w" "P w"
  let ?z = "zoom uw_store (\<lambda>s w. w \<lparr> uw_store := s \<rparr>) m w"
  have z: "uw_rows (snd ?z) = uw_rows w" "uw_issued (snd ?z) = uw_issued w" "c (uw_store (snd ?z)) = c (uw_store w)"
    "fst ?z = fst (m (uw_store w))"
    using assms(3)[of "uw_store w"] by (cases "m (uw_store w)", simp add: zoom_def)+
  show "upload_inv c (snd ?z) \<and> steps c w (snd ?z) \<and>
      P (snd ?z) \<and> (\<exists>s. c s = c (uw_store (snd ?z)) \<and> fst ?z = fst (m s))"
    using same_world_steps[where c = c, OF w(1) z(1,2,3)] assms(2) w z unfolding firm_def by metis
qed

lemma safe_on_rows:
  assumes "rely c env" "firm c env P"
    and "\<And>w. upload_inv c w \<Longrightarrow> P w \<Longrightarrow>
       upload_inv c (with_rows w (snd (m (uw_rows w)))) \<and> steps c w (with_rows w (snd (m (uw_rows w)))) \<and>
       Q (fst (m (uw_rows w))) (with_rows w (snd (m (uw_rows w))))"
  shows "safe c P (on_rows env k m) Q"
  unfolding on_rows_def
  by (rule firm_await[OF assms(1,2)], rule safeI) (simp add: on_rows_run assms(3))

lemma set_add_all_known: "set xs \<subseteq> set s \<Longrightarrow> set_add_all s xs = s"
  by (induction xs arbitrary: s) (auto simp: set_add_def)

lemma with_rows_id: "upload_inv c w \<Longrightarrow> with_rows w (uw_rows w) = w"
  unfolding with_rows_def by (subst set_add_all_known) (auto simp: upload_inv_def row_id_def)

definition file_matches :: "selector \<Rightarrow> stored_file \<Rightarrow> bool" where
  "file_matches sel f = (case sel of ById i \<Rightarrow> sf_id f = i | ByKey k \<Rightarrow> sf_key f = k | BySourceKey k \<Rightarrow> sf_sourceKey f = k)"

lemma findOne_SomeD:
  "findOne t sel rows = Some f \<Longrightarrow> \<exists>r \<in> set rows. sr_file r = f \<and> file_matches sel f \<and> visible_to t r \<and> sr_deletedAt r = None"
  by (auto simp: findOne_def toDomain_def file_matches_def selected_def dest!: find_SomeD split: selector.splits)

lemma row_known:
  "upload_inv c w \<Longrightarrow> r \<in> set (uw_rows w) \<Longrightarrow> known_file (sr_file r) w"
  unfolding known_file_def
proof (intro conjI ballI impI)
  assume w: "upload_inv c w" "r \<in> set (uw_rows w)"
  then show "sf_id (sr_file r) \<in> set (uw_issued w)" by (auto simp: upload_inv_def row_id_def)
  fix r' assume "r' \<in> set (uw_rows w)" "row_id r' = sf_id (sr_file r)"
  then have "r' = r" using one_row_per_id[OF w(1)] w(2) by (simp add: row_id_def)
  then show "same_file (sr_file r) (sr_file r')" "may_become (sf_status (sr_file r)) (status_of r')"
    by (simp_all add: status_of_def)
qed

lemma row_standing: "r \<in> set (uw_rows w) \<Longrightarrow> status_of r \<noteq> FINALIZING \<Longrightarrow> standing (sr_file r) w"
  unfolding standing_def status_of_def by (intro conjI bexI[of _ r]) auto

lemma safe_found:
  assumes "rely c env" "firm c env P"
  shows "safe c P (found env k sel) (\<lambda>r w. P w \<and> (\<exists>found_file. r = Inr found_file \<and>
     (\<forall>f. found_file = Some f \<longrightarrow> file_matches sel f \<and> known_file f w \<and> (sf_status f \<noteq> FINALIZING \<longrightarrow> standing f w))))"
proof -
  have "safe c P (found env k sel) (\<lambda>r w. P w \<and> r = Inr (findOne (ue_tenant env) sel (uw_rows w)))"
    unfolding found_def
    by (rule safe_on_rows[OF assms]) (simp add: readE_def with_rows_id steps_refl)
  then show ?thesis
  proof (rule safe_weaken)
    fix r w
    assume w: "upload_inv c w" and r: "P w \<and> r = Inr (findOne (ue_tenant env) sel (uw_rows w))"
    have "file_matches sel f \<and> known_file f w \<and> (sf_status f \<noteq> FINALIZING \<longrightarrow> standing f w)"
      if f: "findOne (ue_tenant env) sel (uw_rows w) = Some f" for f
    proof -
      obtain row where row: "row \<in> set (uw_rows w)" "sr_file row = f" "file_matches sel f"
        using findOne_SomeD[OF f] by blast
      then show ?thesis using row_known[OF w row(1)] row_standing[OF row(1)] by (auto simp: status_of_def)
    qed
    then show "P w \<and> (\<exists>found_file. r = Inr found_file \<and>
       (\<forall>f. found_file = Some f \<longrightarrow> file_matches sel f \<and> known_file f w \<and> (sf_status f \<noteq> FINALIZING \<longrightarrow> standing f w)))"
      using r by simp
  qed
qed

section \<open>Transitions and writes\<close>

definition row_matches :: "selector \<Rightarrow> stored_row \<Rightarrow> bool" where
  "row_matches sel r \<longleftrightarrow> file_matches sel (sr_file r)"

lemma selected_matches: "selected sel r = row_matches sel r"
  by (simp add: selected_def row_matches_def file_matches_def split: selector.split)

lemma written_row:
  "sr_file (write_fields fs (with_row_status b r)) = withStatus b (sr_file r)"
  "sr_deletedAt (write_fields fs (with_row_status b r)) = sr_deletedAt r"
  "status_of (write_fields fs (with_row_status b r)) = b"
  by (simp_all add: write_fields_def with_row_status_def withStatus_def status_of_def)

lemma same_withStatus [simp]: "same_file f (withStatus b f)"
  by (simp add: same_file_def withStatus_def)

lemma withStatus_sel [simp]:
  "sf_id (withStatus b f) = sf_id f" "sf_key (withStatus b f) = sf_key f" "sf_bucket (withStatus b f) = sf_bucket f"
  "sf_status (withStatus b f) = b" "sf_sourceKey (withStatus b f) = sf_sourceKey f"
  by (simp_all add: withStatus_def)

lemma follows_transition: "may_become (status_of r) b \<Longrightarrow> follows r (write_fields fs (with_row_status b r))"
  by (simp add: follows_def written_row)

lemma safe_transitioned:
  assumes "rely c env" "firm c env P" "may_become a b"
    and ready: "\<And>w r. b = READY \<Longrightarrow> upload_inv c w \<Longrightarrow> P w \<Longrightarrow> r \<in> set (uw_rows w) \<Longrightarrow> row_matches sel r \<Longrightarrow>
       status_of r = a \<Longrightarrow> holds_type c (uw_store w) (sr_file r)"
  shows "safe c P (transitioned env k sel a b fs)
     (\<lambda>r w. \<exists>moved. r = Inr moved \<and>
        (moved \<longrightarrow> (\<exists>row \<in> set (uw_rows w). row_matches sel row \<and> status_of row = b)))"
  unfolding transitioned_def
proof (rule safe_on_rows[OF assms(1,2)])
  fix w assume w: "upload_inv c w" "P w"
  let ?sel = "status_where (ue_tenant env) sel a b"
  let ?g = "\<lambda>r. write_fields fs (with_row_status b r)"
  let ?rows = "update_rows ?sel ?g (uw_rows w)"
  have selD: "row_matches sel r \<and> status_of r = a" if "?sel r" for r
    using that by (simp add: status_where_def selected_matches status_of_def)
  have step: "upload_inv c (with_rows w ?rows) \<and> steps c w (with_rows w ?rows)"
  proof (rule update_step[OF w(1)])
    fix r assume r: "r \<in> set (uw_rows w)" "?sel r"
    show "follows r (?g r) \<and> (status_of (?g r) = READY \<longrightarrow> status_of r = READY \<or> holds_type c (uw_store w) (sr_file r))"
      using ready[OF _ w r(1)] selD[OF r(2)] follows_transition[of r b fs] assms(3) by (simp add: written_row)
  qed
  have hit: "\<exists>row \<in> set ?rows. row_matches sel row \<and> status_of row = b" if count: "0 < count_rows ?sel (uw_rows w)"
  proof -
    obtain r where r: "r \<in> set (uw_rows w)" "?sel r" using count by (auto simp: count_rows_pos)
    then have "?g r \<in> set ?rows" by (auto simp: update_rows_def)
    moreover have "row_matches sel (?g r)"
      using selD[OF r(2)] by (simp add: row_matches_def file_matches_def written_row withStatus_def split: selector.splits)
    ultimately show ?thesis using written_row(3) by blast
  qed
  let ?m = "\<lambda>rows. case setStatus (ue_tenant env) sel a b fs rows of (prev, rows') \<Rightarrow> (Inr prev, rows')"
  have m: "?m (uw_rows w) = (Inr (0 < count_rows ?sel (uw_rows w)), ?rows)" by (simp add: setStatus_def)
  show "upload_inv c (with_rows w (snd (?m (uw_rows w)))) \<and> steps c w (with_rows w (snd (?m (uw_rows w)))) \<and>
      (\<exists>moved. fst (?m (uw_rows w)) = Inr moved \<and> (moved \<longrightarrow>
         (\<exists>row \<in> set (uw_rows (with_rows w (snd (?m (uw_rows w))))). row_matches sel row \<and> status_of row = b)))"
    unfolding m using step hit by simp
qed

text \<open>Removing unfinished rows and soft-deleting change no other row.\<close>

lemma safe_remove_finalizing:
  assumes "rely c env" "firm c env P"
  shows "safe c P (on_rows env k (\<lambda>rows. (Inr (), files_deleteIfStatus t i FINALIZING rows))) (\<lambda>r w. r = Inr ())"
  unfolding files_deleteIfStatus_def
  by (rule safe_on_rows[OF assms], unfold fst_conv snd_conv, drule filter_step) (auto simp: status_of_def)

lemma safe_softDelete:
  assumes "rely c env" "firm c env P"
  shows "safe c P (on_rows env k (\<lambda>rows. case files_softDelete t now i rows of (gone, rows') \<Rightarrow> (Inr gone, rows'))) (\<lambda>r w. True)"
proof (rule safe_on_rows[OF assms])
  fix w assume w: "upload_inv c w"
  let ?sel = "\<lambda>r. visible_to t r \<and> sf_id (sr_file r) = i \<and> sr_deletedAt r = None"
  let ?m = "\<lambda>rows. case files_softDelete t now i rows of (gone, rows') \<Rightarrow> (Inr gone, rows')"
  have m: "snd (?m (uw_rows w)) = update_rows ?sel (\<lambda>r. r \<lparr> sr_deletedAt := Some now \<rparr>) (uw_rows w)"
    by (simp add: files_softDelete_def Let_def)
  show "upload_inv c (with_rows w (snd (?m (uw_rows w)))) \<and> steps c w (with_rows w (snd (?m (uw_rows w)))) \<and> True"
    unfolding m using update_step[OF w, of ?sel "\<lambda>r. r \<lparr> sr_deletedAt := Some now \<rparr>"]
    by (simp add: follows_def status_of_def)
qed

text \<open>A write to the store that spares the objects that must stay.\<close>

lemma safe_on_store_put:
  assumes "rely c env" "firm c env P"
    and "\<And>w r. upload_inv c w \<Longrightarrow> P w \<Longrightarrow> r \<in> set (uw_rows w) \<Longrightarrow> anchored (sr_file r) \<Longrightarrow> status_of r \<noteq> REJECTED \<Longrightarrow>
           object_kept c (uw_store w) (snd (m (uw_store w))) (sr_file r)"
    and "\<And>w. P w \<Longrightarrow> Q (fst (m (uw_store w))) (w \<lparr> uw_store := snd (m (uw_store w)) \<rparr>)"
  shows "safe c P (on_store env k m) Q"
  unfolding on_store_def
proof (rule firm_await[OF assms(1,2)], rule safeI)
  fix w assume w: "upload_inv c w" "P w"
  have "zoom uw_store (\<lambda>s w. w \<lparr> uw_store := s \<rparr>) m w = (fst (m (uw_store w)), w \<lparr> uw_store := snd (m (uw_store w)) \<rparr>)"
    by (simp add: zoom_def split: prod.split)
  then show "upload_inv c (snd (zoom uw_store (\<lambda>s w. w \<lparr> uw_store := s \<rparr>) m w)) \<and>
      steps c w (snd (zoom uw_store (\<lambda>s w. w \<lparr> uw_store := s \<rparr>) m w)) \<and>
      Q (fst (zoom uw_store (\<lambda>s w. w \<lparr> uw_store := s \<rparr>) m w)) (snd (zoom uw_store (\<lambda>s w. w \<lparr> uw_store := s \<rparr>) m w))"
    using store_step[OF w(1), of "snd (m (uw_store w))"] assms(3)[OF w] assms(4)[OF w(2)] by simp
qed

lemma safe_on_store_write:
  assumes "rely c env" "firm c env P"
    and "\<And>w r. upload_inv c w \<Longrightarrow> P w \<Longrightarrow> r \<in> set (uw_rows w) \<Longrightarrow> anchored (sr_file r) \<Longrightarrow> status_of r \<noteq> REJECTED \<Longrightarrow>
           object_kept c (uw_store w) (snd (m (uw_store w))) (sr_file r)"
  shows "safe c P (on_store env k m) (\<lambda>r w. True)"
  by (rule safe_on_store_put[OF assms]) simp_all

end
