(* ===== verification/Upload_Safety.thy ===== *)
theory Upload_Safety
  imports Upload_Guarantee
begin

text \<open>Every upload handler gives the guarantee of Upload_Guarantee when the requests and jobs that run
  between its awaits do, over any storage port with the laws of \<open>storage_provider\<close>; the
  properties instantiate it with the file-system adapter.\<close>

section \<open>The handlers\<close>

definition answer_stands :: "file_result outcome \<Rightarrow> ('s, 'q) upload_world \<Rightarrow> bool" where
  "answer_stands r w \<longleftrightarrow> (\<forall>res. r = Inr res \<longrightarrow> (\<exists>f url. res = file_answer f url \<and> (sf_status f \<noteq> FINALIZING \<longrightarrow> standing f w)))"

lemma answer_stands_Inl [simp]: "answer_stands (Inl e) w"
  by (simp add: answer_stands_def)

text \<open>An id this request generated, and the key built from it: no row ever had the id, and nothing is
  stored under the key.\<close>

definition unused :: "('s \<Rightarrow> string \<Rightarrow> string \<Rightarrow> bytes option) \<Rightarrow> id \<Rightarrow> string \<Rightarrow> ('s, 'q) upload_world \<Rightarrow> bool" where
  "unused c i key w \<longleftrightarrow> i \<notin> set (uw_issued w) \<and> (\<forall>b. c (uw_store w) b key = None)"

definition empty_key :: "('s \<Rightarrow> string \<Rightarrow> string \<Rightarrow> bytes option) \<Rightarrow> string \<Rightarrow> ('s, 'q) upload_world \<Rightarrow> bool" where
  "empty_key c key w \<longleftrightarrow> (\<forall>b. c (uw_store w) b key = None)"

text \<open>Nobody else generates that id.\<close>

definition exclusive :: "('s \<Rightarrow> string \<Rightarrow> string \<Rightarrow> bytes option) \<Rightarrow> ('s, 'q) upload_env \<Rightarrow> id \<Rightarrow> string \<Rightarrow> bool" where
  "exclusive c env i key \<longleftrightarrow>
     (\<forall>k w. (i \<notin> set (uw_issued w) \<longrightarrow> i \<notin> set (uw_issued (ue_between env k w))) \<and>
            ((\<forall>b. c (uw_store w) b key = None) \<longrightarrow> (\<forall>b. c (uw_store (ue_between env k w)) b key = None)))"

lemma firm_unused: "exclusive c env i key \<Longrightarrow> firm c env (unused c i key)"
  unfolding firm_def exclusive_def unused_def by auto

lemma firm_empty: "exclusive c env i key \<Longrightarrow> firm c env (empty_key c key)"
  unfolding firm_def exclusive_def empty_key_def by auto

definition final_key :: "('s, 'q) upload_env \<Rightarrow> confirm_command \<Rightarrow> string" where
  "final_key env command = ''files/'' @ ccf_userId command @ ''/'' @ ue_newId env 0 @ extension_of (ccf_sourceKey command)"

lemma confirm_props_sel [simp]:
  "sf_id (confirm_props env command meta) = ue_newId env 0"
  "sf_key (confirm_props env command meta) = final_key env command"
  "sf_status (confirm_props env command meta) = FINALIZING"
  "sf_sourceKey (confirm_props env command meta) = ccf_sourceKey command"
  "sf_bucket (confirm_props env command meta) = om_bucket meta"
  by (simp_all add: confirm_props_def final_key_def)

lemma final_key_is_final [simp]: "starts_with ''files/'' (final_key env command)"
  by (simp add: final_key_def starts_with_def)

lemma owned_is_staged:
  assumes "assertOwnsSourceKey key user = Inr ()" shows "starts_with ''uploads/'' key"
proof -
  have "take (length (''uploads/'' @ user @ ''/'')) key = ''uploads/'' @ user @ ''/''"
    using assms by (simp add: assertOwnsSourceKey_def starts_with_def split: if_splits)
  then have "take 8 (take (length (''uploads/'' @ user @ ''/'')) key) = ''uploads/''" by simp
  then show ?thesis by (simp add: starts_with_def min_def eval_nat_numeral)
qed

section \<open>Batches\<close>

text \<open>While a batch is written its rows, ids, keys and objects belong to the request that writes
  it.\<close>

definition mine :: "stored_file \<Rightarrow> ('s, 'q) upload_world \<Rightarrow> bool" where
  "mine f w \<longleftrightarrow>
     sf_id f \<in> set (uw_issued w) \<and>
     (\<forall>r \<in> set (uw_rows w). row_id r = sf_id f \<or> sf_key (sr_file r) = sf_key f \<longrightarrow> sr_file r = f)"

definition batch_owned :: "('s \<Rightarrow> string \<Rightarrow> string \<Rightarrow> bytes option) \<Rightarrow> ('s, 'q) upload_env \<Rightarrow> stored_file \<Rightarrow> bool" where
  "batch_owned c env f \<longleftrightarrow>
     (\<forall>k w. (sf_id f \<notin> set (uw_issued w) \<longrightarrow> sf_id f \<notin> set (uw_issued (ue_between env k w))) \<and>
            (mine f w \<longrightarrow> mine f (ue_between env k w)) \<and>
            (\<forall>b. c (uw_store (ue_between env k w)) b (sf_key f) = c (uw_store w) b (sf_key f)))"

definition all_mine :: "stored_file list \<Rightarrow> ('s, 'q) upload_world \<Rightarrow> bool" where
  "all_mine fs w \<longleftrightarrow> (\<forall>f \<in> set fs. mine f w)"

definition sent :: "('s \<Rightarrow> string \<Rightarrow> string \<Rightarrow> bytes option) \<Rightarrow> (multipart_file \<times> stored_file) list \<Rightarrow> ('s, 'q) upload_world \<Rightarrow> bool" where
  "sent c prev w \<longleftrightarrow> (\<forall>(file, f) \<in> set prev. c (uw_store w) (sf_bucket f) (sf_key f) = Some (mf_content file))"

lemma firm_all_mine:
  "(\<And>f. f \<in> set fs \<Longrightarrow> batch_owned c env f) \<Longrightarrow> firm c env (all_mine fs)"
proof -
  assume own: "\<And>f. f \<in> set fs \<Longrightarrow> batch_owned c env f"
  have "all_mine fs (ue_between env k w)" if "all_mine fs w" for k w
    using that own unfolding all_mine_def batch_owned_def by blast
  moreover have "all_mine fs w'" if "all_mine fs w" "uw_rows w' = uw_rows w" "uw_issued w' = uw_issued w" for w w'
    using that(1) unfolding all_mine_def mine_def that(2,3) .
  ultimately show ?thesis unfolding firm_def by blast
qed

lemma firm_sent:
  "(\<And>p. p \<in> set prev \<Longrightarrow> batch_owned c env (snd p)) \<Longrightarrow> firm c env (sent c prev)"
proof -
  assume own: "\<And>p. p \<in> set prev \<Longrightarrow> batch_owned c env (snd p)"
  have "sent c prev (ue_between env k w)" if "sent c prev w" for k w
    using that own unfolding sent_def batch_owned_def by (auto split: prod.splits)
  moreover have "sent c prev w'" if "sent c prev w" "c (uw_store w') = c (uw_store w)" for w w'
    using that(1) unfolding sent_def that(2) .
  ultimately show ?thesis unfolding firm_def by blast
qed

lemma insert_all_Inr:
  "insert_all t fs rows = (Inr (), rows') \<Longrightarrow>
   rows' = rows @ map new_row fs \<and> distinct (map sf_id fs) \<and> distinct (map sf_key fs) \<and>
   (\<forall>f \<in> set fs. \<forall>r \<in> set rows. \<not> collides f r)"
proof (induction fs arbitrary: rows rows')
  case (Cons f fs)
  have i: "insert_stored t f rows = (Inr (), rows @ [new_row f])" "\<not> list_ex (collides f) rows"
    using Cons.prems by (auto simp: insert_stored_def split: if_splits)
  have "insert_all t fs (rows @ [new_row f]) = (Inr (), rows')"
    using Cons.prems i(1) by (auto split: prod.splits sum.splits)
  from Cons.IH[OF this] show ?case
    using i(2) by (auto simp: list_ex_iff collides_def new_row_def)
qed simp

lemma insert_all_Inl: "insert_all t fs rows = (Inl e, rows') \<Longrightarrow> rows' = rows"
  by (cases fs) (auto split: prod.splits sum.splits)

lemma batch_step:
  assumes inv: "upload_inv c w" and "insert_all t fs (uw_rows w) = (Inr (), rows)"
    and "\<And>f. f \<in> set fs \<Longrightarrow> sf_id f \<notin> set (uw_issued w) \<and> starts_with ''files/'' (sf_key f) \<and> sf_status f = FINALIZING"
  shows "upload_inv c (with_rows w rows) \<and> steps c w (with_rows w rows) \<and> all_mine fs (with_rows w rows)"
proof -
  have rows: "rows = uw_rows w @ map new_row fs" and d: "distinct (map sf_id fs)" "distinct (map sf_key fs)"
    and free: "\<And>f r. f \<in> set fs \<Longrightarrow> r \<in> set (uw_rows w) \<Longrightarrow> \<not> collides f r"
    using insert_all_Inr[OF assms(2)] by auto
  have ids: "map (row_id \<circ> new_row) fs = map sf_id fs" "map (sf_key \<circ> sr_file \<circ> new_row) fs = map sf_key fs"
    by (simp_all add: row_id_def new_row_def)
  have step: "upload_inv c (with_rows w rows) \<and> steps c w (with_rows w rows)"
  proof (rule rows_step[OF inv])
    show "distinct (map row_id rows)" "distinct (map (sf_key \<circ> sr_file) rows)"
      using inv d free unfolding rows
      by (auto simp: upload_inv_def collides_def row_id_def new_row_def distinct_map comp_def inj_on_def)
    show "\<exists>r' \<in> set rows. follows r r'" if "r \<in> set (uw_rows w)" for r
      by (rule bexI[of _ r]) (use that in \<open>auto simp: rows\<close>)
    show "\<exists>r \<in> set (uw_rows w). follows r r'" if "r' \<in> set rows" "row_id r' \<in> set (uw_issued w)" for r'
      by (rule bexI[of _ r']) (use that assms(3) in \<open>auto simp: rows row_id_def new_row_def\<close>)
  qed (use inv assms(3) in \<open>auto simp: rows upload_inv_def new_row_def status_of_def\<close>)
  have "mine f (with_rows w rows)" if f: "f \<in> set fs" for f
    unfolding mine_def
  proof (intro conjI ballI impI)
    show "sf_id f \<in> set (uw_issued (with_rows w rows))" using f by (force simp: rows row_id_def new_row_def)
    fix r assume r: "r \<in> set (uw_rows (with_rows w rows))" "row_id r = sf_id f \<or> sf_key (sr_file r) = sf_key f"
    then have "r \<notin> set (uw_rows w)" using free[OF f] by (auto simp: collides_def row_id_def)
    then obtain g where g: "g \<in> set fs" "r = new_row g" using r(1) by (auto simp: rows)
    then have "g = f" using r(2) d f by (auto simp: row_id_def new_row_def distinct_map inj_on_def)
    then show "sr_file r = f" using g by (simp add: new_row_def)
  qed
  then show ?thesis using step by (simp add: all_mine_def)
qed

text \<open>What a prepared batch looks like.\<close>

definition batch_file :: "('s, 'q) upload_env \<Rightarrow> stored_file \<Rightarrow> bool" where
  "batch_file env f \<longleftrightarrow>
     starts_with ''files/'' (sf_key f) \<and> sf_sourceKey f = sf_key f \<and> sf_status f = FINALIZING \<and>
     (\<exists>i. sf_id f = ue_newId env i)"

lemma prepare_all_Inr:
  "prepare_all env command i fs = Inr prepared \<Longrightarrow>
   map fst prepared = fs \<and> (\<forall>(file, f) \<in> set prepared. batch_file env f \<and> sf_contentType f = mf_contentType file)"
proof (induction fs arbitrary: i prepared)
  case (Cons mf fs)
  then show ?case
    by (auto simp: prepare_def Let_def batch_file_def starts_with_def split: sum.splits) blast+
qed simp

lemma not_anchored: "batch_file env f \<Longrightarrow> \<not> anchored f"
  using staged_is_no_final_key by (auto simp: batch_file_def anchored_def confirmed_def)

definition batch_stands :: "file_result list outcome \<Rightarrow> ('x, 'q) upload_world \<Rightarrow> bool" where
  "batch_stands r w \<longleftrightarrow> (\<forall>answers. r = Inr answers \<longrightarrow> (\<forall>res \<in> set answers. \<exists>f url. res = file_answer f url \<and> standing f w))"

context storage_provider
begin

lemma safe_enqueue:
  assumes "rely contents env" "firm contents env P"
  shows "safe contents P (enqueueUploadVerification env k req) (\<lambda>r w. P w)"
  unfolding enqueueUploadVerification_def Let_def
  by (intro safe_bind[where R = "\<lambda>r. P"] safe_then[where R = "\<lambda>r. P"] safe_on_queue[OF assms])
     (auto intro!: safe_bind[where R = "\<lambda>r. P"] safe_then[where R = "\<lambda>r. P"] safe_on_queue[OF assms] safe_pure)

lemma safe_publication_keep:
  assumes "rely contents env" "ue_storage env = port" "firm contents env P"
  shows "safe contents P (publication_result env k f corr) (\<lambda>r w. P w \<and> (\<forall>res. r = Inr res \<longrightarrow> (\<exists>url. res = file_answer f url)))"
proof -
  have url: "safe contents P (on_store env n (st_getSignedUrl port a b d)) (\<lambda>r w. P w)" for n a b d
    by (rule safe_weaken[OF safe_on_store_read[OF assms(1,3)]]) (simp_all add: url_reads)
  have queue: "safe contents P (quietly (enqueueUploadVerification env k req)) (\<lambda>r w. P w)" for req
    by (rule safe_weaken[OF safe_quietly[OF safe_enqueue[OF assms(1,3)]]]) auto
  have answer: "safe contents P (returnE (file_answer f u)) (\<lambda>r w. P w \<and> (\<forall>res. r = Inr res \<longrightarrow> (\<exists>url. res = file_answer f url)))" for u
    by (rule safe_pure) auto
  show ?thesis
    unfolding publication_result_def assms(2)
    by (rule safe_then[where R = "\<lambda>r. P"])
       (auto intro!: queue safe_pure answer safe_bind[where R = "\<lambda>r. P"] url)
qed

lemma safe_publication_any:
  assumes "rely contents env" "ue_storage env = port" "firm contents env P"
    and "\<And>w. P w \<Longrightarrow> sf_status f \<noteq> FINALIZING \<longrightarrow> standing f w"
  shows "safe contents P (publication_result env k f corr) answer_stands"
  by (rule safe_weaken[OF safe_publication_keep[OF assms(1-3)]]) (use assms(4) in \<open>auto simp: answer_stands_def\<close>)

lemma safe_publication:
  assumes "rely contents env" "ue_storage env = port"
  shows "safe contents (standing f) (publication_result env k f corr) answer_stands"
  by (rule safe_publication_any[OF assms firm_steadfast[OF assms(1)]]) simp_all

lemma safe_delete_rejected:
  assumes "rely contents env" "ue_storage env = port" "sf_status f = REJECTED"
  shows "safe contents (standing f) (on_store env k (st_delete (ue_storage env) (sf_key f) (Some (sf_bucket f)))) (\<lambda>r w. True)"
  unfolding assms(2)
proof (rule safe_on_store_write[OF assms(1) firm_steadfast[OF assms(1)]])
  fix w r
  assume w: "upload_inv contents w" "standing f w" and r: "r \<in> set (uw_rows w)" "status_of r \<noteq> REJECTED"
  obtain r0 where r0: "r0 \<in> set (uw_rows w)" "same_file f (sr_file r0)" "status_of r0 = REJECTED"
    using w(2) assms(3) by (auto simp: standing_def may_become_def)
  have "sf_key (sr_file r) \<noteq> sf_key f"
    using one_row_per_key[OF w(1) r(1) r0(1)] r0 r(2) by (auto simp: same_file_sel)
  then show "object_kept contents (uw_store w) (snd (st_delete port (sf_key f) (Some (sf_bucket f)) (uw_store w))) (sr_file r)"
    by (auto simp: object_kept_def delete_frame bucket_given)
qed simp

lemma safe_magic:
  assumes "rely contents env" "ue_storage env = port" "12 \<le> ul_magicByteCount (ue_limits env)" "anchored f"
  shows "safe contents (known_file f) (readHeadAndAssertMagicBytes env k (sf_key f) (sf_contentType f) (sf_bucket f))
     (\<lambda>r w. known_file f w \<and> (r = Inr () \<longrightarrow> checked_file contents f w))"
  unfolding readHeadAndAssertMagicBytes_def assms(2)
proof (rule safe_bind)
  let ?n = "ul_magicByteCount (ue_limits env)"
  show "safe contents (known_file f) (on_store env k (st_readRange port (sf_key f) ?n (Some (sf_bucket f))))
     (\<lambda>r w. known_file f w \<and>
        (\<exists>s. contents s = contents (uw_store w) \<and> r = fst (st_readRange port (sf_key f) ?n (Some (sf_bucket f)) s)))"
    by (rule safe_on_store_read[OF assms(1) firm_steadfast[OF assms(1)]]) (simp_all add: range_reads)
  fix h
  show "safe contents (\<lambda>w. known_file f w \<and>
          (\<exists>s. contents s = contents (uw_store w) \<and> Inr h = fst (st_readRange port (sf_key f) ?n (Some (sf_bucket f)) s)))
        (fromE (assertMagicBytesMatch h (sf_contentType f) (sf_key f)))
        (\<lambda>r w. known_file f w \<and> (r = Inr () \<longrightarrow> checked_file contents f w))"
  proof (rule safe_pure, elim conjE exE, intro conjI impI)
    fix w s
    assume w: "known_file f w" and s: "contents s = contents (uw_store w)"
      and h: "Inr h = fst (st_readRange port (sf_key f) ?n (Some (sf_bucket f)) s)"
      and ok: "assertMagicBytesMatch h (sf_contentType f) (sf_key f) = Inr ()"
    obtain b where "contents s (sf_bucket f) (sf_key f) = Some b" "detectFileType h = detectFileType b"
      using range_detects[OF h[symmetric] assms(3)] by (auto simp: bucket_given)
    then have "holds_type contents (uw_store w) f"
      using ok s by (auto simp: holds_type_def assertMagicBytesMatch_def split: option.splits if_splits)
    then show "checked_file contents f w" using w assms(4) by (simp add: checked_file_def)
  qed
qed simp

lemma safe_check_finalized:
  assumes "rely contents env" "ue_storage env = port" "12 \<le> ul_magicByteCount (ue_limits env)" "anchored f"
  shows "safe contents (known_file f) (check_finalized env k f)
     (\<lambda>r w. known_file f w \<and> (r = Inr () \<and> \<not> ul_malwareScanEnabled (ue_limits env) \<longrightarrow> checked_file contents f w))"
proof (cases "ul_malwareScanEnabled (ue_limits env)")
  case True
  then show ?thesis by (auto simp: check_finalized_def intro!: safe_pure)
next
  case False
  let ?r = "withStatus REJECTED f"
  have known: "firm contents env (known_file f)" by (rule firm_steadfast[OF assms(1)]) simp
  have mark: "safe contents (known_file f) (transitioned env (k + 1) (ById (sf_id f)) FINALIZING REJECTED no_fields)
      (\<lambda>r w. known_file f w \<and> (\<exists>moved. r = Inr moved \<and> (moved \<longrightarrow> standing ?r w)))"
  proof (rule safe_weaken[OF safe_keep[OF safe_transitioned[OF assms(1) known] steadfast_known[of contents f]]])
    show "may_become FINALIZING REJECTED" by (simp add: may_become_def)
  next
    fix r w
    assume "upload_inv contents w" and r: "(\<exists>moved. r = Inr moved \<and> (moved \<longrightarrow>
        (\<exists>row \<in> set (uw_rows w). row_matches (ById (sf_id f)) row \<and> status_of row = REJECTED))) \<and> known_file f w"
    have "standing ?r w" if row: "row \<in> set (uw_rows w)" "row_matches (ById (sf_id f)) row" "status_of row = REJECTED" for row
    proof -
      have "same_file f (sr_file row)"
        using r row by (auto simp: known_file_def row_matches_def file_matches_def row_id_def)
      then have "same_file ?r (sr_file row)" using same_file_trans[OF same_file_sym[OF same_withStatus]] by blast
      then show ?thesis using row by (auto simp: standing_def withStatus_def)
    qed
    then show "known_file f w \<and> (\<exists>moved. r = Inr moved \<and> (moved \<longrightarrow> standing ?r w))" using r by blast
  qed auto
  have gone: "safe contents (\<lambda>w. known_file f w \<and> standing ?r w)
      (on_store env n (st_delete (ue_storage env) (sf_key f) (Some (sf_bucket f)))) (\<lambda>r w. known_file f w)" for n
  proof -
    have "safe contents (standing ?r)
        (on_store env n (st_delete (ue_storage env) (sf_key f) (Some (sf_bucket f)))) (\<lambda>r w. True)"
      using safe_delete_rejected[OF assms(1,2), of ?r n] by simp
    from safe_keep[OF this steadfast_known[of contents f]] show ?thesis by (rule safe_weaken) auto
  qed
  have undo: "safe contents (known_file f)
      (thenE (if isPolicyViolation e then
             bindE (transitioned env (k + 1) (ById (sf_id f)) FINALIZING REJECTED no_fields) (\<lambda>rejected.
               if rejected then on_store env (k + 2) (st_delete (ue_storage env) (sf_key f) (Some (sf_bucket f)))
               else returnE ())
           else returnE ()) (throwE e))
      (\<lambda>r w. known_file f w \<and> (\<forall>x. r \<noteq> Inr x))" for e
  proof (rule safe_then[where R = "\<lambda>r. known_file f"])
    show "safe contents (known_file f)
      (if isPolicyViolation e then
         bindE (transitioned env (k + 1) (ById (sf_id f)) FINALIZING REJECTED no_fields) (\<lambda>rejected.
           if rejected then on_store env (k + 2) (st_delete (ue_storage env) (sf_key f) (Some (sf_bucket f)))
           else returnE ())
       else returnE ()) (\<lambda>r. known_file f)"
      by (rule safe_if; (rule safe_bind[OF mark], rule safe_if)?)
         (auto intro!: safe_pure safe_weaken[OF gone])
  qed (auto intro!: safe_pure)
  show ?thesis
    unfolding check_finalized_def if_not_P[OF False]
    by (rule safe_catch[OF safe_magic[OF assms]], rule safe_weaken[OF undo]) simp_all
qed

lemma moved_row_stands:
  assumes "known_file f w" "row \<in> set (uw_rows w)" "row_matches (ById (sf_id f)) row" "status_of row = b" "b \<noteq> FINALIZING"
  shows "standing (withStatus b f) w"
proof -
  have "same_file f (sr_file row)"
    using assms by (auto simp: known_file_def row_matches_def file_matches_def row_id_def)
  then have "same_file (withStatus b f) (sr_file row)" using same_file_trans[OF same_file_sym[OF same_withStatus]] by blast
  then show ?thesis using assms by (auto simp: standing_def)
qed

lemma safe_complete:
  assumes "rely contents env" "ue_storage env = port" "12 \<le> ul_magicByteCount (ue_limits env)" "anchored f"
  shows "safe contents (known_file f) (completeFinalizing env k f corr) answer_stands"
proof -
  let ?b = "published_status env"
  let ?C = "\<lambda>w. known_file f w \<and> (\<not> ul_malwareScanEnabled (ue_limits env) \<longrightarrow> checked_file contents f w)"
  have b: "?b \<noteq> FINALIZING" by (simp add: published_status_def)
  have C: "steadfast contents ?C" by (rule steadfast_conj) (simp, cases "ul_malwareScanEnabled (ue_limits env)", simp_all)
  have known: "firm contents env (known_file f)" by (rule firm_steadfast[OF assms(1)]) simp
  have mark: "safe contents ?C (transitioned env (k + 3) (ById (sf_id f)) FINALIZING ?b no_fields)
      (\<lambda>r w. known_file f w \<and> (\<exists>moved. r = Inr moved \<and> (moved \<longrightarrow> standing (withStatus ?b f) w)))"
  proof (rule safe_weaken[OF safe_keep[OF safe_transitioned[OF assms(1) firm_steadfast[OF assms(1) C]] steadfast_known[of contents f]]])
    show "may_become FINALIZING ?b" by (simp add: may_become_def)
  next
    fix w r
    assume "?b = READY" and w: "?C w" and r: "r \<in> set (uw_rows w)" "row_matches (ById (sf_id f)) r" "status_of r = FINALIZING"
    then have "checked_file contents f w" by (auto simp: published_status_def split: if_splits)
    moreover have "row_id r = sf_id f" using r by (simp add: row_matches_def file_matches_def row_id_def)
    moreover have "same_file f (sr_file r)" using w r calculation by (simp add: known_file_def)
    ultimately show "holds_type contents (uw_store w) (sr_file r)"
      using r by (auto simp: checked_file_def holds_type_same)
  next
    fix r w
    assume "(\<exists>moved. r = Inr moved \<and> (moved \<longrightarrow> (\<exists>row \<in> set (uw_rows w).
        row_matches (ById (sf_id f)) row \<and> status_of row = ?b))) \<and> known_file f w"
    then show "known_file f w \<and> (\<exists>moved. r = Inr moved \<and> (moved \<longrightarrow> standing (withStatus ?b f) w))"
      using moved_row_stands[OF _ _ _ _ b] by blast
  qed auto
  have moved: "safe contents (standing (withStatus ?b f)) (publication_result env (k + 5) (withStatus ?b f) corr) answer_stands"
    by (rule safe_publication[OF assms(1,2)])
  have lost: "safe contents (known_file f) (bindE (found env (k + 4) (ById (sf_id f))) (\<lambda>current. case current of
        None \<Rightarrow> throwE commitFailed
      | Some g \<Rightarrow> if sf_status g = FINALIZING \<or> sf_status g = REJECTED then throwE commitFailed
                  else publication_result env (k + 5) g corr)) answer_stands"
    by (rule safe_bind[OF safe_found[OF assms(1) known]])
       (auto split: option.split intro!: safe_pure safe_weaken[OF safe_publication[OF assms(1,2)]])
  show ?thesis
    unfolding completeFinalizing_def
  proof (rule safe_then[OF safe_check_finalized[OF assms]])
    fix x
    show "safe contents (\<lambda>w. known_file f w \<and> (Inr x = Inr () \<and> \<not> ul_malwareScanEnabled (ue_limits env) \<longrightarrow> checked_file contents f w))
       (bindE (transitioned env (k + 3) (ById (sf_id f)) FINALIZING ?b no_fields) (\<lambda>moved.
           if \<not> moved then
             bindE (found env (k + 4) (ById (sf_id f))) (\<lambda>current. case current of
                 None \<Rightarrow> throwE commitFailed
               | Some g \<Rightarrow> if sf_status g = FINALIZING \<or> sf_status g = REJECTED then throwE commitFailed
                           else publication_result env (k + 5) g corr)
           else publication_result env (k + 5) (withStatus ?b f) corr)) answer_stands"
    proof (rule safe_bind[where R = "\<lambda>r w. known_file f w \<and> (\<exists>moved. r = Inr moved \<and> (moved \<longrightarrow> standing (withStatus ?b f) w))"],
        rule safe_weaken[OF mark])
      fix x
      show "safe contents (\<lambda>w. known_file f w \<and> (\<exists>moved. Inr x = Inr moved \<and> (moved \<longrightarrow> standing (withStatus ?b f) w)))
         (if \<not> x then
             bindE (found env (k + 4) (ById (sf_id f))) (\<lambda>current. case current of
                 None \<Rightarrow> throwE commitFailed
               | Some g \<Rightarrow> if sf_status g = FINALIZING \<or> sf_status g = REJECTED then throwE commitFailed
                           else publication_result env (k + 5) g corr)
           else publication_result env (k + 5) (withStatus ?b f) corr) answer_stands"
        by (rule safe_if; rule safe_weaken[OF lost] safe_weaken[OF moved]; auto)
    qed auto
  qed simp
qed

lemma safe_recover:
  assumes "rely contents env" "ue_storage env = port" "12 \<le> ul_magicByteCount (ue_limits env)" "confirmed f"
  shows "safe contents (\<lambda>w. known_file f w \<and> (sf_status f \<noteq> FINALIZING \<longrightarrow> standing f w)) (recoverExisting env k f corr) answer_stands"
proof -
  have known: "firm contents env (known_file f)" by (rule firm_steadfast[OF assms(1)]) simp
  have head: "safe contents (known_file f) (on_store env k (st_head port a b)) (\<lambda>r. known_file f)" for a b
    by (rule safe_weaken[OF safe_on_store_read[OF assms(1) known]]) (simp_all add: head_reads)
  have anchored: "anchored f" using assms(4) by (simp add: anchored_def)
  have finalizing: "safe contents (known_file f) (bindE (on_store env k (st_head port (sf_key f) (Some (sf_bucket f)))) (\<lambda>meta.
        case meta of None \<Rightarrow> throwE uploadInProgress | Some _ \<Rightarrow> completeFinalizing env (k + 1) f corr)) answer_stands"
    by (rule safe_bind[OF head])
       (auto split: option.split intro!: safe_pure safe_complete[OF assms(1,2,3) anchored])
  show ?thesis
  proof (cases "sf_status f = FINALIZING")
    case True
    then show ?thesis unfolding recoverExisting_def assms(2)
      by (simp only: if_False simp_thms stored_file_status.distinct) (rule safe_weaken[OF finalizing], simp)
  next
    case False
    then show ?thesis unfolding recoverExisting_def
      by (cases "sf_status f = REJECTED")
         (auto intro!: safe_pure safe_weaken[OF safe_publication[OF assms(1,2)]])
  qed
qed

lemma safe_staged_delete:
  assumes "rely contents env" "ue_storage env = port" "firm contents env P" "starts_with ''uploads/'' key"
    and "\<And>w s'. P w \<Longrightarrow> (\<And>b k. k \<noteq> key \<Longrightarrow> contents s' b k = contents (uw_store w) b k) \<Longrightarrow> P (w \<lparr> uw_store := s' \<rparr>)"
  shows "safe contents P (safeDelete env k key) (\<lambda>r. P)"
proof -
  have "safe contents P (on_store env k (st_delete port key None)) (\<lambda>r. P)"
  proof (rule safe_on_store_put[OF assms(1,3)])
    fix w r assume "upload_inv contents w" "r \<in> set (uw_rows w)"
    then have "sf_key (sr_file r) \<noteq> key" using staged_is_no_final_key[OF assms(4)] by (auto simp: upload_inv_def)
    then show "object_kept contents (uw_store w) (snd (st_delete port key None (uw_store w))) (sr_file r)"
      by (simp add: object_kept_def delete_frame)
  qed (rule assms(5), assumption, simp add: delete_frame)
  then show ?thesis unfolding safeDelete_def assms(2) by (rule safe_weaken[OF safe_quietly]) auto
qed

lemma safe_validate:
  assumes "rely contents env" "ue_storage env = port" "firm contents env P" "starts_with ''uploads/'' key"
    and "\<And>w s'. P w \<Longrightarrow> (\<And>b k. k \<noteq> key \<Longrightarrow> contents s' b k = contents (uw_store w) b k) \<Longrightarrow> P (w \<lparr> uw_store := s' \<rparr>)"
  shows "safe contents P (validateStagedObject env k key meta) (\<lambda>r. P)"
  unfolding validateStagedObject_def
proof (rule safe_catch[where R = "\<lambda>r. P"])
  show "safe contents P (thenE (fromE (assertMimeAllowed (om_contentType meta)))
      (fromE (assertSizeWithinLimit (om_size meta) (ul_maxFileBytes (ue_limits env))))) (\<lambda>r. P)"
    by (rule safe_then[where R = "\<lambda>r. P"]) (auto intro: safe_pure)
  show "safe contents P (thenE (if isPolicyViolation e then safeDelete env k key else returnE ()) (throwE e)) (\<lambda>r. P)" for e
    by (rule safe_then[where R = "\<lambda>r. P"], rule safe_if) (auto intro: safe_pure safe_staged_delete[OF assms])
qed

lemma safe_create:
  assumes "rely contents env" "exclusive contents env (sf_id f) (sf_key f)"
    and "starts_with ''files/'' (sf_key f)" "sf_status f = FINALIZING"
  shows "safe contents (unused contents (sf_id f) (sf_key f)) (on_rows env k (files_create (ue_tenant env) f))
     (\<lambda>r w. empty_key contents (sf_key f) w \<and> (r = Inr Created \<longrightarrow> known_file f w))"
proof (rule safe_on_rows[OF assms(1) firm_unused[OF assms(2)]])
  fix w assume w: "upload_inv contents w" "unused contents (sf_id f) (sf_key f) w"
  show "upload_inv contents (with_rows w (snd (files_create (ue_tenant env) f (uw_rows w)))) \<and>
      steps contents w (with_rows w (snd (files_create (ue_tenant env) f (uw_rows w)))) \<and>
      empty_key contents (sf_key f) (with_rows w (snd (files_create (ue_tenant env) f (uw_rows w)))) \<and>
      (fst (files_create (ue_tenant env) f (uw_rows w)) = Inr Created \<longrightarrow>
         known_file f (with_rows w (snd (files_create (ue_tenant env) f (uw_rows w)))))"
  proof (cases "visible_to (ue_tenant env) (new_row f) \<and> 0 < sf_size f \<and> \<not> list_ex (collides f) (uw_rows w)")
    case True
    have c: "files_create (ue_tenant env) f (uw_rows w) = (Inr Created, uw_rows w @ [new_row f])"
      using True by (simp add: files_create_def insert_stored_def)
    have u: "sf_id f \<notin> set (uw_issued w)" using w(2) by (simp add: unused_def)
    have "known_file f (with_rows w (uw_rows w @ [new_row f]))"
      using u w(1) by (auto simp: known_file_def upload_inv_def new_row_def row_id_def status_of_def)
    then show ?thesis
      using insert_step[OF w(1) _ u assms(3,4)] True w(2) unfolding c by (simp add: unused_def empty_key_def)
  next
    case False
    then have "snd (files_create (ue_tenant env) f (uw_rows w)) = uw_rows w \<and>
        fst (files_create (ue_tenant env) f (uw_rows w)) \<noteq> Inr Created"
      by (auto simp: files_create_def insert_stored_def isUniqueConstraintViolation_def split: if_splits)
    then show ?thesis using w with_rows_id[OF w(1)] steps_refl[OF w(1)] by (simp add: unused_def empty_key_def)
  qed
qed

lemma safe_finalize:
  assumes "rely contents env" "ue_storage env = port" "exclusive contents env i key" "starts_with ''uploads/'' src"
  shows "safe contents (empty_key contents key) (on_store env k (st_finalize (ue_storage env) src key etag (Some b))) (\<lambda>r w. True)"
  unfolding assms(2)
proof (rule safe_on_store_write[OF assms(1) firm_empty[OF assms(3)]])
  fix w r
  assume w: "upload_inv contents w" "empty_key contents key w" and r: "r \<in> set (uw_rows w)"
  let ?s = "snd (st_finalize port src key etag (Some b) (uw_store w))"
  have "sf_key (sr_file r) \<noteq> src" using w(1) r staged_is_no_final_key[OF assms(4)] by (auto simp: upload_inv_def)
  then show "object_kept contents (uw_store w) ?s (sr_file r)"
    using w(2) finalize_frame[of "sf_bucket (sr_file r)" "sf_key (sr_file r)" "Some b" src key etag "uw_store w"]
    by (cases "sf_key (sr_file r) = key") (auto simp: object_kept_def empty_key_def)
qed

lemma safe_publish:
  assumes "rely contents env" "ue_storage env = port" "12 \<le> ul_magicByteCount (ue_limits env)"
    and "exclusive contents env (ue_newId env 0) (final_key env command)" "starts_with ''uploads/'' (ccf_sourceKey command)"
  shows "safe contents (unused contents (ue_newId env 0) (final_key env command)) (publish env command meta) answer_stands"
proof -
  let ?f = "confirm_props env command meta"
  have known: "firm contents env (known_file ?f)" by (rule firm_steadfast[OF assms(1)]) simp
  have any: "firm contents env (\<lambda>w. True)" by (simp add: firm_def)
  have conf: "confirmed ?f" using assms(5) by (simp add: confirmed_def)
  have duplicate: "safe contents (\<lambda>w. True) (bindE (found env 4 (BySourceKey (ccf_sourceKey command))) (\<lambda>concurrent.
        case concurrent of Some c \<Rightarrow> recoverExisting env 20 c (ccf_correlationId command) | None \<Rightarrow> throwE commitFailed)) answer_stands"
  proof (rule safe_bind[OF safe_found[OF assms(1) any]], rule safe_option)
    fix x and y :: stored_file assume "x = Some y"
    show "safe contents (\<lambda>w. True \<and> (\<exists>found_file. Inr x = Inr found_file \<and> (\<forall>f. found_file = Some f \<longrightarrow>
          file_matches (BySourceKey (ccf_sourceKey command)) f \<and> known_file f w \<and> (sf_status f \<noteq> FINALIZING \<longrightarrow> standing f w))))
        (recoverExisting env 20 y (ccf_correlationId command)) answer_stands"
    proof (cases "file_matches (BySourceKey (ccf_sourceKey command)) y")
      case True
      then have "confirmed y" using assms(5) by (simp add: file_matches_def confirmed_def)
      from safe_recover[OF assms(1,2,3) this] show ?thesis
        by (rule safe_weaken) (use \<open>x = Some y\<close> in auto)
    qed (simp add: safe_def triple_def \<open>x = Some y\<close>)
  qed (auto intro: safe_pure)
  have undo: "safe contents (known_file ?f) (thenE (quietly (on_rows env 6 (\<lambda>rows.
      (Inr (), files_deleteIfStatus (ue_tenant env) (sf_id ?f) FINALIZING rows)))) (throwE commitFailed)) (\<lambda>r w. known_file ?f w \<and> (\<forall>x. r \<noteq> Inr x))"
    by (rule safe_then[OF safe_keep[OF safe_quietly[OF safe_remove_finalizing[OF assms(1) known], of "\<lambda>w. True"]
            steadfast_known[of contents ?f], THEN safe_weaken]])
       (auto intro: safe_pure)
  have copy: "safe contents (\<lambda>w. known_file ?f w \<and> empty_key contents (final_key env command) w)
      (on_store env 5 (st_finalize (ue_storage env) (ccf_sourceKey command) (sf_key ?f) (om_etag meta) (Some (om_bucket meta))))
      (\<lambda>r. known_file ?f)"
    using safe_keep[OF safe_finalize[OF assms(1,2,4,5)] steadfast_known[of contents ?f]]
    by (auto intro: safe_weaken)
  have created: "safe contents (\<lambda>w. known_file ?f w \<and> empty_key contents (final_key env command) w)
     (thenE (catchE (on_store env 5 (st_finalize (ue_storage env) (ccf_sourceKey command) (sf_key ?f) (om_etag meta) (Some (om_bucket meta))))
         (\<lambda>_. thenE (quietly (on_rows env 6 (\<lambda>rows. (Inr (), files_deleteIfStatus (ue_tenant env) (sf_id ?f) FINALIZING rows))))
            (throwE commitFailed)))
       (completeFinalizing env 30 ?f (ccf_correlationId command))) answer_stands"
    by (rule safe_then[where R = "\<lambda>r. known_file ?f"], rule safe_catch[OF copy])
       (auto intro: safe_weaken[OF undo[simplified]] safe_complete[OF assms(1,2,3)] simp: anchored_def conf)
  have make: "safe contents (unused contents (ue_newId env 0) (final_key env command)) (on_rows env 3 (files_create (ue_tenant env) ?f))
     (\<lambda>r w. empty_key contents (final_key env command) w \<and> (r = Inr Created \<longrightarrow> known_file ?f w))"
    using safe_create[OF assms(1), of ?f 3] assms(4) by simp
  show ?thesis
    unfolding publish_def Let_def
  proof (rule safe_bind[OF make])
    show "safe contents (\<lambda>w. empty_key contents (final_key env command) w \<and> (Inr x = Inr Created \<longrightarrow> known_file ?f w))
       (if x = Duplicate then bindE (found env 4 (BySourceKey (ccf_sourceKey command))) (\<lambda>concurrent.
           case concurrent of None \<Rightarrow> throwE commitFailed | Some c \<Rightarrow> recoverExisting env 20 c (ccf_correlationId command))
        else thenE (catchE (on_store env 5 (st_finalize (ue_storage env) (ccf_sourceKey command) (sf_key ?f) (om_etag meta) (Some (om_bucket meta))))
         (\<lambda>_. thenE (quietly (on_rows env 6 (\<lambda>rows. (Inr (), files_deleteIfStatus (ue_tenant env) (sf_id ?f) FINALIZING rows))))
            (throwE commitFailed)))
       (completeFinalizing env 30 ?f (ccf_correlationId command))) answer_stands" for x
      by (rule safe_if, rule safe_weaken[OF duplicate], simp, simp, rule safe_weaken[OF created]) (cases x; auto)+
  qed simp
qed

lemma safe_confirm:
  assumes "rely contents env" "ue_storage env = port" "12 \<le> ul_magicByteCount (ue_limits env)"
    and "exclusive contents env (ue_newId env 0) (final_key env command)"
  shows "safe contents (unused contents (ue_newId env 0) (final_key env command)) (confirm_upload env command) answer_stands"
proof (cases "assertOwnsSourceKey (ccf_sourceKey command) (ccf_userId command) = Inr ()")
  case False
  then obtain e where "assertOwnsSourceKey (ccf_sourceKey command) (ccf_userId command) = Inl e"
    by (cases "assertOwnsSourceKey (ccf_sourceKey command) (ccf_userId command)") auto
  then have "confirm_upload env command = throwE e"
    by (simp add: confirm_upload_def fun_eq_iff action_defs)
  then show ?thesis by (simp add: safe_pure)
next
  case True
  let ?U = "unused contents (ue_newId env 0) (final_key env command)"
  have staged: "starts_with ''uploads/'' (ccf_sourceKey command)" by (rule owned_is_staged[OF True])
  have U: "firm contents env ?U" by (rule firm_unused[OF assms(4)])
  have differ: "ccf_sourceKey command \<noteq> final_key env command"
    using staged staged_is_no_final_key final_key_is_final by metis
  have head: "safe contents ?U (on_store env 1 (st_head (ue_storage env) (ccf_sourceKey command) None)) (\<lambda>r. ?U)"
    unfolding assms(2) by (rule safe_weaken[OF safe_on_store_read[OF assms(1) U]]) (simp_all add: head_reads)
  have validate: "safe contents ?U (validateStagedObject env 2 (ccf_sourceKey command) m) (\<lambda>r. ?U)" for m
    by (rule safe_validate[OF assms(1,2) U staged]) (use differ in \<open>auto simp: unused_def\<close>)
  have staged_run: "safe contents ?U (bindE (on_store env 1 (st_head (ue_storage env) (ccf_sourceKey command) None)) (\<lambda>meta.
      case meta of None \<Rightarrow> throwE (objectNotFound (ccf_sourceKey command))
      | Some m \<Rightarrow> thenE (validateStagedObject env 2 (ccf_sourceKey command) m) (publish env command m))) answer_stands"
    by (rule safe_bind[OF head], rule safe_option, rule safe_pure, simp,
        rule safe_then[OF validate safe_publish[OF assms staged]]) simp_all
  have existing: "safe contents (\<lambda>w. ?U w \<and> (\<exists>found_file. Inr x = Inr found_file \<and> (\<forall>f. found_file = Some f \<longrightarrow>
          file_matches (BySourceKey (ccf_sourceKey command)) f \<and> known_file f w \<and> (sf_status f \<noteq> FINALIZING \<longrightarrow> standing f w))))
      (recoverExisting env 10 y (ccf_correlationId command)) answer_stands" if "x = Some y" for x y
  proof (cases "file_matches (BySourceKey (ccf_sourceKey command)) y")
    case True
    then have "confirmed y" using staged by (simp add: file_matches_def confirmed_def)
    from safe_recover[OF assms(1,2,3) this] show ?thesis by (rule safe_weaken) (use that in auto)
  qed (simp add: safe_def triple_def that)
  show ?thesis
    unfolding confirm_upload_def
    by (rule safe_then[where R = "\<lambda>r. ?U"], rule safe_pure, simp, rule safe_bind[OF safe_found[OF assms(1) U]],
        rule safe_option, rule safe_weaken[OF staged_run], simp, simp,
        rule safe_if, rule safe_pure, simp, rule existing, simp_all)
qed

lemma standing_by_key:
  assumes "upload_inv c w" "standing f w" "r \<in> set (uw_rows w)" "sf_key (sr_file r) = sf_key f"
  shows "same_file f (sr_file r) \<and> may_become (sf_status f) (status_of r)"
proof -
  obtain r0 where r0: "r0 \<in> set (uw_rows w)" "same_file f (sr_file r0)" "may_become (sf_status f) (status_of r0)"
    using assms(2) by (auto simp: standing_def)
  then have "r0 = r" using one_row_per_key[OF assms(1) r0(1) assms(3)] assms(4) by (simp add: same_file_sel)
  then show ?thesis using r0 by simp
qed

lemma key_row_stands:
  assumes "upload_inv c w" "standing f w" "row \<in> set (uw_rows w)" "sf_key (sr_file row) = sf_key f" "status_of row \<noteq> FINALIZING"
  shows "standing (withStatus (status_of row) f) w"
proof -
  have "same_file (withStatus (status_of row) f) (sr_file row)"
    using standing_by_key[OF assms(1-4)] same_file_trans[OF same_file_sym[OF same_withStatus]] by blast
  then show ?thesis using assms(3,5) by (auto simp: standing_def)
qed

lemma safe_reject:
  assumes "rely contents env" "ue_storage env = port"
  shows "safe contents (standing f) (reject_upload env k (sf_key f) (sf_bucket f) why) (\<lambda>r w. True)"
proof -
  let ?r = "withStatus REJECTED f"
  have f: "firm contents env (standing f)" by (rule firm_steadfast[OF assms(1)]) simp
  have gone: "safe contents (standing ?r)
      (thenE (on_store env n (st_delete (ue_storage env) (sf_key f) (Some (sf_bucket f)))) (returnE Rejected)) (\<lambda>r w. True)" for n
    by (rule safe_then[where R = "\<lambda>r w. True"])
       (use safe_delete_rejected[OF assms, of ?r n] in \<open>auto intro: safe_pure\<close>)
  have mark: "safe contents (standing f) (transitioned env k (ByKey (sf_key f)) VERIFYING REJECTED fs)
      (\<lambda>r w. standing f w \<and> (\<exists>moved. r = Inr moved \<and> (moved \<longrightarrow> standing ?r w)))" for fs
  proof (rule safe_weaken[OF safe_keep[OF safe_transitioned[OF assms(1) f] steadfast_standing[of contents f]]])
    show "may_become VERIFYING REJECTED" by (simp add: may_become_def)
  next
    fix r w
    assume w: "upload_inv contents w" and r: "(\<exists>moved. r = Inr moved \<and> (moved \<longrightarrow>
        (\<exists>row \<in> set (uw_rows w). row_matches (ByKey (sf_key f)) row \<and> status_of row = REJECTED))) \<and> standing f w"
    then show "standing f w \<and> (\<exists>moved. r = Inr moved \<and> (moved \<longrightarrow> standing ?r w))"
      using key_row_stands[OF w, of f] by (fastforce simp: row_matches_def file_matches_def)
  qed auto
  have look: "safe contents (standing f) (found env (k + 1) (ByKey (sf_key f)))
      (\<lambda>r w. \<exists>g. r = Inr g \<and> (\<forall>h. g = Some h \<and> sf_status h = REJECTED \<longrightarrow> standing ?r w))"
  proof (rule safe_weaken[OF safe_found[OF assms(1) f]])
    fix r w
    assume w: "upload_inv contents w" and r: "standing f w \<and> (\<exists>g. r = Inr g \<and> (\<forall>h. g = Some h \<longrightarrow>
        file_matches (ByKey (sf_key f)) h \<and> known_file h w \<and> (sf_status h \<noteq> FINALIZING \<longrightarrow> standing h w)))"
    have "standing ?r w" if h: "sf_status h = REJECTED" "standing h w" "file_matches (ByKey (sf_key f)) h" for h
    proof -
      obtain row where row: "row \<in> set (uw_rows w)" "same_file h (sr_file row)" "status_of row = REJECTED"
        using h by (auto simp: standing_def may_become_def)
      then have "sf_key (sr_file row) = sf_key f" using h(3) by (simp add: same_file_sel file_matches_def)
      then show ?thesis using key_row_stands[OF w conjunct1[OF r] row(1)] row(3) by simp
    qed
    then show "\<exists>g. r = Inr g \<and> (\<forall>h. g = Some h \<and> sf_status h = REJECTED \<longrightarrow> standing ?r w)"
      using r by fastforce
  qed simp
  have retry: "safe contents (standing f) (bindE (found env (k + 1) (ByKey (sf_key f))) (\<lambda>stored. case stored of
        Some r \<Rightarrow> if sf_status r = REJECTED
          then thenE (on_store env (k + 2) (st_delete (ue_storage env) (sf_key f) (Some (sf_bucket f)))) (returnE Rejected)
          else returnE Skipped
      | None \<Rightarrow> returnE Skipped)) (\<lambda>r w. True)"
    by (rule safe_bind[OF look], rule safe_option, rule safe_pure, simp, rule safe_if, rule safe_weaken[OF gone])
       (auto intro: safe_pure)
  show ?thesis
    unfolding reject_upload_def
    by (rule safe_bind[OF mark], rule safe_if, rule safe_weaken[OF retry], simp, simp, rule safe_weaken[OF gone]) auto
qed

lemma safe_scan:
  assumes "rely contents env" "ue_storage env = port"
    and "vc_key command = sf_key f" "vc_bucket command = sf_bucket f"
  shows "safe contents (\<lambda>w. standing f w \<and> checked_file contents f w) (scan_and_publish env command) (\<lambda>r w. True)"
proof -
  let ?P = "\<lambda>w. standing f w \<and> checked_file contents f w"
  have P: "firm contents env ?P" by (intro firm_steadfast[OF assms(1)] steadfast_conj) simp_all
  have head: "safe contents ?P (on_store env 1 (st_head port a b)) (\<lambda>r. ?P)" for a b
    by (rule safe_weaken[OF safe_on_store_read[OF assms(1) P]]) (simp_all add: head_reads)
  have stream: "safe contents ?P (on_store env 2 (st_readStream port a b)) (\<lambda>r. ?P)" for a b
    by (rule safe_weaken[OF safe_on_store_read[OF assms(1) P]]) (simp_all add: stream_reads)
  have flip: "safe contents ?P (transitioned env 3 (ByKey (sf_key f)) VERIFYING READY fs) (\<lambda>r w. True)" for fs
  proof (rule safe_weaken[OF safe_transitioned[OF assms(1) P]])
    show "may_become VERIFYING READY" by (simp add: may_become_def)
  next
    fix w r
    assume w: "upload_inv contents w" "?P w" and r: "r \<in> set (uw_rows w)" "row_matches (ByKey (sf_key f)) r" "status_of r = VERIFYING"
    have "sf_key (sr_file r) = sf_key f" using r(2) by (simp add: row_matches_def file_matches_def)
    then have same: "same_file f (sr_file r)" using standing_by_key[OF w(1) conjunct1[OF w(2)] r(1)] by simp
    then have "row_id r = sf_id f" by (simp add: row_id_def same_file_sel)
    moreover have "status_of r \<noteq> REJECTED" using r(3) by simp
    ultimately have "holds_type contents (uw_store w) f" using w(2) r(1) unfolding checked_file_def by blast
    then show "holds_type contents (uw_store w) (sr_file r)" by (simp add: holds_type_same[OF same])
  qed auto
  show ?thesis
    unfolding scan_and_publish_def assms(2-4)
    by (rule safe_bind[OF head], rule safe_bind[OF stream], rule safe_bind[where R = "\<lambda>r. ?P"], rule safe_pure, simp,
        rule safe_if, rule safe_weaken[OF safe_reject[OF assms(1,2)]], simp, simp, rule safe_bind[OF flip])
       (auto intro: safe_pure)
qed

lemma safe_verify:
  assumes "rely contents env" "ue_storage env = port" "12 \<le> ul_magicByteCount (ue_limits env)"
    and "vc_key command = sf_key f" "vc_bucket command = sf_bucket f" "vc_declaredContentType command = sf_contentType f"
    and "sf_status f \<noteq> FINALIZING"
  shows "safe contents (\<lambda>w. known_file f w \<and> standing f w) (verify_upload env command) (\<lambda>r w. True)"
proof -
  let ?P = "\<lambda>w. known_file f w \<and> standing f w"
  have a: "anchored f" using assms(7) by (simp add: anchored_def)
  have magic: "safe contents ?P (readHeadAndAssertMagicBytes env 0 (sf_key f) (sf_contentType f) (sf_bucket f))
      (\<lambda>r w. standing f w \<and> (r = Inr () \<longrightarrow> checked_file contents f w))"
    using safe_keep[OF safe_magic[OF assms(1-3) a] steadfast_standing[of contents f]] by (rule safe_weaken) auto
  have first: "safe contents ?P (catchE
       (thenE (readHeadAndAssertMagicBytes env 0 (sf_key f) (sf_contentType f) (sf_bucket f)) (returnE None))
       (\<lambda>e. if isPolicyViolation e then returnE (failure_code e) else throwE e))
      (\<lambda>r w. standing f w \<and> (r = Inr None \<longrightarrow> checked_file contents f w))"
  proof (rule safe_catch[where R = "\<lambda>r w. standing f w \<and> (\<forall>x. r = Inr x \<longrightarrow> x = None \<and> checked_file contents f w)"])
    show "safe contents ?P (thenE (readHeadAndAssertMagicBytes env 0 (sf_key f) (sf_contentType f) (sf_bucket f)) (returnE None))
       (\<lambda>r w. standing f w \<and> (\<forall>x. r = Inr x \<longrightarrow> x = None \<and> checked_file contents f w))"
      by (rule safe_then[OF magic], rule safe_pure) auto
    fix e
    have "failure_code e \<noteq> None" if "isPolicyViolation e" using that by (cases e) (auto simp: isPolicyViolation_def)
    then show "safe contents (\<lambda>w. standing f w \<and> (\<forall>x. Inl e = Inr x \<longrightarrow> x = None \<and> checked_file contents f w))
        (if isPolicyViolation e then returnE (failure_code e) else throwE e)
        (\<lambda>r w. standing f w \<and> (r = Inr None \<longrightarrow> checked_file contents f w))"
      by (intro safe_if safe_pure) auto
  qed auto
  show ?thesis
    unfolding verify_upload_def assms(4-6)
  proof (rule safe_bind[OF first])
    fix v :: "string option"
    show "safe contents (\<lambda>w. standing f w \<and> (Inr v = Inr None \<longrightarrow> checked_file contents f w))
       (case v of None \<Rightarrow> scan_and_publish env command
        | Some why \<Rightarrow> reject_upload env 20 (sf_key f) (sf_bucket f) why) (\<lambda>r w. True)"
      by (rule safe_option, rule safe_weaken[OF safe_scan[OF assms(1,2,4,5)]], simp, simp,
          rule safe_weaken[OF safe_reject[OF assms(1,2)]]) auto
  qed simp
qed

lemma safe_delete_upload:
  assumes "rely contents env"
  shows "safe contents (\<lambda>w. True) (delete_upload env org user i) (\<lambda>r w. True)"
proof -
  have any: "firm contents env (\<lambda>w. True)" by (simp add: firm_def)
  show ?thesis
    unfolding delete_upload_def
    by (rule safe_bind[OF safe_found[OF assms any]], rule safe_option, rule safe_pure, simp, rule safe_if, rule safe_pure, simp,
        rule safe_weaken[OF safe_bind[OF safe_softDelete[OF assms any]]])
       (auto intro: safe_pure)
qed

lemma safe_presign_upload:
  assumes "rely contents env" "ue_storage env = port"
  shows "safe contents (\<lambda>w. True) (presign_upload env user ct) (\<lambda>r w. True)"
proof -
  have any: "firm contents env (\<lambda>w. True)" by (simp add: firm_def)
  have call: "safe contents (\<lambda>w. True) (on_store env 0 (st_presignUpload port key po)) (\<lambda>r w. True)" for key po
    by (rule safe_weaken[OF safe_on_store_read[OF assms(1) any]]) (simp_all add: presign_reads)
  show ?thesis
    unfolding presign_upload_def assms(2)
    by (rule safe_bind[where R = "\<lambda>r w. True"]) (auto intro: call safe_pure)
qed

lemma safe_get_upload:
  assumes "rely contents env" "ue_storage env = port"
  shows "safe contents (\<lambda>w. True) (get_upload env org user i) answer_stands"
proof -
  have any: "firm contents env (\<lambda>w. True)" by (simp add: firm_def)
  have firm: "firm contents env (\<lambda>w. sf_status f \<noteq> FINALIZING \<longrightarrow> standing f w)" for f
    by (rule firm_steadfast[OF assms(1)]) (cases "sf_status f = FINALIZING"; simp)
  show ?thesis
    unfolding get_upload_def
    by (rule safe_bind[OF safe_found[OF assms(1) any]], rule safe_option, rule safe_pure, simp, rule safe_if, rule safe_pure, simp,
        rule safe_if, rule safe_pure, simp, rule safe_weaken[OF safe_publication_any[OF assms firm]])
       auto
qed

text \<open>Multipart uploads.\<close>

lemma spared_by_batch:
  assumes "all_mine fs w" "f \<in> set fs" "batch_file env f" "r \<in> set (uw_rows w)" "anchored (sr_file r)"
  shows "sf_key (sr_file r) \<noteq> sf_key f"
  using assms not_anchored[OF assms(3)] by (auto simp: all_mine_def mine_def)

lemma safe_send:
  assumes "rely contents env" "ue_storage env = port"
    and own: "\<And>f. f \<in> set fs \<Longrightarrow> batch_owned contents env f \<and> batch_file env f"
    and here: "f \<in> set fs" "snd ` set prev \<subseteq> set fs" "sf_key f \<notin> (sf_key \<circ> snd) ` set prev"
  shows "safe contents (\<lambda>w. all_mine fs w \<and> sent contents prev w) (upload_one env command i (file, f))
     (\<lambda>r w. all_mine fs w \<and> (r = Inr () \<longrightarrow> sent contents (prev @ [(file, f)]) w))"
proof -
  let ?P = "\<lambda>w. all_mine fs w \<and> sent contents prev w"
  let ?o = "\<lparr> su_bucket = Some (sf_bucket f), su_contentType = Some (sf_contentType f), su_size = sf_size f,
      su_aborted = uf_aborted command i \<rparr>"
  let ?m = "st_uploadStream port (sf_key f) (mf_content file) ?o"
  have P: "firm contents env ?P"
    by (rule firm_conj[OF firm_all_mine firm_sent]) (use own here(2) in auto)
  have bucket: "bucket_or (su_bucket ?o) = sf_bucket f" by (simp add: bucket_given)
  have put: "safe contents ?P (on_store env (100 + i) ?m)
      (\<lambda>r w. all_mine fs w \<and> (\<forall>x. r = Inr x \<longrightarrow> sent contents (prev @ [(file, f)]) w))"
  proof (rule safe_on_store_put[OF assms(1) P])
    fix w r assume "?P w" "r \<in> set (uw_rows w)" "anchored (sr_file r)"
    then have "sf_key (sr_file r) \<noteq> sf_key f" using spared_by_batch here(1) own by blast
    then show "object_kept contents (uw_store w) (snd (?m (uw_store w))) (sr_file r)"
      by (simp add: object_kept_def upload_frame)
  next
    fix w assume w: "?P w"
    have "contents (snd (?m (uw_store w))) (sf_bucket g) (sf_key g) = Some (mf_content d)" if "(d, g) \<in> set prev" for d g
    proof -
      have "sf_key g \<noteq> sf_key f" using that here(3) by force
      then show ?thesis using w that by (auto simp: upload_frame sent_def)
    qed
    moreover have "contents (snd (?m (uw_store w))) (sf_bucket f) (sf_key f) = Some (mf_content file)"
      if "fst (?m (uw_store w)) = Inr x" for x
      using upload_content[OF that] bucket by simp
    ultimately show "all_mine fs (w \<lparr> uw_store := snd (?m (uw_store w)) \<rparr>) \<and>
       (\<forall>x. fst (?m (uw_store w)) = Inr x \<longrightarrow> sent contents (prev @ [(file, f)]) (w \<lparr> uw_store := snd (?m (uw_store w)) \<rparr>))"
      using w by (auto simp: all_mine_def mine_def sent_def)
  qed
  show ?thesis
    unfolding upload_one_def prod.case assms(2)
    by (rule safe_then[where R = "\<lambda>r. ?P"], unfold throwIfAborted_def, rule safe_if; (rule safe_pure)?; (rule safe_bind[OF put])?)
       (auto intro: safe_pure)
qed

lemma safe_send_all:
  assumes "rely contents env" "ue_storage env = port"
    and own: "\<And>f. f \<in> set fs \<Longrightarrow> batch_owned contents env f \<and> batch_file env f"
    and here: "snd ` set (prev @ rest) \<subseteq> set fs" "distinct (map (sf_key \<circ> snd) (prev @ rest))"
  shows "safe contents (\<lambda>w. all_mine fs w \<and> sent contents prev w)
     (each (\<lambda>(i, fp). upload_one env command i fp) (List.enumerate n rest))
     (\<lambda>r w. all_mine fs w \<and> (r = Inr () \<longrightarrow> sent contents (prev @ rest) w))"
  using here
proof (induction rest arbitrary: prev n)
  case Nil
  show ?case by (auto intro: safe_pure)
next
  case (Cons p rest)
  obtain mf f where p: "p = (mf, f)" by (cases p)
  have one: "safe contents (\<lambda>w. all_mine fs w \<and> sent contents prev w) (upload_one env command n (mf, f))
     (\<lambda>r w. all_mine fs w \<and> (r = Inr () \<longrightarrow> sent contents (prev @ [(mf, f)]) w))"
    by (rule safe_send[OF assms(1,2) own]) (use Cons.prems p in auto)
  have others: "safe contents (\<lambda>w. all_mine fs w \<and> sent contents (prev @ [(mf, f)]) w)
     (each (\<lambda>(i, fp). upload_one env command i fp) (List.enumerate (Suc n) rest))
     (\<lambda>r w. all_mine fs w \<and> (r = Inr () \<longrightarrow> sent contents ((prev @ [(mf, f)]) @ rest) w))"
    by (rule Cons.IH) (use Cons.prems p in auto)
  show ?case
    unfolding enumerate_simps each.simps p prod.case
    by (rule safe_then[OF one], rule safe_weaken[OF others]) auto
qed

lemma safe_cleanup:
  assumes "rely contents env" "ue_storage env = port"
    and own: "\<And>f. f \<in> set fs \<Longrightarrow> batch_owned contents env f \<and> batch_file env f" and here: "f \<in> set fs"
  shows "safe contents (all_mine fs) (cleanup_one env f) (\<lambda>r. all_mine fs)"
proof -
  have P: "firm contents env (all_mine fs)" by (rule firm_all_mine) (use own in auto)
  let ?d = "st_delete port (sf_key f) (Some (sf_bucket f))"
  have delete: "safe contents (all_mine fs) (on_store env 50 ?d) (\<lambda>r. all_mine fs)"
  proof (rule safe_on_store_put[OF assms(1) P])
    fix w r assume "upload_inv contents w" "all_mine fs w" "r \<in> set (uw_rows w)" "anchored (sr_file r)"
    then have "sf_key (sr_file r) \<noteq> sf_key f" using spared_by_batch here own by blast
    then show "object_kept contents (uw_store w) (snd (?d (uw_store w))) (sr_file r)"
      by (simp add: object_kept_def delete_frame)
  qed (simp add: all_mine_def mine_def)
  have remove: "safe contents (all_mine fs) (on_rows env 51 (\<lambda>rows.
      (Inr (), files_deleteIfStatus (ue_tenant env) (sf_id f) FINALIZING rows))) (\<lambda>r. all_mine fs)"
  proof (rule safe_on_rows[OF assms(1) P], unfold fst_conv snd_conv)
    fix w assume w: "upload_inv contents w" "all_mine fs w"
    let ?keep = "\<lambda>r. \<not> (visible_to (ue_tenant env) r \<and> sf_id (sr_file r) = sf_id f \<and> sf_status (sr_file r) = FINALIZING)"
    have "upload_inv contents (with_rows w (filter ?keep (uw_rows w))) \<and> steps contents w (with_rows w (filter ?keep (uw_rows w)))"
      by (rule filter_step[OF w(1)]) (simp add: status_of_def)
    moreover have "all_mine fs (with_rows w (filter ?keep (uw_rows w)))"
      using w(2) by (auto simp: all_mine_def mine_def)
    ultimately show "upload_inv contents (with_rows w (files_deleteIfStatus (ue_tenant env) (sf_id f) FINALIZING (uw_rows w))) \<and>
        steps contents w (with_rows w (files_deleteIfStatus (ue_tenant env) (sf_id f) FINALIZING (uw_rows w))) \<and>
        all_mine fs (with_rows w (files_deleteIfStatus (ue_tenant env) (sf_id f) FINALIZING (uw_rows w)))"
      by (simp add: files_deleteIfStatus_def)
  qed
  show ?thesis
    unfolding cleanup_one_def assms(2)
    by (rule safe_weaken[OF safe_quietly[OF safe_then[OF delete remove], where Q = "all_mine fs"]]) auto
qed

lemma safe_createBatch:
  assumes "rely contents env" "\<And>f. f \<in> set fs \<Longrightarrow> batch_owned contents env f \<and> batch_file env f"
  shows "safe contents (\<lambda>w. \<forall>f \<in> set fs. sf_id f \<notin> set (uw_issued w)) (on_rows env k (files_createBatch (ue_tenant env) fs))
     (\<lambda>r w. r = Inr () \<longrightarrow> all_mine fs w \<and> distinct (map sf_key fs) \<and> distinct (map sf_id fs))"
proof (rule safe_on_rows[OF assms(1)])
  let ?P = "\<lambda>w. \<forall>f \<in> set fs. sf_id f \<notin> set (uw_issued w)"
  have "?P (ue_between env k w)" if "?P w" for k w using that assms(2) unfolding batch_owned_def by blast
  moreover have "?P w'" if "?P w" "uw_issued w' = uw_issued w" for w w' using that(1) unfolding that(2) .
  ultimately show "firm contents env ?P" unfolding firm_def by blast
  fix w assume w: "upload_inv contents w" "?P w"
  obtain r rows where run: "files_createBatch (ue_tenant env) fs (uw_rows w) = (r, rows)" by force
  show "upload_inv contents (with_rows w (snd (files_createBatch (ue_tenant env) fs (uw_rows w)))) \<and>
      steps contents w (with_rows w (snd (files_createBatch (ue_tenant env) fs (uw_rows w)))) \<and>
      (fst (files_createBatch (ue_tenant env) fs (uw_rows w)) = Inr () \<longrightarrow>
         all_mine fs (with_rows w (snd (files_createBatch (ue_tenant env) fs (uw_rows w)))) \<and>
         distinct (map sf_key fs) \<and> distinct (map sf_id fs))"
  proof (cases r)
    case (Inl e)
    then have "rows = uw_rows w" using run insert_all_Inl by (auto simp: files_createBatch_def split: if_splits)
    then show ?thesis unfolding run using Inl w(1) with_rows_id[OF w(1)] steps_refl[OF w(1)] by simp
  next
    case (Inr u)
    then have i: "insert_all (ue_tenant env) fs (uw_rows w) = (Inr (), rows)"
      using run by (auto simp: files_createBatch_def split: if_splits)
    show ?thesis
      unfolding run using batch_step[OF w(1) i] insert_all_Inr[OF i] w(2) assms(2) Inr by (simp add: batch_file_def)
  qed
qed

lemma all_selected:
  assumes "distinct (map key (filter sel rows))" "\<And>r. sel r \<Longrightarrow> key r \<in> set ids" "length (filter sel rows) = length ids"
    and "distinct ids" "i \<in> set ids"
  shows "\<exists>r \<in> set rows. sel r \<and> key r = i"
proof -
  let ?ks = "map key (filter sel rows)"
  have "set ?ks \<subseteq> set ids" using assms(2) by auto
  moreover have "card (set ?ks) = card (set ids)"
    using assms(1,3,4) by (simp only: distinct_card length_map)
  ultimately have "set ?ks = set ids" by (intro card_subset_eq) simp_all
  then obtain r where "r \<in> set (filter sel rows)" "key r = i" using assms(5) by (metis (no_types, lifting) image_iff list.set_map)
  then show ?thesis by auto
qed

lemma safe_publishBatch:
  assumes "rely contents env"
    and own: "\<And>f. f \<in> set (map snd prepared) \<Longrightarrow> batch_owned contents env f \<and> batch_file env f"
    and typed: "\<And>d f. (d, f) \<in> set prepared \<Longrightarrow> \<exists>t. detectFileType (mf_content d) = Some t \<and> dt_mimeType t = sf_contentType f"
    and ids: "distinct (map sf_id (map snd prepared))" and b: "b = READY \<or> b = VERIFYING"
  shows "safe contents (\<lambda>w. all_mine (map snd prepared) w \<and> sent contents prepared w)
     (on_rows env k (files_publishBatch (ue_tenant env) (map (sf_id \<circ> snd) prepared) b))
     (\<lambda>r w. r = Inr () \<longrightarrow> (\<forall>f \<in> set (map snd prepared). standing (withStatus b f) w))"
proof (rule safe_on_rows[OF assms(1) firm_conj[OF firm_all_mine firm_sent]])
  fix w assume w: "upload_inv contents w" and m: "all_mine (map snd prepared) w \<and> sent contents prepared w"
  let ?ids = "map (sf_id \<circ> snd) prepared"
  let ?sel = "\<lambda>r. visible_to (ue_tenant env) r \<and> sf_id (sr_file r) \<in> set ?ids \<and> sf_status (sr_file r) = FINALIZING \<and> sr_deletedAt r = None"
  let ?rows = "update_rows ?sel (with_row_status b) (uw_rows w)"
  have row: "\<exists>d. (d, sr_file r) \<in> set prepared" if r: "r \<in> set (uw_rows w)" "?sel r" for r
  proof -
    obtain d f where f: "(d, f) \<in> set prepared" "sf_id (sr_file r) = sf_id f" using r(2) by auto
    then have "mine f w" using m by (force simp: all_mine_def)
    then show ?thesis using f r(1) by (auto simp: mine_def row_id_def)
  qed
  have step: "upload_inv contents (with_rows w ?rows) \<and> steps contents w (with_rows w ?rows)"
  proof (rule update_step[OF w])
    fix r assume r: "r \<in> set (uw_rows w)" "?sel r"
    obtain d where d: "(d, sr_file r) \<in> set prepared" using row[OF r] by blast
    have "holds_type contents (uw_store w) (sr_file r)"
      using m d typed[OF d] by (force simp: sent_def holds_type_def)
    moreover have "follows r (with_row_status b r)"
      using r(2) by (simp add: follows_def status_of_def with_row_status_def may_become_def same_file_def withStatus_def)
    ultimately show "follows r (with_row_status b r) \<and> (status_of (with_row_status b r) = READY \<longrightarrow>
        status_of r = READY \<or> holds_type contents (uw_store w) (sr_file r))" by simp
  qed
  have stands: "standing (withStatus b f) (with_rows w ?rows)"
    if count: "count_rows ?sel (uw_rows w) = length ?ids" and f: "f \<in> set (map snd prepared)" for f
  proof -
    have "distinct (map row_id (filter ?sel (uw_rows w)))" using w by (simp add: upload_inv_def distinct_map_filter)
    moreover have "length (filter ?sel (uw_rows w)) = length ?ids" using count by (simp add: count_rows_def)
    moreover have "distinct ?ids" "sf_id f \<in> set ?ids" using ids f by (auto simp: comp_def)
    ultimately obtain r where r: "r \<in> set (uw_rows w)" "?sel r" "row_id r = sf_id f"
      using all_selected[of row_id ?sel "uw_rows w" ?ids "sf_id f"] by (auto simp: row_id_def)
    have "mine f w" using m f unfolding all_mine_def by blast
    then have "sr_file r = f" using r by (auto simp: mine_def)
    moreover have "with_row_status b r \<in> set ?rows" using r by (auto simp: update_rows_def)
    ultimately show ?thesis
      using b by (auto simp: standing_def with_row_status_def status_of_def withStatus_def intro!: bexI[of _ "with_row_status b r"])
  qed
  show "upload_inv contents (with_rows w (snd (files_publishBatch (ue_tenant env) ?ids b (uw_rows w)))) \<and>
      steps contents w (with_rows w (snd (files_publishBatch (ue_tenant env) ?ids b (uw_rows w)))) \<and>
      (fst (files_publishBatch (ue_tenant env) ?ids b (uw_rows w)) = Inr () \<longrightarrow>
         (\<forall>f \<in> set (map snd prepared). standing (withStatus b f) (with_rows w (snd (files_publishBatch (ue_tenant env) ?ids b (uw_rows w))))))"
    unfolding files_publishBatch_def Let_def
    using step stands w with_rows_id[OF w] steps_refl[OF w] by auto
qed (use own in auto)

lemma safe_upload_files:
  assumes "rely contents env" "ue_storage env = port"
    and batch: "\<And>f prepared. prepare_all env command 0 (uf_files command) = Inr prepared \<Longrightarrow> f \<in> snd ` set prepared \<Longrightarrow> batch_owned contents env f"
    and checked: "\<And>d. d \<in> set (uf_files command) \<Longrightarrow>
          \<exists>t. detectFileType (mf_content d) = Some t \<and> dt_mimeType t = mf_contentType d"
  shows "safe contents (\<lambda>w. \<forall>i. ue_newId env i \<notin> set (uw_issued w)) (upload_files env command) batch_stands"
proof (cases "prepare_all env command 0 (uf_files command)")
  case (Inl e)
  show ?thesis
    unfolding upload_files_def Inl
    by (rule safe_then[where R = "\<lambda>r w. \<forall>i. ue_newId env i \<notin> set (uw_issued w)"], unfold throwIfAborted_def, rule safe_if)
       (auto intro!: safe_pure safe_bind[where R = "\<lambda>r w. r = Inl e"] safe_false simp: batch_stands_def)
next
  case (Inr prepared)
  let ?fs = "map snd prepared"
  let ?b = "published_status env"
  note shape = prepare_all_Inr[OF Inr]
  have own: "batch_owned contents env f \<and> batch_file env f" if "f \<in> set ?fs" for f
    using batch[OF Inr] shape that by auto
  have typed: "\<exists>t. detectFileType (mf_content d) = Some t \<and> dt_mimeType t = sf_contentType f" if "(d, f) \<in> set prepared" for d f
  proof -
    have "d \<in> set (map fst prepared)" using that by force
    then have "d \<in> set (uf_files command)" using shape by simp
    moreover have "sf_contentType f = mf_contentType d" using shape that by auto
    ultimately show ?thesis using checked[of d] by simp
  qed
  have b: "?b = READY \<or> ?b = VERIFYING" by (simp add: published_status_def)
  have cleanup: "safe contents (all_mine ?fs) (thenE (each (cleanup_one env) ?fs) (throwE e)) (\<lambda>r w. \<forall>x. r \<noteq> Inr x)" for e
    by (rule safe_then[OF safe_each[OF safe_cleanup[OF assms(1,2) own]]]) (auto intro: safe_pure)
  have sending: "safe contents (\<lambda>w. all_mine ?fs w) (catchE
       (thenE (each (\<lambda>(i, fp). upload_one env command i fp) (List.enumerate 1 prepared)) (throwIfAborted command (length prepared + 1)))
       (\<lambda>e. thenE (each (cleanup_one env) ?fs) (throwE e)))
     (\<lambda>r w. \<forall>x. r = Inr x \<longrightarrow> all_mine ?fs w \<and> sent contents prepared w)" if "distinct (map sf_key ?fs)"
  proof (rule safe_catch[where R = "\<lambda>r w. all_mine ?fs w \<and> (\<forall>x. r = Inr x \<longrightarrow> sent contents prepared w)"])
    have all: "safe contents (\<lambda>w. all_mine ?fs w \<and> sent contents [] w)
       (each (\<lambda>(i, fp). upload_one env command i fp) (List.enumerate 1 prepared))
       (\<lambda>r w. all_mine ?fs w \<and> (r = Inr () \<longrightarrow> sent contents ([] @ prepared) w))"
      by (rule safe_send_all[OF assms(1,2) own]) (use that in \<open>auto simp: comp_def\<close>)
    show "safe contents (\<lambda>w. all_mine ?fs w)
       (thenE (each (\<lambda>(i, fp). upload_one env command i fp) (List.enumerate 1 prepared)) (throwIfAborted command (length prepared + 1)))
       (\<lambda>r w. all_mine ?fs w \<and> (\<forall>x. r = Inr x \<longrightarrow> sent contents prepared w))"
      by (rule safe_then[OF safe_weaken[OF all]], simp add: sent_def, assumption, unfold throwIfAborted_def, rule safe_if)
         (auto intro: safe_pure)
  qed (auto intro: safe_weaken[OF cleanup])
  have answers: "safe contents (\<lambda>w. \<forall>f \<in> set ?fs. standing (withStatus ?b f) w)
      (promise_all (\<lambda>(_, props). publication_result env 60 (withStatus ?b props) (uf_correlationId command)) prepared) batch_stands"
  proof (rule safe_weaken[OF safe_promise_all[where A = "\<lambda>res. \<exists>f \<in> set ?fs. \<exists>url. res = file_answer (withStatus ?b f) url"]])
    fix p assume p: "p \<in> set prepared"
    obtain d f where df: "p = (d, f)" by (cases p)
    have firm: "firm contents env (\<lambda>w. \<forall>f \<in> set ?fs. standing (withStatus ?b f) w)"
      by (intro firm_steadfast[OF assms(1)] steadfast_ball steadfast_standing)
    show "safe contents (\<lambda>w. \<forall>f \<in> set ?fs. standing (withStatus ?b f) w)
       (case p of (_, props) \<Rightarrow> publication_result env 60 (withStatus ?b props) (uf_correlationId command))
       (\<lambda>r w. (\<forall>f \<in> set ?fs. standing (withStatus ?b f) w) \<and>
          (\<forall>y. r = Inr y \<longrightarrow> (\<exists>f \<in> set ?fs. \<exists>url. y = file_answer (withStatus ?b f) url)))"
      unfolding df prod.case
      by (rule safe_weaken[OF safe_publication_keep[OF assms(1,2) firm]]) (use p df in force)+
  next
    fix r :: "file_result list outcome" and w
    assume "(\<forall>f \<in> set ?fs. standing (withStatus ?b f) w) \<and> (\<forall>ys. r = Inr ys \<longrightarrow>
        (\<forall>y \<in> set ys. \<exists>f \<in> set ?fs. \<exists>url. y = file_answer (withStatus ?b f) url))"
    then show "batch_stands r w" unfolding batch_stands_def by blast
  qed simp
  show ?thesis
    unfolding upload_files_def Inr
  proof (rule safe_then[where R = "\<lambda>r w. \<forall>i. ue_newId env i \<notin> set (uw_issued w)"])
    let ?P = "\<lambda>w. \<forall>i. ue_newId env i \<notin> set (uw_issued w)"
    show "safe contents ?P (throwIfAborted command 0) (\<lambda>r. ?P)"
      unfolding throwIfAborted_def by (rule safe_if; rule safe_pure; assumption)

    show "safe contents ?P (bindE (fromE (Inr prepared)) (\<lambda>prepared.
        thenE (on_rows env 1 (files_createBatch (ue_tenant env) (map snd prepared)))
         (thenE (catchE (thenE (each (\<lambda>(i, fp). upload_one env command i fp) (List.enumerate 1 prepared))
                               (throwIfAborted command (length prepared + 1)))
                  (\<lambda>e. thenE (each (cleanup_one env) (map snd prepared)) (throwE e)))
           (thenE (on_rows env 2 (files_publishBatch (ue_tenant env) (map (sf_id \<circ> snd) prepared) ?b))
             (promise_all (\<lambda>(_, props). publication_result env 60 (withStatus ?b props) (uf_correlationId command)) prepared))))) batch_stands"
    proof (rule safe_bind[where R = "\<lambda>r w. r = Inr prepared \<and> ?P w"], rule safe_pure, simp)
      fix p
      have create: "safe contents ?P (on_rows env 1 (files_createBatch (ue_tenant env) ?fs))
          (\<lambda>r w. r = Inr () \<longrightarrow> all_mine ?fs w \<and> distinct (map sf_key ?fs) \<and> distinct (map sf_id ?fs))"
      proof (rule safe_weaken[OF safe_createBatch[OF assms(1) own]])
        fix w assume "\<forall>i. ue_newId env i \<notin> set (uw_issued w)"
        then show "\<forall>f \<in> set ?fs. sf_id f \<notin> set (uw_issued w)" using own unfolding batch_file_def by metis
      qed
      have run: "safe contents ?P
        (thenE (on_rows env 1 (files_createBatch (ue_tenant env) ?fs))
         (thenE (catchE (thenE (each (\<lambda>(i, fp). upload_one env command i fp) (List.enumerate 1 prepared))
                               (throwIfAborted command (length prepared + 1)))
                  (\<lambda>e. thenE (each (cleanup_one env) ?fs) (throwE e)))
           (thenE (on_rows env 2 (files_publishBatch (ue_tenant env) (map (sf_id \<circ> snd) prepared) ?b))
             (promise_all (\<lambda>(_, props). publication_result env 60 (withStatus ?b props) (uf_correlationId command)) prepared)))) batch_stands"
      proof (rule safe_then[OF create])
        fix x
        let ?rest = "thenE (catchE (thenE (each (\<lambda>(i, fp). upload_one env command i fp) (List.enumerate 1 prepared))
                               (throwIfAborted command (length prepared + 1)))
                  (\<lambda>e. thenE (each (cleanup_one env) ?fs) (throwE e)))
           (thenE (on_rows env 2 (files_publishBatch (ue_tenant env) (map (sf_id \<circ> snd) prepared) ?b))
             (promise_all (\<lambda>(_, props). publication_result env 60 (withStatus ?b props) (uf_correlationId command)) prepared))"
        show "safe contents (\<lambda>w. Inr x = Inr () \<longrightarrow> all_mine ?fs w \<and> distinct (map sf_key ?fs) \<and> distinct (map sf_id ?fs)) ?rest batch_stands"
        proof (cases "distinct (map sf_key ?fs) \<and> distinct (map sf_id ?fs)")
          case False
          then show ?thesis by (intro safe_weaken[OF safe_false[of contents ?rest batch_stands]]) auto
        next
          case True
          have publish: "safe contents (\<lambda>w. all_mine ?fs w \<and> sent contents prepared w)
              (on_rows env 2 (files_publishBatch (ue_tenant env) (map (sf_id \<circ> snd) prepared) ?b))
              (\<lambda>r w. r = Inr () \<longrightarrow> (\<forall>f \<in> set ?fs. standing (withStatus ?b f) w))"
            by (rule safe_publishBatch[OF assms(1) own typed _ b]) (use True in simp_all)
          show ?thesis
            by (rule safe_then[OF safe_weaken[OF sending]], use True in simp, use True in simp, assumption,
                rule safe_then[OF safe_weaken[OF publish]], simp, assumption, rule safe_weaken[OF answers])
               (simp_all add: batch_stands_def)
        qed
      qed (simp add: batch_stands_def)
      show "safe contents (\<lambda>w. Inr p = Inr prepared \<and> ?P w)
        (thenE (on_rows env 1 (files_createBatch (ue_tenant env) (map snd p)))
         (thenE (catchE (thenE (each (\<lambda>(i, fp). upload_one env command i fp) (List.enumerate 1 p))
                               (throwIfAborted command (length p + 1)))
                  (\<lambda>e. thenE (each (cleanup_one env) (map snd p)) (throwE e)))
           (thenE (on_rows env 2 (files_publishBatch (ue_tenant env) (map (sf_id \<circ> snd) p) ?b))
             (promise_all (\<lambda>(_, props). publication_result env 60 (withStatus ?b props) (uf_correlationId command)) p)))) batch_stands"
        by (cases "p = prepared") (use run in \<open>simp_all add: safe_false\<close>)
    qed simp
  qed (simp add: batch_stands_def)
qed

end

end
