(* ===== verification/S3_Storage.thy ===== *)
theory S3_Storage
  imports Local_Storage
begin

text \<open>The S3 storage adapter (s3-storage.adapter.ts). The object service answers as the S3 API documents its commands: objects
  under a bucket and key with an ETag, deletion of what is not there succeeds, a copy may be made conditional on the ETag of
  its source. Any call may be refused, or done with its answer lost (\<open>sc_call\<close>), and other clients may act between the two
  calls of a finalize (\<open>sc_between\<close>). The digest behind an ETag and the two presigners of the SDK are parameters; retries of the
  SDK are within a call.\<close>

section \<open>The object service\<close>

record s3_object =
  so_body :: bytes
  so_contentType :: "string option"
  so_etag :: string

record s3_store =
  s3_buckets :: "string list"
  s3_objects :: "((string \<times> string) \<times> s3_object) list"

text \<open>What a rejected call throws: \<open>err.name\<close> and \<open>err.$metadata.httpStatusCode\<close>.\<close>

record s3_error =
  se_name :: "string option"
  se_status :: "int option"

definition s3_error_of :: "string \<Rightarrow> int \<Rightarrow> s3_error" where
  "s3_error_of name status = \<lparr> se_name = Some name, se_status = Some status \<rparr>"

datatype s3_call = Served | Refusing s3_error | Unheard s3_error

record s3_head_output =
  hd_etag :: "string option"
  hd_contentType :: "string option"
  hd_length :: "int option"

record s3_config =
  sc_bucket :: string
  sc_downloadUrlExpiresSeconds :: int
  sc_nowMs :: int
  sc_etag :: "bytes \<Rightarrow> string"
  sc_call :: "nat \<Rightarrow> s3_call"
  sc_between :: "s3_store \<Rightarrow> s3_store"
  sc_presignedPost :: "string \<Rightarrow> string \<Rightarrow> string \<Rightarrow> int \<Rightarrow> int \<Rightarrow> (string \<times> (string \<times> string) list) outcome"
  sc_signedUrl :: "string \<Rightarrow> string \<Rightarrow> int \<Rightarrow> string outcome"

type_synonym 'a s3_command = "s3_store \<Rightarrow> (s3_error + 'a) \<times> s3_store"

text \<open>\<open>client.send(command)\<close>, the n-th of an operation.\<close>

definition send :: "s3_config \<Rightarrow> nat \<Rightarrow> 'a s3_command \<Rightarrow> 'a s3_command" where
  "send cfg n command s =
     (case sc_call cfg n of
        Served \<Rightarrow> command s
      | Refusing e \<Rightarrow> (Inl e, s)
      | Unheard e \<Rightarrow> (Inl e, snd (command s)))"

definition no_bucket :: "string \<Rightarrow> s3_store \<Rightarrow> bool" where
  "no_bucket b s \<longleftrightarrow> b \<notin> set (s3_buckets s)"

definition stored_object :: "s3_store \<Rightarrow> string \<Rightarrow> string \<Rightarrow> s3_object option" where
  "stored_object s b k = (if no_bucket b s then None else map_of (s3_objects s) (b, k))"

definition put_object :: "s3_config \<Rightarrow> string \<Rightarrow> string \<Rightarrow> bytes \<Rightarrow> string option \<Rightarrow> s3_store \<Rightarrow> s3_store" where
  "put_object cfg b k body ct s =
     s \<lparr> s3_objects := AList.update (b, k) \<lparr> so_body = body, so_contentType = ct, so_etag = sc_etag cfg body \<rparr> (s3_objects s) \<rparr>"

definition HeadBucketCommand :: "string \<Rightarrow> unit s3_command" where
  "HeadBucketCommand b s = (if no_bucket b s then Inl (s3_error_of ''NotFound'' 404) else Inr (), s)"

definition CreateBucketCommand :: "string \<Rightarrow> unit s3_command" where
  "CreateBucketCommand b s =
     (if no_bucket b s then (Inr (), s \<lparr> s3_buckets := b # s3_buckets s \<rparr>)
      else (Inl (s3_error_of ''BucketAlreadyOwnedByYou'' 409), s))"

definition PutObjectCommand :: "s3_config \<Rightarrow> string \<Rightarrow> string \<Rightarrow> bytes \<Rightarrow> string \<Rightarrow> int \<Rightarrow> unit s3_command" where
  "PutObjectCommand cfg b k body contentType contentLength s =
     (if no_bucket b s then (Inl (s3_error_of ''NoSuchBucket'' 404), s)
      else if int (length body) \<noteq> contentLength then (Inl (s3_error_of ''IncompleteBody'' 400), s)
      else (Inr (), put_object cfg b k body (Some contentType) s))"

definition HeadObjectCommand :: "string \<Rightarrow> string \<Rightarrow> s3_head_output s3_command" where
  "HeadObjectCommand b k s =
     (case stored_object s b k of
        None \<Rightarrow> Inl (s3_error_of ''NotFound'' 404)
      | Some x \<Rightarrow> Inr \<lparr> hd_etag = Some (so_etag x), hd_contentType = so_contentType x, hd_length = Some (int (length (so_body x))) \<rparr>, s)"

text \<open>A range names its last byte, and no range lies in an empty object.\<close>

definition GetObjectCommand :: "string \<Rightarrow> string \<Rightarrow> nat option \<Rightarrow> bytes option s3_command" where
  "GetObjectCommand b k last_byte s =
     (if no_bucket b s then Inl (s3_error_of ''NoSuchBucket'' 404)
      else
        (case stored_object s b k of
           None \<Rightarrow> Inl (s3_error_of ''NoSuchKey'' 404)
         | Some x \<Rightarrow>
             (case last_byte of
                None \<Rightarrow> Inr (Some (so_body x))
              | Some n \<Rightarrow> if so_body x = [] then Inl (s3_error_of ''InvalidRange'' 416) else Inr (Some (take (n + 1) (so_body x))))), s)"

definition DeleteObjectCommand :: "string \<Rightarrow> string \<Rightarrow> unit s3_command" where
  "DeleteObjectCommand b k s =
     (if no_bucket b s then (Inl (s3_error_of ''NoSuchBucket'' 404), s)
      else (Inr (), s \<lparr> s3_objects := AList.delete (b, k) (s3_objects s) \<rparr>))"

text \<open>The service reads the source of a copy as a percent-encoded path: the bucket up to the first slash, then the key.\<close>

fun percent_bytes :: "string \<Rightarrow> nat list" where
  "percent_bytes [] = []"
| "percent_bytes (c # cs) =
     (if c = CHR ''%'' \<and> 2 \<le> length cs
      then (default_to 0 (digit_value (cs ! 0)) * 16 + default_to 0 (digit_value (cs ! 1))) # percent_bytes (drop 2 cs)
      else of_char c # percent_bytes cs)"

fun utf8_text :: "nat list \<Rightarrow> string" where
  "utf8_text [] = []"
| "utf8_text (n # ns) =
     (if n < 128 \<or> ns = [] then char_of n # utf8_text ns
      else char_of ((n - 192) * 64 + (hd ns - 128)) # utf8_text (tl ns))"

definition copy_source :: "string \<Rightarrow> string \<times> string" where
  "copy_source path =
     (utf8_text (percent_bytes (takeWhile (\<lambda>c. c \<noteq> CHR ''/'') path)),
      utf8_text (percent_bytes (drop 1 (dropWhile (\<lambda>c. c \<noteq> CHR ''/'') path))))"

definition CopyObjectCommand :: "s3_config \<Rightarrow> string \<Rightarrow> string \<Rightarrow> string \<Rightarrow> string \<Rightarrow> unit s3_command" where
  "CopyObjectCommand cfg b k copySource ifMatch s =
     (case copy_source copySource of
        (sb, sk) \<Rightarrow>
          if no_bucket b s then (Inl (s3_error_of ''NoSuchBucket'' 404), s)
          else
            (case stored_object s sb sk of
               None \<Rightarrow> (Inl (s3_error_of ''NoSuchKey'' 404), s)
             | Some x \<Rightarrow>
                 if so_etag x \<noteq> ifMatch then (Inl (s3_error_of ''PreconditionFailed'' 412), s)
                 else (Inr (), put_object cfg b k (so_body x) (so_contentType x) s)))"

section \<open>The adapter\<close>

definition CHECKSUM_MODES :: "string list" where
  "CHECKSUM_MODES = [''WHEN_SUPPORTED'', ''WHEN_REQUIRED'']"

definition DEFAULT_PRESIGN_EXPIRY_SECONDS :: int where
  "DEFAULT_PRESIGN_EXPIRY_SECONDS = 300"

definition ABSENT_BUCKET_CODES :: "string list" where
  "ABSENT_BUCKET_CODES = [''NotFound'', ''NoSuchBucket'']"

definition ABSENT_OBJECT_CODES :: "string list" where
  "ABSENT_OBJECT_CODES = [''NotFound'', ''NoSuchKey'']"

text \<open>A rejected call as the failure of an action; what the adapter's catch makes of it does not depend on the message.\<close>

definition sdk_failure :: "s3_error \<Rightarrow> failure" where
  "sdk_failure e = Internal (default_to ''Error'' (se_name e))"

definition call :: "s3_config \<Rightarrow> nat \<Rightarrow> 'a s3_command \<Rightarrow> (s3_store, 'a) action" where
  "call cfg n command s =
     (case send cfg n command s of (Inl e, s') \<Rightarrow> (Inl (sdk_failure e), s') | (Inr x, s') \<Rightarrow> (Inr x, s'))"

definition assertByteArray :: "bytes option \<Rightarrow> bytes outcome" where
  "assertByteArray body = (case body of None \<Rightarrow> Inl (Internal ''S3 GetObject returned no readable body'') | Some b \<Rightarrow> Inr b)"

definition assertStream :: "bytes option \<Rightarrow> bytes outcome" where
  "assertStream body = (case body of None \<Rightarrow> Inl (Internal ''S3 GetObject returned no streamable body'') | Some b \<Rightarrow> Inr b)"

text \<open>encodeURIComponent, in the Latin-1 range.\<close>

definition uri_char :: "char \<Rightarrow> string" where
  "uri_char c =
     (if is_alnum c \<or> c = CHR 0x27 \<or> c \<in> set ''-_.!~*()'' then [c]
      else concat (map (\<lambda>n. [CHR ''%'', upper_hex (n div 16), upper_hex (n mod 16)]) (utf8_bytes c)))"

definition encodeURIComponent :: "string \<Rightarrow> string" where
  "encodeURIComponent s = concat (map uri_char s)"

definition encodeCopySource :: "string \<Rightarrow> string \<Rightarrow> string" where
  "encodeCopySource bucket key = join_with ''/'' (map encodeURIComponent (bucket # split_on CHR ''/'' key))"

definition s3_target :: "s3_config \<Rightarrow> string option \<Rightarrow> string" where
  "s3_target cfg bucket = default_to (sc_bucket cfg) bucket"

definition s3_uploadStream :: "s3_config \<Rightarrow> string \<Rightarrow> bytes \<Rightarrow> stream_upload_options \<Rightarrow> (s3_store, file_result) action" where
  "s3_uploadStream cfg key body opts =
     failing_as upload_failure
       (if su_size opts \<le> 0 \<or> 2 ^ 53 - 1 < su_size opts
        then throwE (Internal ''Stream upload size must be a positive safe integer'')
        else if su_aborted opts then throwE (Internal ''AbortError'')
        else
          thenE (call cfg 0 (PutObjectCommand cfg (s3_target cfg (su_bucket opts)) key body
                   (default_to ''application/octet-stream'' (su_contentType opts)) (su_size opts)))
            (returnE \<lparr> fr_id = None, fr_key = key, fr_bucket = s3_target cfg (su_bucket opts), fr_size = su_size opts,
                       fr_status = None, fr_url = None \<rparr>))"

definition s3_presignUpload :: "s3_config \<Rightarrow> string \<Rightarrow> presign_options \<Rightarrow> (s3_store, presigned_upload) action" where
  "s3_presignUpload cfg key opts =
     (let bucket = s3_target cfg (po_bucket opts);
          expiresInSeconds = default_to DEFAULT_PRESIGN_EXPIRY_SECONDS (po_expiresInSeconds opts)
      in failing_as presign_failure
        (bindE (fromE (sc_presignedPost cfg bucket key (po_contentType opts) (po_maxBytes opts) expiresInSeconds)) (\<lambda>(url, fields).
           returnE
             \<lparr> pu_url = url, pu_fields = fields, pu_key = key, pu_bucket = bucket,
               pu_expiresAt = toISOString (sc_nowMs cfg + expiresInSeconds * 1000), pu_maxBytes = po_maxBytes opts \<rparr>)))"

definition s3_head_answer :: "string \<Rightarrow> s3_head_output \<Rightarrow> object_metadata outcome" where
  "s3_head_answer bucket res =
     (case hd_etag res of
        Some (c # cs) \<Rightarrow>
          Inr \<lparr> om_contentType = default_to ''application/octet-stream'' (hd_contentType res),
                om_size = default_to 0 (hd_length res), om_bucket = bucket, om_etag = c # cs \<rparr>
      | _ \<Rightarrow> Inl (Internal ''S3 HeadObject returned no ETag''))"

definition object_absent :: "s3_error \<Rightarrow> bool" where
  "object_absent e \<longleftrightarrow> se_status e = Some 404 \<or> se_name e \<in> Some ` set ABSENT_OBJECT_CODES"

definition s3_head :: "s3_config \<Rightarrow> string \<Rightarrow> string option \<Rightarrow> (s3_store, object_metadata option) action" where
  "s3_head cfg key bucket s =
     (case send cfg 0 (HeadObjectCommand (s3_target cfg bucket) key) s of
        (Inl e, s') \<Rightarrow> (if object_absent e then Inr None else Inl (storageFailure head_failure), s')
      | (Inr res, s') \<Rightarrow>
          (case s3_head_answer (s3_target cfg bucket) res of
             Inl _ \<Rightarrow> (Inl (storageFailure head_failure), s')
           | Inr m \<Rightarrow> (Inr (Some m), s')))"

definition s3_getSignedUrl :: "s3_config \<Rightarrow> string \<Rightarrow> int option \<Rightarrow> string option \<Rightarrow> (s3_store, string) action" where
  "s3_getSignedUrl cfg key expiresIn bucket =
     failing_as signedUrl_failure
       (fromE (sc_signedUrl cfg (s3_target cfg bucket) key (default_to (sc_downloadUrlExpiresSeconds cfg) expiresIn)))"

definition s3_delete_nth :: "s3_config \<Rightarrow> nat \<Rightarrow> string \<Rightarrow> string option \<Rightarrow> (s3_store, unit) action" where
  "s3_delete_nth cfg n key bucket =
     failing_as delete_failure (call cfg n (DeleteObjectCommand (s3_target cfg bucket) key))"

definition s3_delete :: "s3_config \<Rightarrow> string \<Rightarrow> string option \<Rightarrow> (s3_store, unit) action" where
  "s3_delete cfg = s3_delete_nth cfg 0"

definition s3_finalize :: "s3_config \<Rightarrow> string \<Rightarrow> string \<Rightarrow> string \<Rightarrow> string option \<Rightarrow> (s3_store, unit) action" where
  "s3_finalize cfg sourceKey finalKey expectedEtag bucket =
     (let b = s3_target cfg bucket
      in thenE (failing_as finalize_failure (call cfg 0 (CopyObjectCommand cfg b finalKey (encodeCopySource b sourceKey) expectedEtag)))
           (\<lambda>s. quietly (s3_delete_nth cfg 1 sourceKey (Some b)) (sc_between cfg s)))"

definition s3_readRange :: "s3_config \<Rightarrow> string \<Rightarrow> nat \<Rightarrow> string option \<Rightarrow> (s3_store, bytes) action" where
  "s3_readRange cfg key byteCount bucket =
     failing_as readRange_failure
       (bindE (call cfg 0 (GetObjectCommand (s3_target cfg bucket) key (Some (byteCount - 1)))) (\<lambda>body. fromE (assertByteArray body)))"

definition s3_readStream :: "s3_config \<Rightarrow> string \<Rightarrow> string option \<Rightarrow> (s3_store, bytes) action" where
  "s3_readStream cfg key bucket =
     failing_as readStream_failure
       (bindE (call cfg 0 (GetObjectCommand (s3_target cfg bucket) key None)) (\<lambda>body. fromE (assertStream body)))"

definition s3_port :: "s3_config \<Rightarrow> s3_store storage_port" where
  "s3_port cfg =
     \<lparr> st_uploadStream = s3_uploadStream cfg, st_presignUpload = s3_presignUpload cfg, st_head = s3_head cfg,
       st_getSignedUrl = s3_getSignedUrl cfg, st_delete = s3_delete cfg, st_finalize = s3_finalize cfg,
       st_readRange = s3_readRange cfg, st_readStream = s3_readStream cfg \<rparr>"

section \<open>Starting up\<close>

definition requireConfig :: "bool \<Rightarrow> (string \<Rightarrow> string option) \<Rightarrow> string \<Rightarrow> string \<Rightarrow> string outcome" where
  "requireConfig production config key devDefault =
     (case config key of
        Some (c # cs) \<Rightarrow> Inr (c # cs)
      | _ \<Rightarrow>
          if production then Inl (Internal (''StorageModule: required env var \"'' @ key @ ''\" is not set''))
          else Inr devDefault)"

definition resolveChecksumMode :: "(string \<Rightarrow> string option) \<Rightarrow> string outcome" where
  "resolveChecksumMode config =
     (case map_option trim (config ''STORAGE_CHECKSUM_MODE'') of
        Some (c # cs) \<Rightarrow>
          if c # cs \<in> set CHECKSUM_MODES then Inr (c # cs)
          else Inl (Internal (''StorageModule: STORAGE_CHECKSUM_MODE must be one of '' @ join_with '', '' CHECKSUM_MODES))
      | _ \<Rightarrow> Inr ''WHEN_SUPPORTED'')"

record s3_settings =
  s3s_endpoint :: string
  s3s_publicEndpoint :: string
  s3s_bucket :: string
  s3s_region :: string
  s3s_accessKeyId :: string
  s3s_secretAccessKey :: string
  s3s_forcePathStyle :: bool
  s3s_checksumMode :: string

text \<open>The constructor; the clients of the SDK are made from these settings.\<close>

definition s3_construct :: "bool \<Rightarrow> (string \<Rightarrow> string option) \<Rightarrow> s3_settings outcome" where
  "s3_construct production config =
     (case requireConfig production config ''STORAGE_ENDPOINT'' ''http://localhost:9000'' of Inl e \<Rightarrow> Inl e | Inr endpoint \<Rightarrow>
     (case requireConfig production config ''STORAGE_BUCKET'' ''uploads'' of Inl e \<Rightarrow> Inl e | Inr bucket \<Rightarrow>
     (case requireConfig production config ''STORAGE_REGION'' ''us-east-1'' of Inl e \<Rightarrow> Inl e | Inr region \<Rightarrow>
     (case requireConfig production config ''STORAGE_ACCESS_KEY'' ''minioadmin'' of Inl e \<Rightarrow> Inl e | Inr access \<Rightarrow>
     (case requireConfig production config ''STORAGE_SECRET_KEY'' ''minioadmin'' of Inl e \<Rightarrow> Inl e | Inr secret \<Rightarrow>
     (case resolveChecksumMode config of Inl e \<Rightarrow> Inl e | Inr mode \<Rightarrow>
        Inr \<lparr> s3s_endpoint = endpoint,
              s3s_publicEndpoint = (case config ''STORAGE_PUBLIC_ENDPOINT'' of Some (c # cs) \<Rightarrow> c # cs | _ \<Rightarrow> endpoint),
              s3s_bucket = bucket, s3s_region = region, s3s_accessKeyId = access, s3s_secretAccessKey = secret,
              s3s_forcePathStyle = (config ''STORAGE_FORCE_PATH_STYLE'' \<noteq> Some ''false''),
              s3s_checksumMode = mode \<rparr>))))))"

definition handleStartupFailure :: "bool \<Rightarrow> string \<Rightarrow> string \<Rightarrow> (s3_store, unit) action" where
  "handleStartupFailure production bucket message =
     (if production then throwE (Internal (''StorageModule: '' @ message @ '' for \"'' @ bucket @ ''\"'')) else returnE ())"

definition bucket_absent :: "s3_error \<Rightarrow> bool" where
  "bucket_absent e \<longleftrightarrow> se_status e = Some 404 \<or> se_name e \<in> Some ` set ABSENT_BUCKET_CODES"

definition onModuleInit :: "s3_config \<Rightarrow> bool \<Rightarrow> (s3_store, unit) action" where
  "onModuleInit cfg production s =
     (case send cfg 0 (HeadBucketCommand (sc_bucket cfg)) s of
        (Inr _, s') \<Rightarrow> (Inr (), s')
      | (Inl e, s') \<Rightarrow>
          if \<not> bucket_absent e
          then handleStartupFailure production (sc_bucket cfg)
                 (''Bucket head check failed'' @
                  (case se_status e of None \<Rightarrow> [] | Some n \<Rightarrow> '' (status='' @ signed_int_text n @ '')'')) s'
          else if production
          then (Inl (Internal (''Storage bucket \"'' @ sc_bucket cfg @ ''\" does not exist; provision it outside the application'')), s')
          else
            (case send cfg 1 (CreateBucketCommand (sc_bucket cfg)) s' of
               (Inr _, s'') \<Rightarrow> (Inr (), s'')
             | (Inl e, s'') \<Rightarrow>
                 if se_name e \<in> {Some ''BucketAlreadyOwnedByYou'', Some ''BucketAlreadyExists''} then (Inr (), s'')
                 else handleStartupFailure production (sc_bucket cfg) ''Failed to create storage bucket'' s''))"

text \<open>In production a start never creates a bucket, and it fails unless the service confirmed the bucket.\<close>

lemma production_start:
  assumes "onModuleInit cfg True s = (r, s')"
  shows "s' = s" and "r = Inr () \<Longrightarrow> \<not> no_bucket (sc_bucket cfg) s"
proof -
  obtain x t where h: "send cfg 0 (HeadBucketCommand (sc_bucket cfg)) s = (x, t)" by force
  have t: "t = s" "x = Inr () \<Longrightarrow> \<not> no_bucket (sc_bucket cfg) s"
    using h by (cases "sc_call cfg 0"; auto simp: send_def HeadBucketCommand_def split: if_splits)+
  have "s' = s \<and> (r = Inr () \<longrightarrow> x = Inr ())"
  proof (cases x)
    case (Inl e)
    then show ?thesis using assms t(1)
      by (cases "bucket_absent e") (auto simp: onModuleInit_def h handleStartupFailure_def throwE_def)
  next
    case (Inr u)
    then show ?thesis using assms t(1) by (simp add: onModuleInit_def h)
  qed
  then show "s' = s" "r = Inr () \<Longrightarrow> \<not> no_bucket (sc_bucket cfg) s" using t(2) by simp_all
qed

section \<open>Contents\<close>

definition s3_contents :: "s3_store \<Rightarrow> string \<Rightarrow> string \<Rightarrow> bytes option" where
  "s3_contents s b k = map_option so_body (stored_object s b k)"

lemma digit_upper_hex: "n < 16 \<Longrightarrow> digit_value (upper_hex n) = Some n"
  by (cases "n < 10") (simp_all add: upper_hex_def digit_value_def is_digit_def is_lower_def is_alnum_def)

lemma utf8_small: "n \<in> set (utf8_bytes c) \<Longrightarrow> n < 256"
  using char_code_less [of c] less_mult_imp_div_less [of "of_char c" 4 64]
  by (auto simp: utf8_bytes_def Let_def split: if_splits)

lemma percent_encoded:
  "\<forall>n \<in> set ns. n < 256 \<Longrightarrow>
     percent_bytes (concat (map (\<lambda>n. [CHR ''%'', upper_hex (n div 16), upper_hex (n mod 16)]) ns) @ rest) = ns @ percent_bytes rest"
  by (induction ns) (auto simp: digit_upper_hex default_to_def)

lemma percent_plain: "c \<noteq> CHR ''%'' \<Longrightarrow> percent_bytes (c # cs) = of_char c # percent_bytes cs"
  by simp

lemma percent_uri: "percent_bytes (uri_char c @ rest) = utf8_bytes c @ percent_bytes rest"
proof (cases "is_alnum c \<or> c = CHR 0x27 \<or> c \<in> set ''-_.!~*()''")
  case True
  then have "(of_char c :: nat) < 128 \<and> c \<noteq> CHR ''%''"
    by (auto simp: is_alnum_def is_digit_def is_lower_def)
  then show ?thesis using True by (simp add: uri_char_def utf8_bytes_def Let_def)
next
  case False
  then show ?thesis using percent_encoded [of "utf8_bytes c" rest] utf8_small [of _ c] by (simp add: uri_char_def)
qed

lemma percent_component: "percent_bytes (encodeURIComponent s) = concat (map utf8_bytes s)"
  using percent_uri by (induction s) (simp_all add: encodeURIComponent_def)

lemma utf8_decoded: "utf8_text (utf8_bytes c @ ns) = c # utf8_text ns"
proof (cases "(of_char c :: nat) < 128")
  case False
  have "(192 + of_char c div 64 - 192) * 64 + (128 + of_char c mod 64 - 128) = (of_char c :: nat)" by simp
  then show ?thesis using False by (simp add: utf8_bytes_def Let_def)
qed (simp add: utf8_bytes_def Let_def)

lemma decode_component: "utf8_text (percent_bytes (encodeURIComponent s)) = s"
  unfolding percent_component by (induction s) (simp_all add: utf8_decoded)

lemma upper_hex_no_slash: "n < 16 \<Longrightarrow> upper_hex n \<noteq> CHR ''/''"
  by (cases "n < 10") (auto simp: upper_hex_def dest: arg_cong [where f = "of_char :: char \<Rightarrow> nat"])

lemma uri_no_slash: "CHR ''/'' \<notin> set (uri_char c)"
proof -
  have "CHR ''/'' \<noteq> upper_hex (n div 16)" "CHR ''/'' \<noteq> upper_hex (n mod 16)" if "n < 256" for n
    using upper_hex_no_slash [of "n div 16"] upper_hex_no_slash [of "n mod 16"] less_mult_imp_div_less [of n 16 16] that by auto
  then show ?thesis using utf8_small [of _ c]
    by (auto simp: uri_char_def is_alnum_def is_digit_def is_lower_def)
qed

lemma component_no_slash: "CHR ''/'' \<notin> set (encodeURIComponent s)"
  using uri_no_slash by (auto simp: encodeURIComponent_def)

lemma percent_append:
  "percent_bytes (encodeURIComponent s @ CHR ''/'' # rest) = concat (map utf8_bytes s) @ 47 # percent_bytes rest"
  using percent_uri by (induction s) (simp_all add: encodeURIComponent_def)

lemma utf8_slash: "utf8_bytes CHR ''/'' = [47]"
  by (simp add: utf8_bytes_def)

lemma percent_path:
  "percent_bytes (join_with ''/'' (map encodeURIComponent ws)) = concat (map utf8_bytes (join_with ''/'' ws))"
proof (induction ws)
  case (Cons w ws)
  then show ?case
    by (cases ws) (simp_all add: percent_component percent_append utf8_slash)
qed simp

text \<open>Whatever the bucket and the key, the service reads the copy source the adapter writes as that bucket and key.\<close>

lemma copy_source_roundtrip: "copy_source (encodeCopySource b k) = (b, k)"
proof -
  obtain w ws where w: "split_on CHR ''/'' k = w # ws" using split_on_not_Nil by (cases "split_on CHR ''/'' k") auto
  have path: "encodeCopySource b k = encodeURIComponent b @ CHR ''/'' # join_with ''/'' (map encodeURIComponent (w # ws))"
    by (simp add: encodeCopySource_def w)
  have "utf8_text (concat (map utf8_bytes t)) = t" for t by (induction t) (simp_all add: utf8_decoded)
  then have key: "utf8_text (percent_bytes (join_with ''/'' (map encodeURIComponent (w # ws)))) = k"
    unfolding percent_path w [symmetric] join_split by simp
  have "takeWhile (\<lambda>c. c \<noteq> CHR ''/'') (encodeCopySource b k) = encodeURIComponent b"
    "dropWhile (\<lambda>c. c \<noteq> CHR ''/'') (encodeCopySource b k) = CHR ''/'' # join_with ''/'' (map encodeURIComponent (w # ws))"
    unfolding path using component_no_slash [of b]
    by (subst takeWhile_append2 dropWhile_append2; auto)+
  then show ?thesis using key decode_component [of b] by (simp add: copy_source_def)
qed

section \<open>The laws of the port\<close>

definition s3_alone :: "s3_config \<Rightarrow> s3_config" where
  "s3_alone cfg = cfg \<lparr> sc_between := \<lambda>s. s \<rparr>"

lemma no_bucket_objects [simp]: "no_bucket b (s \<lparr> s3_objects := x \<rparr>) \<longleftrightarrow> no_bucket b s"
  by (simp add: no_bucket_def)

lemma contents_put:
  "s3_contents (put_object cfg b k body ct s) b' k' =
     (if (b', k') = (b, k) \<and> \<not> no_bucket b s then Some body else s3_contents s b' k')"
  by (auto simp: s3_contents_def stored_object_def put_object_def map_of_AList_update)

lemma contents_deleted:
  "s3_contents (s \<lparr> s3_objects := AList.delete (b, k) (s3_objects s) \<rparr>) b' k' =
     (if (b', k') = (b, k) then None else s3_contents s b' k')"
  by (auto simp: s3_contents_def stored_object_def AList.delete_conv')

lemmas s3_commands = PutObjectCommand_def HeadObjectCommand_def GetObjectCommand_def DeleteObjectCommand_def CopyObjectCommand_def

text \<open>What a call leaves behind is the store or what the command made of it.\<close>

lemma send_state: "snd (send cfg n c s) = s \<or> snd (send cfg n c s) = snd (c s)"
  by (simp add: send_def split: s3_call.split)

lemma send_served: "send cfg n c s = (Inr x, s') \<Longrightarrow> c s = (Inr x, s')"
  by (simp add: send_def split: s3_call.splits)

lemma call_state: "snd (call cfg n c s) = snd (send cfg n c s)"
  by (simp add: call_def split: prod.split sum.split)

lemma call_served: "fst (call cfg n c s) = Inr x \<Longrightarrow> c s = (Inr x, snd (call cfg n c s))"
  by (auto simp: call_def dest!: send_served split: prod.splits sum.splits)

lemma failing_state [simp]: "snd (failing_as f m s) = snd (m s)"
  by (simp add: failing_as_def catchE_def throwE_def split: prod.split sum.split)

lemma failing_succeeds [simp]: "fst (failing_as f m s) = Inr x \<longleftrightarrow> fst (m s) = Inr x"
  by (simp add: failing_as_def catchE_def throwE_def split: prod.split sum.split)

lemma deleted_contents:
  "s3_contents (snd (DeleteObjectCommand b k s)) b' k' = (if (b', k') = (b, k) then None else s3_contents s b' k')"
proof (cases "no_bucket b s")
  case True
  then show ?thesis by (auto simp: DeleteObjectCommand_def s3_contents_def stored_object_def)
next
  case False
  then show ?thesis using contents_deleted [of b k s b' k'] by (simp add: DeleteObjectCommand_def)
qed

lemma delete_contents:
  "s3_contents (snd (s3_delete_nth cfg n k ob s)) b' k' =
     (if (b', k') = (s3_target cfg ob, k) \<and> snd (s3_delete_nth cfg n k ob s) \<noteq> s then None else s3_contents s b' k')"
  using send_state [of cfg n "DeleteObjectCommand (s3_target cfg ob) k" s]
  by (auto simp: s3_delete_nth_def deleted_contents call_state)

lemma copy_frame:
  assumes "(b', k') \<noteq> (b, k)"
  shows "s3_contents (snd (CopyObjectCommand cfg b k src etag s)) b' k' = s3_contents s b' k'"
  using assms by (auto simp: CopyObjectCommand_def contents_put split: prod.split option.split)

lemma put_frame:
  assumes "(b', k') \<noteq> (b, k)"
  shows "s3_contents (snd (PutObjectCommand cfg b k body ct n s)) b' k' = s3_contents s b' k'"
  using assms by (auto simp: PutObjectCommand_def contents_put)

lemma send_frame:
  "s3_contents (snd (c s)) b k = s3_contents s b k \<Longrightarrow> s3_contents (snd (send cfg n c s)) b k = s3_contents s b k"
  using send_state [of cfg n c s] by auto

lemma quietly_state [simp]: "snd (quietly m s) = snd (m s)"
  by (simp add: quietly_def catchE_def returnE_def split: prod.split sum.split)

lemma finalize_state:
  "snd (s3_finalize cfg src dst etag ob s) =
     (let b = s3_target cfg ob; t = snd (call cfg 0 (CopyObjectCommand cfg b dst (encodeCopySource b src) etag) s)
      in if fst (call cfg 0 (CopyObjectCommand cfg b dst (encodeCopySource b src) etag) s) = Inr ()
         then snd (s3_delete_nth cfg 1 src (Some b) (sc_between cfg t)) else t)"
  by (auto simp: s3_finalize_def Let_def thenE_def bindE_def failing_as_def catchE_def throwE_def  split: prod.splits sum.splits)

lemma uploaded_contents:
  assumes "fst (s3_uploadStream cfg k body opts s) = Inr res"
  shows "s3_contents (snd (s3_uploadStream cfg k body opts s)) (s3_target cfg (su_bucket opts)) k = Some body"
proof -
  let ?put = "PutObjectCommand cfg (s3_target cfg (su_bucket opts)) k body
                (default_to ''application/octet-stream'' (su_contentType opts)) (su_size opts)"
  obtain r t where c: "call cfg 0 ?put s = (r, t)" by force
  have e: "s3_uploadStream cfg k body opts s = (Inr res, t) \<and> r = Inr ()"
    using assms c unfolding s3_uploadStream_def
    by (auto simp: failing_as_def catchE_def thenE_def bindE_def throwE_def returnE_def split: if_splits sum.splits)
  then have "?put s = (Inr (), t)" using call_served [of cfg 0 ?put s "()"] c by simp
  then have "s3_contents t (s3_target cfg (su_bucket opts)) k = Some body"
    by (auto simp: PutObjectCommand_def contents_put split: if_splits)
  then show ?thesis using e by simp
qed

lemma range_contents:
  assumes "0 < n" "fst (s3_readRange cfg k n ob s) = Inr h"
  shows "\<exists>b. s3_contents s (s3_target cfg ob) k = Some b \<and> h = take n b"
proof -
  let ?get = "GetObjectCommand (s3_target cfg ob) k (Some (n - 1))"
  obtain r t where c: "call cfg 0 ?get s = (r, t)" by force
  obtain body where body: "r = Inr body" "assertByteArray body = Inr h"
    using assms(2) c unfolding s3_readRange_def by (auto simp: bindE_def fromE_def split: sum.splits)
  have "?get s = (Inr body, t)" using call_served [of cfg 0 ?get s body] c body(1) by simp
  then show ?thesis using body(2) assms(1)
    by (auto simp: GetObjectCommand_def s3_contents_def assertByteArray_def split: if_splits option.splits)
qed

lemma stream_contents:
  assumes "fst (s3_readStream cfg k ob s) = Inr body"
  shows "s3_contents s (s3_target cfg ob) k = Some body"
proof -
  let ?get = "GetObjectCommand (s3_target cfg ob) k None"
  obtain r t where c: "call cfg 0 ?get s = (r, t)" by force
  obtain b where body: "r = Inr b" "assertStream b = Inr body"
    using assms c unfolding s3_readStream_def by (auto simp: bindE_def fromE_def split: sum.splits)
  have "?get s = (Inr b, t)" using call_served [of cfg 0 ?get s b] c body(1) by simp
  then show ?thesis using body(2)
    by (auto simp: GetObjectCommand_def s3_contents_def assertStream_def split: if_splits option.splits)
qed

lemma s3_reads:
  "snd (s3_head cfg k ob s) = s" "snd (s3_presignUpload cfg k po s) = s" "snd (s3_getSignedUrl cfg k ex ob s) = s"
  "snd (s3_readRange cfg k n ob s) = s" "snd (s3_readStream cfg k ob s) = s"
proof -
  have get: "snd (send cfg i (GetObjectCommand b k r) s) = s" for i b r
    using send_state [of cfg i "GetObjectCommand b k r" s] by (auto simp: GetObjectCommand_def)
  have head: "snd (send cfg i (HeadObjectCommand b k) s) = s" for i b
    using send_state [of cfg i "HeadObjectCommand b k" s] by (auto simp: HeadObjectCommand_def)
  show "snd (s3_readRange cfg k n ob s) = s" "snd (s3_readStream cfg k ob s) = s"
    using get call_state [of cfg 0 "GetObjectCommand (s3_target cfg ob) k (Some (n - 1))" s]
      call_state [of cfg 0 "GetObjectCommand (s3_target cfg ob) k None" s]
    by (auto simp: s3_readRange_def s3_readStream_def bindE_def fromE_def split: prod.split sum.split)
  show "snd (s3_head cfg k ob s) = s"
    using head [of 0 "s3_target cfg ob"] by (auto simp: s3_head_def split: prod.split sum.split)
  show "snd (s3_presignUpload cfg k po s) = s" "snd (s3_getSignedUrl cfg k ex ob s) = s"
    by (simp_all add: s3_presignUpload_def s3_getSignedUrl_def Let_def bindE_def fromE_def returnE_def split: sum.split)
qed

lemma upload_state:
  "snd (s3_uploadStream cfg k body opts s) = s \<or>
   snd (s3_uploadStream cfg k body opts s) =
     snd (send cfg 0 (PutObjectCommand cfg (s3_target cfg (su_bucket opts)) k body
            (default_to ''application/octet-stream'' (su_contentType opts)) (su_size opts)) s)"
  unfolding call_state [symmetric]
  by (auto simp: s3_uploadStream_def thenE_def bindE_def throwE_def returnE_def split: prod.split sum.split)

interpretation s3_files: storage_provider "s3_port (s3_alone cfg)" s3_contents "s3_target cfg"
proof
  have tb: "s3_target (s3_alone cfg) ob = s3_target cfg ob" for ob
    by (simp add: s3_target_def s3_alone_def)
  show "s3_target cfg (Some b) = b" for b by (simp add: s3_target_def default_to_def)
  show "s3_contents (snd (st_head (s3_port (s3_alone cfg)) k ob s)) = s3_contents s"
    "s3_contents (snd (st_presignUpload (s3_port (s3_alone cfg)) k po s)) = s3_contents s"
    "s3_contents (snd (st_getSignedUrl (s3_port (s3_alone cfg)) k ex ob s)) = s3_contents s"
    "s3_contents (snd (st_readRange (s3_port (s3_alone cfg)) k n ob s)) = s3_contents s"
    "s3_contents (snd (st_readStream (s3_port (s3_alone cfg)) k ob s)) = s3_contents s" for k ob s po ex n
    by (simp_all add: s3_port_def s3_reads)
  show "\<exists>b. s3_contents s (s3_target cfg ob) k = Some b \<and> h = take n b"
    if "0 < n" "fst (st_readRange (s3_port (s3_alone cfg)) k n ob s) = Inr h" for k n ob s h
    using range_contents [of n "s3_alone cfg" k ob s h] that by (simp add: s3_port_def tb)
  show "s3_contents s (s3_target cfg ob) k = Some body"
    if "fst (st_readStream (s3_port (s3_alone cfg)) k ob s) = Inr body" for k ob s body
    using stream_contents [of "s3_alone cfg" k ob s body] that by (simp add: s3_port_def tb)
  show "s3_contents (snd (st_delete (s3_port (s3_alone cfg)) k ob s)) b k' = s3_contents s b k'"
    if "(b, k') \<noteq> (s3_target cfg ob, k)" for b k' k ob s
    using delete_contents [of "s3_alone cfg" 0 k ob s b k'] that by (auto simp: s3_port_def s3_delete_def tb)
  show "s3_contents (snd (st_delete (s3_port (s3_alone cfg)) k ob s)) (s3_target cfg ob) k = None"
    if "fst (st_delete (s3_port (s3_alone cfg)) k ob s) = Inr ()" for k ob s
  proof -
    have "DeleteObjectCommand (s3_target cfg ob) k s = (Inr (), snd (s3_delete (s3_alone cfg) k ob s))"
      using that call_served [of "s3_alone cfg" 0 "DeleteObjectCommand (s3_target cfg ob) k" s "()"]
      by (simp add: s3_port_def s3_delete_def s3_delete_nth_def tb)
    then show ?thesis using deleted_contents [of "s3_target cfg ob" k s "s3_target cfg ob" k] by (simp add: s3_port_def)
  qed
  show "s3_contents (snd (st_delete (s3_port (s3_alone cfg)) k ob s)) b k' = None"
    if "s3_contents s b k' = None" for b k' k ob s
    using delete_contents [of "s3_alone cfg" 0 k ob s b k'] that by (auto simp: s3_port_def s3_delete_def)
  show "s3_contents (snd (st_finalize (s3_port (s3_alone cfg)) src dst etag ob s)) b k' = s3_contents s b k'"
    if "(b, k') \<noteq> (s3_target cfg ob, src)" "(b, k') \<noteq> (s3_target cfg ob, dst)" for b k' src dst etag ob s
    using that send_frame [of "CopyObjectCommand (s3_alone cfg) (s3_target cfg ob) dst (encodeCopySource (s3_target cfg ob) src) etag"
        s b k' "s3_alone cfg" 0, OF copy_frame [OF that(2)]]
      delete_contents [of "s3_alone cfg" 1 src "Some (s3_target cfg ob)"]
    by (auto simp: call_state s3_port_def finalize_state Let_def tb s3_alone_def s3_target_def default_to_def)
  show "s3_contents (snd (st_uploadStream (s3_port (s3_alone cfg)) k body opts s)) b k' = s3_contents s b k'"
    if "(b, k') \<noteq> (s3_target cfg (su_bucket opts), k)" for b k' k body opts s
    using send_frame [of "PutObjectCommand (s3_alone cfg) (s3_target cfg (su_bucket opts)) k body
        (default_to ''application/octet-stream'' (su_contentType opts)) (su_size opts)" s b k' "s3_alone cfg" 0, OF put_frame [OF that]]
      upload_state [of "s3_alone cfg" k body opts s] by (auto simp: s3_port_def tb)
  show "s3_contents (snd (st_uploadStream (s3_port (s3_alone cfg)) k body opts s)) (s3_target cfg (su_bucket opts)) k = Some body"
    if "fst (st_uploadStream (s3_port (s3_alone cfg)) k body opts s) = Inr res" for k body opts s res
    using uploaded_contents [of "s3_alone cfg" k body opts s res] that by (simp add: s3_port_def tb)
qed

section \<open>Finalizing\<close>

lemma copied:
  assumes "CopyObjectCommand cfg b dst (encodeCopySource b src) etag s = (r, t)"
  shows "r = Inr () \<Longrightarrow> \<exists>x. stored_object s b src = Some x \<and> so_etag x = etag \<and> s3_contents t b dst = Some (so_body x)"
    and "r \<noteq> Inr () \<Longrightarrow> t = s"
  using assms by (auto simp: CopyObjectCommand_def copy_source_roundtrip contents_put split: if_splits option.splits)

lemma finalize_answer:
  "fst (s3_finalize cfg src dst etag ob s) = Inr () \<longleftrightarrow>
     fst (call cfg 0 (CopyObjectCommand cfg (s3_target cfg ob) dst (encodeCopySource (s3_target cfg ob) src) etag) s) = Inr ()"
  by (auto simp: s3_finalize_def Let_def thenE_def bindE_def failing_as_def catchE_def throwE_def quietly_def returnE_def
      split: prod.splits sum.splits)

text \<open>C26. On S3 too, finalizing publishes exactly the confirmed version. Whatever others do between the copy and the deletion of
  the staged object, as long as the fresh final key is its own, and whichever of the two calls fails: success means that
  the final key holds the bytes the staged object had under the confirmed ETag; the final key never holds anything else than
  that or what it held before, even when the answer to the copy is lost; and a failure whose answer was not lost changes nothing.\<close>

theorem s3_finalize_publishes_confirmed_version:
  assumes run: "s3_finalize cfg src dst etag ob s = (r, s')" and keys: "src \<noteq> dst"
    and alone: "\<And>t. s3_contents (sc_between cfg t) (s3_target cfg ob) dst = s3_contents t (s3_target cfg ob) dst"
  defines "confirmed \<equiv> (\<exists>x. stored_object s (s3_target cfg ob) src = Some x \<and> so_etag x = etag \<and>
                            s3_contents s' (s3_target cfg ob) dst = Some (so_body x))"
  shows "(r = Inr () \<longrightarrow> confirmed)
       \<and> (s3_contents s' (s3_target cfg ob) dst = s3_contents s (s3_target cfg ob) dst \<or> confirmed)
       \<and> (r \<noteq> Inr () \<and> (\<forall>e. sc_call cfg 0 \<noteq> Unheard e) \<longrightarrow> s' = s)"
proof -
  let ?b = "s3_target cfg ob"
  let ?copy = "CopyObjectCommand cfg ?b dst (encodeCopySource ?b src) etag"
  obtain rc t where c: "?copy s = (rc, t)" by force
  note copy = copied [OF c]
  show ?thesis
  proof (cases "fst (call cfg 0 ?copy s) = Inr ()")
    case True
    have served: "rc = Inr ()" "snd (call cfg 0 ?copy s) = t"
      using call_served [OF True] c by simp_all
    have "s' = snd (s3_delete_nth cfg 1 src (Some ?b) (sc_between cfg t))"
      using finalize_state [of cfg src dst etag ob s] run True served by (simp add: Let_def)
    then have "s3_contents s' ?b dst = s3_contents t ?b dst"
      using delete_contents [of cfg 1 src "Some ?b" "sc_between cfg t" ?b dst] keys alone by auto
    then show ?thesis using copy(1) [OF served(1)] finalize_answer [of cfg src dst etag ob s] True run
      unfolding confirmed_def by auto
  next
    case False
    have r: "r \<noteq> Inr ()" using finalize_answer [of cfg src dst etag ob s] False run by simp
    have s': "s' = snd (send cfg 0 ?copy s)"
      using finalize_state [of cfg src dst etag ob s] run False by (simp add: Let_def call_state)
    have "s' = s \<or> (\<exists>e. sc_call cfg 0 = Unheard e) \<and> s' = t"
      using s' c copy(2) False by (cases "sc_call cfg 0") (auto simp: send_def call_def split: sum.splits)
    moreover have "t = s \<or> (\<exists>x. stored_object s ?b src = Some x \<and> so_etag x = etag \<and> s3_contents t ?b dst = Some (so_body x))"
      using copy by blast
    ultimately show ?thesis using r unfolding confirmed_def by auto
  qed
qed

definition example_s3 :: s3_config where
  "example_s3 =
     \<lparr> sc_bucket = ''files'', sc_downloadUrlExpiresSeconds = 3600, sc_nowMs = 0, sc_etag = (\<lambda>b. if b = [1] then ''one'' else ''other''),
       sc_call = (\<lambda>n. if n = 1 then Refusing (s3_error_of ''SlowDown'' 503) else Served),
       sc_between = (\<lambda>s. put_object
         \<lparr> sc_bucket = [], sc_downloadUrlExpiresSeconds = 0, sc_nowMs = 0, sc_etag = (\<lambda>_. ''other''), sc_call = (\<lambda>_. Served),
            sc_between = (\<lambda>s. s), sc_presignedPost = (\<lambda>_ _ _ _ _. Inr ([], [])), sc_signedUrl = (\<lambda>_ _ _. Inr []) \<rparr>
         ''files'' ''uploads/u/a b.gif'' [2] None s),
       sc_presignedPost = (\<lambda>_ _ _ _ _. Inr ([], [])), sc_signedUrl = (\<lambda>_ _ _. Inr []) \<rparr>"

definition example_objects :: s3_store where
  "example_objects =
     \<lparr> s3_buckets = [''files''],
       s3_objects = [((''files'', ''uploads/u/a b.gif''), \<lparr> so_body = [1], so_contentType = Some ''image/gif'', so_etag = ''one'' \<rparr>)] \<rparr>"

theorem s3_finalize_publishes_confirmed_version_witness:
  "s3_contents (snd (s3_finalize example_s3 ''uploads/u/a b.gif'' ''files/u/1'' ''one'' None example_objects)) ''files'' ''files/u/1'' = Some [1]
   \<and> s3_contents (snd (s3_finalize example_s3 ''uploads/u/a b.gif'' ''files/u/1'' ''one'' None example_objects)) ''files'' ''uploads/u/a b.gif''
       = Some [2]"
proof -
  have run: "fst (s3_finalize example_s3 ''uploads/u/a b.gif'' ''files/u/1'' ''one'' None example_objects) = Inr ()"
    "s3_contents (snd (s3_finalize example_s3 ''uploads/u/a b.gif'' ''files/u/1'' ''one'' None example_objects)) ''files'' ''uploads/u/a b.gif''
       = Some [2]"
    "s3_target example_s3 None = ''files''"
    "map_option so_body (stored_object example_objects ''files'' ''uploads/u/a b.gif'') = Some [1]"
    by code_simp+
  have "s3_contents (sc_between example_s3 t) (s3_target example_s3 None) ''files/u/1'' =
        s3_contents t (s3_target example_s3 None) ''files/u/1''" for t
    by (simp add: example_s3_def contents_put)
  then show ?thesis
    using s3_finalize_publishes_confirmed_version
        [of example_s3 "''uploads/u/a b.gif''" "''files/u/1''" "''one''" None example_objects, OF prod.collapse [symmetric]] run
    by auto
qed

end
