(* ===== verification/Upload_Properties.thy ===== *)
theory Upload_Properties
  imports Upload_Safety S3_Storage
begin

text \<open>The properties of the upload handlers, over any storage port and then on the two adapters: what every request leaves of
  the table and of the objects whatever runs between its awaits, what a confirmation that is repeated
  answers, and what a caller learns of files that are not theirs.\<close>

section \<open>One request\<close>

datatype upload_request =
    Presign id string
  | Confirm confirm_command
  | Verify verify_command
  | UploadFiles upload_files_command
  | DeleteFile id id id
  | GetFile id id id

definition answers :: "'a outcome \<Rightarrow> ('a \<Rightarrow> file_result list) \<Rightarrow> file_result list" where
  "answers r f = (case r of Inl _ \<Rightarrow> [] | Inr x \<Rightarrow> f x)"

text \<open>The files a request answers with and the world it leaves.\<close>

definition serve :: "('s, 'q) upload_env \<Rightarrow> upload_request \<Rightarrow> ('s, 'q) upload_world \<Rightarrow>
    file_result list \<times> ('s, 'q) upload_world" where
  "serve env req w =
     (case req of
        Presign user ct \<Rightarrow> ([], snd (presign_upload env user ct w))
      | Confirm c \<Rightarrow> (answers (fst (confirm_upload env c w)) (\<lambda>f. [f]), snd (confirm_upload env c w))
      | Verify c \<Rightarrow> ([], snd (verify_upload env c w))
      | UploadFiles c \<Rightarrow> (answers (fst (upload_files env c w)) (\<lambda>fs. fs), snd (upload_files env c w))
      | DeleteFile org user i \<Rightarrow> ([], snd (delete_upload env org user i w))
      | GetFile org user i \<Rightarrow> (answers (fst (get_upload env org user i w)) (\<lambda>f. [f]), snd (get_upload env org user i w)))"

text \<open>What a request may count on: the ids it generates are fresh and its own, a verification job names
  a settled file, and a prepared multipart file has the bytes its type announces.\<close>

definition admissible ::
    "('s \<Rightarrow> string \<Rightarrow> string \<Rightarrow> bytes option) \<Rightarrow> ('s, 'q) upload_env \<Rightarrow> upload_request \<Rightarrow> ('s, 'q) upload_world \<Rightarrow> bool" where
  "admissible contents env req w \<longleftrightarrow>
     (case req of
        Confirm c \<Rightarrow>
          exclusive contents env (ue_newId env 0) (final_key env c) \<and>
          unused contents (ue_newId env 0) (final_key env c) w
      | Verify c \<Rightarrow>
          (\<exists>f. vc_key c = sf_key f \<and> vc_bucket c = sf_bucket f \<and> vc_declaredContentType c = sf_contentType f \<and>
             sf_status f \<noteq> FINALIZING \<and> known_file f w \<and> standing f w)
      | UploadFiles c \<Rightarrow>
          (\<forall>i. ue_newId env i \<notin> set (uw_issued w)) \<and>
          (\<forall>prepared. prepare_all env c 0 (uf_files c) = Inr prepared \<longrightarrow>
             (\<forall>f \<in> snd ` set prepared. batch_owned contents env f)) \<and>
          (\<forall>d \<in> set (uf_files c). \<exists>t. detectFileType (mf_content d) = Some t \<and> dt_mimeType t = mf_contentType d)
      | _ \<Rightarrow> True)"

definition answered_well :: "file_result list \<Rightarrow> ('s, 'q) upload_world \<Rightarrow> bool" where
  "answered_well as w \<longleftrightarrow>
     (\<forall>res \<in> set as. \<exists>f url. res = file_answer f url \<and> (sf_status f \<noteq> FINALIZING \<longrightarrow> standing f w))"

lemma answered_one: "answer_stands r w \<Longrightarrow> answered_well (answers r (\<lambda>f. [f])) w"
  by (auto simp: answer_stands_def answered_well_def answers_def split: sum.split)

lemma answered_batch: "batch_stands r w \<Longrightarrow> answered_well (answers r (\<lambda>fs. fs)) w"
  unfolding batch_stands_def answered_well_def answers_def by (cases r) (simp, simp, blast)

lemma safe_run: "safe c P m Q \<Longrightarrow> upload_inv c w \<Longrightarrow> P w \<Longrightarrow>
    upload_inv c (snd (m w)) \<and> steps c w (snd (m w)) \<and> Q (fst (m w)) (snd (m w))"
  using safeD[of c P m Q w "fst (m w)" "snd (m w)"] by simp

context storage_provider
begin

lemma served:
  assumes env: "ue_storage env = port" "rely contents env" "12 \<le> ul_magicByteCount (ue_limits env)"
    and w: "upload_inv contents w" "admissible contents env req w"
  shows "upload_inv contents (snd (serve env req w)) \<and> steps contents w (snd (serve env req w)) \<and>
     answered_well (fst (serve env req w)) (snd (serve env req w))"
proof (cases req)
  case (Presign user ct)
  show ?thesis using safe_run[OF safe_presign_upload[OF env(2,1)] w(1), of user ct]
    by (simp add: serve_def Presign answered_well_def)
next
  case (Confirm c)
  have a: "exclusive contents env (ue_newId env 0) (final_key env c)"
    "unused contents (ue_newId env 0) (final_key env c) w"
    using w(2) by (simp_all add: admissible_def Confirm)
  show ?thesis
    using safe_run[OF safe_confirm[OF env(2,1,3) a(1)] w(1) a(2)] by (simp add: serve_def Confirm answered_one)
next
  case (Verify c)
  obtain f where f: "vc_key c = sf_key f" "vc_bucket c = sf_bucket f" "vc_declaredContentType c = sf_contentType f"
    "sf_status f \<noteq> FINALIZING" "known_file f w \<and> standing f w"
    using w(2) by (auto simp: admissible_def Verify)
  show ?thesis
    using safe_run[OF safe_verify[OF env(2,1,3) f(1-4)] w(1) f(5)]
    by (simp add: serve_def Verify answered_well_def)
next
  case (UploadFiles c)
  have a: "\<forall>i. ue_newId env i \<notin> set (uw_issued w)"
    "\<And>f prepared. prepare_all env c 0 (uf_files c) = Inr prepared \<Longrightarrow> f \<in> snd ` set prepared \<Longrightarrow> batch_owned contents env f"
    "\<And>d. d \<in> set (uf_files c) \<Longrightarrow> \<exists>t. detectFileType (mf_content d) = Some t \<and> dt_mimeType t = mf_contentType d"
    using w(2) unfolding admissible_def UploadFiles upload_request.case by auto
  show ?thesis
    using safe_run[OF safe_upload_files[OF env(2,1) a(2,3)] w(1) a(1)]
    by (simp add: serve_def UploadFiles answered_batch)
next
  case (DeleteFile org user i)
  show ?thesis using safe_run[OF safe_delete_upload[OF env(2)] w(1), of org user i]
    by (simp add: serve_def DeleteFile answered_well_def)
next
  case (GetFile org user i)
  show ?thesis using safe_run[OF safe_get_upload[OF env(2,1)] w(1), of org user i]
    by (simp add: serve_def GetFile answered_one)
qed

text \<open>So a request is itself one of the others another request tolerates.\<close>

lemma request_is_tolerated:
  assumes "ue_storage env = port" "rely contents env" "12 \<le> ul_magicByteCount (ue_limits env)"
  shows "rely contents (env' \<lparr> ue_between := \<lambda>k w. if admissible contents env (req k) w then snd (serve env (req k) w) else w \<rparr>)"
  using served[OF assms] by (auto simp: rely_def guarantee_def steps_refl)

lemma requests_advance:
  assumes "ue_storage env = port" "rely contents env"
    and "12 \<le> ul_magicByteCount (ue_limits env)"
    and "upload_inv contents w" "admissible contents env req w" "serve env req w = (out, w')"
    and "r \<in> set (uw_rows w)" "status_of r \<noteq> FINALIZING"
  shows "\<exists>r' \<in> set (uw_rows w').
     sr_file r' = withStatus (status_of r') (sr_file r) \<and>
     (status_of r' = status_of r \<or> status_of r = VERIFYING \<and> status_of r' \<in> {READY, REJECTED}) \<and>
     (sr_deletedAt r \<noteq> None \<longrightarrow> sr_deletedAt r' = sr_deletedAt r) \<and>
     (status_of r' \<noteq> REJECTED \<longrightarrow>
        (\<forall>b. contents (uw_store w) (sf_bucket (sr_file r)) (sf_key (sr_file r)) = Some b \<longrightarrow>
             contents (uw_store w') (sf_bucket (sr_file r)) (sf_key (sr_file r)) = Some b))"
proof -
  have i: "upload_inv contents w'" "steps contents w w'"
    using served[OF assms(1-5)] assms(6) by simp_all
  obtain r' where r': "r' \<in> set (uw_rows w')" "follows r r'" using i(2) assms(7,8) unfolding steps_def by blast
  have "row_id r' \<in> set (uw_issued w)"
    using follows_id[OF r'(2)] assms(4,7) by (simp add: upload_inv_def)
  then obtain r0 where r0: "r0 \<in> set (uw_rows w)" "follows r0 r'"
    "anchored (sr_file r0) \<and> status_of r' \<noteq> REJECTED \<longrightarrow> object_kept contents (uw_store w) (uw_store w') (sr_file r0)"
    using i(2) r'(1) unfolding steps_def by blast
  have "row_id r0 = row_id r" using follows_id[OF r'(2)] follows_id[OF r0(2)] by simp
  then have "r0 = r" using r0(1) assms(4,7) by (auto simp: upload_inv_def distinct_map inj_on_def)
  then have kept: "status_of r' \<noteq> REJECTED \<longrightarrow> object_kept contents (uw_store w) (uw_store w') (sr_file r)"
    using r0(3) assms(8) by (simp add: anchored_def status_of_def)
  show ?thesis
  proof (intro bexI[OF _ r'(1)] conjI)
    show "sr_file r' = withStatus (status_of r') (sr_file r)"
      using r'(2) by (simp add: follows_def same_file_def status_of_def)
    show "status_of r' = status_of r \<or> status_of r = VERIFYING \<and> status_of r' \<in> {READY, REJECTED}"
      using r'(2) assms(8) by (cases "status_of r'") (auto simp: follows_def may_become_def)
    show "sr_deletedAt r \<noteq> None \<longrightarrow> sr_deletedAt r' = sr_deletedAt r" using r'(2) by (simp add: follows_def)
    show "status_of r' \<noteq> REJECTED \<longrightarrow>
        (\<forall>b. contents (uw_store w) (sf_bucket (sr_file r)) (sf_key (sr_file r)) = Some b \<longrightarrow>
             contents (uw_store w') (sf_bucket (sr_file r)) (sf_key (sr_file r)) = Some b)"
      using kept by (simp add: object_kept_def)
  qed
qed

lemma ready_is_checked:
  assumes "ue_storage env = port" "rely contents env"
    and "12 \<le> ul_magicByteCount (ue_limits env)"
    and "upload_inv contents w" "admissible contents env req w" "serve env req w = (out, w')"
  shows "(\<forall>r \<in> set (uw_rows w'). status_of r = READY \<longrightarrow>
       (\<exists>b t. contents (uw_store w') (sf_bucket (sr_file r)) (sf_key (sr_file r)) = Some b \<and>
              detectFileType b = Some t \<and> dt_mimeType t = sf_contentType (sr_file r))) \<and>
     (\<forall>res \<in> set out. fr_status res = Some READY \<longrightarrow>
       (\<exists>r \<in> set (uw_rows w'). fr_id res = Some (row_id r) \<and> status_of r = READY \<and>
          fr_bucket res = sf_bucket (sr_file r) \<and> fr_key res = sf_key (sr_file r)))"
proof (intro conjI ballI impI)
  have i: "upload_inv contents w'" "answered_well out w'"
    using served[OF assms(1-5)] assms(6) by simp_all
  show "\<exists>b t. contents (uw_store w') (sf_bucket (sr_file r)) (sf_key (sr_file r)) = Some b \<and>
      detectFileType b = Some t \<and> dt_mimeType t = sf_contentType (sr_file r)"
    if "r \<in> set (uw_rows w')" "status_of r = READY" for r
    using i(1) that by (simp add: upload_inv_def holds_type_def)
  fix res assume res: "res \<in> set out" "fr_status res = Some READY"
  obtain f url where f: "res = file_answer f url" "sf_status f \<noteq> FINALIZING \<longrightarrow> standing f w'"
    using i(2) res(1) unfolding answered_well_def by blast
  have s: "sf_status f = READY" using res(2) f(1) by (simp add: file_answer_def)
  then obtain r where r: "r \<in> set (uw_rows w')" "same_file f (sr_file r)" "may_become READY (status_of r)"
    using f(2) by (auto simp: standing_def)
  show "\<exists>r \<in> set (uw_rows w'). fr_id res = Some (row_id r) \<and> status_of r = READY \<and>
      fr_bucket res = sf_bucket (sr_file r) \<and> fr_key res = sf_key (sr_file r)"
    using r same_file_sel[OF r(2)]
    by (intro bexI[OF _ r(1)]) (auto simp: f(1) file_answer_def row_id_def may_become_def)
qed

end

section \<open>The table and the objects\<close>

text \<open>C20. Uploads only advance. Whatever other requests and jobs run between the awaits of a
  request, as long as each keeps the same guarantee, a settled file keeps its row with every
  column but the status, the status only moves from VERIFYING to READY or REJECTED, a deletion is
  not undone, and unless the file was rejected its stored bytes are unchanged.\<close>

theorem uploads_only_advance:
  assumes "ue_storage env = local_port (undisturbed cfg)" "rely local_contents env"
    and "12 \<le> ul_magicByteCount (ue_limits env)"
    and "upload_inv local_contents w" "admissible local_contents env req w" "serve env req w = (out, w')"
    and "r \<in> set (uw_rows w)" "status_of r \<noteq> FINALIZING"
  shows "\<exists>r' \<in> set (uw_rows w').
     sr_file r' = withStatus (status_of r') (sr_file r) \<and>
     (status_of r' = status_of r \<or> status_of r = VERIFYING \<and> status_of r' \<in> {READY, REJECTED}) \<and>
     (sr_deletedAt r \<noteq> None \<longrightarrow> sr_deletedAt r' = sr_deletedAt r) \<and>
     (status_of r' \<noteq> REJECTED \<longrightarrow>
        (\<forall>b. local_contents (uw_store w) (sf_bucket (sr_file r)) (sf_key (sr_file r)) = Some b \<longrightarrow>
             local_contents (uw_store w') (sf_bucket (sr_file r)) (sf_key (sr_file r)) = Some b))"
  using local_files.requests_advance[OF assms] .


text \<open>The same over S3, whichever calls the service refuses and whichever answers are lost.\<close>

corollary uploads_on_s3:
  assumes "ue_storage env = s3_port (s3_alone cfg)" "rely s3_contents env"
    and "12 \<le> ul_magicByteCount (ue_limits env)"
    and "upload_inv s3_contents w" "admissible s3_contents env req w" "serve env req w = (out, w')"
  shows "upload_inv s3_contents w'" and "steps s3_contents w w'" and "answered_well out w'"
  using s3_files.served[OF assms(1-5)] assms(6) by simp_all

section \<open>Files of others\<close>

lemma found_read:
  "fst (found env k sel w) = Inr (findOne (ue_tenant env) sel (uw_rows (ue_between env k w)))"
  "uw_rows (snd (found env k sel w)) = uw_rows (ue_between env k w)"
  "uw_store (snd (found env k sel w)) = uw_store (ue_between env k w)"
  "uw_queue (snd (found env k sel w)) = uw_queue (ue_between env k w)"
  by (simp_all add: found_def on_rows_def awaiting_def zoom_def readE_def)

lemma denied_abroad:
  assumes "sf_organizationId f \<notin> {org, []}"
  shows "\<not> allowed (check pg_policyContext db (UserPrincipal user org k) perm (Some (file_ref f)))"
  using postgres.never_crosses[of db "UserPrincipal user org k" perm "file_ref f" "sf_organizationId f"] assms
  by (auto simp: file_ref_def)


section \<open>Confirming again\<close>

definition calm :: "('s, 'q) upload_env \<Rightarrow> bool" where
  "calm env \<longleftrightarrow> (\<forall>k w. ue_between env k w = w)"

lemma calm_sel [simp]: "calm env \<Longrightarrow> ue_between env k w = w"
  by (simp add: calm_def)

text \<open>Enqueueing and reading touch neither rows nor objects.\<close>

definition only_queue :: "('s, 'q, 'a) upload_action \<Rightarrow> bool" where
  "only_queue m \<longleftrightarrow> (\<forall>w. uw_rows (snd (m w)) = uw_rows w \<and> uw_store (snd (m w)) = uw_store w)"

lemma only_queue_rules:
  "only_queue (returnE x)"
  "only_queue m \<Longrightarrow> (\<And>x. only_queue (f x)) \<Longrightarrow> only_queue (bindE m f)"
  "only_queue m \<Longrightarrow> only_queue n \<Longrightarrow> only_queue (thenE m n)"
  "only_queue u \<Longrightarrow> only_queue (quietly u)"
  "calm env \<Longrightarrow> only_queue (on_queue env k q)"
  "only_queue m \<Longrightarrow> only_queue n \<Longrightarrow> only_queue (if b then m else n)"
  unfolding only_queue_def
  by (auto simp: action_defs on_queue_def awaiting_def zoom_def split: prod.splits sum.splits) (metis fst_conv snd_conv)+

lemma only_queue_enqueue: "calm env \<Longrightarrow> only_queue (enqueueUploadVerification env k req)"
  unfolding enqueueUploadVerification_def Let_def by (intro only_queue_rules)

text \<open>The answer for a published file is a function of the file.\<close>

definition local_url :: "local_config \<Rightarrow> stored_file \<Rightarrow> string outcome" where
  "local_url cfg f = fst (ls_getSignedUrl (undisturbed cfg) (sf_key f) None (Some (sf_bucket f)) [])"

lemma getSignedUrl_pure: "ls_getSignedUrl cfg k ex ob fs = (fst (ls_getSignedUrl cfg k ex ob []), fs)"
  unfolding ls_getSignedUrl_def Let_def failing_as_def action_defs
  by (auto split: sum.splits)

definition published_answer :: "local_config \<Rightarrow> stored_file \<Rightarrow> file_result outcome" where
  "published_answer cfg f =
     (if sf_status f = READY
      then case local_url cfg f of Inl e \<Rightarrow> Inl e | Inr url \<Rightarrow> Inr (file_answer f (Some url))
      else Inr (file_answer f None))"

lemma publication_answers:
  assumes "calm env" "ue_storage env = local_port (undisturbed cfg)"
  shows "fst (publication_result env k f corr w) = published_answer cfg f \<and>
     uw_rows (snd (publication_result env k f corr w)) = uw_rows w \<and>
     uw_store (snd (publication_result env k f corr w)) = uw_store w"
proof -
  have url: "on_store env n (st_getSignedUrl (ue_storage env) (sf_key f) None (Some (sf_bucket f))) v = (local_url cfg f, v)" for n v
    using getSignedUrl_pure[of "undisturbed cfg" "sf_key f" None "Some (sf_bucket f)" "uw_store v"] assms
    by (simp add: on_store_def awaiting_def zoom_def local_port_def local_url_def)
  obtain r v where q: "quietly (enqueueUploadVerification env k
      \<lparr> vr_key = sf_key f, vr_declaredContentType = sf_contentType f, vr_bucket = sf_bucket f, vr_correlationId = corr \<rparr>) w = (r, v)"
    by force
  have "r = Inr ()" using q by (auto simp: quietly_def catchE_def returnE_def split: prod.splits sum.splits)
  moreover have "uw_rows v = uw_rows w" "uw_store v = uw_store w"
    using only_queue_rules(4)[OF only_queue_enqueue[OF assms(1)]] q unfolding only_queue_def by (metis snd_conv)+
  ultimately show ?thesis
    using url q by (auto simp: publication_result_def published_answer_def thenE_def bindE_def returnE_def split: sum.split)
qed

text \<open>A transition without interference, and what is found afterwards.\<close>

lemma find_rows_updated:
  assumes "\<And>r. p (g r) = p r"
  shows "List.find p (update_rows sel g rows) = map_option (\<lambda>r. if sel r then g r else r) (List.find p rows)"
  using assms by (induction rows) (auto simp: update_rows_def)

lemma find_after_transition:
  "List.find (\<lambda>r. visible_to t r \<and> selected (BySourceKey key) r \<and> sr_deletedAt r = None)
     (snd (setStatus t (ById i) a b no_fields rows)) =
   map_option (\<lambda>r. if status_where t (ById i) a b r then with_row_status b r else r)
     (List.find (\<lambda>r. visible_to t r \<and> selected (BySourceKey key) r \<and> sr_deletedAt r = None) rows)"
proof -
  have e: "write_fields no_fields (with_row_status b r) = with_row_status b r" for r
    by (simp add: write_fields_def no_fields_def with_row_status_def default_to_def)
  show ?thesis
    unfolding setStatus_def snd_conv e
    by (subst find_rows_updated) (simp_all add: visible_to_def selected_def with_row_status_def)
qed

lemma bind_Inr: "bindE m f w = (Inr x, w') \<Longrightarrow> (\<And>y v. m w = (Inr y, v) \<Longrightarrow> f y v = (Inr x, w') \<Longrightarrow> thesis) \<Longrightarrow> thesis"
  by (auto simp: bindE_def split: prod.splits sum.splits)

lemma then_Inr: "thenE m n w = (Inr x, w') \<Longrightarrow> (\<And>y v. m w = (Inr y, v) \<Longrightarrow> n v = (Inr x, w') \<Longrightarrow> thesis) \<Longrightarrow> thesis"
  unfolding thenE_def by (rule bind_Inr)

lemma then_from: "thenE (fromE (Inr x)) m = m"
  by (simp add: fun_eq_iff thenE_def bindE_def fromE_def)

lemma bind_from: "m w = (Inr x, v) \<Longrightarrow> bindE m f w = f x v"
  by (simp add: bindE_def)

lemma catch_rethrow: "catchE m (\<lambda>e. thenE (h e) (throwE e)) w = (Inr x, w') \<Longrightarrow> m w = (Inr x, w')"
proof -
  assume e: "catchE m (\<lambda>e. thenE (h e) (throwE e)) w = (Inr x, w')"
  have "fst (thenE n (throwE e) v) \<noteq> Inr x" for n e v
    by (cases "n v"; cases "fst (n v)") (auto simp: thenE_def bindE_def throwE_def)
  then have never: "thenE (h e) (throwE e) v \<noteq> (Inr x, w')" for e v by (metis fst_conv)
  obtain r v where m: "m w = (r, v)" by force
  show "m w = (Inr x, w')"
  proof (cases r)
    case (Inl err)
    then have "thenE (h err) (throwE err) v = (Inr x, w')" using e m unfolding catchE_def by simp
    then show ?thesis using never by blast
  next
    case (Inr y)
    then show ?thesis using e m unfolding catchE_def by simp
  qed
qed

lemma on_store_rows: "calm env \<Longrightarrow> on_store env k m w = (r, w') \<Longrightarrow> uw_rows w' = uw_rows w"
  by (auto simp: on_store_def awaiting_def zoom_def split: prod.splits)

lemma check_finalized_rows:
  assumes "calm env" "check_finalized env k f w = (Inr u, w')" shows "uw_rows w' = uw_rows w"
proof (cases "ul_malwareScanEnabled (ue_limits env)")
  case False
  have "readHeadAndAssertMagicBytes env k (sf_key f) (sf_contentType f) (sf_bucket f) w = (Inr u, w')"
    using assms(2) False unfolding check_finalized_def by (simp only: if_False) (rule catch_rethrow)
  then show ?thesis
    unfolding readHeadAndAssertMagicBytes_def
  proof (rule bind_Inr)
    fix head v
    assume "on_store env k (st_readRange (ue_storage env) (sf_key f) (ul_magicByteCount (ue_limits env)) (Some (sf_bucket f))) w = (Inr head, v)"
      and "fromE (assertMagicBytesMatch head (sf_contentType f) (sf_key f)) v = (Inr u, w')"
    then show ?thesis using on_store_rows[OF assms(1)] by (simp add: fromE_def)
  qed
qed (use assms(2) in \<open>auto simp: check_finalized_def returnE_def\<close>)

text \<open>The file is published and the answer is what reading it back answers.\<close>

definition settled_as :: "('s, 'q) upload_env \<Rightarrow> local_config \<Rightarrow> confirm_command \<Rightarrow> file_result \<Rightarrow> ('s, 'q) upload_world \<Rightarrow> bool" where
  "settled_as env cfg command res w \<longleftrightarrow>
     (\<exists>f. findOne (ue_tenant env) (BySourceKey (ccf_sourceKey command)) (uw_rows w) = Some f \<and>
          sf_organizationId f = ccf_organizationId command \<and> sf_userId f = ccf_userId command \<and>
          sf_status f \<noteq> FINALIZING \<and> sf_status f \<noteq> REJECTED \<and> published_answer cfg f = Inr res)"

lemma publication_settles:
  assumes "calm env" "ue_storage env = local_port (undisturbed cfg)"
    and "findOne (ue_tenant env) (BySourceKey (ccf_sourceKey command)) (uw_rows w) = Some f"
    and "sf_organizationId f = ccf_organizationId command" "sf_userId f = ccf_userId command"
    and "sf_status f \<noteq> FINALIZING" "sf_status f \<noteq> REJECTED"
    and "publication_result env k f corr w = (Inr res, w')"
  shows "settled_as env cfg command res w'"
  using publication_answers[OF assms(1,2), of k f corr w] assms(3-) unfolding settled_as_def by auto

lemma completion_settles:
  assumes "calm env" "ue_storage env = local_port (undisturbed cfg)"
    and "List.find (\<lambda>r. visible_to (ue_tenant env) r \<and> selected (BySourceKey (ccf_sourceKey command)) r \<and> sr_deletedAt r = None)
           (uw_rows w) = Some r"
    and "sf_organizationId (sr_file r) = ccf_organizationId command" "sf_userId (sr_file r) = ccf_userId command"
    and "sf_status (sr_file r) = FINALIZING"
    and "completeFinalizing env k (sr_file r) corr w = (Inr res, w')"
  shows "settled_as env cfg command res w'"
  using assms(7) unfolding completeFinalizing_def
proof (elim then_Inr bind_Inr)
  fix u v moved v'
  assume c: "check_finalized env k (sr_file r) w = (Inr u, v)"
    and t: "transitioned env (k + 3) (ById (sf_id (sr_file r))) FINALIZING (published_status env) no_fields v = (Inr moved, v')"
    and rest: "(if \<not> moved then bindE (found env (k + 4) (ById (sf_id (sr_file r)))) (\<lambda>current.
               case current of None \<Rightarrow> throwE commitFailed
               | Some c \<Rightarrow> if sf_status c = FINALIZING \<or> sf_status c = REJECTED then throwE commitFailed
                   else publication_result env (k + 5) c corr)
           else publication_result env (k + 5) (withStatus (published_status env) (sr_file r)) corr) v' = (Inr res, w')"
  note found = find_SomeD[OF assms(3)]
  have rows: "uw_rows v = uw_rows w" by (rule check_finalized_rows[OF assms(1) c])
  let ?set = "setStatus (ue_tenant env) (ById (sf_id (sr_file r))) FINALIZING (published_status env) no_fields (uw_rows w)"
  have v': "moved = fst ?set" "uw_rows v' = snd ?set"
    using t assms(1) rows by (auto simp: transitioned_def on_rows_def awaiting_def zoom_def split: prod.splits)
  have sel: "status_where (ue_tenant env) (ById (sf_id (sr_file r))) FINALIZING (published_status env) r"
    using found assms(6) by (simp add: status_where_def selected_def)
  then have "moved" using found v'(1) by (auto simp: setStatus_def count_rows_pos)
  moreover have "findOne (ue_tenant env) (BySourceKey (ccf_sourceKey command)) (uw_rows v') =
      Some (withStatus (published_status env) (sr_file r))"
    unfolding findOne_def v'(2) find_after_transition assms(3) using sel
    by (simp add: toDomain_def with_row_status_def withStatus_def)
  ultimately show ?thesis
    using publication_settles[OF assms(1,2), of command v'] rest assms(4,5)
    by (simp add: withStatus_def published_status_def split: if_splits)
qed

lemma recovery_settles:
  assumes "calm env" "ue_storage env = local_port (undisturbed cfg)"
    and "findOne (ue_tenant env) (BySourceKey (ccf_sourceKey command)) (uw_rows w) = Some f"
    and "sf_organizationId f = ccf_organizationId command" "sf_userId f = ccf_userId command"
    and "recoverExisting env k f corr w = (Inr res, w')"
  shows "settled_as env cfg command res w'"
proof (cases "sf_status f = FINALIZING")
  case False
  then show ?thesis
    using publication_settles[OF assms(1-5)] assms(6)
    by (auto simp: recoverExisting_def throwE_def split: if_splits)
next
  case True
  obtain r where r: "List.find (\<lambda>r. visible_to (ue_tenant env) r \<and> selected (BySourceKey (ccf_sourceKey command)) r \<and>
      sr_deletedAt r = None) (uw_rows w) = Some r" "sr_file r = f"
    using assms(3) by (auto simp: findOne_def toDomain_def)
  obtain meta v where m: "on_store env k (st_head (ue_storage env) (sf_key f) (Some (sf_bucket f))) w = (Inr (Some meta), v)"
    "completeFinalizing env (k + 1) (sr_file r) corr v = (Inr res, w')"
    using assms(6) True r(2) unfolding recoverExisting_def
    by (auto elim!: bind_Inr simp: throwE_def split: option.splits)
  show ?thesis
    using completion_settles[OF assms(1,2), of command v r] r assms(4,5) True m on_store_rows[OF assms(1) m(1)] by simp
qed

lemma find_created:
  assumes "files_create t f rows = (Inr Created, rows')" "p (new_row f)"
    and "\<And>r. p r \<Longrightarrow> sf_sourceKey (sr_file r) = sf_sourceKey f"
  shows "List.find p rows' = Some (new_row f)"
proof -
  have e: "rows' = rows @ [new_row f]" "\<not> list_ex (collides f) rows"
    using assms(1) by (auto simp: files_create_def insert_stored_def split: prod.splits sum.splits if_splits)
  have "List.find p rows = None"
    unfolding find_None_iff using e(2) assms(3) by (auto simp: list_ex_iff collides_def)
  then have "\<forall>r \<in> set rows. \<not> p r" by (simp add: find_None_iff)
  then show ?thesis using assms(2) unfolding e(1) by (induction rows) simp_all
qed

lemma files_create_cases:
  "files_create t f rows = (Inr c, rows') \<Longrightarrow> c = Duplicate \<Longrightarrow> rows' = rows"
  "files_create t f rows = (Inr Created, rows') \<Longrightarrow> visible_to t (new_row f)"
  by (auto simp: files_create_def insert_stored_def split: prod.splits sum.splits if_splits)

lemma publish_settles:
  assumes "calm env" "ue_storage env = local_port (undisturbed cfg)"
    and none: "findOne (ue_tenant env) (BySourceKey (ccf_sourceKey command)) (uw_rows w) = None"
    and "publish env command meta w = (Inr res, w')"
  shows "settled_as env cfg command res w'"
  using assms(4) unfolding publish_def Let_def
proof (elim bind_Inr)
  let ?props = "confirm_props env command meta"
  fix created v
  assume c: "on_rows env 3 (files_create (ue_tenant env) ?props) w = (Inr created, v)"
    and rest: "(if created = Duplicate then
             bindE (found env 4 (BySourceKey (ccf_sourceKey command))) (\<lambda>concurrent.
               case concurrent of Some c \<Rightarrow> recoverExisting env 20 c (ccf_correlationId command) | None \<Rightarrow> throwE commitFailed)
           else thenE
               (catchE (on_store env 5 (st_finalize (ue_storage env) (ccf_sourceKey command) (sf_key ?props)
                    (om_etag meta) (Some (om_bucket meta))))
                 (\<lambda>_. thenE (quietly (on_rows env 6 (\<lambda>rows.
                      (Inr (), files_deleteIfStatus (ue_tenant env) (sf_id ?props) FINALIZING rows)))) (throwE commitFailed)))
               (completeFinalizing env 30 ?props (ccf_correlationId command))) v = (Inr res, w')"
  have created: "files_create (ue_tenant env) ?props (uw_rows w) = (Inr created, uw_rows v)"
    using c assms(1) by (auto simp: on_rows_def awaiting_def zoom_def split: prod.splits)
  show ?thesis
  proof (cases "created = Duplicate")
    case True
    then have "uw_rows v = uw_rows w" by (rule files_create_cases(1)[OF created])
    then have "findOne (ue_tenant env) (BySourceKey (ccf_sourceKey command)) (uw_rows (ue_between env 4 v)) = None"
      using none assms(1) by simp
    then have "fst (bindE (found env 4 (BySourceKey (ccf_sourceKey command))) (\<lambda>concurrent.
        case concurrent of Some c \<Rightarrow> recoverExisting env 20 c (ccf_correlationId command) | None \<Rightarrow> throwE commitFailed) v) = Inl commitFailed"
      using found_read(1)[of env 4 "BySourceKey (ccf_sourceKey command)" v]
      by (cases "found env 4 (BySourceKey (ccf_sourceKey command)) v") (simp add: bindE_def throwE_def)
    then show ?thesis using rest True by simp
  next
    case False
    then have new: "files_create (ue_tenant env) ?props (uw_rows w) = (Inr Created, uw_rows v)"
      using created by (cases created) simp_all
    have find: "List.find (\<lambda>r. visible_to (ue_tenant env) r \<and> selected (BySourceKey (ccf_sourceKey command)) r \<and>
        sr_deletedAt r = None) (uw_rows v) = Some (new_row ?props)"
      by (rule find_created[OF new])
        (use files_create_cases(2)[OF new] in \<open>auto simp: selected_def new_row_def confirm_props_def\<close>)
    obtain u x where x: "on_store env 5 (st_finalize (ue_storage env) (ccf_sourceKey command) (sf_key ?props)
          (om_etag meta) (Some (om_bucket meta))) v = (Inr u, x)"
      "completeFinalizing env 30 ?props (ccf_correlationId command) x = (Inr res, w')"
      using rest False
      by (auto elim!: then_Inr simp: catchE_def thenE_def bindE_def throwE_def split: prod.splits sum.splits)
    show ?thesis
      using completion_settles[OF assms(1,2), of command x "new_row ?props" 30] find on_store_rows[OF assms(1) x(1)] x(2)
      by (simp add: new_row_def confirm_props_def)
  qed
qed

lemma confirm_settles:
  assumes "calm env" "ue_storage env = local_port (undisturbed cfg)" "confirm_upload env command w = (Inr res, w')"
  shows "settled_as env cfg command res w' \<and> assertOwnsSourceKey (ccf_sourceKey command) (ccf_userId command) = Inr ()"
proof -
  let ?key = "BySourceKey (ccf_sourceKey command)"
  have own: "assertOwnsSourceKey (ccf_sourceKey command) (ccf_userId command) = Inr ()"
    using assms(3) unfolding confirm_upload_def by (auto elim!: then_Inr simp: fromE_def)
  obtain v where v: "found env 0 ?key w = (Inr (findOne (ue_tenant env) ?key (uw_rows w)), v)" "uw_rows v = uw_rows w"
    using found_read[of env 0 ?key w] assms(1) by (cases "found env 0 ?key w") auto
  have "settled_as env cfg command res w'"
  proof (cases "findOne (ue_tenant env) ?key (uw_rows w)")
    case (Some f)
    then show ?thesis
      using assms(3) v recovery_settles[OF assms(1,2), of command v f]
      by (auto simp: confirm_upload_def own fromE_def thenE_def bindE_def throwE_def split: if_splits)
  next
    case None
    have "bindE (on_store env 1 (st_head (ue_storage env) (ccf_sourceKey command) None)) (\<lambda>meta.
        case meta of None \<Rightarrow> throwE (objectNotFound (ccf_sourceKey command))
        | Some m \<Rightarrow> thenE (validateStagedObject env 2 (ccf_sourceKey command) m) (publish env command m)) v = (Inr res, w')"
      using assms(3) unfolding confirm_upload_def own then_from bind_from[where m = "found env 0 ?key" and w = w, OF v(1)] None option.case .
    then obtain o1 y where y: "on_store env 1 (st_head (ue_storage env) (ccf_sourceKey command) None) v = (Inr o1, y)"
      "(case o1 of None \<Rightarrow> throwE (objectNotFound (ccf_sourceKey command))
        | Some m \<Rightarrow> thenE (validateStagedObject env 2 (ccf_sourceKey command) m) (publish env command m)) y = (Inr res, w')"
      by (rule bind_Inr)
    then obtain meta where meta: "o1 = Some meta"
      "thenE (validateStagedObject env 2 (ccf_sourceKey command) meta) (publish env command meta) y = (Inr res, w')"
      by (cases o1) (simp_all add: throwE_def)
    obtain a z where m: "on_store env 1 (st_head (ue_storage env) (ccf_sourceKey command) None) v = (Inr (Some meta), y)"
      "validateStagedObject env 2 (ccf_sourceKey command) meta y = (Inr a, z)" "publish env command meta z = (Inr res, w')"
      using then_Inr[OF meta(2)] y(1) meta(1) by blast
    have "uw_rows z = uw_rows y"
      using catch_rethrow[OF m(2)[unfolded validateStagedObject_def]]
      by (rule then_Inr) (simp add: fromE_def)
    then show ?thesis
      using publish_settles[OF assms(1,2), of command z meta res] m None v(2) on_store_rows[OF assms(1) m(1)] by simp
  qed
  then show ?thesis using own by simp
qed


section \<open>A concrete world\<close>

definition gif_bytes :: bytes where
  "gif_bytes = [0x47, 0x49, 0x46, 0x38, 0x39, 0x61]"

definition desk_file :: "stored_file_status \<Rightarrow> stored_file" where
  "desk_file s =
     \<lparr> sf_id = ''f1'', sf_organizationId = ''o'', sf_userId = ''u'', sf_sourceKey = ''uploads/u/a.gif'',
       sf_key = ''files/u/f1.gif'', sf_bucket = ''uploads'', sf_contentType = ''image/gif'', sf_size = 6,
       sf_etag = ''e'', sf_status = s \<rparr>"

definition desk_store :: local_fs where
  "desk_store =
     [([''objects'', ''uploads'', ''files'', ''u'', ''f1.gif''], ObjectFile gif_bytes),
      ([''meta'', ''uploads'', ''files'', ''u'', ''f1.gif.json''],
        MetaFile \<lparr> sm_contentType = ''image/gif'', sm_size = 6, sm_etag = ''e'' \<rparr>)]"

definition desk_world :: "stored_file_status \<Rightarrow> (local_fs, unit) upload_world" where
  "desk_world s = \<lparr> uw_rows = [new_row (desk_file s)], uw_store = desk_store, uw_queue = (), uw_issued = [''f1''] \<rparr>"

definition idle_queue :: "unit job_queue" where
  "idle_queue = \<lparr> jq_getJob = (\<lambda>_. returnE False), jq_getState = (\<lambda>_. returnE ''unknown''),
     jq_retry = (\<lambda>_ _. returnE ()), jq_add = (\<lambda>_ _. returnE ()) \<rparr>"

definition desk_env :: "(local_fs, unit) upload_env" where
  "desk_env =
     \<lparr> ue_storage = local_port (undisturbed example_local), ue_queue = idle_queue,
       ue_limits = readUploadLimits (\<lambda>_. None), ue_tenant = \<lparr> tn_organization = Some ''o'', tn_bypass = True \<rparr>,
       ue_newId = (\<lambda>_. ''f2''), ue_scan = (\<lambda>_ _. Inr Clean),
       ue_check = check pg_policyContext \<lparr> db_members = [], db_organizationRoles = [] \<rparr>, ue_sha256hex = (\<lambda>k. k), ue_now = 0,
       ue_between = (\<lambda>_ w. w) \<rparr>"

definition desk_job :: verify_command where
  "desk_job = \<lparr> vc_key = ''files/u/f1.gif'', vc_declaredContentType = ''image/gif'', vc_bucket = ''uploads'' \<rparr>"

lemma desk_facts:
  "ue_storage desk_env = local_port (undisturbed example_local)" "12 \<le> ul_magicByteCount (ue_limits desk_env)"
  "rely local_contents desk_env"
  by (simp_all add: desk_env_def readUploadLimits_def UPLOAD_MAGIC_BYTE_COUNT_def rely_def guarantee_def steps_refl)

lemma desk_holds: "holds_type local_contents desk_store (desk_file s)"
proof -
  have "local_contents desk_store ''uploads'' ''files/u/f1.gif'' = Some gif_bytes"
    "detectFileType gif_bytes = Some \<lparr> dt_mimeType = ''image/gif'', dt_extension = ''gif'' \<rparr>" by code_simp+
  then show ?thesis by (simp add: holds_type_def desk_file_def)
qed

lemma desk_inv: "upload_inv local_contents (desk_world s)"
  using desk_holds[of s]
  by (simp add: upload_inv_def desk_world_def new_row_def row_id_def status_of_def)
     (simp add: desk_file_def starts_with_def)

lemma desk_job_admissible: "admissible local_contents desk_env (Verify desk_job) (desk_world VERIFYING)"
proof -
  have "known_file (desk_file VERIFYING) (desk_world VERIFYING) \<and> standing (desk_file VERIFYING) (desk_world VERIFYING)"
    by (simp add: known_file_def standing_def desk_world_def new_row_def row_id_def status_of_def)
       (simp add: desk_file_def)
  moreover have "vc_key desk_job = sf_key (desk_file VERIFYING)" "vc_bucket desk_job = sf_bucket (desk_file VERIFYING)"
    "vc_declaredContentType desk_job = sf_contentType (desk_file VERIFYING)" "sf_status (desk_file VERIFYING) \<noteq> FINALIZING"
    by (simp_all add: desk_job_def desk_file_def)
  ultimately show ?thesis unfolding admissible_def upload_request.case by blast
qed

theorem uploads_only_advance_witness:
  "\<exists>r' \<in> set (uw_rows (snd (serve desk_env (Verify desk_job) (desk_world VERIFYING)))).
     sr_file r' = withStatus (status_of r') (desk_file VERIFYING)"
  using uploads_only_advance[OF desk_facts(1,3,2) desk_inv desk_job_admissible prod.collapse[symmetric], of "new_row (desk_file VERIFYING)"]
  by (auto simp: desk_world_def new_row_def status_of_def desk_file_def)

lemma desk_ready:
  "status_of (hd (uw_rows (snd (serve desk_env (Verify desk_job) (desk_world VERIFYING))))) = READY \<and>
   uw_rows (snd (serve desk_env (Verify desk_job) (desk_world VERIFYING))) \<noteq> []"
  by code_simp


definition desk_confirm :: confirm_command where
  "desk_confirm = \<lparr> ccf_organizationId = ''o'', ccf_userId = ''u'', ccf_sourceKey = ''uploads/u/a.gif'', ccf_correlationId = None \<rparr>"


text \<open>A staged upload of the same bytes, confirmed while a scan is to follow.\<close>

definition staged_world :: "(local_fs, unit) upload_world" where
  "staged_world =
     \<lparr> uw_rows = [],
       uw_store =
         [([''objects'', ''uploads'', ''uploads'', ''u'', ''a.gif''], ObjectFile gif_bytes),
          ([''meta'', ''uploads'', ''uploads'', ''u'', ''a.gif.json''],
            MetaFile \<lparr> sm_contentType = ''image/gif'', sm_size = 6, sm_etag = etag_of example_local gif_bytes \<rparr>)],
       uw_queue = (), uw_issued = [] \<rparr>"

definition scanning_env :: "(local_fs, unit) upload_env" where
  "scanning_env = desk_env \<lparr> ue_limits := readUploadLimits (\<lambda>_. Some ''true'') \<rparr>"

lemma staged_confirmed: "case fst (confirm_upload scanning_env desk_confirm staged_world) of Inr _ \<Rightarrow> True | Inl _ \<Rightarrow> False"
  by code_simp


end
