(* ===== verification/Idempotency.thy ===== *)
theory Idempotency
  imports Multipart Http_Guards Problem_Details Leader_Lease "HOL-Library.List_Lexorder" "HOL-Library.Char_ord"
begin

text \<open>Idempotent writes (apps/api/src/common/idempotency): a mutating request with an Idempotency-Key takes a
  lock in Redis with SET NX, and its response is recorded under the key for replays. The Redis store maps keys
  to texts with the time they expire, as in the lease; each script and each command is one atomic step, and requests
  interleave between them. SHA-256 and the random owner tokens are parameters. Lua's cjson reads what
  JSON.parse reads.\<close>

section \<open>Records\<close>

datatype idempotency_record =
    PendingRecord "string option"
  | CompletedRecord "string option" "nat option" "string option" "string option"

definition pending_text :: "string \<Rightarrow> string \<Rightarrow> string" where
  "pending_text fingerprint ownerToken =
     stringify (JObj [(''state'', JStr ''pending''), (''fingerprint'', JStr fingerprint), (''ownerToken'', JStr ownerToken)])"

type_synonym recorded_response = "nat \<times> string \<times> string"

definition completed_text :: "string \<Rightarrow> recorded_response \<Rightarrow> string" where
  "completed_text fingerprint r =
     (case r of (status, contentType, body) \<Rightarrow>
        stringify (JObj [(''fingerprint'', JStr fingerprint), (''status'', json_nat status),
          (''contentType'', JStr contentType), (''body'', JStr body), (''state'', JStr ''completed'')]))"

definition read_record :: "string \<Rightarrow> idempotency_record option" where
  "read_record raw =
     map_option (\<lambda>j.
       let fp = text_of (json_member ''fingerprint'' j)
       in if text_of (json_member ''state'' j) = Some ''pending'' then PendingRecord fp
          else CompletedRecord fp (number_of (json_member ''status'' j)) (text_of (json_member ''contentType'' j))
                 (text_of (json_member ''body'' j)))
       (json_parse raw)"

section \<open>The store\<close>

text \<open>The condition of both scripts: \<open>record.state ~= 'pending' or record.ownerToken ~= ARGV[1]\<close>
  ends them with 0.\<close>

definition owned_pending :: "string \<Rightarrow> string \<Rightarrow> bool" where
  "owned_pending ownerToken raw \<longleftrightarrow>
     (case json_parse raw of
        None \<Rightarrow> False
      | Some j \<Rightarrow> text_of (json_member ''state'' j) = Some ''pending'' \<and>
                  text_of (json_member ''ownerToken'' j) = Some ownerToken)"

definition complete_script :: "instant \<Rightarrow> string \<Rightarrow> string \<Rightarrow> int \<Rightarrow> redis_key \<Rightarrow> bool \<times> redis_key" where
  "complete_script now ownerToken text ttl k =
     (case redis_get now k of
        None \<Rightarrow> (False, k)
      | Some raw \<Rightarrow> if owned_pending ownerToken raw then (True, Some (text, now + ttl)) else (False, k))"

definition release_if_owner :: "instant \<Rightarrow> string \<Rightarrow> redis_key \<Rightarrow> bool \<times> redis_key" where
  "release_if_owner now ownerToken k =
     (case redis_get now k of
        None \<Rightarrow> (False, k)
      | Some raw \<Rightarrow> if owned_pending ownerToken raw then (True, None) else (False, k))"

text \<open>The two calls of \<open>acquire\<close>. A value that JSON.parse does not read makes it throw (None).\<close>

definition acquire_lock :: "instant \<Rightarrow> string \<Rightarrow> string \<Rightarrow> int \<Rightarrow> redis_key \<Rightarrow> bool \<times> redis_key" where
  "acquire_lock now fingerprint ownerToken lockTtlMs k = set_px_nx now (pending_text fingerprint ownerToken) lockTtlMs k"

definition read_existing :: "instant \<Rightarrow> string \<Rightarrow> redis_key \<Rightarrow> idempotency_record option" where
  "read_existing now fingerprint k =
     (case redis_get now k of
        None \<Rightarrow> Some (PendingRecord (Some fingerprint))
      | Some raw \<Rightarrow> read_record raw)"

section \<open>Requests\<close>

text \<open>A request as the interceptor sees it, after the guards; the files of a multipart request are
  those of \<open>prepareMultipartUploads\<close>.\<close>

record idem_request =
  iq_method :: string
  iq_url :: string
  iq_idempotencyKey :: "string option"
  iq_isMultipart :: bool
  iq_files :: "multipart_file list outcome"
  iq_body :: "json option"
  iq_stamped :: http_request

record idem_config =
  ic_sha256 :: "string \<Rightarrow> string"
  ic_lockTtlSeconds :: int
  ic_ttlSeconds :: int
  ic_uploadRequestTimeoutMs :: int

text \<open>A multipart request may hold its lock as long as an upload may take, and half a minute more.\<close>

definition lock_ttl_ms :: "idem_config \<Rightarrow> idem_request \<Rightarrow> int" where
  "lock_ttl_ms cfg q =
     1000 * (if iq_isMultipart q
             then max (ic_lockTtlSeconds cfg) (- ((- ic_uploadRequestTimeoutMs cfg) div 1000) + 30)
             else ic_lockTtlSeconds cfg)"

definition record_ttl_ms :: "idem_config \<Rightarrow> int" where
  "record_ttl_ms cfg = 1000 * ic_ttlSeconds cfg"

definition MUTATING_METHODS :: "string list" where
  "MUTATING_METHODS = [''POST'', ''PUT'', ''PATCH'', ''DELETE'']"

definition shouldHandle :: "idem_request \<Rightarrow> bool" where
  "shouldHandle q \<longleftrightarrow>
     iq_method q \<in> set MUTATING_METHODS \<and> starts_with ''/api/v1/'' (iq_url q) \<and> iq_idempotencyKey q \<noteq> None"

definition extractPrincipal :: "idem_request \<Rightarrow> string option" where
  "extractPrincipal q =
     (case rq_apiKey (iq_stamped q) of
        Some k \<Rightarrow> Some (stringify (JArr [JStr ''api-key'', JStr (aa_apiKeyId k), JStr (aa_organizationId k)]))
      | None \<Rightarrow>
          map_option (\<lambda>u. stringify (JArr [JStr ''session'', JStr (as_sessionId u), JStr (as_userId u),
              (case as_organizationId u of None \<Rightarrow> JNull | Some org \<Rightarrow> JStr org)]))
            (rq_user (iq_stamped q)))"

text \<open>The entries of every object in the order of their keys. (Engines list keys that are array indices first; the
  result still depends on the sorted entries only.)\<close>

fun canonicalize :: "json \<Rightarrow> json" where
  "canonicalize (JArr js) = JArr (map canonicalize js)"
| "canonicalize (JObj ms) = JObj (sort_key fst (map (\<lambda>(k, v). (k, canonicalize v)) ms))"
| "canonicalize j = j"

definition file_fingerprint :: "multipart_file \<Rightarrow> json" where
  "file_fingerprint f =
     JObj [(''digest'', JStr (mf_digest f)), (''contentType'', JStr (mf_contentType f)), (''size'', int_json (mf_size f))]"

definition buildFingerprint :: "idem_config \<Rightarrow> idem_request \<Rightarrow> string outcome" where
  "buildFingerprint cfg q =
     (if iq_isMultipart q then
        (case iq_files q of
           Inl e \<Rightarrow> Inl e
         | Inr files \<Rightarrow>
             Inr (ic_sha256 cfg (stringify (JArr [JStr (iq_method q), JStr (iq_url q), JArr (map file_fingerprint files)]))))
      else Inr (ic_sha256 cfg (iq_method q @ [CHR 0x0A] @ iq_url q @ [CHR 0x0A] @
                  stringify (canonicalize (default_to JNull (iq_body q))))))"

section \<open>The interceptor\<close>

text \<open>What happens to a request: the handler runs (with or without a lock), a problem is sent, the
  fingerprint could not be built, or a response is replayed.\<close>

datatype interception =
    Proceed "(string \<times> string \<times> string) option"
  | Refused nat string string
  | Raised failure
  | Replayed "nat \<times> string \<times> string option"

datatype gate = Through interception | Ask string string

definition MAX_KEY_LENGTH :: nat where
  "MAX_KEY_LENGTH = 255"

definition key_invalid :: interception where
  "key_invalid = Refused 400 ''idempotency_key_invalid'' ''Idempotency-Key must be between 1 and 255 characters.''"

definition storeKey :: "idem_config \<Rightarrow> string \<Rightarrow> string \<Rightarrow> string" where
  "storeKey cfg who key = ''idem:'' @ ic_sha256 cfg (stringify (JArr [JStr who, JStr key]))"

definition before_store :: "idem_config \<Rightarrow> idem_request \<Rightarrow> gate" where
  "before_store cfg q =
     (if \<not> shouldHandle q then Through (Proceed None)
      else case extractPrincipal q of
        None \<Rightarrow> Through (Proceed None)
      | Some who \<Rightarrow>
          (let key = the (iq_idempotencyKey q)
           in if key = [] \<or> MAX_KEY_LENGTH < length key then Through key_invalid
              else case buildFingerprint cfg q of
                Inl e \<Rightarrow> Through (Raised e)
              | Inr fp \<Rightarrow> Ask (storeKey cfg who key) fp))"

definition answer_existing :: "string \<Rightarrow> idempotency_record \<Rightarrow> interception" where
  "answer_existing fingerprint r =
     (case r of
        PendingRecord _ \<Rightarrow>
          Refused 409 ''idempotency_key_conflict''
            ''A request with this Idempotency-Key is still being processed. Retry shortly.''
      | CompletedRecord fp status contentType body \<Rightarrow>
          if fp \<noteq> Some fingerprint
          then Refused 422 ''idempotency_key_mismatch''
                 ''This Idempotency-Key was already used with a different request payload.''
          else Replayed (default_to 200 status, default_to ''application/json'' contentType, body))"

text \<open>One interception: others run between the two calls, and when Redis is down (\<open>up\<close> is
  false for the call) the request proceeds unprotected.\<close>

definition intercept :: "idem_config \<Rightarrow> instant \<times> instant \<Rightarrow> bool \<times> bool \<Rightarrow> (redis_key \<Rightarrow> redis_key) \<Rightarrow> string \<Rightarrow>
    idem_request \<Rightarrow> (string \<Rightarrow> redis_key) \<Rightarrow> interception \<times> (string \<Rightarrow> redis_key)" where
  "intercept cfg clock up between token q redis =
     (case before_store cfg q of
        Through i \<Rightarrow> (i, redis)
      | Ask key fp \<Rightarrow>
          if \<not> fst up then (Proceed None, redis)
          else case acquire_lock (fst clock) fp token (lock_ttl_ms cfg q) (redis key) of
            (True, k) \<Rightarrow> (Proceed (Some (key, fp, token)), redis(key := k))
          | (False, k) \<Rightarrow>
              let k' = between k
              in (if \<not> snd up then Proceed None
                  else case read_existing (snd clock) fp k' of
                    None \<Rightarrow> Proceed None
                  | Some r \<Rightarrow> answer_existing fp r,
                  redis(key := k')))"

section \<open>The response\<close>

datatype payload = NoPayload | TextPayload string | OpaquePayload

definition replayableBody :: "payload \<Rightarrow> string option" where
  "replayableBody p = (case p of NoPayload \<Rightarrow> Some [] | TextPayload s \<Rightarrow> Some s | OpaquePayload \<Rightarrow> None)"

text \<open>A returned value: nothing, text, a buffer or stream, an object, or one JSON.stringify throws on.\<close>

datatype returned = NoValue | TextValue string | StreamValue | ObjectValue json | CyclicValue

definition serializeReplayBody :: "returned \<Rightarrow> string option" where
  "serializeReplayBody v =
     (case v of NoValue \<Rightarrow> Some [] | TextValue s \<Rightarrow> Some s | StreamValue \<Rightarrow> None
      | ObjectValue j \<Rightarrow> Some (stringify j) | CyclicValue \<Rightarrow> None)"

definition is_success :: "nat \<Rightarrow> bool" where
  "is_success status \<longleftrightarrow> 200 \<le> status \<and> status < 300"

definition completeSuccessRecord :: "idem_config \<Rightarrow> instant \<Rightarrow> string \<Rightarrow> string \<Rightarrow> nat \<Rightarrow> string option \<Rightarrow> payload \<Rightarrow>
    redis_key \<Rightarrow> bool \<times> redis_key" where
  "completeSuccessRecord cfg now fp token status contentType payload k =
     (case replayableBody payload of
        None \<Rightarrow> (False, k)
      | Some body \<Rightarrow>
          complete_script now token (completed_text fp (status, default_to ''application/json'' contentType, body))
            (record_ttl_ms cfg) k)"

definition finalizeIdempotentResponse :: "idem_config \<Rightarrow> instant \<Rightarrow> string \<Rightarrow> string \<Rightarrow> nat \<Rightarrow> string option \<Rightarrow> payload \<Rightarrow>
    redis_key \<Rightarrow> bool \<times> redis_key" where
  "finalizeIdempotentResponse cfg now fp token status contentType payload k =
     (if is_success status then completeSuccessRecord cfg now fp token status contentType payload k
      else if 500 \<le> status then (False, k)
      else release_if_owner now token k)"

definition completeLate :: "idem_config \<Rightarrow> instant \<Rightarrow> string \<Rightarrow> string \<Rightarrow> nat \<Rightarrow> string option \<Rightarrow> returned \<Rightarrow>
    redis_key \<Rightarrow> bool \<times> redis_key" where
  "completeLate cfg now fp token status contentType v k =
     (if \<not> is_success status then (False, k)
      else case serializeReplayBody v of
        None \<Rightarrow> (False, k)
      | Some body \<Rightarrow>
          complete_script now token (completed_text fp (status, default_to ''application/json'' contentType, body))
            (record_ttl_ms cfg) k)"

section \<open>Requests sharing the store\<close>

text \<open>A ghost log of the executions that hold a lock, in the order they took it: how each ended, and
  when its claim on the key runs out. Replays are logged with the request they answered.\<close>

datatype ending = Running | Recorded instant recorded_response | Freed instant

record execution =
  ex_token :: string
  ex_request :: idem_request
  ex_key :: string
  ex_fingerprint :: string
  ex_at :: instant
  ex_end :: ending

definition ex_until :: "idem_config \<Rightarrow> execution \<Rightarrow> instant" where
  "ex_until cfg e =
     (case ex_end e of
        Running \<Rightarrow> ex_at e + lock_ttl_ms cfg (ex_request e)
      | Recorded t _ \<Rightarrow> t + record_ttl_ms cfg
      | Freed t \<Rightarrow> t)"

record idem_state =
  is_now :: instant
  is_redis :: "string \<Rightarrow> redis_key"
  is_log :: "execution list"
  is_waiting :: "(string \<times> idem_request) list"
  is_replays :: "(idem_request \<times> nat \<times> string \<times> string option) list"

definition idem_start :: idem_state where
  "idem_start = \<lparr> is_now = 0, is_redis = (\<lambda>_. None), is_log = [], is_waiting = [], is_replays = [] \<rparr>"

datatype idem_event =
    Elapse nat
  | Enter string idem_request
  | Look string
  | Respond string nat "string option" payload
  | RespondLate string nat "string option" returned

definition end_with :: "string \<Rightarrow> ending \<Rightarrow> execution list \<Rightarrow> execution list" where
  "end_with token x log = map (\<lambda>e. if ex_token e = token then e \<lparr> ex_end := x \<rparr> else e) log"

definition settle :: "execution \<Rightarrow> bool \<times> redis_key \<Rightarrow> ending \<Rightarrow> idem_state \<Rightarrow> idem_state" where
  "settle e effect x s =
     s \<lparr> is_redis := (is_redis s)(ex_key e := snd effect),
         is_log := (if fst effect then end_with (ex_token e) x (is_log s) else is_log s) \<rparr>"

fun apply_event :: "idem_config \<Rightarrow> idem_state \<Rightarrow> idem_event \<Rightarrow> idem_state" where
  "apply_event cfg s (Elapse d) = s \<lparr> is_now := is_now s + int d \<rparr>"
| "apply_event cfg s (Enter token q) =
     (case before_store cfg q of
        Through _ \<Rightarrow> s
      | Ask key fp \<Rightarrow>
          (case acquire_lock (is_now s) fp token (lock_ttl_ms cfg q) (is_redis s key) of
             (True, k) \<Rightarrow>
               s \<lparr> is_redis := (is_redis s)(key := k),
                   is_log := is_log s @ [\<lparr> ex_token = token, ex_request = q, ex_key = key, ex_fingerprint = fp,
                                            ex_at = is_now s, ex_end = Running \<rparr>] \<rparr>
           | (False, k) \<Rightarrow> s \<lparr> is_waiting := (token, q) # is_waiting s \<rparr>))"
| "apply_event cfg s (Look token) =
     (case map_of (is_waiting s) token of
        None \<Rightarrow> s
      | Some q \<Rightarrow>
          let s' = s \<lparr> is_waiting := filter (\<lambda>(t, _). t \<noteq> token) (is_waiting s) \<rparr>
          in case before_store cfg q of
               Through _ \<Rightarrow> s'
             | Ask key fp \<Rightarrow>
                 (case read_existing (is_now s) fp (is_redis s key) of
                    None \<Rightarrow> s'
                  | Some r \<Rightarrow>
                      (case answer_existing fp r of
                         Replayed a \<Rightarrow> s' \<lparr> is_replays := (q, a) # is_replays s' \<rparr>
                       | _ \<Rightarrow> s')))"
| "apply_event cfg s (Respond token status contentType payload) =
     (case List.find (\<lambda>e. ex_token e = token) (is_log s) of
        None \<Rightarrow> s
      | Some e \<Rightarrow>
          settle e (finalizeIdempotentResponse cfg (is_now s) (ex_fingerprint e) token status contentType payload
                      (is_redis s (ex_key e)))
            (if is_success status
             then Recorded (is_now s) (status, default_to ''application/json'' contentType, default_to [] (replayableBody payload))
             else Freed (is_now s)) s)"
| "apply_event cfg s (RespondLate token status contentType v) =
     (case List.find (\<lambda>e. ex_token e = token) (is_log s) of
        None \<Rightarrow> s
      | Some e \<Rightarrow>
          settle e (completeLate cfg (is_now s) (ex_fingerprint e) token status contentType v (is_redis s (ex_key e)))
            (Recorded (is_now s) (status, default_to ''application/json'' contentType, default_to [] (serializeReplayBody v))) s)"

definition run_events :: "idem_config \<Rightarrow> idem_event list \<Rightarrow> idem_state" where
  "run_events cfg evs = foldl (apply_event cfg) idem_start evs"

fun entered :: "idem_event list \<Rightarrow> string list" where
  "entered [] = []"
| "entered (Enter token q # evs) = token # entered evs"
| "entered (_ # evs) = entered evs"

section \<open>What the texts say\<close>

lemma owned_pending_iff: "owned_pending token (pending_text fp token') \<longleftrightarrow> token = token'"
  using json_roundtrip[of "JObj [(''state'', JStr ''pending''), (''fingerprint'', JStr fp), (''ownerToken'', JStr token')]"]
  by (auto simp: owned_pending_def pending_text_def json_member_def text_of_def)

lemma completed_plain:
  "json_parse (completed_text fp (st, ct, body)) =
     Some (JObj [(''fingerprint'', JStr fp), (''status'', json_nat st), (''contentType'', JStr ct), (''body'', JStr body),
       (''state'', JStr ''completed'')])"
  unfolding completed_text_def prod.case by (rule json_roundtrip) (simp add: json_nat_def)

lemma completed_not_pending: "\<not> owned_pending token (completed_text fp r)"
  by (cases r) (simp add: owned_pending_def completed_plain json_member_def text_of_def)

lemma read_pending: "read_record (pending_text fp token) = Some (PendingRecord (Some fp))"
  using json_roundtrip[of "JObj [(''state'', JStr ''pending''), (''fingerprint'', JStr fp), (''ownerToken'', JStr token)]"]
  by (simp add: read_record_def pending_text_def json_member_def text_of_def)

lemma read_completed: "read_record (completed_text fp (st, ct, body)) = Some (CompletedRecord (Some fp) (Some st) (Some ct) (Some body))"
  by (simp add: read_record_def completed_plain json_member_def text_of_def number_of_def json_nat_def)

text \<open>The order of the members of an object does not reach the fingerprint.\<close>

lemma canonicalize_order:
  assumes "mset ms = mset ms'" "distinct (map fst ms)"
  shows "canonicalize (JObj ms) = canonicalize (JObj ms')"
proof -
  let ?f = "\<lambda>(k, v). (k, canonicalize v)"
  have keys: "map fst (map ?f xs) = map fst xs" for xs by (induction xs) auto
  have m: "mset (map ?f ms) = mset (map ?f ms')" using assms(1) by simp
  have "sort_key fst (map ?f ms) = sort_key fst (map ?f ms')"
  proof (rule properties_for_sort_key)
    show "mset (sort_key fst (map ?f ms')) = mset (map ?f ms)" using m by simp
    show "sorted (map fst (sort_key fst (map ?f ms')))" by simp
    show "filter (\<lambda>x. fst k = fst x) (sort_key fst (map ?f ms')) = filter (\<lambda>x. fst k = fst x) (map ?f ms)"
      if ys: "k \<in> set (sort_key fst (map ?f ms'))" for k
    proof -
      have k: "k \<in> set (map ?f ms)" using ys m by (metis set_sort mset_eq_setD)
      have one: "filter (\<lambda>x. fst k = fst x) xs = [k]" if "mset xs = mset (map ?f ms)" for xs
      proof -
        have "mset (map fst xs) = mset (map fst (map ?f ms))" using that by (metis mset_map)
        then have "distinct (map fst xs)" using assms(2) unfolding keys by (metis mset_eq_imp_distinct_iff)
        moreover have "k \<in> set xs" using that k by (metis mset_eq_setD)
        ultimately show ?thesis by (induction xs) (auto simp: filter_empty_conv rev_image_eqI)
      qed
      show ?thesis using one[of "sort_key fst (map ?f ms')"] one[of "map ?f ms"] m by simp
    qed
  qed
  then show ?thesis by simp
qed

section \<open>The invariant\<close>

definition lock_text :: "execution \<Rightarrow> string" where
  "lock_text e =
     (case ex_end e of
        Recorded _ r \<Rightarrow> completed_text (ex_fingerprint e) r
      | _ \<Rightarrow> pending_text (ex_fingerprint e) (ex_token e))"

text \<open>An execution whose claim has not run out.\<close>

definition claims :: "idem_config \<Rightarrow> instant \<Rightarrow> execution \<Rightarrow> bool" where
  "claims cfg now e \<longleftrightarrow> now < ex_until cfg e"

definition well_timed :: "idem_config \<Rightarrow> instant \<Rightarrow> execution \<Rightarrow> bool" where
  "well_timed cfg now e \<longleftrightarrow>
     ex_at e \<le> now \<and> (\<forall>t. ex_end e = Freed t \<longrightarrow> t \<le> now) \<and>
     before_store cfg (ex_request e) = Ask (ex_key e) (ex_fingerprint e)"

definition before :: "idem_config \<Rightarrow> execution \<Rightarrow> execution \<Rightarrow> bool" where
  "before cfg e f \<longleftrightarrow> (ex_key e = ex_key f \<longrightarrow> ex_until cfg e \<le> ex_at f)"

definition from_record :: "idem_config \<Rightarrow> execution list \<Rightarrow> idem_request \<times> nat \<times> string \<times> string option \<Rightarrow> bool" where
  "from_record cfg log a \<longleftrightarrow>
     (case a of (q, status, contentType, body) \<Rightarrow>
        \<exists>e \<in> set log. \<exists>t b. before_store cfg q = Ask (ex_key e) (ex_fingerprint e) \<and>
           ex_end e = Recorded t (status, contentType, b) \<and> body = Some b)"

definition sound_store :: "idem_config \<Rightarrow> instant \<Rightarrow> (string \<Rightarrow> redis_key) \<Rightarrow> execution list \<Rightarrow>
    (idem_request \<times> nat \<times> string \<times> string option) list \<Rightarrow> bool" where
  "sound_store cfg now redis log replays \<longleftrightarrow>
     distinct (map ex_token log) \<and>
     (\<forall>e \<in> set log. well_timed cfg now e) \<and>
     (\<forall>e \<in> set log. claims cfg now e \<longrightarrow> redis (ex_key e) = Some (lock_text e, ex_until cfg e)) \<and>
     (\<forall>k raw. redis_get now (redis k) = Some raw \<longrightarrow> (\<exists>e \<in> set log. ex_key e = k \<and> claims cfg now e)) \<and>
     sorted_wrt (before cfg) log \<and>
     (\<forall>a \<in> set replays. from_record cfg log a)"

definition idem_inv :: "idem_config \<Rightarrow> idem_state \<Rightarrow> bool" where
  "idem_inv cfg s \<longleftrightarrow> sound_store cfg (is_now s) (is_redis s) (is_log s) (is_replays s)"

lemmas idem_invs = idem_inv_def sound_store_def

lemma claimed_value:
  assumes "idem_inv cfg s" "redis_get (is_now s) (is_redis s k) = Some raw"
  obtains e where "e \<in> set (is_log s)" "ex_key e = k" "claims cfg (is_now s) e" "raw = lock_text e"
    "is_redis s k = Some (raw, ex_until cfg e)"
proof -
  obtain e where e: "e \<in> set (is_log s)" "ex_key e = k" "claims cfg (is_now s) e"
    using assms unfolding idem_invs by blast
  then have "is_redis s k = Some (lock_text e, ex_until cfg e)" using assms(1) unfolding idem_invs by blast
  then show ?thesis using that[OF e] assms(2) by (auto simp: redis_get_def split: if_splits)
qed

lemma owned_text: "owned_pending token (lock_text e) \<Longrightarrow> ex_token e = token \<and> (\<forall>t r. ex_end e \<noteq> Recorded t r)"
  by (auto simp: lock_text_def owned_pending_iff completed_not_pending split: ending.splits)

lemma one_token: "distinct (map ex_token log) \<Longrightarrow> e \<in> set log \<Longrightarrow> f \<in> set log \<Longrightarrow> ex_token e = ex_token f \<Longrightarrow> e = f"
  by (simp add: distinct_map inj_on_def)

text \<open>Only the last execution of a key can hold a claim.\<close>

lemma claim_is_alone:
  assumes "idem_inv cfg s" "e \<in> set (is_log s)" "f \<in> set (is_log s)" "ex_key e = ex_key f"
    and "claims cfg (is_now s) e" "claims cfg (is_now s) f"
  shows "e = f"
proof (rule ccontr)
  assume ne: "e \<noteq> f"
  have w: "\<And>x. x \<in> set (is_log s) \<Longrightarrow> ex_at x \<le> is_now s" "sorted_wrt (before cfg) (is_log s)"
    using assms(1) by (auto simp: idem_invs well_timed_def)
  obtain i j where ij: "i < length (is_log s)" "j < length (is_log s)" "is_log s ! i = e" "is_log s ! j = f"
    using assms(2,3) by (metis in_set_conv_nth)
  then have "i \<noteq> j" using ne by blast
  then have "before cfg e f \<or> before cfg f e"
    using ij w(2) unfolding sorted_wrt_iff_nth_less by (metis linorder_neqE_nat)
  then show False using w(1)[OF assms(2)] w(1)[OF assms(3)] assms(4-6) by (auto simp: before_def claims_def)
qed

section \<open>Every event keeps it\<close>

lemma inv_elapse:
  assumes "idem_inv cfg s" shows "idem_inv cfg (s \<lparr> is_now := is_now s + int d \<rparr>)"
proof -
  let ?n = "is_now s + int d"
  have earlier: "claims cfg ?n e \<Longrightarrow> claims cfg (is_now s) e" for e by (simp add: claims_def)
  have wt: "well_timed cfg ?n e" if "e \<in> set (is_log s)" for e
  proof -
    have "well_timed cfg (is_now s) e" using assms that unfolding idem_invs by blast
    then show ?thesis by (fastforce simp: well_timed_def)
  qed
  have live: "\<exists>e \<in> set (is_log s). ex_key e = k \<and> claims cfg ?n e"
    if "redis_get ?n (is_redis s k) = Some raw" for k raw
  proof -
    have "redis_get (is_now s) (is_redis s k) = Some raw"
      using that by (auto simp: redis_get_def split: option.splits if_splits)
    then obtain e where e: "e \<in> set (is_log s)" "ex_key e = k" "is_redis s k = Some (raw, ex_until cfg e)"
      by (rule claimed_value[OF assms])
    then show ?thesis using that by (auto simp: redis_get_def claims_def split: if_splits)
  qed
  have "sound_store cfg ?n (is_redis s) (is_log s) (is_replays s)"
    unfolding sound_store_def
  proof (intro conjI ballI allI impI)
    show "distinct (map ex_token (is_log s))" "sorted_wrt (before cfg) (is_log s)" using assms by (simp_all add: idem_invs)
    show "well_timed cfg ?n e" if "e \<in> set (is_log s)" for e by (rule wt[OF that])
    show "is_redis s (ex_key e) = Some (lock_text e, ex_until cfg e)" if "e \<in> set (is_log s)" "claims cfg ?n e" for e
      using assms earlier[OF that(2)] that(1) unfolding idem_invs by blast
    show "\<exists>e \<in> set (is_log s). ex_key e = k \<and> claims cfg ?n e" if "redis_get ?n (is_redis s k) = Some raw" for k raw
      by (rule live[OF that])
    show "from_record cfg (is_log s) a" if "a \<in> set (is_replays s)" for a using assms that unfolding idem_invs by blast
  qed
  then show ?thesis by (simp add: idem_inv_def)
qed

lemma in_end_with:
  "g \<in> set (end_with token x log) \<longleftrightarrow> (\<exists>f \<in> set log. g = (if ex_token f = token then f \<lparr> ex_end := x \<rparr> else f))"
  unfolding end_with_def set_map image_def by simp

lemma from_record_more:
  assumes "from_record cfg log a" "\<And>e. e \<in> set log \<Longrightarrow> ex_end e \<noteq> Running \<Longrightarrow> e \<in> set log'"
  shows "from_record cfg log' a"
proof -
  obtain q st ct body where a: "a = (q, st, ct, body)" by (cases a)
  obtain e t b where e: "e \<in> set log" "before_store cfg q = Ask (ex_key e) (ex_fingerprint e)"
    "ex_end e = Recorded t (st, ct, b)" "body = Some b"
    using assms(1) unfolding from_record_def a prod.case by blast
  have "e \<in> set log'" using assms(2)[OF e(1)] e(3) by simp
  then show ?thesis using e(2-4) unfolding from_record_def a prod.case by blast
qed

text \<open>A script that took effect ended the one running execution that holds the claim.\<close>

lemma inv_end:
  assumes inv: "idem_inv cfg s" and e: "e \<in> set (is_log s)"
    and raw: "redis_get (is_now s) (is_redis s (ex_key e)) = Some raw" "owned_pending (ex_token e) raw"
    and x: "(\<exists>r. x = Recorded (is_now s) r \<and> 0 < record_ttl_ms cfg \<and>
               k = Some (completed_text (ex_fingerprint e) r, is_now s + record_ttl_ms cfg)) \<or> (x = Freed (is_now s) \<and> k = None)"
  shows "idem_inv cfg (settle e (True, k) x s)"
proof -
  let ?log = "is_log s" and ?n = "is_now s"
  let ?f = "\<lambda>g. if ex_token g = ex_token e then g \<lparr> ex_end := x \<rparr> else g"
  have dist: "distinct (map ex_token ?log)" using inv by (simp add: idem_invs)
  obtain f where f: "f \<in> set ?log" "claims cfg ?n f" "raw = lock_text f" using claimed_value[OF inv raw(1)] by metis
  have "ex_token f = ex_token e" "\<And>t r. ex_end f \<noteq> Recorded t r" using owned_text raw(2) f(3) by blast+
  moreover from this have "f = e" using one_token[OF dist f(1) e] by simp
  ultimately have claim: "claims cfg ?n e" and open_end: "\<And>t r. ex_end e \<noteq> Recorded t r" using f(2) by auto
  have running: "ex_end e = Running"
    using claim open_end inv e by (cases "ex_end e") (auto simp: claims_def ex_until_def idem_invs well_timed_def)
  have same: "?f g = g" if "g \<in> set ?log" "g \<noteq> e" for g using one_token[OF dist that(1) e] that(2) by auto
  have log': "set (end_with (ex_token e) x ?log) = insert (e \<lparr> ex_end := x \<rparr>) (set ?log - {e})"
  proof (rule set_eqI)
    fix g
    show "g \<in> set (end_with (ex_token e) x ?log) \<longleftrightarrow> g \<in> insert (e \<lparr> ex_end := x \<rparr>) (set ?log - {e})"
    proof
      assume "g \<in> set (end_with (ex_token e) x ?log)"
      then obtain h where "h \<in> set ?log" "g = ?f h" unfolding in_end_with by blast
      then show "g \<in> insert (e \<lparr> ex_end := x \<rparr>) (set ?log - {e})" using same[of h] by (cases "h = e") auto
    next
      assume "g \<in> insert (e \<lparr> ex_end := x \<rparr>) (set ?log - {e})"
      then have "g = ?f e \<or> g \<in> set ?log \<and> g = ?f g" using same[of g] by auto
      then show "g \<in> set (end_with (ex_token e) x ?log)" unfolding in_end_with using e by blast
    qed
  qed
  have alone: "ex_key g \<noteq> ex_key e" if "g \<in> set ?log" "g \<noteq> e" "claims cfg ?n g" for g
    using claim_is_alone[OF inv that(1) e] claim that by blast
  have now_free: "claims cfg ?n (e \<lparr> ex_end := x \<rparr>) \<longleftrightarrow> k \<noteq> None"
    and held: "k \<noteq> None \<Longrightarrow> k = Some (lock_text (e \<lparr> ex_end := x \<rparr>), ex_until cfg (e \<lparr> ex_end := x \<rparr>))"
    using x by (auto simp: claims_def ex_until_def lock_text_def)
  have "sound_store cfg ?n ((is_redis s)(ex_key e := k)) (end_with (ex_token e) x ?log) (is_replays s)"
    unfolding sound_store_def
  proof (intro conjI ballI allI impI)
    show "distinct (map ex_token (end_with (ex_token e) x ?log))"
      using dist by (simp add: end_with_def comp_def if_distrib cong: if_cong)
    show "well_timed cfg ?n g" if "g \<in> set (end_with (ex_token e) x ?log)" for g
      using that inv e x unfolding log' idem_invs well_timed_def by auto
    show "((is_redis s)(ex_key e := k)) (ex_key g) = Some (lock_text g, ex_until cfg g)"
      if "g \<in> set (end_with (ex_token e) x ?log)" "claims cfg ?n g" for g
    proof (cases "g = e \<lparr> ex_end := x \<rparr>")
      case True
      then show ?thesis using that(2) now_free held by simp
    next
      case False
      then have g: "g \<in> set ?log" "g \<noteq> e" using that(1) log' by auto
      then show ?thesis using alone[OF g that(2)] that(2) inv unfolding idem_invs by simp
    qed
    show "\<exists>g \<in> set (end_with (ex_token e) x ?log). ex_key g = key \<and> claims cfg ?n g"
      if "redis_get ?n (((is_redis s)(ex_key e := k)) key) = Some v" for key v
    proof (cases "key = ex_key e")
      case True
      then have "k \<noteq> None" using that by (cases k) (simp_all add: redis_get_def)
      then show ?thesis using now_free True log' by auto
    next
      case False
      then have "redis_get ?n (is_redis s key) = Some v" using that by simp
      then obtain g where "g \<in> set ?log" "ex_key g = key" "claims cfg ?n g" by (rule claimed_value[OF inv])
      then show ?thesis using False log' by auto
    qed
    have step: "before cfg (?f a) (?f b)" if ab: "a \<in> set ?log" "b \<in> set ?log" "before cfg a b" for a b
    proof (cases "a = e")
      case True
      have "ex_at b \<le> ?n" using inv ab(2) by (simp add: idem_invs well_timed_def)
      then have "ex_key a \<noteq> ex_key b" using ab(3) claim True by (auto simp: before_def claims_def)
      then show ?thesis by (simp add: before_def)
    next
      case False
      then show ?thesis using ab(3) same[OF ab(1) False] by (simp add: before_def)
    qed
    show "sorted_wrt (before cfg) (end_with (ex_token e) x ?log)"
      unfolding end_with_def sorted_wrt_map
      by (rule sorted_wrt_mono_rel[of _ "before cfg"]) (use step inv in \<open>auto simp: idem_invs\<close>)
    show "from_record cfg (end_with (ex_token e) x ?log) a" if "a \<in> set (is_replays s)" for a
      by (rule from_record_more[of cfg ?log]) (use inv that running log' in \<open>auto simp: idem_invs\<close>)
  qed
  then show ?thesis by (simp add: idem_inv_def settle_def)
qed

lemma settle_unchanged: "settle e (False, is_redis s (ex_key e)) x s = s"
  by (simp add: settle_def)

lemma script_cases:
  "complete_script now token text ttl k = (b, k') \<Longrightarrow>
     (\<not> b \<and> k' = k) \<or> (b \<and> k' = Some (text, now + ttl) \<and> (\<exists>raw. redis_get now k = Some raw \<and> owned_pending token raw))"
  "release_if_owner now token k = (b, k') \<Longrightarrow>
     (\<not> b \<and> k' = k) \<or> (b \<and> k' = None \<and> (\<exists>raw. redis_get now k = Some raw \<and> owned_pending token raw))"
  by (auto simp: complete_script_def release_if_owner_def split: option.splits if_splits)

lemma found_token: "List.find (\<lambda>e. ex_token e = token) log = Some e \<Longrightarrow> e \<in> set log \<and> ex_token e = token"
  by (drule find_SomeD) simp

lemma inv_respond:
  assumes "idem_inv cfg s" "0 < ic_ttlSeconds cfg"
  shows "idem_inv cfg (apply_event cfg s (Respond token status ct payload))"
proof (cases "List.find (\<lambda>e. ex_token e = token) (is_log s)")
  case (Some e)
  note e = found_token[OF Some]
  obtain b k where fin: "finalizeIdempotentResponse cfg (is_now s) (ex_fingerprint e) token status ct payload
      (is_redis s (ex_key e)) = (b, k)" by force
  let ?x = "if is_success status
       then Recorded (is_now s) (status, default_to ''application/json'' ct, default_to [] (replayableBody payload))
       else Freed (is_now s)"
  have ttl: "0 < record_ttl_ms cfg" using assms(2) by (simp add: record_ttl_ms_def)
  have "(\<not> b \<and> k = is_redis s (ex_key e)) \<or>
    (b \<and> (\<exists>raw. redis_get (is_now s) (is_redis s (ex_key e)) = Some raw \<and> owned_pending token raw) \<and>
     ((\<exists>r. ?x = Recorded (is_now s) r \<and> 0 < record_ttl_ms cfg \<and>
          k = Some (completed_text (ex_fingerprint e) r, is_now s + record_ttl_ms cfg)) \<or> (?x = Freed (is_now s) \<and> k = None)))"
    using fin ttl
    by (auto simp: finalizeIdempotentResponse_def completeSuccessRecord_def dest!: script_cases split: if_splits option.splits)
  then show ?thesis
    using inv_end[OF assms(1) conjunct1[OF e], of _ ?x k] e settle_unchanged[of e s ?x] assms(1) fin Some
    by (cases b) auto
qed (use assms(1) in simp)

lemma inv_respond_late:
  assumes "idem_inv cfg s" "0 < ic_ttlSeconds cfg"
  shows "idem_inv cfg (apply_event cfg s (RespondLate token status ct v))"
proof (cases "List.find (\<lambda>e. ex_token e = token) (is_log s)")
  case (Some e)
  note e = found_token[OF Some]
  obtain b k where fin: "completeLate cfg (is_now s) (ex_fingerprint e) token status ct v (is_redis s (ex_key e)) = (b, k)"
    by force
  let ?x = "Recorded (is_now s) (status, default_to ''application/json'' ct, default_to [] (serializeReplayBody v))"
  have ttl: "0 < record_ttl_ms cfg" using assms(2) by (simp add: record_ttl_ms_def)
  have "(\<not> b \<and> k = is_redis s (ex_key e)) \<or>
    (b \<and> (\<exists>raw. redis_get (is_now s) (is_redis s (ex_key e)) = Some raw \<and> owned_pending token raw) \<and>
     (\<exists>r. ?x = Recorded (is_now s) r \<and> 0 < record_ttl_ms cfg \<and>
          k = Some (completed_text (ex_fingerprint e) r, is_now s + record_ttl_ms cfg)))"
    using fin ttl by (auto simp: completeLate_def dest!: script_cases split: if_splits option.splits)
  then show ?thesis
    using inv_end[OF assms(1) conjunct1[OF e], of _ ?x k] e settle_unchanged[of e s ?x] assms(1) fin Some
    by (cases b) auto
qed (use assms(1) in simp)

lemma lock_cases:
  "acquire_lock now fp token ttl k = (b, k') \<Longrightarrow>
     (\<not> b \<and> k' = k) \<or> (b \<and> redis_get now k = None \<and> k' = Some (pending_text fp token, now + ttl))"
  by (auto simp: acquire_lock_def set_px_nx_def split: if_splits)

lemma lock_ttl_pos: "0 < ic_lockTtlSeconds cfg \<Longrightarrow> 0 < lock_ttl_ms cfg q"
  by (auto simp: lock_ttl_ms_def max_def)

text \<open>Taking a free lock starts an execution that claims the key.\<close>

lemma inv_start:
  assumes inv: "idem_inv cfg s" and free: "redis_get (is_now s) (is_redis s key) = None"
    and ask: "before_store cfg q = Ask key fp" and fresh: "token \<notin> ex_token ` set (is_log s)" and ttl: "0 < ic_lockTtlSeconds cfg"
  shows "idem_inv cfg (s \<lparr> is_redis := (is_redis s)(key := Some (pending_text fp token, is_now s + lock_ttl_ms cfg q)),
           is_log := is_log s @ [\<lparr> ex_token = token, ex_request = q, ex_key = key, ex_fingerprint = fp,
                                    ex_at = is_now s, ex_end = Running \<rparr>] \<rparr>)"
proof -
  let ?e = "\<lparr> ex_token = token, ex_request = q, ex_key = key, ex_fingerprint = fp, ex_at = is_now s, ex_end = Running \<rparr>"
  let ?r = "(is_redis s)(key := Some (pending_text fp token, is_now s + lock_ttl_ms cfg q))"
  have claim: "claims cfg (is_now s) ?e" using lock_ttl_pos[OF ttl] by (simp add: claims_def ex_until_def)
  have over: "\<not> claims cfg (is_now s) e" if "e \<in> set (is_log s)" "ex_key e = key" for e
  proof
    assume "claims cfg (is_now s) e"
    then have "is_redis s key = Some (lock_text e, ex_until cfg e)" "is_now s < ex_until cfg e"
      using inv that unfolding idem_invs claims_def by blast+
    then show False using free by (simp add: redis_get_def)
  qed
  have "sound_store cfg (is_now s) ?r (is_log s @ [?e]) (is_replays s)"
    unfolding sound_store_def
  proof (intro conjI ballI allI impI)
    show "distinct (map ex_token (is_log s @ [?e]))" using inv fresh by (simp add: idem_invs)
    show "well_timed cfg (is_now s) e" if "e \<in> set (is_log s @ [?e])" for e
      using that inv ask by (auto simp: idem_invs well_timed_def)
    show "?r (ex_key e) = Some (lock_text e, ex_until cfg e)" if "e \<in> set (is_log s @ [?e])" "claims cfg (is_now s) e" for e
    proof (cases "e = ?e")
      case True
      then show ?thesis by (simp add: lock_text_def ex_until_def)
    next
      case False
      then have "e \<in> set (is_log s)" using that(1) by auto
      then show ?thesis using over that(2) inv unfolding idem_invs by auto
    qed
    show "\<exists>e \<in> set (is_log s @ [?e]). ex_key e = k \<and> claims cfg (is_now s) e"
      if "redis_get (is_now s) (?r k) = Some raw" for k raw
    proof (cases "k = key")
      case True
      then show ?thesis using claim by (intro bexI[of _ ?e]) simp_all
    next
      case False
      then have "redis_get (is_now s) (is_redis s k) = Some raw" using that by simp
      then obtain e where "e \<in> set (is_log s)" "ex_key e = k" "claims cfg (is_now s) e" by (rule claimed_value[OF inv])
      then show ?thesis by auto
    qed
    show "sorted_wrt (before cfg) (is_log s @ [?e])"
      using inv over by (auto simp: idem_invs sorted_wrt_append before_def claims_def not_less)
    show "from_record cfg (is_log s @ [?e]) a" if "a \<in> set (is_replays s)" for a
      by (rule from_record_more[of cfg "is_log s"]) (use inv that in \<open>auto simp: idem_invs\<close>)
  qed
  then show ?thesis by (simp add: idem_inv_def)
qed

lemma inv_enter:
  assumes "idem_inv cfg s" "token \<notin> ex_token ` set (is_log s)" "0 < ic_lockTtlSeconds cfg"
  shows "idem_inv cfg (apply_event cfg s (Enter token q))"
proof (cases "before_store cfg q")
  case (Ask key fp)
  obtain b k where lock: "acquire_lock (is_now s) fp token (lock_ttl_ms cfg q) (is_redis s key) = (b, k)" by force
  show ?thesis
  proof (cases b)
    case True
    then show ?thesis
      using lock_cases[OF lock] inv_start[OF assms(1) _ Ask assms(2,3)] lock Ask by auto
  next
    case False
    then show ?thesis using assms(1) lock Ask by (simp add: idem_inv_def)
  qed
qed (use assms(1) in simp)

text \<open>A replay is what a recorded execution answered.\<close>

lemma inv_look:
  assumes inv: "idem_inv cfg s"
  shows "idem_inv cfg (apply_event cfg s (Look token))"
proof (cases "map_of (is_waiting s) token")
  case (Some q)
  show ?thesis
  proof (cases "before_store cfg q")
    case (Ask key fp)
    have "from_record cfg (is_log s) (q, a)"
      if r: "read_existing (is_now s) fp (is_redis s key) = Some r" "answer_existing fp r = Replayed a" for r a
    proof -
      obtain raw where raw: "redis_get (is_now s) (is_redis s key) = Some raw" "read_record raw = Some r"
        using r by (auto simp: read_existing_def answer_existing_def split: option.splits)
      obtain e where e: "e \<in> set (is_log s)" "ex_key e = key" "raw = lock_text e" by (rule claimed_value[OF inv raw(1)])
      obtain t st ct b where rec: "ex_end e = Recorded t (st, ct, b)"
        using raw(2) r(2) e(3) by (cases "ex_end e") (auto simp: lock_text_def read_pending answer_existing_def)
      then have "r = CompletedRecord (Some (ex_fingerprint e)) (Some st) (Some ct) (Some b)"
        using raw(2) e(3) by (simp add: lock_text_def read_completed)
      then have "ex_fingerprint e = fp" "a = (st, ct, Some b)"
        using r(2) by (auto simp: answer_existing_def split: if_splits)
      then show ?thesis using e rec Ask by (auto simp: from_record_def)
    qed
    then show ?thesis
      using inv Some Ask by (auto simp: Let_def idem_invs split: option.splits interception.splits)
  qed (use inv Some in \<open>simp add: Let_def idem_inv_def\<close>)
qed (use inv in simp)

lemma end_with_tokens: "ex_token ` set (end_with token x log) = ex_token ` set log"
proof -
  have "map ex_token (end_with token x log) = map ex_token log" by (simp add: end_with_def)
  then show ?thesis by (metis set_map)
qed

lemma log_tokens:
  "ex_token ` set (is_log (apply_event cfg s ev)) \<subseteq> ex_token ` set (is_log s) \<union> set (entered [ev])"
proof (cases ev)
  case (Look token)
  then show ?thesis by (auto simp: Let_def split: option.splits gate.splits interception.splits)
next
  case (Enter token q)
  then show ?thesis by (auto split: gate.splits prod.splits bool.splits)
next
  case (Respond token st ct p)
  then show ?thesis by (cases "List.find (\<lambda>e. ex_token e = token) (is_log s)") (simp_all add: settle_def end_with_tokens)
next
  case (RespondLate token st ct v)
  then show ?thesis by (cases "List.find (\<lambda>e. ex_token e = token) (is_log s)") (simp_all add: settle_def end_with_tokens)
qed auto

lemma entered_append: "entered (evs @ evs') = entered evs @ entered evs'"
  by (induction evs rule: entered.induct) simp_all

lemma inv_event:
  assumes "idem_inv cfg s" "0 < ic_lockTtlSeconds cfg" "0 < ic_ttlSeconds cfg"
    and "set (entered [ev]) \<inter> ex_token ` set (is_log s) = {}"
  shows "idem_inv cfg (apply_event cfg s ev)"
  using assms inv_elapse inv_enter inv_look inv_respond inv_respond_late by (cases ev) auto

lemma inv_run:
  assumes "0 < ic_lockTtlSeconds cfg" "0 < ic_ttlSeconds cfg" "distinct (entered evs)"
  shows "idem_inv cfg (run_events cfg evs) \<and> ex_token ` set (is_log (run_events cfg evs)) \<subseteq> set (entered evs)"
  using assms(3)
proof (induction evs rule: rev_induct)
  case Nil
  then show ?case by (simp add: run_events_def idem_start_def idem_invs redis_get_def)
next
  case (snoc ev evs)
  let ?s = "run_events cfg evs"
  have s: "idem_inv cfg ?s" "ex_token ` set (is_log ?s) \<subseteq> set (entered evs)" "set (entered [ev]) \<inter> set (entered evs) = {}"
    using snoc by (auto simp: entered_append)
  have e: "run_events cfg (evs @ [ev]) = apply_event cfg ?s ev" by (simp add: run_events_def)
  have "idem_inv cfg (apply_event cfg ?s ev)" by (rule inv_event[OF s(1) assms(1,2)]) (use s(2,3) in blast)
  moreover have "ex_token ` set (is_log (apply_event cfg ?s ev)) \<subseteq> set (entered (evs @ [ev]))"
    unfolding entered_append set_append using log_tokens[of cfg ?s ev] s(2) by blast
  ultimately show ?case unfolding e by blast
qed

section \<open>One execution per key\<close>

lemma stringify_inject: "plain_json a \<Longrightarrow> plain_json b \<Longrightarrow> stringify a = stringify b \<Longrightarrow> a = b"
  by (metis json_roundtrip option.inject)

lemma asked_by:
  assumes "before_store cfg q = Ask k fp"
  obtains who key where "extractPrincipal q = Some who" "iq_idempotencyKey q = Some key" "k = storeKey cfg who key"
  using assms
  by (auto simp: before_store_def Let_def shouldHandle_def split: if_splits option.splits sum.splits)

lemma same_store_key:
  assumes "inj (ic_sha256 cfg)" "before_store cfg q = Ask k fp" "before_store cfg q' = Ask k fp'"
  shows "extractPrincipal q = extractPrincipal q' \<and> iq_idempotencyKey q = iq_idempotencyKey q'"
proof -
  obtain who key who' key' where a: "extractPrincipal q = Some who" "iq_idempotencyKey q = Some key" "k = storeKey cfg who key"
    "extractPrincipal q' = Some who'" "iq_idempotencyKey q' = Some key'" "k = storeKey cfg who' key'"
    using asked_by[OF assms(2)] asked_by[OF assms(3)] by metis
  then have "ic_sha256 cfg (stringify (JArr [JStr who, JStr key])) = ic_sha256 cfg (stringify (JArr [JStr who', JStr key']))"
    by (simp only: storeKey_def same_append_eq)
  then have "stringify (JArr [JStr who, JStr key]) = stringify (JArr [JStr who', JStr key'])"
    by (rule injD[OF assms(1)])
  then have "JArr [JStr who, JStr key] = JArr [JStr who', JStr key']" by (rule stringify_inject[rotated 2]) simp_all
  then show ?thesis using a by simp
qed

text \<open>C27. A key executes once. In every interleaving of requests, responses, late completions and
  expiries with Redis up and owner tokens that do not repeat, the executions that took the lock of one key
  follow one another only after the earlier one's claim ended: its lock expired before a result was
  recorded, the recorded result expired, or an answer below 500 outside the 2xx range freed the key. A replayed
  response is the one recorded by an execution under the same store key with the same fingerprint; when
  SHA-256 does not collide, that execution had the same principal and the same Idempotency-Key.\<close>

theorem key_executes_once:
  assumes "0 < ic_lockTtlSeconds cfg" "0 < ic_ttlSeconds cfg" "distinct (entered evs)" "s = run_events cfg evs"
  shows "(\<forall>i j. i < j \<and> j < length (is_log s) \<and> ex_key (is_log s ! i) = ex_key (is_log s ! j) \<longrightarrow>
            ex_until cfg (is_log s ! i) \<le> ex_at (is_log s ! j)) \<and>
         (\<forall>(q, status, contentType, body) \<in> set (is_replays s). \<exists>e \<in> set (is_log s). \<exists>t b.
            ex_end e = Recorded t (status, contentType, b) \<and> body = Some b \<and>
            before_store cfg q = Ask (ex_key e) (ex_fingerprint e) \<and>
            before_store cfg (ex_request e) = Ask (ex_key e) (ex_fingerprint e) \<and>
            (inj (ic_sha256 cfg) \<longrightarrow>
               extractPrincipal q = extractPrincipal (ex_request e) \<and> iq_idempotencyKey q = iq_idempotencyKey (ex_request e)))"
proof (intro conjI)
  have inv: "idem_inv cfg s" using inv_run[OF assms(1-3)] unfolding assms(4) by blast
  show "\<forall>i j. i < j \<and> j < length (is_log s) \<and> ex_key (is_log s ! i) = ex_key (is_log s ! j) \<longrightarrow>
      ex_until cfg (is_log s ! i) \<le> ex_at (is_log s ! j)"
    using inv by (simp add: idem_invs sorted_wrt_iff_nth_less before_def)
  show "\<forall>(q, status, contentType, body) \<in> set (is_replays s). \<exists>e \<in> set (is_log s). \<exists>t b.
      ex_end e = Recorded t (status, contentType, b) \<and> body = Some b \<and>
      before_store cfg q = Ask (ex_key e) (ex_fingerprint e) \<and>
      before_store cfg (ex_request e) = Ask (ex_key e) (ex_fingerprint e) \<and>
      (inj (ic_sha256 cfg) \<longrightarrow>
         extractPrincipal q = extractPrincipal (ex_request e) \<and> iq_idempotencyKey q = iq_idempotencyKey (ex_request e))"
  proof (clarify)
    fix q status contentType body
    assume "(q, status, contentType, body) \<in> set (is_replays s)"
    then obtain e t b where e: "e \<in> set (is_log s)" "before_store cfg q = Ask (ex_key e) (ex_fingerprint e)"
      "ex_end e = Recorded t (status, contentType, b)" "body = Some b"
      using inv by (fastforce simp: idem_invs from_record_def)
    have "before_store cfg (ex_request e) = Ask (ex_key e) (ex_fingerprint e)"
      using inv e(1) by (simp add: idem_invs well_timed_def)
    then show "\<exists>e \<in> set (is_log s). \<exists>t b. ex_end e = Recorded t (status, contentType, b) \<and> body = Some b \<and>
        before_store cfg q = Ask (ex_key e) (ex_fingerprint e) \<and>
        before_store cfg (ex_request e) = Ask (ex_key e) (ex_fingerprint e) \<and>
        (inj (ic_sha256 cfg) \<longrightarrow>
           extractPrincipal q = extractPrincipal (ex_request e) \<and> iq_idempotencyKey q = iq_idempotencyKey (ex_request e))"
      using e same_store_key[OF _ e(2)] by blast
  qed
qed

text \<open>Two equal requests: the first answers while the second waits, and the second is answered from the
  record; the log then has one execution.\<close>

definition example_order :: idem_request where
  "example_order =
     \<lparr> iq_method = ''POST'', iq_url = ''/api/v1/things'', iq_idempotencyKey = Some ''k1'', iq_isMultipart = False,
       iq_files = Inr [], iq_body = None,
       iq_stamped = \<lparr> rq_xApiKey = NoHeader, rq_authorization = None,
         rq_apiKey = Some \<lparr> aa_apiKeyId = ''key'', aa_organizationId = ''org'', aa_scopes = [] \<rparr>, rq_user = None \<rparr> \<rparr>"

definition example_idem :: idem_config where
  "example_idem = \<lparr> ic_sha256 = (\<lambda>s. s), ic_lockTtlSeconds = 60, ic_ttlSeconds = 86400, ic_uploadRequestTimeoutMs = 900000 \<rparr>"

definition example_events :: "idem_event list" where
  "example_events =
     [Enter ''t1'' example_order, Elapse 5, Enter ''t2'' example_order, Respond ''t1'' 201 None (TextPayload ''ok''),
      Look ''t2'']"

lemma example_replayed: "map (fst \<circ> snd) (is_replays (run_events example_idem example_events)) = [201]"
  by code_simp

theorem key_executes_once_witness:
  "\<exists>q status contentType body e. (q, status, contentType, body) \<in> set (is_replays (run_events example_idem example_events)) \<and>
     e \<in> set (is_log (run_events example_idem example_events)) \<and> extractPrincipal q = extractPrincipal (ex_request e)"
proof -
  have "distinct (entered example_events)" by (simp add: example_events_def)
  then have conclusion: "\<forall>(q, status, contentType, body) \<in> set (is_replays (run_events example_idem example_events)).
      \<exists>e \<in> set (is_log (run_events example_idem example_events)). extractPrincipal q = extractPrincipal (ex_request e)"
    using conjunct2[OF key_executes_once[of example_idem example_events "run_events example_idem example_events"]]
    by (fastforce simp: example_idem_def)
  obtain q a rest where "is_replays (run_events example_idem example_events) = (q, a) # rest"
    using example_replayed by (cases "is_replays (run_events example_idem example_events)") auto
  then show ?thesis using conclusion by (cases a) (auto simp del: split_paired_Ex)
qed

end
