(* ===== verification/Domain_Events.thy ===== *)
theory Domain_Events
  imports Outbox
begin

text \<open>The published contract of the domain events (libs/shared/src/lib/domain-events.ts): the event names, the
  streams listeners subscribe to, and the payloads consumers parse. Which texts Zod accepts as an e-mail
  address or a UUID are parameters.\<close>

definition USERS_REGISTERED :: string where "USERS_REGISTERED = ''users.registered''"
definition USERS_LOGGED_IN :: string where "USERS_LOGGED_IN = ''users.logged_in''"
definition USERS_LOGGED_OUT :: string where "USERS_LOGGED_OUT = ''users.logged_out''"
definition ORGANIZATIONS_CREATED :: string where "ORGANIZATIONS_CREATED = ''organizations.created''"
definition ORGANIZATIONS_DELETED :: string where "ORGANIZATIONS_DELETED = ''organizations.deleted''"
definition ORGANIZATIONS_MEMBER_ADDED :: string where
  "ORGANIZATIONS_MEMBER_ADDED = ''organizations.member_added''"
definition ORGANIZATIONS_MEMBER_REMOVED :: string where
  "ORGANIZATIONS_MEMBER_REMOVED = ''organizations.member_removed''"
definition ORGANIZATIONS_MEMBER_ROLE_UPDATED :: string where
  "ORGANIZATIONS_MEMBER_ROLE_UPDATED = ''organizations.member_role_updated''"
definition ORGANIZATIONS_ROLE_CHANGED :: string where
  "ORGANIZATIONS_ROLE_CHANGED = ''organizations.role_changed''"

lemmas event_names = USERS_REGISTERED_def USERS_LOGGED_IN_def USERS_LOGGED_OUT_def ORGANIZATIONS_CREATED_def
  ORGANIZATIONS_DELETED_def ORGANIZATIONS_MEMBER_ADDED_def ORGANIZATIONS_MEMBER_REMOVED_def
  ORGANIZATIONS_MEMBER_ROLE_UPDATED_def ORGANIZATIONS_ROLE_CHANGED_def

definition DOMAIN_EVENTS :: "string list" where
  "DOMAIN_EVENTS =
     [USERS_REGISTERED, USERS_LOGGED_IN, USERS_LOGGED_OUT, ORGANIZATIONS_CREATED, ORGANIZATIONS_DELETED,
      ORGANIZATIONS_MEMBER_ADDED, ORGANIZATIONS_MEMBER_REMOVED, ORGANIZATIONS_MEMBER_ROLE_UPDATED,
      ORGANIZATIONS_ROLE_CHANGED]"

text \<open>The wildcard subscriptions users.* and organizations.*: one more segment after the context's name.\<close>

definition on_stream :: "string \<Rightarrow> string \<Rightarrow> bool" where
  "on_stream context name = (case split_on CHR ''.'' name of [c, _] \<Rightarrow> c = context | _ \<Rightarrow> False)"

section \<open>Payloads\<close>

text \<open>\<open>z.string().optional()\<close> with a check: None is a refusal.\<close>

definition optional_text :: "(string \<Rightarrow> bool) \<Rightarrow> json option \<Rightarrow> string option option" where
  "optional_text ok v =
     (case v of
        None \<Rightarrow> Some None
      | Some (JStr s) \<Rightarrow> if ok s then Some (Some s) else None
      | Some _ \<Rightarrow> None)"

record user_event_payload =
  up_email :: string
  up_ip :: "string option"
  up_userAgent :: "string option"

definition userEventPayloadSchema :: "(string \<Rightarrow> bool) \<Rightarrow> (string \<times> json) list \<Rightarrow> user_event_payload option" where
  "userEventPayloadSchema is_email payload =
     (case (text_of (map_of payload ''email''), optional_text (\<lambda>s. True) (map_of payload ''ip''),
            optional_text (\<lambda>s. True) (map_of payload ''userAgent'')) of
        (Some email, Some ip, Some agent) \<Rightarrow>
          if is_email email then Some \<lparr> up_email = email, up_ip = ip, up_userAgent = agent \<rparr> else None
      | _ \<Rightarrow> None)"

record organization_event_payload =
  op_slug :: "string option"
  op_name :: "string option"
  op_userId :: "string option"
  op_role :: "string option"
  op_oldRole :: "string option"
  op_action :: "string option"

definition organizationEventPayloadSchema ::
    "(string \<Rightarrow> bool) \<Rightarrow> (string \<times> json) list \<Rightarrow> organization_event_payload option" where
  "organizationEventPayloadSchema is_uuid payload =
     (case (optional_text (\<lambda>s. True) (map_of payload ''slug''), optional_text (\<lambda>s. True) (map_of payload ''name''),
            optional_text is_uuid (map_of payload ''userId''), optional_text (\<lambda>s. True) (map_of payload ''role''),
            optional_text (\<lambda>s. True) (map_of payload ''oldRole''),
            optional_text (\<lambda>s. s \<in> {''INSERT'', ''UPDATE'', ''DELETE''}) (map_of payload ''action'')) of
        (Some slug, Some name, Some user, Some role, Some oldRole, Some action) \<Rightarrow>
          Some \<lparr> op_slug = slug, op_name = name, op_userId = user, op_role = role, op_oldRole = oldRole,
                 op_action = action \<rparr>
      | _ \<Rightarrow> None)"

end
