(* ===== verification/Keyed_Table.thy ===== *)
theory Keyed_Table
  imports Domain_Events
begin

text \<open>What the consumers of domain events share: the insert of a row whose primary key may be taken, as the
  Prisma client reports it, and the contract of a consumer that uses the event's id as that key. A database
  call may be refused, or succeed with its answer lost; a relay that sees the failure delivers the event
  again.\<close>

section \<open>Inserting under a primary key\<close>

datatype db_fault = Healthy | Refused failure | Unacknowledged failure

datatype db_error = P2002 | Other_Error failure

definition db_insert :: "('r \<Rightarrow> 'k) \<Rightarrow> db_fault \<Rightarrow> 'r \<Rightarrow> 'r list \<Rightarrow> (db_error + unit) \<times> 'r list" where
  "db_insert key fault r rows =
     (case fault of
        Refused f \<Rightarrow> (Inl (Other_Error f), rows)
      | Unacknowledged f \<Rightarrow> (Inl (Other_Error f), if key r \<in> key ` set rows then rows else rows @ [r])
      | Healthy \<Rightarrow> if key r \<in> key ` set rows then (Inl P2002, rows) else (Inr (), rows @ [r]))"

text \<open>The try and catch around the insert: a taken key is no failure.\<close>

definition unless_duplicate :: "(db_error + unit) \<times> 's \<Rightarrow> unit outcome \<times> 's" where
  "unless_duplicate res =
     (case res of
        (Inr _, s) \<Rightarrow> (Inr (), s)
      | (Inl P2002, s) \<Rightarrow> (Inr (), s)
      | (Inl (Other_Error f), s) \<Rightarrow> (Inl f, s))"

lemma insert_known:
  "key r \<in> key ` set rows \<Longrightarrow> snd (unless_duplicate (db_insert key fault r rows)) = rows"
  by (cases fault) (simp_all add: unless_duplicate_def db_insert_def)

lemma insert_fresh:
  "key r \<notin> key ` set rows \<Longrightarrow>
     unless_duplicate (db_insert key fault r rows) =
       (case fault of Healthy \<Rightarrow> (Inr (), rows @ [r]) | Refused f \<Rightarrow> (Inl f, rows)
        | Unacknowledged f \<Rightarrow> (Inl f, rows @ [r]))"
  by (cases fault) (simp_all add: unless_duplicate_def db_insert_def)

section \<open>Prisma's JSON columns\<close>

definition jsonObjectOrEmpty :: "json \<Rightarrow> (string \<times> json) list" where
  "jsonObjectOrEmpty raw = (case raw of JObj ms \<Rightarrow> ms | _ \<Rightarrow> [])"

section \<open>The contract of an event consumer\<close>

text \<open>\<open>entry e\<close> is what the event calls for, \<open>entries s\<close> what is on record, under keys taken from the event
  ids, and \<open>deliver x e s\<close> one delivery in circumstances \<open>x\<close>. \<open>other\<close> is everything else that happens to
  the state.\<close>

datatype ('x, 's) ledger_event = Delivered 'x domain_event | Happened "'s \<Rightarrow> 's"

fun ledger_run ::
    "('x \<Rightarrow> domain_event \<Rightarrow> 's \<Rightarrow> unit outcome \<times> 's) \<Rightarrow> ('x, 's) ledger_event list \<Rightarrow> 's \<Rightarrow> 's" where
  "ledger_run deliver [] s = s"
| "ledger_run deliver (Delivered x e # t) s = ledger_run deliver t (snd (deliver x e s))"
| "ledger_run deliver (Happened f # t) s = ledger_run deliver t (f s)"

lemma ledger_run_append [simp]: "ledger_run deliver (t @ u) s = ledger_run deliver u (ledger_run deliver t s)"
  by (induction deliver t s rule: ledger_run.induct) simp_all

locale event_ledger =
  fixes deliver :: "'x \<Rightarrow> domain_event \<Rightarrow> 's \<Rightarrow> unit outcome \<times> 's"
    and entries :: "'s \<Rightarrow> 'e list"
    and key :: "'e \<Rightarrow> 'k"
    and entry :: "domain_event \<Rightarrow> 'e option"
    and other :: "('s \<Rightarrow> 's) \<Rightarrow> bool"
  assumes nothing_due: "entry e = None \<Longrightarrow> entries (snd (deliver x e s)) = entries s"
    and on_record: "entry e = Some y \<Longrightarrow> key y \<in> key ` set (entries s) \<Longrightarrow>
          entries (snd (deliver x e s)) = entries s"
    and not_on_record: "entry e = Some y \<Longrightarrow> key y \<notin> key ` set (entries s) \<Longrightarrow>
          entries (snd (deliver x e s)) = entries s @ [y] \<or>
          entries (snd (deliver x e s)) = entries s \<and> fst (deliver x e s) \<noteq> Inr ()"
    and other_keeps: "other f \<Longrightarrow> entries (f s) = entries s"
begin

definition proper :: "('x, 's) ledger_event list \<Rightarrow> bool" where
  "proper t \<longleftrightarrow> (\<forall>f. Happened f \<in> set t \<longrightarrow> other f)"

lemma one_delivery:
  "\<exists>ys. entries (snd (deliver x e s)) = entries s @ ys \<and> (\<forall>y \<in> set ys. entry e = Some y) \<and>
     (distinct (map key (entries s)) \<longrightarrow> distinct (map key (entries s @ ys)))"
proof (cases "entry e")
  case None
  then show ?thesis using nothing_due[of e x s] by (intro exI[of _ "[]"]) simp
next
  case (Some y)
  show ?thesis
  proof (cases "key y \<in> key ` set (entries s)")
    case True
    then show ?thesis using on_record[OF Some, of s x] by (intro exI[of _ "[]"]) simp
  next
    case False
    consider "entries (snd (deliver x e s)) = entries s @ [y]" | "entries (snd (deliver x e s)) = entries s"
      using not_on_record[OF Some False, of x] by blast
    then show ?thesis
    proof cases
      case 1
      then show ?thesis using Some False by (intro exI[of _ "[y]"]) auto
    next
      case 2
      then show ?thesis by (intro exI[of _ "[]"]) simp
    qed
  qed
qed

lemma answered_delivery:
  "entry e = Some y \<Longrightarrow> fst (deliver x e s) = Inr () \<Longrightarrow> key y \<in> key ` set (entries (snd (deliver x e s)))"
  using on_record[of e y s x] not_on_record[of e y s x] by (cases "key y \<in> key ` set (entries s)") auto

lemma run_grows:
  "proper t \<Longrightarrow>
     \<exists>ys. entries (ledger_run deliver t s) = entries s @ ys \<and>
       (\<forall>y \<in> set ys. \<exists>x e. Delivered x e \<in> set t \<and> entry e = Some y) \<and>
       (distinct (map key (entries s)) \<longrightarrow> distinct (map key (entries s @ ys)))"
proof (induction t arbitrary: s)
  case Nil
  show ?case by simp
next
  case (Cons a t)
  then have t: "proper t" by (simp add: proper_def)
  show ?case
  proof (cases a)
    case (Delivered x e)
    obtain ys where ys: "entries (snd (deliver x e s)) = entries s @ ys" "\<forall>y \<in> set ys. entry e = Some y"
      "distinct (map key (entries s)) \<longrightarrow> distinct (map key (entries s @ ys))"
      using one_delivery[of x e s] by blast
    obtain zs where zs: "entries (ledger_run deliver t (snd (deliver x e s))) = (entries s @ ys) @ zs"
      "\<forall>y \<in> set zs. \<exists>x e. Delivered x e \<in> set t \<and> entry e = Some y"
      "distinct (map key (entries s @ ys)) \<longrightarrow> distinct (map key ((entries s @ ys) @ zs))"
      using Cons.IH[OF t, of "snd (deliver x e s)"] unfolding ys(1) by blast
    have "entries (ledger_run deliver (a # t) s) = entries s @ (ys @ zs)" using zs(1) Delivered by simp
    moreover have "\<forall>y \<in> set (ys @ zs). \<exists>x e. Delivered x e \<in> set (a # t) \<and> entry e = Some y"
      using ys(2) zs(2) Delivered by (metis Un_iff list.set_intros set_append)
    moreover have "distinct (map key (entries s)) \<longrightarrow> distinct (map key (entries s @ ys @ zs))"
      using ys(3) zs(3) by simp
    ultimately show ?thesis by blast
  next
    case (Happened f)
    then have "entries (f s) = entries s" using Cons.prems other_keeps by (auto simp: proper_def)
    then show ?thesis using Cons.IH[OF t, of "f s"] Happened
      by (metis ledger_run.simps(3) list.set_intros(2))
  qed
qed

lemma run_answered:
  assumes "proper (pre @ Delivered x e # post)" "entry e = Some y"
    "fst (deliver x e (ledger_run deliver pre s)) = Inr ()"
  shows "key y \<in> key ` set (entries (ledger_run deliver (pre @ Delivered x e # post) s))"
proof -
  let ?s = "snd (deliver x e (ledger_run deliver pre s))"
  have "proper post" using assms(1) by (auto simp: proper_def)
  then obtain ys where "entries (ledger_run deliver post ?s) = entries ?s @ ys" using run_grows by blast
  then show ?thesis using answered_delivery[OF assms(2,3)] by auto
qed

lemma exactly_once:
  assumes "proper t" "distinct (map key (entries s))" "key y \<notin> key ` set (entries s)"
    and same: "\<And>x' e' y'. Delivered x' e' \<in> set t \<Longrightarrow> entry e' = Some y' \<Longrightarrow> key y' = key y \<Longrightarrow> y' = y"
    and t: "t = pre @ Delivered x e # post" "entry e = Some y" "fst (deliver x e (ledger_run deliver pre s)) = Inr ()"
  shows "filter (\<lambda>z. key z = key y) (entries (ledger_run deliver t s)) = [y]"
proof -
  let ?es = "entries (ledger_run deliver t s)"
  obtain ys where ys: "?es = entries s @ ys" "\<forall>z \<in> set ys. \<exists>x e. Delivered x e \<in> set t \<and> entry e = Some z"
    "distinct (map key ?es)"
    using run_grows[OF assms(1), of s] assms(2) by metis
  have "key y \<in> key ` set ?es" using run_answered assms(1) t by simp
  then obtain z where z: "z \<in> set ?es" "key z = key y" by auto
  then have "z \<in> set ys" using assms(3) ys(1) by (auto simp: image_iff)
  then have "z = y" using ys(2) z(2) same by blast
  then show ?thesis using filter_one[OF ys(3)] z(1) by simp
qed

end

end
