(* ===== verification/Notifications.thy ===== *)
theory Notifications
  imports Keyed_Table Http_Guards
begin

text \<open>In-app notifications (libs/modules/notifications): the entity, the Prisma repository and the in-memory
  one, the handlers, the controller's calls, and the listener that turns membership events into
  notifications. Listings read a replica, all else the primary; a query is given the rows of the database
  it reads. The uuid packages are parameters.\<close>

section \<open>The entity\<close>

record 'd notification_of =
  nt_id :: id
  nt_organizationId :: id
  nt_userId :: id
  nt_type :: string
  nt_title :: string
  nt_body :: string
  nt_data :: 'd
  nt_readAt :: "instant option"
  nt_createdAt :: instant

text \<open>An entity holds its data as an object, a row any JSON value.\<close>

type_synonym notification = "(string \<times> json) list notification_of"
type_synonym notification_row = "json notification_of"

record create_notification =
  cn_id :: "id option"
  cn_organizationId :: id
  cn_userId :: id
  cn_type :: string
  cn_title :: string
  cn_body :: string
  cn_data :: "(string \<times> json) list option"
  cn_occurredAt :: "instant option"

definition create_notification_entity :: "id \<Rightarrow> instant \<Rightarrow> create_notification \<Rightarrow> notification" where
  "create_notification_entity newId now input =
     \<lparr> nt_id = default_to newId (cn_id input), nt_organizationId = cn_organizationId input,
       nt_userId = cn_userId input, nt_type = cn_type input, nt_title = cn_title input, nt_body = cn_body input,
       nt_data = default_to [] (cn_data input), nt_readAt = None,
       nt_createdAt = default_to now (cn_occurredAt input) \<rparr>"

definition isRead :: "'d notification_of \<Rightarrow> bool" where
  "isRead n \<longleftrightarrow> nt_readAt n \<noteq> None"

definition with_data :: "'e \<Rightarrow> 'd notification_of \<Rightarrow> 'e notification_of" where
  "with_data d n =
     \<lparr> nt_id = nt_id n, nt_organizationId = nt_organizationId n, nt_userId = nt_userId n, nt_type = nt_type n,
       nt_title = nt_title n, nt_body = nt_body n, nt_data = d, nt_readAt = nt_readAt n,
       nt_createdAt = nt_createdAt n \<rparr>"

definition notification_entity :: "notification_row \<Rightarrow> notification" where
  "notification_entity row = with_data (jsonObjectOrEmpty (nt_data row)) row"

definition notification_key :: "'d notification_of \<Rightarrow> cursor_key" where
  "notification_key n = (nt_createdAt n, nt_id n)"

section \<open>The Prisma repository\<close>

definition owned_by :: "id \<Rightarrow> id \<Rightarrow> 'd notification_of \<Rightarrow> bool" where
  "owned_by org user n \<longleftrightarrow> nt_organizationId n = org \<and> nt_userId n = user"

definition pn_findAllCursor ::
    "id \<Rightarrow> id \<Rightarrow> decoded_cursor option \<Rightarrow> nat \<Rightarrow> bool \<Rightarrow> notification_row list \<Rightarrow> notification page_slice" where
  "pn_findAllCursor org user startingAfter limit unreadOnly rows =
     (let page = keyset_query notification_key
                   (\<lambda>n. owned_by org user n \<and> (unreadOnly \<longrightarrow> nt_readAt n = None)) rows startingAfter limit
      in \<lparr> pg_items = map notification_entity (pg_items page), pg_hasMore = pg_hasMore page \<rparr>)"

definition pn_countUnread :: "id \<Rightarrow> id \<Rightarrow> notification_row list \<Rightarrow> nat" where
  "pn_countUnread org user rows = count_rows (\<lambda>n. owned_by org user n \<and> nt_readAt n = None) rows"

text \<open>The insert leaves readAt to its default, null.\<close>

definition pn_create :: "db_fault \<Rightarrow> notification \<Rightarrow> notification_row list \<Rightarrow> unit outcome \<times> notification_row list" where
  "pn_create fault n rows =
     unless_duplicate (db_insert nt_id fault (with_data (JObj (nt_data n)) (n \<lparr> nt_readAt := None \<rparr>)) rows)"

definition pn_markRead :: "id \<Rightarrow> id \<Rightarrow> id \<Rightarrow> instant \<Rightarrow> notification_row list \<Rightarrow> bool \<times> notification_row list" where
  "pn_markRead org user i readAt rows =
     (let sel = (\<lambda>n. nt_id n = i \<and> owned_by org user n \<and> nt_readAt n = None) in
      (0 < count_rows sel rows, update_rows sel (\<lambda>n. n \<lparr> nt_readAt := Some readAt \<rparr>) rows))"

definition pn_markAllRead :: "id \<Rightarrow> id \<Rightarrow> instant \<Rightarrow> notification_row list \<Rightarrow> nat \<times> notification_row list" where
  "pn_markAllRead org user readAt rows =
     (let sel = (\<lambda>n. owned_by org user n \<and> nt_readAt n = None) in
      (count_rows sel rows, update_rows sel (\<lambda>n. n \<lparr> nt_readAt := Some readAt \<rparr>) rows))"

definition pn_exists :: "id \<Rightarrow> id \<Rightarrow> id \<Rightarrow> notification_row list \<Rightarrow> bool" where
  "pn_exists org user i rows \<longleftrightarrow> List.find (\<lambda>n. nt_id n = i \<and> owned_by org user n) rows \<noteq> None"

section \<open>The in-memory repository\<close>

text \<open>A Map from ids to entities, in the order of first insertion.\<close>

type_synonym notification_map = "(id \<times> notification) list"

definition mn_findAllCursor ::
    "id \<Rightarrow> id \<Rightarrow> decoded_cursor option \<Rightarrow> nat \<Rightarrow> bool \<Rightarrow> notification_map \<Rightarrow> notification page_slice" where
  "mn_findAllCursor org user startingAfter limit unreadOnly m =
     paginateNewestFirst notification_key
       (filter (\<lambda>n. if unreadOnly then \<not> isRead n else True) (filter (owned_by org user) (map snd m)))
       startingAfter limit"

definition mn_countUnread :: "id \<Rightarrow> id \<Rightarrow> notification_map \<Rightarrow> nat" where
  "mn_countUnread org user m = length (filter (\<lambda>n. owned_by org user n \<and> \<not> isRead n) (map snd m))"

definition mn_create :: "notification \<Rightarrow> notification_map \<Rightarrow> notification_map" where
  "mn_create n m = (if map_of m (nt_id n) = None then AList.update (nt_id n) n m else m)"

definition mn_markRead :: "id \<Rightarrow> id \<Rightarrow> id \<Rightarrow> instant \<Rightarrow> notification_map \<Rightarrow> bool \<times> notification_map" where
  "mn_markRead org user i readAt m =
     (case map_of m i of
        None \<Rightarrow> (False, m)
      | Some n \<Rightarrow>
          if nt_organizationId n \<noteq> org \<or> nt_userId n \<noteq> user \<or> isRead n then (False, m)
          else (True, AList.update i (n \<lparr> nt_readAt := Some readAt \<rparr>) m))"

fun mn_mark_each :: "id \<Rightarrow> id \<Rightarrow> instant \<Rightarrow> notification list \<Rightarrow> nat \<times> notification_map \<Rightarrow> nat \<times> notification_map" where
  "mn_mark_each org user readAt [] st = st"
| "mn_mark_each org user readAt (n # ns) (marked, m) =
     (case mn_markRead org user (nt_id n) readAt m of
        (did, m') \<Rightarrow> mn_mark_each org user readAt ns (if did then marked + 1 else marked, m'))"

definition mn_markAllRead :: "id \<Rightarrow> id \<Rightarrow> instant \<Rightarrow> notification_map \<Rightarrow> nat \<times> notification_map" where
  "mn_markAllRead org user readAt m = mn_mark_each org user readAt (map snd m) (0, m)"

definition mn_exists :: "id \<Rightarrow> id \<Rightarrow> id \<Rightarrow> notification_map \<Rightarrow> bool" where
  "mn_exists org user i m =
     (case map_of m i of None \<Rightarrow> False | Some n \<Rightarrow> nt_organizationId n = org \<and> nt_userId n = user)"

section \<open>The handlers\<close>

definition notificationNotFound :: failure where
  "notificationNotFound =
     raise_problem (problem NotFound ''notification_not_found'' ''errors.notifications.not_found'' ''id''
       ''Notification not found'')"

definition create_notification_command ::
    "id \<Rightarrow> instant \<Rightarrow> (notification \<Rightarrow> 's \<Rightarrow> unit outcome \<times> 's) \<Rightarrow> create_notification \<Rightarrow> 's \<Rightarrow> unit outcome \<times> 's" where
  "create_notification_command newId now create input s = create (create_notification_entity newId now input) s"

text \<open>\<open>between\<close> is what other requests do between the two calls.\<close>

definition mark_notification_read ::
    "(id \<Rightarrow> id \<Rightarrow> id \<Rightarrow> instant \<Rightarrow> 's \<Rightarrow> bool \<times> 's) \<Rightarrow> (id \<Rightarrow> id \<Rightarrow> id \<Rightarrow> 's \<Rightarrow> bool) \<Rightarrow> ('s \<Rightarrow> 's)
     \<Rightarrow> id \<Rightarrow> id \<Rightarrow> id \<Rightarrow> instant \<Rightarrow> 's \<Rightarrow> unit outcome \<times> 's" where
  "mark_notification_read markRead existing between org user i now s =
     (case markRead org user i now s of
        (marked, s') \<Rightarrow>
          if marked then (Inr (), s')
          else (let s'' = between s' in
                if existing org user i s'' then (Inr (), s'') else (Inl notificationNotFound, s'')))"

definition mark_all_notifications_read ::
    "(id \<Rightarrow> id \<Rightarrow> instant \<Rightarrow> 's \<Rightarrow> nat \<times> 's) \<Rightarrow> id \<Rightarrow> id \<Rightarrow> instant \<Rightarrow> 's \<Rightarrow> nat outcome \<times> 's" where
  "mark_all_notifications_read markAllRead org user now s =
     (case markAllRead org user now s of (marked, s') \<Rightarrow> (Inr marked, s'))"

record notification_dto =
  nd_id :: id
  nd_type :: string
  nd_title :: string
  nd_body :: string
  nd_data :: "(string \<times> json) list"
  nd_readAt :: "instant option"
  nd_createdAt :: instant

definition notification_dto_of :: "notification \<Rightarrow> notification_dto" where
  "notification_dto_of n =
     \<lparr> nd_id = nt_id n, nd_type = nt_type n, nd_title = nt_title n, nd_body = nt_body n, nd_data = nt_data n,
       nd_readAt = nt_readAt n, nd_createdAt = nt_createdAt n \<rparr>"

definition list_notifications ::
    "(id \<Rightarrow> bool) \<Rightarrow> (id \<Rightarrow> id \<Rightarrow> decoded_cursor option \<Rightarrow> nat \<Rightarrow> bool \<Rightarrow> 's \<Rightarrow> notification page_slice)
     \<Rightarrow> id \<Rightarrow> id \<Rightarrow> nat \<Rightarrow> string option \<Rightarrow> bool option \<Rightarrow> 's \<Rightarrow> (notification_dto list \<times> bool \<times> string option) outcome" where
  "list_notifications is_uuid7 findAllCursor org user limit startingAfter unreadOnly s =
     (case decodeStartingAfter is_uuid7 startingAfter of
        Inl e \<Rightarrow> Inl e
      | Inr c \<Rightarrow>
          (let page = findAllCursor org user c limit (default_to False unreadOnly) s in
           Inr (map notification_dto_of (pg_items page), pg_hasMore page,
                lastCursorOf notification_key (pg_items page))))"

definition count_unread_notifications :: "(id \<Rightarrow> id \<Rightarrow> 's \<Rightarrow> nat) \<Rightarrow> id \<Rightarrow> id \<Rightarrow> 's \<Rightarrow> nat" where
  "count_unread_notifications countUnread org user s = countUnread org user s"

section \<open>The controller\<close>

text \<open>The organization is that of the caller's session, the user the caller.\<close>

definition notifications_list ::
    "(id \<Rightarrow> bool) \<Rightarrow> authenticated_session \<Rightarrow> nat \<Rightarrow> string option \<Rightarrow> bool option \<Rightarrow> notification_row list
     \<Rightarrow> notification_dto list_response outcome" where
  "notifications_list is_uuid7 user limit startingAfter unreadOnly rows =
     (case requireOrganizationId (Some user) of
        Inl e \<Rightarrow> Inl e
      | Inr org \<Rightarrow>
          (case list_notifications is_uuid7 pn_findAllCursor org (as_userId user) limit startingAfter unreadOnly rows of
             Inl e \<Rightarrow> Inl e
           | Inr (items, hasMore, cursor) \<Rightarrow>
               Inr (toCursorListResponse ''/api/v1/notifications'' items hasMore cursor)))"

definition notifications_unread_count :: "authenticated_session \<Rightarrow> notification_row list \<Rightarrow> nat outcome" where
  "notifications_unread_count user rows =
     (case requireOrganizationId (Some user) of
        Inl e \<Rightarrow> Inl e
      | Inr org \<Rightarrow> Inr (count_unread_notifications pn_countUnread org (as_userId user) rows))"

definition notifications_mark_read ::
    "authenticated_session \<Rightarrow> (notification_row list \<Rightarrow> notification_row list) \<Rightarrow> id \<Rightarrow> instant \<Rightarrow> notification_row list
     \<Rightarrow> unit outcome \<times> notification_row list" where
  "notifications_mark_read user between i now rows =
     (case requireOrganizationId (Some user) of
        Inl e \<Rightarrow> (Inl e, rows)
      | Inr org \<Rightarrow> mark_notification_read pn_markRead pn_exists between org (as_userId user) i now rows)"

definition notifications_mark_all_read ::
    "authenticated_session \<Rightarrow> instant \<Rightarrow> notification_row list \<Rightarrow> nat outcome \<times> notification_row list" where
  "notifications_mark_all_read user now rows =
     (case requireOrganizationId (Some user) of
        Inl e \<Rightarrow> (Inl e, rows)
      | Inr org \<Rightarrow> mark_all_notifications_read pn_markAllRead org (as_userId user) now rows)"

section \<open>The two repositories agree\<close>

definition row_of_notification :: "notification \<Rightarrow> notification_row" where
  "row_of_notification n = with_data (JObj (nt_data n)) n"

definition rows_of :: "notification_map \<Rightarrow> notification_row list" where
  "rows_of m = map (row_of_notification \<circ> snd) m"

definition keyed_notifications :: "notification_map \<Rightarrow> bool" where
  "keyed_notifications m \<longleftrightarrow> distinct (map fst m) \<and> (\<forall>(k, n) \<in> set m. nt_id n = k)"

lemma row_of_notification_sel [simp]:
  "nt_id (row_of_notification n) = nt_id n" "nt_readAt (row_of_notification n) = nt_readAt n"
  "owned_by org user (row_of_notification n) = owned_by org user n"
  "notification_key (row_of_notification n) = notification_key n"
  "notification_entity (row_of_notification n) = n"
  "row_of_notification (n \<lparr> nt_readAt := t \<rparr>) = (row_of_notification n) \<lparr> nt_readAt := t \<rparr>"
  by (simp_all add: row_of_notification_def with_data_def owned_by_def notification_key_def notification_entity_def
      jsonObjectOrEmpty_def)

lemma keyed_ids: "keyed_notifications m \<Longrightarrow> map nt_id (rows_of m) = map fst m"
  by (auto simp: keyed_notifications_def rows_of_def)

lemma update_at: "k \<notin> fst ` set xs \<Longrightarrow> AList.update k v (xs @ (k, w) # ys) = xs @ (k, v) # ys"
  by (induction xs) auto

lemma update_new: "k \<notin> fst ` set xs \<Longrightarrow> AList.update k v xs = xs @ [(k, v)]"
  by (induction xs) auto

lemma memory_mark_at:
  assumes "keyed_notifications (xs @ (i, n) # ys)"
  shows "mn_markRead org user i t (xs @ (i, n) # ys) =
    (if owned_by org user n \<and> nt_readAt n = None then (True, xs @ (i, n \<lparr> nt_readAt := Some t \<rparr>) # ys)
     else (False, xs @ (i, n) # ys))"
proof -
  have i: "i \<notin> fst ` set xs" using assms by (auto simp: keyed_notifications_def)
  then have "map_of xs i = None" by (simp add: map_of_eq_None_iff)
  then have "map_of (xs @ (i, n) # ys) i = Some n" by (simp add: map_add_def)
  then show ?thesis using update_at[OF i] by (auto simp: mn_markRead_def owned_by_def isRead_def)
qed

lemma memory_mark_absent: "map_of m i = None \<Longrightarrow> mn_markRead org user i t m = (False, m)"
  by (simp add: mn_markRead_def)

lemma keyed_mark:
  "keyed_notifications (xs @ (i, n) # ys) \<Longrightarrow> keyed_notifications (xs @ (i, n \<lparr> nt_readAt := t \<rparr>) # ys)"
  by (auto simp: keyed_notifications_def)

lemma mark_read_agrees:
  assumes "keyed_notifications m"
  shows "pn_markRead org user i t (rows_of m) = map_prod id rows_of (mn_markRead org user i t m)"
    and "keyed_notifications (snd (mn_markRead org user i t m))"
proof -
  have "pn_markRead org user i t (rows_of m) = map_prod id rows_of (mn_markRead org user i t m) \<and>
      keyed_notifications (snd (mn_markRead org user i t m))"
  proof (cases "map_of m i")
    case None
    then have "\<forall>r \<in> set (rows_of m). nt_id r \<noteq> i"
      using assms by (force simp: keyed_notifications_def rows_of_def map_of_eq_None_iff)
    then have "count_rows (\<lambda>n. nt_id n = i \<and> owned_by org user n \<and> nt_readAt n = None) (rows_of m) = 0"
      by (auto simp: count_rows_def filter_empty_conv)
    then show ?thesis using None assms
      by (simp add: pn_markRead_def Let_def memory_mark_absent update_rows_none)
  next
    case (Some n)
    then obtain xs ys where m: "m = xs @ (i, n) # ys" by (meson map_of_SomeD split_list)
    have ids: "nt_id (snd p) = fst p" if "p \<in> set m" for p
      using assms that by (auto simp: keyed_notifications_def)
    have "i \<notin> fst ` set (xs @ ys)" using assms m by (simp add: keyed_notifications_def image_Un)
    then have others: "\<forall>p \<in> set (xs @ ys). nt_id (snd p) \<noteq> i" "nt_id n = i"
      using ids[unfolded m] by (auto simp: image_iff) 
    have away: "\<forall>r \<in> set (rows_of xs). nt_id r \<noteq> i" "\<forall>r \<in> set (rows_of ys). nt_id r \<noteq> i"
      using others(1) by (simp_all add: rows_of_def)
    let ?sel = "\<lambda>n. nt_id n = i \<and> owned_by org user n \<and> nt_readAt n = None"
    have "count_rows ?sel (rows_of xs) = 0" "count_rows ?sel (rows_of ys) = 0"
      using away by (auto simp: count_rows_def filter_empty_conv)
    note none = this this[THEN update_rows_none]
    have split: "rows_of m = rows_of xs @ row_of_notification n # rows_of ys" by (simp add: m rows_of_def)
    have "count_rows ?sel (rows_of m) = (if ?sel n then 1 else 0)"
      using none(1,2) unfolding split rows_append by simp
    moreover have "update_rows ?sel f (rows_of m) =
        rows_of xs @ (if ?sel n then f (row_of_notification n) else row_of_notification n) # rows_of ys" for f
      using none(3,4)[of f] unfolding split rows_append by simp
    ultimately show ?thesis
      using assms keyed_mark[of xs i n ys] others(2) unfolding m memory_mark_at[OF assms[unfolded m]]
      by (simp add: pn_markRead_def rows_of_def)
  qed
  then show "pn_markRead org user i t (rows_of m) = map_prod id rows_of (mn_markRead org user i t m)"
    "keyed_notifications (snd (mn_markRead org user i t m))" by simp_all
qed

lemma mark_each_agrees:
  "keyed_notifications (done_part @ rest) \<Longrightarrow>
     mn_mark_each org user t (map snd rest) (k, done_part @ rest) =
       (k + count_rows (\<lambda>n. owned_by org user n \<and> nt_readAt n = None) (map snd rest),
        done_part @ map (\<lambda>(i, n). (i, if owned_by org user n \<and> nt_readAt n = None then n \<lparr> nt_readAt := Some t \<rparr> else n)) rest)"
proof (induction rest arbitrary: done_part k)
  case Nil
  show ?case by (simp add: count_rows_def)
next
  case (Cons p rest)
  obtain i n where p: "p = (i, n)" by (cases p)
  have i: "nt_id n = i" using Cons.prems by (simp add: p keyed_notifications_def)
  note at = memory_mark_at[OF Cons.prems[unfolded p], of org user t]
  show ?case
  proof (cases "owned_by org user n \<and> nt_readAt n = None")
    case True
    then have "keyed_notifications ((done_part @ [(i, n \<lparr> nt_readAt := Some t \<rparr>)]) @ rest)"
      using keyed_mark[OF Cons.prems[unfolded p]] by simp
    from Cons.IH[OF this] show ?thesis using True at by (simp add: p i count_rows_def)
  next
    case False
    have "keyed_notifications ((done_part @ [(i, n)]) @ rest)" using Cons.prems by (simp add: p)
    from Cons.IH[OF this, of k] have tail: "mn_mark_each org user t (map snd rest) (k, done_part @ (i, n) # rest) =
        (k + count_rows (\<lambda>n. owned_by org user n \<and> nt_readAt n = None) (map snd rest),
         done_part @ (i, n) # map (\<lambda>(i, n). (i, if owned_by org user n \<and> nt_readAt n = None
           then n \<lparr> nt_readAt := Some t \<rparr> else n)) rest)"
      by (simp only: append.assoc append.simps)
    have "mn_markRead org user i t (done_part @ (i, n) # rest) = (False, done_part @ (i, n) # rest)"
      using at by (simp only: False if_False)
    then have "mn_mark_each org user t (map snd (p # rest)) (k, done_part @ p # rest) =
        mn_mark_each org user t (map snd rest) (k, done_part @ (i, n) # rest)"
      by (simp add: p i)
    then show ?thesis unfolding tail using False by (auto simp add: p count_rows_def)
  qed
qed

lemma count_rows_of:
  "count_rows sel (rows_of m) = count_rows (\<lambda>n. sel (row_of_notification n)) (map snd m)"
  by (simp add: rows_of_def count_rows_def filter_map comp_def)

lemma mark_all_agrees:
  assumes "keyed_notifications m"
  shows "pn_markAllRead org user t (rows_of m) = map_prod id rows_of (mn_markAllRead org user t m)"
    and "keyed_notifications (snd (mn_markAllRead org user t m))"
  using mark_each_agrees[of "[]" m org user t 0] assms
  by (auto simp: mn_markAllRead_def pn_markAllRead_def Let_def count_rows_of update_rows_def rows_of_def comp_def
      keyed_notifications_def split_def count_rows_map)
lemma create_agrees:
  assumes "keyed_notifications m" "nt_readAt n = None"
  shows "pn_create Healthy n (rows_of m) = (Inr (), rows_of (mn_create n m))"
    and "keyed_notifications (mn_create n m)"
proof -
  have "nt_id ` set (rows_of m) = fst ` set m" using keyed_ids[OF assms(1)] by (metis list.set_map)
  then have known: "nt_id n \<in> nt_id ` set (rows_of m) \<longleftrightarrow> map_of m (nt_id n) \<noteq> None"
    by (auto simp: map_of_eq_None_iff)
  have row: "with_data (JObj (nt_data n)) (n \<lparr> nt_readAt := None \<rparr>) = row_of_notification n"
    using assms(2) by (simp add: row_of_notification_def with_data_def)
  show "pn_create Healthy n (rows_of m) = (Inr (), rows_of (mn_create n m))"
    using known by (auto simp: pn_create_def row mn_create_def unless_duplicate_def db_insert_def rows_of_def
        map_of_eq_None_iff update_new)
  show "keyed_notifications (mn_create n m)"
    using assms(1) by (auto simp: mn_create_def keyed_notifications_def map_of_eq_None_iff update_new)
qed

lemma exists_agrees:
  assumes "keyed_notifications m"
  shows "pn_exists org user i (rows_of m) = mn_exists org user i m"
proof (cases "map_of m i")
  case None
  have "(List.find (\<lambda>n. nt_id n = i \<and> owned_by org user n) (rows_of m)) = None"
    using None assms by (force simp: find_None_iff keyed_notifications_def rows_of_def map_of_eq_None_iff)
  then show ?thesis using None by (simp add: pn_exists_def mn_exists_def)
next
  case (Some n)
  have same: "n' = n" if "(k, n') \<in> set m" "nt_id n' = i" for k n'
  proof -
    have "k = i" using assms that by (auto simp: keyed_notifications_def)
    moreover have "map_of m k = Some n'" using assms that(1) by (simp add: keyed_notifications_def)
    ultimately show ?thesis using Some by simp
  qed
  have "(i, n) \<in> set m" "nt_id n = i" using Some assms by (auto simp: keyed_notifications_def dest!: map_of_SomeD)
  then have "(\<exists>r \<in> set (rows_of m). nt_id r = i \<and> owned_by org user r) \<longleftrightarrow> owned_by org user n"
    using same by (force simp: rows_of_def)
  then have "pn_exists org user i (rows_of m) \<longleftrightarrow> owned_by org user n"
    unfolding pn_exists_def by (auto simp: find_None_iff)
  then show ?thesis using Some by (simp add: mn_exists_def owned_by_def)
qed

lemma find_agrees:
  "pn_findAllCursor org user c limit unreadOnly (rows_of m) = mn_findAllCursor org user c limit unreadOnly m"
proof -
  let ?sel = "\<lambda>n. owned_by org user n \<and> (unreadOnly \<longrightarrow> nt_readAt n = None)"
  have "rows_of m = map row_of_notification (map snd m)" by (simp add: rows_of_def)
  then have "filter ?sel (rows_of m) = map row_of_notification (filter ?sel (map snd m))"
    by (simp only: filter_map comp_def row_of_notification_sel)
  moreover have "filter ?sel (map snd m) =
      filter (\<lambda>n. if unreadOnly then \<not> isRead n else True) (filter (owned_by org user) (map snd m))"
    unfolding filter_filter by (rule filter_cong[OF refl]) (simp add: isRead_def)
  ultimately show ?thesis
    by (simp add: pn_findAllCursor_def mn_findAllCursor_def keyset_query_paginates paginate_map Let_def comp_def)
qed

section \<open>Membership notifications\<close>

text \<open>\<open>MembershipNotificationListener\<close>: what each of its two subscriptions asks for. The id comes from the
  event, so that a second delivery asks for the same row.\<close>

definition json_or_null :: "string option \<Rightarrow> json" where
  "json_or_null v = (case v of Some s \<Rightarrow> JStr s | None \<Rightarrow> JNull)"

definition member_added_command :: "domain_event \<Rightarrow> id \<Rightarrow> organization_event_payload \<Rightarrow> id \<Rightarrow> create_notification" where
  "member_added_command e org payload user =
     \<lparr> cn_id = Some (de_eventId e), cn_organizationId = org, cn_userId = user,
       cn_type = ''organization.member_added'', cn_title = ''Welcome to the organization'',
       cn_body = ''You were added as a member.'', cn_data = Some [(''role'', json_or_null (op_role payload))],
       cn_occurredAt = Some (de_occurredAt e) \<rparr>"

definition role_updated_command :: "domain_event \<Rightarrow> id \<Rightarrow> organization_event_payload \<Rightarrow> id \<Rightarrow> create_notification" where
  "role_updated_command e org payload user =
     \<lparr> cn_id = Some (de_eventId e), cn_organizationId = org, cn_userId = user,
       cn_type = ''organization.member_role_updated'', cn_title = ''Your role changed'',
       cn_body = ''Your role is now '' @ [CHR 0x22] @ default_to ''member'' (op_role payload) @ [CHR 0x22] @ ''.'',
       cn_data = Some [(''role'', json_or_null (op_role payload)), (''previousRole'', json_or_null (op_oldRole payload))],
       cn_occurredAt = Some (de_occurredAt e) \<rparr>"

text \<open>The command a subscription executes for an event; None is its early return.\<close>

definition membership_command ::
    "(string \<Rightarrow> bool) \<Rightarrow> (domain_event \<Rightarrow> id \<Rightarrow> organization_event_payload \<Rightarrow> id \<Rightarrow> create_notification)
     \<Rightarrow> domain_event \<Rightarrow> create_notification option" where
  "membership_command is_uuid command e =
     (case (truthy (de_organizationId e), organizationEventPayloadSchema is_uuid (de_payload e)) of
        (Some org, Some payload) \<Rightarrow> map_option (command e org payload) (truthy (op_userId payload))
      | _ \<Rightarrow> None)"

definition handle_membership ::
    "(string \<Rightarrow> bool) \<Rightarrow> (domain_event \<Rightarrow> id \<Rightarrow> organization_event_payload \<Rightarrow> id \<Rightarrow> create_notification)
     \<Rightarrow> db_fault \<times> id \<times> instant \<Rightarrow> domain_event \<Rightarrow> notification_row list \<Rightarrow> unit outcome \<times> notification_row list" where
  "handle_membership is_uuid command = (\<lambda>(fault, newId, now) e rows.
     case membership_command is_uuid command e of
       None \<Rightarrow> (Inr (), rows)
     | Some input \<Rightarrow> create_notification_command newId now (pn_create fault) input rows)"

definition handleMemberAdded where
  "handleMemberAdded is_uuid = handle_membership is_uuid member_added_command"

definition handleRoleUpdated where
  "handleRoleUpdated is_uuid = handle_membership is_uuid role_updated_command"

text \<open>The subscription the bus calls for an event's type, if the module has one.\<close>

definition notification_listener ::
    "(string \<Rightarrow> bool) \<Rightarrow> db_fault \<times> id \<times> instant \<Rightarrow> domain_event \<Rightarrow> notification_row list
     \<Rightarrow> unit outcome \<times> notification_row list" where
  "notification_listener is_uuid x e rows =
     (if de_eventType e = ORGANIZATIONS_MEMBER_ADDED then handleMemberAdded is_uuid x e rows
      else if de_eventType e = ORGANIZATIONS_MEMBER_ROLE_UPDATED then handleRoleUpdated is_uuid x e rows
      else (Inr (), rows))"

section \<open>One notification per event\<close>

text \<open>What stays fixed of a row: all but the time it was read.\<close>

definition unread_form :: "notification_row \<Rightarrow> notification_row" where
  "unread_form n = n \<lparr> nt_readAt := None \<rparr>"

definition notice_for :: "(string \<Rightarrow> bool) \<Rightarrow> domain_event \<Rightarrow> notification_row option" where
  "notice_for is_uuid e =
     (let row = (\<lambda>input. row_of_notification (create_notification_entity [] 0 input)) in
      if de_eventType e = ORGANIZATIONS_MEMBER_ADDED
      then map_option row (membership_command is_uuid member_added_command e)
      else if de_eventType e = ORGANIZATIONS_MEMBER_ROLE_UPDATED
      then map_option row (membership_command is_uuid role_updated_command e)
      else None)"

text \<open>Everything else the program does to the table: its members read.\<close>

definition marks_read :: "(notification_row list \<Rightarrow> notification_row list) \<Rightarrow> bool" where
  "marks_read f \<longleftrightarrow>
     (\<exists>org user i t. f = (\<lambda>rows. snd (pn_markRead org user i t rows))) \<or>
     (\<exists>org user t. f = (\<lambda>rows. snd (pn_markAllRead org user t rows)))"

lemma unread_form_sel [simp]: "nt_id (unread_form n) = nt_id n" "unread_form (n \<lparr> nt_readAt := t \<rparr>) = unread_form n"
  by (simp_all add: unread_form_def)

lemma unread_update [simp]:
  "map unread_form (update_rows sel (\<lambda>n. n \<lparr> nt_readAt := t \<rparr>) rows) = map unread_form rows"
  by (simp add: update_rows_def)

lemma membership_command_fixed:
  assumes "membership_command is_uuid command e = Some input"
    "command = member_added_command \<or> command = role_updated_command"
  shows "cn_id input = Some (de_eventId e)" "cn_occurredAt input = Some (de_occurredAt e)"
  using assms by (auto simp: membership_command_def member_added_command_def role_updated_command_def
      split: option.splits)

lemma listener_inserts:
  "notification_listener is_uuid (fault, newId, now) e rows =
     (case notice_for is_uuid e of
        None \<Rightarrow> (Inr (), rows)
      | Some y \<Rightarrow> unless_duplicate (db_insert nt_id fault y rows))"
proof -
  have row: "create_notification_command newId now (pn_create fault) input rows =
      unless_duplicate (db_insert nt_id fault (row_of_notification (create_notification_entity [] 0 input)) rows)"
    if "membership_command is_uuid command e = Some input"
      "command = member_added_command \<or> command = role_updated_command" for command input
    using membership_command_fixed[OF that]
    by (simp add: create_notification_command_def create_notification_entity_def pn_create_def
        row_of_notification_def with_data_def)
  show ?thesis
    using row by (auto simp: notification_listener_def notice_for_def handleMemberAdded_def handleRoleUpdated_def
        handle_membership_def Let_def split: option.splits)
qed

lemma notice_unread: "notice_for is_uuid e = Some y \<Longrightarrow> unread_form y = y \<and> nt_id y = de_eventId e"
  by (auto simp: notice_for_def Let_def unread_form_def row_of_notification_def with_data_def
      create_notification_entity_def membership_command_fixed split: if_splits)

interpretation notices: event_ledger "notification_listener is_uuid" "map unread_form" nt_id "notice_for is_uuid" marks_read
proof
  fix e y and x :: "db_fault \<times> id \<times> instant" and s
  obtain fault newId now where x: "x = (fault, newId, now)" by (cases x)
  have ids: "nt_id ` set (map unread_form s) = nt_id ` set s" by (simp add: image_image)
  show "map unread_form (snd (notification_listener is_uuid x e s)) = map unread_form s"
    if "notice_for is_uuid e = None"
    using that by (simp add: x listener_inserts)
  show "map unread_form (snd (notification_listener is_uuid x e s)) = map unread_form s"
    if "notice_for is_uuid e = Some y" "nt_id y \<in> nt_id ` set (map unread_form s)"
    using that insert_known[of nt_id y s fault] unfolding ids by (simp add: x listener_inserts)
  show "map unread_form (snd (notification_listener is_uuid x e s)) = map unread_form s @ [y] \<or>
      map unread_form (snd (notification_listener is_uuid x e s)) = map unread_form s \<and>
      fst (notification_listener is_uuid x e s) \<noteq> Inr ()"
    if "notice_for is_uuid e = Some y" "nt_id y \<notin> nt_id ` set (map unread_form s)"
    using that insert_fresh[of nt_id y s fault] notice_unread[of is_uuid e y] unfolding ids
    by (cases fault) (simp_all add: x listener_inserts)
next
  fix f s assume "marks_read f"
  then show "map unread_form (f s) = map unread_form s"
    by (auto simp: marks_read_def pn_markRead_def pn_markAllRead_def Let_def)
qed

section \<open>Properties\<close>

text \<open>Each operation of the in-memory repository, on a Map keyed by the ids, gives the answer of the Prisma
  repository on the rows the Map stands for, and ends in a Map that stands for the rows it leaves.\<close>

theorem in_memory_notifications_refine:
  assumes "keyed_notifications m"
  shows "(nt_readAt n = None \<longrightarrow>
          pn_create Healthy n (rows_of m) = (Inr (), rows_of (mn_create n m)) \<and> keyed_notifications (mn_create n m)) \<and>
    pn_markRead org user i t (rows_of m) = map_prod id rows_of (mn_markRead org user i t m) \<and>
    keyed_notifications (snd (mn_markRead org user i t m)) \<and>
    pn_markAllRead org user t (rows_of m) = map_prod id rows_of (mn_markAllRead org user t m) \<and>
    keyed_notifications (snd (mn_markAllRead org user t m)) \<and>
    pn_exists org user i (rows_of m) = mn_exists org user i m \<and>
    pn_countUnread org user (rows_of m) = mn_countUnread org user m \<and>
    pn_findAllCursor org user c limit unreadOnly (rows_of m) = mn_findAllCursor org user c limit unreadOnly m"
  using assms create_agrees mark_read_agrees mark_all_agrees exists_agrees find_agrees
  by (simp add: pn_countUnread_def mn_countUnread_def count_rows_of) (simp add: count_rows_def isRead_def)

theorem in_memory_notifications_refine_witness:
  "pn_countUnread ''o'' ''u''
     (rows_of [(''n'', create_notification_entity ''n'' 7 (member_added_command
        (example_event \<lparr> de_eventId := ''n'' \<rparr>) ''o''
        \<lparr> op_slug = None, op_name = None, op_userId = None, op_role = None, op_oldRole = None, op_action = None \<rparr> ''u''))]) = 1"
proof -
  let ?m = "[(''n'', create_notification_entity ''n'' 7 (member_added_command
        (example_event \<lparr> de_eventId := ''n'' \<rparr>) ''o''
        \<lparr> op_slug = None, op_name = None, op_userId = None, op_role = None, op_oldRole = None, op_action = None \<rparr> ''u''))]"
  have "keyed_notifications ?m"
    by (simp add: keyed_notifications_def create_notification_entity_def member_added_command_def)
  from in_memory_notifications_refine[OF this] have "pn_countUnread ''o'' ''u'' (rows_of ?m) = mn_countUnread ''o'' ''u'' ?m"
    by blast
  also have "\<dots> = 1"
    by (simp add: mn_countUnread_def create_notification_entity_def member_added_command_def owned_by_def isRead_def)
  finally show ?thesis .
qed

lemma listener_keeps_rows: "set rows \<subseteq> set (snd (notification_listener is_uuid x e rows))"
  by (cases x; cases "notice_for is_uuid e"; cases "fst x")
    (auto simp: listener_inserts unless_duplicate_def db_insert_def)

lemma mark_keeps_read: "r \<in> set rows \<Longrightarrow> nt_readAt r \<noteq> None \<Longrightarrow> marks_read f \<Longrightarrow> r \<in> set (f rows)"
  by (auto simp: marks_read_def pn_markRead_def pn_markAllRead_def Let_def update_rows_def image_iff)

lemma read_kept:
  "(\<And>f. Happened f \<in> set t \<Longrightarrow> marks_read f) \<Longrightarrow> r \<in> set rows \<Longrightarrow> nt_readAt r \<noteq> None \<Longrightarrow>
     r \<in> set (ledger_run (notification_listener is_uuid) t rows)"
proof (induction t arbitrary: rows)
  case (Cons a t)
  then show ?case
  proof (cases a)
    case (Delivered x e)
    have r: "r \<in> set (snd (notification_listener is_uuid x e rows))"
      using Cons.prems(2) listener_keeps_rows[of rows is_uuid x e] by blast
    have "r \<in> set (ledger_run (notification_listener is_uuid) t (snd (notification_listener is_uuid x e rows)))"
      using Cons.IH[OF _ r Cons.prems(3)] Cons.prems(1) by simp
    then show ?thesis using Delivered by simp
  next
    case (Happened f)
    then have "marks_read f" using Cons.prems(1)[of f] by simp
    then have r: "r \<in> set (f rows)" by (rule mark_keeps_read[OF Cons.prems(2,3)])
    have "r \<in> set (ledger_run (notification_listener is_uuid) t (f rows))"
      using Cons.IH[OF _ r Cons.prems(3)] Cons.prems(1) by simp
    then show ?thesis using Happened by simp
  qed
qed simp

text \<open>However often and however unluckily a membership event is delivered, with members reading in
  between: once one delivery is answered there is exactly one notification under the event's id, it says
  what the event calls for, and a notification that was read stays as it was read.\<close>

theorem members_notified_once:
  assumes "notice_for is_uuid e = Some n" "distinct (map nt_id rows)" "de_eventId e \<notin> nt_id ` set rows"
    "\<And>f. Happened f \<in> set t \<Longrightarrow> marks_read f"
    "\<And>x e'. Delivered x e' \<in> set t \<Longrightarrow> de_eventId e' = de_eventId e \<Longrightarrow> e' = e"
    "t = pre @ Delivered x e # post"
    "fst (notification_listener is_uuid x e (ledger_run (notification_listener is_uuid) pre rows)) = Inr ()"
  shows "map unread_form (filter (\<lambda>r. nt_id r = de_eventId e) (ledger_run (notification_listener is_uuid) t rows)) = [n] \<and>
    (\<forall>r \<in> set rows. nt_readAt r \<noteq> None \<longrightarrow> r \<in> set (ledger_run (notification_listener is_uuid) t rows))"
    (is "?once \<and> ?kept")
proof -
  let ?run = "ledger_run (notification_listener is_uuid)"
  have n: "nt_id n = de_eventId e" using notice_unread[OF assms(1)] by simp
  have "filter (\<lambda>z. nt_id z = nt_id n) (map unread_form (?run t rows)) = [n]"
  proof (rule notices.exactly_once)
    show "notices.proper t" using assms(4) by (simp add: notices.proper_def)
    show "distinct (map nt_id (map unread_form rows))" using assms(2) by (simp add: comp_def)
    show "nt_id n \<notin> nt_id ` set (map unread_form rows)" using assms(3) n by (simp add: image_image)
    show "y = n" if "Delivered x e' \<in> set t" "notice_for is_uuid e' = Some y" "nt_id y = nt_id n" for x e' y
      using assms(1,5) that n notice_unread[OF that(2)] by (metis option.inject)
  qed (use assms(1,6,7) in simp_all)
  then have ?once by (simp add: filter_map comp_def n)
  moreover have ?kept using read_kept[of t] assms(4) by blast
  ultimately show ?thesis by blast
qed

definition membership_event :: domain_event where
  "membership_event =
     example_event \<lparr> de_eventType := ORGANIZATIONS_MEMBER_ADDED, de_organizationId := Some ''o'',
                     de_payload := [(''userId'', JStr ''u''), (''role'', JStr ''member'')] \<rparr>"

theorem members_notified_once_witness:
  "length (ledger_run (notification_listener (\<lambda>u. True))
     [Delivered (Unacknowledged (Internal ''connection lost''), [], 1) membership_event,
      Happened (\<lambda>rows. snd (pn_markAllRead ''o'' ''u'' 2 rows)),
      Delivered (Healthy, [], 3) membership_event] []) = 1"
proof -
  let ?t = "[Delivered (Unacknowledged (Internal ''connection lost''), [], 1) membership_event,
      Happened (\<lambda>rows. snd (pn_markAllRead ''o'' ''u'' 2 rows)),
      Delivered (Healthy, [], 3) membership_event]"
  let ?pre = "[Delivered (Unacknowledged (Internal ''connection lost''), [], 1) membership_event,
      Happened (\<lambda>rows. snd (pn_markAllRead ''o'' ''u'' 2 rows))]"
  let ?run = "ledger_run (notification_listener (\<lambda>u. True))"
  have "notice_for (\<lambda>u. True) membership_event \<noteq> None" by code_simp
  then obtain n where n: "notice_for (\<lambda>u. True) membership_event = Some n" by blast
  have answered: "fst (notification_listener (\<lambda>u. True) (Healthy, [], 3) membership_event rows) = Inr ()" for rows
    using n by (simp add: listener_inserts unless_duplicate_def db_insert_def)
  have "map unread_form (filter (\<lambda>r. nt_id r = de_eventId membership_event) (?run ?t [])) = [n]"
  proof (rule conjunct1[OF members_notified_once[OF n]])
    show "marks_read f" if "Happened f \<in> set ?t" for f
      using that by (simp add: marks_read_def) blast
    show "e' = membership_event" if "Delivered x e' \<in> set ?t" for x :: "db_fault \<times> id \<times> instant" and e'
      using that by simp blast
    show "?t = ?pre @ Delivered (Healthy, [], 3) membership_event # []" by simp
    show "fst (notification_listener (\<lambda>u. True) (Healthy, [], 3) membership_event (?run ?pre [])) = Inr ()"
      by (rule answered)
  qed simp_all
  moreover have "?run ?t [] = filter (\<lambda>r. nt_id r = de_eventId membership_event) (?run ?t [])" by code_simp
  ultimately show ?thesis by (metis length_Cons length_map list.size(3) One_nat_def)
qed

end
