(* ===== verification/Audit_Log.thy ===== *)
theory Audit_Log
  imports Keyed_Table Http_Guards
begin

text \<open>The audit log (libs/modules/audit-log): the entity, the Prisma repository behind row-level security and
  the in-memory one, the listener that records both event streams, the listing handler and its controller;
  and the tenant binding of libs/infra/database that the listing runs under. The insert runs as a role
  that bypasses row-level security; a row no partition takes is a refused insert.\<close>

section \<open>The entity\<close>

record audit_log =
  al_id :: id
  al_organizationId :: "id option"
  al_userId :: "id option"
  al_action :: string
  al_resource :: "string option"
  al_metadata :: "(string \<times> json) list"
  al_ipAddress :: "string option"
  al_userAgent :: "string option"
  al_createdAt :: instant

record create_audit_log =
  ca_id :: "id option"
  ca_organizationId :: "id option"
  ca_userId :: "id option"
  ca_action :: string
  ca_resource :: "string option"
  ca_metadata :: "(string \<times> json) list option"
  ca_ipAddress :: "string option"
  ca_userAgent :: "string option"
  ca_occurredAt :: "instant option"

text \<open>The regular expression POSTGRES_UUID, without regard to case.\<close>

definition is_hex :: "char \<Rightarrow> bool" where
  "is_hex c \<longleftrightarrow> is_digit c \<or> (97 \<le> (of_char c :: nat) \<and> (of_char c :: nat) \<le> 102) \<or>
     (65 \<le> (of_char c :: nat) \<and> (of_char c :: nat) \<le> 70)"

definition POSTGRES_UUID :: "string \<Rightarrow> bool" where
  "POSTGRES_UUID s \<longleftrightarrow>
     map length (split_on CHR ''-'' s) = [8, 4, 4, 4, 12] \<and> list_all (list_all is_hex) (split_on CHR ''-'' s)"

definition invalidAuditLogId :: "string \<Rightarrow> string \<Rightarrow> failure" where
  "invalidAuditLogId key message =
     raise_problem (problem Validation ''invalid_audit_log_id'' key ''id'' message)"

definition create_audit_log_entity :: "id \<Rightarrow> instant \<Rightarrow> create_audit_log \<Rightarrow> audit_log outcome" where
  "create_audit_log_entity newId now input =
     (let entity =
        \<lparr> al_id = default_to newId (ca_id input), al_organizationId = ca_organizationId input,
          al_userId = ca_userId input, al_action = ca_action input, al_resource = ca_resource input,
          al_metadata = default_to [] (ca_metadata input), al_ipAddress = ca_ipAddress input,
          al_userAgent = ca_userAgent input, al_createdAt = default_to now (ca_occurredAt input) \<rparr>
      in case ca_id input of
           None \<Rightarrow> Inr entity
         | Some i \<Rightarrow>
             if trim i = []
             then Inl (invalidAuditLogId ''errors.audit_log.invalid_id_empty''
                         ''id must be a non-empty string when provided'')
             else if \<not> POSTGRES_UUID i
             then Inl (invalidAuditLogId ''errors.audit_log.invalid_id_uuid''
                         ''id must be a valid UUID (audit_logs.id is a Postgres UUID column)'')
             else Inr entity)"

section \<open>The tenant binding of the database\<close>

text \<open>What PrismaService reads of the request: the organization of its context, and the client of a
  transaction that is open around the call.\<close>

datatype db_client = Primary | Replica | Transaction nat | Read_Transaction nat

record request_context =
  rc_organizationId :: "id option"
  rc_transaction :: "db_client option"
  rc_readTransaction :: "db_client option"

definition writeTarget :: "request_context \<Rightarrow> db_client" where
  "writeTarget cx = default_to Primary (rc_transaction cx)"

definition readTarget :: "bool \<Rightarrow> request_context \<Rightarrow> db_client" where
  "readTarget hasReplica cx =
     (case rc_transaction cx of
        Some c \<Rightarrow> c
      | None \<Rightarrow> default_to (if hasReplica then Replica else Primary) (rc_readTransaction cx))"

definition tenantContextRequired :: failure where
  "tenantContextRequired =
     Domain (new_domain_exception
       \<lparr> opt_kind = Some Forbidden, opt_code = Some ''organization_context_required'',
         opt_title = Some ''Organization context required'',
         opt_messageKey = Some ''errors.auth.organization_context_required'', opt_args = None,
         opt_violations =
           [\<lparr> vi_path = ''session.activeOrganizationId'', vi_code = ''organization_context_required'',
              vi_message = ''Tenant-scoped database access requires an active organization'',
              vi_messageKey = Some ''errors.auth.organization_context_required'',
              vi_rule = None, vi_constraint = None \<rparr>],
         opt_permanent = None \<rparr>)"

text \<open>\<open>transaction\<close> on the primary: refused inside another one. \<open>fn\<close> gets the client and the tenant setting
  bound on it; \<open>fresh\<close> names the new transaction.\<close>

definition transaction ::
    "nat \<Rightarrow> request_context \<Rightarrow> (db_client \<Rightarrow> id option \<Rightarrow> 'a outcome) \<Rightarrow> 'a outcome" where
  "transaction fresh cx fn =
     (if rc_transaction cx \<noteq> None
      then Inl (Internal (''Nested prisma.transaction() is not supported - reuse the active client via '' @
                          ''prisma.currentTransaction''))
      else fn (Transaction fresh) (truthy (rc_organizationId cx)))"

definition withTenantContext ::
    "bool \<Rightarrow> nat \<Rightarrow> request_context \<Rightarrow> bool \<Rightarrow> (db_client \<Rightarrow> id option \<Rightarrow> 'a outcome) \<Rightarrow> 'a outcome" where
  "withTenantContext hasReplica fresh cx readOnly fn =
     (case truthy (rc_organizationId cx) of
        None \<Rightarrow> Inl tenantContextRequired
      | Some org \<Rightarrow>
          (case (if readOnly
                 then (case rc_transaction cx of Some c \<Rightarrow> Some c | None \<Rightarrow> rc_readTransaction cx)
                 else rc_transaction cx) of
             Some c \<Rightarrow> fn c (Some org)
           | None \<Rightarrow>
               if \<not> readOnly \<or> \<not> hasReplica then transaction fresh cx fn
               else fn (Read_Transaction fresh) (Some org)))"

text \<open>The policy of the table: a query sees the rows of the tenant bound on its client.\<close>

definition tenant_rows :: "id option \<Rightarrow> audit_log list \<Rightarrow> audit_log list" where
  "tenant_rows setting rows = filter (\<lambda>r. setting \<noteq> None \<and> al_organizationId r = setting) rows"

section \<open>The Prisma repository\<close>

definition audit_key :: "audit_log \<Rightarrow> cursor_key" where
  "audit_key r = (al_createdAt r, al_id r)"

text \<open>The primary key of the partitioned table is (id, createdAt).\<close>

definition pa_append :: "db_fault \<Rightarrow> audit_log \<Rightarrow> audit_log list \<Rightarrow> unit outcome \<times> audit_log list" where
  "pa_append fault entry rows = unless_duplicate (db_insert audit_key fault entry rows)"

record audit_filters =
  af_action :: "string option"
  af_resource :: "string option"
  af_userId :: "id option"
  af_occurredFrom :: "instant option"
  af_occurredUntil :: "instant option"

definition buildRange :: "instant option \<Rightarrow> instant option \<Rightarrow> (instant \<Rightarrow> bool) option" where
  "buildRange from until =
     (if from = None \<and> until = None then None
      else Some (\<lambda>t. (case from of Some f \<Rightarrow> f \<le> t | None \<Rightarrow> True) \<and> (case until of Some u \<Rightarrow> t \<le> u | None \<Rightarrow> True)))"

definition audit_where :: "id \<Rightarrow> audit_filters \<Rightarrow> audit_log \<Rightarrow> bool" where
  "audit_where org f r \<longleftrightarrow>
     al_organizationId r = Some org \<and>
     (case truthy (af_action f) of Some a \<Rightarrow> al_action r = a | None \<Rightarrow> True) \<and>
     (case truthy (af_resource f) of Some x \<Rightarrow> al_resource r = Some x | None \<Rightarrow> True) \<and>
     (case truthy (af_userId f) of Some u \<Rightarrow> al_userId r = Some u | None \<Rightarrow> True) \<and>
     (case buildRange (af_occurredFrom f) (af_occurredUntil f) of Some within \<Rightarrow> within (al_createdAt r) | None \<Rightarrow> True)"

text \<open>\<open>db c\<close> are the rows the database behind a client holds.\<close>

definition pa_findAllCursor ::
    "bool \<Rightarrow> nat \<Rightarrow> request_context \<Rightarrow> id \<Rightarrow> audit_filters \<Rightarrow> decoded_cursor option \<Rightarrow> nat \<Rightarrow> (db_client \<Rightarrow> audit_log list)
     \<Rightarrow> audit_log page_slice outcome" where
  "pa_findAllCursor hasReplica fresh cx org f startingAfter limit db =
     withTenantContext hasReplica fresh cx True
       (\<lambda>c setting. Inr (keyset_query audit_key (audit_where org f) (tenant_rows setting (db c)) startingAfter limit))"

section \<open>The in-memory repository\<close>

type_synonym audit_map = "(id \<times> audit_log) list"

definition ma_append :: "audit_log \<Rightarrow> audit_map \<Rightarrow> audit_map" where
  "ma_append entry m = (if map_of m (al_id entry) = None then AList.update (al_id entry) entry m else m)"

definition ma_matches :: "id \<Rightarrow> audit_filters \<Rightarrow> audit_log \<Rightarrow> bool" where
  "ma_matches org f r =
     (if al_organizationId r \<noteq> Some org then False
      else if truthy (af_action f) \<noteq> None \<and> Some (al_action r) \<noteq> af_action f then False
      else if truthy (af_resource f) \<noteq> None \<and> al_resource r \<noteq> af_resource f then False
      else if truthy (af_userId f) \<noteq> None \<and> al_userId r \<noteq> af_userId f then False
      else if (case af_occurredFrom f of Some t \<Rightarrow> al_createdAt r < t | None \<Rightarrow> False) then False
      else if (case af_occurredUntil f of Some t \<Rightarrow> t < al_createdAt r | None \<Rightarrow> False) then False
      else True)"

definition ma_findAllCursor ::
    "id \<Rightarrow> audit_filters \<Rightarrow> decoded_cursor option \<Rightarrow> nat \<Rightarrow> audit_map \<Rightarrow> audit_log page_slice" where
  "ma_findAllCursor org f startingAfter limit m =
     paginateNewestFirst audit_key (filter (ma_matches org f) (map snd m)) startingAfter limit"

section \<open>Recording an event\<close>

record record_audit_log =
  rl_eventId :: string
  rl_organizationId :: "id option"
  rl_userId :: "id option"
  rl_action :: string
  rl_resource :: string
  rl_metadata :: "(string \<times> json) list"
  rl_ipAddress :: "string option"
  rl_userAgent :: "string option"
  rl_occurredAt :: instant

definition record_audit_log_command ::
    "instant \<Rightarrow> (audit_log \<Rightarrow> 's \<Rightarrow> unit outcome \<times> 's) \<Rightarrow> record_audit_log \<Rightarrow> 's \<Rightarrow> unit outcome \<times> 's" where
  "record_audit_log_command now append_entry c s =
     (case create_audit_log_entity [] now
             \<lparr> ca_id = Some (rl_eventId c), ca_organizationId = rl_organizationId c, ca_userId = rl_userId c,
               ca_action = rl_action c, ca_resource = Some (rl_resource c), ca_metadata = Some (rl_metadata c),
               ca_ipAddress = rl_ipAddress c, ca_userAgent = rl_userAgent c, ca_occurredAt = Some (rl_occurredAt c) \<rparr> of
        Inl e \<Rightarrow> (Inl e, s)
      | Inr entry \<Rightarrow> append_entry entry s)"

definition without :: "string list \<Rightarrow> (string \<times> json) list \<Rightarrow> (string \<times> json) list" where
  "without ks ms = filter (\<lambda>(k, _). k \<notin> set ks) ms"

definition user_event_record :: "domain_event \<Rightarrow> record_audit_log" where
  "user_event_record e =
     \<lparr> rl_eventId = de_eventId e, rl_organizationId = de_organizationId e, rl_userId = Some (de_aggregateId e),
       rl_action = de_eventType e, rl_resource = ''user'',
       rl_metadata = AList.update ''eventId'' (JStr (de_eventId e)) (without [''ip'', ''userAgent''] (de_payload e)),
       rl_ipAddress = text_of (map_of (de_payload e) ''ip''),
       rl_userAgent = text_of (map_of (de_payload e) ''userAgent''), rl_occurredAt = de_occurredAt e \<rparr>"

definition organization_event_record :: "domain_event \<Rightarrow> record_audit_log" where
  "organization_event_record e =
     (let affectedUserId = text_of (map_of (de_payload e) ''userId'');
          metadata = without [''userId''] (de_payload e);
          named = (case truthy affectedUserId of
                     Some u \<Rightarrow> AList.update ''memberUserId'' (JStr u) metadata
                   | None \<Rightarrow> metadata)
      in \<lparr> rl_eventId = de_eventId e,
           rl_organizationId = Some (default_to (de_aggregateId e) (de_organizationId e)),
           rl_userId = affectedUserId, rl_action = de_eventType e, rl_resource = ''organization'',
           rl_metadata = AList.update ''organizationId'' (JStr (de_aggregateId e))
                           (AList.update ''eventId'' (JStr (de_eventId e)) named),
           rl_ipAddress = None, rl_userAgent = None, rl_occurredAt = de_occurredAt e \<rparr>)"

text \<open>The two wildcard subscriptions.\<close>

definition audit_listener ::
    "db_fault \<times> instant \<Rightarrow> domain_event \<Rightarrow> audit_log list \<Rightarrow> unit outcome \<times> audit_log list" where
  "audit_listener = (\<lambda>(fault, now) e rows.
     if on_stream ''users'' (de_eventType e)
     then record_audit_log_command now (pa_append fault) (user_event_record e) rows
     else if on_stream ''organizations'' (de_eventType e)
     then record_audit_log_command now (pa_append fault) (organization_event_record e) rows
     else (Inr (), rows))"

section \<open>Listing\<close>

definition rangeOutOfOrder :: failure where
  "rangeOutOfOrder =
     Domain (new_domain_exception
       \<lparr> opt_kind = Some Validation, opt_code = Some ''validation_failed'',
         opt_title = Some ''common.unprocessable_entity'',
         opt_messageKey = Some ''errors.audit_log.invalid_range'', opt_args = None,
         opt_violations =
           [\<lparr> vi_path = ''occurredFrom'', vi_code = ''range_out_of_order'',
              vi_message = ''occurredFrom must not be later than occurredUntil'',
              vi_messageKey = Some ''errors.audit_log.invalid_range'',
              vi_rule = None, vi_constraint = None \<rparr>],
         opt_permanent = None \<rparr>)"

definition assertRangeOrdered :: "instant option \<Rightarrow> instant option \<Rightarrow> unit outcome" where
  "assertRangeOrdered from until =
     (case (from, until) of
        (Some f, Some u) \<Rightarrow> if f \<le> u then Inr () else Inl rangeOutOfOrder
      | _ \<Rightarrow> Inr ())"

record audit_log_dto =
  ad_id :: id
  ad_organizationId :: "id option"
  ad_userId :: "id option"
  ad_action :: string
  ad_resource :: "string option"
  ad_metadata :: "(string \<times> json) list"
  ad_ipAddress :: "string option"
  ad_userAgent :: "string option"
  ad_createdAt :: instant

definition audit_log_dto_of :: "audit_log \<Rightarrow> audit_log_dto" where
  "audit_log_dto_of r =
     \<lparr> ad_id = al_id r, ad_organizationId = al_organizationId r, ad_userId = al_userId r, ad_action = al_action r,
       ad_resource = al_resource r, ad_metadata = al_metadata r, ad_ipAddress = al_ipAddress r,
       ad_userAgent = al_userAgent r, ad_createdAt = al_createdAt r \<rparr>"

definition list_audit_logs ::
    "(id \<Rightarrow> bool) \<Rightarrow> (id \<Rightarrow> audit_filters \<Rightarrow> decoded_cursor option \<Rightarrow> nat \<Rightarrow> audit_log page_slice outcome)
     \<Rightarrow> id \<Rightarrow> nat \<Rightarrow> string option \<Rightarrow> audit_filters \<Rightarrow> (audit_log_dto list \<times> bool \<times> string option) outcome" where
  "list_audit_logs is_uuid7 findAllCursor org limit startingAfter f =
     (case assertRangeOrdered (af_occurredFrom f) (af_occurredUntil f) of
        Inl e \<Rightarrow> Inl e
      | Inr _ \<Rightarrow>
          (case decodeStartingAfter is_uuid7 startingAfter of
             Inl e \<Rightarrow> Inl e
           | Inr c \<Rightarrow>
               (case findAllCursor org f c limit of
                  Inl e \<Rightarrow> Inl e
                | Inr page \<Rightarrow>
                    Inr (map audit_log_dto_of (pg_items page), pg_hasMore page,
                         lastCursorOf audit_key (pg_items page)))))"

definition audit_logs_list ::
    "(id \<Rightarrow> bool) \<Rightarrow> bool \<Rightarrow> nat \<Rightarrow> request_context \<Rightarrow> authenticated_session \<Rightarrow> nat \<Rightarrow> string option \<Rightarrow> audit_filters
     \<Rightarrow> (db_client \<Rightarrow> audit_log list) \<Rightarrow> audit_log_dto list_response outcome" where
  "audit_logs_list is_uuid7 hasReplica fresh cx user limit startingAfter f db =
     (case requireOrganizationId (Some user) of
        Inl e \<Rightarrow> Inl e
      | Inr org \<Rightarrow>
          (case list_audit_logs is_uuid7
                  (\<lambda>org f c limit. pa_findAllCursor hasReplica fresh cx org f c limit db) org limit startingAfter f of
             Inl e \<Rightarrow> Inl e
           | Inr (items, hasMore, cursor) \<Rightarrow>
               Inr (toCursorListResponse ''/api/v1/audit-logs'' items hasMore cursor)))"

section \<open>One entry per event\<close>

definition audited_event :: "domain_event \<Rightarrow> record_audit_log option" where
  "audited_event e =
     (if on_stream ''users'' (de_eventType e) then Some (user_event_record e)
      else if on_stream ''organizations'' (de_eventType e) then Some (organization_event_record e)
      else None)"

definition entry_of_record :: "record_audit_log \<Rightarrow> audit_log" where
  "entry_of_record c =
     \<lparr> al_id = rl_eventId c, al_organizationId = rl_organizationId c, al_userId = rl_userId c,
       al_action = rl_action c, al_resource = Some (rl_resource c), al_metadata = rl_metadata c,
       al_ipAddress = rl_ipAddress c, al_userAgent = rl_userAgent c, al_createdAt = rl_occurredAt c \<rparr>"

definition audit_entry_for :: "domain_event \<Rightarrow> audit_log option" where
  "audit_entry_for e = (if POSTGRES_UUID (de_eventId e) then map_option entry_of_record (audited_event e) else None)"

lemma trim_hex: "POSTGRES_UUID s \<Longrightarrow> trim s \<noteq> []"
proof
  assume u: "POSTGRES_UUID s" and t: "trim s = []"
  have "hd (split_on CHR ''-'' s) = takeWhile (\<lambda>x. x \<noteq> CHR ''-'') s" by (rule hd_split_on)
  moreover have "length (hd (split_on CHR ''-'' s)) = 8"
    using u unfolding POSTGRES_UUID_def by (metis list.sel(1) map_eq_Cons_conv)
  ultimately obtain c r where s: "s = c # r" by (cases s) auto
  have "list_all is_hex (hd (split_on CHR ''-'' s))"
    using u by (metis POSTGRES_UUID_def hd_in_set list_all_iff split_on_not_Nil)
  moreover have "hd (split_on CHR ''-'' s) \<noteq> []"
    using \<open>length (hd (split_on CHR ''-'' s)) = 8\<close> by force
  ultimately have "is_hex c" unfolding hd_split_on s by (auto split: if_splits)
  then have "\<not> is_js_space c" by (auto simp: is_hex_def is_digit_def is_js_space_def)
  then have "trim_start s = s" by (simp add: s trim_start_def)
  moreover have "trim_start (rev s) \<noteq> []"
    using \<open>\<not> is_js_space c\<close> by (auto simp: s trim_start_def dropWhile_eq_Nil_conv)
  ultimately show False using t by (simp add: trim_def)
qed

lemma record_command:
  "record_audit_log_command now (pa_append fault) c rows =
     (if POSTGRES_UUID (rl_eventId c) then unless_duplicate (db_insert audit_key fault (entry_of_record c) rows)
      else (Inl (if trim (rl_eventId c) = []
                 then invalidAuditLogId ''errors.audit_log.invalid_id_empty''
                        ''id must be a non-empty string when provided''
                 else invalidAuditLogId ''errors.audit_log.invalid_id_uuid''
                        ''id must be a valid UUID (audit_logs.id is a Postgres UUID column)''), rows))"
  using trim_hex[of "rl_eventId c"]
  by (simp add: record_audit_log_command_def create_audit_log_entity_def entry_of_record_def pa_append_def Let_def)

lemma listener_records:
  "audit_listener (fault, now) e rows =
     (case audited_event e of
        None \<Rightarrow> (Inr (), rows)
      | Some c \<Rightarrow> record_audit_log_command now (pa_append fault) c rows)"
  by (simp add: audit_listener_def audited_event_def)

lemma audited_id: "audited_event e = Some c \<Longrightarrow> rl_eventId c = de_eventId e \<and> rl_occurredAt c = de_occurredAt e"
  by (auto simp: audited_event_def user_event_record_def organization_event_record_def Let_def split: if_splits)

interpretation audit: event_ledger audit_listener id audit_key audit_entry_for "\<lambda>f. f = id"
proof
  fix e y and x :: "db_fault \<times> instant" and s
  obtain fault now where x: "x = (fault, now)" by (cases x)
  show "id (snd (audit_listener x e s)) = id s" if "audit_entry_for e = None"
    using that audited_id[of e] by (auto simp: x listener_records record_command audit_entry_for_def split: option.splits if_splits)
  have due: "audit_listener x e s = unless_duplicate (db_insert audit_key fault y s)" if "audit_entry_for e = Some y"
    using that audited_id[of e] by (auto simp: x listener_records record_command audit_entry_for_def split: if_splits)
  show "id (snd (audit_listener x e s)) = id s"
    if "audit_entry_for e = Some y" "audit_key y \<in> audit_key ` set (id s)"
    using that(2) due[OF that(1)] insert_known[of audit_key y s fault] by simp
  show "id (snd (audit_listener x e s)) = id s @ [y] \<or>
      id (snd (audit_listener x e s)) = id s \<and> fst (audit_listener x e s) \<noteq> Inr ()"
    if "audit_entry_for e = Some y" "audit_key y \<notin> audit_key ` set (id s)"
    using that(2) due[OF that(1)] insert_fresh[of audit_key y s fault] by (cases fault) simp_all
qed simp

section \<open>What a listing shows\<close>

lemma where_matches: "audit_where org f r = ma_matches org f r"
  by (auto simp: audit_where_def ma_matches_def buildRange_def truthy_def split: option.splits if_splits)

lemma tenant_query:
  "keyset_query audit_key (audit_where org f) (tenant_rows (Some tenant) rows) c limit =
     paginateNewestFirst audit_key (if tenant = org then filter (ma_matches org f) rows else []) c limit"
proof -
  have "filter (audit_where org f) (tenant_rows (Some tenant) rows) =
      (if tenant = org then filter (ma_matches org f) rows else [])"
  proof -
    have own: "al_organizationId r = Some org" if "ma_matches org f r" for r
      using that by (simp add: ma_matches_def split: if_splits)
    have "(Some tenant \<noteq> None \<and> al_organizationId r = Some tenant \<and> ma_matches org f r) =
        (tenant = org \<and> ma_matches org f r)" for r
      using own[of r] by fastforce
    then show ?thesis unfolding tenant_rows_def filter_filter where_matches by simp
  qed
  then show ?thesis by (simp only: keyset_query_paginates)
qed

definition listing_client :: "bool \<Rightarrow> nat \<Rightarrow> request_context \<Rightarrow> db_client" where
  "listing_client hasReplica fresh cx =
     (case (rc_transaction cx, rc_readTransaction cx) of
        (Some c, _) \<Rightarrow> c
      | (None, Some c) \<Rightarrow> c
      | (None, None) \<Rightarrow> if hasReplica then Read_Transaction fresh else Transaction fresh)"

text \<open>The listing behind row-level security: without an organization in the request's context it is refused;
  asked for another organization it shows nothing; asked for its own it is the page the in-memory
  repository gives for the same filters and cursor, over the rows of the transaction that is open, or of
  a fresh one that the tenant is bound on.\<close>

theorem audit_listing_is_tenant_bound:
  "pa_findAllCursor hasReplica fresh cx org f c limit db =
     (case truthy (rc_organizationId cx) of
        None \<Rightarrow> Inl tenantContextRequired
      | Some tenant \<Rightarrow>
          Inr (paginateNewestFirst audit_key
                 (if tenant = org then filter (ma_matches org f) (db (listing_client hasReplica fresh cx)) else [])
                 c limit))"
  by (cases "truthy (rc_organizationId cx)"; cases "rc_transaction cx"; cases "rc_readTransaction cx")
    (simp_all add: pa_findAllCursor_def withTenantContext_def transaction_def listing_client_def tenant_query)

end
