(* ===== verification/Event_Delivery.thy ===== *)
theory Event_Delivery
  imports Notifications Audit_Log
begin

text \<open>The path of a domain event from the outbox to the modules that consume it: the relay of Outbox publishes
  on a bus whose listeners are the audit log, the membership notifications and one listener of the users
  module. A step is a transaction of the outbox, a delivery, a process that dies in the middle of one, or a
  member reading notifications.\<close>

section \<open>The subscribers\<close>

record 'q consumers =
  co_audit :: "audit_log list"
  co_notices :: "notification_row list"
  co_mail :: 'q

text \<open>What a delivery meets: the state of the database for each table, the clock, and the listener that sends
  the welcome mail.\<close>

record 'q circumstances =
  ci_audit :: db_fault
  ci_notices :: db_fault
  ci_now :: instant
  ci_welcome :: "domain_event \<Rightarrow> 'q \<Rightarrow> unit outcome \<times> 'q"

definition audit_subscriber :: "'q circumstances \<Rightarrow> domain_event \<Rightarrow> 'q consumers \<Rightarrow> unit outcome \<times> 'q consumers" where
  "audit_subscriber x e s =
     (case audit_listener (ci_audit x, ci_now x) e (co_audit s) of (r, rows) \<Rightarrow> (r, s \<lparr> co_audit := rows \<rparr>))"

definition notices_subscriber ::
    "(string \<Rightarrow> bool) \<Rightarrow> 'q circumstances \<Rightarrow> domain_event \<Rightarrow> 'q consumers \<Rightarrow> unit outcome \<times> 'q consumers" where
  "notices_subscriber is_uuid x e s =
     (case notification_listener is_uuid (ci_notices x, [], ci_now x) e (co_notices s) of
        (r, rows) \<Rightarrow> (r, s \<lparr> co_notices := rows \<rparr>))"

definition welcome_subscriber :: "'q circumstances \<Rightarrow> domain_event \<Rightarrow> 'q consumers \<Rightarrow> unit outcome \<times> 'q consumers" where
  "welcome_subscriber x e s = (case ci_welcome x e (co_mail s) of (r, q) \<Rightarrow> (r, s \<lparr> co_mail := q \<rparr>))"

definition subscriptions ::
    "(string \<Rightarrow> bool) \<Rightarrow> 'q circumstances \<Rightarrow> string \<Rightarrow> (domain_event \<Rightarrow> 'q consumers \<Rightarrow> unit outcome \<times> 'q consumers) list" where
  "subscriptions is_uuid x name =
     (if on_stream ''users'' name \<or> on_stream ''organizations'' name then [audit_subscriber x] else []) @
     (if name = ORGANIZATIONS_MEMBER_ADDED \<or> name = ORGANIZATIONS_MEMBER_ROLE_UPDATED
      then [notices_subscriber is_uuid x] else []) @
     (if name = USERS_REGISTERED then [welcome_subscriber x] else [])"

definition deliver_event ::
    "(string \<Rightarrow> bool) \<Rightarrow> 'q circumstances \<Rightarrow> domain_event \<Rightarrow> 'q consumers \<Rightarrow> unit outcome \<times> 'q consumers" where
  "deliver_event is_uuid x e s = bus_publish (subscriptions is_uuid x) e s"

lemma bus_publish_ok:
  "fst (bus_publish listeners e s) = Inr () \<longleftrightarrow>
     listeners (de_eventType e) \<noteq> [] \<and> set (fst (run_listeners (listeners (de_eventType e)) e s)) \<subseteq> {Inr ()}"
proof -
  obtain rs s' where r: "run_listeners (listeners (de_eventType e)) e s = (rs, s')"
    by (cases "run_listeners (listeners (de_eventType e)) e s")
  have len: "length rs = length ls" if "run_listeners ls e s0 = (rs, s1)" for ls s0 rs s1
    using that by (induction ls arbitrary: s0 rs) (auto split: prod.splits)
  have none: "concat (map (\<lambda>r. case r of Inl f \<Rightarrow> [f] | Inr _ \<Rightarrow> []) rs) = [] \<longleftrightarrow> set rs \<subseteq> {Inr ()}" for rs :: "unit outcome list"
  proof (induction rs)
    case (Cons r rs)
    then show ?case by (cases r) simp_all
  qed simp
  let ?failures = "concat (map (\<lambda>r. case r of Inl f \<Rightarrow> [f] | Inr _ \<Rightarrow> []) rs)"
  show ?thesis
  proof (cases ?failures)
    case Nil
    then have "set rs \<subseteq> {Inr ()}" using none by blast
    then show ?thesis using len[OF r] by (auto simp: bus_publish_def r Nil)
  next
    case (Cons f fs)
    then have "\<not> set rs \<subseteq> {Inr ()}" using none[of rs] by (metis list.distinct(1))
    then show ?thesis using Cons by (simp add: bus_publish_def r)
  qed
qed

lemma audit_subscriber_effect [simp]:
  "co_audit (snd (audit_subscriber x e s)) = snd (audit_listener (ci_audit x, ci_now x) e (co_audit s))"
  "fst (audit_subscriber x e s) = fst (audit_listener (ci_audit x, ci_now x) e (co_audit s))"
  "co_notices (snd (audit_subscriber x e s)) = co_notices s"
  by (simp_all add: audit_subscriber_def split: prod.split)

lemma notices_subscriber_effect [simp]:
  "co_notices (snd (notices_subscriber is_uuid x e s)) =
     snd (notification_listener is_uuid (ci_notices x, [], ci_now x) e (co_notices s))"
  "fst (notices_subscriber is_uuid x e s) =
     fst (notification_listener is_uuid (ci_notices x, [], ci_now x) e (co_notices s))"
  "co_audit (snd (notices_subscriber is_uuid x e s)) = co_audit s"
  by (simp_all add: notices_subscriber_def split: prod.split)

lemma welcome_subscriber_effect [simp]:
  "co_notices (snd (welcome_subscriber x e s)) = co_notices s"
  "co_audit (snd (welcome_subscriber x e s)) = co_audit s"
  by (simp_all add: welcome_subscriber_def split: prod.split)

lemma on_stream_events:
  "on_stream ''organizations'' ORGANIZATIONS_MEMBER_ADDED" "on_stream ''organizations'' ORGANIZATIONS_MEMBER_ROLE_UPDATED"
  "on_stream ''users'' USERS_REGISTERED"
  "ORGANIZATIONS_MEMBER_ADDED \<noteq> USERS_REGISTERED" "ORGANIZATIONS_MEMBER_ROLE_UPDATED \<noteq> USERS_REGISTERED"
  by (simp_all add: on_stream_def event_names)

text \<open>A delivery touches the two tables as their listeners do, and is answered only if both are.\<close>

lemma run_listeners_few:
  "run_listeners [a] e s = ([fst (a e s)], snd (a e s))"
  "run_listeners [a, b] e s = ([fst (a e s), fst (b e (snd (a e s)))], snd (b e (snd (a e s))))"
  by (simp_all add: case_prod_beta)

lemma snd_bus_publish: "snd (bus_publish listeners e s) = snd (run_listeners (listeners (de_eventType e)) e s)"
  by (auto simp: bus_publish_def split: prod.splits list.splits)

lemma audit_off_stream:
  "\<not> on_stream ''users'' (de_eventType e) \<Longrightarrow> \<not> on_stream ''organizations'' (de_eventType e) \<Longrightarrow>
     audit_listener x e rows = (Inr (), rows)"
  by (cases x) (simp add: audit_listener_def)

lemma notices_off_types:
  "de_eventType e \<noteq> ORGANIZATIONS_MEMBER_ADDED \<Longrightarrow> de_eventType e \<noteq> ORGANIZATIONS_MEMBER_ROLE_UPDATED \<Longrightarrow>
     notification_listener is_uuid x e rows = (Inr (), rows)"
  by (simp add: notification_listener_def)

lemma deliver_event_effect:
  "co_audit (snd (deliver_event is_uuid x e s)) = snd (audit_listener (ci_audit x, ci_now x) e (co_audit s))"
  "co_notices (snd (deliver_event is_uuid x e s)) =
     snd (notification_listener is_uuid (ci_notices x, [], ci_now x) e (co_notices s))"
  "fst (deliver_event is_uuid x e s) = Inr () \<Longrightarrow>
     (on_stream ''users'' (de_eventType e) \<or> on_stream ''organizations'' (de_eventType e)) \<and>
     fst (audit_listener (ci_audit x, ci_now x) e (co_audit s)) = Inr () \<and>
     fst (notification_listener is_uuid (ci_notices x, [], ci_now x) e (co_notices s)) = Inr ()"
proof -
  let ?n = "de_eventType e"
  consider (told) "?n = ORGANIZATIONS_MEMBER_ADDED \<or> ?n = ORGANIZATIONS_MEMBER_ROLE_UPDATED"
    | (greeted) "?n = USERS_REGISTERED"
    | (plain) "\<not> (?n = ORGANIZATIONS_MEMBER_ADDED \<or> ?n = ORGANIZATIONS_MEMBER_ROLE_UPDATED)" "?n \<noteq> USERS_REGISTERED"
    by blast
  then have "co_audit (snd (deliver_event is_uuid x e s)) = snd (audit_listener (ci_audit x, ci_now x) e (co_audit s)) \<and>
    co_notices (snd (deliver_event is_uuid x e s)) =
      snd (notification_listener is_uuid (ci_notices x, [], ci_now x) e (co_notices s)) \<and>
    (fst (deliver_event is_uuid x e s) = Inr () \<longrightarrow>
      (on_stream ''users'' ?n \<or> on_stream ''organizations'' ?n) \<and>
      fst (audit_listener (ci_audit x, ci_now x) e (co_audit s)) = Inr () \<and>
      fst (notification_listener is_uuid (ci_notices x, [], ci_now x) e (co_notices s)) = Inr ())"
  proof cases
    case told
    then have "subscriptions is_uuid x ?n = [audit_subscriber x, notices_subscriber is_uuid x]"
      using on_stream_events by (auto simp: subscriptions_def)
    then show ?thesis
      using told on_stream_events
      by (auto simp: deliver_event_def bus_publish_ok snd_bus_publish run_listeners_few simp del: run_listeners.simps)
  next
    case greeted
    then have "subscriptions is_uuid x ?n = [audit_subscriber x, welcome_subscriber x]"
      using on_stream_events by (auto simp: subscriptions_def)
    then show ?thesis
      using greeted on_stream_events
      by (auto simp: deliver_event_def bus_publish_ok snd_bus_publish run_listeners_few notices_off_types
          simp del: run_listeners.simps(2))
  next
    case plain
    then have "subscriptions is_uuid x ?n =
        (if on_stream ''users'' ?n \<or> on_stream ''organizations'' ?n then [audit_subscriber x] else [])"
      by (simp add: subscriptions_def)
    then show ?thesis
      using plain
      by (auto simp: deliver_event_def bus_publish_ok snd_bus_publish run_listeners_few notices_off_types
          audit_off_stream simp del: run_listeners.simps(2))
  qed
  then show "co_audit (snd (deliver_event is_uuid x e s)) = snd (audit_listener (ci_audit x, ci_now x) e (co_audit s))"
    "co_notices (snd (deliver_event is_uuid x e s)) =
      snd (notification_listener is_uuid (ci_notices x, [], ci_now x) e (co_notices s))"
    "fst (deliver_event is_uuid x e s) = Inr () \<Longrightarrow>
      (on_stream ''users'' ?n \<or> on_stream ''organizations'' ?n) \<and>
      fst (audit_listener (ci_audit x, ci_now x) e (co_audit s)) = Inr () \<and>
      fst (notification_listener is_uuid (ci_notices x, [], ci_now x) e (co_notices s)) = Inr ()"
    by blast+
qed

section \<open>The pipeline\<close>

text \<open>The event a row carries, when the relay can read its envelope.\<close>

definition carried :: "(string \<Rightarrow> instant option) \<Rightarrow> outbox_row \<Rightarrow> domain_event option" where
  "carried dp r =
     (case parse_envelope dp (ob_payload r) of
        None \<Rightarrow> None
      | Some p \<Rightarrow> if OUTBOX_SCHEMA_VERSION < default_to 1 (oe_schemaVersion p) then None else Some (event_of_row r p))"

record 'q pipeline =
  pl_outbox :: relay_system
  pl_consumers :: "'q consumers"

text \<open>\<open>Relays\<close> is every step of the outbox that publishes nothing; \<open>Deliver\<close> dispatches a claimed row with the
  answer the subscribers give; \<open>Die\<close> loses the process after they ran.\<close>

inductive pipeline_step ::
    "relay_config \<Rightarrow> (string \<Rightarrow> bool) \<Rightarrow> (string \<Rightarrow> instant option) \<Rightarrow> 'q pipeline \<Rightarrow> 'q pipeline \<Rightarrow> bool"
  for cfg is_uuid dp where
  Relays:
    "relay_step cfg (pl_outbox s) outbox' \<Longrightarrow> sy_log outbox' = sy_log (pl_outbox s) \<Longrightarrow>
     pipeline_step cfg is_uuid dp s (s \<lparr> pl_outbox := outbox' \<rparr>)"
| Deliver:
    "row \<in> set (sy_claimed (pl_outbox s)) \<Longrightarrow> carried dp row = Some e \<Longrightarrow>
     deliver_event is_uuid x e (pl_consumers s) = (answer, consumers') \<Longrightarrow>
     re_date_parse env = dp \<Longrightarrow> re_publish env = (\<lambda>e'. answer) \<Longrightarrow>
     dispatchOne cfg env row \<lparr> rs_rows = sy_rows (pl_outbox s), rs_published = sy_log (pl_outbox s) \<rparr> = (ok, t) \<Longrightarrow>
     pipeline_step cfg is_uuid dp s
       (s \<lparr> pl_outbox := pl_outbox s \<lparr> sy_rows := rs_rows t, sy_claimed := remove1 row (sy_claimed (pl_outbox s)),
                                        sy_log := rs_published t \<rparr>,
            pl_consumers := consumers' \<rparr>)"
| Die:
    "row \<in> set (sy_claimed (pl_outbox s)) \<Longrightarrow> carried dp row = Some e \<Longrightarrow>
     deliver_event is_uuid x e (pl_consumers s) = (answer, consumers') \<Longrightarrow>
     pipeline_step cfg is_uuid dp s
       (s \<lparr> pl_outbox := pl_outbox s \<lparr> sy_claimed := remove1 row (sy_claimed (pl_outbox s)) \<rparr>,
            pl_consumers := consumers' \<rparr>)"
| Read:
    "marks_read f \<Longrightarrow>
     pipeline_step cfg is_uuid dp s
       (s \<lparr> pl_consumers := pl_consumers s \<lparr> co_notices := f (co_notices (pl_consumers s)) \<rparr> \<rparr>)"

definition consumed :: "(string \<Rightarrow> bool) \<Rightarrow> domain_event \<Rightarrow> 'q consumers \<Rightarrow> bool" where
  "consumed is_uuid e c \<longleftrightarrow>
     (de_occurredAt e, de_eventId e) \<in> audit_key ` set (co_audit c) \<and>
     (notice_for is_uuid e \<noteq> None \<longrightarrow> de_eventId e \<in> nt_id ` set (co_notices c))"

definition in_step :: "(string \<Rightarrow> instant option) \<Rightarrow> relay_system \<Rightarrow> bool" where
  "in_step dp s \<longleftrightarrow>
     (\<forall>c \<in> set (sy_claimed s). \<forall>r \<in> set (sy_rows s). ob_id c = ob_id r \<longrightarrow> carried dp c = carried dp r) \<and>
     (\<forall>(i, e) \<in> set (sy_log s). \<forall>r \<in> set (sy_rows s). ob_id r = i \<longrightarrow> carried dp r = Some e)"

lemma carried_cong:
  "ob_payload r = ob_payload r' \<Longrightarrow> ob_eventType r = ob_eventType r' \<Longrightarrow> ob_aggregateId r = ob_aggregateId r' \<Longrightarrow>
   ob_organizationId r = ob_organizationId r' \<Longrightarrow> carried dp r = carried dp r'"
proof -
  assume "ob_payload r = ob_payload r'" "ob_eventType r = ob_eventType r'" "ob_aggregateId r = ob_aggregateId r'"
    "ob_organizationId r = ob_organizationId r'"
  moreover from this have "event_of_row r = event_of_row r'" by (intro ext) (simp add: event_of_row_def)
  ultimately show ?thesis by (simp add: carried_def split: option.split)
qed
lemma carried_claim [simp]: "carried dp (claim_row cfg now r) = carried dp r"
  by (rule carried_cong) simp_all

text \<open>Rows that stand for rows of the table before.\<close>

definition descend :: "(string \<Rightarrow> instant option) \<Rightarrow> outbox_table \<Rightarrow> outbox_table \<Rightarrow> bool" where
  "descend dp rows rows' \<longleftrightarrow> (\<forall>r' \<in> set rows'. \<exists>r \<in> set rows. ob_id r' = ob_id r \<and> carried dp r' = carried dp r)"

lemma descend_update:
  assumes "\<And>r. ob_id (f r) = ob_id r \<and> carried dp (f r) = carried dp r"
  shows "descend dp rows (update_rows sel f rows)"
  unfolding descend_def
proof
  fix r' assume "r' \<in> set (update_rows sel f rows)"
  then show "\<exists>r \<in> set rows. ob_id r' = ob_id r \<and> carried dp r' = carried dp r"
    using assms by (cases rule: in_update_rowsE) auto
qed

lemma descend_apply_write: "descend dp rows (apply_write cfg now i w rows)"
proof (cases w)
  case NoWrite
  then show ?thesis by (auto simp: apply_write_def descend_def)
qed (auto simp: apply_write_def markProcessed_def parkPermanently_def recordError_def
    intro!: descend_update carried_cong)

lemma descend_claim: "claimBatch cfg returned locked now rows = (cl, rows') \<Longrightarrow> descend dp rows rows'"
  by (auto simp: claimBatch_def Let_def intro!: descend_update)

lemma descend_purge:
  "descend dp rows (purgeOldOutboxEvents leader running days batch batches now rows)"
  "descend dp rows (purgeParkedOutboxEvents cfg leader running days batch batches now rows)"
proof -
  have "set (snd (purge_batches order_by old batch n rows)) \<subseteq> set rows" for order_by old n
    using purge_batches_filter[of order_by old batch n rows] by (metis filter_is_subset)
  then show "descend dp rows (purgeOldOutboxEvents leader running days batch batches now rows)"
    "descend dp rows (purgeParkedOutboxEvents cfg leader running days batch batches now rows)"
    by (auto simp: descend_def purgeOldOutboxEvents_def purgeParkedOutboxEvents_def; blast)+
qed

lemma in_step_descend:
  assumes "in_step dp s" "descend dp (sy_rows s) (sy_rows s')" "distinct (map ob_id (sy_rows s'))"
    and claimed: "\<And>c. c \<in> set (sy_claimed s') \<Longrightarrow>
        c \<in> set (sy_claimed s) \<or> (\<exists>r \<in> set (sy_rows s'). ob_id c = ob_id r \<and> carried dp c = carried dp r)"
    and logged: "\<And>i e. (i, e) \<in> set (sy_log s') \<Longrightarrow>
        (i, e) \<in> set (sy_log s) \<or> (\<exists>c \<in> set (sy_claimed s). ob_id c = i \<and> carried dp c = Some e)"
  shows "in_step dp s'"
  unfolding in_step_def
proof (intro conjI ballI impI)
  fix c r' assume c: "c \<in> set (sy_claimed s')" and r': "r' \<in> set (sy_rows s')" and i: "ob_id c = ob_id r'"
  obtain r where r: "r \<in> set (sy_rows s)" "ob_id r' = ob_id r" "carried dp r' = carried dp r"
    using assms(2) r' by (auto simp: descend_def)
  from claimed[OF c] show "carried dp c = carried dp r'"
  proof
    assume "c \<in> set (sy_claimed s)"
    then show ?thesis using assms(1) r i by (auto simp: in_step_def)
  next
    assume "\<exists>r \<in> set (sy_rows s'). ob_id c = ob_id r \<and> carried dp c = carried dp r"
    then show ?thesis using unique_row[OF assms(3)] r' i by metis
  qed
next
  fix p assume p: "p \<in> set (sy_log s')"
  obtain i e where ie: "p = (i, e)" by (cases p)
  have "carried dp r' = Some e" if r': "r' \<in> set (sy_rows s')" and i: "ob_id r' = i" for r'
  proof -
    obtain r where r: "r \<in> set (sy_rows s)" "ob_id r' = ob_id r" "carried dp r' = carried dp r"
      using assms(2) r' by (auto simp: descend_def)
    from logged[of i e] p ie show ?thesis
      using assms(1) r i unfolding in_step_def by fastforce
  qed
  then show "case p of (i, e) \<Rightarrow> \<forall>r \<in> set (sy_rows s'). ob_id r = i \<longrightarrow> carried dp r = Some e" using ie by simp
qed

lemma in_step_relay:
  assumes "relay_step cfg s s'" "in_step dp s" "outbox_inv cfg s" "sy_log s' = sy_log s"
  shows "in_step dp s'"
proof -
  have distinct: "distinct (map ob_id (sy_rows s'))"
    using outbox_inv_step[OF assms(1,3)] by (simp add: outbox_inv_def)
  note kept = in_step_descend[OF assms(2) _ distinct]
  from assms(1) show ?thesis
  proof (cases rule: relay_step.cases)
    case (Store newIds events now)
    have old: "r \<in> set (sy_rows s) \<or> ob_id r \<in> set newIds" if "r \<in> set (sy_rows s')" for r
      using that Store by (auto simp: publishAll_def outbox_row_of_def split: if_splits dest: set_zip_leftD)
    have unused: "i \<notin> set newIds" if "i \<in> ob_id ` set (sy_claimed s) \<or> i \<in> fst ` set (sy_log s)" for i
      using that Store(4) by blast
    show ?thesis
      unfolding in_step_def
    proof (intro conjI ballI impI)
      fix c r assume c: "c \<in> set (sy_claimed s')" and r: "r \<in> set (sy_rows s')" and i: "ob_id c = ob_id r"
      have "ob_id c \<in> ob_id ` set (sy_claimed s)" using Store(1) c by simp
      then have "ob_id r \<notin> set newIds" using unused i by simp
      then show "carried dp c = carried dp r" using old[OF r] assms(2) Store(1) c i by (auto simp: in_step_def)
    next
      fix p assume p: "p \<in> set (sy_log s')"
      have "carried dp r = Some (snd p)" if "r \<in> set (sy_rows s')" "ob_id r = fst p" for r
      proof -
        have "fst p \<in> fst ` set (sy_log s)" using Store(1) p by simp
        then have "ob_id r \<notin> set newIds" using unused that(2) by simp
        then show ?thesis using old[OF that(1)] assms(2) p that Store by (auto simp: in_step_def)
      qed
      then show "case p of (i, e) \<Rightarrow> \<forall>r \<in> set (sy_rows s'). ob_id r = i \<longrightarrow> carried dp r = Some e" by (auto simp: split_def)
    qed
  next
    case (Claim returned locked now cl rows')
    note cl = claimed_rows[OF Claim(2,3)]
    have "set cl = set (map (claim_row cfg now)
        (filter (\<lambda>r. ob_id r \<in> set (map ob_id (lockable cfg locked now (sy_rows s)))) (sy_rows s)))"
      using cl(1) by (metis set_mset_mset)
    then have "c \<in> set rows'" if "c \<in> set cl" for c
      using that unfolding cl(2) by (auto simp: update_rows_def)
    then show ?thesis using descend_claim[OF Claim(2)] Claim(1) assms(4) by (intro kept) auto
  next
    case (Dispatch row env ok t)
    obtain w where "rs_rows t = apply_write cfg (re_now env) (ob_id row) w (sy_rows s)"
      using dispatchOne_cases[of cfg env row "\<lparr> rs_rows = sy_rows s, rs_published = sy_log s \<rparr>"] Dispatch(3) by auto
    then show ?thesis
      using descend_apply_write[of dp "sy_rows s" cfg] Dispatch(1) assms(4) by (intro kept) (auto dest: notin_set_remove1)
  next
    case (Crash row)
    then show ?thesis by (intro kept) (auto simp: descend_def dest: notin_set_remove1)
  next
    case (Purge_Old leader running days batch batches now)
    then show ?thesis using descend_purge(1) by (intro kept) auto
  next
    case (Purge_Parked leader running days batch batches now)
    then show ?thesis using descend_purge(2) by (intro kept) auto
  qed
qed

lemma dispatch_log:
  assumes "carried (re_date_parse env) row = Some e"
  shows "rs_published (snd (dispatchOne cfg env row s)) =
    rs_published s @ (case re_publish env e of Inr _ \<Rightarrow> [(ob_id row, e)] | Inl _ \<Rightarrow> [])"
proof -
  obtain p where "parse_envelope (re_date_parse env) (ob_payload row) = Some p"
    "\<not> OUTBOX_SCHEMA_VERSION < default_to 1 (oe_schemaVersion p)" "e = event_of_row row p"
    using assms by (auto simp: carried_def split: option.splits if_splits)
  then show ?thesis
    by (simp add: dispatchOne_def write_rows_def Let_def split: sum.split)
qed

section \<open>What a delivery leaves\<close>

lemma delivery_grows:
  "\<exists>ys ns. co_audit (snd (deliver_event is_uuid x e c)) = co_audit c @ ys \<and>
     map unread_form (co_notices (snd (deliver_event is_uuid x e c))) = map unread_form (co_notices c) @ ns \<and>
     (distinct (map audit_key (co_audit c)) \<longrightarrow> distinct (map audit_key (co_audit c @ ys))) \<and>
     (distinct (map nt_id (map unread_form (co_notices c))) \<longrightarrow>
        distinct (map nt_id (map unread_form (co_notices c) @ ns)))"
  using audit.one_delivery[of "(ci_audit x, ci_now x)" e "co_audit c"]
    notices.one_delivery[of is_uuid "(ci_notices x, [], ci_now x)" e "co_notices c"]
  by (simp add: deliver_event_effect) metis

lemma unread_ids: "map nt_id (map unread_form rows) = map nt_id rows"
  by (simp add: comp_def)

lemma delivery_keeps:
  assumes "consumed is_uuid e c"
  shows "consumed is_uuid e (snd (deliver_event is_uuid x e' c))"
proof -
  obtain ys ns where "co_audit (snd (deliver_event is_uuid x e' c)) = co_audit c @ ys"
    "map unread_form (co_notices (snd (deliver_event is_uuid x e' c))) = map unread_form (co_notices c) @ ns"
    using delivery_grows by blast
  moreover from this(2) have "map nt_id (co_notices (snd (deliver_event is_uuid x e' c))) = map nt_id (co_notices c) @ map nt_id ns"
    by (metis map_append unread_ids)
  then have "nt_id ` set (co_notices (snd (deliver_event is_uuid x e' c))) = nt_id ` set (co_notices c) \<union> nt_id ` set ns"
    by (metis set_append set_map)
  ultimately show ?thesis using assms by (auto simp: consumed_def)
qed

lemma delivery_consumes:
  assumes "fst (deliver_event is_uuid x e c) = Inr ()"
  shows "consumed is_uuid e (snd (deliver_event is_uuid x e c))"
proof -
  note answered = deliver_event_effect(3)[OF assms]
  let ?a = "audit_listener (ci_audit x, ci_now x) e (co_audit c)"
  have "audited_event e \<noteq> None" using answered by (auto simp: audited_event_def)
  then obtain r where r: "audited_event e = Some r" by blast
  then have "POSTGRES_UUID (de_eventId e)"
    using answered audited_id[OF r] by (auto simp: listener_records record_command split: if_splits)
  then have entry: "audit_entry_for e = Some (entry_of_record r)" using r by (simp add: audit_entry_for_def)
  have "audit_key (entry_of_record r) = (de_occurredAt e, de_eventId e)"
    using audited_id[OF r] by (simp add: audit_key_def entry_of_record_def)
  then have "(de_occurredAt e, de_eventId e) \<in> audit_key ` set (snd ?a)"
    using audit.answered_delivery[OF entry] answered by fastforce
  moreover have "de_eventId e \<in> nt_id ` set (snd (notification_listener is_uuid (ci_notices x, [], ci_now x) e (co_notices c)))"
    if "notice_for is_uuid e = Some n" for n
    using notices.answered_delivery[OF that] answered notice_unread[OF that] by (auto simp: image_image)
  ultimately show ?thesis by (auto simp: consumed_def deliver_event_effect)
qed

lemma delivery_distinct:
  "distinct (map audit_key (co_audit c)) \<Longrightarrow> distinct (map audit_key (co_audit (snd (deliver_event is_uuid x e c))))"
  "distinct (map nt_id (co_notices c)) \<Longrightarrow> distinct (map nt_id (co_notices (snd (deliver_event is_uuid x e c))))"
  using delivery_grows[of is_uuid x e c] unread_ids[of "co_notices c"]
    unread_ids[of "co_notices (snd (deliver_event is_uuid x e c))"] by metis+

section \<open>The invariant of the pipeline\<close>

definition pipeline_inv ::
    "relay_config \<Rightarrow> (string \<Rightarrow> bool) \<Rightarrow> (string \<Rightarrow> instant option) \<Rightarrow> 'q pipeline \<Rightarrow> bool" where
  "pipeline_inv cfg is_uuid dp s \<longleftrightarrow>
     outbox_inv cfg (pl_outbox s) \<and> in_step dp (pl_outbox s) \<and>
     (\<forall>(i, e) \<in> set (sy_log (pl_outbox s)). consumed is_uuid e (pl_consumers s)) \<and>
     distinct (map audit_key (co_audit (pl_consumers s))) \<and> distinct (map nt_id (co_notices (pl_consumers s)))"

lemma pipeline_inv_step: "pipeline_step cfg is_uuid dp s s' \<Longrightarrow> pipeline_inv cfg is_uuid dp s \<Longrightarrow> pipeline_inv cfg is_uuid dp s'"
proof (induction rule: pipeline_step.induct)
  case (Relays s outbox')
  then show ?case
    using outbox_inv_step[OF Relays(1)] in_step_relay[OF Relays(1)] by (simp add: pipeline_inv_def)
next
  case (Deliver row s e x answer consumers' env ok t)
  let ?o = "pl_outbox s \<lparr> sy_rows := rs_rows t, sy_claimed := remove1 row (sy_claimed (pl_outbox s)),
                           sy_log := rs_published t \<rparr>"
  have step: "relay_step cfg (pl_outbox s) ?o"
    using relay_step.Dispatch[OF Deliver(1,6)] .
  have inv: "outbox_inv cfg ?o" using outbox_inv_step[OF step] Deliver(7) by (simp add: pipeline_inv_def)
  have log: "sy_log ?o = sy_log (pl_outbox s) @ (case answer of Inr _ \<Rightarrow> [(ob_id row, e)] | Inl _ \<Rightarrow> [])"
    using dispatch_log[of env row e cfg "\<lparr> rs_rows = sy_rows (pl_outbox s), rs_published = sy_log (pl_outbox s) \<rparr>"]
      Deliver(2,4,5,6) by (simp del: sum.case)
  obtain w where rows: "sy_rows ?o = apply_write cfg (re_now env) (ob_id row) w (sy_rows (pl_outbox s))"
    using dispatchOne_cases[of cfg env row "\<lparr> rs_rows = sy_rows (pl_outbox s), rs_published = sy_log (pl_outbox s) \<rparr>"]
      Deliver(6) by auto
  have "in_step dp ?o"
  proof (rule in_step_descend[of _ "pl_outbox s"])
    show "in_step dp (pl_outbox s)" using Deliver(7) by (simp add: pipeline_inv_def)
    show "descend dp (sy_rows (pl_outbox s)) (sy_rows ?o)" unfolding rows by (rule descend_apply_write)
    show "distinct (map ob_id (sy_rows ?o))" using inv by (simp add: outbox_inv_def)
  qed (use log Deliver(1,2) in \<open>auto split: sum.splits dest: notin_set_remove1\<close>)
  moreover have "consumed is_uuid f consumers'" if "(i, f) \<in> set (sy_log ?o)" for i f
  proof (cases "(i, f) \<in> set (sy_log (pl_outbox s))")
    case True
    then have "consumed is_uuid f (pl_consumers s)" using Deliver(7) by (auto simp: pipeline_inv_def)
    then show ?thesis using delivery_keeps[of is_uuid f "pl_consumers s" x e] Deliver(3) by simp
  next
    case False
    then have "f = e" "answer = Inr ()" using that log by (auto split: sum.splits)
    then show ?thesis using delivery_consumes[of is_uuid x e "pl_consumers s"] Deliver(3) by simp
  qed
  moreover have "distinct (map audit_key (co_audit consumers'))" "distinct (map nt_id (co_notices consumers'))"
    using delivery_distinct[of "pl_consumers s" is_uuid x e] Deliver(3,7) by (simp_all add: pipeline_inv_def)
  ultimately show ?case using inv by (auto simp: pipeline_inv_def)
next
  case (Die row s e x answer consumers')
  have step: "relay_step cfg (pl_outbox s) (pl_outbox s \<lparr> sy_claimed := remove1 row (sy_claimed (pl_outbox s)) \<rparr>)"
    using Die(1) by (rule relay_step.Crash)
  have inv: "outbox_inv cfg (pl_outbox s \<lparr> sy_claimed := remove1 row (sy_claimed (pl_outbox s)) \<rparr>)"
    "in_step dp (pl_outbox s \<lparr> sy_claimed := remove1 row (sy_claimed (pl_outbox s)) \<rparr>)"
    using outbox_inv_step[OF step] in_step_relay[OF step] Die(4) by (simp_all add: pipeline_inv_def)
  moreover have "consumed is_uuid f consumers'" if "(i, f) \<in> set (sy_log (pl_outbox s))" for i f
    using that Die(3,4) delivery_keeps[of is_uuid f "pl_consumers s" x e] by (auto simp: pipeline_inv_def)
  ultimately show ?case
    using delivery_distinct[of "pl_consumers s" is_uuid x e] Die(3,4) by (auto simp: pipeline_inv_def)
next
  case (Read f s)
  have "map unread_form (f (co_notices (pl_consumers s))) = map unread_form (co_notices (pl_consumers s))"
    using notices.other_keeps[OF Read(1)] .
  then have "map nt_id (f (co_notices (pl_consumers s))) = map nt_id (co_notices (pl_consumers s))"
    by (metis unread_ids)
  moreover from this have "nt_id ` set (f (co_notices (pl_consumers s))) = nt_id ` set (co_notices (pl_consumers s))"
    by (metis set_map)
  ultimately show ?case using Read(2) by (simp add: pipeline_inv_def consumed_def)
qed

definition idle_pipeline :: "'q \<Rightarrow> 'q pipeline" where
  "idle_pipeline q =
     \<lparr> pl_outbox = empty_outbox, pl_consumers = \<lparr> co_audit = [], co_notices = [], co_mail = q \<rparr> \<rparr>"

lemma pipeline_inv_run:
  assumes "(pipeline_step cfg is_uuid dp)\<^sup>*\<^sup>* (idle_pipeline q) s"
  shows "pipeline_inv cfg is_uuid dp s"
  using assms
proof (induction rule: rtranclp_induct)
  case base
  show ?case by (simp add: pipeline_inv_def idle_pipeline_def empty_outbox_def outbox_inv_def in_step_def)
qed (rule pipeline_inv_step)

text \<open>C28. From the table to the consumers, in every interleaving of stores, claims, deliveries, retries, crashes
  in the middle of a delivery, purges and reads, with database calls that fail or lose their answer: an
  outbox row marked processed carries an event whose audit entry is on record and, when the event calls for
  a notification, whose notification is on record, each once although events are delivered again.\<close>

theorem processed_events_are_consumed:
  assumes "(pipeline_step cfg is_uuid dp)\<^sup>*\<^sup>* (idle_pipeline q) s" "r \<in> set (sy_rows (pl_outbox s))"
    "ob_processedAt r \<noteq> None"
  shows "\<exists>e. carried dp r = Some e \<and>
      (de_occurredAt e, de_eventId e) \<in> audit_key ` set (co_audit (pl_consumers s)) \<and>
      (notice_for is_uuid e \<noteq> None \<longrightarrow> de_eventId e \<in> nt_id ` set (co_notices (pl_consumers s))) \<and>
      distinct (map audit_key (co_audit (pl_consumers s))) \<and> distinct (map nt_id (co_notices (pl_consumers s)))"
proof -
  have inv: "pipeline_inv cfg is_uuid dp s" using assms(1) by (rule pipeline_inv_run)
  then have "0 < publications (pl_outbox s) (ob_id r)"
    using outbox_invD(3)[OF _ assms(2,3)] by (auto simp: pipeline_inv_def)
  then obtain e where e: "(ob_id r, e) \<in> set (sy_log (pl_outbox s))"
    using count_list_0_iff[of "map fst (sy_log (pl_outbox s))" "ob_id r"] by auto
  then have "carried dp r = Some e" "consumed is_uuid e (pl_consumers s)"
    using inv assms(2) by (auto simp: pipeline_inv_def in_step_def)
  then show ?thesis using inv by (auto simp: pipeline_inv_def consumed_def)
qed

definition registered :: domain_event where
  "registered = example_event \<lparr> de_eventId := ''018f0000-0000-7000-8000-000000000001'' \<rparr>"

definition claimed_registered :: outbox_row where
  "claimed_registered = claim_row example_relay 6 (outbox_row_of 5 (''i1'', registered))"

definition calm_delivery :: "unit circumstances" where
  "calm_delivery = \<lparr> ci_audit = Healthy, ci_notices = Healthy, ci_now = 9, ci_welcome = \<lambda>e q. (Inr (), q) \<rparr>"

theorem processed_events_are_consumed_witness:
  "\<exists>(s :: unit pipeline) r e. r \<in> set (sy_rows (pl_outbox s)) \<and> ob_processedAt r = Some 9 \<and>
     carried parse_iso r = Some e \<and>
     (de_occurredAt e, de_eventId e) \<in> audit_key ` set (co_audit (pl_consumers s)) \<and>
     co_notices (pl_consumers s) = []"
proof -
  let ?step = "pipeline_step example_relay (\<lambda>u. True) parse_iso"
  let ?none = "\<lparr> co_audit = [], co_notices = [], co_mail = () \<rparr>"
  let ?s1 = "idle_pipeline () \<lparr> pl_outbox := empty_outbox \<lparr> sy_rows := publishAll [''i1''] 5 [registered] [] \<rparr> \<rparr>"
  let ?o2 = "\<lparr> sy_rows = [claimed_registered], sy_claimed = [claimed_registered], sy_log = [] \<rparr>"
  let ?s2 = "\<lparr> pl_outbox = ?o2, pl_consumers = ?none \<rparr>"
  obtain answer c where d: "deliver_event (\<lambda>u. True) calm_delivery registered ?none = (answer, c)" by fastforce
  let ?env = "example_env \<lparr> re_publish := \<lambda>e. answer \<rparr>"
  obtain ok t where t: "dispatchOne example_relay ?env claimed_registered
      \<lparr> rs_rows = [claimed_registered], rs_published = [] \<rparr> = (ok, t)" by fastforce
  let ?s3 = "?s2 \<lparr> pl_outbox := ?o2 \<lparr> sy_rows := rs_rows t, sy_claimed := [], sy_log := rs_published t \<rparr>,
                  pl_consumers := c \<rparr>"
  have "relay_step example_relay empty_outbox (empty_outbox \<lparr> sy_rows := publishAll [''i1''] 5 [registered] (sy_rows empty_outbox) \<rparr>)"
    by (rule relay_step.Store) (simp_all add: empty_outbox_def)
  then have one: "?step (idle_pipeline ()) ?s1"
    using pipeline_step.Relays[of example_relay "idle_pipeline ()"] by (simp add: idle_pipeline_def empty_outbox_def)
  have claim: "claimBatch example_relay (\<lambda>xs. xs) (\<lambda>i. False) 6 (publishAll [''i1''] 5 [registered] []) =
      ([claimed_registered], [claimed_registered])"
    by (simp add: publishAll_def claimBatch_def lockable_def in_creation_order_def outbox_row_of_def claimable_def
        example_relay_def update_rows_def Let_def claimed_registered_def)
  have "relay_step example_relay (pl_outbox ?s1) ?o2"
    using relay_step.Claim[of example_relay "\<lambda>xs. xs" "\<lambda>i. False" 6 "pl_outbox ?s1"] claim
    by (simp add: idle_pipeline_def empty_outbox_def)
  then have two: "?step ?s1 ?s2"
    using pipeline_step.Relays[of example_relay ?s1 ?o2] by (simp add: idle_pipeline_def empty_outbox_def)
  have "0 \<le> year_from_day (de_occurredAt registered div ms_per_day)"
    "year_from_day (de_occurredAt registered div ms_per_day) \<le> 9999" by code_simp+
  then have parsed: "parse_envelope parse_iso (ob_payload claimed_registered) =
      Some \<lparr> oe_schemaVersion = Some 1, oe_eventId = de_eventId registered, oe_occurredAt = de_occurredAt registered,
             oe_payload = de_payload registered \<rparr>"
    using envelope_roundtrip[of registered parse_iso] parse_toISOString
    by (simp add: claimed_registered_def outbox_row_of_def registered_def)
  have carries: "event_of_row claimed_registered
      \<lparr> oe_schemaVersion = Some 1, oe_eventId = de_eventId registered, oe_occurredAt = de_occurredAt registered,
        oe_payload = de_payload registered \<rparr> = registered"
    by (simp add: event_of_row_def claimed_registered_def outbox_row_of_def registered_def example_event_def)
  then have carried: "carried parse_iso claimed_registered = Some registered"
    by (simp add: carried_def parsed OUTBOX_SCHEMA_VERSION_def)
  have three: "?step ?s2 ?s3"
    using pipeline_step.Deliver[of claimed_registered ?s2 parse_iso registered "\<lambda>u. True" calm_delivery answer c ?env
        example_relay ok t] carried d t by (simp add: example_env_def)
  have "fst (deliver_event (\<lambda>u. True) calm_delivery registered ?none) = Inr ()" by code_simp
  then have answer: "answer = Inr ()" using d by simp
  have "rs_rows (snd (dispatchOne example_relay (example_env \<lparr> re_publish := \<lambda>e. Inr () \<rparr>) claimed_registered
      \<lparr> rs_rows = [claimed_registered], rs_published = [] \<rparr>)) =
      [claimed_registered \<lparr> ob_processedAt := Some 9, ob_lastError := None, ob_nextAttemptAt := None \<rparr>]"
    by (simp add: dispatchOne_def example_env_def parsed OUTBOX_SCHEMA_VERSION_def markProcessed_def update_rows_def)
  then have rows: "rs_rows t = [claimed_registered \<lparr> ob_processedAt := Some 9, ob_lastError := None, ob_nextAttemptAt := None \<rparr>]"
    using t answer by simp
  have "co_notices (snd (deliver_event (\<lambda>u. True) calm_delivery registered ?none)) = []" by code_simp
  then have empty: "co_notices c = []" using d by simp
  have run: "?step\<^sup>*\<^sup>* (idle_pipeline ()) ?s3"
    using one two three by (meson converse_rtranclp_into_rtranclp rtranclp.rtrancl_refl)
  obtain e where e: "carried parse_iso (hd (rs_rows t)) = Some e"
    "(de_occurredAt e, de_eventId e) \<in> audit_key ` set (co_audit c)"
    using processed_events_are_consumed[OF run, of "hd (rs_rows t)"] rows by auto
  have three_facts: "hd (rs_rows t) \<in> set (sy_rows (pl_outbox ?s3))" "ob_processedAt (hd (rs_rows t)) = Some 9"
    using rows by simp_all
  show ?thesis
    by (rule exI[of _ ?s3], rule exI[of _ "hd (rs_rows t)"], rule exI[of _ e])
      (use e three_facts empty in simp)
qed

end
