(* ===== verification/Mail_Delivery.thy ===== *)
theory Mail_Delivery
  imports Domain_Events Leader_Lease Effects
begin

text \<open>E-mail and the queues behind it: the listener that enqueues the welcome mail (libs/modules/users), the
  mails Better Auth asks for (libs/infra/auth), the processor of the worker that sends a job's mail and marks
  it sent (apps/worker), the dead-letter router (libs/infra/redis) and the scheduler's reconciliation of failed
  jobs. SMTP and Redis answer as each run says; BullMQ, SHA-256 and the redaction of texts are parameters.\<close>

section \<open>Enqueuing\<close>

record email_payload =
  ep_to :: string
  ep_subject :: string
  ep_body :: string
  ep_templateId :: "string option"
  ep_variables :: "(string \<times> string) list"

definition WELCOME_EMAIL :: string where "WELCOME_EMAIL = ''welcome-email''"
definition AUTH_EMAIL :: string where "AUTH_EMAIL = ''auth-email''"

text \<open>\<open>UserRegisteredListener\<close>; the job id comes from the event, so that a second delivery names the same job.\<close>

definition welcome_mail :: "domain_event \<Rightarrow> string \<Rightarrow> email_payload" where
  "welcome_mail e email =
     \<lparr> ep_to = email, ep_subject = ''Welcome to the platform!'',
       ep_body = ''Thank you for registering. Your account ID is '' @ de_aggregateId e @ ''.'',
       ep_templateId = Some ''welcome'',
       ep_variables = [(''userId'', de_aggregateId e), (''email'', email)] \<rparr>"

definition user_registered_listener ::
    "(string \<Rightarrow> bool) \<Rightarrow> (string \<Rightarrow> email_payload \<Rightarrow> string \<Rightarrow> ('q, unit) action) \<Rightarrow> domain_event \<Rightarrow> ('q, unit) action" where
  "user_registered_listener is_email add e =
     (case userEventPayloadSchema is_email (de_payload e) of
        None \<Rightarrow>
          throwE (Internal (USERS_REGISTERED @ '' payload is not deliverable (eventId='' @ de_eventId e @ '')''))
      | Some p \<Rightarrow> add WELCOME_EMAIL (welcome_mail e (up_email p)) (WELCOME_EMAIL @ ''__'' @ de_eventId e))"

text \<open>The mail dispatcher of Better Auth: the job id is a fingerprint of the mail.\<close>

definition is_word :: "char \<Rightarrow> bool" where
  "is_word c \<longleftrightarrow> is_digit c \<or> is_lower c \<or> (65 \<le> (of_char c :: nat) \<and> (of_char c :: nat) \<le> 90) \<or> c = CHR ''_'' \<or> c = CHR ''-''"

definition JOB_ID_FINGERPRINT_LENGTH :: nat where "JOB_ID_FINGERPRINT_LENGTH = 32"

definition auth_mail_job_id :: "(string \<Rightarrow> string) \<Rightarrow> string \<Rightarrow> string \<Rightarrow> string \<Rightarrow> string option \<Rightarrow> string" where
  "auth_mail_job_id sha256hex recipient subject body templateId =
     (let template = default_to ''generic'' templateId;
          label = map (\<lambda>c. if is_word c then c else CHR ''-'') template;
          fingerprint = take JOB_ID_FINGERPRINT_LENGTH
            (sha256hex (template @ ''|'' @ recipient @ ''|'' @ subject @ ''|'' @ body))
      in AUTH_EMAIL @ ''__'' @ label @ ''__'' @ fingerprint)"

definition send_auth_mail ::
    "(string \<Rightarrow> string) \<Rightarrow> (string \<Rightarrow> email_payload \<Rightarrow> string \<Rightarrow> ('q, unit) action) \<Rightarrow> string \<Rightarrow> string \<Rightarrow> string
     \<Rightarrow> string option \<Rightarrow> ('q, unit) action" where
  "send_auth_mail sha256hex add recipient subject body templateId =
     add (default_to AUTH_EMAIL templateId)
       \<lparr> ep_to = recipient, ep_subject = subject, ep_body = body, ep_templateId = templateId, ep_variables = [] \<rparr>
       (auth_mail_job_id sha256hex recipient subject body templateId)"

section \<open>Sending\<close>

record mail_message =
  mm_to :: string
  mm_subject :: string
  mm_html :: string
  mm_messageId :: string

record mail_job =
  mj_id :: "string option"
  mj_data :: email_payload

text \<open>The markers of the processor in Redis, and the log of what the mail server accepted.\<close>

record mail_state =
  ms_markers :: "string \<Rightarrow> redis_key"
  ms_accepted :: "(string \<times> mail_message) list"

definition IDEMPOTENCY_TTL_MS :: int where
  "IDEMPOTENCY_TTL_MS = 30 * 24 * 60 * 60 * 1000"

datatype smtp_end = Accepted | Rejected failure | Accepted_Unheard failure

text \<open>How one run of the processor goes: the reply to its GET, the mail server, whether the worker dies once
  the server has answered, the reply to its SET, and when each of the three happens.\<close>

record mail_run =
  mr_get :: "failure option"
  mr_smtp :: smtp_end
  mr_dies :: bool
  mr_set :: call_end
  mr_get_at :: instant
  mr_send_at :: instant
  mr_set_at :: instant

definition sent_marker_key :: "string \<Rightarrow> string" where
  "sent_marker_key jobId = ''email:sent:'' @ jobId"

definition message_of :: "(string \<Rightarrow> string) \<Rightarrow> string \<Rightarrow> email_payload \<Rightarrow> mail_message" where
  "message_of sha256hex jobId d =
     \<lparr> mm_to = ep_to d, mm_subject = ep_subject d, mm_html = ep_body d,
       mm_messageId = ''<'' @ sha256hex jobId @ ''@nestjs-fastify-nx.local>'' \<rparr>"

definition mail_send :: "smtp_end \<Rightarrow> string \<Rightarrow> mail_message \<Rightarrow> (mail_state, unit) action" where
  "mail_send smtp jobId m s =
     (case smtp of
        Accepted \<Rightarrow> (Inr (), s \<lparr> ms_accepted := ms_accepted s @ [(jobId, m)] \<rparr>)
      | Accepted_Unheard f \<Rightarrow> (Inl f, s \<lparr> ms_accepted := ms_accepted s @ [(jobId, m)] \<rparr>)
      | Rejected f \<Rightarrow> (Inl f, s))"

definition set_marker :: "call_end \<Rightarrow> instant \<Rightarrow> string \<Rightarrow> (mail_state, unit) action" where
  "set_marker e now key s =
     (let s' = s \<lparr> ms_markers := (ms_markers s)(key := Some (''1'', now + IDEMPOTENCY_TTL_MS)) \<rparr> in
      case e of
        Answered \<Rightarrow> (Inr (), s')
      | Lost_After \<Rightarrow> (Inl (Internal ''redis''), s')
      | Lost_Before \<Rightarrow> (Inl (Internal ''redis''), s))"

definition process_email :: "(string \<Rightarrow> string) \<Rightarrow> mail_run \<Rightarrow> mail_job \<Rightarrow> (mail_state, unit) action" where
  "process_email sha256hex run job s =
     (case mj_id job of
        None \<Rightarrow> (Inl (Internal ''Email job has no id; deterministic delivery identity cannot be established''), s)
      | Some jobId \<Rightarrow>
          (let key = sent_marker_key jobId in
           case mr_get run of
             Some f \<Rightarrow> (Inl f, s)
           | None \<Rightarrow>
               if redis_get (mr_get_at run) (ms_markers s key) = Some ''1'' then (Inr (), s)
               else
                 bindE (mail_send (mr_smtp run) jobId (message_of sha256hex jobId (mj_data job)))
                   (\<lambda>_. if mr_dies run then throwE (Internal ''worker lost'')
                        else quietly (set_marker (mr_set run) (mr_set_at run) key)) s))"

fun process_runs :: "(string \<Rightarrow> string) \<Rightarrow> (mail_run \<times> mail_job) list \<Rightarrow> mail_state \<Rightarrow> mail_state" where
  "process_runs sha256hex [] s = s"
| "process_runs sha256hex ((run, job) # rs) s = process_runs sha256hex rs (snd (process_email sha256hex run job s))"

section \<open>Dead letters\<close>

record bull_job =
  bj_id :: "string option"
  bj_name :: string
  bj_data :: json
  bj_attempts :: "nat option"
  bj_attemptsMade :: nat
  bj_failedReason :: "string option"

record dead_letter =
  dl_originalQueue :: string
  dl_originalJobId :: string
  dl_originalJobName :: string
  dl_payload :: json
  dl_failedReason :: string
  dl_attemptsMade :: nat
  dl_failedAt :: string

text \<open>What the router uses of BullMQ.\<close>

record 'q source_queue =
  sq_name :: string
  sq_getJob :: "string \<Rightarrow> ('q, bull_job option) action"
  sq_getFailed :: "nat \<Rightarrow> nat \<Rightarrow> ('q, bull_job list) action"

record 'q letter_queue =
  lq_getJob :: "string \<Rightarrow> ('q, dead_letter option) action"
  lq_add :: "string \<Rightarrow> dead_letter \<Rightarrow> string \<Rightarrow> ('q, unit) action"

definition dlqJobIdFor :: "string \<Rightarrow> string" where
  "dlqJobIdFor originalJobId = ''dlq__'' @ originalJobId"

definition dead_letter_of :: "string \<Rightarrow> (string \<Rightarrow> string) \<Rightarrow> instant \<Rightarrow> string \<Rightarrow> string \<Rightarrow> bull_job \<Rightarrow> dead_letter" where
  "dead_letter_of queue sanitize now jobId failedReason job =
     \<lparr> dl_originalQueue = queue, dl_originalJobId = default_to jobId (bj_id job),
       dl_originalJobName = bj_name job, dl_payload = bj_data job, dl_failedReason = sanitize failedReason,
       dl_attemptsMade = bj_attemptsMade job, dl_failedAt = toISOString now \<rparr>"

definition routeFailedJobToDlq ::
    "(string \<Rightarrow> string) \<Rightarrow> instant \<Rightarrow> 'q source_queue \<Rightarrow> 'q letter_queue \<Rightarrow> string \<times> string \<Rightarrow> ('q, unit) action" where
  "routeFailedJobToDlq sanitize now source dlq = (\<lambda>(jobId, failedReason).
     quietly (bindE (sq_getJob source jobId)
       (\<lambda>found. case found of
          None \<Rightarrow> returnE ()
        | Some job \<Rightarrow>
            if bj_attemptsMade job < default_to 1 (bj_attempts job) then returnE ()
            else (let letter = dead_letter_of (sq_name source) sanitize now jobId failedReason job in
                  lq_add dlq (bj_name job) letter (dlqJobIdFor (dl_originalJobId letter))))))"

definition RECONCILE_SCAN_LIMIT :: nat where "RECONCILE_SCAN_LIMIT = 1000"

definition failed_candidates :: "bull_job list \<Rightarrow> (string \<times> string option) list" where
  "failed_candidates failed =
     concat (map (\<lambda>job. case bj_id job of None \<Rightarrow> [] | Some i \<Rightarrow> [(i, bj_failedReason job)]) failed)"

definition already_routed :: "'q letter_queue \<Rightarrow> (string \<times> string option) list \<Rightarrow> ('q, string list) action" where
  "already_routed dlq candidates =
     catchE
       (bindE (promise_all (\<lambda>(i, _). lq_getJob dlq (dlqJobIdFor i)) candidates)
         (\<lambda>present. returnE (map fst (map fst (filter (\<lambda>(_, letter). letter \<noteq> None) (zip candidates present))))))
       (\<lambda>_. returnE [])"

definition reconcilePair ::
    "(string \<Rightarrow> string) \<Rightarrow> instant \<Rightarrow> 'q source_queue \<Rightarrow> 'q letter_queue \<Rightarrow> ('q, unit) action" where
  "reconcilePair sanitize now source dlq =
     quietly (bindE (sq_getFailed source 0 (RECONCILE_SCAN_LIMIT - 1))
       (\<lambda>failed.
          (let candidates = failed_candidates failed in
           bindE (already_routed dlq candidates)
             (\<lambda>routed.
                each (\<lambda>(i, reason).
                        if i \<in> set routed then returnE ()
                        else quietly (routeFailedJobToDlq sanitize now source dlq
                               (i, default_to ''reconciled: missed failed event'' reason)))
                  candidates))))"

definition dlq_reconcile ::
    "bool \<Rightarrow> bool \<Rightarrow> (string \<Rightarrow> string) \<Rightarrow> instant \<Rightarrow> ('q source_queue \<times> 'q letter_queue) list \<Rightarrow> ('q, unit) action" where
  "dlq_reconcile leader running sanitize now pairs =
     (if \<not> leader \<or> running then returnE ()
      else bindE (promise_all (\<lambda>(source, dlq). reconcilePair sanitize now source dlq) pairs) (\<lambda>_. returnE ()))"

section \<open>A mail is sent, and once\<close>

definition accepted_for :: "string \<Rightarrow> mail_state \<Rightarrow> mail_message list" where
  "accepted_for i s = map snd (filter (\<lambda>p. fst p = i) (ms_accepted s))"

definition marked_until :: "instant \<Rightarrow> string \<Rightarrow> mail_state \<Rightarrow> bool" where
  "marked_until t i s \<longleftrightarrow> ms_markers s (sent_marker_key i) = Some (''1'', t)"

text \<open>A marker is only ever set for a mail the server accepted.\<close>

definition mail_inv :: "mail_state \<Rightarrow> bool" where
  "mail_inv s \<longleftrightarrow> (\<forall>i. ms_markers s (sent_marker_key i) \<noteq> None \<longrightarrow> accepted_for i s \<noteq> [])"

lemma marker_keys: "sent_marker_key i = sent_marker_key j \<longleftrightarrow> i = j"
  by (simp add: sent_marker_key_def)

text \<open>What one run does: nothing, or one more mail accepted and perhaps marked.\<close>

lemma process_email_cases:
  assumes "mj_id job = Some i"
  obtains (skips) "process_email sha256hex run job s = (Inr (), s)"
      "redis_get (mr_get_at run) (ms_markers s (sent_marker_key i)) = Some ''1''"
    | (fails) f where "process_email sha256hex run job s = (Inl f, s)"
    | (unmarked) r where "process_email sha256hex run job s =
         (r, s \<lparr> ms_accepted := ms_accepted s @ [(i, message_of sha256hex i (mj_data job))] \<rparr>)"
         "mr_smtp run \<noteq> Accepted \<or> mr_dies run \<or> mr_set run = Lost_Before"
         "redis_get (mr_get_at run) (ms_markers s (sent_marker_key i)) \<noteq> Some ''1''"
    | (marked) "process_email sha256hex run job s =
         (Inr (), s \<lparr> ms_accepted := ms_accepted s @ [(i, message_of sha256hex i (mj_data job))],
                     ms_markers := (ms_markers s)(sent_marker_key i := Some (''1'', mr_set_at run + IDEMPOTENCY_TTL_MS)) \<rparr>)"
         "redis_get (mr_get_at run) (ms_markers s (sent_marker_key i)) \<noteq> Some ''1''"
proof (cases "mr_get run")
  case (Some f)
  then show ?thesis using assms fails by (simp add: process_email_def Let_def)
next
  case None
  show ?thesis
  proof (cases "redis_get (mr_get_at run) (ms_markers s (sent_marker_key i)) = Some ''1''")
    case True
    then show ?thesis using assms None skips by (simp add: process_email_def Let_def)
  next
    case False
    have run: "process_email sha256hex run job s =
        bindE (mail_send (mr_smtp run) i (message_of sha256hex i (mj_data job)))
          (\<lambda>_. if mr_dies run then throwE (Internal ''worker lost'')
               else quietly (set_marker (mr_set run) (mr_set_at run) (sent_marker_key i))) s"
      using assms None False by (simp add: process_email_def Let_def)
    show ?thesis
    proof (cases "mr_smtp run")
      case (Rejected f)
      then show ?thesis using fails[of f] by (simp add: run mail_send_def bindE_def)
    next
      case (Accepted_Unheard f)
      then show ?thesis using unmarked[of "Inl f"] False by (simp add: run mail_send_def bindE_def)
    next
      case Accepted
      show ?thesis
      proof (cases "mr_dies run")
        case True
        then show ?thesis
          using unmarked[of "Inl (Internal ''worker lost'')"] False Accepted by (simp add: run mail_send_def action_defs)
      next
        case alive: False
        show ?thesis
        proof (cases "mr_set run = Lost_Before")
          case True
          then show ?thesis
            using unmarked[of "Inr ()"] False Accepted alive
            by (simp add: run mail_send_def set_marker_def Let_def action_defs)
        next
          case kept: False
          then show ?thesis
            using marked False Accepted alive
            by (cases "mr_set run") (simp_all add: run mail_send_def set_marker_def Let_def action_defs)
        qed
      qed
    qed
  qed
qed

lemma process_unnamed: "mj_id job = None \<Longrightarrow> snd (process_email sha256hex run job s) = s"
  by (simp add: process_email_def)

lemma mail_inv_step: "mail_inv s \<Longrightarrow> mail_inv (snd (process_email sha256hex run job s))"
proof (cases "mj_id job")
  case (Some i)
  assume inv: "mail_inv s"
  from Some show ?thesis
    by (cases rule: process_email_cases[where sha256hex = sha256hex and run = run and s = s])
      (use inv in \<open>auto simp: mail_inv_def accepted_for_def marker_keys\<close>)
qed (simp add: process_unnamed)

lemma mail_inv_runs: "mail_inv s \<Longrightarrow> mail_inv (process_runs sha256hex rs s)"
  by (induction sha256hex rs s rule: process_runs.induct) (simp_all add: mail_inv_step)

lemma marked_step:
  assumes "marked_until t i s" "mr_get_at run < t"
  shows "marked_until t i (snd (process_email sha256hex run job s))"
    and "accepted_for i (snd (process_email sha256hex run job s)) = accepted_for i s"
proof -
  have "marked_until t i (snd (process_email sha256hex run job s)) \<and>
      accepted_for i (snd (process_email sha256hex run job s)) = accepted_for i s"
  proof (cases "mj_id job")
    case (Some j)
    have live: "redis_get (mr_get_at run) (ms_markers s (sent_marker_key i)) = Some ''1''"
      using assms by (simp add: marked_until_def redis_get_def)
    from Some show ?thesis
      by (cases rule: process_email_cases[where sha256hex = sha256hex and run = run and s = s])
        (use assms live in \<open>auto simp: marked_until_def accepted_for_def marker_keys\<close>)
  qed (use assms in \<open>simp add: process_unnamed\<close>)
  then show "marked_until t i (snd (process_email sha256hex run job s))"
    "accepted_for i (snd (process_email sha256hex run job s)) = accepted_for i s" by simp_all
qed

lemma marked_runs:
  assumes "marked_until t i s" "\<And>run job. (run, job) \<in> set rs \<Longrightarrow> mr_get_at run < t"
  shows "accepted_for i (process_runs sha256hex rs s) = accepted_for i s"
  using assms
proof (induction sha256hex rs s rule: process_runs.induct)
  case (2 sha256hex run job rs s)
  have "mr_get_at run < t" using "2.prems"(2)[of run job] by simp
  note step = marked_step[OF "2.prems"(1) this, of sha256hex job]
  have "accepted_for i (process_runs sha256hex rs (snd (process_email sha256hex run job s))) =
      accepted_for i (snd (process_email sha256hex run job s))"
    by (rule "2.IH"[OF step(1)]) (metis "2.prems"(2) list.set_intros(2))
  then show ?case using step(2) by simp
qed simp

text \<open>C29. From an empty store, with any runs of any jobs, crashes, rejected mails and lost markers: a job that
  completes has had its mail accepted by the server; and after a run in which the server accepted the mail
  and the marker was written, no run that starts within thirty days makes the server accept a mail of the
  same job again.\<close>

theorem job_mail_sent_and_not_repeated:
  assumes s: "s = process_runs sha256hex before \<lparr> ms_markers = \<lambda>k. None, ms_accepted = [] \<rparr>"
    and job: "mj_id job = Some i"
    and s': "process_email sha256hex run job s = (r, s')"
  shows "(r = Inr () \<longrightarrow> accepted_for i s' \<noteq> []) \<and>
    (accepted_for i s' \<noteq> accepted_for i s \<and> mr_smtp run = Accepted \<and> \<not> mr_dies run \<and> mr_set run \<noteq> Lost_Before \<and>
       (\<forall>(run', job') \<in> set rs. mr_get_at run' < mr_set_at run + IDEMPOTENCY_TTL_MS) \<longrightarrow>
     accepted_for i (process_runs sha256hex rs s') = accepted_for i s')"
proof -
  have inv: "mail_inv s" unfolding s by (rule mail_inv_runs) (simp add: mail_inv_def)
  from job show ?thesis
  proof (cases rule: process_email_cases[where sha256hex = sha256hex and run = run and s = s])
    case skips
    then have "ms_markers s (sent_marker_key i) \<noteq> None"
      by (cases "ms_markers s (sent_marker_key i)") (simp_all add: redis_get_def)
    then show ?thesis using skips inv s' by (auto simp: mail_inv_def)
  next
    case (fails f)
    then show ?thesis using s' by auto
  next
    case (unmarked r')
    then show ?thesis using s' by (auto simp: accepted_for_def)
  next
    case marked
    then have s'': "r = Inr ()" "s' = s \<lparr> ms_accepted := ms_accepted s @ [(i, message_of sha256hex i (mj_data job))],
        ms_markers := (ms_markers s)(sent_marker_key i := Some (''1'', mr_set_at run + IDEMPOTENCY_TTL_MS)) \<rparr>"
      using s' by simp_all
    then have "marked_until (mr_set_at run + IDEMPOTENCY_TTL_MS) i s'" by (simp add: marked_until_def)
    moreover have "accepted_for i s' \<noteq> []" by (simp add: s'' accepted_for_def)
    ultimately show ?thesis using marked_runs by fastforce
  qed
qed

definition good_run :: "instant \<Rightarrow> mail_run" where
  "good_run t =
     \<lparr> mr_get = None, mr_smtp = Accepted, mr_dies = False, mr_set = Answered, mr_get_at = t, mr_send_at = t + 1,
       mr_set_at = t + 2 \<rparr>"

definition welcome_job :: mail_job where
  "welcome_job = \<lparr> mj_id = Some ''welcome-email__e1'', mj_data = welcome_mail example_event ''a@b.c'' \<rparr>"

theorem job_mail_sent_and_not_repeated_witness:
  "length (accepted_for ''welcome-email__e1'' (process_runs (\<lambda>x. x) [(good_run 50, welcome_job)]
     (snd (process_email (\<lambda>x. x) (good_run 0) welcome_job \<lparr> ms_markers = \<lambda>k. None, ms_accepted = [] \<rparr>)))) = 1"
proof -
  let ?s = "\<lparr> ms_markers = \<lambda>k. None, ms_accepted = [] \<rparr>"
  obtain r s' where s': "process_email (\<lambda>x. x) (good_run 0) welcome_job ?s = (r, s')" by fastforce
  have first: "length (accepted_for ''welcome-email__e1'' (snd (process_email (\<lambda>x. x) (good_run 0) welcome_job ?s))) = 1"
    by code_simp
  have "accepted_for ''welcome-email__e1'' s' \<noteq> accepted_for ''welcome-email__e1'' ?s \<and> mr_smtp (good_run 0) = Accepted \<and>
      \<not> mr_dies (good_run 0) \<and> mr_set (good_run 0) \<noteq> Lost_Before \<and>
      (\<forall>(run', job') \<in> set [(good_run 50, welcome_job)]. mr_get_at run' < mr_set_at (good_run 0) + IDEMPOTENCY_TTL_MS)"
    using s' first by (auto simp: good_run_def IDEMPOTENCY_TTL_MS_def accepted_for_def)
  moreover have "?s = process_runs (\<lambda>x. x) [] ?s" "mj_id welcome_job = Some ''welcome-email__e1''"
    by (simp_all add: welcome_job_def)
  ultimately have "accepted_for ''welcome-email__e1'' (process_runs (\<lambda>x. x) [(good_run 50, welcome_job)] s') =
      accepted_for ''welcome-email__e1'' s'"
    using job_mail_sent_and_not_repeated[OF _ _ s'] by blast
  then show ?thesis using s' first by simp
qed

section \<open>Failed jobs reach the dead letters\<close>

text \<open>What the documentation of BullMQ promises of queues that are up: reads change nothing, a job is found
  under its id, the failed jobs are listed up to the given index, and adding a job does nothing when its id
  is taken. \<open>failed\<close> are the failed jobs of the source queue, \<open>letters\<close> the jobs of the dead-letter queue.\<close>

definition queues_up ::
    "'q source_queue \<Rightarrow> 'q letter_queue \<Rightarrow> bull_job list \<Rightarrow> ('q \<Rightarrow> (string \<times> dead_letter) list) \<Rightarrow> bool" where
  "queues_up source dlq failed letters \<longleftrightarrow>
     (\<forall>q. sq_getFailed source 0 (RECONCILE_SCAN_LIMIT - 1) q = (Inr (take RECONCILE_SCAN_LIMIT failed), q)) \<and>
     (\<forall>i q. sq_getJob source i q = (Inr (List.find (\<lambda>j. bj_id j = Some i) failed), q)) \<and>
     (\<forall>i q. lq_getJob dlq i q = (Inr (map_of (letters q) i), q)) \<and>
     (\<forall>n l i q. fst (lq_add dlq n l i q) = Inr () \<and>
        letters (snd (lq_add dlq n l i q)) =
          (if map_of (letters q) i = None then letters q @ [(i, l)] else letters q))"

definition exhausted :: "bull_job \<Rightarrow> bool" where
  "exhausted j \<longleftrightarrow> default_to 1 (bj_attempts j) \<le> bj_attemptsMade j"

lemma route_effect:
  assumes up: "queues_up source dlq failed letters"
  shows "\<exists>q'. routeFailedJobToDlq sanitize now source dlq (i, reason) q = (Inr (), q') \<and>
    letters q' =
      (case List.find (\<lambda>j. bj_id j = Some i) failed of
         Some job \<Rightarrow>
           if exhausted job \<and> map_of (letters q) (dlqJobIdFor i) = None
           then letters q @ [(dlqJobIdFor i, dead_letter_of (sq_name source) sanitize now i reason job)]
           else letters q
       | None \<Rightarrow> letters q)"
proof (cases "List.find (\<lambda>j. bj_id j = Some i) failed")
  case None
  then show ?thesis
    using up by (simp add: routeFailedJobToDlq_def queues_up_def action_defs)
next
  case (Some job)
  have job: "sq_getJob source i q = (Inr (Some job), q)" using up Some by (simp add: queues_up_def)
  have id: "dl_originalJobId (dead_letter_of (sq_name source) sanitize now i reason job) = i"
    using find_SomeD[OF Some] by (simp add: dead_letter_of_def)
  show ?thesis
  proof (cases "exhausted job")
    case False
    then show ?thesis using Some job by (simp add: routeFailedJobToDlq_def exhausted_def action_defs)
  next
    case True
    let ?add = "lq_add dlq (bj_name job) (dead_letter_of (sq_name source) sanitize now i reason job) (dlqJobIdFor i) q"
    have "fst ?add = Inr ()" "letters (snd ?add) =
        (if map_of (letters q) (dlqJobIdFor i) = None
         then letters q @ [(dlqJobIdFor i, dead_letter_of (sq_name source) sanitize now i reason job)] else letters q)"
      using up by (simp_all add: queues_up_def)
    then show ?thesis
      using True Some job id
      by (cases ?add) (simp add: routeFailedJobToDlq_def exhausted_def action_defs Let_def not_less[symmetric])
  qed
qed

text \<open>The dead letters only grow, by letters of exhausted failed jobs under their ids.\<close>

definition proper_letter :: "bull_job list \<Rightarrow> string \<times> dead_letter \<Rightarrow> bool" where
  "proper_letter failed p \<longleftrightarrow>
     (\<exists>j \<in> set failed. exhausted j \<and> bj_id j = Some (dl_originalJobId (snd p)) \<and>
        fst p = dlqJobIdFor (dl_originalJobId (snd p)) \<and> dl_payload (snd p) = bj_data j)"

definition letters_grow :: "bull_job list \<Rightarrow> ('q \<Rightarrow> (string \<times> dead_letter) list) \<Rightarrow> 'q \<Rightarrow> 'q \<Rightarrow> bool" where
  "letters_grow failed letters q q' \<longleftrightarrow>
     (\<exists>added. letters q' = letters q @ added \<and> list_all (proper_letter failed) added)"

definition due :: "bull_job list \<Rightarrow> string \<Rightarrow> bool" where
  "due failed i \<longleftrightarrow> (case List.find (\<lambda>j. bj_id j = Some i) failed of Some j \<Rightarrow> exhausted j | None \<Rightarrow> False)"

lemma grow_refl: "letters_grow failed letters q q"
  by (auto simp: letters_grow_def)

lemma grow_trans: "letters_grow failed letters q q' \<Longrightarrow> letters_grow failed letters q' q'' \<Longrightarrow> letters_grow failed letters q q''"
  by (auto simp: letters_grow_def)

lemma grow_routed: "letters_grow failed letters q q' \<Longrightarrow> map_of (letters q) k \<noteq> None \<Longrightarrow> map_of (letters q') k \<noteq> None"
  by (auto simp: letters_grow_def map_add_def split: option.splits)

lemma route_grows:
  assumes "queues_up source dlq failed letters"
  shows "\<exists>q'. routeFailedJobToDlq sanitize now source dlq (i, reason) q = (Inr (), q') \<and> letters_grow failed letters q q' \<and>
    (due failed i \<longrightarrow> map_of (letters q') (dlqJobIdFor i) \<noteq> None)"
proof -
  obtain q' where q': "routeFailedJobToDlq sanitize now source dlq (i, reason) q = (Inr (), q')"
    "letters q' =
      (case List.find (\<lambda>j. bj_id j = Some i) failed of
         Some job \<Rightarrow>
           if exhausted job \<and> map_of (letters q) (dlqJobIdFor i) = None
           then letters q @ [(dlqJobIdFor i, dead_letter_of (sq_name source) sanitize now i reason job)]
           else letters q
       | None \<Rightarrow> letters q)"
    using route_effect[OF assms] by blast
  have "letters_grow failed letters q q' \<and> (due failed i \<longrightarrow> map_of (letters q') (dlqJobIdFor i) \<noteq> None)"
  proof (cases "List.find (\<lambda>j. bj_id j = Some i) failed")
    case None
    then show ?thesis using q'(2) by (simp add: letters_grow_def due_def)
  next
    case (Some job)
    then have "proper_letter failed (dlqJobIdFor i, dead_letter_of (sq_name source) sanitize now i reason job)"
      if "exhausted job"
      using find_SomeD[OF Some] that by (auto simp: proper_letter_def dead_letter_of_def)
    then show ?thesis using q'(2) Some by (auto simp: letters_grow_def due_def map_add_def)
  qed
  then show ?thesis using q'(1) by blast
qed

definition route_candidate where
  "route_candidate sanitize now source dlq routed = (\<lambda>(i, reason).
     if i \<in> set routed then returnE ()
     else quietly (routeFailedJobToDlq sanitize now source dlq (i, default_to ''reconciled: missed failed event'' reason)))"

lemma route_candidates:
  assumes "queues_up source dlq failed letters"
  shows "\<exists>q'. each (route_candidate sanitize now source dlq routed) cs q = (Inr (), q') \<and> letters_grow failed letters q q' \<and>
    (\<forall>i \<in> fst ` set cs. i \<notin> set routed \<longrightarrow> due failed i \<longrightarrow> map_of (letters q') (dlqJobIdFor i) \<noteq> None)"
proof (induction cs arbitrary: q)
  case Nil
  show ?case by (simp add: returnE_def grow_refl)
next
  case (Cons c cs)
  obtain i reason where c: "c = (i, reason)" by (cases c)
  obtain q1 where q1: "route_candidate sanitize now source dlq routed c q = (Inr (), q1)" "letters_grow failed letters q q1"
    "i \<notin> set routed \<longrightarrow> due failed i \<longrightarrow> map_of (letters q1) (dlqJobIdFor i) \<noteq> None"
  proof (cases "i \<in> set routed")
    case True
    then show ?thesis using that[of q] by (simp add: c route_candidate_def returnE_def grow_refl)
  next
    case False
    obtain q' where "routeFailedJobToDlq sanitize now source dlq (i, default_to ''reconciled: missed failed event'' reason) q = (Inr (), q')"
      "letters_grow failed letters q q'" "due failed i \<longrightarrow> map_of (letters q') (dlqJobIdFor i) \<noteq> None"
      using route_grows[OF assms] by blast
    then show ?thesis using that[of q'] False by (simp add: c route_candidate_def quietly_def catchE_def)
  qed
  obtain q2 where q2: "each (route_candidate sanitize now source dlq routed) cs q1 = (Inr (), q2)"
    "letters_grow failed letters q1 q2"
    "\<forall>i \<in> fst ` set cs. i \<notin> set routed \<longrightarrow> due failed i \<longrightarrow> map_of (letters q2) (dlqJobIdFor i) \<noteq> None"
    using Cons.IH by blast
  have "each (route_candidate sanitize now source dlq routed) (c # cs) q = (Inr (), q2)"
    using q1(1) q2(1) by (simp add: thenE_def bindE_def)
  then show ?case
    using grow_trans[OF q1(2) q2(2)] grow_routed[OF q2(2)] q1(3) q2(3) by (auto simp: c)
qed

lemma already_routed_effect:
  assumes "queues_up source dlq failed letters"
  shows "\<exists>routed. already_routed dlq cs q = (Inr routed, q) \<and>
    (\<forall>i \<in> set routed. map_of (letters q) (dlqJobIdFor i) \<noteq> None)"
proof -
  let ?found = "map (\<lambda>(i, _). map_of (letters q) (dlqJobIdFor i)) cs"
  have "promise_all (\<lambda>(i, _). lq_getJob dlq (dlqJobIdFor i)) cs q = (Inr ?found, q)"
    using assms by (induction cs) (auto simp: queues_up_def)
  moreover have "map_of (letters q) (dlqJobIdFor (fst c)) \<noteq> None" if "(c, letter) \<in> set (zip cs ?found)" "letter \<noteq> None" for c letter
    using that by (auto simp: in_set_zip split_def)
  ultimately show ?thesis
    by (auto simp: already_routed_def action_defs)
qed

text \<open>C30. While the queues are up, one reconciliation dead-letters every failed job in its window whose attempts
  are exhausted, keeps every letter that is there and adds only letters of such jobs, with their payload,
  under ids that make a second letter impossible.\<close>

theorem exhausted_jobs_are_dead_lettered:
  assumes "queues_up source dlq failed letters" "length failed \<le> RECONCILE_SCAN_LIMIT"
    "reconcilePair sanitize now source dlq q = (r, q')"
  shows "r = Inr () \<and> letters_grow failed letters q q' \<and>
    (\<forall>j i. List.find (\<lambda>j. bj_id j = Some i) failed = Some j \<and> exhausted j \<longrightarrow>
       map_of (letters q') (dlqJobIdFor i) \<noteq> None)"
proof -
  let ?cs = "failed_candidates failed"
  obtain routed where routed: "already_routed dlq ?cs q = (Inr routed, q)"
    "\<forall>i \<in> set routed. map_of (letters q) (dlqJobIdFor i) \<noteq> None"
    using already_routed_effect[OF assms(1)] by blast
  obtain q2 where q2: "each (route_candidate sanitize now source dlq routed) ?cs q = (Inr (), q2)"
    "letters_grow failed letters q q2"
    "\<forall>i \<in> fst ` set ?cs. i \<notin> set routed \<longrightarrow> due failed i \<longrightarrow> map_of (letters q2) (dlqJobIdFor i) \<noteq> None"
    using route_candidates[OF assms(1)] by blast
  have "sq_getFailed source 0 (RECONCILE_SCAN_LIMIT - 1) q = (Inr failed, q)"
    using assms(1,2) by (simp add: queues_up_def)
  then have "reconcilePair sanitize now source dlq q = (Inr (), q2)"
    using routed(1) q2(1)
    by (simp add: reconcilePair_def quietly_def catchE_def bindE_def Let_def route_candidate_def)
  then have end_state: "r = Inr ()" "q' = q2" using assms(3) by simp_all
  have "map_of (letters q2) (dlqJobIdFor i) \<noteq> None"
    if j: "List.find (\<lambda>j. bj_id j = Some i) failed = Some j" "exhausted j" for i j
  proof -
    have "i \<in> fst ` set ?cs"
      using find_SomeD[OF j(1)] by (force simp: failed_candidates_def split: option.splits)
    then show ?thesis
      using q2(2,3) routed(2) grow_routed[OF q2(2)] j by (cases "i \<in> set routed") (auto simp: due_def)
  qed
  then show ?thesis using end_state q2(2) by blast
qed

text \<open>A dead-letter queue as a list, and one failed job.\<close>

definition spent_job :: bull_job where
  "spent_job =
     \<lparr> bj_id = Some ''j1'', bj_name = ''verify-magic-bytes'', bj_data = JNull, bj_attempts = Some 3,
       bj_attemptsMade = 3, bj_failedReason = None \<rparr>"

definition spent_source :: "(string \<times> dead_letter) list source_queue" where
  "spent_source =
     \<lparr> sq_name = ''upload-verification'',
       sq_getJob = \<lambda>i q. (Inr (List.find (\<lambda>j. bj_id j = Some i) [spent_job]), q),
       sq_getFailed = \<lambda>a b q. (Inr (take RECONCILE_SCAN_LIMIT [spent_job]), q) \<rparr>"

definition letter_list :: "(string \<times> dead_letter) list letter_queue" where
  "letter_list =
     \<lparr> lq_getJob = \<lambda>i q. (Inr (map_of q i), q),
       lq_add = \<lambda>n l i q. (Inr (), if map_of q i = None then q @ [(i, l)] else q) \<rparr>"

theorem exhausted_jobs_are_dead_lettered_witness:
  "map_of (snd (reconcilePair (\<lambda>x. x) 5 spent_source letter_list [])) ''dlq__j1'' \<noteq> None"
proof -
  obtain r q' where q': "reconcilePair (\<lambda>x. x) 5 spent_source letter_list [] = (r, q')" by fastforce
  have up: "queues_up spent_source letter_list [spent_job] id"
    by (simp add: queues_up_def spent_source_def letter_list_def)
  have "List.find (\<lambda>j. bj_id j = Some ''j1'') [spent_job] = Some spent_job" "exhausted spent_job"
    "length [spent_job] \<le> RECONCILE_SCAN_LIMIT"
    by (simp_all add: spent_job_def exhausted_def RECONCILE_SCAN_LIMIT_def)
  then have "map_of (id q') (dlqJobIdFor ''j1'') \<noteq> None"
    using exhausted_jobs_are_dead_lettered[OF up _ q'] by blast
  then show ?thesis using q' by (simp add: dlqJobIdFor_def)
qed

end
