(* ===== verification/Terms.thy ===== *)
theory Terms
  imports Keyed_Table Http_Guards
begin

text \<open>Legal documents and their acceptance (libs/modules/terms): the entity, the Prisma repository and the
  in-memory one, the handlers and the controller. A handler's calls are separate steps between which other
  requests act. Postgres chooses the order of rows that compare equal: \<open>scan\<close> is the order it reads them in.\<close>

section \<open>The entity\<close>

definition TERMS_OF_SERVICE :: string where "TERMS_OF_SERVICE = ''terms_of_service''"
definition PRIVACY_POLICY :: string where "PRIVACY_POLICY = ''privacy_policy''"
definition COOKIE_POLICY :: string where "COOKIE_POLICY = ''cookie_policy''"

definition TERM_TYPES :: "string list" where
  "TERM_TYPES = [TERMS_OF_SERVICE, PRIVACY_POLICY, COOKIE_POLICY]"

definition is_version_start :: "char \<Rightarrow> bool" where
  "is_version_start c \<longleftrightarrow> is_digit c \<or> is_lower c \<or> (65 \<le> (of_char c :: nat) \<and> (of_char c :: nat) \<le> 90)"

definition VERSION_PATTERN :: "string \<Rightarrow> bool" where
  "VERSION_PATTERN v \<longleftrightarrow>
     v \<noteq> [] \<and> is_version_start (hd v) \<and> length (tl v) \<le> 49 \<and>
     list_all (\<lambda>c. is_version_start c \<or> c \<in> set ''._-'') (tl v)"

record legal_term =
  lt_id :: id
  lt_type :: string
  lt_version :: string
  lt_content :: string
  lt_publishedAt :: "instant option"
  lt_createdAt :: instant
  lt_updatedAt :: instant

definition invalidVersion :: failure where
  "invalidVersion =
     Domain (new_domain_exception
       \<lparr> opt_kind = Some Validation, opt_code = Some ''validation_failed'',
         opt_title = Some ''common.unprocessable_entity'', opt_messageKey = None, opt_args = None,
         opt_violations =
           [\<lparr> vi_path = ''version'', vi_code = ''invalid_version'',
              vi_message = ''version must be 1-50 characters of letters, digits, dot, hyphen or underscore, starting with a letter or digit'',
              vi_messageKey = None, vi_rule = None, vi_constraint = None \<rparr>],
         opt_permanent = None \<rparr>)"

definition create_term_entity ::
    "id \<Rightarrow> instant \<Rightarrow> string \<Rightarrow> string \<Rightarrow> string \<Rightarrow> instant option \<Rightarrow> legal_term outcome" where
  "create_term_entity newId now type_name version content publishedAt =
     (if VERSION_PATTERN version
      then Inr \<lparr> lt_id = newId, lt_type = type_name, lt_version = version, lt_content = content,
                 lt_publishedAt = publishedAt, lt_createdAt = now, lt_updatedAt = now \<rparr>
      else Inl invalidVersion)"

definition isPublished :: "legal_term \<Rightarrow> bool" where
  "isPublished t \<longleftrightarrow> lt_publishedAt t \<noteq> None"

definition publishedAtOrNow :: "instant \<Rightarrow> legal_term \<Rightarrow> legal_term" where
  "publishedAtOrNow now t =
     (if lt_publishedAt t \<noteq> None then t else t \<lparr> lt_publishedAt := Some now, lt_updatedAt := now \<rparr>)"

section \<open>The Prisma repository\<close>

record term_acceptance =
  ta_termId :: id
  ta_userId :: id
  ta_acceptedAt :: instant
  ta_ipAddress :: "string option"

record terms_db =
  td_terms :: "legal_term list"
  td_acceptances :: "term_acceptance list"

record acceptance_record =
  ar_termId :: id
  ar_type :: string
  ar_version :: string
  ar_acceptedAt :: instant

definition newest_published :: "legal_term list \<Rightarrow> legal_term list" where
  "newest_published ts = rev (sort_key (\<lambda>t. the (lt_publishedAt t)) (rev ts))"

definition pt_findPublished :: "(legal_term list \<Rightarrow> legal_term list) \<Rightarrow> terms_db \<Rightarrow> legal_term list" where
  "pt_findPublished scan db = sort_key lt_type (newest_published (scan (filter isPublished (td_terms db))))"

definition pt_findLatestPublished :: "(legal_term list \<Rightarrow> legal_term list) \<Rightarrow> string \<Rightarrow> terms_db \<Rightarrow> legal_term option" where
  "pt_findLatestPublished scan type_name db =
     (case newest_published (scan (filter (\<lambda>t. lt_type t = type_name \<and> isPublished t) (td_terms db))) of
        [] \<Rightarrow> None
      | t # _ \<Rightarrow> Some t)"

definition pt_findById :: "id \<Rightarrow> terms_db \<Rightarrow> legal_term option" where
  "pt_findById i db = List.find (\<lambda>t. lt_id t = i) (td_terms db)"

definition termNotFound :: failure where
  "termNotFound = raise_problem (problem NotFound ''term_not_found'' ''errors.terms.not_found'' ''id'' ''Term not found'')"

definition termNotPublished :: failure where
  "termNotPublished =
     raise_problem ((problem Conflict ''term_not_published'' ''errors.terms.not_published'' ''id''
       ''That term version is not published'') \<lparr> fp_permanent := Some False \<rparr>)"

definition termVersionTaken :: failure where
  "termVersionTaken =
     raise_problem ((problem Conflict ''term_version_taken'' ''errors.terms.version_taken'' ''version''
       ''This version already exists for this term type'') \<lparr> fp_permanent := Some False \<rparr>)"

text \<open>Two unique indexes can refuse the insert, the one on the id and the one on (type, version).\<close>

definition pt_create :: "legal_term \<Rightarrow> terms_db \<Rightarrow> unit outcome \<times> terms_db" where
  "pt_create t db =
     (if lt_id t \<in> lt_id ` set (td_terms db) \<or>
         (lt_type t, lt_version t) \<in> (\<lambda>r. (lt_type r, lt_version r)) ` set (td_terms db)
      then (Inl termVersionTaken, db)
      else (Inr (), db \<lparr> td_terms := td_terms db @ [t] \<rparr>))"

text \<open>\<open>touched\<close> is the time Prisma writes to the column marked @updatedAt.\<close>

definition pt_publish :: "id \<Rightarrow> instant \<Rightarrow> instant \<Rightarrow> terms_db \<Rightarrow> bool \<times> terms_db" where
  "pt_publish i publishedAt touched db =
     (let sel = (\<lambda>t. lt_id t = i \<and> lt_publishedAt t = None) in
      (0 < count_rows sel (td_terms db),
       db \<lparr> td_terms := update_rows sel
              (\<lambda>t. t \<lparr> lt_publishedAt := Some publishedAt, lt_updatedAt := touched \<rparr>) (td_terms db) \<rparr>))"

text \<open>The upsert with nothing to update; the foreign key to the term refuses an acceptance of a missing one.\<close>

definition pt_recordAcceptance :: "term_acceptance \<Rightarrow> terms_db \<Rightarrow> unit outcome \<times> terms_db" where
  "pt_recordAcceptance a db =
     (if (ta_termId a, ta_userId a) \<in> (\<lambda>r. (ta_termId r, ta_userId r)) ` set (td_acceptances db) then (Inr (), db)
      else if ta_termId a \<notin> lt_id ` set (td_terms db) then (Inl (Internal ''P2003''), db)
      else (Inr (), db \<lparr> td_acceptances := td_acceptances db @ [a] \<rparr>))"

definition pt_findAcceptances :: "(term_acceptance list \<Rightarrow> term_acceptance list) \<Rightarrow> id \<Rightarrow> terms_db \<Rightarrow> acceptance_record list" where
  "pt_findAcceptances scan userId db =
     List.map_filter
       (\<lambda>a. map_option (\<lambda>t. \<lparr> ar_termId = ta_termId a, ar_type = lt_type t, ar_version = lt_version t,
                             ar_acceptedAt = ta_acceptedAt a \<rparr>) (pt_findById (ta_termId a) db))
       (rev (sort_key ta_acceptedAt (rev (scan (filter (\<lambda>a. ta_userId a = userId) (td_acceptances db))))))"

section \<open>The in-memory repository\<close>

record memory_acceptance =
  ma_record :: acceptance_record
  ma_userId :: id

record terms_memory =
  tm_terms :: "(id \<times> legal_term) list"
  tm_acceptances :: "((id \<times> id) \<times> memory_acceptance) list"

definition mt_findPublished :: "terms_memory \<Rightarrow> legal_term list" where
  "mt_findPublished m = filter isPublished (map snd (tm_terms m))"

definition mt_findLatestPublished :: "string \<Rightarrow> terms_memory \<Rightarrow> legal_term option" where
  "mt_findLatestPublished type_name m =
     (case newest_published (filter (\<lambda>t. lt_type t = type_name \<and> lt_publishedAt t \<noteq> None) (map snd (tm_terms m))) of
        [] \<Rightarrow> None
      | t # _ \<Rightarrow> Some t)"

definition mt_findById :: "id \<Rightarrow> terms_memory \<Rightarrow> legal_term option" where
  "mt_findById i m = map_of (tm_terms m) i"

definition mt_create :: "legal_term \<Rightarrow> terms_memory \<Rightarrow> unit outcome \<times> terms_memory" where
  "mt_create t m = (Inr (), m \<lparr> tm_terms := AList.update (lt_id t) t (tm_terms m) \<rparr>)"

definition mt_publish :: "id \<Rightarrow> instant \<Rightarrow> terms_memory \<Rightarrow> bool \<times> terms_memory" where
  "mt_publish i publishedAt m =
     (case map_of (tm_terms m) i of
        None \<Rightarrow> (False, m)
      | Some t \<Rightarrow>
          if isPublished t then (False, m)
          else (True, m \<lparr> tm_terms := AList.update i
                  (t \<lparr> lt_publishedAt := Some publishedAt, lt_updatedAt := publishedAt \<rparr>) (tm_terms m) \<rparr>))"

text \<open>The key is the pair the source joins with two colons; ids are UUIDs and hold none.\<close>

definition mt_recordAcceptance :: "term_acceptance \<Rightarrow> terms_memory \<Rightarrow> unit outcome \<times> terms_memory" where
  "mt_recordAcceptance a m =
     (case (map_of (tm_acceptances m) (ta_termId a, ta_userId a), map_of (tm_terms m) (ta_termId a)) of
        (None, Some t) \<Rightarrow>
          (Inr (), m \<lparr> tm_acceptances := AList.update (ta_termId a, ta_userId a)
             \<lparr> ma_record = \<lparr> ar_termId = lt_id t, ar_type = lt_type t, ar_version = lt_version t,
                              ar_acceptedAt = ta_acceptedAt a \<rparr>,
               ma_userId = ta_userId a \<rparr> (tm_acceptances m) \<rparr>)
      | _ \<Rightarrow> (Inr (), m))"

definition mt_findAcceptances :: "id \<Rightarrow> terms_memory \<Rightarrow> acceptance_record list" where
  "mt_findAcceptances userId m = map ma_record (filter (\<lambda>a. ma_userId a = userId) (map snd (tm_acceptances m)))"

section \<open>The handlers\<close>

record term_dto =
  tt_id :: id
  tt_type :: string
  tt_version :: string
  tt_content :: string
  tt_publishedAt :: "instant option"
  tt_createdAt :: instant

definition toTermDto :: "legal_term \<Rightarrow> term_dto" where
  "toTermDto t =
     \<lparr> tt_id = lt_id t, tt_type = lt_type t, tt_version = lt_version t, tt_content = lt_content t,
       tt_publishedAt = lt_publishedAt t, tt_createdAt = lt_createdAt t \<rparr>"

definition create_term ::
    "(legal_term \<Rightarrow> 's \<Rightarrow> unit outcome \<times> 's) \<Rightarrow> id \<Rightarrow> instant \<Rightarrow> string \<Rightarrow> string \<Rightarrow> string \<Rightarrow> bool option \<Rightarrow> 's
     \<Rightarrow> term_dto outcome \<times> 's" where
  "create_term create newId now type_name version content publish s =
     (case create_term_entity newId now type_name version content
             (if default_to False publish then Some now else None) of
        Inl e \<Rightarrow> (Inl e, s)
      | Inr t \<Rightarrow> (case create t s of (Inl e, s') \<Rightarrow> (Inl e, s') | (Inr _, s') \<Rightarrow> (Inr (toTermDto t), s')))"

text \<open>\<open>between\<close> is what other requests do before the second and before the third call.\<close>

definition publish_term ::
    "(id \<Rightarrow> 's \<Rightarrow> legal_term option) \<Rightarrow> (id \<Rightarrow> instant \<Rightarrow> 's \<Rightarrow> bool \<times> 's) \<Rightarrow> (nat \<Rightarrow> 's \<Rightarrow> 's) \<Rightarrow> instant \<Rightarrow> id \<Rightarrow> 's
     \<Rightarrow> term_dto outcome \<times> 's" where
  "publish_term findById publish between now i s =
     (case findById i s of
        None \<Rightarrow> (Inl termNotFound, s)
      | Some existing \<Rightarrow>
          if isPublished existing then (Inr (toTermDto existing), s)
          else
            (let candidate = publishedAtOrNow now existing in
             case publish (lt_id candidate) now (between 0 s) of
               (True, s') \<Rightarrow> (Inr (toTermDto candidate), s')
             | (False, s') \<Rightarrow>
                 (let s'' = between 1 s' in
                  case findById (lt_id existing) s'' of
                    None \<Rightarrow> (Inl termNotFound, s'')
                  | Some stored \<Rightarrow> (Inr (toTermDto stored), s''))))"

definition accept_term ::
    "(id \<Rightarrow> 's \<Rightarrow> legal_term option) \<Rightarrow> (term_acceptance \<Rightarrow> 's \<Rightarrow> unit outcome \<times> 's) \<Rightarrow> ('s \<Rightarrow> 's) \<Rightarrow> instant
     \<Rightarrow> id \<Rightarrow> id \<Rightarrow> string option \<Rightarrow> 's \<Rightarrow> unit outcome \<times> 's" where
  "accept_term findById recordAcceptance between now userId termId ipAddress s =
     (case findById termId s of
        None \<Rightarrow> (Inl termNotFound, s)
      | Some t \<Rightarrow>
          if \<not> isPublished t then (Inl termNotPublished, s)
          else recordAcceptance
                 \<lparr> ta_termId = lt_id t, ta_userId = userId, ta_acceptedAt = now, ta_ipAddress = ipAddress \<rparr> (between s))"

definition get_latest_term :: "(string \<Rightarrow> 's \<Rightarrow> legal_term option) \<Rightarrow> string \<Rightarrow> 's \<Rightarrow> term_dto outcome" where
  "get_latest_term findLatestPublished type_name s =
     (case findLatestPublished type_name s of None \<Rightarrow> Inl termNotFound | Some t \<Rightarrow> Inr (toTermDto t))"

definition list_published_terms :: "('s \<Rightarrow> legal_term list) \<Rightarrow> 's \<Rightarrow> term_dto list_response" where
  "list_published_terms findPublished s =
     toUnpaginatedListResponse ''/api/v1/terms'' (map toTermDto (findPublished s))"

definition list_my_term_acceptances :: "(id \<Rightarrow> 's \<Rightarrow> acceptance_record list) \<Rightarrow> id \<Rightarrow> 's \<Rightarrow> acceptance_record list_response" where
  "list_my_term_acceptances findAcceptances userId s =
     toUnpaginatedListResponse ''/api/v1/terms/acceptances'' (findAcceptances userId s)"

section \<open>What stays\<close>

text \<open>All of a version but the date it was published.\<close>

definition draft_form :: "legal_term \<Rightarrow> id \<times> string \<times> string \<times> string \<times> instant" where
  "draft_form t = (lt_id t, lt_type t, lt_version t, lt_content t, lt_createdAt t)"

text \<open>Published versions and acceptances are final, and no version vanishes or changes.\<close>

definition facts_kept :: "terms_db \<Rightarrow> terms_db \<Rightarrow> bool" where
  "facts_kept db db' \<longleftrightarrow>
     (\<forall>t \<in> set (td_terms db). isPublished t \<longrightarrow> t \<in> set (td_terms db')) \<and>
     (\<forall>t \<in> set (td_terms db). \<exists>t' \<in> set (td_terms db'). draft_form t' = draft_form t) \<and>
     set (td_acceptances db) \<subseteq> set (td_acceptances db')"

definition terms_ok :: "terms_db \<Rightarrow> bool" where
  "terms_ok db \<longleftrightarrow>
     distinct (map lt_id (td_terms db)) \<and> distinct (map (\<lambda>t. (lt_type t, lt_version t)) (td_terms db)) \<and>
     distinct (map (\<lambda>a. (ta_termId a, ta_userId a)) (td_acceptances db)) \<and>
     (\<forall>a \<in> set (td_acceptances db). \<exists>t \<in> set (td_terms db). lt_id t = ta_termId a \<and> isPublished t)"

lemma facts_kept_refl: "facts_kept db db"
  by (auto simp: facts_kept_def)

lemma facts_kept_trans: "facts_kept db db' \<Longrightarrow> facts_kept db' db'' \<Longrightarrow> facts_kept db db''"
  unfolding facts_kept_def by (metis subset_trans)

lemma unique_term:
  "terms_ok db \<Longrightarrow> t \<in> set (td_terms db) \<Longrightarrow> t' \<in> set (td_terms db) \<Longrightarrow> lt_id t = lt_id t' \<Longrightarrow> t = t'"
  by (auto simp: terms_ok_def distinct_map inj_on_def)

lemma find_term:
  "terms_ok db \<Longrightarrow> pt_findById i db = Some t \<longleftrightarrow> t \<in> set (td_terms db) \<and> lt_id t = i"
  using find_distinct[of lt_id "td_terms db" t] unfolding pt_findById_def
  by (auto simp: terms_ok_def dest: find_SomeD)

lemma find_no_term: "pt_findById i db = None \<longleftrightarrow> i \<notin> lt_id ` set (td_terms db)"
  by (auto simp: pt_findById_def find_None_iff)

lemma create_keeps:
  assumes "terms_ok db"
  shows "terms_ok (snd (pt_create t db))" "facts_kept db (snd (pt_create t db))"
  using assms by (auto simp: pt_create_def terms_ok_def facts_kept_def)

lemma publish_terms:
  "td_terms (snd (pt_publish i now touched db)) =
     update_rows (\<lambda>t. lt_id t = i \<and> lt_publishedAt t = None)
       (\<lambda>t. t \<lparr> lt_publishedAt := Some now, lt_updatedAt := touched \<rparr>) (td_terms db)"
  "td_acceptances (snd (pt_publish i now touched db)) = td_acceptances db"
  by (simp_all add: pt_publish_def Let_def)

lemma publish_keeps:
  assumes "terms_ok db"
  shows "terms_ok (snd (pt_publish i now touched db))" "facts_kept db (snd (pt_publish i now touched db))"
proof -
  let ?db' = "snd (pt_publish i now touched db)"
  have published: "t \<in> set (td_terms ?db')" if "t \<in> set (td_terms db)" "isPublished t" for t
    using that by (auto simp: publish_terms update_rows_def isPublished_def image_iff)
  have "\<exists>t' \<in> set (td_terms ?db'). draft_form t' = draft_form t" if "t \<in> set (td_terms db)" for t
  proof -
    let ?f = "\<lambda>t. t \<lparr> lt_publishedAt := Some now, lt_updatedAt := touched \<rparr>"
    let ?t = "if lt_id t = i \<and> lt_publishedAt t = None then ?f t else t"
    have "?t \<in> set (td_terms ?db')" using that by (auto simp: publish_terms update_rows_def)
    moreover have "draft_form ?t = draft_form t" by (simp add: draft_form_def)
    ultimately show ?thesis by blast
  qed
  then show "facts_kept db ?db'" using published by (auto simp: facts_kept_def publish_terms(2))
  show "terms_ok ?db'"
    using assms published by (fastforce simp: terms_ok_def publish_terms)
qed

lemma accept_keeps:
  assumes "terms_ok db" "\<exists>t \<in> set (td_terms db). lt_id t = ta_termId a \<and> isPublished t"
  shows "terms_ok (snd (pt_recordAcceptance a db))" "facts_kept db (snd (pt_recordAcceptance a db))"
  using assms by (auto simp: pt_recordAcceptance_def terms_ok_def facts_kept_def)

section \<open>Requests at work\<close>

text \<open>The tables and the versions that requests in flight have read. Each step is one call of a handler:
  the insert of a new version, a read, the publication of a version read as a draft, and the acceptance of
  one read as published; between them other requests do the same.\<close>

record terms_world =
  tw_db :: terms_db
  tw_seen :: "legal_term list"

inductive terms_step :: "terms_world \<Rightarrow> terms_world \<Rightarrow> bool" where
  Create:
    "create_term_entity newId now type_name version content publishedAt = Inr t \<Longrightarrow>
     terms_step w (w \<lparr> tw_db := snd (pt_create t (tw_db w)) \<rparr>)"
| Look: "pt_findById i (tw_db w) = Some t \<Longrightarrow> terms_step w (w \<lparr> tw_seen := t # tw_seen w \<rparr>)"
| Publish:
    "t \<in> set (tw_seen w) \<Longrightarrow> \<not> isPublished t \<Longrightarrow>
     terms_step w (w \<lparr> tw_db := snd (pt_publish (lt_id (publishedAtOrNow now t)) now touched (tw_db w)) \<rparr>)"
| Accept:
    "t \<in> set (tw_seen w) \<Longrightarrow> isPublished t \<Longrightarrow> ta_termId a = lt_id t \<Longrightarrow>
     terms_step w (w \<lparr> tw_db := snd (pt_recordAcceptance a (tw_db w)) \<rparr>)"

definition terms_inv :: "terms_world \<Rightarrow> bool" where
  "terms_inv w \<longleftrightarrow> terms_ok (tw_db w) \<and> (\<forall>t \<in> set (tw_seen w). isPublished t \<longrightarrow> t \<in> set (td_terms (tw_db w)))"

lemma terms_inv_kept:
  assumes "terms_inv w" "terms_ok db'" "facts_kept (tw_db w) db'"
  shows "terms_inv (w \<lparr> tw_db := db' \<rparr>)"
  using assms by (auto simp: terms_inv_def facts_kept_def)

lemma terms_inv_step:
  assumes "terms_step w w'" "terms_inv w"
  shows "terms_inv w' \<and> facts_kept (tw_db w) (tw_db w')"
  using assms
proof cases
  case (Create newId now type_name version content publishedAt t)
  have "terms_ok (tw_db w)" using assms(2) by (simp add: terms_inv_def)
  then show ?thesis using create_keeps terms_inv_kept[OF assms(2)] Create(1) by simp
next
  case (Look i t)
  then show ?thesis using assms(2) by (auto simp: terms_inv_def facts_kept_refl find_term)
next
  case (Publish t now touched)
  have "terms_ok (tw_db w)" using assms(2) by (simp add: terms_inv_def)
  then show ?thesis using publish_keeps terms_inv_kept[OF assms(2)] Publish(1) by simp
next
  case (Accept t a)
  have ok: "terms_ok (tw_db w)" "\<exists>t \<in> set (td_terms (tw_db w)). lt_id t = ta_termId a \<and> isPublished t"
    using assms(2) Accept by (auto simp: terms_inv_def)
  then show ?thesis using accept_keeps[OF ok] terms_inv_kept[OF assms(2)] Accept(1) by simp
qed

lemma terms_inv_run:
  "terms_step\<^sup>*\<^sup>* w w' \<Longrightarrow> terms_inv w \<Longrightarrow> terms_inv w' \<and> facts_kept (tw_db w) (tw_db w')"
proof (induction rule: rtranclp_induct)
  case base
  then show ?case by (simp add: facts_kept_refl)
next
  case (step w' w'')
  then show ?case using terms_inv_step[OF step(2)] facts_kept_trans by blast
qed

definition no_terms :: terms_world where
  "no_terms = \<lparr> tw_db = \<lparr> td_terms = [], td_acceptances = [] \<rparr>, tw_seen = [] \<rparr>"

text \<open>C31. Whatever requests do, in any interleaving of their calls: a published version stays exactly as it
  was published, with its date; an acceptance stays with its first timestamp and address, there is one for
  each user and version and the version is published; and no type has two versions of one name.\<close>

theorem published_terms_are_final:
  assumes "terms_step\<^sup>*\<^sup>* no_terms w" "terms_step\<^sup>*\<^sup>* w w'"
  shows "(\<forall>t \<in> set (td_terms (tw_db w)). isPublished t \<longrightarrow> t \<in> set (td_terms (tw_db w'))) \<and>
    set (td_acceptances (tw_db w)) \<subseteq> set (td_acceptances (tw_db w')) \<and>
    distinct (map (\<lambda>a. (ta_termId a, ta_userId a)) (td_acceptances (tw_db w'))) \<and>
    (\<forall>a \<in> set (td_acceptances (tw_db w')). \<exists>t \<in> set (td_terms (tw_db w')). lt_id t = ta_termId a \<and> isPublished t) \<and>
    distinct (map (\<lambda>t. (lt_type t, lt_version t)) (td_terms (tw_db w')))"
proof -
  have "terms_inv no_terms" by (simp add: terms_inv_def no_terms_def terms_ok_def)
  then have "terms_inv w" using terms_inv_run[OF assms(1)] by blast
  then have "terms_inv w'" "facts_kept (tw_db w) (tw_db w')" using terms_inv_run[OF assms(2)] by simp_all
  then show ?thesis by (simp add: terms_inv_def terms_ok_def facts_kept_def)
qed

definition example_term :: "string \<Rightarrow> legal_term" where
  "example_term v =
     \<lparr> lt_id = ''t'' @ v, lt_type = PRIVACY_POLICY, lt_version = v, lt_content = ''text'', lt_publishedAt = None,
       lt_createdAt = 1, lt_updatedAt = 1 \<rparr>"

definition terms_run :: "terms_world" where
  "terms_run =
     (let db1 = snd (pt_create (example_term ''1'') (tw_db no_terms)) in
      \<lparr> tw_db = snd (pt_publish ''t1'' 5 5 db1), tw_seen = [example_term ''1''] \<rparr>)"

lemma terms_run_reached: "terms_step\<^sup>*\<^sup>* no_terms terms_run"
proof -
  let ?w1 = "no_terms \<lparr> tw_db := snd (pt_create (example_term ''1'') (tw_db no_terms)) \<rparr>"
  let ?w2 = "?w1 \<lparr> tw_seen := example_term ''1'' # tw_seen ?w1 \<rparr>"
  have "create_term_entity ''t1'' 1 PRIVACY_POLICY ''1'' ''text'' None = Inr (example_term ''1'')" by code_simp
  then have "terms_step no_terms ?w1" by (rule terms_step.Create)
  moreover have "terms_step ?w1 ?w2"
    by (rule terms_step.Look[of "''t1''"]) code_simp
  moreover have "terms_step ?w2 (?w2 \<lparr> tw_db := snd (pt_publish (lt_id (publishedAtOrNow 5 (example_term ''1''))) 5 5 (tw_db ?w2)) \<rparr>)"
    by (rule terms_step.Publish) (simp_all add: example_term_def isPublished_def)
  moreover have "?w2 \<lparr> tw_db := snd (pt_publish (lt_id (publishedAtOrNow 5 (example_term ''1''))) 5 5 (tw_db ?w2)) \<rparr> = terms_run"
    by (simp add: terms_run_def Let_def no_terms_def publishedAtOrNow_def example_term_def)
  ultimately show ?thesis by (metis converse_rtranclp_into_rtranclp rtranclp.rtrancl_refl)
qed

theorem published_terms_are_final_witness:
  "\<exists>w :: terms_world. (example_term ''1'') \<lparr> lt_publishedAt := Some 5, lt_updatedAt := 5 \<rparr> \<in> set (td_terms (tw_db w)) \<and>
     length (td_terms (tw_db w)) = 2"
proof -
  let ?w' = "terms_run \<lparr> tw_db := snd (pt_create (example_term ''2'') (tw_db terms_run)) \<rparr>"
  have "create_term_entity ''t2'' 1 PRIVACY_POLICY ''2'' ''text'' None = Inr (example_term ''2'')" by code_simp
  then have "terms_step terms_run ?w'" by (rule terms_step.Create)
  then have run: "terms_step\<^sup>*\<^sup>* terms_run ?w'" by blast
  have "(example_term ''1'') \<lparr> lt_publishedAt := Some 5, lt_updatedAt := 5 \<rparr> \<in> set (td_terms (tw_db terms_run))" by code_simp
  moreover have "isPublished ((example_term ''1'') \<lparr> lt_publishedAt := Some 5, lt_updatedAt := 5 \<rparr>)"
    by (simp add: isPublished_def)
  ultimately have "(example_term ''1'') \<lparr> lt_publishedAt := Some 5, lt_updatedAt := 5 \<rparr> \<in> set (td_terms (tw_db ?w'))"
    using published_terms_are_final[OF terms_run_reached run] by blast
  moreover have "length (td_terms (snd (pt_create (example_term ''2'') (tw_db terms_run)))) = 2" by code_simp
  ultimately have "(example_term ''1'') \<lparr> lt_publishedAt := Some 5, lt_updatedAt := 5 \<rparr> \<in> set (td_terms (tw_db ?w')) \<and>
      length (td_terms (tw_db ?w')) = 2" by simp
  then show ?thesis by (rule exI)
qed

section \<open>Publishing\<close>

lemma kept_draft:
  assumes "terms_ok db'" "facts_kept db db'" "t \<in> set (td_terms db)"
  obtains t' where "t' \<in> set (td_terms db')" "draft_form t' = draft_form t" "lt_id t' = lt_id t"
  using assms unfolding facts_kept_def draft_form_def by (metis prod.inject)

lemma dto_of_draft:
  "draft_form t' = draft_form t \<Longrightarrow> lt_publishedAt t' = lt_publishedAt t \<Longrightarrow> toTermDto t' = toTermDto t"
  by (simp add: draft_form_def toTermDto_def)

text \<open>Publishing while other requests create, publish and accept in between: the answer is not found
  exactly when there is no such version; otherwise it is the version as it now stands published in the
  table, and one that was published before keeps its date, however often and by whomever it is published.\<close>

theorem publishing_answers_the_stored_date:
  assumes ok: "terms_ok db"
    and others: "\<And>n d. terms_ok d \<Longrightarrow> terms_ok (between n d) \<and> facts_kept d (between n d)"
    and run: "publish_term pt_findById (\<lambda>i now. pt_publish i now touched) between now i db = (r, db')"
  shows "terms_ok db' \<and> facts_kept db db' \<and>
    (case r of
       Inl e \<Rightarrow> e = termNotFound \<and> i \<notin> lt_id ` set (td_terms db)
     | Inr dto \<Rightarrow>
         (\<exists>t \<in> set (td_terms db'). lt_id t = i \<and> isPublished t \<and> toTermDto t = dto \<and>
            (\<forall>t0 \<in> set (td_terms db). lt_id t0 = i \<and> isPublished t0 \<longrightarrow> t0 = t)))"
proof (cases "pt_findById i db")
  case None
  then have "r = Inl termNotFound" "db' = db" using run by (simp_all add: publish_term_def)
  then show ?thesis using None ok by (simp add: facts_kept_refl find_no_term)
next
  case (Some t)
  then have t: "t \<in> set (td_terms db)" "lt_id t = i" using find_term[OF ok] by simp_all
  have same: "t0 = t" if "t0 \<in> set (td_terms db)" "lt_id t0 = i" for t0
    using unique_term[OF ok that(1) t(1)] that(2) t(2) by simp
  show ?thesis
  proof (cases "isPublished t")
    case True
    then have "r = Inr (toTermDto t)" "db' = db" using run Some by (simp_all add: publish_term_def)
    moreover have "\<exists>u \<in> set (td_terms db). lt_id u = i \<and> isPublished u \<and> toTermDto u = toTermDto t \<and>
        (\<forall>t0 \<in> set (td_terms db). lt_id t0 = i \<and> isPublished t0 \<longrightarrow> t0 = u)"
      using t True same by (intro bexI[of _ t]) blast+
    ultimately show ?thesis using ok by (simp add: facts_kept_refl)
  next
    case draft: False
    let ?d1 = "between 0 db"
    have d1: "terms_ok ?d1" "facts_kept db ?d1" using others[OF ok] by simp_all
    obtain t1 where t1: "t1 \<in> set (td_terms ?d1)" "draft_form t1 = draft_form t" "lt_id t1 = i"
      using kept_draft[OF d1 t(1)] t(2) by metis
    have cid: "lt_id (publishedAtOrNow now t) = i" using t(2) by (simp add: publishedAtOrNow_def)
    let ?p = "pt_publish i now touched ?d1"
    have d2: "terms_ok (snd ?p)" "facts_kept ?d1 (snd ?p)" using publish_keeps[OF d1(1)] by simp_all
    have "fst ?p \<longleftrightarrow> (\<exists>x \<in> set (td_terms ?d1). lt_id x = i \<and> lt_publishedAt x = None)"
      by (simp add: pt_publish_def Let_def count_rows_pos)
    moreover have "x = t1" if "x \<in> set (td_terms ?d1)" "lt_id x = i" for x
      using unique_term[OF d1(1) that(1) t1(1)] that(2) t1(3) by simp
    ultimately have won: "fst ?p \<longleftrightarrow> lt_publishedAt t1 = None" using t1(1,3) by blast
    show ?thesis
    proof (cases "lt_publishedAt t1 = None")
      case True
      let ?t2 = "t1 \<lparr> lt_publishedAt := Some now, lt_updatedAt := touched \<rparr>"
      have row: "?t2 \<in> set (td_terms (snd ?p))"
        using t1 True by (auto simp: publish_terms update_rows_def)
      have "fst ?p" using True won by simp
      then have "r = Inr (toTermDto (publishedAtOrNow now t))" "db' = snd ?p"
        using run Some draft cid by (cases ?p; simp add: publish_term_def Let_def)+
      moreover have "toTermDto ?t2 = toTermDto (publishedAtOrNow now t)"
        using t1(2) draft by (simp add: draft_form_def toTermDto_def publishedAtOrNow_def isPublished_def)
      moreover have "lt_id ?t2 = i" "isPublished ?t2" using t1(3) by (simp_all add: isPublished_def)
      moreover have "\<not> (t0 \<in> set (td_terms db) \<and> lt_id t0 = i \<and> isPublished t0)" for t0
        using same draft by blast
      ultimately have "\<exists>u \<in> set (td_terms (snd ?p)). lt_id u = i \<and> isPublished u \<and>
          toTermDto u = toTermDto (publishedAtOrNow now t) \<and>
          (\<forall>t0 \<in> set (td_terms db). lt_id t0 = i \<and> isPublished t0 \<longrightarrow> t0 = u)"
        using row by (intro bexI[of _ ?t2]) blast+
      then show ?thesis
        using d2(1) facts_kept_trans[OF d1(2) d2(2)] \<open>r = Inr (toTermDto (publishedAtOrNow now t))\<close> \<open>db' = snd ?p\<close> by simp
    next
      case False
      let ?d3 = "between 1 (snd ?p)"
      have d3: "terms_ok ?d3" "facts_kept (snd ?p) ?d3" using others[OF d2(1)] by simp_all
      have "t1 \<in> set (td_terms ?d3)"
        using t1(1) False d2(2) d3(2) by (auto simp: facts_kept_def isPublished_def)
      then have found: "pt_findById i ?d3 = Some t1" using find_term[OF d3(1)] t1(3) by simp
      have "\<not> fst ?p" using False won by simp
      then have "r = Inr (toTermDto t1)" "db' = ?d3"
        using run Some draft cid t(2) found by (cases ?p; simp add: publish_term_def Let_def)+
      moreover have "isPublished t1" using False by (simp add: isPublished_def)
      moreover have "\<not> (t0 \<in> set (td_terms db) \<and> lt_id t0 = i \<and> isPublished t0)" for t0
        using same draft by blast
      ultimately have "r = Inr (toTermDto t1)" "db' = ?d3"
        "\<exists>u \<in> set (td_terms ?d3). lt_id u = i \<and> isPublished u \<and> toTermDto u = toTermDto t1 \<and>
          (\<forall>t0 \<in> set (td_terms db). lt_id t0 = i \<and> isPublished t0 \<longrightarrow> t0 = u)"
        using \<open>t1 \<in> set (td_terms ?d3)\<close> t1(3) by blast+
      then show ?thesis
        using d3(1) facts_kept_trans[OF facts_kept_trans[OF d1(2) d2(2)] d3(2)] by simp
    qed
  qed
qed

theorem publishing_answers_the_stored_date_witness:
  "\<exists>dto (db' :: terms_db). publish_term pt_findById (\<lambda>i now. pt_publish i now 8)
      (\<lambda>n d. if n = 0 then snd (pt_publish ''t1'' 7 7 d) else d) 8 ''t1''
      \<lparr> td_terms = [example_term ''1''], td_acceptances = [] \<rparr> = (Inr dto, db') \<and> tt_publishedAt dto = Some 7 \<and>
    facts_kept \<lparr> td_terms = [example_term ''1''], td_acceptances = [] \<rparr> db'"
proof -
  let ?db = "\<lparr> td_terms = [example_term ''1''], td_acceptances = [] \<rparr>"
  let ?between = "\<lambda>(n::nat) d. if n = 0 then snd (pt_publish ''t1'' 7 7 d) else d"
  obtain r db' where run: "publish_term pt_findById (\<lambda>i now. pt_publish i now 8) ?between 8 ''t1'' ?db = (r, db')"
    by fastforce
  have "terms_ok ?db" by (simp add: terms_ok_def)
  moreover have "terms_ok (?between n d) \<and> facts_kept d (?between n d)" if "terms_ok d" for n d
    using publish_keeps[OF that] that by (simp add: facts_kept_refl)
  ultimately have "facts_kept ?db db'" using publishing_answers_the_stored_date[OF _ _ run] by blast
  moreover have "(case fst (publish_term pt_findById (\<lambda>i now. pt_publish i now 8) ?between 8 ''t1'' ?db) of
      Inr dto \<Rightarrow> tt_publishedAt dto = Some 7 | Inl _ \<Rightarrow> False)" by code_simp
  ultimately show ?thesis using run by (auto split: sum.splits)
qed

end
