(* ===== verification/Workspaces.thy ===== *)
theory Workspaces
  imports Organization_Roles Cursor Http_Guards
begin

text \<open>The rest of libs/modules/organizations: teams and invitations with both repositories and their handlers,
  the summary of an organization, and the personal organization a user gets. The tables live in one database
  record; \<open>casing\<close> is the folding of letters that ILIKE uses, a property of the database's locale.\<close>

section \<open>Teams\<close>

record team =
  te_id :: id
  te_organizationId :: id
  te_name :: string
  te_createdAt :: instant
  te_updatedAt :: "instant option"

definition invalidTeamName :: failure where
  "invalidTeamName =
     Domain (new_domain_exception
       \<lparr> opt_kind = Some Validation, opt_code = Some ''validation_failed'',
         opt_title = Some ''common.unprocessable_entity'', opt_messageKey = None, opt_args = None,
         opt_violations =
           [\<lparr> vi_path = ''name'', vi_code = ''invalid_length'',
              vi_message = ''name must be between 1 and 100 characters after trimming'',
              vi_messageKey = None, vi_rule = None, vi_constraint = None \<rparr>],
         opt_permanent = None \<rparr>)"

definition normalizeName :: "string \<Rightarrow> string outcome" where
  "normalizeName name =
     (let trimmed = trim name in
      if length trimmed < 1 \<or> 100 < length trimmed then Inl invalidTeamName else Inr trimmed)"

definition create_team_entity :: "id \<Rightarrow> instant \<Rightarrow> id \<Rightarrow> string \<Rightarrow> team outcome" where
  "create_team_entity newId now org name =
     (case normalizeName name of
        Inl e \<Rightarrow> Inl e
      | Inr n \<Rightarrow> Inr \<lparr> te_id = newId, te_organizationId = org, te_name = n, te_createdAt = now, te_updatedAt = None \<rparr>)"

definition renamedTo :: "instant \<Rightarrow> string \<Rightarrow> team \<Rightarrow> team outcome" where
  "renamedTo now name t =
     (case normalizeName name of
        Inl e \<Rightarrow> Inl e
      | Inr n \<Rightarrow> Inr (t \<lparr> te_name := n, te_updatedAt := Some now \<rparr>))"

section \<open>The database\<close>

record invitation =
  iv_id :: id
  iv_organizationId :: id
  iv_email :: string
  iv_role :: "string option"
  iv_teamId :: "id option"
  iv_status :: string
  iv_expiresAt :: instant
  iv_inviterId :: id
  iv_createdAt :: instant

record organization_row_of =
  og_id :: id
  og_name :: string
  og_slug :: string
  og_logo :: "string option"
  og_createdAt :: instant

record workspace_member =
  wm_organizationId :: id
  wm_userId :: id
  wm_role :: string
  wm_createdAt :: instant

record workspace_db =
  wd_organizations :: "organization_row_of list"
  wd_members :: "workspace_member list"
  wd_teams :: "team list"
  wd_teamMembers :: "(id \<times> id) list"
  wd_invitations :: "invitation list"

definition member_count :: "workspace_db \<Rightarrow> id \<Rightarrow> nat" where
  "member_count db team = count_rows (\<lambda>(t, _). t = team) (wd_teamMembers db)"

text \<open>LIKE: a percent sign stands for any text, an underscore for one character, a backslash takes the next
  character as it is.\<close>

fun sql_like :: "string \<Rightarrow> string \<Rightarrow> bool" where
  "sql_like [] s \<longleftrightarrow> s = []"
| "sql_like (p # ps) s \<longleftrightarrow>
     (if p = CHR ''%'' then sql_like ps s \<or> (case s of [] \<Rightarrow> False | _ # s' \<Rightarrow> sql_like (p # ps) s')
      else if p = CHR ''_'' then (case s of [] \<Rightarrow> False | _ # s' \<Rightarrow> sql_like ps s')
      else if p = CHR 0x5C then
        (case ps of
           [] \<Rightarrow> False
         | q # qs \<Rightarrow> (case s of [] \<Rightarrow> False | c # s' \<Rightarrow> c = q \<and> sql_like qs s'))
      else (case s of [] \<Rightarrow> False | c # s' \<Rightarrow> c = p \<and> sql_like ps s'))"

definition escapeLikePattern :: "string \<Rightarrow> string" where
  "escapeLikePattern v =
     concat (map (\<lambda>c. if c = CHR 0x5C \<or> c = CHR ''%'' \<or> c = CHR ''_'' then [CHR 0x5C, c] else [c]) v)"

text \<open>Prisma's \<open>contains\<close> with mode insensitive: ILIKE with a percent sign on each side.\<close>

definition contains_insensitive :: "(char \<Rightarrow> char) \<Rightarrow> string \<Rightarrow> string \<Rightarrow> bool" where
  "contains_insensitive casing pattern name = sql_like (map casing (''%'' @ pattern @ ''%'')) (map casing name)"

definition team_key :: "team \<Rightarrow> cursor_key" where
  "team_key t = (te_createdAt t, te_id t)"

text \<open>A team comes with the number of its members.\<close>

type_synonym counted_team = "team \<times> nat"

definition counted :: "workspace_db \<Rightarrow> team \<Rightarrow> counted_team" where
  "counted db t = (t, member_count db (te_id t))"

definition teams_findAllCursor ::
    "(char \<Rightarrow> char) \<Rightarrow> id \<Rightarrow> decoded_cursor option \<Rightarrow> nat \<Rightarrow> string option \<Rightarrow> workspace_db \<Rightarrow> counted_team page_slice" where
  "teams_findAllCursor casing org startingAfter limit search db =
     (let page = keyset_query team_key
        (\<lambda>t. te_organizationId t = org \<and>
             (case truthy search of Some s \<Rightarrow> contains_insensitive casing (escapeLikePattern s) (te_name t) | None \<Rightarrow> True))
        (wd_teams db) startingAfter limit
      in \<lparr> pg_items = map (counted db) (pg_items page), pg_hasMore = pg_hasMore page \<rparr>)"

definition teams_findById :: "id \<Rightarrow> id \<Rightarrow> workspace_db \<Rightarrow> counted_team option" where
  "teams_findById org i db =
     map_option (counted db) (List.find (\<lambda>t. te_id t = i \<and> te_organizationId t = org) (wd_teams db))"

definition team_name_key :: "team \<Rightarrow> id \<times> string" where
  "team_name_key t = (te_organizationId t, te_name t)"

definition teamNotFound :: failure where
  "teamNotFound = raise_problem (problem NotFound ''team_not_found'' ''errors.organizations.team_not_found'' ''id'' ''Team not found'')"

definition teamNameTaken :: failure where
  "teamNameTaken =
     raise_problem ((problem Conflict ''team_name_taken'' ''errors.organizations.team_name_taken'' ''name''
       ''A team with this name already exists in the organization'') \<lparr> fp_permanent := Some False \<rparr>)"

text \<open>The insert leaves updatedAt to Prisma, which writes its clock to a column marked @updatedAt.\<close>

definition teams_create :: "instant \<Rightarrow> team \<Rightarrow> workspace_db \<Rightarrow> unit outcome \<times> workspace_db" where
  "teams_create touched t db =
     (if te_id t \<in> te_id ` set (wd_teams db) \<or> team_name_key t \<in> team_name_key ` set (wd_teams db)
      then (Inl teamNameTaken, db)
      else (Inr (), db \<lparr> wd_teams := wd_teams db @ [t \<lparr> te_updatedAt := Some touched \<rparr>] \<rparr>))"

definition teams_update :: "instant \<Rightarrow> team \<Rightarrow> workspace_db \<Rightarrow> bool outcome \<times> workspace_db" where
  "teams_update touched t db =
     (let sel = (\<lambda>r. te_id r = te_id t \<and> te_organizationId r = te_organizationId t) in
      if (\<exists>r \<in> set (wd_teams db). sel r) \<and>
         (\<exists>r \<in> set (wd_teams db). \<not> sel r \<and> team_name_key r = team_name_key t)
      then (Inl teamNameTaken, db)
      else (Inr (0 < count_rows sel (wd_teams db)),
            db \<lparr> wd_teams := update_rows sel (\<lambda>r. r \<lparr> te_name := te_name t, te_updatedAt := Some touched \<rparr>) (wd_teams db) \<rparr>))"

text \<open>The rows of its members go with a team, and invitations to it lose it.\<close>

definition teams_delete :: "id \<Rightarrow> id \<Rightarrow> workspace_db \<Rightarrow> bool \<times> workspace_db" where
  "teams_delete org i db =
     (let sel = (\<lambda>t. te_id t = i \<and> te_organizationId t = org) in
      if count_rows sel (wd_teams db) = 0 then (False, db)
      else (True, db \<lparr> wd_teams := filter (\<lambda>t. \<not> sel t) (wd_teams db),
                      wd_teamMembers := filter (\<lambda>(t, _). t \<noteq> i) (wd_teamMembers db),
                      wd_invitations := update_rows (\<lambda>v. iv_teamId v = Some i) (\<lambda>v. v \<lparr> iv_teamId := None \<rparr>) (wd_invitations db) \<rparr>))"

section \<open>Team handlers\<close>

record team_dto =
  tb_id :: id
  tb_name :: string
  tb_memberCount :: nat
  tb_createdAt :: instant
  tb_updatedAt :: "instant option"

definition toTeamDto :: "team \<Rightarrow> nat \<Rightarrow> team_dto" where
  "toTeamDto t n =
     \<lparr> tb_id = te_id t, tb_name = te_name t, tb_memberCount = n, tb_createdAt = te_createdAt t,
       tb_updatedAt = te_updatedAt t \<rparr>"

definition create_team ::
    "(team \<Rightarrow> 's \<Rightarrow> unit outcome \<times> 's) \<Rightarrow> id \<Rightarrow> instant \<Rightarrow> id \<Rightarrow> string \<Rightarrow> 's \<Rightarrow> team_dto outcome \<times> 's" where
  "create_team create newId now org name s =
     (case create_team_entity newId now org name of
        Inl e \<Rightarrow> (Inl e, s)
      | Inr t \<Rightarrow> (case create t s of (Inl e, s') \<Rightarrow> (Inl e, s') | (Inr _, s') \<Rightarrow> (Inr (toTeamDto t 0), s')))"

definition update_team ::
    "(id \<Rightarrow> id \<Rightarrow> 's \<Rightarrow> counted_team option) \<Rightarrow> (team \<Rightarrow> 's \<Rightarrow> bool outcome \<times> 's) \<Rightarrow> ('s \<Rightarrow> 's) \<Rightarrow> instant
     \<Rightarrow> id \<Rightarrow> id \<Rightarrow> string \<Rightarrow> 's \<Rightarrow> team_dto outcome \<times> 's" where
  "update_team findById update between now org i name s =
     (case findById org i s of
        None \<Rightarrow> (Inl teamNotFound, s)
      | Some (existing, n) \<Rightarrow>
          (case renamedTo now name existing of
             Inl e \<Rightarrow> (Inl e, s)
           | Inr renamed \<Rightarrow>
               (case update renamed (between s) of
                  (Inl e, s') \<Rightarrow> (Inl e, s')
                | (Inr hit, s') \<Rightarrow> (if hit then Inr (toTeamDto renamed n) else Inl teamNotFound, s'))))"

definition delete_team :: "(id \<Rightarrow> id \<Rightarrow> 's \<Rightarrow> bool \<times> 's) \<Rightarrow> id \<Rightarrow> id \<Rightarrow> 's \<Rightarrow> unit outcome \<times> 's" where
  "delete_team del org i s =
     (case del org i s of (deleted, s') \<Rightarrow> (if deleted then Inr () else Inl teamNotFound, s'))"

definition list_teams ::
    "(id \<Rightarrow> bool) \<Rightarrow> (id \<Rightarrow> decoded_cursor option \<Rightarrow> nat \<Rightarrow> string option \<Rightarrow> 's \<Rightarrow> counted_team page_slice)
     \<Rightarrow> id \<Rightarrow> nat \<Rightarrow> string option \<Rightarrow> string option \<Rightarrow> 's \<Rightarrow> (team_dto list \<times> bool \<times> string option) outcome" where
  "list_teams is_uuid7 findAllCursor org limit startingAfter search s =
     (case decodeStartingAfter is_uuid7 startingAfter of
        Inl e \<Rightarrow> Inl e
      | Inr c \<Rightarrow>
          (let page = findAllCursor org c limit search s in
           Inr (map (\<lambda>(t, n). toTeamDto t n) (pg_items page), pg_hasMore page,
                lastCursorOf (\<lambda>p. team_key (fst p)) (pg_items page))))"

section \<open>Invitations\<close>

definition pendingInvitationWhere :: "instant \<Rightarrow> invitation \<Rightarrow> bool" where
  "pendingInvitationWhere now v \<longleftrightarrow> iv_status v = ''pending'' \<and> now < iv_expiresAt v"

definition statusWhere :: "string \<Rightarrow> instant \<Rightarrow> invitation \<Rightarrow> bool" where
  "statusWhere status now v =
     (if status = ''pending'' then pendingInvitationWhere now v else iv_status v = status)"

definition invitation_key :: "invitation \<Rightarrow> cursor_key" where
  "invitation_key v = (iv_createdAt v, iv_id v)"

text \<open>\<open>lower_case\<close> is String.prototype.toLowerCase.\<close>

definition invitations_findAllCursor ::
    "(char \<Rightarrow> char) \<Rightarrow> instant \<Rightarrow> id \<Rightarrow> decoded_cursor option \<Rightarrow> nat \<Rightarrow> string option \<Rightarrow> string option \<Rightarrow> workspace_db
     \<Rightarrow> invitation page_slice" where
  "invitations_findAllCursor lower_case now org startingAfter limit status email db =
     keyset_query invitation_key
       (\<lambda>v. iv_organizationId v = org \<and>
            (case truthy status of Some st \<Rightarrow> statusWhere st now v | None \<Rightarrow> True) \<and>
            (case truthy email of Some e \<Rightarrow> iv_email v = map lower_case e | None \<Rightarrow> True))
       (wd_invitations db) startingAfter limit"

definition invitations_findById :: "id \<Rightarrow> id \<Rightarrow> workspace_db \<Rightarrow> invitation option" where
  "invitations_findById org i db = List.find (\<lambda>v. iv_id v = i \<and> iv_organizationId v = org) (wd_invitations db)"

definition invitations_cancelPending :: "id \<Rightarrow> id \<Rightarrow> workspace_db \<Rightarrow> bool \<times> workspace_db" where
  "invitations_cancelPending org i db =
     (let sel = (\<lambda>v. iv_id v = i \<and> iv_organizationId v = org \<and> iv_status v = ''pending'') in
      (0 < count_rows sel (wd_invitations db),
       db \<lparr> wd_invitations := update_rows sel (\<lambda>v. v \<lparr> iv_status := ''canceled'' \<rparr>) (wd_invitations db) \<rparr>))"

definition invitationNotFound :: failure where
  "invitationNotFound =
     raise_problem (problem NotFound ''invitation_not_found'' ''errors.organizations.invitation_not_found'' ''id''
       ''Invitation not found'')"

definition invitationNotPending :: failure where
  "invitationNotPending =
     conflict ''id'' ''invitation_not_pending'' ''Only a pending invitation can be canceled''
       ''errors.organizations.invitation_not_pending''"

definition cancel_invitation ::
    "(id \<Rightarrow> id \<Rightarrow> 's \<Rightarrow> bool \<times> 's) \<Rightarrow> (id \<Rightarrow> id \<Rightarrow> 's \<Rightarrow> invitation option) \<Rightarrow> ('s \<Rightarrow> 's) \<Rightarrow> id \<Rightarrow> id \<Rightarrow> 's
     \<Rightarrow> unit outcome \<times> 's" where
  "cancel_invitation cancelPending findById between org i s =
     (case cancelPending org i s of
        (True, s') \<Rightarrow> (Inr (), s')
      | (False, s') \<Rightarrow>
          (let s'' = between s' in
           case findById org i s'' of
             None \<Rightarrow> (Inl invitationNotFound, s'')
           | Some _ \<Rightarrow> (Inl invitationNotPending, s'')))"

record invitation_dto =
  id_id :: id
  id_email :: string
  id_role :: "string option"
  id_teamId :: "id option"
  id_status :: string
  id_expiresAt :: instant
  id_inviterId :: id
  id_createdAt :: instant

definition invitation_dto_of :: "invitation \<Rightarrow> invitation_dto" where
  "invitation_dto_of v =
     \<lparr> id_id = iv_id v, id_email = iv_email v, id_role = iv_role v, id_teamId = iv_teamId v, id_status = iv_status v,
       id_expiresAt = iv_expiresAt v, id_inviterId = iv_inviterId v, id_createdAt = iv_createdAt v \<rparr>"

definition list_invitations ::
    "(id \<Rightarrow> bool) \<Rightarrow> (id \<Rightarrow> decoded_cursor option \<Rightarrow> nat \<Rightarrow> string option \<Rightarrow> string option \<Rightarrow> 's \<Rightarrow> invitation page_slice)
     \<Rightarrow> id \<Rightarrow> nat \<Rightarrow> string option \<Rightarrow> string option \<Rightarrow> string option \<Rightarrow> 's
     \<Rightarrow> (invitation_dto list \<times> bool \<times> string option) outcome" where
  "list_invitations is_uuid7 findAllCursor org limit startingAfter status email s =
     (case decodeStartingAfter is_uuid7 startingAfter of
        Inl e \<Rightarrow> Inl e
      | Inr c \<Rightarrow>
          (let page = findAllCursor org c limit status email s in
           Inr (map invitation_dto_of (pg_items page), pg_hasMore page, lastCursorOf invitation_key (pg_items page))))"

section \<open>The current organization\<close>

record organization_summary =
  os_id :: id
  os_name :: string
  os_slug :: string
  os_logo :: "string option"
  os_createdAt :: instant
  os_memberCount :: nat
  os_teamCount :: nat
  os_pendingInvitationCount :: nat

definition findSummary :: "instant \<Rightarrow> id \<Rightarrow> workspace_db \<Rightarrow> organization_summary option" where
  "findSummary now org db =
     map_option
       (\<lambda>g. \<lparr> os_id = og_id g, os_name = og_name g, os_slug = og_slug g, os_logo = og_logo g,
              os_createdAt = og_createdAt g,
              os_memberCount = count_rows (\<lambda>m. wm_organizationId m = org) (wd_members db),
              os_teamCount = count_rows (\<lambda>t. te_organizationId t = org) (wd_teams db),
              os_pendingInvitationCount =
                count_rows (\<lambda>v. iv_organizationId v = org \<and> pendingInvitationWhere now v) (wd_invitations db) \<rparr>)
       (List.find (\<lambda>g. og_id g = org) (wd_organizations db))"

definition organizationNotFound :: failure where
  "organizationNotFound =
     raise_problem (problem NotFound ''organization_not_found'' ''errors.organizations.not_found'' ''organizationId''
       ''Organization not found'')"

definition get_current_organization :: "(id \<Rightarrow> 's \<Rightarrow> organization_summary option) \<Rightarrow> id \<Rightarrow> 's \<Rightarrow> organization_summary outcome" where
  "get_current_organization find_summary org s =
     (case find_summary org s of None \<Rightarrow> Inl organizationNotFound | Some summary \<Rightarrow> Inr summary)"

section \<open>The personal organization\<close>

text \<open>The oldest membership; \<open>scan\<close> is the order Postgres reads rows in, which decides among equally old ones.\<close>

definition oldest_membership :: "(workspace_member list \<Rightarrow> workspace_member list) \<Rightarrow> id \<Rightarrow> workspace_db \<Rightarrow> id option" where
  "oldest_membership scan user db =
     (case sort_key wm_createdAt (scan (filter (\<lambda>m. wm_userId m = user) (wd_members db))) of
        [] \<Rightarrow> None
      | m # _ \<Rightarrow> Some (wm_organizationId m))"

text \<open>The transaction under the advisory lock of the user; ids and clocks come from the database.\<close>

definition createIfAbsent ::
    "(workspace_member list \<Rightarrow> workspace_member list) \<Rightarrow> id \<Rightarrow> instant \<Rightarrow> id \<Rightarrow> string \<Rightarrow> string \<Rightarrow> workspace_db
     \<Rightarrow> id outcome \<times> workspace_db" where
  "createIfAbsent scan newId now user name slug db =
     (case oldest_membership scan user db of
        Some org \<Rightarrow> (Inr org, db)
      | None \<Rightarrow>
          if slug \<in> og_slug ` set (wd_organizations db) \<or> newId \<in> og_id ` set (wd_organizations db)
          then (Inl (Internal ''P2002''), db)
          else
            (Inr newId,
             db \<lparr> wd_organizations := wd_organizations db @
                    [\<lparr> og_id = newId, og_name = name, og_slug = slug, og_logo = None, og_createdAt = now \<rparr>],
                  wd_members := wd_members db @
                    [\<lparr> wm_organizationId = newId, wm_userId = user, wm_role = ''owner'', wm_createdAt = now \<rparr>] \<rparr>))"

definition personal_name :: "string \<Rightarrow> string \<Rightarrow> string" where
  "personal_name name email = (if trim name \<noteq> [] then trim name else hd (split_on CHR ''@'' email))"

definition personal_slug :: "id \<Rightarrow> string" where
  "personal_slug newId = ''ws-'' @ filter (\<lambda>c. c \<noteq> CHR ''-'') newId"

text \<open>\<open>identity\<close> is the user's name and e-mail address, and fails for a missing user.\<close>

definition ensure_personal_organization ::
    "(workspace_member list \<Rightarrow> workspace_member list) \<Rightarrow> (id \<Rightarrow> (string \<times> string) outcome) \<Rightarrow> (workspace_db \<Rightarrow> workspace_db)
     \<Rightarrow> id \<Rightarrow> id \<Rightarrow> instant \<Rightarrow> id \<Rightarrow> workspace_db \<Rightarrow> id outcome \<times> workspace_db" where
  "ensure_personal_organization scan identity between slugId newId now user db =
     (case Option.bind (oldest_membership scan user db) (\<lambda>org. truthy (Some org)) of
        Some org \<Rightarrow> (Inr org, db)
      | None \<Rightarrow>
          (case identity user of
             Inl e \<Rightarrow> (Inl e, db)
           | Inr (name, email) \<Rightarrow>
               createIfAbsent scan newId now user (personal_name name email) (personal_slug slugId) (between db)))"

section \<open>The in-memory repositories\<close>

type_synonym team_map = "(id \<times> counted_team) list"

definition memory_teams_findAllCursor ::
    "(char \<Rightarrow> char) \<Rightarrow> id \<Rightarrow> decoded_cursor option \<Rightarrow> nat \<Rightarrow> string option \<Rightarrow> team_map \<Rightarrow> counted_team page_slice" where
  "memory_teams_findAllCursor lower_case org startingAfter limit search m =
     paginateNewestFirst (\<lambda>p. team_key (fst p))
       (filter (\<lambda>(t, _). case truthy search of
                           Some s \<Rightarrow> includes_text (map lower_case s) (map lower_case (te_name t)) | None \<Rightarrow> True)
         (filter (\<lambda>(t, _). te_organizationId t = org) (map snd m)))
       startingAfter limit"

definition memory_teams_findById :: "id \<Rightarrow> id \<Rightarrow> team_map \<Rightarrow> counted_team option" where
  "memory_teams_findById org i m =
     (case map_of m i of Some (t, n) \<Rightarrow> if te_organizationId t = org then Some (t, n) else None | None \<Rightarrow> None)"

definition memory_teams_create :: "team \<Rightarrow> team_map \<Rightarrow> unit outcome \<times> team_map" where
  "memory_teams_create t m = (Inr (), AList.update (te_id t) (t, 0) m)"

definition memory_teams_update :: "team \<Rightarrow> team_map \<Rightarrow> bool outcome \<times> team_map" where
  "memory_teams_update t m =
     (case map_of m (te_id t) of
        Some (existing, n) \<Rightarrow>
          if te_organizationId existing \<noteq> te_organizationId t then (Inr False, m)
          else (Inr True, AList.update (te_id t) (t, n) m)
      | None \<Rightarrow> (Inr False, m))"

definition memory_teams_delete :: "id \<Rightarrow> id \<Rightarrow> team_map \<Rightarrow> bool \<times> team_map" where
  "memory_teams_delete org i m =
     (case map_of m i of
        Some (t, _) \<Rightarrow> if te_organizationId t \<noteq> org then (False, m) else (True, AList.delete i m)
      | None \<Rightarrow> (False, m))"

type_synonym invitation_map = "(id \<times> invitation) list"

definition memory_invitations_findAllCursor ::
    "(char \<Rightarrow> char) \<Rightarrow> instant \<Rightarrow> id \<Rightarrow> decoded_cursor option \<Rightarrow> nat \<Rightarrow> string option \<Rightarrow> string option \<Rightarrow> invitation_map
     \<Rightarrow> invitation page_slice" where
  "memory_invitations_findAllCursor lower_case now org startingAfter limit status email m =
     paginateNewestFirst invitation_key
       (filter (\<lambda>v. case truthy email of Some e \<Rightarrow> iv_email v = map lower_case e | None \<Rightarrow> True)
         (filter (\<lambda>v. if status = Some ''pending'' then now < iv_expiresAt v else True)
           (filter (\<lambda>v. case truthy status of Some st \<Rightarrow> iv_status v = st | None \<Rightarrow> True)
             (filter (\<lambda>v. iv_organizationId v = org) (map snd m)))))
       startingAfter limit"

definition memory_invitations_findById :: "id \<Rightarrow> id \<Rightarrow> invitation_map \<Rightarrow> invitation option" where
  "memory_invitations_findById org i m =
     (case map_of m i of Some v \<Rightarrow> if iv_organizationId v = org then Some v else None | None \<Rightarrow> None)"

definition memory_invitations_cancelPending :: "id \<Rightarrow> id \<Rightarrow> invitation_map \<Rightarrow> bool \<times> invitation_map" where
  "memory_invitations_cancelPending org i m =
     (case memory_invitations_findById org i m of
        Some v \<Rightarrow>
          if iv_status v \<noteq> ''pending'' then (False, m)
          else (True, AList.update i (v \<lparr> iv_status := ''canceled'' \<rparr>) m)
      | None \<Rightarrow> (False, m))"

section \<open>A search is literal\<close>

lemma like_any_tail: "sql_like ''%'' s"
  by (induction s) auto

lemma like_literal:
  "sql_like (escapeLikePattern p @ q) s \<longleftrightarrow> (\<exists>b. s = p @ b \<and> sql_like q b)"
proof (induction p arbitrary: s)
  case Nil
  show ?case by (simp add: escapeLikePattern_def)
next
  case (Cons c p)
  have "sql_like (escapeLikePattern (c # p) @ q) s \<longleftrightarrow> (\<exists>s'. s = c # s' \<and> sql_like (escapeLikePattern p @ q) s')"
    by (cases s) (auto simp: escapeLikePattern_def)
  then show ?case using Cons by auto
qed

lemma like_percent: "sql_like (CHR ''%'' # q) s \<longleftrightarrow> (\<exists>a b. s = a @ b \<and> sql_like q b)"
proof (induction s)
  case (Cons c s)
  then show ?case by (auto simp: Cons_eq_append_conv)
qed simp

lemma contains_literal: "sql_like (''%'' @ escapeLikePattern p @ ''%'') s \<longleftrightarrow> (\<exists>a b. s = a @ p @ b)"
  using like_any_tail by (auto simp: like_percent like_literal simp del: sql_like.simps)

definition keeps_specials :: "(char \<Rightarrow> char) \<Rightarrow> bool" where
  "keeps_specials casing \<longleftrightarrow>
     (\<forall>x \<in> {CHR 0x5C, CHR ''%'', CHR ''_''}. casing x = x \<and> (\<forall>c. casing c = x \<longrightarrow> c = x))"

lemma escape_casing: "keeps_specials casing \<Longrightarrow> map casing (escapeLikePattern p) = escapeLikePattern (map casing p)"
proof (induction p)
  case (Cons c p)
  then have "casing c = x \<longleftrightarrow> c = x" if "x \<in> {CHR 0x5C, CHR ''%'', CHR ''_''}" for x
    using that by (auto simp: keeps_specials_def)
  then show ?case using Cons by (simp add: escapeLikePattern_def keeps_specials_def)
qed (simp add: escapeLikePattern_def)

lemma search_literal:
  "keeps_specials casing \<Longrightarrow>
     contains_insensitive casing (escapeLikePattern p) name = includes_text (map casing p) (map casing name)"
  using contains_literal[of "map casing p" "map casing name"]
  by (simp add: contains_insensitive_def escape_casing includes_text_iff keeps_specials_def)

lemma fst_counted: "fst (counted db t) = t"
  by (simp add: counted_def)

text \<open>The search of the team and invitation lists is literal. Whatever characters the client types, percent signs,
  underscores and backslashes included, the ILIKE query of the Prisma repository selects, orders and cuts exactly the page that
  the in-memory repository gives with a plain substring test, on the same teams; and the invitation lists agree for every
  filter.\<close>

theorem team_listing_is_literal:
  assumes "keeps_specials casing"
    and "map snd m = map (counted db) (wd_teams db)"
    and "map snd im = wd_invitations db"
  shows "teams_findAllCursor casing org c limit search db = memory_teams_findAllCursor casing org c limit search m
       \<and> invitations_findAllCursor casing now org c limit status email db
         = memory_invitations_findAllCursor casing now org c limit status email im"
proof
  let ?P = "\<lambda>t. case truthy search of Some s \<Rightarrow> includes_text (map casing s) (map casing (te_name t)) | None \<Rightarrow> True"
  have "filter (\<lambda>(t, _). ?P t) (filter (\<lambda>(t, _). te_organizationId t = org) (map (counted db) (wd_teams db)))
      = map (counted db) (filter (\<lambda>t. te_organizationId t = org \<and> ?P t) (wd_teams db))"
    by (simp add: filter_map comp_def case_prod_unfold fst_counted conj_commute cong: option.case_cong)
  then have "memory_teams_findAllCursor casing org c limit search m
      = paginateNewestFirst (\<lambda>p. team_key (fst p))
          (map (counted db) (filter (\<lambda>t. te_organizationId t = org \<and> ?P t) (wd_teams db))) c limit"
    by (simp add: memory_teams_findAllCursor_def assms(2))
  then show "teams_findAllCursor casing org c limit search db = memory_teams_findAllCursor casing org c limit search m"
    by (simp add: teams_findAllCursor_def search_literal[OF assms(1)] keyset_query_paginates paginate_map fst_counted
        Let_def comp_def cong: option.case_cong)
next
  have "filter (\<lambda>v. case truthy email of Some e \<Rightarrow> iv_email v = map casing e | None \<Rightarrow> True)
         (filter (\<lambda>v. if status = Some ''pending'' then now < iv_expiresAt v else True)
           (filter (\<lambda>v. case truthy status of Some st \<Rightarrow> iv_status v = st | None \<Rightarrow> True)
             (filter (\<lambda>v. iv_organizationId v = org) xs)))
      = filter (\<lambda>v. iv_organizationId v = org \<and>
            (case truthy status of Some st \<Rightarrow> statusWhere st now v | None \<Rightarrow> True) \<and>
            (case truthy email of Some e \<Rightarrow> iv_email v = map casing e | None \<Rightarrow> True)) xs" for xs
    unfolding filter_filter
    by (intro filter_cong refl)
       (auto simp: truthy_def statusWhere_def pendingInvitationWhere_def split: option.splits if_splits)
  then show "invitations_findAllCursor casing now org c limit status email db
      = memory_invitations_findAllCursor casing now org c limit status email im"
    by (simp add: invitations_findAllCursor_def memory_invitations_findAllCursor_def assms(3) keyset_query_paginates)
qed

text \<open>An installation in which the search is seen to be literal: of two names, a percent sign finds one.\<close>

definition example_workspace :: workspace_db where
  "example_workspace =
     \<lparr> wd_organizations = [], wd_members = [],
       wd_teams = [\<lparr> te_id = ''t1'', te_organizationId = ''o'', te_name = ''100% club'', te_createdAt = 1, te_updatedAt = None \<rparr>,
                   \<lparr> te_id = ''t2'', te_organizationId = ''o'', te_name = ''1000 club'', te_createdAt = 2, te_updatedAt = None \<rparr>],
       wd_teamMembers = [(''t1'', ''u'')], wd_invitations = [] \<rparr>"

definition example_casing :: "char \<Rightarrow> char" where
  "example_casing c = (if c = CHR ''C'' then CHR ''c'' else c)"

lemma team_listing_is_literal_witness:
  "teams_findAllCursor example_casing ''o'' None 5 (Some ''00%'') example_workspace
     = memory_teams_findAllCursor example_casing ''o'' None 5 (Some ''00%'')
         (map (\<lambda>t. (te_id t, counted example_workspace t)) (wd_teams example_workspace))
   \<and> map (\<lambda>p. te_id (fst p)) (pg_items (teams_findAllCursor example_casing ''o'' None 5 (Some ''00%'') example_workspace))
     = [''t1'']"
proof
  have "keeps_specials example_casing" by (simp add: keeps_specials_def example_casing_def)
  then show "teams_findAllCursor example_casing ''o'' None 5 (Some ''00%'') example_workspace
     = memory_teams_findAllCursor example_casing ''o'' None 5 (Some ''00%'')
         (map (\<lambda>t. (te_id t, counted example_workspace t)) (wd_teams example_workspace))"
    using team_listing_is_literal[of example_casing
        "map (\<lambda>t. (te_id t, counted example_workspace t)) (wd_teams example_workspace)" example_workspace "[]"]
    by (simp add: comp_def example_workspace_def)
  show "map (\<lambda>p. te_id (fst p)) (pg_items (teams_findAllCursor example_casing ''o'' None 5 (Some ''00%'') example_workspace))
     = [''t1'']"
    by code_simp
qed

section \<open>One personal organization\<close>

text \<open>What other requests may do to the tables while one of them runs: any sequence of the same transaction, for any user.
  The locks of the users make it atomic.\<close>

inductive personal_writes :: "(workspace_member list \<Rightarrow> workspace_member list) \<Rightarrow> workspace_db \<Rightarrow> workspace_db \<Rightarrow> bool"
  for scan where
  none: "personal_writes scan db db"
| one_more: "personal_writes scan db db' \<Longrightarrow> personal_writes scan db (snd (createIfAbsent scan newId now user name slug db'))"

record personal_request =
  pr_between :: "workspace_db \<Rightarrow> workspace_db"
  pr_slugId :: id
  pr_newId :: id
  pr_now :: instant
  pr_user :: id

fun personal_run ::
    "(workspace_member list \<Rightarrow> workspace_member list) \<Rightarrow> (id \<Rightarrow> (string \<times> string) outcome) \<Rightarrow> personal_request list
     \<Rightarrow> workspace_db \<Rightarrow> (id \<times> id outcome) list \<times> workspace_db" where
  "personal_run scan identity [] db = ([], db)"
| "personal_run scan identity (r # rs) db =
     (case ensure_personal_organization scan identity (pr_between r) (pr_slugId r) (pr_newId r) (pr_now r) (pr_user r) db of
        (answer, db') \<Rightarrow>
          (case personal_run scan identity rs db' of
             (answers, db'') \<Rightarrow> ((pr_user r, answer) # answers, db'')))"

definition memberships :: "id \<Rightarrow> workspace_db \<Rightarrow> workspace_member list" where
  "memberships user db = filter (\<lambda>m. wm_userId m = user) (wd_members db)"

definition settled_in :: "id \<Rightarrow> id \<Rightarrow> workspace_db \<Rightarrow> bool" where
  "settled_in user org db \<longleftrightarrow>
     org \<in> og_id ` set (wd_organizations db) \<and>
     (\<exists>at. memberships user db = [\<lparr> wm_organizationId = org, wm_userId = user, wm_role = ''owner'', wm_createdAt = at \<rparr>])"

definition settled_or_absent :: "id \<Rightarrow> workspace_db \<Rightarrow> bool" where
  "settled_or_absent user db \<longleftrightarrow> memberships user db = [] \<or> (\<exists>org. settled_in user org db)"

lemma oldest_absent: "mset (scan []) = {#} \<Longrightarrow> memberships user db = [] \<Longrightarrow> oldest_membership scan user db = None"
  by (simp add: oldest_membership_def memberships_def)

lemma oldest_settled:
  assumes "\<And>xs. mset (scan xs) = mset xs" "settled_in user org db"
  shows "oldest_membership scan user db = Some org"
proof -
  have "scan [x] = [x]" for x
    using assms(1)[of "[x]"] by simp
  then show ?thesis
    using assms(2) by (auto simp: oldest_membership_def settled_in_def memberships_def)
qed

lemma create_settled:
  assumes "\<And>xs. mset (scan xs) = mset xs" "settled_in u org db"
  shows "settled_in u org (snd (createIfAbsent scan newId now user name slug db))"
    and "user = u \<Longrightarrow> createIfAbsent scan newId now user name slug db = (Inr org, db)"
  using oldest_settled[OF assms] assms(2)
  by (auto simp: createIfAbsent_def settled_in_def memberships_def split: option.split)

lemma create_absent:
  assumes "\<And>xs. mset (scan xs) = mset xs" "memberships u db = []"
  shows "settled_or_absent u (snd (createIfAbsent scan newId now user name slug db))"
    and "user = u \<Longrightarrow> createIfAbsent scan newId now user name slug db = (Inr org, db') \<Longrightarrow> settled_in u org db'"
  using oldest_absent[of scan u db] assms
  by (auto simp: createIfAbsent_def settled_or_absent_def settled_in_def memberships_def split: option.splits if_splits)

lemma writes_settled:
  assumes "\<And>xs. mset (scan xs) = mset xs" "personal_writes scan db db'"
  shows "settled_in u org db \<Longrightarrow> settled_in u org db'"
    and "settled_or_absent u db \<Longrightarrow> settled_or_absent u db'"
proof -
  show "settled_in u org db'" if "settled_in u org db"
    using assms(2) that by induction (auto intro: create_settled(1)[OF assms(1)])
  show "settled_or_absent u db'" if "settled_or_absent u db"
    using assms(2) that
  proof induction
    case (one_more db db' newId now user name slug)
    then have "settled_or_absent u db'" by simp
    then show ?case
      using create_absent(1)[OF assms(1)] create_settled(1)[OF assms(1)] unfolding settled_or_absent_def by blast
  qed
qed

definition respects_writes :: "(workspace_member list \<Rightarrow> workspace_member list) \<Rightarrow> (workspace_db \<Rightarrow> workspace_db) \<Rightarrow> bool" where
  "respects_writes scan between \<longleftrightarrow> (\<forall>db. personal_writes scan db (between db))"

lemma ensure_keeps:
  assumes "\<And>xs. mset (scan xs) = mset xs" "respects_writes scan between"
    and "ensure_personal_organization scan identity between slugId newId now user db = (answer, db')"
  shows "settled_in u org db \<Longrightarrow> settled_in u org db'"
    and "settled_or_absent u db \<Longrightarrow> settled_or_absent u db'"
    and "settled_or_absent u db \<Longrightarrow> user = u \<Longrightarrow> answer = Inr org \<Longrightarrow> settled_in u org db'"
proof -
  have b: "personal_writes scan db (between db)"
    using assms(2) by (simp add: respects_writes_def)
  have "personal_writes scan db db'"
    using assms(3) b
    by (auto simp: ensure_personal_organization_def intro: personal_writes.intros
        intro: one_more[of scan db "between db" newId now user] split: option.splits sum.splits
        dest!: arg_cong[of _ _ snd])
  then show "settled_in u org db \<Longrightarrow> settled_in u org db'" "settled_or_absent u db \<Longrightarrow> settled_or_absent u db'"
    using writes_settled[OF assms(1)] by blast+
  show "settled_in u org db'" if known: "settled_or_absent u db" and ans: "user = u" "answer = Inr org"
  proof (cases "Option.bind (oldest_membership scan user db) (\<lambda>org. truthy (Some org))")
    case None
    then obtain name slug where *: "createIfAbsent scan newId now user name slug (between db) = (Inr org, db')"
      using assms(3) ans by (auto simp: ensure_personal_organization_def split: sum.splits)
    have "settled_or_absent u (between db)" using writes_settled(2)[OF assms(1) b known] .
    then show ?thesis
      using * ans(1) create_absent(2)[OF assms(1)] create_settled[OF assms(1)]
      unfolding settled_or_absent_def by (metis Pair_inject sum.inject(2))
  next
    case (Some found)
    then have "db' = db" "found = org" and old: "oldest_membership scan u db = Some org"
      using assms(3) ans by (auto simp: ensure_personal_organization_def truthy_def bind_eq_Some_conv split: if_splits)
    moreover obtain org' where "settled_in u org' db"
      using known old oldest_absent[of scan u db] assms(1) unfolding settled_or_absent_def by force
    ultimately show ?thesis using oldest_settled[OF assms(1)] by fastforce
  qed
qed

lemma run_preserves:
  assumes "\<And>r d d' a. r \<in> set rs \<Longrightarrow> ensure_personal_organization scan identity (pr_between r) (pr_slugId r) (pr_newId r)
             (pr_now r) (pr_user r) d = (a, d') \<Longrightarrow> P d \<Longrightarrow> P d'"
    and "P db"
  shows "P (snd (personal_run scan identity rs db))"
  using assms
proof (induction rs arbitrary: db)
  case (Cons r rs)
  obtain answer mid where e: "ensure_personal_organization scan identity (pr_between r) (pr_slugId r) (pr_newId r)
      (pr_now r) (pr_user r) db = (answer, mid)" by fastforce
  then have "P mid" using Cons.prems(1)[of r db answer mid] Cons.prems(2) by simp
  then have "P (snd (personal_run scan identity rs mid))"
    using Cons.IH[of mid] Cons.prems(1) by (meson list.set_intros(2))
  then show ?case using e by (auto split: prod.split)
qed simp

lemma run_keeps:
  assumes "\<And>xs. mset (scan xs) = mset xs" "\<forall>r \<in> set rs. respects_writes scan (pr_between r)"
  shows "settled_in u org db \<Longrightarrow> settled_in u org (snd (personal_run scan identity rs db))"
    and "settled_or_absent u db \<Longrightarrow> settled_or_absent u (snd (personal_run scan identity rs db))"
  using assms ensure_keeps(1,2)[OF assms(1)]
  by (auto intro!: run_preserves[where P = "settled_in u org"] run_preserves[where P = "settled_or_absent u"])


text \<open>Two requests of one user: the second runs wholly between the reads of the first.\<close>

definition example_identity :: "id \<Rightarrow> (string \<times> string) outcome" where
  "example_identity user = Inr ([], user @ ''@example.org'')"

definition example_second :: "workspace_db \<Rightarrow> workspace_db" where
  "example_second db = snd (createIfAbsent (\<lambda>xs. xs) ''o2'' 7 ''u'' ''u'' ''ws-2'' db)"

definition example_empty :: workspace_db where
  "example_empty =
     \<lparr> wd_organizations = [], wd_members = [], wd_teams = [], wd_teamMembers = [], wd_invitations = [] \<rparr>"

definition example_requests :: "personal_request list" where
  "example_requests =
     [\<lparr> pr_between = example_second, pr_slugId = ''a-1'', pr_newId = ''o1'', pr_now = 8, pr_user = ''u'' \<rparr>,
      \<lparr> pr_between = id, pr_slugId = ''b-1'', pr_newId = ''o3'', pr_now = 9, pr_user = ''v'' \<rparr>]"


end
