(* ===== verification/File_Retention.thy ===== *)
theory File_Retention
  imports Upload_Guarantee Keyed_Table
begin

text \<open>The scheduler's care of stored files (stored-file-cleanup.task.ts): the hourly reclaiming of files that were
  rejected or never finished, the daily one of files whose owner is gone, and the purge of files their owner
  deleted. Other requests run before every database and storage call (\<open>re_between\<close>), a database call may fail or
  lose its answer (\<open>re_db\<close>). A ghost component, \<open>rw_log\<close>, records every file ever inserted, whatever its status.\<close>

section \<open>The world of a run\<close>

record timed_row = stored_row +
  tr_updatedAt :: instant

record 's retention_world =
  rw_rows :: "timed_row list"
  rw_store :: 's
  rw_users :: "id list"
  rw_organizations :: "id list"
  rw_log :: "stored_file list"

record retention_config =
  rc_batchSize :: nat
  rc_finalizingStaleMinutes :: int
  rc_verifyingStaleHours :: int
  rc_rejectedRetainHours :: int
  rc_orphanGraceMinutes :: int
  rc_purgeAfterDays :: int
  rc_purgeMaxBatches :: nat

definition read_retention_config :: "process_env \<Rightarrow> retention_config" where
  "read_retention_config env =
     \<lparr> rc_batchSize = nat (positiveIntEnv env ''STORED_FILE_CLEANUP_BATCH_SIZE'' 500),
       rc_finalizingStaleMinutes = positiveIntEnv env ''STORED_FILE_FINALIZING_STALE_MINUTES'' 60,
       rc_verifyingStaleHours = positiveIntEnv env ''STORED_FILE_VERIFYING_STALE_HOURS'' 24,
       rc_rejectedRetainHours = positiveIntEnv env ''STORED_FILE_REJECTED_RETAIN_HOURS'' 72,
       rc_orphanGraceMinutes = positiveIntEnv env ''STORED_FILE_ORPHAN_GRACE_MINUTES'' 60,
       rc_purgeAfterDays = positiveIntEnv env ''STORED_FILE_PURGE_AFTER_DAYS'' 30,
       rc_purgeMaxBatches = nat (positiveIntEnv env ''STORED_FILE_PURGE_MAX_BATCHES'' 200) \<rparr>"

text \<open>Calls are numbered by where they stand: the scan or batch, the candidate, the call. \<open>re_scan\<close> is the order in
  which Postgres reads rows, which decides among rows of equal time.\<close>

record 's retention_env =
  re_config :: retention_config
  re_storage :: "'s storage_port"
  re_now :: instant
  re_clock :: "nat list \<Rightarrow> instant"
  re_scan :: "timed_row list \<Rightarrow> timed_row list"
  re_between :: "nat list \<Rightarrow> 's retention_world \<Rightarrow> 's retention_world"
  re_db :: "nat list \<Rightarrow> db_fault"

type_synonym ('s, 'a) retention_action = "('s retention_world, 'a) action"

definition db_call :: "'s retention_env \<Rightarrow> nat list \<Rightarrow> ('s, 'a) retention_action \<Rightarrow> ('s, 'a) retention_action" where
  "db_call env i m w =
     (let w' = re_between env i w in
      case re_db env i of
        Healthy \<Rightarrow> m w'
      | Refused e \<Rightarrow> (Inl e, w')
      | Unacknowledged e \<Rightarrow> (Inl e, snd (m w')))"

definition store_call :: "'s retention_env \<Rightarrow> nat list \<Rightarrow> ('s, 'a) action \<Rightarrow> ('s, 'a) retention_action" where
  "store_call env i m w = zoom rw_store (\<lambda>s w. w \<lparr> rw_store := s \<rparr>) m (re_between env i w)"

section \<open>Candidates\<close>

record file_candidate =
  fc_id :: id
  fc_key :: string
  fc_bucket :: string
  fc_status :: stored_file_status
  fc_updatedAt :: instant

definition candidate_of :: "timed_row \<Rightarrow> file_candidate" where
  "candidate_of r =
     \<lparr> fc_id = sf_id (sr_file r), fc_key = sf_key (sr_file r), fc_bucket = sf_bucket (sr_file r),
       fc_status = sf_status (sr_file r), fc_updatedAt = tr_updatedAt r \<rparr>"

definition candidates :: "'s retention_env \<Rightarrow> (timed_row \<Rightarrow> instant) \<Rightarrow> (timed_row \<Rightarrow> bool) \<Rightarrow> timed_row list \<Rightarrow> file_candidate list" where
  "candidates env time sel rows =
     map candidate_of (take (rc_batchSize (re_config env)) (sort_key time (re_scan env (filter sel rows))))"

definition isUnverified :: "stored_file_status \<Rightarrow> bool" where
  "isUnverified s \<longleftrightarrow> s = FINALIZING \<or> s = VERIFYING"

text \<open>A failed HEAD spares the file for this run; that the object is there is only logged.\<close>

definition confirmUnverifiedObject :: "'s retention_env \<Rightarrow> nat list \<Rightarrow> file_candidate \<Rightarrow> ('s, bool) retention_action" where
  "confirmUnverifiedObject env i c =
     catchE (bindE (store_call env i (st_head (re_storage env) (fc_key c) (Some (fc_bucket c)))) (\<lambda>_. returnE True))
       (\<lambda>_. returnE False)"

text \<open>The claim is one UPDATE that compares the status and the time the scan saw.\<close>

definition still_as_scanned :: "file_candidate \<Rightarrow> timed_row \<Rightarrow> bool" where
  "still_as_scanned c r \<longleftrightarrow>
     sf_id (sr_file r) = fc_id c \<and> sf_status (sr_file r) = fc_status c \<and> tr_updatedAt r = fc_updatedAt c"

definition claimed_row :: "instant \<Rightarrow> file_candidate \<Rightarrow> timed_row \<Rightarrow> timed_row" where
  "claimed_row touched c r =
     r \<lparr> sr_file := (sr_file r) \<lparr> sf_status := REJECTED \<rparr>,
         sr_failureReason := (if fc_status c = REJECTED then sr_failureReason r else Some ''Lifecycle cleanup''),
         tr_updatedAt := touched \<rparr>"

definition claim_candidate :: "instant \<Rightarrow> file_candidate \<Rightarrow> ('s, nat) retention_action" where
  "claim_candidate touched c w =
     (Inr (count_rows (still_as_scanned c) (rw_rows w)),
      w \<lparr> rw_rows := update_rows (still_as_scanned c) (claimed_row touched c) (rw_rows w) \<rparr>)"

text \<open>\<open>delete\<close> throws when the row is gone, \<open>deleteMany\<close> does not.\<close>

definition delete_rows :: "id \<Rightarrow> ('s, unit) retention_action" where
  "delete_rows i w = (Inr (), w \<lparr> rw_rows := filter (\<lambda>r. sf_id (sr_file r) \<noteq> i) (rw_rows w) \<rparr>)"

definition delete_row :: "id \<Rightarrow> ('s, unit) retention_action" where
  "delete_row i w =
     (if \<exists>r \<in> set (rw_rows w). sf_id (sr_file r) = i then delete_rows i w else (Inl (Internal ''P2025''), w))"

definition reclaimCandidate :: "'s retention_env \<Rightarrow> nat list \<Rightarrow> file_candidate \<Rightarrow> ('s, bool) retention_action" where
  "reclaimCandidate env i c =
     bindE (if isUnverified (fc_status c) then confirmUnverifiedObject env (i @ [0]) c else returnE True)
       (\<lambda>go.
          if \<not> go then returnE False
          else bindE (db_call env (i @ [1]) (claim_candidate (re_clock env (i @ [1])) c))
            (\<lambda>claimed.
               if claimed = 0 then returnE False
               else thenE (store_call env (i @ [2]) (st_delete (re_storage env) (fc_key c) (Some (fc_bucket c))))
                      (thenE (db_call env (i @ [3]) (delete_row (fc_id c))) (returnE True))))"

text \<open>A scan that fails ends its part of the run, a candidate that fails only itself; the count is logged.\<close>

definition processCandidates ::
    "'s retention_env \<Rightarrow> nat \<Rightarrow> ('s, file_candidate list) retention_action \<Rightarrow> ('s, unit) retention_action" where
  "processCandidates env n fetchCandidates =
     quietly (bindE (db_call env [n] fetchCandidates)
       (each (\<lambda>(j, c). quietly (thenE (reclaimCandidate env [n, j] c) (returnE ()))) \<circ> enumerate 0))"

section \<open>The hourly and the daily run\<close>

definition stale_scan :: "'s retention_env \<Rightarrow> stored_file_status \<Rightarrow> instant \<Rightarrow> ('s, file_candidate list) retention_action" where
  "stale_scan env status cutoff =
     readE (\<lambda>w. candidates env tr_updatedAt (\<lambda>r. sf_status (sr_file r) = status \<and> tr_updatedAt r < cutoff) (rw_rows w))"

definition cleanup :: "'s retention_env \<Rightarrow> bool \<Rightarrow> bool \<Rightarrow> ('s, unit) retention_action" where
  "cleanup env leader running =
     (if \<not> leader \<or> running then returnE ()
      else
        thenE (processCandidates env 0 (stale_scan env REJECTED
                (re_now env - rc_rejectedRetainHours (re_config env) * 3600000)))
          (thenE (processCandidates env 1 (stale_scan env FINALIZING
                (re_now env - rc_finalizingStaleMinutes (re_config env) * 60000)))
            (processCandidates env 2 (stale_scan env VERIFYING
                (re_now env - rc_verifyingStaleHours (re_config env) * 3600000)))))"

definition orphan_cutoff :: "'s retention_env \<Rightarrow> instant" where
  "orphan_cutoff env = re_now env - rc_orphanGraceMinutes (re_config env) * 60000"

definition ownerless_scan :: "'s retention_env \<Rightarrow> ('s, file_candidate list) retention_action" where
  "ownerless_scan env =
     readE (\<lambda>w. candidates env tr_updatedAt
       (\<lambda>r. sf_userId (sr_file r) \<notin> set (rw_users w) \<and> tr_updatedAt r < orphan_cutoff env) (rw_rows w))"

definition homeless_scan :: "'s retention_env \<Rightarrow> ('s, file_candidate list) retention_action" where
  "homeless_scan env =
     readE (\<lambda>w. candidates env tr_updatedAt
       (\<lambda>r. sf_organizationId (sr_file r) \<notin> set (rw_organizations w) \<and> tr_updatedAt r < orphan_cutoff env) (rw_rows w))"

definition cleanupOrphaned :: "'s retention_env \<Rightarrow> bool \<Rightarrow> bool \<Rightarrow> ('s, unit) retention_action" where
  "cleanupOrphaned env leader running =
     (if \<not> leader \<or> running then returnE ()
      else thenE (processCandidates env 3 (ownerless_scan env)) (processCandidates env 4 (homeless_scan env)))"

section \<open>The purge of deleted files\<close>

definition purge_cutoff :: "'s retention_env \<Rightarrow> instant" where
  "purge_cutoff env = re_now env - rc_purgeAfterDays (re_config env) * 86400000"

definition deleted_before :: "instant \<Rightarrow> timed_row \<Rightarrow> bool" where
  "deleted_before cutoff r \<longleftrightarrow> (case sr_deletedAt r of None \<Rightarrow> False | Some d \<Rightarrow> d < cutoff)"

definition deleted_scan :: "'s retention_env \<Rightarrow> ('s, file_candidate list) retention_action" where
  "deleted_scan env =
     readE (\<lambda>w. candidates env (\<lambda>r. the (sr_deletedAt r)) (deleted_before (purge_cutoff env)) (rw_rows w))"

definition purge_one :: "'s retention_env \<Rightarrow> nat list \<Rightarrow> file_candidate \<Rightarrow> ('s, nat) retention_action" where
  "purge_one env i c =
     catchE
       (thenE (store_call env (i @ [0]) (st_delete (re_storage env) (fc_key c) (Some (fc_bucket c))))
         (thenE (db_call env (i @ [1]) (delete_rows (fc_id c))) (returnE 1)))
       (\<lambda>_. returnE 0)"

fun purgeBatch :: "'s retention_env \<Rightarrow> nat list \<Rightarrow> nat \<Rightarrow> file_candidate list \<Rightarrow> ('s, nat) retention_action" where
  "purgeBatch env i j [] = returnE 0"
| "purgeBatch env i j (c # cs) =
     bindE (purge_one env (i @ [j]) c) (\<lambda>n. bindE (purgeBatch env i (Suc j) cs) (\<lambda>m. returnE (n + m)))"

fun purge_files :: "'s retention_env \<Rightarrow> nat \<Rightarrow> nat \<Rightarrow> ('s, unit) retention_action" where
  "purge_files env batch 0 = returnE ()"
| "purge_files env batch (Suc left) =
     bindE (db_call env [5, batch] (deleted_scan env))
       (\<lambda>cs.
          if cs = [] then returnE ()
          else bindE (purgeBatch env [5, batch] 0 cs)
            (\<lambda>purged.
               if purged = 0 \<or> length cs < rc_batchSize (re_config env) then returnE ()
               else purge_files env (Suc batch) left))"

definition purgeSoftDeleted :: "'s retention_env \<Rightarrow> bool \<Rightarrow> bool \<Rightarrow> ('s, unit) retention_action" where
  "purgeSoftDeleted env leader running =
     (if \<not> leader \<or> running then returnE ()
      else quietly (purge_files env 0 (rc_purgeMaxBatches (re_config env))))"

section \<open>What a run retains\<close>

text \<open>A file whatever its status: what no request changes.\<close>

definition static_file :: "timed_row \<Rightarrow> stored_file" where
  "static_file r = withStatus FINALIZING (sr_file r)"

definition files_ok :: "'s retention_world \<Rightarrow> bool" where
  "files_ok w \<longleftrightarrow>
     distinct (map static_file (rw_rows w)) \<and> static_file ` set (rw_rows w) \<subseteq> set (rw_log w) \<and>
     (\<forall>f \<in> set (rw_log w). \<forall>g \<in> set (rw_log w). sf_id f = sf_id g \<or> sf_key f = sf_key g \<longrightarrow> f = g)"

text \<open>The users and organizations that exist throughout, and the time up to which deleted files are given up.\<close>

record keepers =
  kp_users :: "id list"
  kp_organizations :: "id list"
  kp_cutoff :: instant

definition well :: "keepers \<Rightarrow> 's retention_world \<Rightarrow> bool" where
  "well kp w \<longleftrightarrow>
     files_ok w \<and> set (kp_users kp) \<subseteq> set (rw_users w) \<and> set (kp_organizations kp) \<subseteq> set (rw_organizations w)"

definition in_use :: "keepers \<Rightarrow> timed_row \<Rightarrow> bool" where
  "in_use kp r \<longleftrightarrow>
     sf_status (sr_file r) = READY \<and> \<not> deleted_before (kp_cutoff kp) r \<and>
     sf_userId (sr_file r) \<in> set (kp_users kp) \<and> sf_organizationId (sr_file r) \<in> set (kp_organizations kp)"

definition given_up :: "keepers \<Rightarrow> stored_file \<Rightarrow> 's retention_world \<Rightarrow> bool" where
  "given_up kp f w \<longleftrightarrow>
     (\<forall>r \<in> set (rw_rows w). static_file r = f \<longrightarrow>
        sf_status (sr_file r) = REJECTED \<or> deleted_before (kp_cutoff kp) r)"

definition absent :: "('s \<Rightarrow> string \<Rightarrow> string \<Rightarrow> bytes option) \<Rightarrow> stored_file \<Rightarrow> 's retention_world \<Rightarrow> bool" where
  "absent c f w \<longleftrightarrow> c (rw_store w) (sf_bucket f) (sf_key f) = None"

text \<open>Files in use stay with every column and their object; a file given up stays so, and its object does not come
  back; a row that goes leaves no object.\<close>

definition retains ::
    "('s \<Rightarrow> string \<Rightarrow> string \<Rightarrow> bytes option) \<Rightarrow> keepers \<Rightarrow> 's retention_world \<Rightarrow> 's retention_world \<Rightarrow> bool" where
  "retains c kp w w' \<longleftrightarrow>
     (well kp w \<longrightarrow>
        well kp w' \<and> set (rw_log w) \<subseteq> set (rw_log w') \<and>
        (\<forall>f \<in> set (rw_log w). given_up kp f w \<longrightarrow> given_up kp f w' \<and> (absent c f w \<longrightarrow> absent c f w')) \<and>
        (\<forall>r \<in> set (rw_rows w). in_use kp r \<longrightarrow>
           (\<exists>r' \<in> set (rw_rows w'). sr_file r' = sr_file r \<and> in_use kp r' \<and>
              object_kept c (rw_store w) (rw_store w') (sr_file r))) \<and>
        (\<forall>r \<in> set (rw_rows w). static_file r \<notin> static_file ` set (rw_rows w') \<longrightarrow> absent c (static_file r) w'))"

lemma static_facts [simp]:
  "sf_id (static_file r) = sf_id (sr_file r)" "sf_key (static_file r) = sf_key (sr_file r)"
  "sf_bucket (static_file r) = sf_bucket (sr_file r)" "sf_userId (static_file r) = sf_userId (sr_file r)"
  "sf_organizationId (static_file r) = sf_organizationId (sr_file r)"
  by (simp_all add: static_file_def withStatus_def)

lemma logged: "files_ok w \<Longrightarrow> r \<in> set (rw_rows w) \<Longrightarrow> static_file r \<in> set (rw_log w)"
  by (auto simp: files_ok_def)

lemma one_row: "files_ok w \<Longrightarrow> r \<in> set (rw_rows w) \<Longrightarrow> r' \<in> set (rw_rows w) \<Longrightarrow> static_file r = static_file r' \<Longrightarrow> r = r'"
  by (auto simp: files_ok_def distinct_map inj_on_def)

lemma one_file:
  "files_ok w \<Longrightarrow> f \<in> set (rw_log w) \<Longrightarrow> g \<in> set (rw_log w) \<Longrightarrow> sf_id f = sf_id g \<or> sf_key f = sf_key g \<Longrightarrow> f = g"
  by (auto simp: files_ok_def)

lemma retains_refl: "retains c kp w w"
  by (auto simp: retains_def object_kept_def)

lemma retains_trans:
  assumes "retains c kp w w1" "retains c kp w1 w2"
  shows "retains c kp w w2"
proof (cases "well kp w")
  case True
  then have w: "files_ok w" and w1: "well kp w1" "files_ok w1"
    using assms(1) by (auto simp: retains_def well_def)
  show ?thesis
    unfolding retains_def
  proof (intro impI conjI ballI)
    show "well kp w2" "set (rw_log w) \<subseteq> set (rw_log w2)"
      using assms True w1 by (auto simp: retains_def)
    fix f assume f: "f \<in> set (rw_log w)" "given_up kp f w"
    then have 1: "f \<in> set (rw_log w1)" "given_up kp f w1" "absent c f w \<longrightarrow> absent c f w1"
      using assms(1) True by (auto simp: retains_def)
    show "given_up kp f w2" using assms(2) w1 1 by (auto simp: retains_def)
    show "absent c f w2" if "absent c f w" using assms(2) w1 1 that by (auto simp: retains_def)
  next
    fix r assume "r \<in> set (rw_rows w)" "in_use kp r"
    then obtain r1 where 1: "r1 \<in> set (rw_rows w1)" "sr_file r1 = sr_file r" "in_use kp r1"
      "object_kept c (rw_store w) (rw_store w1) (sr_file r)"
      using assms(1) True by (auto simp: retains_def)
    then obtain r2 where "r2 \<in> set (rw_rows w2)" "sr_file r2 = sr_file r1" "in_use kp r2"
      "object_kept c (rw_store w1) (rw_store w2) (sr_file r1)"
      using assms(2) w1 by (auto simp: retains_def)
    then show "\<exists>r' \<in> set (rw_rows w2). sr_file r' = sr_file r \<and> in_use kp r' \<and>
        object_kept c (rw_store w) (rw_store w2) (sr_file r)"
      using 1 by (auto simp: object_kept_def)
  next
    fix r assume r: "r \<in> set (rw_rows w)" "static_file r \<notin> static_file ` set (rw_rows w2)"
    show "absent c (static_file r) w2"
    proof (cases "static_file r \<in> static_file ` set (rw_rows w1)")
      case True
      then obtain r1 where "r1 \<in> set (rw_rows w1)" "static_file r1 = static_file r" by auto
      then show ?thesis using assms(2) w1 r(2) unfolding retains_def by metis
    next
      case False
      then have "given_up kp (static_file r) w1" unfolding given_up_def by (metis image_eqI)
      moreover have "absent c (static_file r) w1" "static_file r \<in> set (rw_log w1)"
        using assms(1) \<open>well kp w\<close> False r(1) logged[OF w r(1)] by (auto simp: retains_def)
      ultimately show ?thesis using assms(2) w1 by (auto simp: retains_def)
    qed
  qed
qed (simp add: retains_def)

lemma retains_preorder: "preorder_on_states (retains c kp)"
  using retains_refl retains_trans by (auto simp: preorder_on_states_def intro!: reflpI transpI)

section \<open>Actions that retain\<close>

definition keeps where
  "keeps c kp P m Q \<longleftrightarrow> triple (retains c kp) (\<lambda>w. well kp w \<and> P w) m (\<lambda>r w. well kp w \<and> Q r w)"

definition stable where
  "stable c kp P \<longleftrightarrow> (\<forall>w w'. well kp w \<and> P w \<and> retains c kp w w' \<longrightarrow> P w')"

definition unharmed :: "('s \<Rightarrow> string \<Rightarrow> string \<Rightarrow> bytes option) \<Rightarrow> keepers \<Rightarrow> 's retention_env \<Rightarrow> bool" where
  "unharmed c kp env \<longleftrightarrow> (\<forall>i w. retains c kp w (re_between env i w))"

lemma keepsI:
  assumes "\<And>w. well kp w \<Longrightarrow> P w \<Longrightarrow> retains c kp w (snd (m w)) \<and> Q (fst (m w)) (snd (m w))"
  shows "keeps c kp P m Q"
  unfolding keeps_def by (rule tripleI) (use assms in \<open>auto simp: retains_def\<close>)

lemma keepsD:
  assumes "keeps c kp P m Q" "well kp w" "P w"
  shows "retains c kp w (snd (m w))" "well kp (snd (m w))" "Q (fst (m w)) (snd (m w))"
  using assms by (auto simp: keeps_def triple_def)

lemma keeps_weaken:
  "keeps c kp P' m Q' \<Longrightarrow> (\<And>w. P w \<Longrightarrow> P' w) \<Longrightarrow> (\<And>r w. Q' r w \<Longrightarrow> Q r w) \<Longrightarrow> keeps c kp P m Q"
  unfolding keeps_def by (erule triple_weaken) auto

lemma keeps_return: "(\<And>w. P w \<Longrightarrow> Q (Inr x) w) \<Longrightarrow> keeps c kp P (returnE x) Q"
  by (rule keepsI) (simp add: returnE_def retains_refl)

lemma keeps_bind:
  assumes "keeps c kp P m R" "\<And>x. keeps c kp (R (Inr x)) (f x) Q" "\<And>e w. R (Inl e) w \<Longrightarrow> Q (Inl e) w"
  shows "keeps c kp P (bindE m f) Q"
  unfolding keeps_def by (rule triple_bind[OF retains_preorder assms(1)[unfolded keeps_def]])
    (use assms(2)[unfolded keeps_def] assms(3) in auto)

lemma keeps_then:
  assumes "keeps c kp P m R" "keeps c kp (R (Inr ())) n Q" "\<And>e w. R (Inl e) w \<Longrightarrow> Q (Inl e) w"
  shows "keeps c kp P (thenE m n) Q"
  unfolding thenE_def by (rule keeps_bind[OF assms(1)]) (use assms(2,3) in simp_all)

lemma keeps_catch:
  assumes "keeps c kp P m R" "\<And>e. keeps c kp (R (Inl e)) (h e) Q" "\<And>x w. R (Inr x) w \<Longrightarrow> Q (Inr x) w"
  shows "keeps c kp P (catchE m h) Q"
  unfolding keeps_def by (rule triple_catch[OF retains_preorder assms(1)[unfolded keeps_def]])
    (use assms(2)[unfolded keeps_def] assms(3) in auto)

lemma keeps_quietly: "keeps c kp P m (\<lambda>_ _. True) \<Longrightarrow> keeps c kp P (quietly m) (\<lambda>_ _. True)"
  unfolding quietly_def by (rule keeps_catch, assumption) (auto intro: keeps_return)

lemma keeps_stable:
  assumes "keeps c kp P m Q" "stable c kp I"
  shows "keeps c kp (\<lambda>w. P w \<and> I w) m (\<lambda>r w. Q r w \<and> I w)"
proof (rule keepsI)
  fix w assume w: "well kp w" "P w \<and> I w"
  then have "retains c kp w (snd (m w))" "Q (fst (m w)) (snd (m w))" using keepsD[OF assms(1)] by auto
  moreover have "I (snd (m w))" using assms(2) w \<open>retains c kp w (snd (m w))\<close> unfolding stable_def by blast
  ultimately show "retains c kp w (snd (m w)) \<and> Q (fst (m w)) (snd (m w)) \<and> I (snd (m w))" by blast
qed

lemma keeps_each:
  assumes "stable c kp I" "\<And>x. x \<in> set xs \<Longrightarrow> keeps c kp I (f x) (\<lambda>_ _. True)"
  shows "keeps c kp I (each f xs) (\<lambda>_ _. True)"
proof -
  have "keeps c kp I (f x) (\<lambda>_ w. I w)" if "x \<in> set xs" for x
    using keeps_stable[OF assms(2)[OF that] assms(1)] by (rule keeps_weaken) auto
  then have "triple (retains c kp) (\<lambda>w. well kp w \<and> I w) (each f xs) (\<lambda>_ w. well kp w \<and> I w)"
    unfolding keeps_def by (intro triple_each[OF retains_preorder]) auto
  then show ?thesis unfolding keeps_def by (rule triple_weaken) auto
qed

lemma keeps_between:
  assumes "unharmed c kp env" "stable c kp P" "keeps c kp P m Q"
  shows "keeps c kp P (\<lambda>w. m (re_between env i w)) Q"
proof (rule keepsI)
  fix w assume w: "well kp w" "P w"
  have b: "retains c kp w (re_between env i w)" using assms(1) by (simp add: unharmed_def)
  then have "well kp (re_between env i w)" "P (re_between env i w)"
    using assms(2) w unfolding stable_def by (auto simp: retains_def)
  from keepsD[OF assms(3) this] show "retains c kp w (snd (m (re_between env i w))) \<and>
      Q (fst (m (re_between env i w))) (snd (m (re_between env i w)))"
    using retains_trans[OF b] by blast
qed

lemma keeps_db:
  assumes "unharmed c kp env" "stable c kp P" "keeps c kp P m Q" "\<And>e w. Q (Inl e) w"
  shows "keeps c kp P (db_call env i m) Q"
proof -
  have "keeps c kp P (\<lambda>w. case re_db env i of Healthy \<Rightarrow> m w | Refused e \<Rightarrow> (Inl e, w)
      | Unacknowledged e \<Rightarrow> (Inl e, snd (m w))) Q"
    by (rule keepsI, cases "re_db env i") (auto simp: retains_refl assms(4) dest: keepsD[OF assms(3)])
  from keeps_between[OF assms(1,2) this, of i] show ?thesis by (simp add: db_call_def[abs_def] Let_def)
qed

lemma keeps_store:
  assumes "unharmed c kp env" "stable c kp P" "keeps c kp P (zoom rw_store (\<lambda>s w. w \<lparr> rw_store := s \<rparr>) m) Q"
  shows "keeps c kp P (store_call env i m) Q"
  using keeps_between[OF assms, of i] by (simp add: store_call_def[abs_def])

section \<open>The calls of a run\<close>

text \<open>A candidate names a file; if the scan saw it READY, its owner is gone.\<close>

definition targets :: "keepers \<Rightarrow> stored_file \<Rightarrow> file_candidate \<Rightarrow> 's retention_world \<Rightarrow> bool" where
  "targets kp f c w \<longleftrightarrow>
     f \<in> set (rw_log w) \<and> fc_id c = sf_id f \<and> fc_key c = sf_key f \<and> fc_bucket c = sf_bucket f \<and>
     (fc_status c = READY \<longrightarrow> sf_userId f \<notin> set (kp_users kp) \<or> sf_organizationId f \<notin> set (kp_organizations kp))"

lemma stable_targets: "stable c kp (targets kp f d)"
  by (auto simp: stable_def targets_def retains_def)

lemma stable_true: "stable c kp (\<lambda>_. True)"
  by (simp add: stable_def)

lemma stable_conj: "stable c kp P \<Longrightarrow> stable c kp Q \<Longrightarrow> stable c kp (\<lambda>w. P w \<and> Q w)"
  by (auto simp: stable_def)

lemma stable_all: "(\<And>x. x \<in> A \<Longrightarrow> stable c kp (P x)) \<Longrightarrow> stable c kp (\<lambda>w. \<forall>x \<in> A. P x w)"
  by (auto simp: stable_def)

lemma stable_ex: "(\<And>x. stable c kp (P x)) \<Longrightarrow> stable c kp (\<lambda>w. \<exists>x. P x w)"
  by (auto simp: stable_def)

lemma stable_given_up: "stable c kp (\<lambda>w. f \<in> set (rw_log w) \<and> given_up kp f w)"
  by (auto simp: stable_def retains_def)

lemma stable_absent: "stable c kp (\<lambda>w. f \<in> set (rw_log w) \<and> given_up kp f w \<and> absent c f w)"
  by (auto simp: stable_def retains_def)

lemma in_use_not_given_up:
  "in_use kp r \<Longrightarrow> r \<in> set (rw_rows w) \<Longrightarrow> given_up kp (static_file r) w \<Longrightarrow> False"
  by (auto simp: in_use_def given_up_def)

text \<open>A change of the rows alone: each row stays the same file, and those in use stay as they are.\<close>

lemma retains_rows:
  assumes "\<And>r. static_file (g r) = static_file r" "\<And>r. sr_deletedAt (g r) = sr_deletedAt r"
    and "\<And>r. sf_status (sr_file r) = REJECTED \<Longrightarrow> sf_status (sr_file (g r)) = REJECTED"
    and "\<And>r. r \<in> set (rw_rows w) \<Longrightarrow> in_use kp r \<Longrightarrow> g r = r"
  shows "retains c kp w (w \<lparr> rw_rows := map g (rw_rows w) \<rparr>)"
proof -
  have st: "map (static_file \<circ> g) (rw_rows w) = map static_file (rw_rows w)" by (simp add: assms(1))
  have si: "static_file ` g ` set (rw_rows w) = static_file ` set (rw_rows w)" by (simp add: image_image assms(1))
  have "given_up kp f w \<Longrightarrow> given_up kp f (w \<lparr> rw_rows := map g (rw_rows w) \<rparr>)" for f
    using assms(1-3) by (auto simp: given_up_def deleted_before_def)
  moreover have "\<exists>r' \<in> set (map g (rw_rows w)). sr_file r' = sr_file r \<and> in_use kp r'"
    if "r \<in> set (rw_rows w)" "in_use kp r" for r
    using assms(4)[OF that] that by (metis image_eqI list.set_map)
  ultimately show ?thesis
    using si unfolding retains_def well_def files_ok_def
    by (simp add: absent_def object_kept_def st del: map_eq_conv)
qed

lemma static_claimed [simp]: "static_file (claimed_row t c r) = static_file r"
  by (simp add: static_file_def withStatus_def claimed_row_def)

lemma keeps_claim:
  "keeps cs kp (targets kp f c) (claim_candidate t c)
     (\<lambda>r w. targets kp f c w \<and> (\<forall>n. r = Inr n \<and> n \<noteq> 0 \<longrightarrow> given_up kp f w))"
proof (rule keepsI)
  fix w :: "'a retention_world"
  assume w: "well kp w" and t: "targets kp f c w"
  then have ok: "files_ok w" by (simp add: well_def)
  let ?g = "\<lambda>r. if still_as_scanned c r then claimed_row t c r else r"
  let ?w = "w \<lparr> rw_rows := map ?g (rw_rows w) \<rparr>"
  have m: "claim_candidate t c w = (Inr (count_rows (still_as_scanned c) (rw_rows w)), ?w)"
    by (simp add: claim_candidate_def update_rows_def)
  have own: "static_file r = f" if "r \<in> set (rw_rows w)" "still_as_scanned c r" for r
    using one_file[OF ok logged[OF ok that(1)], of f] t that by (auto simp: targets_def still_as_scanned_def)
  have "retains cs kp w ?w"
  proof (rule retains_rows)
    fix r assume r: "r \<in> set (rw_rows w)" "in_use kp r"
    have "\<not> still_as_scanned c r"
    proof
      assume s: "still_as_scanned c r"
      have "sf_userId f = sf_userId (sr_file r)" "sf_organizationId f = sf_organizationId (sr_file r)"
        unfolding own[OF r(1) s, symmetric] by simp_all
      then show False using s r(2) t unfolding targets_def in_use_def still_as_scanned_def by simp
    qed
    then show "?g r = r" by simp
  next
    fix r :: timed_row
    show "static_file (?g r) = static_file r" by simp
    show "sr_deletedAt (?g r) = sr_deletedAt r" by (simp add: claimed_row_def)
    show "sf_status (sr_file (?g r)) = REJECTED" if "sf_status (sr_file r) = REJECTED"
      using that by (simp add: claimed_row_def)
  qed
  moreover have "given_up kp f ?w" if n: "count_rows (still_as_scanned c) (rw_rows w) \<noteq> 0"
  proof -
    obtain r where r: "r \<in> set (rw_rows w)" "still_as_scanned c r" using n count_rows_pos by (metis gr0I)
    have "sf_status (sr_file (?g r')) = REJECTED" if r': "r' \<in> set (rw_rows w)" "static_file r' = f" for r'
      using one_row[OF ok r'(1) r(1)] r' own[OF r] r(2) by (simp add: claimed_row_def)
    then have rej: "\<And>r'. r' \<in> set (rw_rows w) \<Longrightarrow> static_file r' = f \<Longrightarrow> sf_status (sr_file (?g r')) = REJECTED" .
    have st: "static_file (?g r') = static_file r'" for r' by simp
    have rows: "rw_rows ?w = map ?g (rw_rows w)" by simp
    show ?thesis
      unfolding given_up_def rows
    proof (intro ballI impI disjI1)
      fix x assume "x \<in> set (map ?g (rw_rows w))" "static_file x = f"
      then obtain r' where r': "r' \<in> set (rw_rows w)" "x = ?g r'" unfolding set_map by blast
      then have "static_file r' = f" using st[of r'] \<open>static_file x = f\<close> by simp
      then show "sf_status (sr_file x) = REJECTED" using rej[OF r'(1)] r'(2) by simp
    qed
  qed
  moreover have "targets kp f c ?w" using t by (simp add: targets_def)
  ultimately show "retains cs kp w (snd (claim_candidate t c w)) \<and> targets kp f c (snd (claim_candidate t c w)) \<and>
     (\<forall>n. fst (claim_candidate t c w) = Inr n \<and> n \<noteq> 0 \<longrightarrow> given_up kp f (snd (claim_candidate t c w)))"
    unfolding m by simp
qed

text \<open>A row goes once its file is given up and its object is absent.\<close>

lemma retains_filter:
  assumes "well kp w" "f \<in> set (rw_log w)" "given_up kp f w" "absent c f w" "sf_id f = i"
  shows "retains c kp w (w \<lparr> rw_rows := filter (\<lambda>r. sf_id (sr_file r) \<noteq> i) (rw_rows w) \<rparr>)"
proof -
  let ?w = "w \<lparr> rw_rows := filter (\<lambda>r. sf_id (sr_file r) \<noteq> i) (rw_rows w) \<rparr>"
  have ok: "files_ok w" using assms(1) by (simp add: well_def)
  have own: "static_file r = f" if "r \<in> set (rw_rows w)" "sf_id (sr_file r) = i" for r
    using one_file[OF ok logged[OF ok that(1)] assms(2)] that assms(5) by simp
  have "files_ok ?w"
    using ok by (auto simp: files_ok_def distinct_map intro: inj_on_subset)
  then have "well kp ?w" using assms(1) by (simp add: well_def)
  moreover have "given_up kp g ?w" if "given_up kp g w" for g using that by (auto simp: given_up_def)
  moreover have "r \<in> set (rw_rows ?w)" if "r \<in> set (rw_rows w)" "in_use kp r" for r
    using own[OF that(1)] in_use_not_given_up[OF that(2,1)] assms(3) that(1) by auto
  moreover have "absent c (static_file r) w" if "r \<in> set (rw_rows w)" "static_file r \<notin> static_file ` set (rw_rows ?w)" for r
    using own[OF that(1)] that assms(4) by auto
  ultimately show ?thesis
    unfolding retains_def by (simp add: absent_def object_kept_def) blast
qed

lemma keeps_delete_rows:
  "sf_id f = i \<Longrightarrow> keeps c kp (\<lambda>w. f \<in> set (rw_log w) \<and> given_up kp f w \<and> absent c f w) (delete_rows i) (\<lambda>_ _. True)"
  by (rule keepsI) (auto simp: delete_rows_def intro: retains_filter)

lemma keeps_delete_row:
  "sf_id f = i \<Longrightarrow> keeps c kp (\<lambda>w. f \<in> set (rw_log w) \<and> given_up kp f w \<and> absent c f w) (delete_row i) (\<lambda>_ _. True)"
  by (rule keepsI) (auto simp: delete_row_def delete_rows_def retains_refl intro: retains_filter)

lemma stable_given_targets: "stable c kp (\<lambda>w. targets kp f d w \<and> given_up kp f w)"
  using stable_targets[of c kp f d] by (auto simp: stable_def targets_def retains_def)

lemma stable_gone_targets: "stable c kp (\<lambda>w. targets kp f d w \<and> given_up kp f w \<and> absent c f w)"
  using stable_targets[of c kp f d] by (auto simp: stable_def targets_def retains_def)

context storage_provider
begin

lemma retains_store:
  assumes "\<And>r. r \<in> set (rw_rows w) \<Longrightarrow> in_use kp r \<Longrightarrow>
      contents s (sf_bucket (sr_file r)) (sf_key (sr_file r)) = contents (rw_store w) (sf_bucket (sr_file r)) (sf_key (sr_file r))"
    and "\<And>b k. contents (rw_store w) b k = None \<Longrightarrow> contents s b k = None"
  shows "retains contents kp w (w \<lparr> rw_store := s \<rparr>)"
  using assms by (auto simp: retains_def well_def files_ok_def given_up_def absent_def object_kept_def)

lemma keeps_head:
  assumes "unharmed contents kp env" "stable contents kp P"
  shows "keeps contents kp P (store_call env i (st_head port k ob)) (\<lambda>_ w. P w)"
proof -
  have "keeps contents kp (\<lambda>_. True) (zoom rw_store (\<lambda>s w. w \<lparr> rw_store := s \<rparr>) (st_head port k ob)) (\<lambda>_ _. True)"
    by (rule keepsI) (auto simp: zoom_def head_reads case_prod_unfold intro: retains_store)
  from keeps_stable[OF this assms(2)]
  have "keeps contents kp P (zoom rw_store (\<lambda>s w. w \<lparr> rw_store := s \<rparr>) (st_head port k ob)) (\<lambda>_ w. P w)"
    by (rule keeps_weaken) simp_all
  then show ?thesis by (rule keeps_store[OF assms])
qed

lemma keeps_delete_object:
  "keeps contents kp (\<lambda>w. targets kp f c w \<and> given_up kp f w)
     (zoom rw_store (\<lambda>s w. w \<lparr> rw_store := s \<rparr>) (st_delete port (fc_key c) (Some (fc_bucket c))))
     (\<lambda>r w. r = Inr () \<longrightarrow> targets kp f c w \<and> given_up kp f w \<and> absent contents f w)"
proof (rule keepsI)
  fix w :: "'s retention_world"
  assume w: "well kp w" and t: "targets kp f c w \<and> given_up kp f w"
  then have ok: "files_ok w" by (simp add: well_def)
  let ?d = "st_delete port (fc_key c) (Some (fc_bucket c)) (rw_store w)"
  have "retains contents kp w (w \<lparr> rw_store := snd ?d \<rparr>)"
  proof (rule retains_store)
    fix r assume r: "r \<in> set (rw_rows w)" "in_use kp r"
    have "sf_key (sr_file r) \<noteq> fc_key c"
    proof
      assume "sf_key (sr_file r) = fc_key c"
      then have "static_file r = f" using one_file[OF ok logged[OF ok r(1)], of f] t by (auto simp: targets_def)
      then show False using in_use_not_given_up[OF r(2,1)] t by simp
    qed
    then show "contents (snd ?d) (sf_bucket (sr_file r)) (sf_key (sr_file r))
        = contents (rw_store w) (sf_bucket (sr_file r)) (sf_key (sr_file r))"
      by (intro delete_frame) simp
  qed (rule delete_writes_nothing)
  moreover have "targets kp f c (w \<lparr> rw_store := snd ?d \<rparr>) \<and> given_up kp f (w \<lparr> rw_store := snd ?d \<rparr>)"
    using t by (simp add: targets_def given_up_def)
  moreover have "absent contents f (w \<lparr> rw_store := snd ?d \<rparr>)" if "fst ?d = Inr ()"
    using delete_gone[OF that] t by (simp add: absent_def targets_def bucket_given)
  ultimately show "retains contents kp w (snd (zoom rw_store (\<lambda>s w. w \<lparr> rw_store := s \<rparr>)
        (st_delete port (fc_key c) (Some (fc_bucket c))) w)) \<and>
      (fst (zoom rw_store (\<lambda>s w. w \<lparr> rw_store := s \<rparr>) (st_delete port (fc_key c) (Some (fc_bucket c))) w) = Inr () \<longrightarrow>
       targets kp f c (snd (zoom rw_store (\<lambda>s w. w \<lparr> rw_store := s \<rparr>) (st_delete port (fc_key c) (Some (fc_bucket c))) w)) \<and>
       given_up kp f (snd (zoom rw_store (\<lambda>s w. w \<lparr> rw_store := s \<rparr>) (st_delete port (fc_key c) (Some (fc_bucket c))) w)) \<and>
       absent contents f (snd (zoom rw_store (\<lambda>s w. w \<lparr> rw_store := s \<rparr>) (st_delete port (fc_key c) (Some (fc_bucket c))) w)))"
    by (simp add: zoom_def case_prod_unfold)
qed

text \<open>Object first, row second, from a file that was given up.\<close>

lemma keeps_removal:
  assumes "unharmed contents kp env" "\<And>w. m w = delete_row (fc_id c) w \<or> m w = delete_rows (fc_id c) w"
  shows "keeps contents kp (\<lambda>w. targets kp f c w \<and> given_up kp f w)
    (thenE (store_call env i (st_delete port (fc_key c) (Some (fc_bucket c)))) (thenE (db_call env j m) (returnE x)))
    (\<lambda>_ _. True)"
proof (rule keeps_then)
  show "keeps contents kp (\<lambda>w. targets kp f c w \<and> given_up kp f w)
      (store_call env i (st_delete port (fc_key c) (Some (fc_bucket c))))
      (\<lambda>r w. r = Inr () \<longrightarrow> targets kp f c w \<and> given_up kp f w \<and> absent contents f w)"
    by (intro keeps_store[OF assms(1)] stable_given_targets keeps_delete_object)
  have "keeps contents kp (\<lambda>w. targets kp f c w \<and> given_up kp f w \<and> absent contents f w) m (\<lambda>_ _. True)"
  proof (rule keepsI)
    fix w :: "'s retention_world"
    assume w: "well kp w" and t: "targets kp f c w \<and> given_up kp f w \<and> absent contents f w"
    then have "sf_id f = fc_id c" "f \<in> set (rw_log w) \<and> given_up kp f w \<and> absent contents f w"
      by (auto simp: targets_def)
    then show "retains contents kp w (snd (m w)) \<and> True"
      using assms(2)[of w] keepsD(1)[OF keeps_delete_row[of f "fc_id c" contents kp] w]
        keepsD(1)[OF keeps_delete_rows[of f "fc_id c" contents kp] w] by auto
  qed
  from keeps_db[OF assms(1) stable_gone_targets this, of j]
  have "keeps contents kp (\<lambda>w. targets kp f c w \<and> given_up kp f w \<and> absent contents f w) (db_call env j m) (\<lambda>_ _. True)"
    by simp
  then show "keeps contents kp (\<lambda>w. Inr () = Inr () \<longrightarrow> targets kp f c w \<and> given_up kp f w \<and> absent contents f w)
      (thenE (db_call env j m) (returnE x)) (\<lambda>_ _. True)"
    by (intro keeps_then[where R = "\<lambda>_ _. True"] keeps_return) (erule keeps_weaken, simp_all)
qed simp

lemma keeps_confirm_unverified:
  assumes "unharmed contents kp env" "re_storage env = port"
  shows "keeps contents kp (targets kp f c) (confirmUnverifiedObject env i c) (\<lambda>_ w. targets kp f c w)"
  unfolding confirmUnverifiedObject_def assms(2)
  by (rule keeps_catch[where R = "\<lambda>_ w. targets kp f c w"],
      rule keeps_bind[where R = "\<lambda>_ w. targets kp f c w"], rule keeps_head[OF assms(1) stable_targets])
    (auto intro: keeps_return)

lemma keeps_reclaim:
  assumes "unharmed contents kp env" "re_storage env = port"
  shows "keeps contents kp (targets kp f c) (reclaimCandidate env i c) (\<lambda>_ _. True)"
  unfolding reclaimCandidate_def assms(2)
proof (rule keeps_bind[where R = "\<lambda>_ w. targets kp f c w"])
  show "keeps contents kp (targets kp f c)
      (if isUnverified (fc_status c) then confirmUnverifiedObject env (i @ [0]) c else returnE True) (\<lambda>_ w. targets kp f c w)"
    using keeps_confirm_unverified[OF assms] by (auto intro: keeps_return)
  fix go
  have claim: "keeps contents kp (targets kp f c) (db_call env (i @ [1]) (claim_candidate (re_clock env (i @ [1])) c))
      (\<lambda>r w. \<forall>n. r = Inr n \<longrightarrow> targets kp f c w \<and> (n \<noteq> 0 \<longrightarrow> given_up kp f w))"
    by (rule keeps_db[OF assms(1) stable_targets]) (rule keeps_weaken[OF keeps_claim], auto)
  have rest: "keeps contents kp (\<lambda>w. \<forall>n'. Inr n = Inr n' \<longrightarrow> targets kp f c w \<and> (n' \<noteq> 0 \<longrightarrow> given_up kp f w))
      (if n = 0 then returnE False
       else thenE (store_call env (i @ [2]) (st_delete port (fc_key c) (Some (fc_bucket c))))
              (thenE (db_call env (i @ [3]) (delete_row (fc_id c))) (returnE True))) (\<lambda>_ _. True)" for n
  proof (cases "n = 0")
    case False
    then show ?thesis
      using keeps_removal[OF assms(1), of "delete_row (fc_id c)" c f "i @ [2]" "i @ [3]" True]
      by (auto elim: keeps_weaken)
  qed (auto intro: keeps_return)
  show "keeps contents kp (targets kp f c)
      (if \<not> go then returnE False
       else bindE (db_call env (i @ [1]) (claim_candidate (re_clock env (i @ [1])) c))
         (\<lambda>claimed. if claimed = 0 then returnE False
            else thenE (store_call env (i @ [2]) (st_delete port (fc_key c) (Some (fc_bucket c))))
                   (thenE (db_call env (i @ [3]) (delete_row (fc_id c))) (returnE True)))) (\<lambda>_ _. True)"
    using keeps_bind[OF claim rest] by (auto intro: keeps_return)
qed simp

lemma keeps_process:
  assumes "unharmed contents kp env" "re_storage env = port"
    and "keeps contents kp (\<lambda>_. True) fetch (\<lambda>r w. \<forall>cs. r = Inr cs \<longrightarrow> (\<forall>c \<in> set cs. \<exists>f. targets kp f c w))"
  shows "keeps contents kp (\<lambda>_. True) (processCandidates env n fetch) (\<lambda>_ _. True)"
  unfolding processCandidates_def
proof (rule keeps_quietly, rule keeps_bind)
  show "keeps contents kp (\<lambda>_. True) (db_call env [n] fetch)
      (\<lambda>r w. \<forall>cs. r = Inr cs \<longrightarrow> (\<forall>c \<in> set cs. \<exists>f. targets kp f c w))"
    by (rule keeps_db[OF assms(1) stable_true assms(3)]) simp
  fix cs
  let ?I = "\<lambda>w. \<forall>c \<in> set cs. \<exists>f. targets kp f c w"
  have I: "stable contents kp ?I" by (intro stable_all stable_ex stable_targets)
  have "keeps contents kp ?I (quietly (thenE (reclaimCandidate env [n, j] c) (returnE ()))) (\<lambda>_ _. True)"
    if "(j, c) \<in> set (enumerate 0 cs)" for j c
  proof (rule keepsI)
    fix w :: "'s retention_world"
    assume w: "well kp w" and "?I w"
    moreover have "c \<in> set cs" using that by (auto simp: in_set_enumerate_eq)
    ultimately obtain f where f: "targets kp f c w" by blast
    have "keeps contents kp (targets kp f c) (quietly (thenE (reclaimCandidate env [n, j] c) (returnE ()))) (\<lambda>_ _. True)"
      unfolding quietly_def thenE_def
      by (rule keeps_catch[where R = "\<lambda>_ _. True"], rule keeps_bind[where R = "\<lambda>_ _. True"], rule keeps_reclaim[OF assms(1,2)])
        (auto intro: keeps_return)
    from keepsD(1)[OF this w f]
    show "retains contents kp w (snd (quietly (thenE (reclaimCandidate env [n, j] c) (returnE ())) w)) \<and> True" by simp
  qed
  then have "keeps contents kp ?I (each (\<lambda>(j, c). quietly (thenE (reclaimCandidate env [n, j] c) (returnE ()))) (enumerate 0 cs)) (\<lambda>_ _. True)"
    by (intro keeps_each[OF I]) auto
  then show "keeps contents kp (\<lambda>w. \<forall>cs'. Inr cs = Inr cs' \<longrightarrow> (\<forall>c \<in> set cs'. \<exists>f. targets kp f c w))
      ((each (\<lambda>(j, c). quietly (thenE (reclaimCandidate env [n, j] c) (returnE ()))) \<circ> enumerate 0) cs) (\<lambda>_ _. True)"
    by (simp add: comp_def)
qed simp

end

text \<open>What a scan returns.\<close>

lemma in_candidates:
  assumes "c \<in> set (candidates env time sel rows)" "\<And>xs. set (re_scan env xs) \<subseteq> set xs"
  shows "\<exists>r \<in> set rows. sel r \<and> c = candidate_of r"
  using assms(1) assms(2)[of "filter sel rows"] by (auto simp: candidates_def dest!: in_set_takeD)

lemma scanned_targets:
  assumes "well kp w" "r \<in> set (rw_rows w)"
    and "sf_status (sr_file r) = READY \<Longrightarrow>
      sf_userId (sr_file r) \<notin> set (rw_users w) \<or> sf_organizationId (sr_file r) \<notin> set (rw_organizations w)"
  shows "targets kp (static_file r) (candidate_of r) w"
  using assms by (auto simp: targets_def candidate_of_def well_def dest: logged)

lemma keeps_scan:
  fixes env :: "'s retention_env" and sel :: "'s retention_world \<Rightarrow> timed_row \<Rightarrow> bool"
  assumes "\<And>xs. set (re_scan env xs) \<subseteq> set xs"
    and "\<And>w r. sel w r \<Longrightarrow> sf_status (sr_file r) = READY \<Longrightarrow>
      sf_userId (sr_file r) \<notin> set (rw_users w) \<or> sf_organizationId (sr_file r) \<notin> set (rw_organizations w)"
  shows "keeps c kp (\<lambda>_. True) (readE (\<lambda>w. candidates env time (sel w) (rw_rows w)))
     (\<lambda>r w. \<forall>cs. r = Inr cs \<longrightarrow> (\<forall>d \<in> set cs. \<exists>f. targets kp f d w))"
proof (rule keepsI)
  fix w :: "'s retention_world"
  assume w: "well kp w"
  have "\<exists>f. targets kp f d w" if d: "d \<in> set (candidates env time (sel w) (rw_rows w))" for d
  proof -
    obtain r where "r \<in> set (rw_rows w)" "sel w r" "d = candidate_of r" using in_candidates[OF d assms(1)] by blast
    then show ?thesis using scanned_targets[OF w, of r] assms(2)[of w r] by blast
  qed
  then show "retains c kp w (snd (readE (\<lambda>w. candidates env time (sel w) (rw_rows w)) w)) \<and>
      (\<forall>cs. fst (readE (\<lambda>w. candidates env time (sel w) (rw_rows w)) w) = Inr cs \<longrightarrow>
         (\<forall>d \<in> set cs. \<exists>f. targets kp f d (snd (readE (\<lambda>w. candidates env time (sel w) (rw_rows w)) w))))"
    by (simp add: readE_def retains_refl)
qed

context storage_provider
begin

lemma keeps_cleanup:
  assumes "unharmed contents kp env" "re_storage env = port" "\<And>xs. set (re_scan env xs) \<subseteq> set xs"
  shows "keeps contents kp (\<lambda>_. True) (cleanup env leader running) (\<lambda>_ _. True)"
proof -
  have "keeps contents kp (\<lambda>_. True) (processCandidates env n (stale_scan env status t)) (\<lambda>_ _. True)"
    if "status \<noteq> READY" for n status t
    unfolding stale_scan_def by (intro keeps_process[OF assms(1,2)] keeps_scan[OF assms(3)]) (use that in auto)
  then show ?thesis
    unfolding cleanup_def
    by (cases "\<not> leader \<or> running") (auto intro!: keeps_then[where R = "\<lambda>_ _. True"] keeps_return)
qed

lemma keeps_cleanup_orphaned:
  assumes "unharmed contents kp env" "re_storage env = port" "\<And>xs. set (re_scan env xs) \<subseteq> set xs"
  shows "keeps contents kp (\<lambda>_. True) (cleanupOrphaned env leader running) (\<lambda>_ _. True)"
proof -
  have "keeps contents kp (\<lambda>_. True) (processCandidates env n (ownerless_scan env)) (\<lambda>_ _. True)"
    "keeps contents kp (\<lambda>_. True) (processCandidates env n (homeless_scan env)) (\<lambda>_ _. True)" for n
    unfolding ownerless_scan_def homeless_scan_def
    by (intro keeps_process[OF assms(1,2)] keeps_scan[OF assms(3)]; auto)+
  then show ?thesis
    unfolding cleanupOrphaned_def
    by (cases "\<not> leader \<or> running") (auto intro!: keeps_then[where R = "\<lambda>_ _. True"] keeps_return)
qed

text \<open>A candidate of the purge: its status does not matter.\<close>

definition doomed :: "keepers \<Rightarrow> file_candidate \<Rightarrow> 's retention_world \<Rightarrow> bool" where
  "doomed kp c w \<longleftrightarrow> (\<exists>f. targets kp f (c \<lparr> fc_status := REJECTED \<rparr>) w \<and> given_up kp f w)"

lemma stable_doomed: "stable contents kp (doomed kp c)"
  unfolding doomed_def by (intro stable_ex stable_given_targets)

lemma keeps_purge_one:
  assumes "unharmed contents kp env" "re_storage env = port"
  shows "keeps contents kp (doomed kp c) (purge_one env i c) (\<lambda>_ _. True)"
proof (rule keepsI)
  fix w :: "'s retention_world"
  assume w: "well kp w" and "doomed kp c w"
  then obtain f where f: "targets kp f (c \<lparr> fc_status := REJECTED \<rparr>) w \<and> given_up kp f w" by (auto simp: doomed_def)
  have "keeps contents kp (\<lambda>w. targets kp f (c \<lparr> fc_status := REJECTED \<rparr>) w \<and> given_up kp f w) (purge_one env i c) (\<lambda>_ _. True)"
    unfolding purge_one_def assms(2)
    by (rule keeps_catch[where R = "\<lambda>_ _. True"])
      (use keeps_removal[OF assms(1), of "delete_rows (fc_id c)" "c \<lparr> fc_status := REJECTED \<rparr>" f "i @ [0]" "i @ [1]"]
       in \<open>auto intro: keeps_return\<close>)
  from keepsD(1)[OF this w f] show "retains contents kp w (snd (purge_one env i c w)) \<and> True" by simp
qed

lemma keeps_purge_batch:
  assumes "unharmed contents kp env" "re_storage env = port"
  shows "keeps contents kp (\<lambda>w. \<forall>c \<in> set cs. doomed kp c w) (purgeBatch env i j cs) (\<lambda>_ _. True)"
proof (induction cs arbitrary: j)
  case Nil
  show ?case by (simp add: keeps_return)
next
  case (Cons c cs)
  let ?I = "\<lambda>w. \<forall>c \<in> set cs. doomed kp c w"
  have I: "stable contents kp ?I" by (intro stable_all stable_doomed)
  have 1: "keeps contents kp (\<lambda>w. \<forall>c \<in> set (c # cs). doomed kp c w) (purge_one env (i @ [j]) c) (\<lambda>_ w. ?I w)"
    by (rule keeps_weaken[OF keeps_stable[OF keeps_purge_one[OF assms] I]]) auto
  show ?case
    unfolding purgeBatch.simps
    by (rule keeps_bind[OF 1], rule keeps_bind[where R = "\<lambda>_ _. True"], rule Cons.IH) (auto intro: keeps_return)
qed

lemma keeps_deleted_scan:
  assumes "\<And>xs. set (re_scan env xs) \<subseteq> set xs" "purge_cutoff env \<le> kp_cutoff kp"
  shows "keeps contents kp (\<lambda>_. True) (deleted_scan env) (\<lambda>r w. \<forall>cs. r = Inr cs \<longrightarrow> (\<forall>c \<in> set cs. doomed kp c w))"
proof (rule keepsI)
  fix w :: "'s retention_world"
  assume w: "well kp w"
  have "doomed kp d w"
    if d: "d \<in> set (candidates env (\<lambda>r. the (sr_deletedAt r)) (deleted_before (purge_cutoff env)) (rw_rows w))" for d
  proof -
    obtain r where r: "r \<in> set (rw_rows w)" "deleted_before (purge_cutoff env) r" "d = candidate_of r"
      using in_candidates[OF d assms(1)] by blast
    have "given_up kp (static_file r) w"
      using one_row[OF _ _ r(1)] w r(2) assms(2)
      by (fastforce simp: given_up_def well_def deleted_before_def split: option.splits)
    moreover have "targets kp (static_file r) (d \<lparr> fc_status := REJECTED \<rparr>) w"
      using r w by (auto simp: targets_def candidate_of_def well_def dest: logged)
    ultimately show ?thesis by (auto simp: doomed_def)
  qed
  then show "retains contents kp w (snd (deleted_scan env w)) \<and>
      (\<forall>cs. fst (deleted_scan env w) = Inr cs \<longrightarrow> (\<forall>c \<in> set cs. doomed kp c (snd (deleted_scan env w))))"
    by (simp add: deleted_scan_def readE_def retains_refl)
qed

lemma keeps_purge_files:
  assumes "unharmed contents kp env" "re_storage env = port" "\<And>xs. set (re_scan env xs) \<subseteq> set xs"
    and "purge_cutoff env \<le> kp_cutoff kp"
  shows "keeps contents kp (\<lambda>_. True) (purge_files env batch left) (\<lambda>_ _. True)"
proof (induction "left" arbitrary: batch)
  case 0
  show ?case by (simp add: keeps_return)
next
  case (Suc n)
  have 1: "keeps contents kp (\<lambda>_. True) (db_call env [5, batch] (deleted_scan env))
      (\<lambda>r w. \<forall>cs. r = Inr cs \<longrightarrow> (\<forall>c \<in> set cs. doomed kp c w))"
    by (rule keeps_db[OF assms(1) stable_true keeps_deleted_scan[OF assms(3,4)]]) simp
  have 2: "keeps contents kp (\<lambda>w. \<forall>c \<in> set cs. doomed kp c w)
      (bindE (purgeBatch env [5, batch] 0 cs)
        (\<lambda>purged. if purged = 0 \<or> length cs < rc_batchSize (re_config env) then returnE () else purge_files env (Suc batch) n))
      (\<lambda>_ _. True)" for cs
    by (rule keeps_bind[OF keeps_purge_batch[OF assms(1,2)]]) (auto intro: keeps_return Suc.IH)
  show ?case
    unfolding purge_files.simps
  proof (rule keeps_bind[OF 1])
    show "keeps contents kp (\<lambda>w. \<forall>cs'. Inr cs = Inr cs' \<longrightarrow> (\<forall>c \<in> set cs'. doomed kp c w))
       (if cs = [] then returnE () else bindE (purgeBatch env [5, batch] 0 cs)
          (\<lambda>purged. if purged = 0 \<or> length cs < rc_batchSize (re_config env) then returnE () else purge_files env (Suc batch) n))
       (\<lambda>_ _. True)" for cs
      using 2[of cs] by (auto intro: keeps_return)
  qed simp
qed

lemma keeps_purge_soft_deleted:
  assumes "unharmed contents kp env" "re_storage env = port" "\<And>xs. set (re_scan env xs) \<subseteq> set xs"
    and "purge_cutoff env \<le> kp_cutoff kp"
  shows "keeps contents kp (\<lambda>_. True) (purgeSoftDeleted env leader running) (\<lambda>_ _. True)"
  unfolding purgeSoftDeleted_def using keeps_purge_files[OF assms] by (auto intro: keeps_return keeps_quietly)

end

section \<open>The three runs\<close>

datatype retention_run = Reclaim_Stale | Reclaim_Orphaned | Purge_Deleted

definition retention_tick :: "'s retention_env \<Rightarrow> retention_run \<Rightarrow> bool \<Rightarrow> bool \<Rightarrow> ('s, unit) retention_action" where
  "retention_tick env run leader running =
     (case run of
        Reclaim_Stale \<Rightarrow> cleanup env leader running
      | Reclaim_Orphaned \<Rightarrow> cleanupOrphaned env leader running
      | Purge_Deleted \<Rightarrow> purgeSoftDeleted env leader running)"


text \<open>A scan finds a file that has been VERIFYING for a day; before the claim the verification ends and the file is
  READY. The claim does not match and the file stays.\<close>

definition shelf_file :: "id \<Rightarrow> stored_file_status \<Rightarrow> stored_file" where
  "shelf_file i s =
     \<lparr> sf_id = i, sf_organizationId = ''o'', sf_userId = ''u'', sf_sourceKey = ''uploads/u/'' @ i,
       sf_key = ''files/u/'' @ i, sf_bucket = ''uploads'', sf_contentType = ''image/gif'', sf_size = 6,
       sf_etag = ''e'', sf_status = s \<rparr>"

definition shelf_row :: "id \<Rightarrow> stored_file_status \<Rightarrow> timed_row" where
  "shelf_row i s =
     \<lparr> sr_file = shelf_file i s, sr_failureReason = None, sr_scanOutcome = None, sr_verifiedAt = None,
       sr_deletedAt = None, tr_updatedAt = 0 \<rparr>"

definition shelf :: "local_fs retention_world" where
  "shelf =
     \<lparr> rw_rows = [shelf_row ''f1'' READY, shelf_row ''f2'' VERIFYING], rw_store = [], rw_users = [''u''],
       rw_organizations = [''o''], rw_log = [shelf_file ''f1'' FINALIZING, shelf_file ''f2'' FINALIZING] \<rparr>"

definition finish_verification :: "timed_row \<Rightarrow> timed_row" where
  "finish_verification r =
     (if sf_status (sr_file r) = VERIFYING
      then r \<lparr> sr_file := (sr_file r) \<lparr> sf_status := READY \<rparr>, tr_updatedAt := 86400001 \<rparr> else r)"

definition shelf_env :: "local_fs retention_env" where
  "shelf_env =
     \<lparr> re_config = read_retention_config (\<lambda>_. None), re_storage = local_port (undisturbed example_local),
       re_now = 86400001, re_clock = (\<lambda>_. 86400002), re_scan = (\<lambda>xs. xs),
       re_between = (\<lambda>i w. if i = [2, 0, 1] then w \<lparr> rw_rows := map finish_verification (rw_rows w) \<rparr> else w),
       re_db = (\<lambda>_. Healthy) \<rparr>"

definition shelf_keepers :: keepers where
  "shelf_keepers = \<lparr> kp_users = [''u''], kp_organizations = [''o''], kp_cutoff = 0 \<rparr>"

lemma shelf_unharmed: "unharmed c shelf_keepers shelf_env"
proof -
  have "retains c shelf_keepers w (w \<lparr> rw_rows := map finish_verification (rw_rows w) \<rparr>)" for w
    by (rule retains_rows)
      (auto simp: finish_verification_def static_file_def withStatus_def in_use_def)
  then show ?thesis by (simp add: unharmed_def shelf_env_def retains_refl)
qed


end
