(* ===== verification/Accounts.thy ===== *)
theory Accounts
  imports Workspaces Keyed_Table
begin

text \<open>Users and their sign-in sessions (libs/modules/users, libs/modules/sessions): the entity, both
  repositories of each, their handlers, and the controllers and resolver that call them. A query is given the rows of the
  database it reads; \<open>casing\<close> is the folding of letters ILIKE uses, \<open>lower_case\<close> the one of toLowerCase.\<close>

section \<open>Users\<close>

record user_entity =
  us_id :: id
  us_email :: string
  us_name :: string
  us_role :: string
  us_status :: string
  us_createdAt :: instant
  us_updatedAt :: instant

record user_row =
  uw_id :: id
  uw_name :: string
  uw_email :: string
  uw_emailVerified :: bool
  uw_image :: "string option"
  uw_role :: string
  uw_status :: string
  uw_createdAt :: instant
  uw_updatedAt :: instant

record accounts_db =
  ac_users :: "user_row list"
  ac_members :: "workspace_member list"

definition user_mapToEntity :: "user_row \<Rightarrow> user_entity" where
  "user_mapToEntity r =
     \<lparr> us_id = uw_id r, us_email = uw_email r, us_name = uw_name r, us_role = uw_role r, us_status = uw_status r,
       us_createdAt = uw_createdAt r, us_updatedAt = uw_updatedAt r \<rparr>"

definition userAlreadyExists :: failure where
  "userAlreadyExists =
     Domain (new_domain_exception
       \<lparr> opt_kind = Some Conflict, opt_code = Some ''user_already_exists'', opt_title = Some ''common.conflict'',
         opt_messageKey = Some ''errors.users.already_exists'', opt_args = None,
         opt_violations =
           [\<lparr> vi_path = ''email'', vi_code = ''already_exists'', vi_message = ''A record with this value already exists'',
              vi_messageKey = Some ''errors.users.already_exists'', vi_rule = None, vi_constraint = None \<rparr>],
         opt_permanent = Some False \<rparr>)"

definition users_handleError :: "db_error \<Rightarrow> failure" where
  "users_handleError e = (case e of P2002 \<Rightarrow> userAlreadyExists | Other_Error f \<Rightarrow> f)"

definition db_read :: "db_fault \<Rightarrow> 'a \<Rightarrow> db_error + 'a" where
  "db_read fault x =
     (case fault of Healthy \<Rightarrow> Inr x | Refused f \<Rightarrow> Inl (Other_Error f) | Unacknowledged f \<Rightarrow> Inl (Other_Error f))"

definition translating :: "(db_error + 'a) \<Rightarrow> 'a outcome" where
  "translating res = (case res of Inl e \<Rightarrow> Inl (users_handleError e) | Inr x \<Rightarrow> Inr x)"

definition users_findById :: "db_fault \<Rightarrow> id \<Rightarrow> accounts_db \<Rightarrow> user_entity option outcome" where
  "users_findById fault i db =
     translating (db_read fault (map_option user_mapToEntity (List.find (\<lambda>r. uw_id r = i) (ac_users db))))"

definition users_findByEmail :: "db_fault \<Rightarrow> string \<Rightarrow> accounts_db \<Rightarrow> user_entity option outcome" where
  "users_findByEmail fault email db =
     translating (db_read fault (map_option user_mapToEntity (List.find (\<lambda>r. uw_email r = email) (ac_users db))))"

text \<open>The upsert: the id decides between insert and update, and either fails on an address another row has.\<close>

definition inserted_user :: "user_entity \<Rightarrow> user_row" where
  "inserted_user u =
     \<lparr> uw_id = us_id u, uw_name = us_name u, uw_email = us_email u, uw_emailVerified = False, uw_image = None,
       uw_role = us_role u, uw_status = us_status u, uw_createdAt = us_createdAt u, uw_updatedAt = us_updatedAt u \<rparr>"

definition updated_user :: "user_entity \<Rightarrow> user_row \<Rightarrow> user_row" where
  "updated_user u r =
     r \<lparr> uw_name := us_name u, uw_email := us_email u, uw_role := us_role u, uw_status := us_status u,
         uw_updatedAt := us_updatedAt u \<rparr>"

definition upsert_user :: "user_entity \<Rightarrow> accounts_db \<Rightarrow> (db_error + unit) \<times> accounts_db" where
  "upsert_user u db =
     (if \<exists>r \<in> set (ac_users db). uw_id r \<noteq> us_id u \<and> uw_email r = us_email u then (Inl P2002, db)
      else if \<exists>r \<in> set (ac_users db). uw_id r = us_id u
      then (Inr (), db \<lparr> ac_users := update_rows (\<lambda>r. uw_id r = us_id u) (updated_user u) (ac_users db) \<rparr>)
      else (Inr (), db \<lparr> ac_users := ac_users db @ [inserted_user u] \<rparr>))"

definition users_save :: "db_fault \<Rightarrow> user_entity \<Rightarrow> accounts_db \<Rightarrow> unit outcome \<times> accounts_db" where
  "users_save fault u db =
     (case fault of
        Refused f \<Rightarrow> (translating (Inl (Other_Error f)), db)
      | Unacknowledged f \<Rightarrow> (translating (Inl (Other_Error f)), snd (upsert_user u db))
      | Healthy \<Rightarrow> (case upsert_user u db of (res, db') \<Rightarrow> (translating res, db')))"

definition user_key :: "user_entity \<Rightarrow> cursor_key" where
  "user_key u = (us_createdAt u, us_id u)"

definition org_memberships :: "id \<Rightarrow> id \<Rightarrow> accounts_db \<Rightarrow> workspace_member list" where
  "org_memberships org user db = filter (\<lambda>m. wm_userId m = user \<and> wm_organizationId m = org) (ac_members db)"

definition organizationRole :: "id \<Rightarrow> user_row \<Rightarrow> accounts_db \<Rightarrow> string" where
  "organizationRole org r db = (case org_memberships org (uw_id r) db of [] \<Rightarrow> [] | m # _ \<Rightarrow> wm_role m)"

record user_filters =
  uf_role :: "string option"
  uf_status :: "string option"
  uf_search :: "string option"

definition users_where :: "(char \<Rightarrow> char) \<Rightarrow> id \<Rightarrow> user_filters \<Rightarrow> accounts_db \<Rightarrow> user_row \<Rightarrow> bool" where
  "users_where casing org f db r \<longleftrightarrow>
     (\<exists>m \<in> set (org_memberships org (uw_id r) db).
        case truthy (uf_role f) of Some role \<Rightarrow> wm_role m = role | None \<Rightarrow> True) \<and>
     (case truthy (uf_status f) of Some status \<Rightarrow> uw_status r = status | None \<Rightarrow> True) \<and>
     (case truthy (uf_search f) of
        Some s \<Rightarrow> contains_insensitive casing (escapeLikePattern s) (uw_email r) \<or>
                  contains_insensitive casing (escapeLikePattern s) (uw_name r)
      | None \<Rightarrow> True)"

text \<open>A listed user comes with the role in the organization.\<close>

type_synonym listed_user = "user_entity \<times> string"

definition listed :: "id \<Rightarrow> accounts_db \<Rightarrow> user_row \<Rightarrow> listed_user" where
  "listed org db r = (user_mapToEntity r, organizationRole org r db)"

definition users_findAllCursor ::
    "(char \<Rightarrow> char) \<Rightarrow> db_fault \<Rightarrow> id \<Rightarrow> decoded_cursor option \<Rightarrow> nat \<Rightarrow> user_filters \<Rightarrow> accounts_db
     \<Rightarrow> listed_user page_slice outcome" where
  "users_findAllCursor casing fault org startingAfter limit f db =
     translating (db_read fault
       (let page = keyset_query (\<lambda>r. (uw_createdAt r, uw_id r)) (users_where casing org f db) (ac_users db) startingAfter limit
        in \<lparr> pg_items = map (listed org db) (pg_items page), pg_hasMore = pg_hasMore page \<rparr>))"

section \<open>The mock user repository\<close>

record user_maps =
  mu_store :: "(id \<times> user_entity) list"
  mu_memberships :: "(id \<times> (id \<times> string) list) list"

definition mock_findById :: "id \<Rightarrow> user_maps \<Rightarrow> user_entity option outcome" where
  "mock_findById i m = Inr (map_of (mu_store m) i)"

definition mock_findByEmail :: "string \<Rightarrow> user_maps \<Rightarrow> user_entity option outcome" where
  "mock_findByEmail email m = Inr (List.find (\<lambda>u. us_email u = email) (map snd (mu_store m)))"

definition mock_addMembership :: "id \<Rightarrow> id \<Rightarrow> string \<Rightarrow> user_maps \<Rightarrow> user_maps" where
  "mock_addMembership user org role m =
     (let forUser = (case map_of (mu_memberships m) user of None \<Rightarrow> [] | Some x \<Rightarrow> x) in
      m \<lparr> mu_memberships := AList.update user (AList.update org role forUser) (mu_memberships m) \<rparr>)"

definition mock_role :: "id \<Rightarrow> user_maps \<Rightarrow> user_entity \<Rightarrow> string option" where
  "mock_role org m u = truthy (Option.bind (map_of (mu_memberships m) (us_id u)) (\<lambda>forUser. map_of forUser org))"

definition mock_members :: "id \<Rightarrow> user_maps \<Rightarrow> listed_user list" where
  "mock_members org m =
     concat (map (\<lambda>u. case mock_role org m u of Some role \<Rightarrow> [(u, role)] | None \<Rightarrow> []) (map snd (mu_store m)))"

definition mock_findAllCursor ::
    "(char \<Rightarrow> char) \<Rightarrow> id \<Rightarrow> decoded_cursor option \<Rightarrow> nat \<Rightarrow> user_filters \<Rightarrow> user_maps \<Rightarrow> listed_user page_slice outcome" where
  "mock_findAllCursor lower_case org startingAfter limit f m =
     Inr (paginateNewestFirst (\<lambda>p. user_key (fst p))
       (filter (\<lambda>(u, _). case truthy (uf_search f) of
                           Some s \<Rightarrow> includes_text (map lower_case s) (map lower_case (us_email u)) \<or>
                                     includes_text (map lower_case s) (map lower_case (us_name u))
                         | None \<Rightarrow> True)
         (filter (\<lambda>(u, _). case truthy (uf_status f) of Some status \<Rightarrow> us_status u = status | None \<Rightarrow> True)
           (filter (\<lambda>(_, r). case truthy (uf_role f) of Some role \<Rightarrow> r = role | None \<Rightarrow> True) (mock_members org m))))
       startingAfter limit)"

definition mock_save :: "user_entity \<Rightarrow> user_maps \<Rightarrow> unit outcome \<times> user_maps" where
  "mock_save u m = (Inr (), m \<lparr> mu_store := AList.update (us_id u) u (mu_store m) \<rparr>)"

definition mock_clear :: "user_maps \<Rightarrow> user_maps" where
  "mock_clear m = \<lparr> mu_store = [], mu_memberships = [] \<rparr>"

section \<open>The user queries\<close>

definition userNotFound :: failure where
  "userNotFound =
     Domain (new_domain_exception
       \<lparr> opt_kind = Some NotFound, opt_code = Some ''user_not_found'', opt_title = Some ''common.not_found'',
         opt_messageKey = Some ''errors.users.not_found'', opt_args = None,
         opt_violations =
           [\<lparr> vi_path = ''userId'', vi_code = ''not_found'', vi_message = ''User not found'',
              vi_messageKey = Some ''errors.users.not_found'', vi_rule = None, vi_constraint = None \<rparr>],
         opt_permanent = None \<rparr>)"

record user_profile =
  pf_id :: id
  pf_email :: string
  pf_name :: string
  pf_role :: string
  pf_status :: string
  pf_createdAt :: instant
  pf_updatedAt :: instant

definition get_user_profile :: "(id \<Rightarrow> 's \<Rightarrow> user_entity option outcome) \<Rightarrow> id \<Rightarrow> 's \<Rightarrow> user_profile outcome" where
  "get_user_profile findById i s =
     (case findById i s of
        Inl e \<Rightarrow> Inl e
      | Inr None \<Rightarrow> Inl userNotFound
      | Inr (Some u) \<Rightarrow>
          Inr \<lparr> pf_id = us_id u, pf_email = us_email u, pf_name = us_name u, pf_role = us_role u, pf_status = us_status u,
                pf_createdAt = us_createdAt u, pf_updatedAt = us_updatedAt u \<rparr>)"

record user_list_item =
  ui_id :: id
  ui_email :: string
  ui_name :: string
  ui_role :: string
  ui_status :: string
  ui_createdAt :: instant
  ui_updatedAt :: instant

definition user_item :: "listed_user \<Rightarrow> user_list_item" where
  "user_item p =
     \<lparr> ui_id = us_id (fst p), ui_email = us_email (fst p), ui_name = us_name (fst p), ui_role = snd p,
       ui_status = us_status (fst p), ui_createdAt = us_createdAt (fst p), ui_updatedAt = us_updatedAt (fst p) \<rparr>"

definition list_users_cursor ::
    "(id \<Rightarrow> bool) \<Rightarrow> (id \<Rightarrow> decoded_cursor option \<Rightarrow> nat \<Rightarrow> user_filters \<Rightarrow> 's \<Rightarrow> listed_user page_slice outcome)
     \<Rightarrow> id \<Rightarrow> nat \<Rightarrow> string option \<Rightarrow> user_filters \<Rightarrow> 's \<Rightarrow> (user_list_item list \<times> bool \<times> string option) outcome" where
  "list_users_cursor is_uuid7 findAllCursor org limit startingAfter f s =
     (case decodeStartingAfter is_uuid7 startingAfter of
        Inl e \<Rightarrow> Inl e
      | Inr c \<Rightarrow>
          (case findAllCursor org c limit f s of
             Inl e \<Rightarrow> Inl e
           | Inr page \<Rightarrow>
               Inr (map user_item (pg_items page), pg_hasMore page, lastCursorOf (\<lambda>p. user_key (fst p)) (pg_items page))))"

text \<open>The controllers, and the GraphQL resolver, whose \<open>me\<close> answers null for an account that is gone.\<close>

definition users_me :: "(id \<Rightarrow> 's \<Rightarrow> user_entity option outcome) \<Rightarrow> authenticated_session \<Rightarrow> 's \<Rightarrow> user_profile outcome" where
  "users_me findById user s = get_user_profile findById (as_userId user) s"

definition admin_users_list ::
    "(id \<Rightarrow> bool) \<Rightarrow> (id \<Rightarrow> decoded_cursor option \<Rightarrow> nat \<Rightarrow> user_filters \<Rightarrow> 's \<Rightarrow> listed_user page_slice outcome)
     \<Rightarrow> authenticated_session \<Rightarrow> nat \<Rightarrow> string option \<Rightarrow> user_filters \<Rightarrow> 's \<Rightarrow> user_list_item list_response outcome" where
  "admin_users_list is_uuid7 findAllCursor user limit startingAfter f s =
     (case requireOrganizationId (Some user) of
        Inl e \<Rightarrow> Inl e
      | Inr org \<Rightarrow>
          (case list_users_cursor is_uuid7 findAllCursor org limit startingAfter f s of
             Inl e \<Rightarrow> Inl e
           | Inr (items, hasMore, lastCursor) \<Rightarrow> Inr (toCursorListResponse ''/api/v1/admin/users'' items hasMore lastCursor)))"

definition graphql_me ::
    "(id \<Rightarrow> 's \<Rightarrow> user_entity option outcome) \<Rightarrow> authenticated_session option \<Rightarrow> 's \<Rightarrow> user_profile option outcome" where
  "graphql_me findById user s =
     (case Option.bind user (\<lambda>u. truthy (Some (as_userId u))) of
        None \<Rightarrow> Inr None
      | Some i \<Rightarrow>
          (case get_user_profile findById i s of
             Inr p \<Rightarrow> Inr (Some p)
           | Inl e \<Rightarrow> if failure_kind e = Some NotFound then Inr None else Inl e))"

definition graphql_users ::
    "(id \<Rightarrow> bool) \<Rightarrow> (id \<Rightarrow> decoded_cursor option \<Rightarrow> nat \<Rightarrow> user_filters \<Rightarrow> 's \<Rightarrow> listed_user page_slice outcome)
     \<Rightarrow> authenticated_session option \<Rightarrow> nat \<Rightarrow> string option \<Rightarrow> user_filters \<Rightarrow> 's
     \<Rightarrow> (user_list_item list \<times> bool \<times> string option) outcome" where
  "graphql_users is_uuid7 findAllCursor user limit startingAfter f s =
     (case user of
        None \<Rightarrow> Inl (Internal ''users query reached the resolver without a session'')
      | Some u \<Rightarrow>
          (case requireOrganizationId (Some u) of
             Inl e \<Rightarrow> Inl e
           | Inr org \<Rightarrow> list_users_cursor is_uuid7 findAllCursor org limit startingAfter f s))"

section \<open>Sessions\<close>

record session_record =
  sn_id :: id
  sn_userId :: id
  sn_ipAddress :: "string option"
  sn_userAgent :: "string option"
  sn_expiresAt :: instant
  sn_createdAt :: instant
  sn_updatedAt :: instant

text \<open>The table also holds what the repository never selects.\<close>

record stored_session = session_record +
  sn_token :: string
  sn_activeOrganizationId :: "id option"
  sn_activeTeamId :: "id option"

definition SESSION_FIELDS :: "stored_session \<Rightarrow> session_record" where
  "SESSION_FIELDS r = session_record.truncate r"

definition session_key :: "('a session_record_scheme) \<Rightarrow> cursor_key" where
  "session_key r = (sn_createdAt r, sn_id r)"

definition sessions_findAllCursor ::
    "id \<Rightarrow> decoded_cursor option \<Rightarrow> nat \<Rightarrow> bool \<Rightarrow> instant \<Rightarrow> stored_session list \<Rightarrow> session_record page_slice" where
  "sessions_findAllCursor user startingAfter limit activeOnly now rows =
     (let page = keyset_query session_key (\<lambda>r. sn_userId r = user \<and> (activeOnly \<longrightarrow> now < sn_expiresAt r)) rows startingAfter limit
      in \<lparr> pg_items = map SESSION_FIELDS (pg_items page), pg_hasMore = pg_hasMore page \<rparr>)"

definition sessions_deleteForUser :: "id \<Rightarrow> id \<Rightarrow> stored_session list \<Rightarrow> bool \<times> stored_session list" where
  "sessions_deleteForUser user i rows =
     (let sel = (\<lambda>r. sn_id r = i \<and> sn_userId r = user) in
      (0 < count_rows sel rows, filter (\<lambda>r. \<not> sel r) rows))"

definition sessions_deleteAllForUserExcept :: "id \<Rightarrow> id \<Rightarrow> stored_session list \<Rightarrow> nat \<times> stored_session list" where
  "sessions_deleteAllForUserExcept user keep rows =
     (let sel = (\<lambda>r. sn_userId r = user \<and> sn_id r \<noteq> keep) in
      (count_rows sel rows, filter (\<lambda>r. \<not> sel r) rows))"

type_synonym session_map = "(id \<times> session_record) list"

definition memory_sessions_seed :: "session_record \<Rightarrow> session_map \<Rightarrow> session_map" where
  "memory_sessions_seed s m = AList.update (sn_id s) s m"

definition memory_sessions_findAllCursor ::
    "id \<Rightarrow> decoded_cursor option \<Rightarrow> nat \<Rightarrow> bool \<Rightarrow> instant \<Rightarrow> session_map \<Rightarrow> session_record page_slice" where
  "memory_sessions_findAllCursor user startingAfter limit activeOnly now m =
     paginateNewestFirst session_key
       (filter (\<lambda>s. if activeOnly then now < sn_expiresAt s else True) (filter (\<lambda>s. sn_userId s = user) (map snd m)))
       startingAfter limit"

definition memory_sessions_deleteForUser :: "id \<Rightarrow> id \<Rightarrow> session_map \<Rightarrow> bool \<times> session_map" where
  "memory_sessions_deleteForUser user i m =
     (case map_of m i of
        None \<Rightarrow> (False, m)
      | Some s \<Rightarrow> if sn_userId s \<noteq> user then (False, m) else (True, AList.delete i m))"

fun delete_others :: "id \<Rightarrow> id \<Rightarrow> session_record list \<Rightarrow> nat \<times> session_map \<Rightarrow> nat \<times> session_map" where
  "delete_others user keep [] acc = acc"
| "delete_others user keep (s # ss) (removed, m) =
     (if sn_userId s \<noteq> user \<or> sn_id s = keep then delete_others user keep ss (removed, m)
      else delete_others user keep ss (removed + 1, AList.delete (sn_id s) m))"

definition memory_sessions_deleteAllForUserExcept :: "id \<Rightarrow> id \<Rightarrow> session_map \<Rightarrow> nat \<times> session_map" where
  "memory_sessions_deleteAllForUserExcept user keep m = delete_others user keep (map snd m) (0, m)"

definition memory_sessions_size :: "session_map \<Rightarrow> nat" where
  "memory_sessions_size m = length m"

section \<open>The session handlers\<close>

record session_dto =
  sd_id :: id
  sd_ipAddress :: "string option"
  sd_userAgent :: "string option"
  sd_current :: bool
  sd_expiresAt :: instant
  sd_createdAt :: instant
  sd_updatedAt :: instant

definition session_dto_of :: "id \<Rightarrow> session_record \<Rightarrow> session_dto" where
  "session_dto_of current s =
     \<lparr> sd_id = sn_id s, sd_ipAddress = sn_ipAddress s, sd_userAgent = sn_userAgent s, sd_current = (sn_id s = current),
       sd_expiresAt = sn_expiresAt s, sd_createdAt = sn_createdAt s, sd_updatedAt = sn_updatedAt s \<rparr>"

definition list_my_sessions ::
    "(id \<Rightarrow> bool) \<Rightarrow> (id \<Rightarrow> decoded_cursor option \<Rightarrow> nat \<Rightarrow> bool \<Rightarrow> instant \<Rightarrow> 's \<Rightarrow> session_record page_slice)
     \<Rightarrow> instant \<Rightarrow> id \<Rightarrow> id \<Rightarrow> nat \<Rightarrow> string option \<Rightarrow> bool option \<Rightarrow> 's \<Rightarrow> (session_dto list \<times> bool \<times> string option) outcome" where
  "list_my_sessions is_uuid7 findAllCursor now user current limit startingAfter activeOnly s =
     (case decodeStartingAfter is_uuid7 startingAfter of
        Inl e \<Rightarrow> Inl e
      | Inr c \<Rightarrow>
          (let page = findAllCursor user c limit (default_to True activeOnly) now s in
           Inr (map (session_dto_of current) (pg_items page), pg_hasMore page, lastCursorOf session_key (pg_items page))))"

definition sessionNotFound :: failure where
  "sessionNotFound = raise_problem (problem NotFound ''session_not_found'' ''errors.sessions.not_found'' ''id'' ''Session not found'')"

definition revoke_session :: "(id \<Rightarrow> id \<Rightarrow> 's \<Rightarrow> bool \<times> 's) \<Rightarrow> id \<Rightarrow> id \<Rightarrow> 's \<Rightarrow> unit outcome \<times> 's" where
  "revoke_session deleteForUser user i s =
     (case deleteForUser user i s of (deleted, s') \<Rightarrow> (if deleted then Inr () else Inl sessionNotFound, s'))"

definition revoke_other_sessions :: "(id \<Rightarrow> id \<Rightarrow> 's \<Rightarrow> nat \<times> 's) \<Rightarrow> id \<Rightarrow> id \<Rightarrow> 's \<Rightarrow> nat \<times> 's" where
  "revoke_other_sessions deleteAllForUserExcept user current s = deleteAllForUserExcept user current s"

definition sessions_list ::
    "(id \<Rightarrow> bool) \<Rightarrow> (id \<Rightarrow> decoded_cursor option \<Rightarrow> nat \<Rightarrow> bool \<Rightarrow> instant \<Rightarrow> 's \<Rightarrow> session_record page_slice)
     \<Rightarrow> instant \<Rightarrow> authenticated_session \<Rightarrow> nat \<Rightarrow> string option \<Rightarrow> bool option \<Rightarrow> 's \<Rightarrow> session_dto list_response outcome" where
  "sessions_list is_uuid7 findAllCursor now user limit startingAfter activeOnly s =
     (case list_my_sessions is_uuid7 findAllCursor now (as_userId user) (as_sessionId user) limit startingAfter activeOnly s of
        Inl e \<Rightarrow> Inl e
      | Inr (items, hasMore, lastCursor) \<Rightarrow> Inr (toCursorListResponse ''/api/v1/sessions'' items hasMore lastCursor))"

definition sessions_revoke :: "(id \<Rightarrow> id \<Rightarrow> 's \<Rightarrow> bool \<times> 's) \<Rightarrow> authenticated_session \<Rightarrow> id \<Rightarrow> 's \<Rightarrow> unit outcome \<times> 's" where
  "sessions_revoke deleteForUser user i s = revoke_session deleteForUser (as_userId user) i s"

definition sessions_revokeOthers :: "(id \<Rightarrow> id \<Rightarrow> 's \<Rightarrow> nat \<times> 's) \<Rightarrow> authenticated_session \<Rightarrow> 's \<Rightarrow> nat \<times> 's" where
  "sessions_revokeOthers deleteAllForUserExcept user s =
     revoke_other_sessions deleteAllForUserExcept (as_userId user) (as_sessionId user) s"

section \<open>What a session repository promises\<close>

text \<open>Both repositories hold a list of sessions under distinct ids; a deletion removes what it names and counts it, and a
  listing is the page of the caller's own.\<close>

lemma at_most_one: "distinct xs \<Longrightarrow> set xs \<subseteq> {a} \<Longrightarrow> length xs \<le> 1"
  by (cases xs; cases "tl xs") auto

locale session_repository =
  fixes keyed :: "'s \<Rightarrow> bool"
    and sessions :: "'s \<Rightarrow> session_record list"
    and findAllCursor :: "id \<Rightarrow> decoded_cursor option \<Rightarrow> nat \<Rightarrow> bool \<Rightarrow> instant \<Rightarrow> 's \<Rightarrow> session_record page_slice"
    and deleteForUser :: "id \<Rightarrow> id \<Rightarrow> 's \<Rightarrow> bool \<times> 's"
    and deleteAllForUserExcept :: "id \<Rightarrow> id \<Rightarrow> 's \<Rightarrow> nat \<times> 's"
  assumes ids: "keyed s \<Longrightarrow> distinct (map sn_id (sessions s))"
    and page: "findAllCursor u c limit active now s =
           paginateNewestFirst session_key
             (filter (\<lambda>r. sn_userId r = u \<and> (active \<longrightarrow> now < sn_expiresAt r)) (sessions s)) c limit"
    and one: "keyed s \<Longrightarrow> keyed (snd (deleteForUser u i s))"
      "keyed s \<Longrightarrow> fst (deleteForUser u i s) = (\<exists>r \<in> set (sessions s). sn_id r = i \<and> sn_userId r = u)"
      "keyed s \<Longrightarrow> sessions (snd (deleteForUser u i s)) = filter (\<lambda>r. \<not> (sn_id r = i \<and> sn_userId r = u)) (sessions s)"
    and others: "keyed s \<Longrightarrow> keyed (snd (deleteAllForUserExcept u keep s))"
      "keyed s \<Longrightarrow> fst (deleteAllForUserExcept u keep s) = count_rows (\<lambda>r. sn_userId r = u \<and> sn_id r \<noteq> keep) (sessions s)"
      "keyed s \<Longrightarrow> sessions (snd (deleteAllForUserExcept u keep s)) =
         filter (\<lambda>r. \<not> (sn_userId r = u \<and> sn_id r \<noteq> keep)) (sessions s)"
begin

lemma revoked_others:
  assumes "keyed s" "revoke_other_sessions deleteAllForUserExcept u current s = (n, s')"
  shows "keyed s'" "sessions s' = filter (\<lambda>r. sn_userId r = u \<longrightarrow> sn_id r = current) (sessions s)"
    "n = count_rows (\<lambda>r. sn_userId r = u \<and> sn_id r \<noteq> current) (sessions s)"
    "revoke_other_sessions deleteAllForUserExcept u current s' = (0, snd (deleteAllForUserExcept u current s'))"
    "sessions (snd (deleteAllForUserExcept u current s')) = sessions s'"
proof -
  from assms(2) have res: "n = fst (deleteAllForUserExcept u current s)" "s' = snd (deleteAllForUserExcept u current s)"
    by (simp_all add: revoke_other_sessions_def)
  show k: "keyed s'" using others(1)[OF assms(1)] res by simp
  show ss: "sessions s' = filter (\<lambda>r. sn_userId r = u \<longrightarrow> sn_id r = current) (sessions s)"
    using others(3)[OF assms(1)] res by simp
  show "n = count_rows (\<lambda>r. sn_userId r = u \<and> sn_id r \<noteq> current) (sessions s)"
    using others(2)[OF assms(1)] res by simp
  have "fst (deleteAllForUserExcept u current s') = 0"
    using others(2)[OF k, of u current] ss by (simp add: count_rows_def filter_empty_conv)
  then show "revoke_other_sessions deleteAllForUserExcept u current s' = (0, snd (deleteAllForUserExcept u current s'))"
    by (simp add: revoke_other_sessions_def prod_eq_iff)
  show "sessions (snd (deleteAllForUserExcept u current s')) = sessions s'"
    using others(3)[OF k, of u current] by (simp add: ss conj_commute)
qed

lemma only_current_listed:
  assumes "keyed s" "revoke_other_sessions deleteAllForUserExcept u current s = (n, s')"
    and "list_my_sessions is_uuid7 findAllCursor now u current limit None (Some False) s' = Inr (items, hasMore, cursor)"
    and "0 < limit"
  shows "items = map (session_dto_of current) (filter (\<lambda>r. sn_userId r = u \<and> sn_id r = current) (sessions s))"
    "length items \<le> 1" "\<not> hasMore"
proof -
  let ?mine = "filter (\<lambda>r. sn_userId r = u \<and> sn_id r = current) (sessions s)"
  have "distinct (map sn_id ?mine)"
    using ids[OF assms(1)] by (simp add: distinct_map_filter)
  moreover have "set (map sn_id ?mine) \<subseteq> {current}" by auto
  ultimately have len: "length ?mine \<le> 1" using at_most_one by force
  have "filter (\<lambda>r. sn_userId r = u) (sessions s') = ?mine"
    unfolding revoked_others(2)[OF assms(1,2)] by (auto intro!: filter_cong)
  then have "findAllCursor u None limit False now s' = paginateNewestFirst session_key ?mine None limit"
    by (simp add: page)
  moreover have "newest_first session_key ?mine = ?mine"
    using len by (cases ?mine) (simp_all add: newest_first_def)
  ultimately have "findAllCursor u None limit False now s' = \<lparr> pg_items = ?mine, pg_hasMore = False \<rparr>"
    using len assms(4) by (simp add: paginateNewestFirst_def takePage_def)
  then show "items = map (session_dto_of current) ?mine" "length items \<le> 1" "\<not> hasMore"
    using assms(3) len by (auto simp: list_my_sessions_def decodeStartingAfter_def Let_def)
qed

lemma foreign_session_missing:
  assumes "keyed s" "\<forall>r \<in> set (sessions s). \<not> (sn_id r = i \<and> sn_userId r = u)"
  shows "fst (revoke_session deleteForUser u i s) = Inl sessionNotFound"
    "sessions (snd (revoke_session deleteForUser u i s)) = sessions s"
  using one(2,3)[OF assms(1), of u i] assms(2)
  by (auto simp: revoke_session_def case_prod_unfold filter_id_conv)

end

text \<open>Prisma: the primary key keeps ids distinct.\<close>

lemma SESSION_FIELDS_sel [simp]:
  "sn_id (SESSION_FIELDS r) = sn_id r" "sn_userId (SESSION_FIELDS r) = sn_userId r"
  "sn_expiresAt (SESSION_FIELDS r) = sn_expiresAt r" "session_key (SESSION_FIELDS r) = session_key r"
  by (simp_all add: SESSION_FIELDS_def session_record.truncate_def session_key_def)

interpretation prisma_sessions: session_repository "\<lambda>rows. distinct (map sn_id rows)" "map SESSION_FIELDS"
    sessions_findAllCursor sessions_deleteForUser sessions_deleteAllForUserExcept
proof
  fix rows :: "stored_session list" and u c limit active now
  show "sessions_findAllCursor u c limit active now rows =
      paginateNewestFirst session_key
        (filter (\<lambda>r. sn_userId r = u \<and> (active \<longrightarrow> now < sn_expiresAt r)) (map SESSION_FIELDS rows)) c limit"
    by (simp add: sessions_findAllCursor_def keyset_query_paginates paginate_map filter_map comp_def)
qed (auto simp: sessions_deleteForUser_def sessions_deleteAllForUserExcept_def comp_def distinct_map_filter count_rows_pos
    count_rows_map filter_map Let_def)

text \<open>In memory: every session is stored under its own id.\<close>

definition keyed_sessions :: "session_map \<Rightarrow> bool" where
  "keyed_sessions m \<longleftrightarrow> distinct (map fst m) \<and> (\<forall>(i, s) \<in> set m. sn_id s = i)"

lemma session_ids_keyed: "keyed_sessions m \<Longrightarrow> map sn_id (map snd m) = map fst m"
  by (auto simp: keyed_sessions_def)

lemma keyed_delete:
  assumes "keyed_sessions m"
  shows "keyed_sessions (AList.delete i m)" "map snd (AList.delete i m) = filter (\<lambda>s. sn_id s \<noteq> i) (map snd m)"
proof -
  show "keyed_sessions (AList.delete i m)"
    using assms by (auto simp: keyed_sessions_def AList.delete_eq distinct_map_filter)
  have "filter (\<lambda>p. i \<noteq> fst p) m = filter (\<lambda>p. sn_id (snd p) \<noteq> i) m"
    using assms by (intro filter_cong) (auto simp: keyed_sessions_def)
  then show "map snd (AList.delete i m) = filter (\<lambda>s. sn_id s \<noteq> i) (map snd m)"
    by (simp add: AList.delete_eq filter_map comp_def case_prod_unfold)
qed

lemma delete_others_run:
  fixes u keep :: id
  assumes "keyed_sessions m"
  defines "sel \<equiv> \<lambda>s :: session_record. sn_userId s = u \<and> sn_id s \<noteq> keep"
  shows "keyed_sessions (snd (delete_others u keep ss (n, m)))
       \<and> fst (delete_others u keep ss (n, m)) = n + count_rows sel ss
       \<and> map snd (snd (delete_others u keep ss (n, m)))
         = filter (\<lambda>s. sn_id s \<notin> sn_id ` set (filter sel ss)) (map snd m)"
  using assms(1)
proof (induction ss arbitrary: n m)
  case Nil
  then show ?case by (simp add: count_rows_def)
next
  case (Cons s ss)
  show ?case
  proof (cases "sel s")
    case True
    note IH = Cons.IH[OF keyed_delete(1)[OF Cons.prems], of "n + 1" "sn_id s"]
    show ?thesis
      using IH True keyed_delete(2)[OF Cons.prems, of "sn_id s"]
      by (auto simp: sel_def count_rows_def filter_filter intro!: filter_cong)
  next
    case False
    then show ?thesis using Cons.IH[OF Cons.prems, of n] by (auto simp: sel_def count_rows_def)
  qed
qed

interpretation memory_sessions: session_repository keyed_sessions "map snd"
    memory_sessions_findAllCursor memory_sessions_deleteForUser memory_sessions_deleteAllForUserExcept
proof
  fix m :: session_map and u i keep :: id
  assume k: "keyed_sessions m"
  have dist: "distinct (map sn_id (map snd m))" using k unfolding session_ids_keyed[OF k] by (simp add: keyed_sessions_def)
  then show "distinct (map sn_id (map snd m))" .
  have at: "map_of m i = Some s \<longleftrightarrow> s \<in> set (map snd m) \<and> sn_id s = i" for s
    using k by (auto simp: keyed_sessions_def intro: rev_image_eqI)
  show "keyed_sessions (snd (memory_sessions_deleteForUser u i m))"
    using k keyed_delete(1) by (auto simp: memory_sessions_deleteForUser_def split: option.split)
  show "fst (memory_sessions_deleteForUser u i m) = (\<exists>r \<in> set (map snd m). sn_id r = i \<and> sn_userId r = u)"
  proof (cases "map_of m i")
    case None
    then show ?thesis using at by (auto simp: memory_sessions_deleteForUser_def simp del: set_map)
  next
    case (Some s)
    then have "s \<in> set (map snd m)" "sn_id s = i" using at by blast+
    moreover have "r = s" if "r \<in> set (map snd m)" "sn_id r = i" for r
      using at[of r] Some that by simp
    ultimately have "(\<exists>r \<in> set (map snd m). sn_id r = i \<and> sn_userId r = u) \<longleftrightarrow> sn_userId s = u" by blast
    then show ?thesis using Some by (simp only:) (simp add: memory_sessions_deleteForUser_def)
  qed
  show "map snd (snd (memory_sessions_deleteForUser u i m))
      = filter (\<lambda>r. \<not> (sn_id r = i \<and> sn_userId r = u)) (map snd m)"
  proof (cases "\<exists>s \<in> set (map snd m). sn_id s = i \<and> sn_userId s = u")
    case True
    then obtain s where s: "s \<in> set (map snd m)" "sn_id s = i" "sn_userId s = u" by blast
    have "filter (\<lambda>r. \<not> (sn_id r = i \<and> sn_userId r = u)) (map snd m) = filter (\<lambda>r. sn_id r \<noteq> i) (map snd m)"
      using s dist by (intro filter_cong refl) (auto simp: distinct_map inj_on_def)
    moreover have "map_of m i = Some s" using at s by blast
    ultimately show ?thesis using s keyed_delete(2)[OF k] by (simp add: memory_sessions_deleteForUser_def)
  next
    case False
    then have "snd (memory_sessions_deleteForUser u i m) = m"
      using at by (auto simp: memory_sessions_deleteForUser_def simp del: set_map split: option.split)
    moreover have "filter (\<lambda>r. \<not> (sn_id r = i \<and> sn_userId r = u)) (map snd m) = map snd m"
      using False by (intro filter_True) auto
    ultimately show ?thesis by simp
  qed
  let ?sel = "\<lambda>r. sn_userId r = u \<and> sn_id r \<noteq> keep"
  note run = delete_others_run[OF k, of u keep "map snd m" 0]
  show "keyed_sessions (snd (memory_sessions_deleteAllForUserExcept u keep m))"
    "fst (memory_sessions_deleteAllForUserExcept u keep m) = count_rows ?sel (map snd m)"
    using run by (simp_all add: memory_sessions_deleteAllForUserExcept_def)
  have "sn_id s \<notin> sn_id ` set (filter ?sel (map snd m)) \<longleftrightarrow> \<not> ?sel s" if "s \<in> set (map snd m)" for s
    using dist that by (auto simp: distinct_map inj_on_def)
  then have "filter (\<lambda>s. sn_id s \<notin> sn_id ` set (filter ?sel (map snd m))) (map snd m) = filter (\<lambda>s. \<not> ?sel s) (map snd m)"
    by (intro filter_cong refl) blast
  then show "map snd (snd (memory_sessions_deleteAllForUserExcept u keep m)) = filter (\<lambda>s. \<not> ?sel s) (map snd m)"
    using run by (simp add: memory_sessions_deleteAllForUserExcept_def)
next
  fix m :: session_map and u c limit active now
  show "memory_sessions_findAllCursor u c limit active now m =
      paginateNewestFirst session_key
        (filter (\<lambda>r. sn_userId r = u \<and> (active \<longrightarrow> now < sn_expiresAt r)) (map snd m)) c limit"
    unfolding memory_sessions_findAllCursor_def filter_filter by (intro arg_cong3[where f = "paginateNewestFirst session_key"] filter_cong) auto
qed

section \<open>Signing out everywhere else\<close>

text \<open>Signing out everywhere else ends exactly the caller's other sessions and answers how many they were:
  sessions of other users stay as they were, the session of the request survives, the caller's next listing, expired
  sessions included, shows it alone and marks it as the current one, and a repeated call ends nothing more. A single
  session is ended only for its owner: the id of someone else's session is answered as an unknown id is, and changes nothing.\<close>

theorem signing_out_elsewhere:
  assumes "distinct (map sn_id rows)" "0 < limit"
    and "sessions_revokeOthers sessions_deleteAllForUserExcept user rows = (n, rows')"
    and "sessions_list is_uuid7 sessions_findAllCursor now user limit None (Some False) rows' = Inr answer"
  shows "n = count_rows (\<lambda>r. sn_userId r = as_userId user \<and> sn_id r \<noteq> as_sessionId user) rows
    \<and> filter (\<lambda>r. sn_userId r \<noteq> as_userId user) (map SESSION_FIELDS rows')
      = filter (\<lambda>r. sn_userId r \<noteq> as_userId user) (map SESSION_FIELDS rows)
    \<and> lr_data answer = map (session_dto_of (as_sessionId user))
        (filter (\<lambda>r. sn_userId r = as_userId user \<and> sn_id r = as_sessionId user) (map SESSION_FIELDS rows))
    \<and> (\<forall>d \<in> set (lr_data answer). sd_current d) \<and> \<not> lr_hasMore answer
    \<and> fst (sessions_revokeOthers sessions_deleteAllForUserExcept user rows') = 0
    \<and> (\<forall>i. (\<forall>r \<in> set rows. sn_id r = i \<longrightarrow> sn_userId r \<noteq> as_userId user) \<longrightarrow>
         fst (sessions_revoke sessions_deleteForUser user i rows) = Inl sessionNotFound
         \<and> map SESSION_FIELDS (snd (sessions_revoke sessions_deleteForUser user i rows)) = map SESSION_FIELDS rows)"
proof -
  have run: "revoke_other_sessions sessions_deleteAllForUserExcept (as_userId user) (as_sessionId user) rows = (n, rows')"
    using assms(3) by (simp add: sessions_revokeOthers_def)
  note gone = prisma_sessions.revoked_others[OF assms(1) run]
  obtain items hasMore cursor where list: "list_my_sessions is_uuid7 sessions_findAllCursor now (as_userId user)
      (as_sessionId user) limit None (Some False) rows' = Inr (items, hasMore, cursor)"
    and answer: "answer = toCursorListResponse ''/api/v1/sessions'' items hasMore cursor"
    using assms(4) by (auto simp: sessions_list_def split: sum.splits)
  note only = prisma_sessions.only_current_listed[OF assms(1) run list assms(2)]
  have "filter (\<lambda>r. sn_userId r \<noteq> as_userId user) (map SESSION_FIELDS rows')
      = filter (\<lambda>r. sn_userId r \<noteq> as_userId user) (map SESSION_FIELDS rows)"
    unfolding gone(2) by (auto intro!: filter_cong)
  moreover have "fst (sessions_revokeOthers sessions_deleteAllForUserExcept user rows') = 0"
    using gone(4) by (simp add: sessions_revokeOthers_def)
  ultimately show ?thesis
    using gone(3) only prisma_sessions.foreign_session_missing[OF assms(1)]
    by (auto simp: answer toCursorListResponse_def session_dto_of_def count_rows_map sessions_revoke_def)
qed

definition example_session :: "id \<Rightarrow> id \<Rightarrow> stored_session" where
  "example_session i u =
     \<lparr> sn_id = i, sn_userId = u, sn_ipAddress = None, sn_userAgent = None, sn_expiresAt = 9, sn_createdAt = 1, sn_updatedAt = 1,
       sn_token = ''t'' @ i, sn_activeOrganizationId = None, sn_activeTeamId = None \<rparr>"

definition example_caller :: authenticated_session where
  "example_caller =
     \<lparr> as_userId = ''u'', as_email = ''u@e'', as_name = [], as_role = ''USER'', as_status = ''ACTIVE'',
       as_sessionId = ''s1'', as_sessionToken = ''ts1'', as_organizationId = Some ''o'', as_teamId = None \<rparr>"

definition example_sessions :: "stored_session list" where
  "example_sessions = [example_session ''s1'' ''u'', example_session ''s2'' ''v'', example_session ''s3'' ''u'']"

lemma signing_out_elsewhere_witness:
  "fst (sessions_revoke sessions_deleteForUser example_caller ''s2'' example_sessions) = Inl sessionNotFound
   \<and> map sn_id (snd (sessions_revokeOthers sessions_deleteAllForUserExcept example_caller example_sessions)) = [''s1'', ''s2'']"
proof
  have listed: "sessions_list (\<lambda>_. True) sessions_findAllCursor 5 example_caller 20 None (Some False)
      (snd (sessions_revokeOthers sessions_deleteAllForUserExcept example_caller example_sessions))
    = Inr (toCursorListResponse ''/api/v1/sessions'' [session_dto_of ''s1'' (SESSION_FIELDS (example_session ''s1'' ''u''))] False
        (lastCursorOf session_key [example_session ''s1'' ''u'']))"
    by (simp add: sessions_list_def list_my_sessions_def decodeStartingAfter_def sessions_revokeOthers_def revoke_other_sessions_def
        sessions_deleteAllForUserExcept_def example_sessions_def example_session_def example_caller_def Let_def
        sessions_findAllCursor_def keyset_query_def newest_first_def takePage_def lastCursorOf_def)
  have "distinct (map sn_id example_sessions)" by (simp add: example_sessions_def example_session_def)
  from signing_out_elsewhere[OF this _ surjective_pairing listed]
  show "fst (sessions_revoke sessions_deleteForUser example_caller ''s2'' example_sessions) = Inl sessionNotFound"
    by (simp add: example_sessions_def example_session_def example_caller_def)
  show "map sn_id (snd (sessions_revokeOthers sessions_deleteAllForUserExcept example_caller example_sessions)) = [''s1'', ''s2'']"
    by code_simp
qed

section \<open>Member lists\<close>

text \<open>What the member list of an organization reads: its memberships, and the users they name.\<close>

definition org_members :: "id \<Rightarrow> accounts_db \<Rightarrow> workspace_member list" where
  "org_members org db = filter (\<lambda>m. wm_organizationId m = org) (ac_members db)"

definition org_users :: "id \<Rightarrow> accounts_db \<Rightarrow> user_row list" where
  "org_users org db = filter (\<lambda>r. \<exists>m \<in> set (org_members org db). wm_userId m = uw_id r) (ac_users db)"

lemma memberships_of_org: "org_memberships org u db = filter (\<lambda>m. wm_userId m = u) (org_members org db)"
  by (simp add: org_memberships_def org_members_def filter_filter conj_commute)

lemma listing_reads_org:
  "filter (users_where casing org f db) (ac_users db) = filter (users_where casing org f db) (org_users org db)"
  unfolding org_users_def filter_filter
  by (intro filter_cong refl) (auto simp: users_where_def memberships_of_org)

lemma listed_is_member:
  assumes "r \<in> set (org_users org db)"
  obtains m where "m \<in> set (ac_members db)" "wm_organizationId m = org" "wm_userId m = uw_id r"
    "listed org db r = (user_mapToEntity r, wm_role m)"
proof -
  have "org_memberships org (uw_id r) db \<noteq> []"
    using assms by (auto simp: org_users_def memberships_of_org filter_empty_conv)
  then obtain m ms where ms: "org_memberships org (uw_id r) db = m # ms" by (cases "org_memberships org (uw_id r) db") auto
  then have "m \<in> set (org_memberships org (uw_id r) db)" by simp
  then show thesis using that[of m] ms by (auto simp: org_memberships_def listed_def organizationRole_def)
qed

text \<open>The member list stays within the caller's organization. Every entry is a user with a membership there and shows the
  role of that membership, and nothing else enters the answer: two databases that agree on the memberships of the
  organization and on the users they name give the same answer to every request, whatever the rest of them holds.
  Without an organization the list is refused.\<close>

theorem member_listing_stays_in_organization:
  assumes "admin_users_list is_uuid7 (users_findAllCursor casing fault) user limit c f db = answer"
    and "org_members org db' = org_members org db" "org_users org db' = org_users org db"
    and "truthy (as_organizationId user) = Some org"
  shows "admin_users_list is_uuid7 (users_findAllCursor casing fault) user limit c f db' = answer
    \<and> (\<forall>page. answer = Inr page \<longrightarrow> (\<forall>item \<in> set (lr_data page).
         \<exists>r \<in> set (ac_users db). \<exists>m \<in> set (ac_members db).
           wm_organizationId m = org \<and> wm_userId m = uw_id r \<and> item = user_item (user_mapToEntity r, wm_role m)))"
proof
  have "org_memberships org u db' = org_memberships org u db" for u
    by (simp add: memberships_of_org assms(2))
  then have same: "users_where casing org f db' = users_where casing org f db" "listed org db' = listed org db"
    by (auto simp: users_where_def listed_def organizationRole_def fun_eq_iff)
  then have "filter (users_where casing org f db') (ac_users db') = filter (users_where casing org f db) (ac_users db)"
    using listing_reads_org[of casing org f db] listing_reads_org[of casing org f db'] assms(3) by simp
  then have "users_findAllCursor casing fault org c' limit f db' = users_findAllCursor casing fault org c' limit f db" for c'
    unfolding users_findAllCursor_def keyset_query_paginates by (simp add: same)
  then show "admin_users_list is_uuid7 (users_findAllCursor casing fault) user limit c f db' = answer"
    using assms(1,4) by (simp add: admin_users_list_def requireOrganizationId_def list_users_cursor_def cong: sum.case_cong)
next
  show "\<forall>page. answer = Inr page \<longrightarrow> (\<forall>item \<in> set (lr_data page).
      \<exists>r \<in> set (ac_users db). \<exists>m \<in> set (ac_members db).
        wm_organizationId m = org \<and> wm_userId m = uw_id r \<and> item = user_item (user_mapToEntity r, wm_role m))"
  proof (intro allI impI ballI)
    fix page item assume "answer = Inr page" "item \<in> set (lr_data page)"
    then obtain c' where "item \<in> set (map (\<lambda>r. user_item (listed org db r))
        (pg_items (keyset_query (\<lambda>r. (uw_createdAt r, uw_id r)) (users_where casing org f db) (ac_users db) c' limit)))"
      using assms(1,4)
      by (auto simp: admin_users_list_def requireOrganizationId_def list_users_cursor_def users_findAllCursor_def
          db_read_def translating_def toCursorListResponse_def Let_def split: sum.splits db_fault.splits)
    then obtain r where r: "item = user_item (listed org db r)"
        "r \<in> set (pg_items (keyset_query (\<lambda>r. (uw_createdAt r, uw_id r)) (users_where casing org f db) (ac_users db) c' limit))"
      by auto
    then have "r \<in> set (filter (users_where casing org f db) (ac_users db))"
      by (auto simp: keyset_query_def takePage_def Let_def dest!: in_set_takeD)
    then have "r \<in> set (org_users org db)" "r \<in> set (ac_users db)"
      unfolding listing_reads_org by (auto simp: org_users_def)
    then show "\<exists>r \<in> set (ac_users db). \<exists>m \<in> set (ac_members db).
        wm_organizationId m = org \<and> wm_userId m = uw_id r \<and> item = user_item (user_mapToEntity r, wm_role m)"
      using listed_is_member[of r org db] r(1) by metis
  qed
qed

text \<open>Two organizations; what the second one holds does not show.\<close>

definition example_user :: "id \<Rightarrow> user_row" where
  "example_user i =
     \<lparr> uw_id = i, uw_name = i, uw_email = i @ ''@e'', uw_emailVerified = True, uw_image = None, uw_role = ''USER'',
       uw_status = ''ACTIVE'', uw_createdAt = 1, uw_updatedAt = 1 \<rparr>"

definition example_member :: "id \<Rightarrow> id \<Rightarrow> string \<Rightarrow> workspace_member" where
  "example_member org u role = \<lparr> wm_organizationId = org, wm_userId = u, wm_role = role, wm_createdAt = 1 \<rparr>"

definition example_accounts :: "workspace_member list \<Rightarrow> accounts_db" where
  "example_accounts ms =
     \<lparr> ac_users = [example_user ''u'', example_user ''v'', example_user ''w''],
       ac_members = example_member ''o'' ''u'' ''owner'' # example_member ''o'' ''v'' ''member'' # ms \<rparr>"

definition no_filters :: user_filters where
  "no_filters = \<lparr> uf_role = None, uf_status = None, uf_search = None \<rparr>"

lemma member_listing_stays_in_organization_witness:
  "admin_users_list (\<lambda>_. True) (users_findAllCursor (\<lambda>c. c) Healthy) example_caller 20 None no_filters
       (example_accounts [example_member ''p'' ''w'' ''owner'', example_member ''p'' ''u'' ''admin''])
     = admin_users_list (\<lambda>_. True) (users_findAllCursor (\<lambda>c. c) Healthy) example_caller 20 None no_filters (example_accounts [])
   \<and> (\<exists>page. admin_users_list (\<lambda>_. True) (users_findAllCursor (\<lambda>c. c) Healthy) example_caller 20 None no_filters
         (example_accounts []) = Inr page \<and> map ui_id (lr_data page) = [''v'', ''u''])"
proof -
  let ?db = "example_accounts [example_member ''p'' ''w'' ''owner'', example_member ''p'' ''u'' ''admin'']"
  have "org_members ''o'' ?db = org_members ''o'' (example_accounts [])"
    by (simp add: org_members_def example_accounts_def example_member_def)
  moreover have "org_users ''o'' ?db = org_users ''o'' (example_accounts [])"
    by (simp add: org_users_def org_members_def example_accounts_def example_member_def example_user_def)
  ultimately have same: "admin_users_list (\<lambda>_. True) (users_findAllCursor (\<lambda>c. c) Healthy) example_caller 20 None no_filters ?db
      = admin_users_list (\<lambda>_. True) (users_findAllCursor (\<lambda>c. c) Healthy) example_caller 20 None no_filters (example_accounts [])"
    using member_listing_stays_in_organization[OF refl, of "''o''" ?db "example_accounts []" example_caller]
    by (simp add: example_caller_def truthy_def)
  have "\<exists>page. admin_users_list (\<lambda>_. True) (users_findAllCursor (\<lambda>c. c) Healthy) example_caller 20 None no_filters
      (example_accounts []) = Inr page \<and> map ui_id (lr_data page) = [''v'', ''u'']"
    by (simp add: admin_users_list_def requireOrganizationId_def truthy_def list_users_cursor_def decodeStartingAfter_def
        users_findAllCursor_def translating_def db_read_def keyset_query_def newest_first_def takePage_def example_accounts_def
        example_user_def example_member_def example_caller_def users_where_def org_memberships_def no_filters_def
        listed_def user_mapToEntity_def user_item_def toCursorListResponse_def Let_def)
  then show ?thesis using same by blast
qed

section \<open>The repository and its mock\<close>

definition users_keyed :: "accounts_db \<Rightarrow> bool" where
  "users_keyed db \<longleftrightarrow> distinct (map uw_id (ac_users db)) \<and> distinct (map uw_email (ac_users db))"

lemma find_updated:
  "List.find (\<lambda>r. uw_id r = i) (update_rows (\<lambda>r. uw_id r = us_id u) (updated_user u) rows)
     = map_option (\<lambda>r. if i = us_id u then updated_user u r else r) (List.find (\<lambda>r. uw_id r = i) rows)"
  by (induction rows) (auto simp: update_rows_def updated_user_def)

lemma find_appended:
  "List.find p (rows @ [r]) = (case List.find p rows of Some x \<Rightarrow> Some x | None \<Rightarrow> if p r then Some r else None)"
  by (induction rows) auto

lemma updated_emails:
  assumes "distinct (map uw_id rows)" "distinct (map uw_email rows)"
    and "\<forall>r \<in> set rows. uw_id r \<noteq> us_id u \<longrightarrow> uw_email r \<noteq> us_email u"
  shows "distinct (map uw_email (update_rows (\<lambda>r. uw_id r = us_id u) (updated_user u) rows))"
  using assms
proof (induction rows)
  case (Cons r rows)
  then show ?case by (auto simp: update_rows_def updated_user_def image_iff)
qed (simp add: update_rows_def)

text \<open>A saved user is found as saved, except that an update keeps the day the row was made.\<close>

lemma saved_user_found:
  assumes "users_keyed db" "users_save Healthy u db = (Inr (), db')"
  shows "users_keyed db'"
    and "\<exists>created. users_findById Healthy (us_id u) db' = Inr (Some (u \<lparr> us_createdAt := created \<rparr>))"
    and "i \<noteq> us_id u \<Longrightarrow> users_findById Healthy i db' = users_findById Healthy i db"
proof -
  have free: "\<forall>r \<in> set (ac_users db). uw_id r \<noteq> us_id u \<longrightarrow> uw_email r \<noteq> us_email u"
    and db': "ac_users db' = (if \<exists>r \<in> set (ac_users db). uw_id r = us_id u
        then update_rows (\<lambda>r. uw_id r = us_id u) (updated_user u) (ac_users db) else ac_users db @ [inserted_user u])"
    using assms(2) by (auto simp: users_save_def upsert_user_def translating_def split: if_splits)
  show "users_keyed db'"
  proof (cases "\<exists>r \<in> set (ac_users db). uw_id r = us_id u")
    case True
    then show ?thesis
      using assms(1) free updated_emails[of "ac_users db" u] by (simp add: users_keyed_def db' updated_user_def)
  next
    case False
    then show ?thesis using assms(1) free by (auto simp: users_keyed_def db' inserted_user_def)
  qed
  have find: "List.find (\<lambda>r. uw_id r = i) (ac_users db') =
      (if i \<noteq> us_id u then List.find (\<lambda>r. uw_id r = i) (ac_users db)
       else Some (case List.find (\<lambda>r. uw_id r = i) (ac_users db) of Some r \<Rightarrow> updated_user u r | None \<Rightarrow> inserted_user u))" for i
  proof (cases "\<exists>r \<in> set (ac_users db). uw_id r = us_id u")
    case True
    then obtain r where "List.find (\<lambda>r. uw_id r = us_id u) (ac_users db) = Some r"
      by (cases "List.find (\<lambda>r. uw_id r = us_id u) (ac_users db)") (auto simp: find_None_iff)
    moreover have "ac_users db' = update_rows (\<lambda>r. uw_id r = us_id u) (updated_user u) (ac_users db)"
      unfolding db' by (rule if_P[OF True])
    ultimately show ?thesis by (cases "i = us_id u") (simp_all add: find_updated option.map_ident)
  next
    case False
    then have "List.find (\<lambda>r. uw_id r = us_id u) (ac_users db) = None" by (auto simp: find_None_iff)
    moreover have "ac_users db' = ac_users db @ [inserted_user u]" unfolding db' by (rule if_not_P[OF False])
    ultimately show ?thesis
      by (cases "i = us_id u") (simp_all add: find_appended inserted_user_def split: option.split)
  qed
  show "\<exists>created. users_findById Healthy (us_id u) db' = Inr (Some (u \<lparr> us_createdAt := created \<rparr>))"
  proof (cases "List.find (\<lambda>r. uw_id r = us_id u) (ac_users db)")
    case None
    then show ?thesis
      using find[of "us_id u"]
      by (auto simp: users_findById_def db_read_def translating_def user_mapToEntity_def inserted_user_def
          intro!: exI[of _ "us_createdAt u"])
  next
    case (Some r)
    then have "uw_id r = us_id u" by (auto dest: find_SomeD)
    then show ?thesis
      using find[of "us_id u"] Some
      by (auto simp: users_findById_def db_read_def translating_def user_mapToEntity_def updated_user_def
          intro!: exI[of _ "uw_createdAt r"])
  qed
  show "i \<noteq> us_id u \<Longrightarrow> users_findById Healthy i db' = users_findById Healthy i db"
    using find[of i] by (simp add: users_findById_def)
qed

text \<open>The address of another account is refused, and the caller is told that trying again may help.\<close>

lemma taken_address_refused:
  assumes "r \<in> set (ac_users db)" "uw_id r \<noteq> us_id u" "uw_email r = us_email u"
  shows "users_save Healthy u db = (Inl userAlreadyExists, db)" "\<not> permanent_failure userAlreadyExists"
  using assms
  by (auto simp: users_save_def upsert_user_def translating_def users_handleError_def userAlreadyExists_def
      permanent_failure_def permanent_new)

text \<open>The mock mirrors the tables when it holds the same users and each one's single role in the organization.\<close>

definition mirrors_members :: "id \<Rightarrow> user_maps \<Rightarrow> accounts_db \<Rightarrow> bool" where
  "mirrors_members org m db \<longleftrightarrow>
     map snd (mu_store m) = map user_mapToEntity (ac_users db) \<and>
     (\<forall>r \<in> set (ac_users db). map wm_role (org_memberships org (uw_id r) db) =
        (case mock_role org m (user_mapToEntity r) of None \<Rightarrow> [] | Some role \<Rightarrow> [role]))"

lemma mock_lists_members:
  assumes "keeps_specials casing" "mirrors_members org m db"
  shows "users_findAllCursor casing Healthy org c limit f db = mock_findAllCursor casing org c limit f m"
proof -
  let ?e = user_mapToEntity
  have role: "mock_role org m (?e r) = (case org_memberships org (uw_id r) db of [] \<Rightarrow> None | x # _ \<Rightarrow> Some (wm_role x))"
      "\<exists>x. org_memberships org (uw_id r) db = [] \<or> org_memberships org (uw_id r) db = [x]"
    if "r \<in> set (ac_users db)" for r
  proof -
    have *: "map wm_role (org_memberships org (uw_id r) db)
        = (case mock_role org m (?e r) of None \<Rightarrow> [] | Some role \<Rightarrow> [role])"
      using assms(2) that by (simp add: mirrors_members_def)
    show "mock_role org m (?e r) = (case org_memberships org (uw_id r) db of [] \<Rightarrow> None | x # _ \<Rightarrow> Some (wm_role x))"
      using * by (cases "org_memberships org (uw_id r) db") (auto split: option.splits)
    show "\<exists>x. org_memberships org (uw_id r) db = [] \<or> org_memberships org (uw_id r) db = [x]"
      using * by (auto split: option.splits)
  qed
  let ?S = "\<lambda>u. case truthy (uf_search f) of
      Some s \<Rightarrow> includes_text (map casing s) (map casing (us_email u)) \<or> includes_text (map casing s) (map casing (us_name u))
    | None \<Rightarrow> True"
  let ?T = "\<lambda>u. case truthy (uf_status f) of Some status \<Rightarrow> us_status u = status | None \<Rightarrow> True"
  let ?R = "\<lambda>x. case truthy (uf_role f) of Some role \<Rightarrow> x = role | None \<Rightarrow> True"
  have "filter (\<lambda>(u, _). ?S u) (filter (\<lambda>(u, _). ?T u) (filter (\<lambda>(_, x). ?R x)
          (concat (map (\<lambda>u. case mock_role org m u of Some role \<Rightarrow> [(u, role)] | None \<Rightarrow> []) (map ?e rows)))))
      = map (listed org db) (filter (users_where casing org f db) rows)" if "set rows \<subseteq> set (ac_users db)" for rows
    using that
  proof (induction rows)
    case (Cons r rows)
    then have r: "r \<in> set (ac_users db)" by simp
    show ?case
      using Cons role[OF r]
      by (auto simp: users_where_def listed_def organizationRole_def search_literal[OF assms(1)] user_mapToEntity_def
          cong: option.case_cong)
  qed simp
  from this[OF subset_refl] have "mock_findAllCursor casing org c limit f m
      = Inr (paginateNewestFirst (\<lambda>p. user_key (fst p))
          (map (listed org db) (filter (users_where casing org f db) (ac_users db))) c limit)"
    using assms(2) by (simp add: mock_findAllCursor_def mock_members_def mirrors_members_def)
  then show ?thesis
    by (simp add: users_findAllCursor_def keyset_query_paginates paginate_map translating_def db_read_def listed_def
        user_key_def user_mapToEntity_def Let_def comp_def)
qed

end
