(* ===== verification/Rate_Limits.thy ===== *)
theory Rate_Limits
  imports Problem_Details Http_Guards Leader_Lease Stored_Files
begin

text \<open>Counting requests in fixed windows: the Redis counter (common/rate-limit), the account bucket in front of
  the sign-in routes (auth-rate-limits.ts), the budget of failed sign-ins of the queue dashboard (create-bull-board-plugin.ts),
  the frames of a web socket (ws-auth.adapter.ts), and the throttler's storage that fails open. The locale \<open>window_counter\<close>
  states what they share. SHA-256 and the folding of toLowerCase are parameters.\<close>

section \<open>The counter in Redis\<close>

text \<open>A counter and the time it expires; a key that only INCR made has none.\<close>

type_synonym counter_key = "(nat \<times> instant option) option"

definition live_counter :: "instant \<Rightarrow> counter_key \<Rightarrow> counter_key" where
  "live_counter now k =
     (case k of Some (n, Some t) \<Rightarrow> if now < t then k else None | _ \<Rightarrow> k)"

definition redis_incr :: "instant \<Rightarrow> counter_key \<Rightarrow> nat \<times> counter_key" where
  "redis_incr now k =
     (case live_counter now k of None \<Rightarrow> (1, Some (1, None)) | Some (n, e) \<Rightarrow> (n + 1, Some (n + 1, e)))"

definition redis_pexpire :: "instant \<Rightarrow> int \<Rightarrow> counter_key \<Rightarrow> counter_key" where
  "redis_pexpire now ttl k =
     (case live_counter now k of None \<Rightarrow> None | Some (n, _) \<Rightarrow> if ttl \<le> 0 then None else Some (n, Some (now + ttl)))"

definition redis_pttl :: "instant \<Rightarrow> counter_key \<Rightarrow> int" where
  "redis_pttl now k =
     (case live_counter now k of None \<Rightarrow> -2 | Some (_, None) \<Rightarrow> -1 | Some (_, Some t) \<Rightarrow> t - now)"

definition FIXED_WINDOW_INCR_SCRIPT :: "instant \<Rightarrow> int \<Rightarrow> counter_key \<Rightarrow> (nat \<times> int) \<times> counter_key" where
  "FIXED_WINDOW_INCR_SCRIPT now windowMs k =
     (case redis_incr now k of
        (n, k1) \<Rightarrow>
          (let k2 = (if n = 1 then redis_pexpire now windowMs k1 else k1)
           in ((n, redis_pttl now k2), k2)))"

record fixed_window_state =
  fw_count :: nat
  fw_ttlMs :: int

text \<open>A call that fails, or whose reply is no number, throws (None); it may have counted.\<close>

definition redisFixedWindowIncr ::
    "instant \<Rightarrow> call_end \<Rightarrow> int \<Rightarrow> counter_key \<Rightarrow> fixed_window_state option \<times> counter_key" where
  "redisFixedWindowIncr now e windowMs k =
     (case FIXED_WINDOW_INCR_SCRIPT now windowMs k of
        ((n, ttl), k') \<Rightarrow>
          (case e of
             Answered \<Rightarrow> (Some \<lparr> fw_count = n, fw_ttlMs = max 0 ttl \<rparr>, k')
           | Lost_Before \<Rightarrow> (None, k)
           | Lost_After \<Rightarrow> (None, k')))"

section \<open>Answers\<close>

record problem_reply =
  pr_status :: nat
  pr_detail :: string
  pr_code :: "string option"
  pr_headers :: "(string \<times> string) list"
  pr_extra :: "(string \<times> json) list"

text \<open>What a reply becomes on the wire: the status, the headers set and the body.\<close>

definition sendProblem ::
    "(nat \<Rightarrow> string option) \<Rightarrow> string option \<Rightarrow> instant \<Rightarrow> string \<Rightarrow> string \<Rightarrow> problem_reply
     \<Rightarrow> nat \<times> (string \<times> string) list \<times> json" where
  "sendProblem reasons docsBase now requestId url p =
     (pr_status p,
      [(''content-type'', ''application/problem+json''), (''x-request-id'', requestId)] @ pr_headers p,
      (case buildProblemDetails docsBase now
              \<lparr> pa_status = pr_status p, pa_title = statusTitle reasons (pr_status p), pa_detail = Some (JStr (pr_detail p)),
                pa_code = default_to (statusCode (pr_status p)) (pr_code p),
                pa_instance = Some (sanitizeUrlForLogging url), pa_requestId = Some requestId,
                pa_errors = None, pa_checks = None \<rparr> of
         JObj ms \<Rightarrow> JObj (ms @ pr_extra p) | j \<Rightarrow> j))"

definition seconds_up :: "int \<Rightarrow> int" where
  "seconds_up ms = - ((- ms) div 1000)"

definition retry_after :: "fixed_window_state \<Rightarrow> int" where
  "retry_after w = max 1 (seconds_up (fw_ttlMs w))"

section \<open>The account bucket\<close>

definition STRICT_AUTH_PATHS :: "string list" where
  "STRICT_AUTH_PATHS =
     [''/api/auth/sign-in/email'', ''/api/auth/sign-up/email'', ''/api/auth/request-password-reset'', ''/api/auth/reset-password'']"

definition RETRY_AFTER_AUTH_UNAVAILABLE_SECONDS :: int where
  "RETRY_AFTER_AUTH_UNAVAILABLE_SECONDS = 5"

record auth_rate_config =
  ar_max :: nat
  ar_windowMs :: int
  ar_failOpen :: bool
  ar_sha256 :: "string \<Rightarrow> string"
  ar_lower :: "char \<Rightarrow> char"

record auth_request =
  aq_route :: "string option"
  aq_body :: "json option"
  aq_now :: instant
  aq_end :: call_end

text \<open>The address a request is charged to, if it is charged at all.\<close>

definition charged_email :: "auth_rate_config \<Rightarrow> auth_request \<Rightarrow> string option" where
  "charged_email cfg q =
     (case truthy (aq_route q) of
        None \<Rightarrow> None
      | Some route \<Rightarrow>
          if route \<notin> set STRICT_AUTH_PATHS then None
          else truthy (map_option (\<lambda>e. map (ar_lower cfg) (trim e)) (text_of (Option.bind (aq_body q) (json_member ''email'')))))"

definition account_key :: "auth_rate_config \<Rightarrow> string \<Rightarrow> string" where
  "account_key cfg email = ''auth:account:'' @ ar_sha256 cfg email"

datatype hook_answer = Continues | Replies problem_reply

definition too_many_guesses :: "fixed_window_state \<Rightarrow> problem_reply" where
  "too_many_guesses w =
     \<lparr> pr_status = 429, pr_detail = ''Rate limit exceeded. Try again in '' @ int_text (retry_after w) @ '' seconds.'',
       pr_code = None, pr_headers = [(''retry-after'', int_text (retry_after w))],
       pr_extra = [(''retryAfter'', JNum (int_text (retry_after w)))] \<rparr>"

definition auth_unavailable :: problem_reply where
  "auth_unavailable =
     \<lparr> pr_status = 503, pr_detail = ''Authentication is temporarily unavailable. Retry shortly.'',
       pr_code = None, pr_headers = [(''retry-after'', int_text RETRY_AFTER_AUTH_UNAVAILABLE_SECONDS)], pr_extra = [] \<rparr>"

type_synonym counters = "string \<Rightarrow> counter_key"

definition account_bucket :: "auth_rate_config \<Rightarrow> auth_request \<Rightarrow> counters \<Rightarrow> hook_answer \<times> counters" where
  "account_bucket cfg q st =
     (case charged_email cfg q of
        None \<Rightarrow> (Continues, st)
      | Some email \<Rightarrow>
          (let key = account_key cfg email in
           case redisFixedWindowIncr (aq_now q) (aq_end q) (ar_windowMs cfg) (st key) of
             (Some w, k) \<Rightarrow> (if fw_count w \<le> ar_max cfg then Continues else Replies (too_many_guesses w), st(key := k))
           | (None, k) \<Rightarrow> (if ar_failOpen cfg then Continues else Replies auth_unavailable, st(key := k))))"

section \<open>The queue dashboard\<close>

definition BULL_BOARD_AUTH_FAILURE_MAX :: nat where
  "BULL_BOARD_AUTH_FAILURE_MAX = 10"

definition BULL_BOARD_AUTH_FAILURE_WINDOW_MS :: int where
  "BULL_BOARD_AUTH_FAILURE_WINDOW_MS = 60000"

definition AUTH_FAILURE_KEY_PREFIX :: string where
  "AUTH_FAILURE_KEY_PREFIX = ''bull-board:auth-fail:''"

definition recordAuthFailure :: "instant \<Rightarrow> call_end \<Rightarrow> string \<Rightarrow> counters \<Rightarrow> fixed_window_state option \<times> counters" where
  "recordAuthFailure now e ip st =
     (let key = AUTH_FAILURE_KEY_PREFIX @ ip in
      case redisFixedWindowIncr now e BULL_BOARD_AUTH_FAILURE_WINDOW_MS (st key) of (w, k) \<Rightarrow> (w, st(key := k)))"

definition board_unavailable :: problem_reply where
  "board_unavailable =
     \<lparr> pr_status = 503, pr_detail = ''Bull Board is temporarily unavailable. Retry shortly.'',
       pr_code = Some ''service_unavailable'', pr_headers = [(''retry-after'', ''5'')], pr_extra = [] \<rparr>"

definition board_locked :: "fixed_window_state \<Rightarrow> problem_reply" where
  "board_locked w =
     \<lparr> pr_status = 429, pr_detail = ''Too many failed sign-in attempts. Try again in '' @ int_text (retry_after w) @ '' seconds.'',
       pr_code = Some ''rate_limited'', pr_headers = [(''retry-after'', int_text (retry_after w))], pr_extra = [] \<rparr>"

definition board_unauthorized :: problem_reply where
  "board_unauthorized =
     \<lparr> pr_status = 401, pr_detail = ''Valid Basic Auth credentials are required to access Bull Board.'',
       pr_code = Some ''unauthorized'', pr_headers = [(''WWW-Authenticate'', ''Basic realm=\"Bull Board\"'')], pr_extra = [] \<rparr>"

text \<open>\<open>credentials\<close> is what the Authorization header decodes to, if it is a Basic one.\<close>

definition bull_board_hook ::
    "string \<times> string \<Rightarrow> (string \<times> string) option \<Rightarrow> string \<Rightarrow> instant \<Rightarrow> call_end \<Rightarrow> counters \<Rightarrow> hook_answer \<times> counters" where
  "bull_board_hook expected credentials ip now e st =
     (if credentials = Some expected then (Continues, st)
      else
        (case recordAuthFailure now e ip st of
           (None, st') \<Rightarrow> (Replies board_unavailable, st')
         | (Some w, st') \<Rightarrow>
             (Replies (if BULL_BOARD_AUTH_FAILURE_MAX < fw_count w then board_locked w else board_unauthorized), st')))"

section \<open>Frames of a web socket\<close>

record message_budget =
  mb_windowStartedAt :: instant
  mb_count :: nat

record message_limit =
  ml_max :: nat
  ml_windowMs :: int

text \<open>A frame beyond the budget is answered with an error; the socket stays.\<close>

definition applyWsMessageRateLimit ::
    "message_limit \<Rightarrow> instant \<Rightarrow> message_budget option \<Rightarrow> string option \<times> message_budget option" where
  "applyWsMessageRateLimit opts now budget =
     (case budget of
        None \<Rightarrow> (None, Some \<lparr> mb_windowStartedAt = now, mb_count = 1 \<rparr>)
      | Some b \<Rightarrow>
          if ml_windowMs opts \<le> now - mb_windowStartedAt b
          then (None, Some \<lparr> mb_windowStartedAt = now, mb_count = 1 \<rparr>)
          else
            (let b' = b \<lparr> mb_count := mb_count b + 1 \<rparr> in
             (if ml_max opts < mb_count b'
              then Some (''TOO_MANY_MESSAGES: message rate limit exceeded ('' @ decimal (ml_max opts) @ '' per '' @
                     int_text (ml_windowMs opts) @ ''ms); retry in '' @
                     int_text (seconds_up (ml_windowMs opts - (now - mb_windowStartedAt b))) @ ''s'')
              else None, Some b')))"

section \<open>The storage of the throttler\<close>

record throttler_record =
  th_totalHits :: nat
  th_timeToExpire :: int
  th_isBlocked :: bool
  th_timeToBlockExpire :: int

text \<open>\<open>inner\<close> is the storage of the library, None where it throws.\<close>

definition throttler_increment ::
    "bool \<Rightarrow> (string \<Rightarrow> int \<Rightarrow> int \<Rightarrow> int \<Rightarrow> string \<Rightarrow> throttler_record option)
     \<Rightarrow> string \<Rightarrow> int \<Rightarrow> int \<Rightarrow> int \<Rightarrow> string \<Rightarrow> throttler_record option" where
  "throttler_increment failOpen inner key ttl limit blockDuration name =
     (case inner key ttl limit blockDuration name of
        Some r \<Rightarrow> Some r
      | None \<Rightarrow>
          if failOpen
          then Some \<lparr> th_totalHits = 0, th_timeToExpire = seconds_up ttl, th_isBlocked = False, th_timeToBlockExpire = 0 \<rparr>
          else None)"

section \<open>What a counter promises\<close>

text \<open>A window is the time of its first hit with the number of its hits. A hit that finds the window over opens the next
  one, and only the first \<open>cap\<close> hits of a window are admitted. The circumstances of a hit say whether it is lost, counted
  or, when \<open>good\<close>, answered.\<close>

type_synonym window = "(instant \<times> nat) option"

definition next_window :: "int \<Rightarrow> instant \<Rightarrow> window \<Rightarrow> instant \<times> nat" where
  "next_window W now w =
     (case w of Some (t, n) \<Rightarrow> if now < t + W then (t, n + 1) else (now, 1) | None \<Rightarrow> (now, 1))"

locale window_counter =
  fixes proper :: "'s \<Rightarrow> bool"
    and window_of :: "'s \<Rightarrow> window"
    and hit :: "'c \<Rightarrow> instant \<Rightarrow> 's \<Rightarrow> bool \<times> 's"
    and good :: "'c \<Rightarrow> bool"
    and W :: int and cap :: nat
  assumes stays_proper: "proper s \<Longrightarrow> proper (snd (hit c now s))"
    and lost_or_counted: "proper s \<Longrightarrow>
           hit c now s = (False, s)
         \<or> window_of (snd (hit c now s)) = Some (next_window W now (window_of s))
           \<and> (fst (hit c now s) \<longrightarrow> snd (next_window W now (window_of s)) \<le> cap)"
    and answered: "proper s \<Longrightarrow> good c \<Longrightarrow>
           window_of (snd (hit c now s)) = Some (next_window W now (window_of s))
         \<and> fst (hit c now s) = (snd (next_window W now (window_of s)) \<le> cap)"
begin

fun admitted :: "('c \<times> instant) list \<Rightarrow> 's \<Rightarrow> bool list" where
  "admitted [] s = []"
| "admitted ((c, now) # hs) s = fst (hit c now s) # admitted hs (snd (hit c now s))"

definition passes :: "('c \<times> instant) list \<Rightarrow> 's \<Rightarrow> nat" where
  "passes hs s = length (filter (\<lambda>b. b) (admitted hs s))"

lemma passes_simps [simp]:
  "passes [] s = 0"
  "passes ((c, now) # hs) s = (if fst (hit c now s) then 1 else 0) + passes hs (snd (hit c now s))"
  by (simp_all add: passes_def)

definition quota :: "window \<Rightarrow> nat" where
  "quota w = (case w of None \<Rightarrow> 0 | Some (_, n) \<Rightarrow> cap - n)"

text \<open>Before its window is over, no more hits pass than the window has left.\<close>

lemma within_window:
  assumes "proper s" "window_of s = Some (t, n)" "\<forall>(c, x) \<in> set hs. x < t + W"
  shows "passes hs s \<le> cap - n"
  using assms
proof (induction hs arbitrary: s n)
  case (Cons h hs)
  obtain c x where h: "h = (c, x)" by (cases h)
  then have x: "x < t + W" using Cons.prems(3) by simp
  have p: "proper (snd (hit c x s))" using stays_proper Cons.prems(1) by blast
  consider "hit c x s = (False, s)"
    | "window_of (snd (hit c x s)) = Some (t, n + 1)" "fst (hit c x s) \<longrightarrow> n + 1 \<le> cap"
    using lost_or_counted[OF Cons.prems(1), of c x] Cons.prems(2) x by (auto simp: next_window_def)
  then show ?case
  proof cases
    case 1
    then show ?thesis using Cons.IH[of s n] Cons.prems by (simp add: h)
  next
    case 2
    then have "passes hs (snd (hit c x s)) \<le> cap - (n + 1)"
      using Cons.IH[OF p] Cons.prems(3) by simp
    then show ?thesis using 2 by (auto simp: h)
  qed
qed simp

text \<open>In any stretch as long as a window no more than twice the budget passes.\<close>

lemma within_stretch:
  assumes "proper s" "sorted (map snd hs)" "\<forall>(c, x) \<in> set hs. a \<le> x \<and> x < a + W"
  shows "passes hs s \<le> quota (window_of s) + cap"
  using assms
proof (induction hs arbitrary: s)
  case (Cons h hs)
  obtain c x where h: "h = (c, x)" by (cases h)
  then have x: "a \<le> x" "x < a + W" using Cons.prems(3) by auto
  let ?s = "snd (hit c x s)" and ?w = "next_window W x (window_of s)"
  have p: "proper ?s" using stays_proper Cons.prems(1) by blast
  have IH: "passes hs ?s \<le> quota (window_of ?s) + cap"
    using Cons.IH[OF p] Cons.prems(2,3) by simp
  show ?case
  proof (cases "hit c x s = (False, s)")
    case True
    then show ?thesis using IH by (simp add: h)
  next
    case False
    then have w: "window_of ?s = Some ?w" "fst (hit c x s) \<longrightarrow> snd ?w \<le> cap"
      using lost_or_counted[OF Cons.prems(1), of c x] by blast+
    show ?thesis
    proof (cases "fst ?w = x \<and> snd ?w = 1")
      case True
      then have "passes hs ?s \<le> cap - 1"
        using within_window[OF p, of x 1 hs] w(1) x Cons.prems(3) by (cases ?w) force
      then show ?thesis using w(2) True by (auto simp: h)
    next
      case False
      then obtain t n where tn: "window_of s = Some (t, n)" "?w = (t, n + 1)"
        by (auto simp: next_window_def split: option.splits if_splits)
      then show ?thesis using IH w by (auto simp: h quota_def)
    qed
  qed
qed simp

text \<open>A run in which every hit is answered: of a window the first \<open>cap\<close> hits pass.\<close>

lemma answered_window:
  assumes "proper s" "\<forall>(c, x) \<in> set hs. good c \<and> x < t + W" "window_of s = Some (t, n)"
  shows "admitted hs s = map (\<lambda>i. n + Suc i \<le> cap) [0..<length hs]"
  using assms
proof (induction hs arbitrary: s n)
  case (Cons h hs)
  obtain c x where h: "h = (c, x)" by (cases h)
  have hit: "window_of (snd (hit c x s)) = Some (t, n + 1)" "fst (hit c x s) = (n + 1 \<le> cap)"
    using answered[OF Cons.prems(1), of c x] Cons.prems(2,3) by (auto simp: h next_window_def)
  have "admitted hs (snd (hit c x s)) = map (\<lambda>i. (n + 1) + Suc i \<le> cap) [0..<length hs]"
    using Cons.IH[OF stays_proper[OF Cons.prems(1)] _ hit(1)] Cons.prems(2) by simp
  then show ?case using hit(2) by (simp add: h map_upt_Suc del: upt_Suc)
qed simp

lemma fresh_window:
  assumes "proper s" "good c" "\<forall>t n. window_of s = Some (t, n) \<longrightarrow> t + W \<le> now" "\<forall>(c, x) \<in> set hs. good c \<and> x < now + W"
  shows "admitted ((c, now) # hs) s = map (\<lambda>i. i < cap) [0..<Suc (length hs)]"
proof -
  have "next_window W now (window_of s) = (now, 1)"
    using assms(3) by (auto simp: next_window_def split: option.split)
  then have hit: "window_of (snd (hit c now s)) = Some (now, 1)" "fst (hit c now s) = (1 \<le> cap)"
    using answered[OF assms(1,2), of now] by simp_all
  then show ?thesis
    using answered_window[OF stays_proper[OF assms(1)] assms(4) hit(1)]
    by (simp add: map_upt_Suc less_eq_Suc_le del: upt_Suc)
qed

end

section \<open>The two counters\<close>

text \<open>In Redis every key has an expiry, since the script that makes it sets one; its window began that long before.\<close>

definition counter_proper :: "counter_key \<Rightarrow> bool" where
  "counter_proper k \<longleftrightarrow> (case k of None \<Rightarrow> True | Some (n, e) \<Rightarrow> 1 \<le> n \<and> e \<noteq> None)"

definition counter_window :: "int \<Rightarrow> counter_key \<Rightarrow> window" where
  "counter_window W k = (case k of Some (n, Some t) \<Rightarrow> Some (t - W, n) | _ \<Rightarrow> None)"

definition counter_hit :: "int \<Rightarrow> nat \<Rightarrow> call_end \<Rightarrow> instant \<Rightarrow> counter_key \<Rightarrow> bool \<times> counter_key" where
  "counter_hit W cap e now k =
     (case redisFixedWindowIncr now e W k of
        (Some w, k') \<Rightarrow> (fw_count w \<le> cap, k') | (None, k') \<Rightarrow> (False, k'))"

lemma fixed_window_script:
  assumes "counter_proper k" "0 < W"
  obtains t n where "next_window W now (counter_window W k) = (t, n)" "now < t + W" "t \<le> now \<or> counter_window W k \<noteq> None"
    "FIXED_WINDOW_INCR_SCRIPT now W k = ((n, t + W - now), Some (n, Some (t + W)))" "1 \<le> n"
proof (cases "live_counter now k")
  case None
  then have "next_window W now (counter_window W k) = (now, 1)"
    using assms(1) by (auto simp: live_counter_def counter_proper_def next_window_def counter_window_def split: option.splits if_splits)
  moreover have "FIXED_WINDOW_INCR_SCRIPT now W k = ((1, W), Some (1, Some (now + W)))"
    using None assms(2)
    by (simp add: FIXED_WINDOW_INCR_SCRIPT_def redis_incr_def redis_pexpire_def redis_pttl_def live_counter_def)
  ultimately show thesis using that[of now 1] assms(2) by simp
next
  case (Some p)
  then obtain n t where k: "k = Some (n, Some t)" "now < t" "1 \<le> n"
    using assms(1) by (cases p) (auto simp: live_counter_def counter_proper_def split: option.splits if_splits)
  then have "next_window W now (counter_window W k) = (t - W, n + 1)"
    by (simp add: next_window_def counter_window_def)
  moreover have "FIXED_WINDOW_INCR_SCRIPT now W k = ((n + 1, t - now), Some (n + 1, Some t))"
    using k by (simp add: FIXED_WINDOW_INCR_SCRIPT_def redis_incr_def redis_pttl_def live_counter_def)
  ultimately show thesis using that[of "t - W" "n + 1"] k by (simp add: counter_window_def)
qed

interpretation redis_counter: window_counter counter_proper "counter_window (int (Suc w))" "counter_hit (int (Suc w)) cap"
    "\<lambda>e. e = Answered" "int (Suc w)" cap
proof
  fix k c now assume k: "counter_proper k"
  obtain t n where s: "next_window (int (Suc w)) now (counter_window (int (Suc w)) k) = (t, n)" "1 \<le> n"
    "FIXED_WINDOW_INCR_SCRIPT now (int (Suc w)) k = ((n, t + int (Suc w) - now), Some (n, Some (t + int (Suc w))))"
    using fixed_window_script[OF k] by (metis of_nat_0_less_iff zero_less_Suc)
  have hit: "counter_hit (int (Suc w)) cap c now k =
      (case c of Answered \<Rightarrow> (n \<le> cap, Some (n, Some (t + int (Suc w)))) | Lost_Before \<Rightarrow> (False, k)
       | Lost_After \<Rightarrow> (False, Some (n, Some (t + int (Suc w)))))"
    unfolding counter_hit_def redisFixedWindowIncr_def s(3) by (cases c) simp_all
  show "counter_proper (snd (counter_hit (int (Suc w)) cap c now k))"
    using k s(2) unfolding hit by (cases c) (simp_all add: counter_proper_def)
  show "counter_hit (int (Suc w)) cap c now k = (False, k)
      \<or> counter_window (int (Suc w)) (snd (counter_hit (int (Suc w)) cap c now k))
          = Some (next_window (int (Suc w)) now (counter_window (int (Suc w)) k))
        \<and> (fst (counter_hit (int (Suc w)) cap c now k) \<longrightarrow>
            snd (next_window (int (Suc w)) now (counter_window (int (Suc w)) k)) \<le> cap)"
    unfolding hit s(1) by (cases c) (simp_all add: counter_window_def)
  show "counter_window (int (Suc w)) (snd (counter_hit (int (Suc w)) cap c now k))
          = Some (next_window (int (Suc w)) now (counter_window (int (Suc w)) k))
        \<and> fst (counter_hit (int (Suc w)) cap c now k)
          = (snd (next_window (int (Suc w)) now (counter_window (int (Suc w)) k)) \<le> cap)" if "c = Answered"
    unfolding hit s(1) using that by (simp add: counter_window_def)
qed

text \<open>The budget of a socket lives in its process; the frame that opens a window always passes.\<close>

definition budget_proper :: "message_budget option \<Rightarrow> bool" where
  "budget_proper b \<longleftrightarrow> (case b of None \<Rightarrow> True | Some b \<Rightarrow> 1 \<le> mb_count b)"

definition budget_window :: "message_budget option \<Rightarrow> window" where
  "budget_window b = map_option (\<lambda>b. (mb_windowStartedAt b, mb_count b)) b"

definition frame_hit :: "message_limit \<Rightarrow> unit \<Rightarrow> instant \<Rightarrow> message_budget option \<Rightarrow> bool \<times> message_budget option" where
  "frame_hit opts c now b = (case applyWsMessageRateLimit opts now b of (err, b') \<Rightarrow> (err = None, b'))"

interpretation frames: window_counter budget_proper budget_window "frame_hit opts" "\<lambda>_. True" "ml_windowMs opts"
    "max 1 (ml_max opts)"
proof
  fix b c now assume b: "budget_proper b"
  show "budget_proper (snd (frame_hit opts c now b))"
    by (auto simp: frame_hit_def applyWsMessageRateLimit_def budget_proper_def Let_def split: option.split)
  show *: "budget_window (snd (frame_hit opts c now b)) = Some (next_window (ml_windowMs opts) now (budget_window b))
      \<and> fst (frame_hit opts c now b) = (snd (next_window (ml_windowMs opts) now (budget_window b)) \<le> max 1 (ml_max opts))"
    using b
    by (cases b)
      (auto simp: frame_hit_def applyWsMessageRateLimit_def budget_proper_def budget_window_def next_window_def Let_def)
  then show "frame_hit opts c now b = (False, b)
      \<or> budget_window (snd (frame_hit opts c now b)) = Some (next_window (ml_windowMs opts) now (budget_window b))
        \<and> (fst (frame_hit opts c now b) \<longrightarrow> snd (next_window (ml_windowMs opts) now (budget_window b)) \<le> max 1 (ml_max opts))"
    by blast
qed

section \<open>Guessing passwords\<close>

fun account_run :: "auth_rate_config \<Rightarrow> auth_request list \<Rightarrow> counters \<Rightarrow> (auth_request \<times> hook_answer) list" where
  "account_run cfg [] st = []"
| "account_run cfg (q # qs) st = (case account_bucket cfg q st of (a, st') \<Rightarrow> (q, a) # account_run cfg qs st')"

fun account_state :: "auth_rate_config \<Rightarrow> auth_request list \<Rightarrow> counters \<Rightarrow> counters" where
  "account_state cfg [] st = st"
| "account_state cfg (q # qs) st = account_state cfg qs (snd (account_bucket cfg q st))"

lemma account_run_append:
  "account_run cfg (qs @ qs') st = account_run cfg qs st @ account_run cfg qs' (account_state cfg qs st)"
  by (induction qs arbitrary: st) (simp_all add: case_prod_unfold)

text \<open>Requests are let through unasked only while Redis fails and the limiter is told to fail open.\<close>

definition counted_always :: "auth_rate_config \<Rightarrow> auth_request list \<Rightarrow> bool" where
  "counted_always cfg qs \<longleftrightarrow> \<not> ar_failOpen cfg \<or> (\<forall>q \<in> set qs. aq_end q = Answered)"

lemma account_hit:
  assumes "charged_email cfg q = Some e"
  shows "snd (account_bucket cfg q st) =
      st(account_key cfg e := snd (counter_hit (ar_windowMs cfg) (ar_max cfg) (aq_end q) (aq_now q) (st (account_key cfg e))))"
    and "fst (account_bucket cfg q st) = Continues \<Longrightarrow> \<not> ar_failOpen cfg \<or> aq_end q = Answered \<Longrightarrow>
      fst (counter_hit (ar_windowMs cfg) (ar_max cfg) (aq_end q) (aq_now q) (st (account_key cfg e)))"
    and "aq_end q = Answered \<Longrightarrow> fst (account_bucket cfg q st) = Continues \<longleftrightarrow>
      fst (counter_hit (ar_windowMs cfg) (ar_max cfg) (aq_end q) (aq_now q) (st (account_key cfg e)))"
  by (cases "aq_end q";
      auto simp: account_bucket_def assms counter_hit_def redisFixedWindowIncr_def Let_def split: prod.splits option.splits if_splits)+

lemma account_proper:
  assumes "ar_windowMs cfg = int (Suc w)" "\<forall>k. counter_proper (st k)"
  shows "\<forall>k. counter_proper (snd (account_bucket cfg q st) k)" "\<forall>k. counter_proper (account_state cfg qs st k)"
proof -
  have step: "\<forall>k. counter_proper (snd (account_bucket cfg q st) k)" if "\<forall>k. counter_proper (st k)" for q st
  proof (cases "charged_email cfg q")
    case None
    then show ?thesis using that by (simp add: account_bucket_def)
  next
    case (Some e)
    then show ?thesis
      using that redis_counter.stays_proper[of _ w] by (simp add: account_hit(1) assms(1))
  qed
  then show "\<forall>k. counter_proper (snd (account_bucket cfg q st) k)" using assms(2) by blast
  show "\<forall>k. counter_proper (account_state cfg qs st k)"
    using assms(2) by (induction qs arbitrary: st) (simp_all add: step)
qed

text \<open>What the bucket of one address sees of a run.\<close>

definition hits_on :: "auth_rate_config \<Rightarrow> string \<Rightarrow> auth_request list \<Rightarrow> (call_end \<times> instant) list" where
  "hits_on cfg key qs =
     map (\<lambda>q. (aq_end q, aq_now q)) (filter (\<lambda>q. map_option (account_key cfg) (charged_email cfg q) = Some key) qs)"

definition let_through :: "auth_rate_config \<Rightarrow> string \<Rightarrow> (auth_request \<times> hook_answer) list \<Rightarrow> auth_request list" where
  "let_through cfg e run = map fst (filter (\<lambda>(q, a). charged_email cfg q = Some e \<and> a = Continues) run)"

lemma let_through_passes:
  assumes "ar_windowMs cfg = int (Suc w)" "counted_always cfg qs" "\<forall>k. counter_proper (st k)"
  shows "length (let_through cfg e (account_run cfg qs st))
       \<le> redis_counter.passes w (ar_max cfg) (hits_on cfg (account_key cfg e) qs) (st (account_key cfg e))"
  using assms(2,3)
proof (induction qs arbitrary: st)
  case Nil
  show ?case by (simp add: let_through_def hits_on_def)
next
  case (Cons q qs)
  let ?st = "snd (account_bucket cfg q st)" and ?key = "account_key cfg e"
  let ?p = "redis_counter.passes w (ar_max cfg) (hits_on cfg ?key qs) (?st ?key)"
  have IH: "length (let_through cfg e (account_run cfg qs ?st)) \<le> ?p"
    using Cons.IH[OF _ account_proper(1)[OF assms(1) Cons.prems(2)]] Cons.prems(1)
    by (simp add: counted_always_def)
  have sure: "\<not> ar_failOpen cfg \<or> aq_end q = Answered" using Cons.prems(1) by (simp add: counted_always_def)
  show ?case
  proof (cases "charged_email cfg q")
    case None
    then show ?thesis using IH
      by (simp add: let_through_def hits_on_def case_prod_unfold) (simp add: account_bucket_def)
  next
    case (Some e')
    note hit = account_hit[OF Some, of st]
    show ?thesis
    proof (cases "account_key cfg e' = ?key")
      case True
      have "?st ?key = snd (counter_hit (int (Suc w)) (ar_max cfg) (aq_end q) (aq_now q) (st ?key))"
        using hit(1) True by (simp add: assms(1))
      moreover have "fst (counter_hit (int (Suc w)) (ar_max cfg) (aq_end q) (aq_now q) (st ?key))"
        if "fst (account_bucket cfg q st) = Continues"
        using hit(2)[OF that sure] True by (simp add: assms(1))
      moreover have "hits_on cfg ?key (q # qs) = (aq_end q, aq_now q) # hits_on cfg ?key qs"
        using Some True by (simp add: hits_on_def)
      ultimately show ?thesis
        using IH by (auto simp: let_through_def case_prod_unfold simp del: of_nat_Suc)
    next
      case False
      then have "?st ?key = st ?key" "e' \<noteq> e" using hit(1) by auto
      then show ?thesis
        using IH False Some by (simp add: let_through_def hits_on_def case_prod_unfold)
    qed
  qed
qed

text \<open>A run in order of time splits into what comes before a stretch, in it and after it.\<close>

lemma split_by_time:
  fixes a b :: int
  assumes "sorted (map t qs)" "a \<le> b"
  shows "qs = filter (\<lambda>q. t q < a) qs @ filter (\<lambda>q. a \<le> t q \<and> t q < b) qs @ filter (\<lambda>q. b \<le> t q) qs"
  using assms
proof (induction qs)
  case (Cons q qs)
  then have later: "\<forall>x \<in> set qs. t q \<le> t x" by simp
  consider "t q < a" | "a \<le> t q" "t q < b" | "b \<le> t q" by linarith
  then show ?case
  proof cases
    case 2
    then have "filter (\<lambda>q. t q < a) qs = []" using later by (auto simp: filter_empty_conv)
    then show ?thesis using Cons 2 by auto
  next
    case 3
    then have "filter (\<lambda>q. t q < a) qs = []" "filter (\<lambda>q. a \<le> t q \<and> t q < b) qs = []"
      using later Cons.prems(2) by (auto simp: filter_empty_conv)
    then show ?thesis using Cons 3 by auto
  qed (use Cons in auto)
qed simp

lemma run_requests: "map fst (account_run cfg qs st) = qs"
  by (induction qs arbitrary: st) (simp_all add: case_prod_unfold)

text \<open>No key outlives a window from now.\<close>

definition counters_ok :: "int \<Rightarrow> instant \<Rightarrow> counters \<Rightarrow> bool" where
  "counters_ok W now st \<longleftrightarrow> (\<forall>k. counter_proper (st k) \<and> (\<forall>n t. st k = Some (n, Some t) \<longrightarrow> t \<le> now + W))"

definition limited_answer :: "auth_rate_config \<Rightarrow> auth_request \<Rightarrow> hook_answer \<Rightarrow> bool" where
  "limited_answer cfg q answer \<longleftrightarrow>
     answer = Continues
   \<or> (\<exists>w. answer = Replies (too_many_guesses w) \<and> aq_end q = Answered \<and> ar_max cfg < fw_count w \<and>
          1 \<le> retry_after w \<and> retry_after w \<le> seconds_up (ar_windowMs cfg))
   \<or> answer = Replies auth_unavailable \<and> aq_end q \<noteq> Answered \<and> \<not> ar_failOpen cfg"

lemma counter_ages:
  assumes "counter_proper k" "0 < W" "\<forall>n t. k = Some (n, Some t) \<longrightarrow> t \<le> now + W"
    and "FIXED_WINDOW_INCR_SCRIPT now W k = ((n, ttl), k')"
  shows "0 < ttl" "ttl \<le> W" "k' = Some (n, Some (now + ttl))"
proof -
  obtain t m where s: "next_window W now (counter_window W k) = (t, m)" "now < t + W"
    "FIXED_WINDOW_INCR_SCRIPT now W k = ((m, t + W - now), Some (m, Some (t + W)))"
    using fixed_window_script[OF assms(1,2)] by metis
  moreover have "t \<le> now"
    using s(1) assms(3)
    by (auto simp: next_window_def counter_window_def split: option.splits prod.splits if_splits)
  ultimately show "0 < ttl" "ttl \<le> W" "k' = Some (n, Some (now + ttl))" using assms(4) by auto
qed

lemma account_answers:
  assumes "0 < ar_windowMs cfg" "counters_ok (ar_windowMs cfg) start st" "sorted (start # map aq_now qs)"
  shows "\<forall>(q, answer) \<in> set (account_run cfg qs st). limited_answer cfg q answer"
  using assms(2,3)
proof (induction qs arbitrary: st start)
  case (Cons q qs)
  let ?W = "ar_windowMs cfg"
  have old: "counters_ok ?W (aq_now q) st"
    using Cons.prems by (force simp: counters_ok_def)
  have now: "limited_answer cfg q (fst (account_bucket cfg q st)) \<and> counters_ok ?W (aq_now q) (snd (account_bucket cfg q st))"
  proof (cases "charged_email cfg q")
    case None
    then show ?thesis using old by (simp add: account_bucket_def limited_answer_def)
  next
    case (Some e)
    let ?k = "st (account_key cfg e)"
    obtain n ttl k' where s: "FIXED_WINDOW_INCR_SCRIPT (aq_now q) ?W ?k = ((n, ttl), k')" by (metis surj_pair)
    have age: "0 < ttl" "ttl \<le> ?W" "k' = Some (n, Some (aq_now q + ttl))"
      using counter_ages[OF _ assms(1) _ s] old by (auto simp: counters_ok_def)
    have "1 \<le> n" using s by (auto simp: FIXED_WINDOW_INCR_SCRIPT_def redis_incr_def Let_def split: option.splits prod.splits)
    then have ok': "counters_ok ?W (aq_now q) (st(account_key cfg e := k'))"
      using old age by (auto simp: counters_ok_def counter_proper_def)
    have "retry_after \<lparr> fw_count = n, fw_ttlMs = ttl \<rparr> \<le> seconds_up ?W" "1 \<le> retry_after \<lparr> fw_count = n, fw_ttlMs = ttl \<rparr>"
      using age by (auto simp: retry_after_def seconds_up_def intro: zdiv_mono1)
    then show ?thesis
      using old ok' age(1)
      by (cases "aq_end q")
        (auto simp: account_bucket_def Some redisFixedWindowIncr_def s limited_answer_def Let_def max_def
          intro!: exI[of _ "\<lparr> fw_count = n, fw_ttlMs = ttl \<rparr>"])
  qed
  then show ?case
    using Cons.IH[of "aq_now q" "snd (account_bucket cfg q st)"] Cons.prems(2) by (simp add: case_prod_unfold)
qed simp


text \<open>Two spellings of one address, with a budget of one attempt a minute.\<close>

definition strict_limit :: auth_rate_config where
  "strict_limit =
     \<lparr> ar_max = 1, ar_windowMs = 60000, ar_failOpen = False, ar_sha256 = (\<lambda>s. s),
       ar_lower = (\<lambda>c. if c = CHR ''A'' then CHR ''a'' else c) \<rparr>"

definition attempt :: "string \<Rightarrow> instant \<Rightarrow> call_end \<Rightarrow> auth_request" where
  "attempt email now e =
     \<lparr> aq_route = Some ''/api/auth/sign-in/email'', aq_body = Some (JObj [(''email'', JStr email)]), aq_now = now, aq_end = e \<rparr>"

definition attempts :: "auth_request list" where
  "attempts = [attempt ''Ann'' 0 Answered, attempt '' ann '' 1 Answered, attempt ''ann'' 2 Lost_Before, attempt ''bob'' 3 Answered]"


section \<open>The other limits\<close>

text \<open>An address whose window is over starts a new one.\<close>

lemma attempt_after_window:
  assumes "charged_email cfg q = Some e" "aq_end q = Answered" "0 < ar_windowMs cfg" "1 \<le> ar_max cfg"
    and "counter_proper (st (account_key cfg e))"
    and "\<forall>t n. counter_window (ar_windowMs cfg) (st (account_key cfg e)) = Some (t, n) \<longrightarrow> t + ar_windowMs cfg \<le> aq_now q"
  shows "fst (account_bucket cfg q st) = Continues"
proof -
  obtain w where w: "ar_windowMs cfg = int (Suc w)" using assms(3) by (metis gr0_implies_Suc zero_less_imp_eq_int)
  have "redis_counter.admitted w (ar_max cfg) [(aq_end q, aq_now q)] (st (account_key cfg e)) = [0 < ar_max cfg]"
    using redis_counter.fresh_window[OF assms(5) assms(2), where hs = "[]"] assms(6) w by simp
  then show ?thesis using account_hit(3)[OF assms(1,2), of st] assms(4) w by (simp del: of_nat_Suc)
qed

text \<open>The frames of a socket: at most twice the budget in any stretch as long as the window, and of the frames of one
  window exactly the first.\<close>

lemma frames_bounded:
  assumes "budget_proper b" "sorted (map snd hs)" "\<forall>(c, x) \<in> set hs. a \<le> x \<and> x < a + ml_windowMs opts"
  shows "frames.passes opts hs b \<le> 2 * max 1 (ml_max opts)"
proof -
  have "frames.passes opts hs b \<le> redis_counter.quota (max 1 (ml_max opts)) (budget_window b) + max 1 (ml_max opts)"
    by (rule frames.within_stretch[OF assms])
  then show ?thesis by (auto simp: redis_counter.quota_def split: option.splits)
qed

lemma first_frames_pass:
  assumes "\<forall>(c, x) \<in> set hs. x < now + ml_windowMs opts"
  shows "frames.admitted opts (((), now) # hs) None = map (\<lambda>i. i < max 1 (ml_max opts)) [0..<Suc (length hs)]"
  using frames.fresh_window[where s = None and now = now and hs = hs and opts = opts] assms by (simp add: budget_proper_def budget_window_def)

text \<open>The dashboard never opens without the credentials, and with them always.\<close>

lemma board_opens_iff: "fst (bull_board_hook expected credentials ip now e st) = Continues \<longleftrightarrow> credentials = Some expected"
  by (auto simp: bull_board_hook_def split: prod.split option.split)

end
