(* ===== verification/Sockets.thy ===== *)
theory Sockets
  imports Rate_Limits
begin

text \<open>The web sockets of the api (apps/api/src/websocket): which origins may open one, the session check of the
  handshake, the leases in Redis that bound the sockets of one address, and the rounds that check every session again a few at
  a time. Better Auth's getSession and the proxy-addr package are parameters. The clocks of the processes and of
  Redis are taken to agree.\<close>

section \<open>Credentials\<close>

definition SCHEME :: string where
  "SCHEME = ''bearer ''"

definition extractBearerToken :: "(char \<Rightarrow> char) \<Rightarrow> header \<Rightarrow> string option" where
  "extractBearerToken lower_case h =
     (case (case h of NoHeader \<Rightarrow> None | OneHeader v \<Rightarrow> Some v | ManyHeaders [] \<Rightarrow> None | ManyHeaders (v # _) \<Rightarrow> Some v) of
        None \<Rightarrow> None
      | Some v \<Rightarrow>
          if map lower_case (take (length SCHEME) v) \<noteq> SCHEME then None
          else truthy (Some (trim (drop (length SCHEME) v))))"

text \<open>The session travels in a cookie, or as a token of the handshake, or in the Authorization header.\<close>

record socket_handshake =
  hk_cookie :: "string option"
  hk_token :: "string option"
  hk_authorization :: header
  hk_forwardedFor :: header
  hk_remoteAddress :: "string option"

datatype ws_failure = WsPublicError string | SessionFault failure

record ws_user =
  wu_userId :: id
  wu_email :: string
  wu_role :: string

definition session_headers :: "(char \<Rightarrow> char) \<Rightarrow> socket_handshake \<Rightarrow> (string \<times> string) list" where
  "session_headers lower_case h =
     (let bearer = (case truthy (hk_token h) of Some t \<Rightarrow> Some t | None \<Rightarrow> extractBearerToken lower_case (hk_authorization h)) in
      (case truthy (hk_cookie h) of Some c \<Rightarrow> [(''cookie'', c)] | None \<Rightarrow> []) @
      (case bearer of Some t \<Rightarrow> [(''authorization'', ''Bearer '' @ t)] | None \<Rightarrow> []))"

definition revalidateWsSession ::
    "(char \<Rightarrow> char) \<Rightarrow> ((string \<times> string) list \<Rightarrow> failure + found_session option) \<Rightarrow> instant \<Rightarrow> socket_handshake
     \<Rightarrow> ws_failure + ws_user" where
  "revalidateWsSession lower_case getSession now h =
     (if session_headers lower_case h = [] then Inl (WsPublicError ''UNAUTHORIZED: No session credentials provided'')
      else
        (case getSession (session_headers lower_case h) of
           Inl f \<Rightarrow> Inl (SessionFault f)
         | Inr res \<Rightarrow>
             (case (Option.bind res fs_user, Option.bind res fs_session) of
                (Some user, Some session) \<Rightarrow>
                  if \<exists>t. ss_expiresAt session = Some t \<and> t < now
                  then Inl (WsPublicError ''UNAUTHORIZED: Session expired'')
                  else if su_status user \<noteq> USER_STATUS_ACTIVE
                  then Inl (WsPublicError ''UNAUTHORIZED: Account not active'')
                  else Inr \<lparr> wu_userId = su_id user, wu_email = su_email user, wu_role = su_role user \<rparr>
              | _ \<Rightarrow> Inl (WsPublicError ''UNAUTHORIZED: Invalid session''))))"

text \<open>Origins: None of \<open>origin\<close> is a client that sends none.\<close>

definition DEV_ALLOWED_ORIGINS :: "string list" where
  "DEV_ALLOWED_ORIGINS =
     [''http://localhost:3000'', ''http://localhost:4200'', ''http://localhost:5173'', ''http://localhost:8080'',
      ''http://127.0.0.1:3000'', ''http://127.0.0.1:4200'', ''http://127.0.0.1:5173'']"

definition wsCorsOrigin :: "process_env \<Rightarrow> string option \<Rightarrow> bool" where
  "wsCorsOrigin env origin =
     (let wsOrigins = filter (\<lambda>v. v \<noteq> []) (map trim (split_on CHR '','' (default_to [] (env ''CORS_ORIGINS''))));
          isProd = (env ''NODE_ENV'' = Some ''production'') in
      case truthy origin of
        None \<Rightarrow> True
      | Some x \<Rightarrow>
          if wsOrigins \<noteq> [] then x \<in> set wsOrigins else \<not> isProd \<and> x \<in> set DEV_ALLOWED_ORIGINS)"

section \<open>Leases of connections\<close>

text \<open>A sorted set of Redis: the members with their scores, here the times their leases end; the key itself expires
  too.\<close>

type_synonym lease_set = "((string \<times> instant) list \<times> instant) option"

definition WS_CONN_KEY_PREFIX :: string where
  "WS_CONN_KEY_PREFIX = ''ws:conn:''"

definition WS_CONN_TTL_MS :: int where
  "WS_CONN_TTL_MS = 600000"

definition members_now :: "instant \<Rightarrow> lease_set \<Rightarrow> (string \<times> instant) list" where
  "members_now now k = (case k of Some (z, t) \<Rightarrow> if now < t then z else [] | None \<Rightarrow> [])"

definition ACQUIRE_CONNECTION_SCRIPT :: "instant \<Rightarrow> int \<Rightarrow> string \<Rightarrow> lease_set \<Rightarrow> nat \<times> lease_set" where
  "ACQUIRE_CONNECTION_SCRIPT now ttl member k =
     (let z = AList.update member (now + ttl) (filter (\<lambda>(_, score). now < score) (members_now now k))
      in (length z, Some (z, now + ttl)))"

definition RELEASE_CONNECTION_SCRIPT :: "instant \<Rightarrow> string \<Rightarrow> lease_set \<Rightarrow> lease_set" where
  "RELEASE_CONNECTION_SCRIPT now member k =
     (let z = AList.delete member (members_now now k) in
      case k of Some (_, t) \<Rightarrow> if z = [] then None else Some (z, t) | None \<Rightarrow> None)"

text \<open>The address the leases are counted under. With no trusted proxies it is the peer's.\<close>

definition forwarded_for :: "header \<Rightarrow> string option" where
  "forwarded_for h =
     (case h of NoHeader \<Rightarrow> None | OneHeader v \<Rightarrow> Some v | ManyHeaders vs \<Rightarrow> Some (join_with '', '' vs))"

definition resolveClientIp :: "(string option \<Rightarrow> string \<Rightarrow> string) option \<Rightarrow> socket_handshake \<Rightarrow> string option" where
  "resolveClientIp proxy_addr h =
     (case (truthy (hk_remoteAddress h), proxy_addr) of
        (Some direct, Some resolve) \<Rightarrow> Some (resolve (forwarded_for (hk_forwardedFor h)) direct)
      | _ \<Rightarrow> hk_remoteAddress h)"

text \<open>The middleware of the handshake: what \<open>next\<close> is called with, the lease the socket keeps, and the leases in Redis.
  The two calls of one handshake are apart, and what others do in between is \<open>between\<close>.\<close>

datatype handshake_answer = Connected ws_user "(string \<times> string) option" | Denied string

type_synonym lease_sets = "string \<Rightarrow> lease_set"

definition lease_effect :: "call_end \<Rightarrow> lease_set \<Rightarrow> lease_set \<Rightarrow> lease_set" where
  "lease_effect e old new = (if e = Lost_Before then old else new)"

record ws_options =
  wo_redis :: bool
  wo_maxConcurrentPerIp :: nat
  wo_proxyAddr :: "(string option \<Rightarrow> string \<Rightarrow> string) option"
  wo_lower :: "char \<Rightarrow> char"
  wo_getSession :: "(string \<times> string) list \<Rightarrow> failure + found_session option"

definition ws_lease_phase ::
    "ws_options \<Rightarrow> (lease_sets \<Rightarrow> lease_sets) \<Rightarrow> instant \<times> instant \<Rightarrow> call_end \<times> call_end \<Rightarrow> string \<Rightarrow> ws_user \<Rightarrow> string option
     \<Rightarrow> lease_sets \<Rightarrow> handshake_answer \<times> lease_sets" where
  "ws_lease_phase opts between clock ends socket_id user ip st =
     (case (if wo_redis opts then truthy ip else None) of
        None \<Rightarrow> (Connected user None, st)
      | Some ip \<Rightarrow>
          (let key = WS_CONN_KEY_PREFIX @ ip in
           case ACQUIRE_CONNECTION_SCRIPT (fst clock) WS_CONN_TTL_MS socket_id (st key) of
             (n, k) \<Rightarrow>
               (let st1 = st(key := lease_effect (fst ends) (st key) k) in
                if fst ends \<noteq> Answered then (Connected user None, st1)
                else if wo_maxConcurrentPerIp opts < n
                then
                  (let st2 = between st1;
                       st3 = st2(key := lease_effect (snd ends) (st2 key) (RELEASE_CONNECTION_SCRIPT (snd clock) socket_id (st2 key)))
                   in if snd ends \<noteq> Answered then (Connected user None, st3)
                      else (Denied ''TOO_MANY_CONNECTIONS: Per-IP limit exceeded'', st3))
                else (Connected user (Some (key, socket_id)), st1))))"

definition ws_handshake ::
    "ws_options \<Rightarrow> (lease_sets \<Rightarrow> lease_sets) \<Rightarrow> instant \<times> instant \<Rightarrow> call_end \<times> call_end \<Rightarrow> string \<Rightarrow> socket_handshake
     \<Rightarrow> lease_sets \<Rightarrow> handshake_answer \<times> lease_sets" where
  "ws_handshake opts between clock ends socket_id h st =
     (case revalidateWsSession (wo_lower opts) (wo_getSession opts) (fst clock) h of
        Inl (WsPublicError m) \<Rightarrow> (Denied m, st)
      | Inl (SessionFault _) \<Rightarrow> (Denied ''UNAUTHORIZED: Session validation failed'', st)
      | Inr user \<Rightarrow> ws_lease_phase opts between clock ends socket_id user (resolveClientIp (wo_proxyAddr opts) h) st)"

definition renewWsConnectionLease :: "instant \<Rightarrow> call_end \<Rightarrow> (string \<times> string) option \<Rightarrow> lease_sets \<Rightarrow> bool \<times> lease_sets" where
  "renewWsConnectionLease now e lease st =
     (case lease of
        None \<Rightarrow> (True, st)
      | Some (key, member) \<Rightarrow>
          (e = Answered, st(key := lease_effect e (st key) (snd (ACQUIRE_CONNECTION_SCRIPT now WS_CONN_TTL_MS member (st key))))))"

definition releaseWsConnectionLease :: "instant \<Rightarrow> call_end \<Rightarrow> (string \<times> string) option \<Rightarrow> lease_sets \<Rightarrow> bool \<times> lease_sets" where
  "releaseWsConnectionLease now e lease st =
     (case lease of
        None \<Rightarrow> (True, st)
      | Some (key, member) \<Rightarrow>
          (e = Answered, st(key := lease_effect e (st key) (RELEASE_CONNECTION_SCRIPT now member (st key)))))"

text \<open>A connected socket whose session is no longer good is disconnected; a failed renewal is only logged.\<close>

definition revalidateSocket ::
    "ws_options \<Rightarrow> instant \<Rightarrow> instant \<Rightarrow> call_end \<Rightarrow> socket_handshake \<Rightarrow> (string \<times> string) option \<Rightarrow> lease_sets
     \<Rightarrow> ws_user option \<times> lease_sets" where
  "revalidateSocket opts checked now e h lease st =
     (case revalidateWsSession (wo_lower opts) (wo_getSession opts) checked h of
        Inl _ \<Rightarrow> (None, st)
      | Inr user \<Rightarrow> (Some user, snd (renewWsConnectionLease now e lease st)))"

section \<open>A few at a time\<close>

record 'a limiter =
  lm_active :: nat
  lm_queue :: "'a list"
  lm_started :: "'a list"

text \<open>The ghost \<open>lm_started\<close> holds every task let in, in that order. \<open>acquire\<close> lets a task in or queues it;
  \<open>release\<close>, called by a task that ends, lets in the one that waited longest.\<close>

definition new_limiter :: "int \<Rightarrow> 'a limiter option" where
  "new_limiter maxConcurrent =
     (if maxConcurrent < 1 then None else Some \<lparr> lm_active = 0, lm_queue = [], lm_started = [] \<rparr>)"

definition limiter_acquire :: "nat \<Rightarrow> 'a \<Rightarrow> 'a limiter \<Rightarrow> 'a limiter" where
  "limiter_acquire maxConcurrent x l =
     (if lm_active l < maxConcurrent then l \<lparr> lm_active := lm_active l + 1, lm_started := lm_started l @ [x] \<rparr>
      else l \<lparr> lm_queue := lm_queue l @ [x] \<rparr>)"

definition limiter_release :: "'a limiter \<Rightarrow> 'a limiter" where
  "limiter_release l =
     (let l' = l \<lparr> lm_active := lm_active l - 1 \<rparr> in
      case lm_queue l' of
        [] \<Rightarrow> l'
      | y # q \<Rightarrow> l' \<lparr> lm_queue := q, lm_active := lm_active l' + 1, lm_started := lm_started l' @ [y] \<rparr>)"

text \<open>A round: tasks arrive, and running ones end.\<close>

datatype 'a limiter_event = Arrives 'a | Ends

fun limiter_run :: "nat \<Rightarrow> 'a limiter_event list \<Rightarrow> 'a limiter \<Rightarrow> 'a limiter" where
  "limiter_run m [] l = l"
| "limiter_run m (Arrives x # es) l = limiter_run m es (limiter_acquire m x l)"
| "limiter_run m (Ends # es) l = limiter_run m es (if 0 < lm_active l then limiter_release l else l)"

fun arrivals :: "'a limiter_event list \<Rightarrow> 'a list" where
  "arrivals [] = []"
| "arrivals (Arrives x # es) = x # arrivals es"
| "arrivals (Ends # es) = arrivals es"

text \<open>Never more than the limit run, nobody waits while there is room, and tasks are let in in the order they came.\<close>

lemma limiter_round:
  assumes "0 < m" "lm_active l \<le> m" "lm_queue l \<noteq> [] \<longrightarrow> lm_active l = m"
  shows "lm_active (limiter_run m es l) \<le> m"
    and "lm_queue (limiter_run m es l) \<noteq> [] \<longrightarrow> lm_active (limiter_run m es l) = m"
    and "lm_started (limiter_run m es l) @ lm_queue (limiter_run m es l) = lm_started l @ lm_queue l @ arrivals es"
proof -
  have "lm_active (limiter_run m es l) \<le> m
      \<and> (lm_queue (limiter_run m es l) \<noteq> [] \<longrightarrow> lm_active (limiter_run m es l) = m)
      \<and> lm_started (limiter_run m es l) @ lm_queue (limiter_run m es l) = lm_started l @ lm_queue l @ arrivals es"
    using assms
  proof (induction m es l rule: limiter_run.induct)
    case (2 m x es l)
    then show ?case by (cases "lm_queue l = []") (auto simp: limiter_acquire_def)
  next
    case (3 m es l)
    then show ?case
      by (cases "lm_queue l") (auto simp: limiter_release_def Let_def split: if_splits)
  qed simp
  then show "lm_active (limiter_run m es l) \<le> m"
    "lm_queue (limiter_run m es l) \<noteq> [] \<longrightarrow> lm_active (limiter_run m es l) = m"
    "lm_started (limiter_run m es l) @ lm_queue (limiter_run m es l) = lm_started l @ lm_queue l @ arrivals es"
    by blast+
qed

section \<open>Who gets a socket\<close>

definition public_denials :: "string list" where
  "public_denials =
     [''UNAUTHORIZED: No session credentials provided'', ''UNAUTHORIZED: Invalid session'', ''UNAUTHORIZED: Session expired'',
      ''UNAUTHORIZED: Account not active'', ''UNAUTHORIZED: Session validation failed'',
      ''TOO_MANY_CONNECTIONS: Per-IP limit exceeded'']"

lemma session_checked:
  assumes "revalidateWsSession lower_case getSession now h = Inr u"
  obtains found user session where "getSession (session_headers lower_case h) = Inr (Some found)"
    "fs_user found = Some user" "fs_session found = Some session" "su_status user = USER_STATUS_ACTIVE"
    "\<forall>t. ss_expiresAt session = Some t \<longrightarrow> now \<le> t" "wu_userId u = su_id user"
  using assms
  by (fastforce simp: revalidateWsSession_def split: if_splits sum.splits option.splits bind_splits)

text \<open>A socket is connected only for an unexpired session of an active account, and what a client that is turned away
  reads is one of six fixed texts, whatever went wrong inside.\<close>

lemma handshake_answers:
  "(case fst (ws_handshake opts between clock ends i h st) of
      Connected u _ \<Rightarrow> revalidateWsSession (wo_lower opts) (wo_getSession opts) (fst clock) h = Inr u
    | Denied m \<Rightarrow> m \<in> set public_denials)"
  by (auto simp: ws_handshake_def ws_lease_phase_def revalidateWsSession_def public_denials_def Let_def
      split: sum.splits option.splits ws_failure.splits prod.splits if_splits)

section \<open>The sockets of one address\<close>

text \<open>All handshakes, rounds and closings of the sockets behind one address, on any replica. A socket is being turned
  away between the two calls of its handshake, keeps a lease, or came in without one because a call failed.
  A round that checked a session before its socket closed may still renew the lease afterwards. The ghost \<open>wy_late\<close>
  says that a lease was renewed after it had run out.\<close>

record ws_system =
  wy_now :: instant
  wy_key :: lease_set
  wy_rejecting :: "string set"
  wy_leased :: "string set"
  wy_open :: "string set"
  wy_closed :: "string set"
  wy_late :: bool

definition known_sockets :: "ws_system \<Rightarrow> string set" where
  "known_sockets s = wy_rejecting s \<union> wy_leased s \<union> wy_open s \<union> wy_closed s"

definition lease_runs :: "ws_system \<Rightarrow> string \<Rightarrow> bool" where
  "lease_runs s i \<longleftrightarrow> (\<exists>t. (i, t) \<in> set (members_now (wy_now s) (wy_key s)) \<and> wy_now s < t)"

inductive ws_step :: "nat \<Rightarrow> ws_system \<Rightarrow> ws_system \<Rightarrow> bool" for maxPerIp where
  time_passes: "wy_now s \<le> t \<Longrightarrow> ws_step maxPerIp s (s \<lparr> wy_now := t \<rparr>)"
| let_in: "i \<notin> known_sockets s \<Longrightarrow> ACQUIRE_CONNECTION_SCRIPT (wy_now s) WS_CONN_TTL_MS i (wy_key s) = (n, k) \<Longrightarrow>
     n \<le> maxPerIp \<Longrightarrow> ws_step maxPerIp s (s \<lparr> wy_key := k, wy_leased := insert i (wy_leased s) \<rparr>)"
| over_limit: "i \<notin> known_sockets s \<Longrightarrow> ACQUIRE_CONNECTION_SCRIPT (wy_now s) WS_CONN_TTL_MS i (wy_key s) = (n, k) \<Longrightarrow>
     maxPerIp < n \<Longrightarrow> ws_step maxPerIp s (s \<lparr> wy_key := k, wy_rejecting := insert i (wy_rejecting s) \<rparr>)"
| acquire_fails: "i \<notin> known_sockets s \<Longrightarrow> ACQUIRE_CONNECTION_SCRIPT (wy_now s) WS_CONN_TTL_MS i (wy_key s) = (n, k) \<Longrightarrow>
     e \<noteq> Answered \<Longrightarrow> ws_step maxPerIp s (s \<lparr> wy_key := lease_effect e (wy_key s) k, wy_open := insert i (wy_open s) \<rparr>)"
| turned_away: "i \<in> wy_rejecting s \<Longrightarrow>
     ws_step maxPerIp s (s \<lparr> wy_key := RELEASE_CONNECTION_SCRIPT (wy_now s) i (wy_key s),
       wy_rejecting := wy_rejecting s - {i}, wy_closed := insert i (wy_closed s) \<rparr>)"
| release_fails: "i \<in> wy_rejecting s \<Longrightarrow> e \<noteq> Answered \<Longrightarrow>
     ws_step maxPerIp s (s \<lparr> wy_key := lease_effect e (wy_key s) (RELEASE_CONNECTION_SCRIPT (wy_now s) i (wy_key s)),
       wy_rejecting := wy_rejecting s - {i}, wy_open := insert i (wy_open s) \<rparr>)"
| renewed: "i \<in> wy_leased s \<Longrightarrow>
     ws_step maxPerIp s (s \<lparr> wy_key := lease_effect e (wy_key s) (snd (ACQUIRE_CONNECTION_SCRIPT (wy_now s) WS_CONN_TTL_MS i (wy_key s))),
       wy_late := (wy_late s \<or> \<not> lease_runs s i) \<rparr>)"
| renewed_closed: "i \<in> wy_closed s \<Longrightarrow>
     ws_step maxPerIp s (s \<lparr> wy_key := lease_effect e (wy_key s) (snd (ACQUIRE_CONNECTION_SCRIPT (wy_now s) WS_CONN_TTL_MS i (wy_key s))) \<rparr>)"
| closed: "i \<in> wy_leased s \<Longrightarrow>
     ws_step maxPerIp s (s \<lparr> wy_key := lease_effect e (wy_key s) (RELEASE_CONNECTION_SCRIPT (wy_now s) i (wy_key s)),
       wy_leased := wy_leased s - {i}, wy_closed := insert i (wy_closed s) \<rparr>)"
| closed_open: "i \<in> wy_open s \<Longrightarrow>
     ws_step maxPerIp s (s \<lparr> wy_open := wy_open s - {i}, wy_closed := insert i (wy_closed s) \<rparr>)"

definition no_sockets :: ws_system where
  "no_sockets =
     \<lparr> wy_now = 0, wy_key = None, wy_rejecting = {}, wy_leased = {}, wy_open = {}, wy_closed = {}, wy_late = False \<rparr>"

text \<open>The sockets that keep a lease which runs.\<close>

definition counted_sockets :: "ws_system \<Rightarrow> string set" where
  "counted_sockets s = {i \<in> wy_leased s. lease_runs s i}"

definition cap_holds :: "nat \<Rightarrow> ws_system \<Rightarrow> bool" where
  "cap_holds maxPerIp s \<longleftrightarrow>
     finite (wy_leased s) \<and> (\<not> wy_late s \<longrightarrow> card (counted_sockets s) \<le> maxPerIp)"

lemma update_others: "j \<noteq> i \<Longrightarrow> (j, t) \<in> set (AList.update i v al) \<longleftrightarrow> (j, t) \<in> set al"
  by (induction al) auto

lemma acquire_members:
  assumes "ACQUIRE_CONNECTION_SCRIPT now WS_CONN_TTL_MS i k = (n, k')"
  shows "length (members_now now k') = n"
    and "j \<noteq> i \<Longrightarrow> now < t \<Longrightarrow> (j, t) \<in> set (members_now now k') \<longleftrightarrow> (j, t) \<in> set (members_now now k)"
  using assms by (auto simp: ACQUIRE_CONNECTION_SCRIPT_def Let_def members_now_def WS_CONN_TTL_MS_def update_others)

lemma release_members:
  "set (members_now now (RELEASE_CONNECTION_SCRIPT now i k)) \<subseteq> set (members_now now k)"
  by (auto simp: RELEASE_CONNECTION_SCRIPT_def members_now_def Let_def AList.delete_eq split: option.splits if_splits prod.splits)

text \<open>What does not let a socket in leaves no more of them counted.\<close>

lemma cap_kept:
  assumes "cap_holds m s" "wy_leased s' \<subseteq> wy_leased s" "wy_late s \<longrightarrow> wy_late s'"
    and "\<And>j. \<not> wy_late s' \<Longrightarrow> j \<in> wy_leased s' \<Longrightarrow> lease_runs s' j \<Longrightarrow> lease_runs s j"
  shows "cap_holds m s'"
proof -
  have fin: "finite (wy_leased s)" using assms(1) by (simp add: cap_holds_def)
  have "card (counted_sockets s') \<le> m" if "\<not> wy_late s'"
  proof -
    have "counted_sockets s' \<subseteq> counted_sockets s" using assms(2,4) that by (auto simp: counted_sockets_def)
    moreover have "finite (counted_sockets s)" using fin by (simp add: counted_sockets_def)
    ultimately have "card (counted_sockets s') \<le> card (counted_sockets s)" by (intro card_mono)
    also have "\<dots> \<le> m" using assms(1,3) that by (auto simp: cap_holds_def)
    finally show ?thesis .
  qed
  moreover have "finite (wy_leased s')" using assms(2) fin by (rule finite_subset)
  ultimately show ?thesis by (simp add: cap_holds_def)
qed

lemma runs_earlier:
  assumes "lease_runs (s \<lparr> wy_now := t \<rparr>) j" "wy_now s \<le> t"
  shows "lease_runs s j"
proof (cases "wy_key s")
  case None
  then show ?thesis using assms(1) by (simp add: lease_runs_def members_now_def)
next
  case (Some p)
  then show ?thesis
    using assms by (cases p) (auto simp: lease_runs_def members_now_def split: if_splits)
qed

lemma renewed_runs:
  assumes "lease_runs (s \<lparr> wy_key := lease_effect e (wy_key s)
      (snd (ACQUIRE_CONNECTION_SCRIPT (wy_now s) WS_CONN_TTL_MS i (wy_key s))) \<rparr>) j" "j \<noteq> i"
  shows "lease_runs s j"
proof -
  obtain n k where k: "ACQUIRE_CONNECTION_SCRIPT (wy_now s) WS_CONN_TTL_MS i (wy_key s) = (n, k)" by fastforce
  show ?thesis
    using assms acquire_members(2)[OF k assms(2)]
    by (auto simp: lease_runs_def k lease_effect_def split: if_splits)
qed

lemma cap_step:
  assumes "ws_step m s s'" "cap_holds m s" "wy_leased s \<inter> wy_closed s = {}"
  shows "cap_holds m s'"
  using assms
proof (cases rule: ws_step.cases)
  case (let_in i n k)
  have runs: "j \<in> fst ` set (members_now (wy_now s) k)" if "lease_runs s' j" for j
    using that by (force simp: let_in lease_runs_def)
  then have "counted_sockets s' \<subseteq> fst ` set (members_now (wy_now s) k)" by (auto simp: counted_sockets_def)
  then have "card (counted_sockets s') \<le> length (members_now (wy_now s) k)"
    by (meson List.finite_set card_image_le card_length card_mono finite_imageI le_trans)
  then show ?thesis
    using let_in acquire_members(1)[OF let_in(3)] assms(2) by (simp add: cap_holds_def)
next
  case (time_passes t)
  then show ?thesis
    using runs_earlier by (intro cap_kept[OF assms(2)]) auto
next
  case (over_limit i n k)
  then show ?thesis
    using renewed_runs[where s = s and e = Answered and i = i]
    by (intro cap_kept[OF assms(2)]) (auto simp: lease_effect_def known_sockets_def lease_runs_def)
next
  case (acquire_fails i n k e)
  then show ?thesis
    using renewed_runs[where s = s and e = e and i = i]
    by (intro cap_kept[OF assms(2)]) (auto simp: known_sockets_def lease_runs_def)
next
  case (renewed i e)
  then show ?thesis
    using renewed_runs[where s = s and e = e and i = i] by (intro cap_kept[OF assms(2)]) (auto simp: lease_runs_def)
next
  case (renewed_closed i e)
  then show ?thesis
    using renewed_runs[where s = s and e = e and i = i] assms(3) by (intro cap_kept[OF assms(2)]) (auto simp: lease_runs_def)
next
  case (turned_away i)
  then show ?thesis
    using release_members[of "wy_now s" i "wy_key s"]
    by (intro cap_kept[OF assms(2)]) (auto simp: lease_runs_def)
next
  case (release_fails i e)
  then show ?thesis
    using release_members[of "wy_now s" i "wy_key s"]
    by (intro cap_kept[OF assms(2)]) (auto simp: lease_runs_def lease_effect_def split: if_splits)
next
  case (closed i e)
  then show ?thesis
    using release_members[of "wy_now s" i "wy_key s"]
    by (intro cap_kept[OF assms(2)]) (auto simp: lease_runs_def lease_effect_def split: if_splits)
next
  case (closed_open i)
  then show ?thesis by (intro cap_kept[OF assms(2)]) (auto simp: lease_runs_def)
qed

text \<open>A socket is in one place at a time.\<close>

definition apart :: "ws_system \<Rightarrow> bool" where
  "apart s \<longleftrightarrow>
     wy_rejecting s \<inter> wy_leased s = {} \<and> wy_rejecting s \<inter> wy_open s = {} \<and> wy_rejecting s \<inter> wy_closed s = {} \<and>
     wy_leased s \<inter> wy_open s = {} \<and> wy_leased s \<inter> wy_closed s = {} \<and> wy_open s \<inter> wy_closed s = {}"

lemma apart_step: "ws_step m s s' \<Longrightarrow> apart s \<Longrightarrow> apart s'"
  by (induction rule: ws_step.induct) (auto simp: apart_def known_sockets_def)


text \<open>A limit of one: the second socket is turned away.\<close>

definition one_socket :: ws_system where
  "one_socket = no_sockets \<lparr> wy_key := Some ([(''s1'', 600000)], 600000), wy_leased := {''s1''} \<rparr>"

definition second_refused :: ws_system where
  "second_refused = one_socket \<lparr> wy_key := Some ([(''s1'', 600000), (''s2'', 600000)], 600000), wy_rejecting := {''s2''} \<rparr>"


end
