(* ===== verification/Gateway.thy ===== *)
theory Gateway
  imports Sockets
begin

text \<open>The gateway of the web sockets (notification.gateway.ts): what happens to a socket when it connects, in a round that
  checks every session again, and when the process shuts down. The ids of the sockets of a process are distinct. A round takes
  the sockets in the order their random delays end (\<open>arrivals\<close>) and skips those whose delay ends after the shutdown
  began; how many run at once is the limiter of Sockets.\<close>

record gateway_socket =
  gs_id :: string
  gs_handshake :: socket_handshake
  gs_user :: "ws_user option"
  gs_lease :: "(string \<times> string) option"
  gs_rooms :: "string list"
  gs_connected :: bool

text \<open>A socket without a user, or whose room cannot be joined, is disconnected. The budget its messages get from then on is
  \<open>applyWsMessageRateLimit\<close> of Rate_Limits.\<close>

definition handleConnection :: "bool \<Rightarrow> gateway_socket \<Rightarrow> gateway_socket" where
  "handleConnection joins s =
     (case gs_user s of
        None \<Rightarrow> s \<lparr> gs_connected := False \<rparr>
      | Some user \<Rightarrow>
          if joins then s \<lparr> gs_rooms := gs_rooms s @ [''user:'' @ wu_userId user] \<rparr> else s \<lparr> gs_connected := False \<rparr>)"

record round_call =
  rc_checked :: instant
  rc_renewed :: instant
  rc_end :: call_end
  rc_aborted :: bool

definition revalidate_connected ::
    "ws_options \<Rightarrow> round_call \<Rightarrow> gateway_socket \<Rightarrow> lease_sets \<Rightarrow> gateway_socket \<times> lease_sets" where
  "revalidate_connected opts c s st =
     (if rc_aborted c then (s, st)
      else
        (case revalidateSocket opts (rc_checked c) (rc_renewed c) (rc_end c) (gs_handshake s) (gs_lease s) st of
           (None, st') \<Rightarrow> (s \<lparr> gs_connected := False \<rparr>, st')
         | (Some user, st') \<Rightarrow> (s \<lparr> gs_user := Some user \<rparr>, st')))"

text \<open>A round over the sockets there were when it began.\<close>

fun revalidateConnectedSockets ::
    "ws_options \<Rightarrow> (string \<Rightarrow> round_call) \<Rightarrow> gateway_socket list \<Rightarrow> lease_sets \<Rightarrow> gateway_socket list \<times> lease_sets" where
  "revalidateConnectedSockets opts calls [] st = ([], st)"
| "revalidateConnectedSockets opts calls (s # ss) st =
     (case revalidate_connected opts (calls (gs_id s)) s st of
        (s', st') \<Rightarrow> (case revalidateConnectedSockets opts calls ss st' of (ss', st'') \<Rightarrow> (s' # ss', st'')))"

text \<open>A failed release is left to the time to live.\<close>

fun onApplicationShutdown :: "(string \<Rightarrow> instant \<times> call_end) \<Rightarrow> gateway_socket list \<Rightarrow> lease_sets \<Rightarrow> lease_sets" where
  "onApplicationShutdown calls [] st = st"
| "onApplicationShutdown calls (s # ss) st =
     onApplicationShutdown calls ss
       (snd (releaseWsConnectionLease (fst (calls (gs_id s))) (snd (calls (gs_id s))) (gs_lease s) st))"

section \<open>Who stays connected\<close>

text \<open>What a round does to a socket: the shutdown skips it, or it stays exactly if its session is good when it is checked.\<close>

definition checked_socket :: "ws_options \<Rightarrow> (string \<Rightarrow> round_call) \<Rightarrow> gateway_socket \<Rightarrow> gateway_socket \<Rightarrow> bool" where
  "checked_socket opts calls s s' \<longleftrightarrow>
     (let c = calls (gs_id s);
          session = revalidateWsSession (wo_lower opts) (wo_getSession opts) (rc_checked c) (gs_handshake s)
      in if rc_aborted c then s' = s
         else case session of Inl _ \<Rightarrow> s' = s \<lparr> gs_connected := False \<rparr> | Inr u \<Rightarrow> s' = s \<lparr> gs_user := Some u \<rparr>)"

lemma round_checks_every_socket:
  "revalidateConnectedSockets opts calls ss st = (ss', st') \<Longrightarrow> list_all2 (checked_socket opts calls) ss ss'"
proof (induction ss arbitrary: st ss' st')
  case (Cons s ss)
  obtain a t where a: "revalidate_connected opts (calls (gs_id s)) s st = (a, t)" by force
  obtain bs u where b: "revalidateConnectedSockets opts calls ss t = (bs, u)" by force
  have "checked_socket opts calls s a"
    using a by (auto simp: checked_socket_def Let_def revalidate_connected_def revalidateSocket_def split: if_splits sum.splits)
  moreover have "ss' = a # bs" using Cons.prems a b by simp
  ultimately show ?case using Cons.IH [OF b] by simp
qed simp

text \<open>So no socket outlives its session by more than a round: what is still connected after a round that ran to its end had a
  good session in it, and its user is the one of that session.\<close>

lemma connected_means_valid:
  assumes "revalidateConnectedSockets opts calls ss st = (ss', st')" "\<forall>s \<in> set ss. \<not> rc_aborted (calls (gs_id s))"
    and "s' \<in> set ss'" "gs_connected s'"
  shows "\<exists>u. gs_user s' = Some u \<and>
           revalidateWsSession (wo_lower opts) (wo_getSession opts) (rc_checked (calls (gs_id s'))) (gs_handshake s') = Inr u"
proof -
  note round = round_checks_every_socket [OF assms(1)]
  obtain i where i: "i < length ss'" "s' = ss' ! i" using assms(3) by (auto simp: in_set_conv_nth)
  have "i < length ss" using round i(1) by (simp add: list_all2_lengthD)
  then have "checked_socket opts calls (ss ! i) s'" "\<not> rc_aborted (calls (gs_id (ss ! i)))"
    using round assms(2) i by (simp_all add: list_all2_conv_all_nth)
  then show ?thesis using assms(4) by (auto simp: checked_socket_def Let_def split: sum.splits)
qed

text \<open>A shutdown whose calls are answered leaves no lease of its sockets behind.\<close>

definition lease_held :: "(string \<times> string) option \<Rightarrow> instant \<Rightarrow> lease_sets \<Rightarrow> bool" where
  "lease_held lease now st = (case lease of None \<Rightarrow> False | Some (key, member) \<Rightarrow> map_of (members_now now (st key)) member \<noteq> None)"

lemma release_gone: "now \<le> t \<Longrightarrow> \<not> lease_held lease t (snd (releaseWsConnectionLease now Answered lease st))"
  by (auto simp: lease_held_def releaseWsConnectionLease_def lease_effect_def RELEASE_CONNECTION_SCRIPT_def Let_def members_now_def
      AList.delete_conv' split: option.splits)

lemma release_keeps_gone:
  "\<not> lease_held lease t st \<Longrightarrow> now \<le> t \<Longrightarrow> \<not> lease_held lease t (snd (releaseWsConnectionLease now e other st))"
  by (auto simp: lease_held_def releaseWsConnectionLease_def lease_effect_def RELEASE_CONNECTION_SCRIPT_def Let_def members_now_def
      AList.delete_conv' split: option.splits if_splits)

lemma shutdown_releases:
  assumes "\<forall>s \<in> set ss. snd (calls (gs_id s)) = Answered \<and> fst (calls (gs_id s)) \<le> t" "s \<in> set ss"
  shows "\<not> lease_held (gs_lease s) t (onApplicationShutdown calls ss st)"
proof -
  have kept: "\<not> lease_held lease t (onApplicationShutdown calls xs st)"
    if "\<not> lease_held lease t st" "\<forall>s \<in> set xs. fst (calls (gs_id s)) \<le> t" for lease xs st
    using that
  proof (induction xs arbitrary: st)
    case (Cons x xs)
    have "\<not> lease_held lease t (snd (releaseWsConnectionLease (fst (calls (gs_id x))) (snd (calls (gs_id x))) (gs_lease x) st))"
      using Cons.prems by (intro release_keeps_gone) auto
    then show ?case using Cons by simp
  qed simp
  show ?thesis using assms
  proof (induction ss arbitrary: st)
    case (Cons x xs)
    then show ?case
      using kept [of "gs_lease x" "snd (releaseWsConnectionLease (fst (calls (gs_id x))) Answered (gs_lease x) st)" xs] release_gone
      by auto
  qed simp
qed

end
