(* ===== verification/Request_Timeout.thy ===== *)
theory Request_Timeout
  imports Idempotency
begin

text \<open>The time limit of a request (common/interceptors/timeout.interceptor.ts): a handler that takes too long is answered 504,
  and a request with an Idempotency-Key stays subscribed for a while so that its late result can be recorded. The
  observable and its subscriber follow RxJS: a subscriber that got an error or completed, or was left, ignores all else and runs
  its teardown once, at once.\<close>

section \<open>What the interceptor does with a request\<close>

record timed_request =
  tq_transport :: transport
  tq_method :: string
  tq_isMultipart :: bool
  tq_hasContext :: bool
  tq_idempotencyKey :: header
  tq_httpCode :: "nat option"
  tq_headers :: "(string \<times> string) list"

record timeout_config =
  tc_timeoutMs :: int
  tc_uploadTimeoutMs :: int
  tc_lower :: "char \<Rightarrow> char"

definition resolveSuccessStatus :: "timed_request \<Rightarrow> nat" where
  "resolveSuccessStatus q =
     (case tq_httpCode q of Some c \<Rightarrow> c | None \<Rightarrow> if tq_method q = ''POST'' then 201 else 200)"

definition resolveContentType :: "(char \<Rightarrow> char) \<Rightarrow> timed_request \<Rightarrow> string option" where
  "resolveContentType lower_case q =
     map_option snd (List.find (\<lambda>(name, _). map lower_case name = ''content-type'') (tq_headers q))"

text \<open>Unlimited, limited by so many milliseconds, or limited with late capture, which knows the status and the content
  type to record.\<close>

datatype time_limit = Unlimited | Limited int | Captured int nat "string option"

definition intercept_timeout :: "timeout_config \<Rightarrow> timed_request \<Rightarrow> time_limit" where
  "intercept_timeout cfg q =
     (if tc_timeoutMs cfg \<le> 0 \<or> tq_transport q = WsContext then Unlimited
      else
        (let http = (tq_transport q = HttpContext);
             timeoutMs = (if http \<and> tq_isMultipart q then tc_uploadTimeoutMs cfg else tc_timeoutMs cfg) in
         if \<not> http \<or> (\<not> tq_hasContext q \<and> (\<nexists>k. tq_idempotencyKey q = OneHeader k)) then Limited timeoutMs
         else Captured timeoutMs (resolveSuccessStatus q) (resolveContentType (tc_lower cfg) q)))"

text \<open>The failure of a request out of time, and what the plain limit makes of a failure.\<close>

definition timeoutException :: thrown where
  "timeoutException =
     ThrownHttp 504 (ObjectResponse (JObj [(''code'', JStr ''request_timeout''), (''messageKey'', JStr ''common.request_timeout'')]))
       ''Http Exception''"

datatype 'e limit_error = TimeoutError | OtherError 'e

definition mapError :: "thrown limit_error \<Rightarrow> thrown" where
  "mapError e = (case e of TimeoutError \<Rightarrow> timeoutException | OtherError x \<Rightarrow> x)"

section \<open>Late capture\<close>

datatype ('v, 'e) signal = Value 'v | Failure 'e | Timeout | Complete

record ('v, 'e) capture =
  cp_timedOut :: bool
  cp_settled :: bool
  cp_timer :: bool
  cp_lateTimer :: bool
  cp_subscribed :: bool
  cp_closed :: bool
  cp_seen :: "('v, 'e) signal list"
  cp_recorded :: "'v list"

text \<open>The subscriber's side: signals reach it while it is open; its end runs the teardown.\<close>

definition emit :: "('v, 'e) signal \<Rightarrow> ('v, 'e) capture \<Rightarrow> ('v, 'e) capture" where
  "emit x c = (if cp_closed c then c else c \<lparr> cp_seen := cp_seen c @ [x] \<rparr>)"

definition teardown :: "('v, 'e) capture \<Rightarrow> ('v, 'e) capture" where
  "teardown c =
     (if cp_closed c then c
      else c \<lparr> cp_closed := True, cp_timer := False, cp_lateTimer := False,
               cp_subscribed := (cp_subscribed c \<and> cp_timedOut c) \<rparr>)"

definition start_capture :: "('v, 'e) capture" where
  "start_capture =
     \<lparr> cp_timedOut = False, cp_settled = False, cp_timer = True, cp_lateTimer = False, cp_subscribed = True,
       cp_closed = False, cp_seen = [], cp_recorded = [] \<rparr>"

definition on_timer :: "('v, 'e) capture \<Rightarrow> ('v, 'e) capture" where
  "on_timer c =
     (if \<not> cp_timer c then c
      else if cp_settled c then c \<lparr> cp_timer := False \<rparr>
      else (teardown (emit Timeout (c \<lparr> cp_timer := False, cp_timedOut := True \<rparr>))) \<lparr> cp_lateTimer := True \<rparr>)"

definition on_late_timer :: "('v, 'e) capture \<Rightarrow> ('v, 'e) capture" where
  "on_late_timer c = (if cp_lateTimer c then c \<lparr> cp_lateTimer := False, cp_subscribed := False \<rparr> else c)"

definition on_next :: "'v \<Rightarrow> ('v, 'e) capture \<Rightarrow> ('v, 'e) capture" where
  "on_next v c =
     (if \<not> cp_subscribed c then c
      else if \<not> cp_timedOut c then emit (Value v) (c \<lparr> cp_settled := True, cp_timer := False \<rparr>)
      else c \<lparr> cp_lateTimer := False, cp_recorded := cp_recorded c @ [v], cp_subscribed := False \<rparr>)"

definition on_error :: "'e \<Rightarrow> ('v, 'e) capture \<Rightarrow> ('v, 'e) capture" where
  "on_error e c =
     (if \<not> cp_subscribed c then c
      else
        (let c' = c \<lparr> cp_subscribed := False \<rparr> in
         if \<not> cp_timedOut c then teardown (emit (Failure e) (c' \<lparr> cp_settled := True, cp_timer := False \<rparr>))
         else c' \<lparr> cp_lateTimer := False \<rparr>))"

definition on_complete :: "('v, 'e) capture \<Rightarrow> ('v, 'e) capture" where
  "on_complete c =
     (if \<not> cp_subscribed c then c
      else
        (let c' = c \<lparr> cp_subscribed := False \<rparr> in
         if \<not> cp_timedOut c then teardown (emit Complete c') else c'))"

datatype ('v, 'e) capture_event =
  Source_Next 'v | Source_Error 'e | Source_Complete | Timer_Fires | Late_Timer_Fires | Client_Leaves

fun capture_step :: "('v, 'e) capture_event \<Rightarrow> ('v, 'e) capture \<Rightarrow> ('v, 'e) capture" where
  "capture_step (Source_Next v) c = on_next v c"
| "capture_step (Source_Error e) c = on_error e c"
| "capture_step Source_Complete c = on_complete c"
| "capture_step Timer_Fires c = on_timer c"
| "capture_step Late_Timer_Fires c = on_late_timer c"
| "capture_step Client_Leaves c = teardown c"

definition subscribeWithLateCapture :: "('v, 'e) capture_event list \<Rightarrow> ('v, 'e) capture" where
  "subscribeWithLateCapture es = fold capture_step es start_capture"

section \<open>One answer, at most one record\<close>

definition last_signal :: "('v, 'e) signal \<Rightarrow> bool" where
  "last_signal x \<longleftrightarrow> (case x of Value _ \<Rightarrow> False | _ \<Rightarrow> True)"

definition capture_ok :: "('v, 'e) capture \<Rightarrow> bool" where
  "capture_ok c \<longleftrightarrow>
     (cp_timedOut c \<longrightarrow> cp_seen c = [Timeout] \<and> cp_closed c \<and> length (cp_recorded c) \<le> 1 \<and>
        (cp_recorded c \<noteq> [] \<longrightarrow> \<not> cp_subscribed c)) \<and>
     (\<not> cp_timedOut c \<longrightarrow> cp_recorded c = [] \<and> Timeout \<notin> set (cp_seen c) \<and> \<not> cp_lateTimer c \<and>
        list_all (\<lambda>x. \<not> last_signal x) (butlast (cp_seen c)) \<and>
        (\<not> cp_closed c \<longrightarrow> list_all (\<lambda>x. \<not> last_signal x) (cp_seen c)) \<and>
        (cp_closed c \<longrightarrow> \<not> cp_timer c \<and> \<not> cp_subscribed c) \<and>
        (cp_seen c \<noteq> [] \<and> cp_timer c \<longrightarrow> False)) \<and>
     (cp_timedOut c \<longrightarrow> \<not> cp_timer c) \<and> (cp_timedOut c \<and> cp_subscribed c \<longrightarrow> cp_lateTimer c)"

lemma capture_step_ok: "capture_ok c \<Longrightarrow> capture_ok (capture_step ev c)"
  by (cases ev)
    (auto simp: capture_ok_def on_next_def on_error_def on_complete_def on_timer_def on_late_timer_def emit_def teardown_def
      last_signal_def butlast_append Let_def)

lemma capture_reachable:
  fixes es :: "('v, 'e) capture_event list"
  shows "capture_ok (subscribeWithLateCapture es)"
proof -
  have "capture_ok (fold capture_step es c)" if "capture_ok c" for c :: "('v, 'e) capture"
    using that by (induction es arbitrary: c) (auto intro: capture_step_ok)
  then show ?thesis by (simp add: subscribeWithLateCapture_def start_capture_def capture_ok_def)
qed

lemma captures_append: "subscribeWithLateCapture (es @ es') = fold capture_step es' (subscribeWithLateCapture es)"
  by (simp add: subscribeWithLateCapture_def)

lemma done_stays:
  assumes "cp_timedOut c" "\<not> cp_subscribed c" "cp_closed c" "\<not> cp_timer c"
  shows "cp_recorded (fold capture_step es c) = cp_recorded c"
  using assms
proof (induction es arbitrary: c)
  case (Cons ev es)
  have "cp_timedOut (capture_step ev c) \<and> \<not> cp_subscribed (capture_step ev c) \<and> cp_closed (capture_step ev c)
      \<and> \<not> cp_timer (capture_step ev c) \<and> cp_recorded (capture_step ev c) = cp_recorded c"
    using Cons.prems
    by (cases ev) (auto simp: on_next_def on_error_def on_complete_def on_timer_def on_late_timer_def teardown_def)
  then show ?case using Cons.IH by simp
qed simp

text \<open>A request has one answer, and at most one result is recorded. Whatever the handler, the two timers and the
  client do, in whatever order, the client sees at most one end of the response and nothing after it; a result is recorded
  only when the client was answered that the time is up and nothing else, and then it is the first that arrives
  while the source is still listened to, and no other; and after that answer the source is never left subscribed without
  the timer that ends it.\<close>

theorem late_result_recorded_once:
  fixes es :: "('v, 'e) capture_event list"
  defines "c \<equiv> subscribeWithLateCapture es"
  shows "list_all (\<lambda>x. \<not> last_signal x) (butlast (cp_seen c))
       \<and> (cp_recorded c \<noteq> [] \<longrightarrow> cp_seen c = [Timeout]) \<and> length (cp_recorded c) \<le> 1
       \<and> (\<forall>before v later. es = before @ Source_Next v # later
            \<and> cp_timedOut (subscribeWithLateCapture before) \<and> cp_subscribed (subscribeWithLateCapture before)
            \<longrightarrow> cp_recorded c = [v])
       \<and> (cp_closed c \<and> cp_subscribed c \<longrightarrow> cp_lateTimer c)"
proof (intro conjI allI impI)
  have ok: "capture_ok c" unfolding c_def by (rule capture_reachable)
  then show "list_all (\<lambda>x. \<not> last_signal x) (butlast (cp_seen c))"
    "cp_recorded c \<noteq> [] \<Longrightarrow> cp_seen c = [Timeout]" "length (cp_recorded c) \<le> 1"
    "cp_closed c \<and> cp_subscribed c \<Longrightarrow> cp_lateTimer c"
    by (cases "cp_timedOut c"; auto simp: capture_ok_def)+
  fix before v later
  assume es: "es = before @ Source_Next v # later
      \<and> cp_timedOut (subscribeWithLateCapture before) \<and> cp_subscribed (subscribeWithLateCapture before)"
  let ?b = "subscribeWithLateCapture before"
  have b: "capture_ok ?b" by (rule capture_reachable)
  then have "cp_recorded ?b = []" "cp_closed ?b" "\<not> cp_timer ?b" using es by (auto simp: capture_ok_def)
  then have "cp_recorded (fold capture_step later (on_next v ?b)) = [v]"
    using es by (subst done_stays) (simp_all add: on_next_def)
  then show "cp_recorded c = [v]" using es by (simp add: c_def captures_append)
qed

text \<open>The client leaves on its 504; two late values come, of which the first is recorded.\<close>

definition late_events :: "(nat, nat) capture_event list" where
  "late_events = [Timer_Fires, Client_Leaves] @ Source_Next 7 # [Source_Next 8]"

lemma late_result_recorded_once_witness:
  "cp_recorded (subscribeWithLateCapture late_events) = [7] \<and> cp_seen (subscribeWithLateCapture late_events) = [Timeout]"
proof
  have late: "cp_timedOut (subscribeWithLateCapture [Timer_Fires, Client_Leaves :: (nat, nat) capture_event])"
    "cp_subscribed (subscribeWithLateCapture [Timer_Fires, Client_Leaves :: (nat, nat) capture_event])"
    by code_simp+
  show *: "cp_recorded (subscribeWithLateCapture late_events) = [7]"
    using late_result_recorded_once[of late_events] late unfolding late_events_def by blast
  show "cp_seen (subscribeWithLateCapture late_events) = [Timeout]"
    using late_result_recorded_once[of late_events] * by simp
qed

end
