(* ===== verification/Malware_Scan.thy ===== *)
theory Malware_Scan
  imports Uploads Feature_Flags
begin

text \<open>The malware scanner of the worker (malware-scanner.service.ts): a file is sent to clamd in frames, each chunk after
  its length in four bytes and a length of zero at the end, and the reply is turned into a verdict. A reply is read as text of the
  Latin-1 range. What the socket does is a list of events.\<close>

definition INSTREAM_CHUNK_BYTES :: nat where
  "INSTREAM_CHUNK_BYTES = 65536"

definition LIMIT_MARKERS :: "string list" where
  "LIMIT_MARKERS = [''Heuristics.Limits.Exceeded'', ''size limit exceeded'', ''INSTREAM size limit'']"

section \<open>The verdict\<close>

definition ends_with :: "string \<Rightarrow> string \<Rightarrow> bool" where
  "ends_with p s \<longleftrightarrow> length p \<le> length s \<and> drop (length s - length p) s = p"

definition interpretScannerReply :: "string \<Rightarrow> scan_verdict outcome" where
  "interpretScannerReply reply =
     (if list_ex (\<lambda>m. includes_text m reply) LIMIT_MARKERS then Inr Unscannable
      else if ends_with ''OK'' reply then Inr Clean
      else if includes_text ''FOUND'' reply then Inr Infected
      else Inl (Internal ''Malware scanner returned an invalid response''))"

section \<open>Sending the content\<close>

text \<open>A buffer is cut into chunks; a stream brings its own, and may fail after them.\<close>

datatype scan_content = Buffered bytes | Streamed "bytes list" bool

function cut :: "bytes \<Rightarrow> bytes list" where
  "cut b = (if b = [] then [] else take INSTREAM_CHUNK_BYTES b # cut (drop INSTREAM_CHUNK_BYTES b))"
  by auto
termination by (relation "measure length") (auto simp: INSTREAM_CHUNK_BYTES_def)

declare cut.simps [simp del]

fun toChunks :: "scan_content \<Rightarrow> bytes list" where
  "toChunks (Buffered b) = cut b"
| "toChunks (Streamed cs _) = cs"

fun content_fails :: "scan_content \<Rightarrow> bool" where
  "content_fails (Buffered _) = False"
| "content_fails (Streamed _ fails) = fails"

definition writeUInt32BE :: "nat \<Rightarrow> bytes option" where
  "writeUInt32BE n = (if n < 2 ^ 32 then Some (digest_of n) else None)"

definition zINSTREAM :: bytes where
  "zINSTREAM = map (\<lambda>c. of_nat (of_char c)) ''zINSTREAM'' @ [0]"

text \<open>The loop over the chunks: it stops once clamd has replied or closed (\<open>stop\<close>, by the number of the chunk),
  and throws on a length no frame can hold. The Boolean says that the loop came to its end.\<close>

fun stream_chunks :: "(nat \<Rightarrow> bool) \<Rightarrow> nat \<Rightarrow> bytes list \<Rightarrow> bytes \<times> bool" where
  "stream_chunks stop i [] = ([], True)"
| "stream_chunks stop i (c # cs) =
     (if stop i then ([], True)
      else
        (case writeUInt32BE (length c) of
           None \<Rightarrow> ([], False)
         | Some header \<Rightarrow> (case stream_chunks stop (i + 1) cs of (sent, ended) \<Rightarrow> (header @ c @ sent, ended))))"

definition stopped_early :: "(nat \<Rightarrow> bool) \<Rightarrow> bytes list \<Rightarrow> bool" where
  "stopped_early stop cs \<longleftrightarrow> (\<exists>i < length cs. stop i)"

text \<open>\<open>open_at_end\<close> says that the socket can still be written to when the loop is over. A stream that fails throws in the
  loop, unless the loop was left before.\<close>

definition streamToScanner :: "bool \<Rightarrow> (nat \<Rightarrow> bool) \<Rightarrow> bool \<Rightarrow> scan_content \<Rightarrow> bytes" where
  "streamToScanner connects stop open_at_end content =
     (if \<not> connects then []
      else
        (case stream_chunks stop 0 (toChunks content) of
           (sent, ended) \<Rightarrow>
             zINSTREAM @ sent @
             (if ended \<and> (content_fails content \<longrightarrow> stopped_early stop (toChunks content)) \<and> open_at_end
              then digest_of 0 else [])))"

section \<open>The reply\<close>

datatype socket_event = Data string | Ended | Closed | Timed_Out | Errored failure

definition reply_text :: "string list \<Rightarrow> string" where
  "reply_text chunks = trim (rev (dropWhile (\<lambda>c. c = CHR 0x00) (rev (concat chunks))))"

text \<open>The first event that ends the reply decides; no event at all leaves it pending (None).\<close>

fun collectReply :: "string list \<Rightarrow> socket_event list \<Rightarrow> string outcome option" where
  "collectReply chunks [] = None"
| "collectReply chunks (Data t # evs) = collectReply (chunks @ [t]) evs"
| "collectReply chunks (Ended # evs) = Some (Inr (reply_text chunks))"
| "collectReply chunks (Closed # evs) = Some (Inr (reply_text chunks))"
| "collectReply chunks (Timed_Out # evs) = Some (Inl (Internal ''Malware scanner timed out''))"
| "collectReply chunks (Errored e # evs) = Some (if chunks \<noteq> [] then Inr (reply_text chunks) else Inl e)"

record scanner_config =
  sc_enabled :: bool
  sc_maxBytes :: int

text \<open>The errors of sending are dropped: only the reply decides.\<close>

definition scan :: "scanner_config \<Rightarrow> int option \<Rightarrow> socket_event list \<Rightarrow> scan_verdict outcome option" where
  "scan cfg sizeBytes evs =
     (if \<not> sc_enabled cfg
      then Some (Inl (Internal ''Malware scanning is disabled; pending scans cannot be marked clean''))
      else if \<exists>n. sizeBytes = Some n \<and> sc_maxBytes cfg < n then Some (Inr Unscannable)
      else map_option (\<lambda>r. case r of Inl e \<Rightarrow> Inl e | Inr t \<Rightarrow> interpretScannerReply t) (collectReply [] evs))"

section \<open>What clamd reads\<close>

text \<open>A reader of the framing: lengths of four bytes, most significant first, and the frame of length zero ends the
  content. None is content that has not ended.\<close>

fun read_frames :: "bytes \<Rightarrow> bytes option" where
  "read_frames bs =
     (if length bs < 4 then None
      else
        (let n = readUInt32BE bs; rest = drop 4 bs in
         if n = 0 then Some []
         else if length rest < n then None
         else map_option (\<lambda>d. take n rest @ d) (read_frames (drop n rest))))"

declare read_frames.simps [simp del]

definition read_instream :: "bytes \<Rightarrow> bytes option" where
  "read_instream bs = (if take (length zINSTREAM) bs = zINSTREAM then read_frames (drop (length zINSTREAM) bs) else None)"

lemma concat_cut [simp]: "concat (cut b) = b"
proof (induction b rule: cut.induct)
  case (1 b)
  then show ?case by (subst cut.simps) auto
qed

lemma cut_lengths: "c \<in> set (cut b) \<Longrightarrow> c \<noteq> [] \<and> length c \<le> INSTREAM_CHUNK_BYTES"
proof (induction b rule: cut.induct)
  case (1 b)
  have "c \<in> set (if b = [] then [] else take INSTREAM_CHUNK_BYTES b # cut (drop INSTREAM_CHUNK_BYTES b))"
    using "1.prems" by (subst (asm) cut.simps)
  then show ?case using "1.IH" by (auto simp: INSTREAM_CHUNK_BYTES_def split: if_splits)
qed

lemma length_digest_of [simp]: "length (digest_of n) = 4"
  by (simp add: digest_of_def)

lemma read_header: "n < 2 ^ 32 \<Longrightarrow> readUInt32BE (digest_of n @ rest) = n"
  using read_digest_of[of n] by (simp add: readUInt32BE_def)

lemma read_frame:
  assumes "length c < 2 ^ 32" "c \<noteq> []"
  shows "read_frames (digest_of (length c) @ c @ rest) = map_option (\<lambda>d. c @ d) (read_frames rest)"
  using assms by (subst read_frames.simps) (simp add: read_header Let_def)

lemma read_end: "read_frames (digest_of 0 @ rest) = Some []"
  by (subst read_frames.simps) (simp add: read_header Let_def)

lemma prepend_none [simp]: "map_option ((@) []) x = x"
  by (cases x) simp_all

text \<open>The frames that were sent, and what is left of them to read.\<close>

lemma read_sent:
  assumes "\<forall>c \<in> set cs. c \<noteq> []" "stream_chunks stop i cs = (sent, ended)"
  shows "\<exists>k. sent = concat (map (\<lambda>c. digest_of (length c) @ c) (take k cs)) \<and>
         (\<forall>rest. read_frames (sent @ rest) = map_option (\<lambda>d. concat (take k cs) @ d) (read_frames rest)) \<and>
         (ended \<and> (\<forall>j < length cs. \<not> stop (i + j)) \<longrightarrow> take k cs = cs)"
  using assms
proof (induction cs arbitrary: i sent)
  case (Cons c cs)
  show ?case
  proof (cases "stop i \<or> 2 ^ 32 \<le> length c")
    case True
    then show ?thesis
      using Cons.prems(2) by (intro exI[of _ 0]) (auto simp: writeUInt32BE_def option.map_ident split: if_splits)
  next
    case False
    obtain sent' ended' where more: "stream_chunks stop (i + 1) cs = (sent', ended')" by fastforce
    then have s: "sent = digest_of (length c) @ c @ sent'" "ended' = ended"
      using False Cons.prems(2) by (auto simp: writeUInt32BE_def)
    note more = more[unfolded s(2)]
    obtain k where k: "sent' = concat (map (\<lambda>c. digest_of (length c) @ c) (take k cs))"
      "\<And>rest. read_frames (sent' @ rest) = map_option (\<lambda>d. concat (take k cs) @ d) (read_frames rest)"
      "ended \<and> (\<forall>j < length cs. \<not> stop (i + 1 + j)) \<longrightarrow> take k cs = cs"
      using Cons.IH[OF _ more] Cons.prems(1) by auto
    have "read_frames (sent @ rest) = map_option (\<lambda>d. concat (take (Suc k) (c # cs)) @ d) (read_frames rest)" for rest
      using read_frame[of c "sent' @ rest"] False Cons.prems(1) k(2)[of rest]
      by (simp add: s(1) option.map_comp comp_def)
    moreover have "take (Suc k) (c # cs) = c # cs" if "ended" "\<forall>j < length (c # cs). \<not> stop (i + j)"
      using k(3) that by (metis add_Suc_right add_Suc_shift Suc_eq_plus1 length_Cons Suc_less_eq take_Suc_Cons)
    ultimately show ?thesis using s(1) k(1) by (intro exI[of _ "Suc k"]) auto
  qed
qed (auto simp: option.map_ident)

lemma stream_ends: "\<forall>c \<in> set cs. length c < 2 ^ 32 \<Longrightarrow> snd (stream_chunks stop i cs)"
  by (induction stop i cs rule: stream_chunks.induct) (auto simp: writeUInt32BE_def split: prod.split)

lemma no_frames [simp]: "read_frames [] = None"
  by (subst read_frames.simps) simp

text \<open>C37. What clamd scans is the file. Whatever the content and however its stream is cut, as long as no chunk is empty:
  content that clamd sees end is the whole content, unless clamd itself had answered or closed before the last chunk; and
  over a connection that stays open the whole content arrives and ends, if its stream does not fail and no chunk is too
  long for its header. A stream that fails half way is never scanned as if it had ended. A buffer meets the conditions
  whatever its length.\<close>

theorem scanner_reads_the_content:
  assumes "\<forall>c \<in> set (toChunks content). c \<noteq> []"
  shows "(read_instream (streamToScanner connects stop open_at_end content) = Some d \<longrightarrow>
            d = concat (toChunks content) \<and> \<not> content_fails content \<or> stopped_early stop (toChunks content))
       \<and> (connects \<and> open_at_end \<and> \<not> content_fails content \<and> \<not> stopped_early stop (toChunks content) \<and>
            (\<forall>c \<in> set (toChunks content). length c < 2 ^ 32) \<longrightarrow>
          read_instream (streamToScanner connects stop open_at_end content) = Some (concat (toChunks content)))
       \<and> (\<forall>b. content = Buffered b \<longrightarrow>
            concat (toChunks content) = b \<and> (\<forall>c \<in> set (toChunks content). c \<noteq> [] \<and> length c < 2 ^ 32))"
proof -
  let ?cs = "toChunks content"
  obtain sent ended where s: "stream_chunks stop 0 ?cs = (sent, ended)" by fastforce
  obtain k where k: "\<And>rest. read_frames (sent @ rest) = map_option (\<lambda>d. concat (take k ?cs) @ d) (read_frames rest)"
    "ended \<and> \<not> stopped_early stop ?cs \<longrightarrow> take k ?cs = ?cs"
    using read_sent[OF assms s] by (auto simp: stopped_early_def)
  let ?complete = "ended \<and> (content_fails content \<longrightarrow> stopped_early stop ?cs) \<and> open_at_end"
  have read: "read_instream (streamToScanner connects stop open_at_end content)
      = (if connects \<and> ?complete then Some (concat (take k ?cs)) else None)"
    using k(1)[of "digest_of 0"] k(1)[of "[]"] read_end[of "[]"]
    by (auto simp: streamToScanner_def s read_instream_def zINSTREAM_def)
  have buffered: "c \<noteq> [] \<and> length c < 2 ^ 32" if "content = Buffered b" "c \<in> set ?cs" for b c
    using cut_lengths[of c b] that by (auto simp: INSTREAM_CHUNK_BYTES_def)
  show ?thesis
    using read k(2) stream_ends[of ?cs stop 0] s buffered by auto
qed

lemma scanner_reads_the_content_witness:
  "read_instream (streamToScanner True (\<lambda>_. False) True (Streamed [[1, 2], [3]] False)) = Some [1, 2, 3]
   \<and> read_instream (streamToScanner True (\<lambda>_. False) True (Streamed [[1, 2]] True)) = None"
proof
  show "read_instream (streamToScanner True (\<lambda>_. False) True (Streamed [[1, 2], [3]] False)) = Some [1, 2, 3]"
  proof -
    have whole: "\<forall>c \<in> set (toChunks (Streamed [[1, 2], [3]] False)). c \<noteq> [] \<and> length c < 2 ^ 32" by simp
    moreover have "\<not> stopped_early (\<lambda>_. False) cs" for cs by (simp add: stopped_early_def)
    ultimately have "read_instream (streamToScanner True (\<lambda>_. False) True (Streamed [[1, 2], [3]] False))
        = Some (concat (toChunks (Streamed [[1, 2], [3]] False)))"
      using scanner_reads_the_content[of "Streamed [[1, 2], [3]] False" True "\<lambda>_. False" True "[]"] content_fails.simps(2)
      by blast
    then show ?thesis by simp
  qed
  have "read_instream (streamToScanner True (\<lambda>_. False) True (Streamed [[1, 2]] True)) \<noteq> Some d" for d
    using scanner_reads_the_content[of "Streamed [[1, 2]] True" True "\<lambda>_. False" True d] by (simp add: stopped_early_def)
  then show "read_instream (streamToScanner True (\<lambda>_. False) True (Streamed [[1, 2]] True)) = None"
    by (metis not_None_eq)
qed

text \<open>An empty chunk is sent as the frame that ends the content: what comes after it is not scanned.\<close>

lemma empty_chunk_ends_the_scan:
  assumes "\<forall>c \<in> set cs. c \<noteq> [] \<and> length c < 2 ^ 32"
  shows "read_instream (streamToScanner True (\<lambda>_. False) True (Streamed (cs @ [] # ds) False)) = Some (concat cs)"
proof -
  have split: "\<exists>rest. fst (stream_chunks (\<lambda>_. False) i (cs @ [] # ds))
      = concat (map (\<lambda>c. digest_of (length c) @ c) cs) @ digest_of 0 @ rest" for i
    using assms
  proof (induction cs arbitrary: i)
    case Nil
    show ?case by (simp add: writeUInt32BE_def split: prod.split)
  next
    case (Cons c cs)
    then obtain rest where "fst (stream_chunks (\<lambda>_. False) (i + 1) (cs @ [] # ds))
        = concat (map (\<lambda>c. digest_of (length c) @ c) cs) @ digest_of 0 @ rest" by fastforce
    then show ?case using Cons.prems by (auto simp: writeUInt32BE_def case_prod_unfold)
  qed
  have read: "read_frames (concat (map (\<lambda>c. digest_of (length c) @ c) cs) @ digest_of 0 @ rest) = Some (concat cs)" for rest
    using assms by (induction cs) (simp_all add: read_end read_frame)
  obtain rest where "fst (stream_chunks (\<lambda>_. False) 0 (cs @ [] # ds))
      = concat (map (\<lambda>c. digest_of (length c) @ c) cs) @ digest_of 0 @ rest" using split by blast
  then show ?thesis
    using read by (simp add: streamToScanner_def read_instream_def zINSTREAM_def case_prod_unfold)
qed

text \<open>A file is clean only when clamd said so, with no limit reached, and never while scanning is disabled.\<close>

lemma clean_needs_ok:
  "scan cfg sizeBytes evs = Some (Inr Clean) \<Longrightarrow>
     sc_enabled cfg \<and> (\<forall>n. sizeBytes = Some n \<longrightarrow> n \<le> sc_maxBytes cfg) \<and>
     (\<exists>t. collectReply [] evs = Some (Inr t) \<and> ends_with ''OK'' t \<and> (\<forall>m \<in> set LIMIT_MARKERS. \<not> includes_text m t))"
  by (cases "collectReply [] evs"; cases "the (collectReply [] evs)")
    (simp_all add: scan_def interpretScannerReply_def list_ex_iff not_less split: if_splits)

end
