(* ===== verification/Housekeeping.thy ===== *)
theory Housekeeping
  imports File_Retention Accounts
begin

text \<open>The remaining scheduled tasks of apps/scheduler that keep data: the recovery of verifications whose job was lost
  (upload-verification-recovery.task.ts), the purge of inactive users (cleanup.task.ts), and the purges of expired sessions and verifications. Deleting a user is its row only: what the
  database deletes with it is left out. \<open>enqueue\<close> is the dispatcher's call on the queue.\<close>

section \<open>Recovering verifications\<close>

definition RECOVERY_BATCH_SIZE :: nat where
  "RECOVERY_BATCH_SIZE = 100"

definition RECOVERY_GRACE_MS :: int where
  "RECOVERY_GRACE_MS = 30000"

definition HOUR_MS :: int where
  "HOUR_MS = 3600000"

definition INITIAL_CURSOR :: cursor_key where
  "INITIAL_CURSOR = (0, ''00000000-0000-0000-0000-000000000000'')"

definition recovery_key :: "timed_row \<Rightarrow> cursor_key" where
  "recovery_key r = (tr_updatedAt r, sf_id (sr_file r))"

definition recoverable :: "int \<Rightarrow> instant \<Rightarrow> timed_row \<Rightarrow> bool" where
  "recoverable staleHours now r \<longleftrightarrow>
     sf_status (sr_file r) = VERIFYING \<and> sr_deletedAt r = None \<and>
     now - staleHours * HOUR_MS \<le> tr_updatedAt r \<and> tr_updatedAt r < now - RECOVERY_GRACE_MS"

definition findCandidates :: "int \<Rightarrow> instant \<Rightarrow> cursor_key \<Rightarrow> timed_row list \<Rightarrow> timed_row list" where
  "findCandidates staleHours now cursor rows =
     take RECOVERY_BATCH_SIZE
       (sort_key recovery_key (filter (\<lambda>r. recoverable staleHours now r \<and> cursor < recovery_key r) rows))"

definition recovery_request :: "timed_row \<Rightarrow> verification_request" where
  "recovery_request r =
     \<lparr> vr_key = sf_key (sr_file r), vr_declaredContentType = sf_contentType (sr_file r), vr_bucket = sf_bucket (sr_file r),
       vr_correlationId = None \<rparr>"

record 'q recovery =
  rv_cursor :: cursor_key
  rv_queue :: 'q
  rv_enqueued :: "timed_row list"

text \<open>The loop: leadership is asked before each candidate (\<open>leads\<close>), a call on the queue that throws ends the run,
  and the cursor follows the candidates that were enqueued, which the ghost \<open>rv_enqueued\<close> collects. The Boolean says that
  the loop came to its end.\<close>

fun recover_loop ::
    "(verification_request \<Rightarrow> 'q \<Rightarrow> unit outcome \<times> 'q) \<Rightarrow> (nat \<Rightarrow> bool) \<Rightarrow> nat \<Rightarrow> timed_row list \<Rightarrow> 'q recovery
     \<Rightarrow> bool \<times> 'q recovery" where
  "recover_loop enqueue leads i [] s = (True, s)"
| "recover_loop enqueue leads i (c # cs) s =
     (if \<not> leads i then (False, s)
      else
        (case enqueue (recovery_request c) (rv_queue s) of
           (Inl _, q) \<Rightarrow> (False, s \<lparr> rv_queue := q \<rparr>)
         | (Inr _, q) \<Rightarrow>
             recover_loop enqueue leads (i + 1) cs
               (s \<lparr> rv_queue := q, rv_cursor := recovery_key c, rv_enqueued := rv_enqueued s @ [c] \<rparr>)))"

text \<open>A run; \<open>rows\<close> is None when the scan fails.\<close>

definition recover ::
    "(verification_request \<Rightarrow> 'q \<Rightarrow> unit outcome \<times> 'q) \<Rightarrow> int \<Rightarrow> bool \<Rightarrow> bool \<Rightarrow> (nat \<Rightarrow> bool) \<Rightarrow> instant \<Rightarrow> timed_row list option
     \<Rightarrow> 'q recovery \<Rightarrow> 'q recovery" where
  "recover enqueue staleHours leader running leads now rows s =
     (if \<not> leader \<or> running then s
      else
        (case rows of
           None \<Rightarrow> s
         | Some rs \<Rightarrow>
             (let cs = findCandidates staleHours now (rv_cursor s) rs in
              case recover_loop enqueue leads 0 cs s of
                (False, s') \<Rightarrow> s'
              | (True, s') \<Rightarrow>
                  if length cs < RECOVERY_BATCH_SIZE then s' \<lparr> rv_cursor := INITIAL_CURSOR \<rparr> else s')))"

section \<open>Purges\<close>

text \<open>The candidates are found and then deleted, and what other requests do in between is \<open>between\<close>; \<open>scan\<close> is the order
  Postgres reads rows in. The deletion asks again whether a candidate is inactive and old enough.\<close>

definition inactive_since :: "instant \<Rightarrow> user_row \<Rightarrow> bool" where
  "inactive_since cutoff r \<longleftrightarrow> uw_status r = ''INACTIVE'' \<and> uw_updatedAt r < cutoff"

definition purge_users_batch ::
    "(user_row list \<Rightarrow> user_row list) \<Rightarrow> (user_row list \<Rightarrow> user_row list) \<Rightarrow> instant \<Rightarrow> nat \<Rightarrow> user_row list
     \<Rightarrow> nat \<times> nat \<times> user_row list" where
  "purge_users_batch scan between cutoff batchSize rows =
     (let candidates = map uw_id (take batchSize (scan (filter (inactive_since cutoff) rows)));
          sel = (\<lambda>r. uw_id r \<in> set candidates \<and> inactive_since cutoff r)
      in if candidates = [] then (0, 0, rows)
         else (length candidates, count_rows sel (between rows), filter (\<lambda>r. \<not> sel r) (between rows)))"

fun purge_users_batches ::
    "(user_row list \<Rightarrow> user_row list) \<Rightarrow> (nat \<Rightarrow> user_row list \<Rightarrow> user_row list) \<Rightarrow> instant \<Rightarrow> nat \<Rightarrow> nat \<Rightarrow> nat \<Rightarrow> user_row list
     \<Rightarrow> nat \<times> user_row list" where
  "purge_users_batches scan between cutoff batchSize i 0 rows = (0, rows)"
| "purge_users_batches scan between cutoff batchSize i (Suc left) rows =
     (case purge_users_batch scan (between i) cutoff batchSize rows of
        (found_rows, n, rows') \<Rightarrow>
          if found_rows < batchSize then (n, rows')
          else (case purge_users_batches scan between cutoff batchSize (i + 1) left rows' of (m, rows'') \<Rightarrow> (n + m, rows'')))"

definition purgeInactiveUsers ::
    "process_env \<Rightarrow> (user_row list \<Rightarrow> user_row list) \<Rightarrow> (nat \<Rightarrow> user_row list \<Rightarrow> user_row list) \<Rightarrow> bool \<Rightarrow> bool \<Rightarrow> instant
     \<Rightarrow> user_row list \<Rightarrow> user_row list" where
  "purgeInactiveUsers env scan between leader running now rows =
     (if \<not> leader \<or> running then rows
      else snd (purge_users_batches scan between
                  (now - positiveIntEnv env ''INACTIVE_USER_RETENTION_DAYS'' 90 * 86400000)
                  (nat (positiveIntEnv env ''USER_PURGE_BATCH_SIZE'' 500)) 0
                  (nat (positiveIntEnv env ''USER_PURGE_MAX_BATCHES'' 200)) rows))"

text \<open>Expired sessions and verifications go by the batched purge.\<close>

definition purgeExpiredSessions ::
    "process_env \<Rightarrow> (stored_session list \<Rightarrow> stored_session list) \<Rightarrow> bool \<Rightarrow> bool \<Rightarrow> instant \<Rightarrow> stored_session list
     \<Rightarrow> stored_session list" where
  "purgeExpiredSessions env scan leader running now rows =
     (if \<not> leader \<or> running then rows
      else snd (purge_batches scan
                  (\<lambda>r. sn_expiresAt r < now - days_ms (nat (positiveIntEnv env ''SESSION_PURGE_GRACE_DAYS'' 1)))
                  (nat (positiveIntEnv env ''SESSION_PURGE_BATCH_SIZE'' 1000))
                  (nat (positiveIntEnv env ''SESSION_PURGE_MAX_BATCHES'' 200)) rows))"

record verification_row =
  vf_id :: id
  vf_identifier :: string
  vf_value :: string
  vf_expiresAt :: instant

definition purgeExpiredVerifications ::
    "process_env \<Rightarrow> (verification_row list \<Rightarrow> verification_row list) \<Rightarrow> bool \<Rightarrow> bool \<Rightarrow> instant \<Rightarrow> verification_row list
     \<Rightarrow> verification_row list" where
  "purgeExpiredVerifications env scan leader running now rows =
     (if \<not> leader \<or> running then rows
      else snd (purge_batches scan
                  (\<lambda>r. vf_expiresAt r < now - days_ms (nat (positiveIntEnv env ''VERIFICATION_PURGE_GRACE_DAYS'' 1)))
                  (nat (positiveIntEnv env ''VERIFICATION_PURGE_BATCH_SIZE'' 1000))
                  (nat (positiveIntEnv env ''VERIFICATION_PURGE_MAX_BATCHES'' 200)) rows))"

section \<open>What the recovery reaches\<close>

text \<open>The runs of a replica that stays the leader, each with the clock and the rows it finds.\<close>

definition recovery_ticks ::
    "(verification_request \<Rightarrow> 'q \<Rightarrow> unit outcome \<times> 'q) \<Rightarrow> int \<Rightarrow> (instant \<times> timed_row list) list \<Rightarrow> 'q recovery
     \<Rightarrow> 'q recovery" where
  "recovery_ticks enqueue staleHours ticks s =
     List.fold (\<lambda>(now, rows) s. recover enqueue staleHours True False (\<lambda>_. True) now (Some rows) s) ticks s"

lemma accepted_loop:
  assumes "\<forall>v q. fst (enqueue v q) = Inr ()"
  shows "\<exists>q. recover_loop enqueue (\<lambda>_. True) i cs s =
    (True, s \<lparr> rv_queue := q, rv_cursor := (if cs = [] then rv_cursor s else recovery_key (last cs)),
               rv_enqueued := rv_enqueued s @ cs \<rparr>)"
proof (induction cs arbitrary: i s)
  case (Cons c cs)
  obtain q where q: "enqueue (recovery_request c) (rv_queue s) = (Inr (), q)"
    using assms by (metis prod.collapse)
  show ?case using Cons.IH [of "i + 1" "s \<lparr> rv_queue := q, rv_cursor := recovery_key c,
      rv_enqueued := rv_enqueued s @ [c] \<rparr>"] q by auto
next
  case Nil
  show ?case by (rule exI [of _ "rv_queue s"]) (cases s, simp)
qed

lemma accepted_tick:
  fixes s :: "'q recovery" and rows :: "timed_row list" and staleHours :: int and now :: instant
  assumes "\<forall>v q. fst (enqueue v q) = Inr ()"
  defines "cs \<equiv> findCandidates staleHours now (rv_cursor s) rows"
  defines "s' \<equiv> recover enqueue staleHours True False (\<lambda>_. True) now (Some rows) s"
  shows "rv_enqueued s' = rv_enqueued s @ cs"
    and "rv_cursor s' = (if length cs < RECOVERY_BATCH_SIZE then INITIAL_CURSOR else recovery_key (last cs))"
proof -
  obtain q where "recover_loop enqueue (\<lambda>_. True) 0 cs s =
    (True, s \<lparr> rv_queue := q, rv_cursor := (if cs = [] then rv_cursor s else recovery_key (last cs)),
               rv_enqueued := rv_enqueued s @ cs \<rparr>)" using accepted_loop [OF assms(1)] by blast
  then show "rv_enqueued s' = rv_enqueued s @ cs"
    "rv_cursor s' = (if length cs < RECOVERY_BATCH_SIZE then INITIAL_CURSOR else recovery_key (last cs))"
    unfolding s'_def recover_def by (auto simp: Let_def RECOVERY_BATCH_SIZE_def simp flip: cs_def)
qed

text \<open>A batch leaves a candidate out only when it is full of candidates that come before it.\<close>

lemma batch_before:
  assumes "distinct (map recovery_key rows)" "x \<in> set rows" "recoverable staleHours now x" "cursor < recovery_key x"
    "x \<notin> set (findCandidates staleHours now cursor rows)"
  shows "length (findCandidates staleHours now cursor rows) = RECOVERY_BATCH_SIZE"
    and "\<forall>y \<in> set (findCandidates staleHours now cursor rows). recovery_key y < recovery_key x"
proof -
  define xs where "xs = sort_key recovery_key (filter (\<lambda>r. recoverable staleHours now r \<and> cursor < recovery_key r) rows)"
  have cs: "findCandidates staleHours now cursor rows = take RECOVERY_BATCH_SIZE xs"
    by (simp add: findCandidates_def xs_def)
  have x: "x \<in> set xs" using assms by (simp add: xs_def)
  have drop: "x \<in> set (drop RECOVERY_BATCH_SIZE xs)"
    using x assms(5) unfolding cs by (metis Un_iff append_take_drop_id set_append)
  then show "length (findCandidates staleHours now cursor rows) = RECOVERY_BATCH_SIZE"
    unfolding cs by (cases "length xs \<le> RECOVERY_BATCH_SIZE") simp_all
  have sorted: "sorted (map recovery_key (take RECOVERY_BATCH_SIZE xs @ drop RECOVERY_BATCH_SIZE xs))"
    by (simp add: xs_def)
  have "inj_on recovery_key (set rows)" using assms(1) by (simp add: distinct_map)
  then have inj: "recovery_key y \<noteq> recovery_key x" if "y \<in> set (take RECOVERY_BATCH_SIZE xs)" for y
    using that assms(2,5) in_set_takeD [OF that] unfolding cs by (auto simp: xs_def inj_on_def)
  show "\<forall>y \<in> set (findCandidates staleHours now cursor rows). recovery_key y < recovery_key x"
    using sorted drop inj unfolding cs map_append sorted_append by (auto simp: order_less_le)
qed

lemma batch_keys:
  fixes rows :: "timed_row list" and staleHours :: int and now :: instant and cursor :: cursor_key
  assumes "distinct (map recovery_key rows)" "length (findCandidates staleHours now cursor rows) = RECOVERY_BATCH_SIZE"
  defines "cs \<equiv> findCandidates staleHours now cursor rows"
  shows "card (recovery_key ` set cs) = RECOVERY_BATCH_SIZE" and "last cs \<in> set cs"
    and "\<forall>y \<in> set cs. y \<in> set rows \<and> cursor < recovery_key y \<and> recovery_key y \<le> recovery_key (last cs)"
proof -
  define xs where "xs = sort_key recovery_key (filter (\<lambda>r. recoverable staleHours now r \<and> cursor < recovery_key r) rows)"
  have cs: "cs = take RECOVERY_BATCH_SIZE xs" by (simp add: cs_def findCandidates_def xs_def)
  have dist: "distinct (map recovery_key xs)" using assms(1)
    by (simp add: xs_def distinct_map inj_on_def)
  then have d: "distinct (map recovery_key cs)" unfolding cs by (simp flip: take_map)
  then show "card (recovery_key ` set cs) = RECOVERY_BATCH_SIZE"
    using assms(2) distinct_card [OF d] by (simp flip: cs_def)
  have ne: "cs \<noteq> []" using assms(2) by (auto simp: RECOVERY_BATCH_SIZE_def simp flip: cs_def)
  then show last: "last cs \<in> set cs" by simp
  have "sorted (map recovery_key cs)" unfolding cs by (simp add: xs_def take_map [symmetric] sorted_wrt_take)
  then have "sorted (map recovery_key (butlast cs) @ [recovery_key (last cs)])"
    using ne by (metis append_butlast_last_id list.simps(8,9) map_append)
  then have "\<forall>y \<in> set (butlast cs). recovery_key y \<le> recovery_key (last cs)"
    unfolding sorted_append by simp
  moreover have "set cs = insert (last cs) (set (butlast cs))"
    using ne by (metis append_butlast_last_id list.simps(15) rotate1.simps(2) set_rotate1)
  moreover have "\<forall>y \<in> set cs. y \<in> set xs" unfolding cs using in_set_takeD by fast
  ultimately show "\<forall>y \<in> set cs. y \<in> set rows \<and> cursor < recovery_key y \<and> recovery_key y \<le> recovery_key (last cs)"
    by (simp add: xs_def)
qed

text \<open>A full batch leaves a hundred keys fewer behind the cursor.\<close>

lemma full_batch_measure:
  assumes "finite K" "recovery_key ` set rows \<subseteq> K" "distinct (map recovery_key rows)"
    "length (findCandidates staleHours now cursor rows) = RECOVERY_BATCH_SIZE"
    "\<forall>y \<in> set (findCandidates staleHours now cursor rows). P (recovery_key y)"
  shows "card {k \<in> K. recovery_key (last (findCandidates staleHours now cursor rows)) < k \<and> P k} + RECOVERY_BATCH_SIZE
           \<le> card {k \<in> K. cursor < k \<and> P k}"
proof -
  let ?cs = "findCandidates staleHours now cursor rows"
  note keys = batch_keys [OF assms(3,4)]
  have "card ({k \<in> K. recovery_key (last ?cs) < k \<and> P k} \<union> recovery_key ` set ?cs) =
        card {k \<in> K. recovery_key (last ?cs) < k \<and> P k} + RECOVERY_BATCH_SIZE"
  proof -
    have "{k \<in> K. recovery_key (last ?cs) < k \<and> P k} \<inter> recovery_key ` set ?cs = {}"
      using keys(3) by (auto dest: leD)
    then show ?thesis using assms(1) keys(1) by (simp add: card_Un_disjoint)
  qed
  moreover have sub: "{k \<in> K. recovery_key (last ?cs) < k \<and> P k} \<union> recovery_key ` set ?cs \<subseteq> {k \<in> K. cursor < k \<and> P k}"
  proof -
    have "recovery_key ` set ?cs \<subseteq> {k \<in> K. cursor < k \<and> P k}" using keys(3) assms(2,5) by blast
    moreover have "cursor < recovery_key (last ?cs)" using keys(2,3) by blast
    ultimately show ?thesis using order.strict_trans by blast
  qed
  moreover have "card ({k \<in> K. recovery_key (last ?cs) < k \<and> P k} \<union> recovery_key ` set ?cs)
      \<le> card {k \<in> K. cursor < k \<and> P k}" by (rule card_mono [OF _ sub]) (simp add: assms(1))
  ultimately show ?thesis by linarith
qed

lemma enqueued_stays:
  assumes "\<forall>v q. fst (enqueue v q) = Inr ()" "x \<in> set (rv_enqueued s)"
  shows "x \<in> set (rv_enqueued (recovery_ticks enqueue staleHours ticks s))"
  using assms(2)
proof (induction ticks arbitrary: s)
  case (Cons t ticks)
  obtain now rows where t: "t = (now, rows)" by (cases t)
  have "x \<in> set (rv_enqueued (recover enqueue staleHours True False (\<lambda>_. True) now (Some rows) s))"
    using Cons.prems by (simp add: accepted_tick(1) [OF assms(1)])
  from Cons.IH [OF this] show ?case by (simp add: recovery_ticks_def t)
qed (simp add: recovery_ticks_def)

lemma recovery_progress:
  assumes accepts: "\<forall>v q. fst (enqueue v q) = Inr ()"
    and stuck: "\<forall>(now, rows) \<in> set ticks. distinct (map recovery_key rows) \<and> x \<in> set rows \<and>
                  recoverable staleHours now x \<and> recovery_key ` set rows \<subseteq> K"
    and K: "finite K" "card K \<le> RECOVERY_BATCH_SIZE * p" and start: "INITIAL_CURSOR < recovery_key x"
  shows "if rv_cursor s < recovery_key x
         then card {k \<in> K. rv_cursor s < k \<and> k \<le> recovery_key x} \<le> RECOVERY_BATCH_SIZE * length ticks \<and> ticks \<noteq> []
         else card {k \<in> K. rv_cursor s < k \<and> True} + RECOVERY_BATCH_SIZE * p < RECOVERY_BATCH_SIZE * length ticks \<Longrightarrow>
         0 < p \<Longrightarrow> x \<in> set (rv_enqueued (recovery_ticks enqueue staleHours ticks s))"
  using stuck
proof (induction ticks arbitrary: s)
  case Nil
  then show ?case by (simp split: if_splits)
next
  case (Cons t ticks)
  obtain now rows where t: "t = (now, rows)" by (cases t)
  let ?cs = "findCandidates staleHours now (rv_cursor s) rows"
  let ?s = "recover enqueue staleHours True False (\<lambda>_. True) now (Some rows) s"
  have run: "recovery_ticks enqueue staleHours (t # ticks) s = recovery_ticks enqueue staleHours ticks ?s"
    by (simp add: recovery_ticks_def t)
  have rows: "distinct (map recovery_key rows)" "x \<in> set rows" "recoverable staleHours now x"
    "recovery_key ` set rows \<subseteq> K" using Cons.prems(3) by (simp_all add: t)
  have rest: "\<forall>(now, rows) \<in> set ticks. distinct (map recovery_key rows) \<and> x \<in> set rows \<and>
                  recoverable staleHours now x \<and> recovery_key ` set rows \<subseteq> K" using Cons.prems(3) by simp
  have enq: "rv_enqueued ?s = rv_enqueued s @ ?cs"
    and cur: "rv_cursor ?s = (if length ?cs < RECOVERY_BATCH_SIZE then INITIAL_CURSOR else recovery_key (last ?cs))"
    by (rule accepted_tick [OF accepts])+
  show ?case
  proof (cases "x \<in> set ?cs")
    case True
    then show ?thesis using enqueued_stays [OF accepts] enq by (simp add: run)
  next
    case out: False
    have step: "(if rv_cursor ?s < recovery_key x
         then card {k \<in> K. rv_cursor ?s < k \<and> k \<le> recovery_key x} \<le> RECOVERY_BATCH_SIZE * length ticks \<and> ticks \<noteq> []
         else card {k \<in> K. rv_cursor ?s < k \<and> True} + RECOVERY_BATCH_SIZE * p < RECOVERY_BATCH_SIZE * length ticks)"
    proof (cases "rv_cursor s < recovery_key x")
      case True
      note batch = batch_before [OF rows(1-3) True out]
      have last: "last ?cs \<in> set ?cs" by (rule batch_keys(2) [OF rows(1) batch(1)])
      have c: "rv_cursor ?s = recovery_key (last ?cs)" using batch(1) by (simp add: cur)
      have lt: "recovery_key (last ?cs) < recovery_key x" using batch(2) last by blast
      have "card {k \<in> K. recovery_key (last ?cs) < k \<and> k \<le> recovery_key x} + RECOVERY_BATCH_SIZE
              \<le> card {k \<in> K. rv_cursor s < k \<and> k \<le> recovery_key x}"
        by (rule full_batch_measure [OF K(1) rows(4,1) batch(1)]) (use batch(2) in auto)
      moreover have "recovery_key x \<in> {k \<in> K. recovery_key (last ?cs) < k \<and> k \<le> recovery_key x}"
        using lt rows(2,4) by auto
      then have "0 < card {k \<in> K. recovery_key (last ?cs) < k \<and> k \<le> recovery_key x}"
        using K(1) by (metis (no_types, lifting) card_gt_0_iff empty_iff finite_subset mem_Collect_eq subsetI)
      ultimately show ?thesis using Cons.prems(1) True lt unfolding c by auto
    next
      case False
      show ?thesis
      proof (cases "length ?cs < RECOVERY_BATCH_SIZE")
        case True
        have "card {k \<in> K. INITIAL_CURSOR < k \<and> k \<le> recovery_key x} \<le> card K" by (rule card_mono) (use K(1) in auto)
        moreover have "100 * p < 100 * (1 + length ticks)" using False Cons.prems(1) by (simp add: RECOVERY_BATCH_SIZE_def)
        then have "p \<le> length ticks" by presburger
        moreover from this have "100 * p \<le> 100 * length ticks" by simp
        ultimately show ?thesis using True False Cons.prems(2) start K(2)
          by (auto simp: cur RECOVERY_BATCH_SIZE_def)
      next
        case full: False
        then have len: "length ?cs = RECOVERY_BATCH_SIZE" by (simp add: findCandidates_def RECOVERY_BATCH_SIZE_def)
        have "rv_cursor s < recovery_key (last ?cs)" using batch_keys(2,3) [OF rows(1) len] by blast
        then have "\<not> recovery_key (last ?cs) < recovery_key x" using False by (meson order.strict_trans)
        moreover have "card {k \<in> K. recovery_key (last ?cs) < k \<and> True} + RECOVERY_BATCH_SIZE
              \<le> card {k \<in> K. rv_cursor s < k \<and> True}"
          by (rule full_batch_measure [OF K(1) rows(4,1) len]) simp
        ultimately show ?thesis using Cons.prems(1) False full by (auto simp: cur)
      qed
    qed
    show ?thesis unfolding run by (rule Cons.IH [OF step Cons.prems(2) rest])
  qed
qed

text \<open>Whatever else comes and goes, an upload that stays stuck is enqueued again within a number of runs that depends only
  on how many rows there are: once around the cursor, and once from the start.\<close>

text \<open>C38. Let a stored file be stuck in verification while the recovery runs, on one replica that leads, with the queue up.
  Other rows may come, change and go between the runs, as long as no two rows have the same update time and id and at most
  n such positions occur at all. Then after 2 * (n div 100 + 1) runs the verification of the file has been enqueued again,
  wherever the cursor stood at first. The batches therefore leave no stuck upload out, although each takes only a hundred
  rows and the cursor moves on.\<close>

theorem stalled_uploads_requeued:
  assumes "\<forall>v q. fst (enqueue v q) = Inr ()"
    and "\<forall>(now, rows) \<in> set ticks. distinct (map recovery_key rows) \<and> x \<in> set rows \<and>
           recoverable staleHours now x \<and> recovery_key ` set rows \<subseteq> set keys"
    and "INITIAL_CURSOR < recovery_key x" "2 * (length keys div RECOVERY_BATCH_SIZE + 1) \<le> length ticks"
  shows "x \<in> set (rv_enqueued (recovery_ticks enqueue staleHours ticks s))"
proof (rule recovery_progress [OF assms(1,2), where p = "length keys div RECOVERY_BATCH_SIZE + 1"])
  let ?p = "length keys div RECOVERY_BATCH_SIZE + 1"
  have n: "card {k \<in> set keys. P k} < RECOVERY_BATCH_SIZE * ?p" for P
  proof -
    have "card {k \<in> set keys. P k} \<le> card (set keys)" by (rule card_mono) auto
    also have "\<dots> \<le> length keys" by (rule card_length)
    also have "\<dots> < RECOVERY_BATCH_SIZE * ?p" unfolding RECOVERY_BATCH_SIZE_def by simp
    finally show ?thesis .
  qed
  show "finite (set keys)" "0 < ?p" by simp_all
  show "card (set keys) \<le> RECOVERY_BATCH_SIZE * ?p" using n [of "\<lambda>_. True"] by simp
  show "INITIAL_CURSOR < recovery_key x" by (rule assms(3))
  have ticks: "RECOVERY_BATCH_SIZE * ?p + RECOVERY_BATCH_SIZE * ?p \<le> RECOVERY_BATCH_SIZE * length ticks"
    using assms(4) by (simp add: RECOVERY_BATCH_SIZE_def)
  have "ticks \<noteq> []" using assms(4) by auto
  then show "if rv_cursor s < recovery_key x
       then card {k \<in> set keys. rv_cursor s < k \<and> k \<le> recovery_key x} \<le> RECOVERY_BATCH_SIZE * length ticks \<and> ticks \<noteq> []
       else card {k \<in> set keys. rv_cursor s < k \<and> True} + RECOVERY_BATCH_SIZE * ?p < RECOVERY_BATCH_SIZE * length ticks"
    using n [of "\<lambda>k. rv_cursor s < k \<and> k \<le> recovery_key x"] n [of "\<lambda>k. rv_cursor s < k \<and> True"] ticks by auto
qed

definition example_stuck :: timed_row where
  "example_stuck =
     \<lparr> sr_file = \<lparr> sf_id = ''f-1'', sf_organizationId = ''org-a'', sf_userId = ''u-1'', sf_sourceKey = ''s/1'', sf_key = ''k/1'',
                   sf_bucket = ''files'', sf_contentType = ''image/png'', sf_size = 10, sf_etag = ''e'', sf_status = VERIFYING \<rparr>,
       sr_failureReason = None, sr_scanOutcome = None, sr_verifiedAt = None, sr_deletedAt = None, tr_updatedAt = 1000 \<rparr>"

theorem stalled_uploads_requeued_witness:
  "example_stuck \<in> set (rv_enqueued (recovery_ticks (\<lambda>v q. (Inr (), q @ [v])) 24
     [(40000, [example_stuck]), (60000, [example_stuck])]
     \<lparr> rv_cursor = (5000, ''f-9''), rv_queue = [], rv_enqueued = [] \<rparr>))"
  by (rule stalled_uploads_requeued [where keys = "[recovery_key example_stuck]"])
    (simp_all add: recoverable_def example_stuck_def recovery_key_def INITIAL_CURSOR_def RECOVERY_GRACE_MS_def HOUR_MS_def
      RECOVERY_BATCH_SIZE_def)

text \<open>A user is purged only when inactive and untouched since the cutoff at the moment of the deletion, whatever happens
  between the reading of the candidates and their deletion.\<close>

lemma recently_active_users_stay:
  assumes "r \<in> set rows" "\<And>i us. r \<in> set us \<Longrightarrow> r \<in> set (between i us)" "\<not> inactive_since cutoff r"
  shows "r \<in> set (snd (purge_users_batches scan between cutoff batchSize i left rows))"
  using assms(1)
proof (induction "left" arbitrary: i rows)
  case (Suc n)
  obtain a b rows' where batch: "purge_users_batch scan (between i) cutoff batchSize rows = (a, b, rows')"
    by (cases "purge_users_batch scan (between i) cutoff batchSize rows")
  have "r \<in> set rows'" using batch Suc.prems assms(2) [OF Suc.prems] assms(3)
    by (auto simp: purge_users_batch_def Let_def split: if_splits)
  then have "r \<in> set (snd (purge_users_batches scan between cutoff batchSize (Suc i) n rows'))" by (rule Suc.IH)
  with \<open>r \<in> set rows'\<close> show ?case by (auto simp: batch split: prod.split)
qed simp

end
