(* ===== verification/Staging_Expiry.thy ===== *)
theory Staging_Expiry
  imports Upload_Properties
begin

text \<open>The hourly expiry of staged objects on the local adapter (deleteObjectsOlderThan of local-storage.adapter.ts and
  local-staging-expiry.task.ts). The times files were last modified are the argument \<open>modified\<close>; readdir may list in any
  order, the one of the file system here. Temporary files are private to their calls and not in the modelled tree, so their part of the
  sweep is left out.\<close>

definition collectOlderThan :: "(path \<Rightarrow> instant) \<Rightarrow> path \<Rightarrow> instant \<Rightarrow> local_fs \<Rightarrow> path list" where
  "collectOlderThan modified directory cutoff fs =
     map fst (filter (\<lambda>(p, f). above directory p \<and> modified p < cutoff) fs)"

definition deleteObjectsOlderThan ::
    "local_config \<Rightarrow> (path \<Rightarrow> instant) \<Rightarrow> string \<Rightarrow> instant \<Rightarrow> (local_fs, nat) action" where
  "deleteObjectsOlderThan cfg modified prefix cutoff =
     bindE (fromE (segments (lc_bucket cfg) prefix)) (\<lambda>segs.
     bindE (readE (collectOlderThan modified (''objects'' # lc_bucket cfg # segs) cutoff)) (\<lambda>expiredObjects.
       thenE
         (each (\<lambda>p. bindE (fromE (locate (lc_bucket cfg) (join_with ''/'' (drop 2 p)))) (\<lambda>loc. then_others cfg 6 (removeObject loc)))
            expiredObjects)
         (returnE (length expiredObjects))))"

definition STAGING_PREFIX :: string where
  "STAGING_PREFIX = ''uploads''"

definition MS_PER_DAY :: int where
  "MS_PER_DAY = 86400000"

text \<open>A run of the task; on another adapter there is nothing to expire, and a failure is logged.\<close>

definition expire :: "local_config \<Rightarrow> bool \<Rightarrow> bool \<Rightarrow> bool \<Rightarrow> int \<Rightarrow> (path \<Rightarrow> instant) \<Rightarrow> (local_fs, unit) action" where
  "expire cfg is_local leader running expiryDays modified =
     (if \<not> is_local \<or> \<not> leader \<or> running then returnE ()
      else quietly
        (thenE (deleteObjectsOlderThan cfg modified STAGING_PREFIX (lc_nowMs cfg - expiryDays * MS_PER_DAY)) (returnE ())))"

section \<open>Expiry spares every file\<close>

definition staging_paths :: "path set" where
  "staging_paths = {p. hd p = ''meta'' \<or> take 1 (drop 2 p) = [STAGING_PREFIX]}"

lemma spares_each: "(\<And>x. x \<in> set xs \<Longrightarrow> spares P (f x)) \<Longrightarrow> spares P (each f xs)"
  by (induction xs) (auto intro: spares_rules)

lemma spares_from: "(\<And>x. r = Inr x \<Longrightarrow> spares P (f x)) \<Longrightarrow> spares P (bindE (fromE r) f)"
  by (cases r) (simp_all add: spares_def bindE_def fromE_def)

lemma spares_read_bind: "(\<And>fs. spares P (f (g fs))) \<Longrightarrow> spares P (bindE (readE g) f)"
  by (simp add: spares_def bindE_def readE_def)

lemma staged_key:
  assumes "above (''objects'' # b # [STAGING_PREFIX]) p" "locate b (join_with ''/'' (drop 2 p)) = Inr loc"
  shows "ol_objectPath loc \<in> staging_paths" "ol_metaPath loc \<in> staging_paths"
proof -
  have "\<exists>w ws. drop 2 p = STAGING_PREFIX # w # ws"
    using assms(1) by (cases p; cases "tl p"; cases "drop 2 p"; cases "drop 3 p") (auto simp: above_def numeral_2_eq_2 numeral_3_eq_3)
  then obtain w ws where "drop 2 p = STAGING_PREFIX # w # ws" by blast
  then have "hd (split_on CHR ''/'' (join_with ''/'' (drop 2 p))) = STAGING_PREFIX"
    by (simp add: hd_split_on STAGING_PREFIX_def)
  then have "take 1 (split_on CHR ''/'' (join_with ''/'' (drop 2 p))) = [STAGING_PREFIX]"
    by (cases "split_on CHR ''/'' (join_with ''/'' (drop 2 p))") auto
  then show "ol_objectPath loc \<in> staging_paths" using locate_object [OF assms(2)] by (simp add: staging_paths_def)
  show "ol_metaPath loc \<in> staging_paths" using locate_meta [OF assms(2)] by (auto simp: staging_paths_def)
qed

lemma expiry_spares: "spares staging_paths (expire (undisturbed cfg) is_local leader running days modified)"
proof -
  let ?cfg = "undisturbed cfg"
  have segs: "segments b STAGING_PREFIX = Inr segs \<Longrightarrow> segs = [STAGING_PREFIX]" for b segs
    by (auto simp: segments_def STAGING_PREFIX_def Let_def split: if_splits)
  have "spares staging_paths (deleteObjectsOlderThan ?cfg modified STAGING_PREFIX cutoff)" for cutoff
    unfolding deleteObjectsOlderThan_def
  proof (rule spares_from)
    fix segs assume "segments (lc_bucket ?cfg) STAGING_PREFIX = Inr segs"
    then have seg: "segs = [STAGING_PREFIX]" by (rule segs)
    let ?all = "\<lambda>expiredObjects. thenE
         (each (\<lambda>p. bindE (fromE (locate (lc_bucket ?cfg) (join_with ''/'' (drop 2 p)))) (\<lambda>loc. then_others ?cfg 6 (removeObject loc)))
            expiredObjects) (returnE (length expiredObjects))"
    have all: "spares staging_paths (?all ps)" if "\<forall>p \<in> set ps. above (''objects'' # lc_bucket ?cfg # [STAGING_PREFIX]) p" for ps
      by (intro spares_then spares_each spares_from spares_others spares_removeObject spares_pure)
        (use that staged_key in blast)+
    show "spares staging_paths (bindE (readE (collectOlderThan modified (''objects'' # lc_bucket ?cfg # segs) cutoff)) ?all)"
      unfolding seg by (rule spares_read_bind, rule all) (auto simp: collectOlderThan_def)
  qed
  then show ?thesis unfolding expire_def by (auto intro!: spares_rules)
qed

text \<open>The expiry is one of the others every upload request tolerates: it changes no row and no object of one, whatever the
  ages of the files are, because the key of a row lies outside the staging prefix.\<close>

lemma expiry_is_tolerated:
  fixes w :: "(local_fs, 'q) upload_world" and cfg :: local_config and is_local leader running :: bool
    and days :: int and modified :: "path \<Rightarrow> instant"
  assumes "upload_inv local_contents w"
  defines "w' \<equiv> w \<lparr> uw_store := snd (expire (undisturbed cfg) is_local leader running days modified (uw_store w)) \<rparr>"
  shows "upload_inv local_contents w'" and "steps local_contents w w'"
proof -
  have kept: "local_contents (uw_store w') b k = local_contents (uw_store w) b k" if "starts_with ''files/'' k" for b k
  proof -
    have "ol_objectPath loc \<notin> staging_paths" if l: "locate b k = Inr loc" for loc
    proof -
      have "take 6 k = ''files/''" using \<open>starts_with ''files/'' k\<close> by (simp add: starts_with_def numeral_eq_Suc)
      then have "k = ''files'' @ CHR ''/'' # drop 6 k" by (metis append_Cons append_Nil append_take_drop_id)
      then obtain rest where k: "k = ''files'' @ CHR ''/'' # rest" by blast
      have "split_on CHR ''/'' k = ''files'' # split_on CHR ''/'' rest" unfolding k by (rule split_on_sep) simp
      then show ?thesis using locate_object [OF l] by (simp add: staging_paths_def STAGING_PREFIX_def)
    qed
    then show ?thesis unfolding w'_def by (simp add: contents_spared [OF expiry_spares])
  qed
  have rows: "uw_rows w' = uw_rows w" "uw_issued w' = uw_issued w" by (simp_all add: w'_def)
  show "upload_inv local_contents w'" using assms(1) kept by (auto simp: upload_inv_def rows holds_type_def)
  show "steps local_contents w w'"
    using assms(1) kept by (auto simp: steps_def rows object_kept_def upload_inv_def intro!: bexI)
qed

end
