(* ===== verification/Auth_Mail.thy ===== *)
theory Auth_Mail
  imports Mail_Delivery Http_Guards Stored_Files S3_Storage
begin

text \<open>What the settings of Better Auth compute (libs/infra/auth: better-auth.config.ts, session-cookie.ts,
  organization-access-control.ts; i18n-helpers.ts of libs/infra/i18n): which providers are on, what the roles of an organization
  may do at its endpoints, where links in mails point, the mails themselves and the checks of an account's status. The
  translation service (\<open>i18n\<close>: None is an answer that is no text), the URL parser of the runtime (\<open>url_protocol\<close>,
  \<open>search_params\<close>), the folding of toLowerCase, and the statements the library ships with are parameters.\<close>

section \<open>Settings\<close>

record oauth_credentials =
  oc_clientId :: string
  oc_clientSecret :: string

definition env_text :: "process_env \<Rightarrow> string \<Rightarrow> string option" where
  "env_text env k = truthy (map_option trim (env k))"

definition readOAuthPair :: "process_env \<Rightarrow> string \<Rightarrow> oauth_credentials option" where
  "readOAuthPair env provider =
     (case (env_text env (provider @ ''_CLIENT_ID''), env_text env (provider @ ''_CLIENT_SECRET'')) of
        (Some i, Some s) \<Rightarrow> Some \<lparr> oc_clientId = i, oc_clientSecret = s \<rparr>
      | _ \<Rightarrow> None)"

definition buildSocialProviders :: "process_env \<Rightarrow> (string \<times> oauth_credentials) list" where
  "buildSocialProviders env =
     List.map_filter (\<lambda>(name, provider). map_option (Pair name) (readOAuthPair env provider))
       [(''google'', ''GOOGLE''), (''github'', ''GITHUB''), (''facebook'', ''FACEBOOK'')]"

definition strip_slashes :: "string \<Rightarrow> string" where
  "strip_slashes s = rev (dropWhile (\<lambda>c. c = CHR ''/'') (rev s))"

definition resolveFrontendBase :: "process_env \<Rightarrow> string outcome" where
  "resolveFrontendBase env =
     (case env_text env ''FRONTEND_BASE_URL'' of
        Some raw \<Rightarrow> Inr (strip_slashes raw)
      | None \<Rightarrow>
          if env ''NODE_ENV'' = Some ''production''
          then Inl (Internal (''FRONTEND_BASE_URL must be set in production - it is the SPA host that owns '' @
                 ''/reset, /verify-email and /delete-account pages. Email links cannot be built without it.''))
          else
            (case truthy (map_option (strip_slashes \<circ> trim) (env ''BETTER_AUTH_URL'')) of
               Some configured \<Rightarrow> Inr configured
             | None \<Rightarrow> Inr (''http://localhost:'' @ default_to ''3000'' (env_text env ''PORT''))))"

definition SESSION_COOKIE_BASE :: string where
  "SESSION_COOKIE_BASE = ''better-auth.session_token''"

definition usesSecureCookies :: "process_env \<Rightarrow> string option \<Rightarrow> bool" where
  "usesSecureCookies env baseURL \<longleftrightarrow>
     env ''NODE_ENV'' = Some ''production'' \<or> (case baseURL of None \<Rightarrow> False | Some u \<Rightarrow> starts_with ''https://'' u)"

definition sessionCookieName :: "process_env \<Rightarrow> string option \<Rightarrow> string" where
  "sessionCookieName env baseURL =
     (if usesSecureCookies env baseURL then ''__Secure-'' @ SESSION_COOKIE_BASE else SESSION_COOKIE_BASE)"

text \<open>\<open>trustedOrigins\<close>; without a secret production does not start.\<close>

definition trustedOrigins :: "process_env \<Rightarrow> string list" where
  "trustedOrigins env =
     (case env ''CORS_ORIGINS'' of None \<Rightarrow> [] | Some s \<Rightarrow> filter (\<lambda>o'. o' \<noteq> []) (map trim (split_on CHR '','' s)))"

definition auth_secret :: "process_env \<Rightarrow> string option outcome" where
  "auth_secret env =
     (case truthy (env ''BETTER_AUTH_SECRET'') of
        Some s \<Rightarrow> Inr (Some s)
      | None \<Rightarrow>
          if env ''NODE_ENV'' = Some ''production'' then Inl (Internal ''BETTER_AUTH_SECRET must be set in production'')
          else Inr None)"

section \<open>What the roles may do at the endpoints of the library\<close>

text \<open>The spread of one object over another.\<close>

definition spread_over :: "(string \<times> 'v) list \<Rightarrow> (string \<times> 'v) list \<Rightarrow> (string \<times> 'v) list" where
  "spread_over base over = foldl (\<lambda>acc (k, v). AList.update k v acc) base over"

definition access_statements :: "(string \<times> string list) list \<Rightarrow> (string \<times> string list) list" where
  "access_statements defaultStatements = spread_over defaultStatements (groupPermissionsByResource ALL_PERMISSIONS)"

definition roleFor :: "string \<Rightarrow> (string \<times> string list) list" where
  "roleFor role =
     (let appPermissions = groupPermissionsByResource (system_role_permissions role);
          own = (\<lambda>r. default_to [] (map_of appPermissions r));
          administers = (role = ''owner'' \<or> role = ''admin'')
      in spread_over appPermissions
           (if administers
            then [(''member'', own ''member'' @ [''create'', ''update'', ''delete'']),
                  (''invitation'', own ''invitation'' @ [''create'', ''cancel'']),
                  (''team'', own ''team'' @ [''create'', ''update'', ''delete'']),
                  (''ac'', if role = ''owner'' then [''create'', ''read'', ''update'', ''delete''] else [''read''])]
            else []))"

definition organizationRoles :: "(string \<times> (string \<times> string list) list) list" where
  "organizationRoles = map (\<lambda>role. (role, roleFor role)) SYSTEM_ROLES"

text \<open>On the permissions of the application the endpoints of the library and the engines agree about every system role: what
  an owner or admin may do there in addition is no permission of the catalog the role lacks.\<close>

lemma roles_agree_with_catalog:
  assumes "(role, statements) \<in> set organizationRoles" "p \<in> set ALL_PERMISSIONS"
  shows "p \<in> set (flat_statements statements) \<longleftrightarrow> p \<in> set (system_role_permissions role)"
proof -
  have "list_all (\<lambda>(role, statements).
      list_all (\<lambda>p. (p \<in> set (flat_statements statements)) = (p \<in> set (system_role_permissions role))) ALL_PERMISSIONS) organizationRoles"
    by code_simp
  then show ?thesis using assms by (auto simp: list_all_iff)
qed

section \<open>Who may use a session\<close>

text \<open>\<open>status\<close> is what the users table holds for an id.\<close>

definition assertActiveUser :: "(id \<Rightarrow> string option) \<Rightarrow> id \<Rightarrow> unit outcome" where
  "assertActiveUser status userId =
     (if status userId = Some USER_STATUS_ACTIVE then Inr () else Inl (Http 403 ''Account is not active''))"

text \<open>The hook before every endpoint: a server-side call of get-session has no request, \<open>session_user\<close> is the user of
  the session of the request.\<close>

definition before_endpoint :: "(id \<Rightarrow> string option) \<Rightarrow> string \<Rightarrow> bool \<Rightarrow> id option \<Rightarrow> unit outcome" where
  "before_endpoint status endpoint has_request session_user =
     (if endpoint = ''/sign-out'' then Inr ()
      else if endpoint = ''/get-session'' \<and> \<not> has_request then Inr ()
      else (case session_user of None \<Rightarrow> Inr () | Some u \<Rightarrow> assertActiveUser status u))"

text \<open>The hook before a session is stored gives it the organization it starts in.\<close>

definition before_session_create ::
    "(id \<Rightarrow> string option) \<Rightarrow> (id \<Rightarrow> ('s, id) action) \<Rightarrow> id \<Rightarrow> ('s, id) action" where
  "before_session_create status sessionPolicy userId =
     thenE (fromE (assertActiveUser status userId)) (sessionPolicy userId)"

section \<open>Mails\<close>

type_synonym i18n = "string \<Rightarrow> string \<Rightarrow> (string \<times> string) list \<Rightarrow> string option outcome"

definition translateOrFallback :: "i18n \<Rightarrow> string \<Rightarrow> string \<Rightarrow> (string \<times> string) list \<Rightarrow> string" where
  "translateOrFallback i18n lang key args = (case i18n key lang args of Inr (Some t) \<Rightarrow> t | _ \<Rightarrow> key)"

text \<open>The language of a request: the query parameter, then x-lang, then the first of Accept-Language. The callbacks of Better
  Auth get a fetch request, whose headers are read by \<open>get\<close> and whose query is in its url.\<close>

datatype locale_headers = FetchHeaders "string \<Rightarrow> string option" | HeaderBag "string \<Rightarrow> header"

record locale_source =
  lx_query :: "(string \<times> json) list option"
  lx_url :: "string option"
  lx_headers :: "locale_headers option"

definition readQuery :: "(string \<Rightarrow> (string \<times> string) list option) \<Rightarrow> locale_source \<Rightarrow> (string \<times> json) list option" where
  "readQuery search_params source =
     (case lx_query source of
        Some q \<Rightarrow> Some q
      | None \<Rightarrow>
          (case lx_url source of
             None \<Rightarrow> None
           | Some url \<Rightarrow> map_option (\<lambda>ps. rev (map (\<lambda>(k, v). (k, JStr v)) ps)) (search_params url)))"

definition readHeader :: "(string \<Rightarrow> string) \<Rightarrow> locale_source \<Rightarrow> string \<Rightarrow> string option" where
  "readHeader lower source name =
     (case lx_headers source of
        None \<Rightarrow> None
      | Some (FetchHeaders get) \<Rightarrow> get name
      | Some (HeaderBag bag) \<Rightarrow>
          (case (case bag name of NoHeader \<Rightarrow> bag (lower name) | h \<Rightarrow> h) of
             NoHeader \<Rightarrow> None
           | OneHeader v \<Rightarrow> Some v
           | ManyHeaders vs \<Rightarrow> (case vs of [] \<Rightarrow> None | v # _ \<Rightarrow> Some v)))"

definition normalize_locale :: "(string \<Rightarrow> string) \<Rightarrow> string \<Rightarrow> string" where
  "normalize_locale lower lang = hd (split_on CHR ''-'' (lower lang))"

definition resolveRequestLocale ::
    "(string \<Rightarrow> string) \<Rightarrow> (string \<Rightarrow> (string \<times> string) list option) \<Rightarrow> locale_source option \<Rightarrow> string \<Rightarrow> string" where
  "resolveRequestLocale lower search_params source fallback =
     (case source of
        None \<Rightarrow> fallback
      | Some src \<Rightarrow>
          (let queryLang = (case readQuery search_params src of
                 None \<Rightarrow> None
               | Some q \<Rightarrow> (case map_of q ''lang'' of Some (JStr l) \<Rightarrow> Some l | _ \<Rightarrow> None));
               primary = (\<lambda>a. truthy (Some (trim (hd (split_on CHR '';'' (hd (split_on CHR '','' a)))))))
           in case truthy queryLang of
                Some l \<Rightarrow> normalize_locale lower l
              | None \<Rightarrow>
                  (case truthy (readHeader lower src ''x-lang'') of
                     Some l \<Rightarrow> normalize_locale lower l
                   | None \<Rightarrow>
                       (case truthy (readHeader lower src ''accept-language'') of
                          None \<Rightarrow> fallback
                        | Some a \<Rightarrow> (case primary a of None \<Rightarrow> fallback | Some l \<Rightarrow> normalize_locale lower l)))))"

text \<open>The language that is looked up is the fallback or a language family: a region never selects a catalog of its own.\<close>

lemma locale_is_a_family:
  "resolveRequestLocale lower search_params source fallback = fallback \<or>
   CHR ''-'' \<notin> set (resolveRequestLocale lower search_params source fallback)"
proof -
  have "CHR ''-'' \<notin> set (normalize_locale lower l)" for l
    unfolding normalize_locale_def by (rule split_on_sep_notin [of _ _ "lower l"]) (simp add: hd_in_set)
  then show ?thesis by (auto simp: resolveRequestLocale_def Let_def split: option.splits)
qed

definition replace_all :: "char \<Rightarrow> string \<Rightarrow> string \<Rightarrow> string" where
  "replace_all c t s = concat (map (\<lambda>x. if x = c then t else [x]) s)"

definition escapeHtml :: "string \<Rightarrow> string" where
  "escapeHtml s =
     replace_all CHR 0x27 ''&#39;'' (replace_all CHR 0x22 ''&quot;'' (replace_all CHR ''>'' ''&gt;''
       (replace_all CHR ''<'' ''&lt;'' (replace_all CHR ''&'' ''&amp;'' s))))"

definition EMAIL_LINK_PROTOCOLS :: "string list" where
  "EMAIL_LINK_PROTOCOLS = [''http:'', ''https:'']"

definition assertHttpLink :: "(string \<Rightarrow> string option) \<Rightarrow> string \<Rightarrow> string outcome" where
  "assertHttpLink url_protocol link =
     (case url_protocol link of
        None \<Rightarrow> Inl (Internal ''Refusing to embed an unparseable link in an email - check FRONTEND_BASE_URL'')
      | Some p \<Rightarrow>
          if p \<in> set EMAIL_LINK_PROTOCOLS then Inr link
          else Inl (Internal (''Refusing to embed a \"'' @ p @
                 ''\" link in an email - check FRONTEND_BASE_URL (http/https only)'')))"

definition linkParagraph :: "(string \<Rightarrow> string option) \<Rightarrow> string \<Rightarrow> string outcome" where
  "linkParagraph url_protocol link =
     (case assertHttpLink url_protocol link of
        Inl e \<Rightarrow> Inl e
      | Inr l \<Rightarrow> Inr (''<a href=\"'' @ escapeHtml l @ ''\">'' @ escapeHtml l @ ''</a>''))"

definition mail_key :: "string \<Rightarrow> string \<Rightarrow> string" where
  "mail_key namespace name = ''emails.'' @ namespace @ ''.'' @ name"

definition greeting :: "i18n \<Rightarrow> string \<Rightarrow> string \<Rightarrow> string option \<Rightarrow> string" where
  "greeting i18n lang namespace name =
     (case truthy name of
        Some n \<Rightarrow> translateOrFallback i18n lang (mail_key namespace ''greeting_named'') [(''name'', escapeHtml n)]
      | None \<Rightarrow> translateOrFallback i18n lang (mail_key namespace ''greeting'') [])"

datatype paragraph_spec = Greeting "string option" | Link string | Paragraph string "(string \<times> string) list"

definition emailLayout :: "string list \<Rightarrow> string" where
  "emailLayout paragraphs =
     ''<!doctype html><html><body style=\"font-family:system-ui,sans-serif;line-height:1.5\">'' @ [CHR 0x0A] @
     join_with [CHR 0x0A] (map (\<lambda>p. ''<p>'' @ p @ ''</p>'') paragraphs) @ [CHR 0x0A] @ ''</body></html>''"

definition render_paragraph :: "i18n \<Rightarrow> (string \<Rightarrow> string option) \<Rightarrow> string \<Rightarrow> string \<Rightarrow> paragraph_spec \<Rightarrow> string outcome" where
  "render_paragraph i18n url_protocol lang namespace spec =
     (case spec of
        Greeting name \<Rightarrow> Inr (greeting i18n lang namespace name)
      | Link link \<Rightarrow> linkParagraph url_protocol link
      | Paragraph name args \<Rightarrow> Inr (translateOrFallback i18n lang (mail_key namespace name) args))"

fun all_rendered :: "('a \<Rightarrow> 'b outcome) \<Rightarrow> 'a list \<Rightarrow> 'b list outcome" where
  "all_rendered f [] = Inr []"
| "all_rendered f (x # xs) =
     (case f x of Inl e \<Rightarrow> Inl e | Inr y \<Rightarrow> (case all_rendered f xs of Inl e \<Rightarrow> Inl e | Inr ys \<Rightarrow> Inr (y # ys)))"

definition renderAuthEmail ::
    "i18n \<Rightarrow> (string \<Rightarrow> string option) \<Rightarrow> string \<Rightarrow> string \<Rightarrow> paragraph_spec list \<Rightarrow> string outcome" where
  "renderAuthEmail i18n url_protocol lang namespace specs =
     (case all_rendered (render_paragraph i18n url_protocol lang namespace) specs of
        Inl e \<Rightarrow> Inl e | Inr paragraphs \<Rightarrow> Inr (emailLayout paragraphs))"

text \<open>What the callbacks of Better Auth are called with.\<close>

datatype auth_mail =
    ResetPassword string string string
  | VerifyEmail string string string
  | ChangeEmail string string string string
  | DeleteAccount string string string
  | Invitation string string string string string string instant

record outgoing_mail =
  og_to :: string
  og_subject :: string
  og_body :: string
  og_template :: string

text \<open>A mail of each kind: its namespace of texts, its template, its paragraphs, its recipient and what its subject names.
  The arguments are name, address and token, with the new address before the token; for an invitation its id,
  the address, the inviter's name and address, the organization and the role, and when it expires.\<close>

definition reset_paragraphs :: "string \<Rightarrow> string \<Rightarrow> string \<Rightarrow> paragraph_spec list" where
  "reset_paragraphs frontendBase name token =
     [Greeting (Some name), Paragraph ''lead'' [], Link (frontendBase @ ''/reset?token='' @ encodeURIComponent token),
      Paragraph ''ignore'' []]"

definition verify_paragraphs :: "string \<Rightarrow> string \<Rightarrow> string \<Rightarrow> paragraph_spec list" where
  "verify_paragraphs frontendBase name token =
     [Greeting (Some name), Paragraph ''lead'' [], Link (frontendBase @ ''/verify-email?token='' @ encodeURIComponent token),
      Paragraph ''expiry'' []]"

definition change_paragraphs :: "string \<Rightarrow> string \<Rightarrow> string \<Rightarrow> string \<Rightarrow> paragraph_spec list" where
  "change_paragraphs frontendBase name newEmail token =
     [Greeting (Some name), Paragraph ''lead'' [], Paragraph ''target'' [(''newEmail'', escapeHtml newEmail)],
      Link (frontendBase @ ''/verify-email?token='' @ encodeURIComponent token), Paragraph ''not_you'' []]"

definition delete_paragraphs :: "string \<Rightarrow> string \<Rightarrow> string \<Rightarrow> paragraph_spec list" where
  "delete_paragraphs frontendBase name token =
     [Greeting (Some name), Paragraph ''warning'' [], Paragraph ''confirm'' [],
      Link (frontendBase @ ''/delete-account?token='' @ encodeURIComponent token), Paragraph ''not_you'' []]"

definition invitation_paragraphs ::
    "string \<Rightarrow> string \<Rightarrow> string \<Rightarrow> string \<Rightarrow> string \<Rightarrow> string \<Rightarrow> instant \<Rightarrow> paragraph_spec list" where
  "invitation_paragraphs frontendBase i inviterName inviterEmail org role expiresAt =
     [Greeting None,
      Paragraph ''lead'' [(''inviter'', escapeHtml (default_to inviterEmail (truthy (Some inviterName)))), (''organization'', escapeHtml org)],
      Paragraph ''role'' [(''role'', escapeHtml role)], Paragraph ''accept'' [],
      Link (frontendBase @ ''/accept-invitation?id='' @ encodeURIComponent i), Paragraph ''expiry'' [(''expiresAt'', toISOString expiresAt)]]"

fun mail_parts :: "string \<Rightarrow> auth_mail \<Rightarrow> string \<times> string \<times> paragraph_spec list \<times> string \<times> (string \<times> string) list" where
  "mail_parts frontendBase (ResetPassword name email token) =
     (''password_reset'', ''password-reset'', reset_paragraphs frontendBase name token, email, [])"
| "mail_parts frontendBase (VerifyEmail name email token) =
     (''email_verification'', ''email-verification'', verify_paragraphs frontendBase name token, email, [])"
| "mail_parts frontendBase (ChangeEmail name email newEmail token) =
     (''email_change'', ''email-change-confirmation'', change_paragraphs frontendBase name newEmail token, email, [])"
| "mail_parts frontendBase (DeleteAccount name email token) =
     (''account_deletion'', ''account-deletion'', delete_paragraphs frontendBase name token, email, [])"
| "mail_parts frontendBase (Invitation i email inviterName inviterEmail org role expiresAt) =
     (''organization_invitation'', ''organization-invitation'',
      invitation_paragraphs frontendBase i inviterName inviterEmail org role expiresAt, email, [(''organization'', org)])"

definition sendAuthEmail ::
    "(string \<Rightarrow> string) \<Rightarrow> (string \<Rightarrow> email_payload \<Rightarrow> string \<Rightarrow> ('q, unit) action) \<Rightarrow> outgoing_mail \<Rightarrow> ('q, unit) action" where
  "sendAuthEmail sha256hex add m = send_auth_mail sha256hex add (og_to m) (og_subject m) (og_body m) (Some (og_template m))"

definition compose_auth_mail ::
    "i18n \<Rightarrow> (string \<Rightarrow> string option) \<Rightarrow> string \<Rightarrow> string \<Rightarrow> auth_mail \<Rightarrow> outgoing_mail outcome" where
  "compose_auth_mail i18n url_protocol frontendBase lang mail =
     (case mail_parts frontendBase mail of
        (namespace, template, specs, recipient, subjectArgs) \<Rightarrow>
          (case renderAuthEmail i18n url_protocol lang namespace specs of
             Inl e \<Rightarrow> Inl e
           | Inr body \<Rightarrow>
               Inr \<lparr> og_to = recipient,
                     og_subject = translateOrFallback i18n lang (mail_key namespace ''subject'') subjectArgs,
                     og_body = body, og_template = template \<rparr>))"

definition dispatch_auth_mail ::
    "i18n \<Rightarrow> (string \<Rightarrow> string option) \<Rightarrow> (string \<Rightarrow> string) \<Rightarrow> (string \<Rightarrow> (string \<times> string) list option)
     \<Rightarrow> (string \<Rightarrow> string) \<Rightarrow> (string \<Rightarrow> email_payload \<Rightarrow> string \<Rightarrow> ('q, unit) action)
     \<Rightarrow> string \<Rightarrow> locale_source option \<Rightarrow> auth_mail \<Rightarrow> ('q, unit) action" where
  "dispatch_auth_mail i18n url_protocol lower search_params sha256hex add frontendBase request mail =
     (let lang = resolveRequestLocale lower search_params request ''en''
      in bindE (fromE (compose_auth_mail i18n url_protocol frontendBase lang mail)) (sendAuthEmail sha256hex add))"

section \<open>What a mail may contain\<close>

definition no_markup :: "string \<Rightarrow> bool" where
  "no_markup s \<longleftrightarrow> set s \<inter> {CHR ''<'', CHR ''>'', CHR 0x22} = {}"

text \<open>The five replacements one after another are one pass: none of them touches what an earlier one wrote.\<close>

definition html_char :: "char \<Rightarrow> string" where
  "html_char c =
     (if c = CHR ''&'' then ''&amp;'' else if c = CHR ''<'' then ''&lt;'' else if c = CHR ''>'' then ''&gt;''
      else if c = CHR 0x22 then ''&quot;'' else if c = CHR 0x27 then ''&#39;'' else [c])"

lemma escape_one_pass: "escapeHtml s = concat (map html_char s)"
  by (induction s) (auto simp: escapeHtml_def replace_all_def html_char_def)

lemma escaped_is_safe: "no_markup (escapeHtml s)"
  unfolding escape_one_pass no_markup_def by (auto simp: html_char_def)

text \<open>No information is lost: a browser reads the escaped text as the text.\<close>

fun unescape :: "string \<Rightarrow> string" where
  "unescape [] = []"
| "unescape (c # cs) =
     (if c \<noteq> CHR ''&'' then c # unescape cs
      else if take 4 cs = ''amp;'' then CHR ''&'' # unescape (drop 4 cs)
      else if take 3 cs = ''lt;'' then CHR ''<'' # unescape (drop 3 cs)
      else if take 3 cs = ''gt;'' then CHR ''>'' # unescape (drop 3 cs)
      else if take 5 cs = ''quot;'' then CHR 0x22 # unescape (drop 5 cs)
      else if take 4 cs = ''#39;'' then CHR 0x27 # unescape (drop 4 cs)
      else c # unescape cs)"

lemma unescape_escaped: "unescape (escapeHtml s) = s"
  unfolding escape_one_pass by (induction s) (simp_all add: html_char_def)

text \<open>The text catalog: a text with harmless arguments is harmless.\<close>

definition plain_catalog :: "i18n \<Rightarrow> bool" where
  "plain_catalog i18n \<longleftrightarrow>
     (\<forall>key lang args t. i18n key lang args = Inr (Some t) \<longrightarrow> (\<forall>(n, v) \<in> set args. no_markup v) \<longrightarrow> no_markup t)"

lemma translated_plain:
  "plain_catalog i18n \<Longrightarrow> no_markup key \<Longrightarrow> \<forall>(n, v) \<in> set args. no_markup v \<Longrightarrow> no_markup (translateOrFallback i18n lang key args)"
  by (auto simp: translateOrFallback_def plain_catalog_def split: sum.split option.split)

lemma digits_plain: "list_all is_digit s \<Longrightarrow> no_markup s"
  by (auto simp: no_markup_def list_all_iff is_digit_def)

lemma no_markup_append [simp]: "no_markup (a @ b) \<longleftrightarrow> no_markup a \<and> no_markup b"
  by (auto simp: no_markup_def)

lemma iso_plain: "no_markup (toISOString t)"
proof -
  have "no_markup (pad_decimal w n)" for w n by (rule digits_plain [OF digits_pad_decimal])
  then have "no_markup (year_text y)" "no_markup (time_text ms)" for y ms
    by (auto simp: year_text_def time_text_def) (auto simp: no_markup_def)
  then show ?thesis using \<open>\<And>w n. no_markup (pad_decimal w n)\<close>
    by (auto simp: toISOString_def Let_def) (auto simp: no_markup_def)
qed

fun plain_spec :: "paragraph_spec \<Rightarrow> bool" where
  "plain_spec (Greeting name) = True"
| "plain_spec (Link link) = True"
| "plain_spec (Paragraph name args) = (no_markup name \<and> (\<forall>(n, v) \<in> set args. no_markup v))"

fun links_of :: "paragraph_spec \<Rightarrow> string list" where
  "links_of (Link link) = [link]"
| "links_of _ = []"

definition anchor :: "string \<Rightarrow> string" where
  "anchor link = ''<a href=\"'' @ escapeHtml link @ ''\">'' @ escapeHtml link @ ''</a>''"

definition http_link :: "(string \<Rightarrow> string option) \<Rightarrow> string \<Rightarrow> bool" where
  "http_link url_protocol link \<longleftrightarrow> url_protocol link \<in> Some ` set EMAIL_LINK_PROTOCOLS"

lemma anchor_has_markup: "\<not> no_markup (anchor link)"
  by (simp add: anchor_def no_markup_def)

lemma rendered_paragraph:
  assumes "plain_catalog i18n" "no_markup namespace" "plain_spec spec"
    and "render_paragraph i18n url_protocol lang namespace spec = Inr p"
  shows "links_of spec = [] \<and> no_markup p \<or> (\<exists>link. links_of spec = [link] \<and> p = anchor link \<and> http_link url_protocol link)"
proof (cases spec)
  case (Greeting name)
  then show ?thesis using assms escaped_is_safe
    by (auto simp: render_paragraph_def greeting_def mail_key_def split: option.split
        intro!: translated_plain) (simp_all add: no_markup_def)
next
  case (Link link)
  then show ?thesis using assms
    by (auto simp: render_paragraph_def linkParagraph_def assertHttpLink_def anchor_def http_link_def split: option.splits if_splits)
next
  case (Paragraph name args)
  then have "no_markup (mail_key namespace name)" using assms(2,3) by (auto simp: mail_key_def) (simp add: no_markup_def)+
  then show ?thesis using assms Paragraph by (auto simp: render_paragraph_def intro!: translated_plain)
qed

lemma all_rendered_paragraphs:
  assumes "plain_catalog i18n" "no_markup namespace"
    and "all_rendered (render_paragraph i18n url_protocol lang namespace) specs = Inr ps" "list_all plain_spec specs"
  shows "\<exists>links. links = concat (map links_of specs) \<and> filter (\<lambda>p. \<not> no_markup p) ps = map anchor links \<and> list_all (http_link url_protocol) links"
  using assms(3,4)
proof (induction specs arbitrary: ps)
  case (Cons spec specs)
  obtain p qs where p: "render_paragraph i18n url_protocol lang namespace spec = Inr p"
    "all_rendered (render_paragraph i18n url_protocol lang namespace) specs = Inr qs" "ps = p # qs"
    using Cons.prems(1) by (auto split: sum.splits)
  show ?case using rendered_paragraph [OF assms(1,2) _ p(1)] Cons.IH [OF p(2)] Cons.prems(2)
    by (auto simp: p(3) anchor_has_markup)
qed simp

definition mail_link :: "string \<Rightarrow> auth_mail \<Rightarrow> string" where
  "mail_link frontendBase mail =
     frontendBase @
     (case mail of
        ResetPassword name email token \<Rightarrow> ''/reset?token='' @ encodeURIComponent token
      | VerifyEmail name email token \<Rightarrow> ''/verify-email?token='' @ encodeURIComponent token
      | ChangeEmail name email newEmail token \<Rightarrow> ''/verify-email?token='' @ encodeURIComponent token
      | DeleteAccount name email token \<Rightarrow> ''/delete-account?token='' @ encodeURIComponent token
      | Invitation i email inviterName inviterEmail org role expiresAt \<Rightarrow> ''/accept-invitation?id='' @ encodeURIComponent i)"

lemma mail_specs:
  assumes "mail_parts frontendBase mail = (namespace, template, specs, recipient, args)"
  shows "no_markup namespace" "list_all plain_spec specs" "concat (map links_of specs) = [mail_link frontendBase mail]"
  using assms escaped_is_safe iso_plain
  by (cases mail; auto simp: reset_paragraphs_def verify_paragraphs_def change_paragraphs_def delete_paragraphs_def
      invitation_paragraphs_def mail_link_def; simp add: no_markup_def)+


definition example_catalog :: i18n where
  "example_catalog key lang args = Inr (Some (''Hello '' @ concat (map snd args)))"

definition example_protocol :: "string \<Rightarrow> string option" where
  "example_protocol link = (if starts_with ''https://'' link then Some ''https:'' else None)"

definition example_reset :: auth_mail where
  "example_reset = ResetPassword ''<img src=x>'' ''a@b.c'' ''t&1''"


end
