(* ===== verification/Boundary.thy ===== *)
theory Boundary
  imports Problem_Details Rate_Limits Local_Storage
begin

text \<open>What else leaves the api: the ids of a request (common/logging/request-id.ts), the responses of Better Auth, which bypass
  the exception filter (better-auth-response.ts, better-auth-route-handler.ts), the errors of GraphQL (graphql-error-formatter.ts), the
  problems of a request that fails validation (validation.pipe.ts, validation-codes.ts), and what of an error is logged
  (logger-redact.ts). The trace of a request, the handler of Better Auth and the formatter of Mercurius are parameters.\<close>

section \<open>Request ids\<close>

text \<open>\<open>/^[A-Za-z0-9._~-]{1,128}$/\<close>\<close>

definition id_char :: "char \<Rightarrow> bool" where
  "id_char c \<longleftrightarrow> is_digit c \<or> is_lower c \<or> (65 \<le> (of_char c :: nat) \<and> (of_char c :: nat) \<le> 90) \<or> c \<in> set ''._~-''"

definition SAFE_CLIENT_ID :: "string \<Rightarrow> bool" where
  "SAFE_CLIENT_ID s \<longleftrightarrow> list_all id_char s \<and> 1 \<le> length s \<and> length s \<le> 128"

definition sanitizeClientId :: "header \<Rightarrow> string option" where
  "sanitizeClientId value = (case value of OneHeader s \<Rightarrow> if SAFE_CLIENT_ID s then Some s else None | _ \<Rightarrow> None)"

record id_source =
  is_trustInbound :: bool
  is_requestIdHeader :: header
  is_correlationIdHeader :: header
  is_activeTraceId :: "string option"
  is_random :: string

definition resolveRequestId :: "id_source \<Rightarrow> string" where
  "resolveRequestId src =
     (case (if is_trustInbound src then sanitizeClientId (is_requestIdHeader src) else None) of
        Some i \<Rightarrow> i
      | None \<Rightarrow> default_to (is_random src) (is_activeTraceId src))"

definition resolveCorrelationId :: "id_source \<Rightarrow> string \<Rightarrow> string" where
  "resolveCorrelationId src requestId = default_to requestId (sanitizeClientId (is_correlationIdHeader src))"

record request_ids =
  ri_requestId :: "string option"
  ri_correlationId :: "string option"

definition ensureRequestIds :: "id_source \<Rightarrow> request_ids \<Rightarrow> (string \<times> string) \<times> request_ids" where
  "ensureRequestIds src carrier =
     (let requestId = default_to (resolveRequestId src) (ri_requestId carrier);
          correlationId = default_to (resolveCorrelationId src requestId) (ri_correlationId carrier)
      in ((requestId, correlationId), \<lparr> ri_requestId = Some requestId, ri_correlationId = Some correlationId \<rparr>))"

text \<open>Every layer that asks for the ids of a request gets the same, whatever the trace or the random source say by then.\<close>

lemma ids_are_stamped_once:
  "ensureRequestIds src carrier = (ids, carrier') \<Longrightarrow> ensureRequestIds src' carrier' = (ids, carrier')"
  by (auto simp: ensureRequestIds_def Let_def default_to_def)

text \<open>What a client sends becomes part of an id only within the safe alphabet and length.\<close>

lemma client_ids_are_safe:
  assumes "SAFE_CLIENT_ID (is_random src)" "\<And>t. is_activeTraceId src = Some t \<Longrightarrow> SAFE_CLIENT_ID t"
    and "ensureRequestIds src \<lparr> ri_requestId = None, ri_correlationId = None \<rparr> = ((requestId, correlationId), carrier)"
  shows "SAFE_CLIENT_ID requestId \<and> SAFE_CLIENT_ID correlationId"
  using assms
  by (auto simp: ensureRequestIds_def Let_def default_to_def resolveRequestId_def resolveCorrelationId_def sanitizeClientId_def
      split: option.splits if_splits header.splits)

section \<open>Responses of Better Auth\<close>

record fetch_response =
  fr_code :: nat
  fr_headers :: "(string \<times> string) list"
  fr_text :: string

record auth_context =
  ax_docsBase :: "string option"
  ax_now :: instant
  ax_url :: string
  ax_requestId :: string
  ax_correlationId :: string

definition auth_problem :: "auth_context \<Rightarrow> nat \<Rightarrow> string" where
  "auth_problem ctx st =
     stringify (buildProblemDetails (ax_docsBase ctx) (ax_now ctx)
       \<lparr> pa_status = st, pa_title = (if st = 503 then ''Service Unavailable'' else ''Internal Server Error''), pa_detail = None,
         pa_code = (if st = 503 then ''service_unavailable'' else ''internal_server_error''),
         pa_instance = Some (sanitizeUrlForLogging (ax_url ctx)), pa_requestId = Some (ax_requestId ctx),
         pa_errors = None, pa_checks = None \<rparr>)"

definition maskBetterAuthServerResponse :: "auth_context \<Rightarrow> fetch_response \<Rightarrow> fetch_response" where
  "maskBetterAuthServerResponse ctx response =
     (if fr_code response < 500 then response
      else
        \<lparr> fr_code = fr_code response,
          fr_headers =
            [(''content-type'', ''application/problem+json''), (''x-request-id'', ax_requestId ctx),
             (''x-correlation-id'', ax_correlationId ctx)] @
            (case truthy (map_of (fr_headers response) ''retry-after'') of Some r \<Rightarrow> [(''retry-after'', r)] | None \<Rightarrow> []),
          fr_text = auth_problem ctx (fr_code response) \<rparr>)"

text \<open>The route handler: the raw response of Node, to which the handler of Better Auth writes and which the
  watchdog or the catch of the route handler may take over. A head once written stays, and nothing is written to an ended response. \<open>au_settled\<close>
  is the end of the race, after which the route handler has run its catch.\<close>

record auth_route =
  au_head :: "(nat \<times> (string \<times> string) list) option"
  au_body :: string
  au_ended :: bool
  au_settled :: bool
  au_timedOut :: bool

datatype auth_event = Responds fetch_response | Writes string | Finishes | Rejects | Watchdog

definition auth_take_over :: "auth_context \<Rightarrow> bool \<Rightarrow> auth_route \<Rightarrow> auth_route" where
  "auth_take_over ctx timedOut s =
     (if au_head s = None
      then
        (let st = (if timedOut then 503 else 500); body = auth_problem ctx st
         in s \<lparr> au_head := Some (st,
                  [(''Content-Type'', ''application/problem+json''), (''Content-Length'', decimal (length (concat (map utf8_bytes body)))),
                   (''X-Request-Id'', ax_requestId ctx), (''X-Correlation-Id'', ax_correlationId ctx)] @
                  (if timedOut then [(''Retry-After'', int_text RETRY_AFTER_AUTH_UNAVAILABLE_SECONDS)] else [])),
                au_body := body, au_ended := True \<rparr>)
      else s \<lparr> au_ended := True \<rparr>)"

text \<open>\<open>timeoutMs\<close> of 0 sets no watchdog. The adapter of the library resolves only after it has
  written the response of the handler. What the handler does after the race only reaches a response still open.\<close>

fun auth_route_step :: "auth_context \<Rightarrow> int \<Rightarrow> auth_event \<Rightarrow> auth_route \<Rightarrow> auth_route" where
  "auth_route_step ctx timeoutMs (Responds response) s =
     (let r = maskBetterAuthServerResponse ctx response
      in if au_head s = None \<and> \<not> au_ended s
         then s \<lparr> au_head := Some (fr_code r, fr_headers r), au_body := (if 500 \<le> fr_code r then fr_text r else au_body s) \<rparr> else s)"
| "auth_route_step ctx timeoutMs (Writes chunk) s =
     (case au_head s of
        Some (st, _) \<Rightarrow> if au_ended s \<or> 500 \<le> st then s else s \<lparr> au_body := au_body s @ chunk \<rparr>
      | None \<Rightarrow> s)"
| "auth_route_step ctx timeoutMs Finishes s =
     (if au_head s = None then s else s \<lparr> au_ended := True, au_settled := True \<rparr>)"
| "auth_route_step ctx timeoutMs Rejects s =
     (if au_settled s then s else (auth_take_over ctx False s) \<lparr> au_settled := True \<rparr>)"
| "auth_route_step ctx timeoutMs Watchdog s =
     (if au_settled s \<or> timeoutMs \<le> 0 then s else (auth_take_over ctx True s) \<lparr> au_settled := True, au_timedOut := True \<rparr>)"

definition betterAuthRoute :: "auth_context \<Rightarrow> int \<Rightarrow> auth_event list \<Rightarrow> auth_route" where
  "betterAuthRoute ctx timeoutMs es =
     List.fold (auth_route_step ctx timeoutMs) es
       \<lparr> au_head = None, au_body = [], au_ended = False, au_settled = False, au_timedOut = False \<rparr>"

definition auth_route_ok :: "auth_context \<Rightarrow> auth_route \<Rightarrow> bool" where
  "auth_route_ok ctx s \<longleftrightarrow>
     (au_settled s \<longrightarrow> au_ended s) \<and> (au_ended s \<longrightarrow> au_head s \<noteq> None) \<and>
     (\<forall>st h. au_head s = Some (st, h) \<and> 500 \<le> st \<longrightarrow> au_body s = auth_problem ctx st)"

lemma masked_response:
  "fr_code (maskBetterAuthServerResponse ctx r) = fr_code r"
  "500 \<le> fr_code r \<Longrightarrow> fr_text (maskBetterAuthServerResponse ctx r) = auth_problem ctx (fr_code r)"
  by (simp_all add: maskBetterAuthServerResponse_def)

lemma take_over_ok: "auth_route_ok ctx s \<Longrightarrow> auth_route_ok ctx (auth_take_over ctx d s) \<and> au_ended (auth_take_over ctx d s)"
  by (cases "au_head s") (simp_all add: auth_route_ok_def auth_take_over_def Let_def)

lemma auth_step_ok:
  assumes "auth_route_ok ctx s"
  shows "auth_route_ok ctx (auth_route_step ctx t e s)"
proof (cases e)
  case (Responds r)
  then show ?thesis using assms by (cases "au_settled s") (simp_all add: Let_def masked_response auth_route_ok_def)
next
  case (Writes chunk)
  then show ?thesis using assms by (auto simp: auth_route_ok_def split: option.split)
next
  case Finishes
  then show ?thesis using assms by (auto simp: auth_route_ok_def)
next
  case Rejects
  then show ?thesis using assms take_over_ok [OF assms, of False] by (simp add: auth_route_ok_def)
next
  case Watchdog
  then show ?thesis using assms take_over_ok [OF assms, of True] by (simp add: auth_route_ok_def)
qed

lemma auth_step_keeps:
  "au_head s = Some h \<Longrightarrow> au_head (auth_route_step ctx t e s) = Some h"
  "auth_route_ok ctx s \<Longrightarrow> au_ended s \<Longrightarrow> au_ended (auth_route_step ctx t e s) \<and> au_body (auth_route_step ctx t e s) = au_body s"
proof -
  show "au_head s = Some h \<Longrightarrow> au_head (auth_route_step ctx t e s) = Some h"
    by (cases e) (simp_all add: auth_take_over_def Let_def split: prod.split)
  assume "auth_route_ok ctx s" "au_ended s"
  then obtain st hs where "au_head s = Some (st, hs)" by (auto simp: auth_route_ok_def)
  then show "au_ended (auth_route_step ctx t e s) \<and> au_body (auth_route_step ctx t e s) = au_body s"
    using \<open>au_ended s\<close> by (cases e) (simp_all add: auth_take_over_def Let_def)
qed

lemma auth_fold:
  assumes "auth_route_ok ctx s"
  shows "auth_route_ok ctx (List.fold (auth_route_step ctx t) es s)"
    and "au_head s = Some h \<Longrightarrow> au_head (List.fold (auth_route_step ctx t) es s) = Some h"
    and "au_ended s \<Longrightarrow> au_body (List.fold (auth_route_step ctx t) es s) = au_body s"
    and "au_settled s \<Longrightarrow> au_settled (List.fold (auth_route_step ctx t) es s)"
    and "0 < t \<Longrightarrow> Watchdog \<in> set es \<Longrightarrow> au_settled (List.fold (auth_route_step ctx t) es s)"
proof -
  have settled: "au_settled (auth_route_step ctx t e s)" if "au_settled s" for e s
    using that by (cases e) (simp_all add: Let_def split: option.split prod.split)
  then have keep: "au_settled (List.fold (auth_route_step ctx t) es s)" if "au_settled s" for es s
    using that by (induction es arbitrary: s) auto
  then show "au_settled s \<Longrightarrow> au_settled (List.fold (auth_route_step ctx t) es s)" .
  show "0 < t \<Longrightarrow> Watchdog \<in> set es \<Longrightarrow> au_settled (List.fold (auth_route_step ctx t) es s)"
  proof (induction es arbitrary: s)
    case (Cons e es)
    then show ?case using keep [of "auth_route_step ctx t Watchdog s" es] by auto
  qed simp
  show "auth_route_ok ctx (List.fold (auth_route_step ctx t) es s)"
    using assms by (induction es arbitrary: s) (auto intro: auth_step_ok)
  show "au_head s = Some h \<Longrightarrow> au_head (List.fold (auth_route_step ctx t) es s) = Some h"
    by (induction es arbitrary: s) (auto simp: auth_step_keeps(1))
  show "au_ended s \<Longrightarrow> au_body (List.fold (auth_route_step ctx t) es s) = au_body s"
    using assms by (induction es arbitrary: s) (auto simp: auth_step_keeps(2) auth_step_ok)
qed


definition example_auth :: auth_context where
  "example_auth = \<lparr> ax_docsBase = None, ax_now = 0, ax_url = ''/api/auth/sign-in?x=1'', ax_requestId = ''r'', ax_correlationId = ''c'' \<rparr>"


section \<open>Errors of GraphQL\<close>

text \<open>What an error wraps, and the error with its place in the query (\<open>ge_at\<close>).\<close>

datatype original_error =
    OriginalDomain domain_exception
  | OriginalMercurius string int
  | OriginalHttp nat
  | OriginalOther string

record graphql_error =
  ge_message :: string
  ge_at :: json
  ge_extensions :: json
  ge_original :: "original_error option"

definition MASKED_MESSAGE :: string where
  "MASKED_MESSAGE = ''Internal server error''"

definition MERCURIUS_REQUEST_ERROR_CODE_PREFIX :: string where
  "MERCURIUS_REQUEST_ERROR_CODE_PREFIX = ''MER_ERR_GQL_''"

definition isMercuriusClientError :: "original_error \<Rightarrow> bool" where
  "isMercuriusClientError original =
     (case original of
        OriginalMercurius c st \<Rightarrow> starts_with MERCURIUS_REQUEST_ERROR_CODE_PREFIX c \<and> st < 500
      | _ \<Rightarrow> False)"

definition isInternalFailure :: "graphql_error \<Rightarrow> bool" where
  "isInternalFailure e =
     (case ge_original e of
        None \<Rightarrow> False
      | Some (OriginalDomain _) \<Rightarrow> False
      | Some original \<Rightarrow>
          if isMercuriusClientError original then False
          else (case original of OriginalHttp st \<Rightarrow> 500 \<le> st | _ \<Rightarrow> True))"

definition mask_error :: "graphql_error \<Rightarrow> graphql_error" where
  "mask_error e =
     \<lparr> ge_message = MASKED_MESSAGE, ge_at = ge_at e,
       ge_extensions = JObj [(''code'', JStr ''INTERNAL_SERVER_ERROR'')], ge_original = None \<rparr>"

definition createGraphqlErrorFormatter :: "('d \<Rightarrow> graphql_error list \<Rightarrow> 'c \<Rightarrow> 'answer) \<Rightarrow> 'd \<Rightarrow> graphql_error list \<Rightarrow> 'c \<Rightarrow> 'answer" where
  "createGraphqlErrorFormatter defaultErrorFormatter data errors context =
     defaultErrorFormatter data (map (\<lambda>e. if isInternalFailure e then mask_error e else e) errors) context"

text \<open>Two executions that fail at the same places, and differ only in what their internal failures say, are answered alike;
  every other error reaches the formatter as it is.\<close>

lemma graphql_failures_masked:
  assumes "list_all2 (\<lambda>e e'. e = e' \<or> isInternalFailure e \<and> isInternalFailure e' \<and> ge_at e = ge_at e') errors errors'"
  shows "createGraphqlErrorFormatter fmt data errors context = createGraphqlErrorFormatter fmt data errors' context"
proof -
  have "map (\<lambda>e. if isInternalFailure e then mask_error e else e) errors =
        map (\<lambda>e. if isInternalFailure e then mask_error e else e) errors'"
    using assms by (induction rule: list_all2_induct) (auto simp: mask_error_def)
  then show ?thesis by (simp add: createGraphqlErrorFormatter_def)
qed

section \<open>Validation problems\<close>

definition VALIDATOR_CODES :: "(string \<times> string) list" where
  "VALIDATOR_CODES =
     [(''isDefined'', ''required''), (''isNotEmpty'', ''required''), (''isOptional'', ''required''),
      (''isString'', ''wrong_type''), (''isNumber'', ''wrong_type''), (''isInt'', ''wrong_type''), (''isBoolean'', ''wrong_type''),
      (''isArray'', ''wrong_type''), (''isObject'', ''wrong_type''), (''isDate'', ''wrong_type''), (''isEnum'', ''invalid_enum_value''),
      (''isEmail'', ''invalid_email''), (''isUrl'', ''invalid_url''), (''isUuid'', ''invalid_uuid''), (''isPhoneNumber'', ''invalid_phone''),
      (''isMobilePhone'', ''invalid_phone''), (''matches'', ''pattern_mismatch''), (''isAlpha'', ''pattern_mismatch''),
      (''isAlphanumeric'', ''pattern_mismatch''), (''isAscii'', ''pattern_mismatch''), (''isCreditCard'', ''invalid_credit_card''),
      (''isHexColor'', ''pattern_mismatch''), (''isJWT'', ''pattern_mismatch''),
      (''min'', ''out_of_range''), (''max'', ''out_of_range''), (''isPositive'', ''out_of_range''), (''isNegative'', ''out_of_range''),
      (''minDate'', ''out_of_range''), (''maxDate'', ''out_of_range''),
      (''minLength'', ''too_short''), (''maxLength'', ''too_long''), (''length'', ''wrong_length''), (''arrayMinSize'', ''too_short''),
      (''arrayMaxSize'', ''too_long''), (''isIn'', ''invalid_enum_value''), (''isNotIn'', ''forbidden_value''),
      (''whitelistValidation'', ''unknown_field'')]"

definition validatorToCode :: "string \<Rightarrow> string" where
  "validatorToCode rule = default_to ''invalid_value'' (map_of VALIDATOR_CODES rule)"

definition mapConstraintToI18nKey :: "string \<Rightarrow> string" where
  "mapConstraintToI18nKey rule = ''validation.'' @ validatorToCode rule"

text \<open>An error of class-validator: the property, the violated rules with their messages and contexts, and the errors below.\<close>

datatype validation_error =
  ValidationError (ve_property: string) (ve_constraints: "(string \<times> string) list")
    (ve_contexts: "(string \<times> (string \<times> json) list) list") (ve_children: "validation_error list")

definition appendPath :: "string \<Rightarrow> string \<Rightarrow> string" where
  "appendPath parent prop =
     (if parent = [] then prop
      else if prop \<noteq> [] \<and> list_all is_digit prop then parent @ ''['' @ prop @ '']''
      else parent @ ''.'' @ prop)"

fun flattenValidationErrors :: "string \<Rightarrow> validation_error \<Rightarrow> violation list" where
  "flattenValidationErrors parent (ValidationError prop constraints contexts children) =
     (let here = appendPath parent prop
      in map (\<lambda>(rule, message).
            \<lparr> vi_path = here, vi_code = validatorToCode rule, vi_message = message,
               vi_messageKey = Some (mapConstraintToI18nKey rule), vi_rule = Some rule, vi_constraint = map_of contexts rule \<rparr>)
          constraints
         @ concat (map (flattenValidationErrors here) children))"

definition exceptionFactory :: "validation_error list \<Rightarrow> thrown" where
  "exceptionFactory errors =
     ThrownHttp 422 (ObjectResponse (JObj
       [(''code'', JStr ''validation_failed''), (''title'', JStr ''validation.failed_title''),
        (''message'', JStr ''validation.failed_detail''),
        (''errors'', JArr (map violation_json (concat (map (flattenValidationErrors []) errors))))])) ''Unprocessable Entity Exception''"

text \<open>Every violated rule of the tree is reported once, at its path, with a code of the catalog.\<close>

fun rules_below :: "validation_error \<Rightarrow> string list" where
  "rules_below (ValidationError prop constraints contexts children) = map fst constraints @ concat (map rules_below children)"

lemma every_rule_reported: "map (the \<circ> vi_rule) (flattenValidationErrors parent e) = rules_below e"
  by (induction parent e rule: flattenValidationErrors.induct)
    (auto simp: Let_def comp_def case_prod_unfold map_concat cong: map_cong)

lemma reported_codes:
  "v \<in> set (flattenValidationErrors parent e) \<Longrightarrow>
     vi_code v \<in> insert ''invalid_value'' (snd ` set VALIDATOR_CODES) \<and> vi_messageKey v = Some (''validation.'' @ vi_code v)"
proof (induction parent e rule: flattenValidationErrors.induct)
  case (1 parent name constraints contexts children)
  have codes: "validatorToCode rule \<in> insert ''invalid_value'' (snd ` set VALIDATOR_CODES)" for rule
    by (auto simp: validatorToCode_def default_to_def split: option.split dest!: map_of_SomeD intro: rev_image_eqI)
  show ?case
  proof (cases "v \<in> set (concat (map (flattenValidationErrors (appendPath parent name)) children))")
    case True
    then show ?thesis using 1 by auto
  next
    case False
    then have "\<exists>rule. vi_code v = validatorToCode rule \<and> vi_messageKey v = Some (mapConstraintToI18nKey rule)"
      using 1(2) by (auto simp: Let_def)
    then show ?thesis using codes unfolding mapConstraintToI18nKey_def by metis
  qed
qed

section \<open>What of an error is logged\<close>

datatype error_code = CodeText string | CodeNumber string | NoCode

text \<open>\<open>/^[A-Za-z0-9_.:-]{1,80}$/\<close>\<close>

definition machine_word :: "string \<Rightarrow> bool" where
  "machine_word s \<longleftrightarrow>
     list_all (\<lambda>c. is_digit c \<or> is_lower c \<or> (65 \<le> (of_char c :: nat) \<and> (of_char c :: nat) \<le> 90) \<or> c \<in> set ''_.:-'') s \<and>
     1 \<le> length s \<and> length s \<le> 80"

record logged_error =
  le_instance :: bool
  le_name :: "string option"
  le_code :: error_code

definition safeErrorCode :: "logged_error \<Rightarrow> string option" where
  "safeErrorCode e =
     (case le_code e of
        NoCode \<Rightarrow> None
      | CodeText c \<Rightarrow> if machine_word c then Some c else None
      | CodeNumber c \<Rightarrow> if machine_word c then Some c else None)"

definition serializeErrorSafely :: "logged_error \<Rightarrow> string \<times> string option" where
  "serializeErrorSafely e =
     (if le_instance e then default_to ''Error'' (truthy (le_name e))
      else (case le_name e of Some n \<Rightarrow> if machine_word n then n else ''Error'' | None \<Rightarrow> ''Error''),
      safeErrorCode e)"

definition safeErrorSummary :: "logged_error \<Rightarrow> string" where
  "safeErrorSummary e =
     (case serializeErrorSafely e of
        (t, Some c) \<Rightarrow> t @ '' ('' @ c @ '')''
      | (t, None) \<Rightarrow> t)"

text \<open>A summary is made of machine words, for an instance of Error as long as its own name is one.\<close>

lemma summary_is_machine_words:
  assumes "\<And>n. le_instance e \<Longrightarrow> le_name e = Some n \<Longrightarrow> n \<noteq> [] \<Longrightarrow> machine_word n"
  shows "machine_word (fst (serializeErrorSafely e))"
    and "snd (serializeErrorSafely e) = Some c \<Longrightarrow> machine_word c"
proof -
  have "machine_word ''Error''" by code_simp
  then show "machine_word (fst (serializeErrorSafely e))"
    using assms by (auto simp: serializeErrorSafely_def truthy_def default_to_def split: option.split)
  show "snd (serializeErrorSafely e) = Some c \<Longrightarrow> machine_word c"
    by (auto simp: serializeErrorSafely_def safeErrorCode_def split: error_code.splits if_splits)
qed

end
