(* ===== verification/Env_Config.thy ===== *)
theory Env_Config
  imports Local_Storage File_Retention Multipart
begin

text \<open>The settings of the processes (libs/shared: env-schema.ts, stripEmptyEnvStrings of env-readers.ts; env.validation.ts of
  apps/api, apps/worker and apps/scheduler; common/http/trusted-proxies.ts). A schema is the list of its fields, a validated
  configuration the list of their values. What z.email, z.url and proxy-addr accept, whether the number a text stands for lies between 0
  and 1, and how zod words the problems of fields are parameters.\<close>

section \<open>Fields\<close>

text \<open>Texts with a default, required and optional ones (trimmed or not, with a least length), whole numbers, ratios, flags,
  enumerations, and the fields with a transformation of their own.\<close>

datatype env_field =
    TextField string
  | RequiredText
  | OptionalText bool nat
  | IntField int "int option" int
  | RatioField string
  | FlagField bool
  | EnumField "string list" string
  | EnumFlag
  | EmailField string
  | OptionalUrl
  | OriginsField
  | ProxiesField

datatype env_value =
    VText string
  | VAbsent
  | VInt int
  | VRatio string
  | VFlag bool
  | VTexts "string list"

record env_formats =
  ef_email :: "string \<Rightarrow> bool"
  ef_url :: "string \<Rightarrow> bool"
  ef_ratio :: "string \<Rightarrow> bool"
  ef_compile :: "string list \<Rightarrow> bool"

definition comma_list :: "string \<Rightarrow> string list" where
  "comma_list s = filter (\<lambda>x. x \<noteq> []) (map trim (split_on CHR '','' s))"

definition parseTrustedProxies :: "string option \<Rightarrow> string list" where
  "parseTrustedProxies raw = comma_list (default_to [] raw)"

definition isCompilableTrustedProxyList :: "(string list \<Rightarrow> bool) \<Rightarrow> string list \<Rightarrow> bool" where
  "isCompilableTrustedProxyList compiles values \<longleftrightarrow> values = [] \<or> compiles values"

definition resolveTrustedProxies :: "(string list \<Rightarrow> bool) \<Rightarrow> string option \<Rightarrow> string list" where
  "resolveTrustedProxies compiles raw =
     (let values = parseTrustedProxies raw in if isCompilableTrustedProxyList compiles values then values else [])"

definition within :: "int \<Rightarrow> int option \<Rightarrow> int \<Rightarrow> bool" where
  "within lo hi n \<longleftrightarrow> lo \<le> n \<and> (case hi of None \<Rightarrow> True | Some h \<Rightarrow> n \<le> h)"

definition kept :: "bool \<Rightarrow> 'a \<Rightarrow> 'a option" where
  "kept b v = (if b then Some v else None)"

fun read_field :: "env_formats \<Rightarrow> env_field \<Rightarrow> string option \<Rightarrow> env_value option" where
  "read_field fm (TextField d) raw = Some (VText (default_to d raw))"
| "read_field fm RequiredText raw = (case raw of None \<Rightarrow> None | Some s \<Rightarrow> kept (trim s \<noteq> []) (VText (trim s)))"
| "read_field fm (OptionalText trimmed least) raw =
     (case raw of
        None \<Rightarrow> Some VAbsent
      | Some s \<Rightarrow> (let t = (if trimmed then trim s else s) in kept (least \<le> length t) (VText t)))"
| "read_field fm (IntField lo hi d) raw =
     (case raw of
        None \<Rightarrow> Some (VInt d)
      | Some s \<Rightarrow> (case Number_integer s of None \<Rightarrow> None | Some n \<Rightarrow> kept (within lo hi n) (VInt n)))"
| "read_field fm (RatioField d) raw = (case raw of None \<Rightarrow> Some (VRatio d) | Some s \<Rightarrow> kept (ef_ratio fm s) (VRatio s))"
| "read_field fm (FlagField d) raw = Some (VFlag (case raw of None \<Rightarrow> d | Some s \<Rightarrow> s = ''true''))"
| "read_field fm (EnumField choices d) raw = (let s = default_to d raw in kept (s \<in> set choices) (VText s))"
| "read_field fm EnumFlag raw = (let s = default_to ''false'' raw in kept (s \<in> {''true'', ''false''}) (VFlag (s = ''true'')))"
| "read_field fm (EmailField d) raw = (case raw of None \<Rightarrow> Some (VText d) | Some s \<Rightarrow> kept (ef_email fm s) (VText s))"
| "read_field fm OptionalUrl raw = (case raw of None \<Rightarrow> Some VAbsent | Some s \<Rightarrow> kept (ef_url fm s) (VText s))"
| "read_field fm OriginsField raw = Some (VTexts (comma_list (default_to [] raw)))"
| "read_field fm ProxiesField raw =
     (let values = parseTrustedProxies (Some (default_to [] raw)) in kept (isCompilableTrustedProxyList (ef_compile fm) values) (VTexts values))"

type_synonym env_schema = "(string \<times> env_field) list"

type_synonym env_config = "(string \<times> env_value) list"

definition stripEmptyEnvStrings :: "process_env \<Rightarrow> process_env" where
  "stripEmptyEnvStrings env = (\<lambda>k. case env k of Some s \<Rightarrow> if trim s = [] then None else Some s | None \<Rightarrow> None)"

fun read_fields :: "env_formats \<Rightarrow> env_schema \<Rightarrow> process_env \<Rightarrow> env_config option" where
  "read_fields fm [] env = Some []"
| "read_fields fm ((k, f) # fs) env =
     (case (read_field fm f (env k), read_fields fm fs env) of
        (Some v, Some vs) \<Rightarrow> Some ((k, v) # vs)
      | _ \<Rightarrow> None)"

definition int_of_env :: "env_config \<Rightarrow> string \<Rightarrow> int" where
  "int_of_env cfg k = (case map_of cfg k of Some (VInt n) \<Rightarrow> n | _ \<Rightarrow> 0)"

definition text_of_env :: "env_config \<Rightarrow> string \<Rightarrow> string" where
  "text_of_env cfg k = (case map_of cfg k of Some (VText s) \<Rightarrow> s | _ \<Rightarrow> [])"

definition flag_of_env :: "env_config \<Rightarrow> string \<Rightarrow> bool" where
  "flag_of_env cfg k = (case map_of cfg k of Some (VFlag b) \<Rightarrow> b | _ \<Rightarrow> False)"

definition texts_of_env :: "env_config \<Rightarrow> string \<Rightarrow> string list" where
  "texts_of_env cfg k = (case map_of cfg k of Some (VTexts ss) \<Rightarrow> ss | _ \<Rightarrow> [])"

text \<open>An issue is a variable with a message. \<open>zod_issues\<close> words what is wrong with the fields.\<close>

type_synonym env_issue = "string \<times> string"

definition issue_lines :: "env_issue list \<Rightarrow> string" where
  "issue_lines issues = join_with [CHR 0x0A] (map (\<lambda>(p, m). ''  - '' @ p @ '': '' @ m) issues)"

definition parseEnvOrThrow ::
    "env_formats \<Rightarrow> (process_env \<Rightarrow> env_issue list) \<Rightarrow> env_schema \<Rightarrow> (env_config \<Rightarrow> env_issue list) \<Rightarrow> process_env \<Rightarrow> string
     \<Rightarrow> env_config outcome" where
  "parseEnvOrThrow fm zod_issues schema refine env label =
     (let config = stripEmptyEnvStrings env;
          failed = (\<lambda>issues. Inl (Internal (label @ '' validation failed. Fix the following variables:'' @ [CHR 0x0A] @ issue_lines issues)))
      in case read_fields fm schema config of
           None \<Rightarrow> failed (zod_issues config)
         | Some data \<Rightarrow> (case refine data of [] \<Rightarrow> Inr data | issues \<Rightarrow> failed issues))"

section \<open>What the processes share\<close>

definition databaseEnvShape :: "string \<Rightarrow> env_schema" where
  "databaseEnvShape name =
     [(''DATABASE_URL'', RequiredText), (''DATABASE_DIRECT_URL'', OptionalText True 1),
       (''DATABASE_REPLICA_URL'', OptionalText True 1), (''DATABASE_REPLICA_POOL_MAX'', IntField 1 (Some 1000) 10),
       (''DATABASE_POOL_MAX'', IntField 1 (Some 1000) 20), (''DATABASE_POOL_MIN'', IntField 0 (Some 1000) 0),
       (''DATABASE_IDLE_TIMEOUT_MS'', IntField 0 None 10000), (''DATABASE_CONNECTION_TIMEOUT_MS'', IntField 0 None 5000),
       (''DATABASE_STATEMENT_TIMEOUT_MS'', IntField 0 None 30000), (''DATABASE_APPLICATION_NAME'', TextField name),
       (''DB_PASSWORD_FILE'', OptionalText True 1), (''DATABASE_SLOW_QUERY_MS'', IntField 1 None 200),
       (''DATABASE_LOG_QUERIES'', FlagField False)]"

definition redisQueueEnvShape :: "env_schema" where
  "redisQueueEnvShape =
     [(''REDIS_QUEUE_HOST'', TextField ''localhost''), (''REDIS_QUEUE_PORT'', IntField 1 (Some 65535) 6380),
       (''REDIS_QUEUE_PREFIX'', TextField ''bull''), (''REDIS_QUEUE_PASSWORD'', OptionalText False 1)]"

definition storageEnvShape :: "env_schema" where
  "storageEnvShape =
     [(''STORAGE_DRIVER'', EnumField [''s3'', ''local''] ''s3''), (''STORAGE_LOCAL_ROOT'', TextField ''storage''),
       (''STORAGE_LOCAL_SIGNING_SECRET'', OptionalText False 32),
       (''STORAGE_ENDPOINT'', TextField ''http://localhost:9000''), (''STORAGE_PUBLIC_ENDPOINT'', OptionalText False 0),
       (''STORAGE_BUCKET'', TextField ''uploads''), (''STORAGE_REGION'', TextField ''us-east-1''),
       (''STORAGE_FORCE_PATH_STYLE'', EnumField [''true'', ''false''] ''true''),
       (''STORAGE_CHECKSUM_MODE'', EnumField [''WHEN_SUPPORTED'', ''WHEN_REQUIRED''] ''WHEN_SUPPORTED''),
       (''STORAGE_ACCESS_KEY'', TextField ''minioadmin''), (''STORAGE_SECRET_KEY'', TextField ''minioadmin''),
       (''STORAGE_DOWNLOAD_URL_EXPIRES_SECONDS'', IntField 60 (Some 86400) 3600)]"

definition otelEnvShape :: "string \<Rightarrow> env_schema" where
  "otelEnvShape name =
     [(''OTEL_ENABLED'', FlagField False), (''OTEL_SERVICE_NAME'', TextField name),
       (''OTEL_SERVICE_NAMESPACE'', TextField ''app''), (''OTEL_SERVICE_VERSION'', TextField ''0.0.0''),
       (''OTEL_EXPORTER_OTLP_ENDPOINT'', TextField ''http://localhost:4318''),
       (''OTEL_EXPORTER_OTLP_HEADERS'', TextField []), (''OTEL_TRACES_SAMPLER_RATIO'', RatioField ''1''),
       (''OTEL_TRUST_INBOUND_TRACEPARENT'', FlagField False), (''OTEL_METRICS_EXPORT_ENABLED'', FlagField False),
       (''OTEL_DEBUG'', FlagField False)]"

definition nodeEnvShape :: "env_schema" where
  "nodeEnvShape =
     [(''NODE_ENV'', EnumField [''development'', ''production'', ''test''] ''development''),
       (''LOG_LEVEL'', TextField ''info'')]"

definition sentryEnvShape :: "string \<Rightarrow> env_schema" where
  "sentryEnvShape rate =
     [(''SENTRY_DSN'', TextField []), (''SENTRY_TRACES_SAMPLE_RATE'', RatioField rate),
       (''SENTRY_ENVIRONMENT'', TextField ''development'')]"

definition mailEnvShape :: "env_schema" where
  "mailEnvShape =
     [(''MAIL_HOST'', TextField ''localhost''), (''MAIL_PORT'', IntField 1 (Some 65535) 1025),
       (''MAIL_USER'', TextField []), (''MAIL_PASSWORD'', TextField []), (''MAIL_IGNORE_TLS'', FlagField True),
       (''MAIL_SECURE'', FlagField False), (''MAIL_REQUIRE_TLS'', FlagField False),
       (''MAIL_DEFAULT_EMAIL'', EmailField ''noreply@example.com''), (''MAIL_DEFAULT_NAME'', TextField ''No Reply'')]"

definition outboxRelayEnvShape :: "env_schema" where
  "outboxRelayEnvShape =
     [(''OUTBOX_POLL_INTERVAL_MS'', IntField 100 (Some 60000) 1000), (''OUTBOX_BATCH_SIZE'', IntField 1 (Some 1000) 50),
       (''OUTBOX_MAX_ATTEMPTS'', IntField 1 (Some 100) 10), (''OUTBOX_RETRY_BASE_MS'', IntField 100 (Some 600000) 2000),
       (''OUTBOX_RETRY_MAX_MS'', IntField 1000 (Some 3600000) 300000)]"

definition outboxPurgeEnvShape :: "env_schema" where
  "outboxPurgeEnvShape =
     [(''OUTBOX_RETENTION_DAYS'', IntField 1 (Some 365) 7), (''OUTBOX_PURGE_BATCH_SIZE'', IntField 100 (Some 10000) 1000),
       (''OUTBOX_PURGE_MAX_BATCHES'', IntField 1 (Some 10000) 200)]"

text \<open>The rules between fields, each giving its issues. A missing text and an empty one are both falsy.\<close>

definition refineDatabasePoolBounds :: "env_config \<Rightarrow> env_issue list" where
  "refineDatabasePoolBounds data =
     (if int_of_env data ''DATABASE_POOL_MAX'' < int_of_env data ''DATABASE_POOL_MIN''
      then [(''DATABASE_POOL_MIN'', ''DATABASE_POOL_MIN must be less than or equal to DATABASE_POOL_MAX'')] else [])"

definition refineOutboxRetryBounds :: "env_config \<Rightarrow> env_issue list" where
  "refineOutboxRetryBounds data =
     (if int_of_env data ''OUTBOX_RETRY_MAX_MS'' < int_of_env data ''OUTBOX_RETRY_BASE_MS''
      then [(''OUTBOX_RETRY_BASE_MS'', ''OUTBOX_RETRY_BASE_MS must be less than or equal to OUTBOX_RETRY_MAX_MS'')] else [])"

definition refineDatabaseUrlProd :: "env_config \<Rightarrow> env_issue list" where
  "refineDatabaseUrlProd data =
     (let url = text_of_env data ''DATABASE_URL''
      in if starts_with ''postgres://'' url \<or> starts_with ''postgresql://'' url then []
         else [(''DATABASE_URL'', ''DATABASE_URL must use the postgres:// or postgresql:// scheme in production'')])"

definition unless_set :: "env_config \<Rightarrow> string \<Rightarrow> string \<Rightarrow> env_issue list" where
  "unless_set data k message = (if text_of_env data k = [] then [(k, message)] else [])"

definition if_equal :: "env_config \<Rightarrow> string \<Rightarrow> string \<Rightarrow> string \<Rightarrow> env_issue list" where
  "if_equal data k v message = (if text_of_env data k = v then [(k, message)] else [])"

definition refineLocalStorageSigningProd :: "env_config \<Rightarrow> env_issue list" where
  "refineLocalStorageSigningProd data =
     (if text_of_env data ''STORAGE_DRIVER'' \<noteq> ''local'' then []
      else
        unless_set data ''STORAGE_LOCAL_SIGNING_SECRET''
          ''STORAGE_LOCAL_SIGNING_SECRET must be set in production when STORAGE_DRIVER=local'' @
        unless_set data ''STORAGE_PUBLIC_ENDPOINT''
          ''STORAGE_PUBLIC_ENDPOINT must be set in production to the public API origin when STORAGE_DRIVER=local'')"

definition refineStorageProd :: "env_config \<Rightarrow> env_issue list" where
  "refineStorageProd data =
     (if text_of_env data ''STORAGE_DRIVER'' = ''local'' then []
      else
        if_equal data ''STORAGE_ACCESS_KEY'' ''minioadmin'' ''Must not use default value in production'' @
        if_equal data ''STORAGE_SECRET_KEY'' ''minioadmin'' ''Must not use default value in production'')"

definition refineRedisQueuePasswordProd :: "env_config \<Rightarrow> env_issue list" where
  "refineRedisQueuePasswordProd data =
     unless_set data ''REDIS_QUEUE_PASSWORD''
       ''REDIS_QUEUE_PASSWORD must be set in production - an unauthenticated queue exposes every job payload and the DLQ''"

definition refineMailProd :: "env_config \<Rightarrow> env_issue list" where
  "refineMailProd data =
     if_equal data ''MAIL_HOST'' ''localhost'' ''MAIL_HOST must point to a real SMTP server in production'' @
     if_equal data ''MAIL_DEFAULT_EMAIL'' ''noreply@example.com'' ''MAIL_DEFAULT_EMAIL must be set to a real address in production'' @
     (if text_of_env data ''MAIL_USER'' = [] then []
      else
        (if flag_of_env data ''MAIL_IGNORE_TLS''
         then [(''MAIL_IGNORE_TLS'', ''MAIL_IGNORE_TLS must be false in production when MAIL_USER is set - sending SMTP credentials without TLS exposes them in plaintext'')]
         else []) @
        (if \<not> flag_of_env data ''MAIL_SECURE'' \<and> \<not> flag_of_env data ''MAIL_REQUIRE_TLS''
         then [(''MAIL_REQUIRE_TLS'', ''Enable MAIL_SECURE or MAIL_REQUIRE_TLS in production when MAIL_USER is set so SMTP credentials negotiate TLS'')]
         else []))"

definition production :: "env_config \<Rightarrow> bool" where
  "production data \<longleftrightarrow> text_of_env data ''NODE_ENV'' = ''production''"

definition refine_publisher :: "env_config \<Rightarrow> env_issue list" where
  "refine_publisher data =
     (if text_of_env data ''EVENT_PUBLISHER_DRIVER'' \<noteq> ''outbox''
      then [(''EVENT_PUBLISHER_DRIVER'', ''EVENT_PUBLISHER_DRIVER must be \"outbox\" in production for durable, crash-safe event delivery'')]
      else [])"

section \<open>The api\<close>

definition STORED_FILE_SIZE_COLUMN_MAX_BYTES :: int where
  "STORED_FILE_SIZE_COLUMN_MAX_BYTES = 2147483647"

text \<open>The version of the package at this commit.\<close>

definition PACKAGE_VERSION :: string where
  "PACKAGE_VERSION = ''1.2.1''"

definition envSchema :: env_schema where
  "envSchema =
     [(''APP_NAME'', TextField ''nestjs-fastify-nx''), (''APP_VERSION'', TextField PACKAGE_VERSION)] @
     databaseEnvShape ''nestjs-fastify-api'' @
     [(''DB_REPLICATION_LAG_THRESHOLD_MS'', IntField 1000 None 30000), (''REDIS_CACHE_HOST'', TextField ''localhost''),
       (''REDIS_CACHE_PORT'', IntField 1 (Some 65535) 6379), (''REDIS_CACHE_PASSWORD'', OptionalText False 1)] @
     redisQueueEnvShape @
     [(''REDIS_PUBSUB_DB'', IntField 0 (Some 15) 2), (''BETTER_AUTH_SECRET'', OptionalText True 32),
       (''BETTER_AUTH_URL'', OptionalUrl), (''FRONTEND_BASE_URL'', OptionalUrl),
       (''GOOGLE_CLIENT_ID'', OptionalText False 0), (''GOOGLE_CLIENT_SECRET'', OptionalText False 0),
       (''GITHUB_CLIENT_ID'', OptionalText False 0), (''GITHUB_CLIENT_SECRET'', OptionalText False 0),
       (''FACEBOOK_CLIENT_ID'', OptionalText False 0), (''FACEBOOK_CLIENT_SECRET'', OptionalText False 0)] @
     storageEnvShape @
     [(''UPLOAD_PRESIGN_EXPIRES_SECONDS'', IntField 60 (Some 3600) 300), (''MALWARE_SCANNER_ENABLED'', EnumFlag),
       (''UPLOAD_MAX_FILES'', IntField 1 (Some 100) 10),
       (''UPLOAD_MAX_TOTAL_BYTES'', IntField 1024 (Some 9007199254740991) 1073741824),
       (''UPLOAD_MAX_CONCURRENT_REQUESTS'', IntField 1 (Some 1000) 4),
       (''UPLOAD_REQUEST_TIMEOUT_MS'', IntField 1000 (Some 3600000) 900000), (''THROTTLER_ENABLED'', FlagField True),
       (''THROTTLER_LIMIT'', IntField 1 None 100), (''THROTTLER_TTL'', IntField 1 None 60)] @
     mailEnvShape @
     nodeEnvShape @
     [(''PORT'', IntField 1 (Some 65535) 3000), (''HOST'', TextField ''0.0.0.0''), (''ERROR_DOCS_BASE_URL'', OptionalUrl),
       (''HTTP_MAX_EVENT_LOOP_DELAY_MS'', IntField 10 (Some 60000) 1000), (''CORS_ORIGINS'', OriginsField),
       (''TRUST_PROXY_CIDRS'', ProxiesField), (''WS_CONNECTION_LIMIT_PER_IP'', IntField 1 None 50),
       (''WS_SESSION_REVALIDATE_MS'', IntField 5000 (Some 300000) 60000),
       (''WS_SESSION_REVALIDATE_CONCURRENCY'', IntField 1 (Some 1000) 20),
       (''WS_MESSAGE_RATE_LIMIT_MAX'', IntField 1 (Some 100000) 60),
       (''WS_MESSAGE_RATE_LIMIT_WINDOW_MS'', IntField 1000 (Some 600000) 10000), (''THROTTLER_FAIL_OPEN'', FlagField True),
       (''ENABLE_METRICS'', FlagField False), (''METRICS_ALLOW_CIDRS'', TextField [])] @
     otelEnvShape ''nestjs-fastify-api'' @
     [(''TRUST_INBOUND_REQUEST_ID'', FlagField False),
       (''EVENT_PUBLISHER_DRIVER'', EnumField [''inprocess'', ''outbox''] ''inprocess'')] @
     outboxRelayEnvShape @
     outboxPurgeEnvShape @
     [(''AUDIT_LOG_RETENTION_MONTHS'', IntField 1 (Some 120) 12), (''AUTH_RATE_LIMIT_MAX'', IntField 1 None 5),
       (''AUTH_IP_RATE_LIMIT_MAX'', IntField 1 None 50), (''AUTH_RATE_LIMIT_WINDOW_MS'', IntField 1000 None 900000),
       (''AUTH_SESSION_RATE_LIMIT_MAX'', IntField 1 None 60),
       (''AUTH_SESSION_RATE_LIMIT_WINDOW_MS'', IntField 1000 None 60000), (''AUTH_RATE_LIMIT_FAIL_OPEN'', FlagField False),
       (''HTTP_BODY_LIMIT_BYTES'', IntField 1024 None 1048576),
       (''UPLOAD_MAX_FILE_BYTES'', IntField 1024 (Some STORED_FILE_SIZE_COLUMN_MAX_BYTES) 10485760),
       (''HTTP_REQUEST_TIMEOUT_MS'', IntField 0 None 30000), (''IDEMPOTENCY_ENABLED'', FlagField True),
       (''IDEMPOTENCY_TTL_SECONDS'', IntField 1 None 86400), (''IDEMPOTENCY_LOCK_TTL_SECONDS'', IntField 1 None 60),
       (''BULL_BOARD_ENABLED'', FlagField True), (''BULL_BOARD_USER'', TextField ''admin''),
       (''BULL_BOARD_PASSWORD'', TextField ''admin''), (''WORKER_EMAIL_CONCURRENCY'', IntField 1 (Some 500) 5),
       (''WORKER_UPLOAD_CONCURRENCY'', IntField 1 (Some 500) 5)] @
     sentryEnvShape ''0.01''"

definition refine_lock :: "env_config \<Rightarrow> env_issue list" where
  "refine_lock data =
     (if flag_of_env data ''IDEMPOTENCY_ENABLED'' \<and> 0 < int_of_env data ''HTTP_REQUEST_TIMEOUT_MS'' \<and>
         int_of_env data ''IDEMPOTENCY_LOCK_TTL_SECONDS'' * 1000 \<le> int_of_env data ''HTTP_REQUEST_TIMEOUT_MS''
      then [(''IDEMPOTENCY_LOCK_TTL_SECONDS'', ''IDEMPOTENCY_LOCK_TTL_SECONDS (ms) must be greater than HTTP_REQUEST_TIMEOUT_MS so a timed-out request releases its lock in time'')]
      else [])"

definition refine_api :: "env_config \<Rightarrow> env_issue list" where
  "refine_api data =
     refineOutboxRetryBounds data @ refineDatabasePoolBounds data @ refine_lock data @
     (if \<not> production data then []
      else
        refineStorageProd data @ refineLocalStorageSigningProd data @ refineRedisQueuePasswordProd data @
        refineDatabaseUrlProd data @ refineMailProd data @
        if_equal data ''BULL_BOARD_PASSWORD'' ''admin'' ''Must not use default password in production'' @
        unless_set data ''BETTER_AUTH_SECRET'' ''BETTER_AUTH_SECRET must be set in production for stable session signing'' @
        unless_set data ''REDIS_CACHE_PASSWORD''
          ''REDIS_CACHE_PASSWORD must be set in production - the cache holds session rate-limit and idempotency keys'' @
        unless_set data ''BETTER_AUTH_URL'' ''BETTER_AUTH_URL must be set in production to a stable public API origin'' @
        unless_set data ''FRONTEND_BASE_URL'' ''FRONTEND_BASE_URL must be set in production for email action links'' @
        refine_publisher data @
        (if texts_of_env data ''CORS_ORIGINS'' = []
         then [(''CORS_ORIGINS'', ''CORS_ORIGINS must list at least one allowed origin in production'')] else []))"

definition validateConfig :: "env_formats \<Rightarrow> (process_env \<Rightarrow> env_issue list) \<Rightarrow> process_env \<Rightarrow> env_config outcome" where
  "validateConfig fm zod_issues config = parseEnvOrThrow fm zod_issues envSchema refine_api config ''Environment''"

section \<open>The worker and the scheduler\<close>

definition workerEnvSchema :: env_schema where
  "workerEnvSchema =
     databaseEnvShape ''nestjs-fastify-worker'' @
     redisQueueEnvShape @
     storageEnvShape @
     [(''MALWARE_SCANNER_ENABLED'', EnumFlag), (''MALWARE_SCANNER_HOST'', TextField ''localhost''),
       (''MALWARE_SCANNER_PORT'', IntField 1 (Some 65535) 3310),
       (''MALWARE_SCANNER_TIMEOUT_MS'', IntField 1000 (Some 120000) 30000),
       (''MALWARE_SCANNER_MAX_BYTES'', IntField 1 (Some 2147483648) 2147483648)] @
     mailEnvShape @
     [(''WORKER_EMAIL_CONCURRENCY'', IntField 1 (Some 500) 5), (''WORKER_UPLOAD_CONCURRENCY'', IntField 1 (Some 500) 5),
       (''WORKER_EMAIL_LIMITER_MAX'', IntField 1 (Some 100000) 100),
       (''WORKER_EMAIL_LIMITER_DURATION_MS'', IntField 1000 (Some 3600000) 60000)] @
     nodeEnvShape @
     otelEnvShape ''nestjs-fastify-worker'' @
     outboxPurgeEnvShape @
     sentryEnvShape ''0.1''"

definition refine_worker :: "env_config \<Rightarrow> env_issue list" where
  "refine_worker data =
     refineDatabasePoolBounds data @
     (if \<not> production data then []
      else refineRedisQueuePasswordProd data @ refineStorageProd data @ refineDatabaseUrlProd data @ refineMailProd data)"

definition validateWorkerConfig :: "env_formats \<Rightarrow> (process_env \<Rightarrow> env_issue list) \<Rightarrow> process_env \<Rightarrow> env_config outcome" where
  "validateWorkerConfig fm zod_issues config = parseEnvOrThrow fm zod_issues workerEnvSchema refine_worker config ''Worker environment''"

definition schedulerEnvSchema :: env_schema where
  "schedulerEnvSchema =
     databaseEnvShape ''nestjs-fastify-scheduler'' @
     redisQueueEnvShape @
     storageEnvShape @
     nodeEnvShape @
     otelEnvShape ''nestjs-fastify-scheduler'' @
     [(''AUDIT_LOG_RETENTION_MONTHS'', IntField 1 (Some 120) 12), (''DLQ_ALERT_THRESHOLD'', IntField 1 (Some 100000) 10),
       (''INACTIVE_USER_RETENTION_DAYS'', IntField 1 (Some 3650) 90),
       (''USER_PURGE_BATCH_SIZE'', IntField 10 (Some 10000) 500),
       (''USER_PURGE_MAX_BATCHES'', IntField 1 (Some 10000) 200),
       (''STORED_FILE_CLEANUP_BATCH_SIZE'', IntField 10 (Some 10000) 500),
       (''STORED_FILE_FINALIZING_STALE_MINUTES'', IntField 5 (Some 1440) 60),
       (''STORED_FILE_VERIFYING_STALE_HOURS'', IntField 1 (Some 168) 24),
       (''STORED_FILE_REJECTED_RETAIN_HOURS'', IntField 1 (Some 8760) 72),
       (''STORED_FILE_ORPHAN_GRACE_MINUTES'', IntField 5 (Some 1440) 60),
       (''STORED_FILE_PURGE_AFTER_DAYS'', IntField 1 (Some 3650) 30),
       (''STORED_FILE_PURGE_MAX_BATCHES'', IntField 1 (Some 10000) 200)] @
     outboxRelayEnvShape @
     [(''OUTBOX_TX_TIMEOUT_MS'', IntField 1000 (Some 300000) 30000)] @
     outboxPurgeEnvShape @
     [(''OUTBOX_PARKED_RETENTION_DAYS'', IntField 1 (Some 90) 30),
       (''VERIFICATION_PURGE_GRACE_DAYS'', IntField 1 (Some 365) 1),
       (''VERIFICATION_PURGE_BATCH_SIZE'', IntField 100 (Some 10000) 1000),
       (''VERIFICATION_PURGE_MAX_BATCHES'', IntField 1 (Some 10000) 200),
       (''SESSION_PURGE_GRACE_DAYS'', IntField 1 (Some 365) 1),
       (''SESSION_PURGE_BATCH_SIZE'', IntField 100 (Some 10000) 1000),
       (''SESSION_PURGE_MAX_BATCHES'', IntField 1 (Some 10000) 200),
       (''STORAGE_ORPHAN_EXPIRY_DAYS'', IntField 1 (Some 365) 1),
       (''EVENT_PUBLISHER_DRIVER'', EnumField [''inprocess'', ''outbox''] ''inprocess'')] @
     sentryEnvShape ''0.01''"

definition refine_scheduler :: "env_config \<Rightarrow> env_issue list" where
  "refine_scheduler data =
     refineDatabasePoolBounds data @ refineOutboxRetryBounds data @
     (if int_of_env data ''OUTBOX_PARKED_RETENTION_DAYS'' < int_of_env data ''OUTBOX_RETENTION_DAYS''
      then [(''OUTBOX_PARKED_RETENTION_DAYS'', ''OUTBOX_PARKED_RETENTION_DAYS must be greater than or equal to OUTBOX_RETENTION_DAYS'')]
      else []) @
     (if \<not> production data then []
      else refineStorageProd data @ refineRedisQueuePasswordProd data @ refineDatabaseUrlProd data @ refine_publisher data)"

definition validateSchedulerConfig :: "env_formats \<Rightarrow> (process_env \<Rightarrow> env_issue list) \<Rightarrow> process_env \<Rightarrow> env_config outcome" where
  "validateSchedulerConfig fm zod_issues config =
     parseEnvOrThrow fm zod_issues schedulerEnvSchema refine_scheduler config ''Scheduler environment''"

section \<open>What a validated configuration promises\<close>

lemma kept_Some [simp]: "kept b v = Some w \<longleftrightarrow> b \<and> w = v"
  by (auto simp: kept_def)

lemma parsed:
  assumes "parseEnvOrThrow fm zod_issues schema refine env label = Inr cfg"
  shows "read_fields fm schema (stripEmptyEnvStrings env) = Some cfg" "refine cfg = []"
  using assms by (auto simp: parseEnvOrThrow_def Let_def split: option.splits list.splits)

lemma read_fields_value:
  assumes "read_fields fm schema env = Some cfg" "map_of schema k = Some f"
  shows "\<exists>v. map_of cfg k = Some v \<and> read_field fm f (env k) = Some v"
  using assms by (induction schema arbitrary: cfg) (auto split: option.splits if_splits)

text \<open>A field of whole numbers has the number its text stands for, within its bounds, or its default.\<close>

lemma int_field_value:
  assumes "read_fields fm schema env = Some cfg" "map_of schema k = Some (IntField lo hi d)"
  shows "int_of_env cfg k = (case env k of None \<Rightarrow> d | Some s \<Rightarrow> the (Number_integer s))"
    and "map_of cfg k = Some (VInt (int_of_env cfg k))"
    and "\<And>s. env k = Some s \<Longrightarrow> Number_integer s = Some (int_of_env cfg k) \<and> within lo hi (int_of_env cfg k)"
  using read_fields_value [OF assms] by (auto simp: int_of_env_def split: option.splits)

definition default_within :: "env_field \<Rightarrow> bool" where
  "default_within f \<longleftrightarrow> (case f of IntField lo hi d \<Rightarrow> within lo hi d | _ \<Rightarrow> True)"

lemma int_fields_within:
  assumes "read_fields fm schema env = Some cfg" "list_all default_within (map snd schema)" "map_of schema k = Some (IntField lo hi d)"
  shows "map_of cfg k = Some (VInt (int_of_env cfg k)) \<and> within lo hi (int_of_env cfg k)"
proof -
  have "within lo hi d" using assms(2) map_of_SomeD [OF assms(3)] by (force simp: list_all_iff default_within_def)
  then show ?thesis using int_field_value [OF assms(1,3)] by (cases "env k") auto
qed

lemma optional_text_length:
  assumes "read_fields fm schema env = Some cfg" "map_of schema k = Some (OptionalText t n)" "text_of_env cfg k \<noteq> []"
  shows "n \<le> length (text_of_env cfg k)"
  using read_fields_value [OF assms(1,2)] assms(3) by (auto simp: text_of_env_def Let_def split: option.splits)

lemma unless_set_Nil [simp]: "unless_set data k m = [] \<longleftrightarrow> text_of_env data k \<noteq> []"
  by (simp add: unless_set_def)

lemma if_equal_Nil [simp]: "if_equal data k v m = [] \<longleftrightarrow> text_of_env data k \<noteq> v"
  by (simp add: if_equal_def)

lemmas refinements = refineOutboxRetryBounds_def refineDatabasePoolBounds_def refine_lock_def refineStorageProd_def
  refineLocalStorageSigningProd_def refineRedisQueuePasswordProd_def refineDatabaseUrlProd_def refineMailProd_def refine_publisher_def

lemma schema_defaults: "list_all default_within (map snd envSchema)"
  by code_simp

lemma secret_field: "map_of envSchema ''BETTER_AUTH_SECRET'' = Some (OptionalText True 32)"
  by code_simp

lemma signing_field: "map_of envSchema ''STORAGE_LOCAL_SIGNING_SECRET'' = Some (OptionalText False 32)"
  by code_simp

definition api_rules :: "env_config \<Rightarrow> bool" where
  "api_rules cfg \<longleftrightarrow>
     int_of_env cfg ''OUTBOX_RETRY_BASE_MS'' \<le> int_of_env cfg ''OUTBOX_RETRY_MAX_MS'' \<and>
     int_of_env cfg ''DATABASE_POOL_MIN'' \<le> int_of_env cfg ''DATABASE_POOL_MAX'' \<and>
     (flag_of_env cfg ''IDEMPOTENCY_ENABLED'' \<and> 0 < int_of_env cfg ''HTTP_REQUEST_TIMEOUT_MS'' \<longrightarrow>
        int_of_env cfg ''HTTP_REQUEST_TIMEOUT_MS'' < int_of_env cfg ''IDEMPOTENCY_LOCK_TTL_SECONDS'' * 1000)"

definition production_rules :: "env_config \<Rightarrow> bool" where
  "production_rules cfg \<longleftrightarrow>
     32 \<le> length (text_of_env cfg ''BETTER_AUTH_SECRET'') \<and> text_of_env cfg ''EVENT_PUBLISHER_DRIVER'' = ''outbox'' \<and>
     texts_of_env cfg ''CORS_ORIGINS'' \<noteq> [] \<and> text_of_env cfg ''BULL_BOARD_PASSWORD'' \<noteq> ''admin'' \<and>
     text_of_env cfg ''REDIS_QUEUE_PASSWORD'' \<noteq> [] \<and> text_of_env cfg ''REDIS_CACHE_PASSWORD'' \<noteq> [] \<and>
     (if text_of_env cfg ''STORAGE_DRIVER'' = ''local'' then 32 \<le> length (text_of_env cfg ''STORAGE_LOCAL_SIGNING_SECRET'')
      else text_of_env cfg ''STORAGE_ACCESS_KEY'' \<noteq> ''minioadmin'' \<and> text_of_env cfg ''STORAGE_SECRET_KEY'' \<noteq> ''minioadmin'') \<and>
     (text_of_env cfg ''MAIL_USER'' = [] \<or>
        \<not> flag_of_env cfg ''MAIL_IGNORE_TLS'' \<and> (flag_of_env cfg ''MAIL_SECURE'' \<or> flag_of_env cfg ''MAIL_REQUIRE_TLS''))"

text \<open>The api never starts on a configuration that breaks a rule: every field of whole numbers lies within its bounds,
  the retry and pool bounds are ordered, a request times out before its idempotency lock expires, and in production the
  secrets are set and long enough, events go through the outbox, no default password is left and mail credentials travel over TLS.\<close>

lemma production_issues:
  assumes "refine_api cfg = []" "production cfg"
  shows "refineStorageProd cfg = []" "refineLocalStorageSigningProd cfg = []" "refineRedisQueuePasswordProd cfg = []"
    "refineMailProd cfg = []" "refine_publisher cfg = []" "text_of_env cfg ''BULL_BOARD_PASSWORD'' \<noteq> ''admin''"
    "text_of_env cfg ''BETTER_AUTH_SECRET'' \<noteq> []" "text_of_env cfg ''REDIS_CACHE_PASSWORD'' \<noteq> []" "texts_of_env cfg ''CORS_ORIGINS'' \<noteq> []"
  using assms by (simp_all add: refine_api_def split: if_split_asm)

lemma api_configuration_sound:
  assumes "validateConfig fm zod_issues env = Inr cfg"
  shows "map_of envSchema k = Some (IntField lo hi d) \<Longrightarrow> map_of cfg k = Some (VInt (int_of_env cfg k)) \<and> within lo hi (int_of_env cfg k)"
    and "api_rules cfg" and "production cfg \<Longrightarrow> production_rules cfg"
proof -
  note ok = parsed [OF assms [unfolded validateConfig_def]]
  show "map_of envSchema k = Some (IntField lo hi d) \<Longrightarrow> map_of cfg k = Some (VInt (int_of_env cfg k)) \<and> within lo hi (int_of_env cfg k)"
    by (rule int_fields_within [OF ok(1) schema_defaults])
  have "refineOutboxRetryBounds cfg = []" "refineDatabasePoolBounds cfg = []" "refine_lock cfg = []"
    using ok(2) by (simp_all add: refine_api_def)
  then show "api_rules cfg" by (auto simp: api_rules_def refinements split: if_split_asm)
  assume "production cfg"
  note no_issues = production_issues [OF ok(2) this]
  have "32 \<le> length (text_of_env cfg ''BETTER_AUTH_SECRET'')"
    by (rule optional_text_length [OF ok(1) secret_field no_issues(7)])
  moreover have "32 \<le> length (text_of_env cfg ''STORAGE_LOCAL_SIGNING_SECRET'')" if "text_of_env cfg ''STORAGE_DRIVER'' = ''local''"
    using no_issues(2) that by (intro optional_text_length [OF ok(1) signing_field]) (simp add: refineLocalStorageSigningProd_def)
  moreover have "text_of_env cfg ''STORAGE_ACCESS_KEY'' \<noteq> ''minioadmin'' \<and> text_of_env cfg ''STORAGE_SECRET_KEY'' \<noteq> ''minioadmin''"
    if "text_of_env cfg ''STORAGE_DRIVER'' \<noteq> ''local''"
    using no_issues(1) that by (simp add: refineStorageProd_def)
  moreover have "text_of_env cfg ''MAIL_USER'' = [] \<or>
      \<not> flag_of_env cfg ''MAIL_IGNORE_TLS'' \<and> (flag_of_env cfg ''MAIL_SECURE'' \<or> flag_of_env cfg ''MAIL_REQUIRE_TLS'')"
    using no_issues(4) by (auto simp: refineMailProd_def split: if_split_asm)
  moreover have "text_of_env cfg ''REDIS_QUEUE_PASSWORD'' \<noteq> []" "text_of_env cfg ''EVENT_PUBLISHER_DRIVER'' = ''outbox''"
    using no_issues(3,5) by (auto simp: refineRedisQueuePasswordProd_def refine_publisher_def split: if_split_asm)
  ultimately show "production_rules cfg" using no_issues(6,8,9) unfolding production_rules_def by argo
qed

section \<open>The validated settings and what the tasks read\<close>

lemma plain_number:
  assumes "list_all is_digit s" "s \<noteq> []"
  shows "decimal_literal s = Some (int (read_decimal s))" "plain_integer s = Some (int (read_decimal s))"
proof -
  have "takeWhile is_digit s = s" "dropWhile is_digit s = []" using assms(1) by (simp_all add: list_all_iff)
  note all = this
  show "decimal_literal s = Some (int (read_decimal s))"
    unfolding decimal_literal_def all by (simp add: assms(2) exponent_value_def decimal_scaled_def Let_def)
  have "hd s \<noteq> CHR ''-''" using assms by (cases s) (auto simp: is_digit_def)
  then show "plain_integer s = Some (int (read_decimal s))"
    using assms by (cases s) (auto simp: plain_integer_def Let_def)
qed

definition written_plainly :: "process_env \<Rightarrow> string \<Rightarrow> bool" where
  "written_plainly env k \<longleftrightarrow> (case env k of None \<Rightarrow> True | Some raw \<Rightarrow> list_all is_digit (trim raw))"

lemma Number_plain:
  assumes "list_all is_digit (trim raw)" "trim raw \<noteq> []"
  shows "Number_integer raw = (if is_safe_integer (int (read_decimal (trim raw))) then Some (int (read_decimal (trim raw))) else None)"
proof -
  obtain c cs where s: "trim raw = c # cs" using assms(2) by (cases "trim raw") auto
  have "c \<noteq> CHR ''-''" "c \<noteq> CHR ''+''" using assms(1) by (auto simp: s is_digit_def)
  moreover have "d \<noteq> CHR ''x'' \<and> d \<noteq> CHR ''X'' \<and> d \<noteq> CHR ''o'' \<and> d \<noteq> CHR ''O'' \<and> d \<noteq> CHR ''b'' \<and> d \<noteq> CHR ''B''"
    if "cs = d # r" for d r
    using assms(1) that by (auto simp: s is_digit_def)
  ultimately have "Number_integer raw =
      (case decimal_literal (trim raw) of None \<Rightarrow> None | Some n \<Rightarrow> if \<bar>n\<bar> \<le> 9007199254740991 then Some n else None)"
    unfolding Number_integer_def s by (simp add: Let_def split: list.split)
  then show ?thesis using plain_number(1) [OF assms] by (simp add: is_safe_integer_def)
qed

text \<open>A task reads a validated setting as it was validated if it is written in digits; every other number runs as the default.\<close>

lemma task_reads:
  assumes "read_fields fm schema (stripEmptyEnvStrings env) = Some cfg" "map_of schema k = Some (IntField lo hi d)" "1 \<le> lo" "1 \<le> d"
  shows "positiveIntEnv env k d = (if written_plainly env k then int_of_env cfg k else d)"
proof (cases "stripEmptyEnvStrings env k")
  case None
  then have "env k = None \<or> (\<exists>raw. env k = Some raw \<and> trim raw = [])"
    by (auto simp: stripEmptyEnvStrings_def split: option.splits if_split_asm)
  moreover have "int_of_env cfg k = d" using int_field_value(1) [OF assms(1,2)] None by simp
  ultimately show ?thesis using assms(4) by (auto simp: positiveIntEnv_def intEnv_def)
next
  case (Some raw)
  then have raw: "env k = Some raw" "trim raw \<noteq> []"
    by (auto simp: stripEmptyEnvStrings_def split: option.splits if_split_asm)
  have n: "Number_integer raw = Some (int_of_env cfg k)" "1 \<le> int_of_env cfg k"
    using int_field_value(3) [OF assms(1,2) Some] assms(3) by (auto simp: within_def)
  show ?thesis
  proof (cases "list_all is_digit (trim raw)")
    case True
    then have "is_safe_integer (int_of_env cfg k) \<and> plain_integer (trim raw) = Some (int_of_env cfg k)"
      using Number_plain [OF True raw(2)] plain_number(2) [OF True raw(2)] n(1) by (auto split: if_split_asm)
    then show ?thesis using True raw n(2) by (simp add: positiveIntEnv_def intEnv_def written_plainly_def)
  next
    case False
    then have "plain_integer (trim raw) = None \<or> (\<exists>m. plain_integer (trim raw) = Some m \<and> m \<le> 0)"
      by (cases "trim raw") (auto simp: plain_integer_def Let_def)
    then show ?thesis
      using False raw assms(4) by (auto simp: positiveIntEnv_def intEnv_def written_plainly_def Let_def)
  qed
qed

lemma task_fields:
  "map_of schedulerEnvSchema ''STORED_FILE_CLEANUP_BATCH_SIZE'' = Some (IntField 10 (Some 10000) 500)"
  "map_of schedulerEnvSchema ''STORED_FILE_FINALIZING_STALE_MINUTES'' = Some (IntField 5 (Some 1440) 60)"
  "map_of schedulerEnvSchema ''STORED_FILE_VERIFYING_STALE_HOURS'' = Some (IntField 1 (Some 168) 24)"
  "map_of schedulerEnvSchema ''STORED_FILE_REJECTED_RETAIN_HOURS'' = Some (IntField 1 (Some 8760) 72)"
  "map_of schedulerEnvSchema ''STORED_FILE_ORPHAN_GRACE_MINUTES'' = Some (IntField 5 (Some 1440) 60)"
  "map_of schedulerEnvSchema ''STORED_FILE_PURGE_AFTER_DAYS'' = Some (IntField 1 (Some 3650) 30)"
  "map_of schedulerEnvSchema ''STORED_FILE_PURGE_MAX_BATCHES'' = Some (IntField 1 (Some 10000) 200)"
  "map_of envSchema ''UPLOAD_MAX_FILE_BYTES'' = Some (IntField 1024 (Some 2147483647) 10485760)"
  "map_of envSchema ''UPLOAD_MAX_FILES'' = Some (IntField 1 (Some 100) 10)"
  "map_of envSchema ''UPLOAD_MAX_TOTAL_BYTES'' = Some (IntField 1024 (Some 9007199254740991) 1073741824)"
  "map_of envSchema ''UPLOAD_MAX_CONCURRENT_REQUESTS'' = Some (IntField 1 (Some 1000) 4)"
  by code_simp+

text \<open>C40. Between the validation of the settings and the code that uses them nothing is lost, with one exception that is
  stated exactly. The retention task and the multipart reader do not take their numbers from the validated configuration but read the
  environment again; when the api and the scheduler accepted the environment, each of these numbers is the validated one if it is absent,
  blank or written in digits, and the built-in default, which is the same as that of the schema, if it is written in any other way the
  validation accepts (as 0x10, 1e3 or 60.0).\<close>

theorem validated_settings_reach_the_code:
  assumes "validateSchedulerConfig fm zod_issues env = Inr scheduler" "validateConfig fm zod_issues env = Inr api"
  defines "used \<equiv> (\<lambda>cfg k d. if written_plainly env k then int_of_env cfg k else d)"
  shows "read_retention_config env =
           \<lparr> rc_batchSize = nat (used scheduler ''STORED_FILE_CLEANUP_BATCH_SIZE'' 500),
             rc_finalizingStaleMinutes = used scheduler ''STORED_FILE_FINALIZING_STALE_MINUTES'' 60,
             rc_verifyingStaleHours = used scheduler ''STORED_FILE_VERIFYING_STALE_HOURS'' 24,
             rc_rejectedRetainHours = used scheduler ''STORED_FILE_REJECTED_RETAIN_HOURS'' 72,
             rc_orphanGraceMinutes = used scheduler ''STORED_FILE_ORPHAN_GRACE_MINUTES'' 60,
             rc_purgeAfterDays = used scheduler ''STORED_FILE_PURGE_AFTER_DAYS'' 30,
             rc_purgeMaxBatches = nat (used scheduler ''STORED_FILE_PURGE_MAX_BATCHES'' 200) \<rparr>
       \<and> read_multipart_limits env =
           \<lparr> ml_maxFileBytes = used api ''UPLOAD_MAX_FILE_BYTES'' 10485760, ml_maxFiles = used api ''UPLOAD_MAX_FILES'' 10,
             ml_maxTotalBytes = used api ''UPLOAD_MAX_TOTAL_BYTES'' 1073741824,
             ml_maxConcurrent = used api ''UPLOAD_MAX_CONCURRENT_REQUESTS'' 4 \<rparr>"
proof -
  note sched = task_reads [OF parsed(1) [OF assms(1) [unfolded validateSchedulerConfig_def]]]
  note api = task_reads [OF parsed(1) [OF assms(2) [unfolded validateConfig_def]]]
  show ?thesis
    unfolding read_retention_config_def read_multipart_limits_def used_def
    by (simp add: sched [OF task_fields(1)] sched [OF task_fields(2)] sched [OF task_fields(3)] sched [OF task_fields(4)]
        sched [OF task_fields(5)] sched [OF task_fields(6)] sched [OF task_fields(7)] api [OF task_fields(8)] api [OF task_fields(9)]
        api [OF task_fields(10)] api [OF task_fields(11)] readUploadLimits_def UPLOAD_DEFAULT_MAX_FILE_BYTES_def)
qed

definition example_formats :: env_formats where
  "example_formats = \<lparr> ef_email = (\<lambda>_. True), ef_url = (\<lambda>_. True), ef_ratio = (\<lambda>_. True), ef_compile = (\<lambda>_. True) \<rparr>"

definition example_settings :: process_env where
  "example_settings =
     map_of [(''DATABASE_URL'', ''postgres://db''), (''STORED_FILE_PURGE_AFTER_DAYS'', ''0x10''), (''UPLOAD_MAX_FILES'', '' 12 '')]"

lemma example_validated:
  "case validateSchedulerConfig example_formats (\<lambda>_. []) example_settings of
     Inl e \<Rightarrow> False | Inr cfg \<Rightarrow> int_of_env cfg ''STORED_FILE_PURGE_AFTER_DAYS'' = 16"
  "case validateConfig example_formats (\<lambda>_. []) example_settings of Inl e \<Rightarrow> False | Inr cfg \<Rightarrow> int_of_env cfg ''UPLOAD_MAX_FILES'' = 12"
  "\<not> written_plainly example_settings ''STORED_FILE_PURGE_AFTER_DAYS''" "written_plainly example_settings ''UPLOAD_MAX_FILES''"
  by code_simp+

text \<open>A retention of 0x10 days is accepted as 16 and run as 30.\<close>

theorem validated_settings_reach_the_code_witness:
  "\<exists>cfg. validateSchedulerConfig example_formats (\<lambda>_. []) example_settings = Inr cfg \<and>
     int_of_env cfg ''STORED_FILE_PURGE_AFTER_DAYS'' = 16 \<and> rc_purgeAfterDays (read_retention_config example_settings) = 30 \<and>
     ml_maxFiles (read_multipart_limits example_settings) = 12"
proof -
  obtain cfg api where c: "validateSchedulerConfig example_formats (\<lambda>_. []) example_settings = Inr cfg"
      "validateConfig example_formats (\<lambda>_. []) example_settings = Inr api"
      "int_of_env cfg ''STORED_FILE_PURGE_AFTER_DAYS'' = 16" "int_of_env api ''UPLOAD_MAX_FILES'' = 12"
    using example_validated(1,2) by (auto split: sum.splits)
  show ?thesis using validated_settings_reach_the_code [OF c(1,2)] c(1,3,4) example_validated(3,4) by simp
qed

end
