(* ===== verification/Spec2Isabelle.thy ===== *)
theory Spec2Isabelle
  imports Http_Guards Problem_Details Feature_Flags Organization_Roles Outbox Leader_Lease Multipart
    Upload_Properties Idempotency Event_Delivery Mail_Delivery Terms Workspaces File_Retention Accounts
    Rate_Limits Gateway Request_Timeout Malware_Scan Housekeeping Staging_Expiry Auth_Mail Boundary Env_Config
begin

text \<open>
  The program. nestjs-fastify-nx is a multi-tenant backend in TypeScript. An api (apps/api, NestJS on Fastify) answers REST,
  GraphQL and web sockets; a worker (apps/worker) consumes queues; a scheduler (apps/scheduler) runs the outbox relay and the
  periodic tasks on the one replica that holds a lease. The modules of libs/modules keep their data in Postgres through Prisma,
  libs/infra holds the shared machinery (authentication, authorization, storage, messaging, Redis), libs/core, libs/contracts
  and libs/shared the vocabulary. A request passes the global guards, a handler of a module reads and writes its tables, stores
  domain events in the outbox with the same transaction and answers; the relay publishes the events to the listeners of
  the modules; failures leave through one exception filter.

  Reading order, with what each theory models.

    Prelude, Json_Text, Iso_Date, Effects: the JavaScript operations the sources use (strings, Map, Set, JSON.stringify and
      JSON.parse, toISOString) with round trips, and handlers as actions on a state with triples for their proofs.
    Errors, Error_Catalog, Problem_Details: DomainException (libs/core, libs/contracts), the catalog of codes, and how the
      exception filter and the onSend hook of apps/api/src/common/filters answer a failure.
    Permissions, Access_Policy, Authorization, Http_Guards: the permission catalog (libs/shared), decideAccess and its filters,
      the Postgres and the in-memory engine (libs/infra/authorization) and the global guards (libs/infra/auth). The locale
      authorization_engine is the port; both engines interpret it.
    Cursor: cursor and offset pagination (libs/shared, libs/contracts).
    Api_Keys, Feature_Flags, Organization_Roles, Workspaces, Terms, Accounts: the modules api-keys, feature-flags,
      organizations, terms, users and sessions of libs/modules: entity, Prisma repository, in-memory repository, handlers. The
      repository ports are the locales api_key_repository, role_repository and session_repository; the repositories interpret them.
    File_Signature, Storage, Local_Storage, S3_Storage, Stored_Files, Uploads, Upload_Guarantee, Upload_Safety, Upload_Properties, Multipart,
      Malware_Scan, File_Retention, Staging_Expiry: the upload pipeline. Storage states the port as the locale storage_provider,
      which the file-system adapter (Local_Storage) and the S3 adapter (S3_Storage) interpret. Upload_Safety proves the guarantee of
      every handler from the laws of the port alone; Upload_Properties applies it to both adapters. File_Retention and
      Staging_Expiry are the scheduler's side of it.
    Outbox, Leader_Lease, Domain_Events, Keyed_Table, Notifications, Audit_Log, Mail_Delivery, Event_Delivery, Housekeeping:
      the outbox and its relay (libs/infra/messaging), the lease (libs/infra/redis), the payloads and their consumers, mail with
      its queue and dead letters, their composition, and the other scheduled tasks. The locale of Keyed_Table is the contract of a consumer
      that is delivered an event more than once.
    Idempotency, Rate_Limits, Request_Timeout, Sockets, Gateway, Boundary: what apps/api wraps around the handlers: replay of
      responses, limits, the time limit, the web sockets, request ids, the route of Better Auth, the errors of GraphQL and of
      validation. The locale window_counter is what the limits share.
    Env_Config: the schemas of the settings of all three processes and their validators (libs/shared, apps/*/src/config).
    Auth_Mail: what the settings of Better Auth compute and the mails of the sign-in flows (libs/infra/auth).

  How state and concurrency are modelled. A table is the list of its rows, a JavaScript Map an association list, a Redis key a
  value with the time it expires, an object store whatever state the adapter has. A handler is a function on that state that
  gives its outcome, a failure or a value, and the next state. Where a handler awaits, other requests may act: either a
  function of the environment (\<open>between\<close>, \<open>ue_between\<close>, \<open>lc_between\<close>, \<open>re_between\<close>) changes the state arbitrarily, or under a
  guarantee the statement names, or the operations are the steps of an inductive relation and the property holds in every reachable state. A call to
  Postgres, Redis or SMTP may be refused, or take effect and lose its answer, where the source handles that. Clocks are
  arguments. Ghost components (rows ever inserted, events published, executions) are named where they are declared, and no
  operation reads them.

  What the groups of lemmas show. Who may act (C1 to C10): only entitled callers pass, no engine crosses organizations, filters and
  decisions agree, roles and cursors survive their encoding, keys stay within the grant of their issuer and stay revoked. Answers
  (C11, C12): server failures leak nothing, domain errors reach the client. Configuration (C13, C14, C40): rollouts, roles, settings. Events
  (C15 to C18, C28): at-least-once delivery, bounded attempts, one leader, and each consumer's effect exactly once. Files (C19 to C26,
  C32, C37, C38): a READY file was checked, statuses only advance, retention spares files in use, stuck verifications are taken up. Requests (C27, C34 to
  C36): one execution per key, bounded guesses, bounded sockets, one final answer to a sign-in request. Data of the modules (C29 to C31, C33, C39): mail
  sent once and dead-lettered otherwise, final terms, one personal organization, mails without foreign markup.

  Bounds and fuel. The JSON parser takes fuel: json_parse gives it twice the length of the text and two more, and the round trip
  shows this suffices for all printed texts. The walk along cursors takes fuel; the theorem of the complete walk gives the number of
  pages that suffices. Batched purges are bounded by the batch limits of the source, and their termination is C17. The dead-letter
  reconciliation looks at a window of 1000 failed jobs per tick, as the source does, and C31 is about that window. Retries, back-offs
  and times to live are the constants of the source.

  Third-party code. Better Auth (sessions, sign-in), Prisma and Postgres (as the tables with their unique keys and row-level policies),
  Redis (as atomic commands and scripts), BullMQ, clamd, Zod's e-mail and uuid tests, the uuid and proxy-addr packages, SHA-256 and HMAC are parameters or
  documented behaviour. What is needed of them is a named hypothesis: distinct digests of the texts in question,
  signatures that were not forged, keys that do not repeat. Characters are those of the Latin-1 range; an em dash in a message is written as a hyphen.

  Not modelled. Generated code (libs/api-client), bootstrap and dependency injection, OpenAPI decoration, DTO
  classes with class-validator, logging, tracing, metrics and health probes, the options Better Auth takes as they are, partition
  management and VACUUM (SQL), the tools that generate, lint and deploy, and tests with their helpers: they either hold no logic
  of the program or only call a library. The manifest lists them with their reasons.
\<close>

section \<open>Who may act: the guards, the engines and the roles\<close>


definition example_environment :: environment where
  "example_environment =
     \<lparr> env_db = \<lparr> db_members = [\<lparr> mr_organizationId = ''o1'', mr_userId = ''u1'', mr_role = ''viewer, auditor'' \<rparr>],
                  db_organizationRoles =
                    [\<lparr> or_organizationId = ''o1'', or_role = ''auditor'',
                       or_permission = serializePermissionStatements [''audit_log:read''] \<rparr>] \<rparr>,
       env_teamMembers = [], env_apiKeys = [], env_now = 10,
       env_session = Some
         \<lparr> fs_user = Some \<lparr> su_id = ''u1'', su_email = ''e'', su_name = ''n'', su_role = ''USER'',
                            su_status = ''ACTIVE'' \<rparr>,
           fs_session = Some \<lparr> ss_id = ''s'', ss_token = ''t'', ss_expiresAt = Some 20,
                               ss_activeOrganizationId = Some ''o1'', ss_activeTeamId = None \<rparr> \<rparr>,
       env_socketUser = None \<rparr>"

definition example_route :: route where
  "example_route =
     \<lparr> ro_transport = HttpContext, ro_public = False, ro_allowApiKey = False, ro_roles = [],
       ro_permissions = [''audit_log:read'', ''term:read''] \<rparr>"

lemma example_admitted: "\<exists>req. guard_chain rev example_environment example_route (arriving NoHeader None) = Inr req"
proof -
  have "(case guard_chain rev example_environment example_route (arriving NoHeader None) of Inr _ \<Rightarrow> True | _ \<Rightarrow> False)"
    by code_simp
  then show ?thesis by (auto split: sum.splits)
qed


text \<open>C2. No engine ever allows a principal other than the system to act on a resource of another
  organization: whatever the state of the Postgres tables or of the in-memory Maps, an allowed check on
  a resource that names an organization means the principal belongs to that organization.\<close>

theorem no_cross_organization_access:
  assumes "allowed (check pg_policyContext db p perm (Some res)) \<or> allowed (check im_policyContext s p perm (Some res))"
    "rr_organizationId res = Some org" "org \<noteq> []" "\<not> is_system p"
  shows "organization_of p = Some org"
  using assms postgres.never_crosses in_memory.never_crosses by blast

theorem no_cross_organization_access_witness:
  "organization_of (UserPrincipal ''u1'' ''o1'' None) = Some ''o1''"
proof (rule no_cross_organization_access)
  show "allowed (check pg_policyContext (env_db example_environment) (UserPrincipal ''u1'' ''o1'' None)
          ''file:read'' (Some (ResourceRef ''file'' ''f'' None (Some ''o1'') None))) \<or>
        allowed (check im_policyContext \<lparr> im_roles = [], im_customRoles = [] \<rparr> (UserPrincipal ''u1'' ''o1'' None)
          ''file:read'' (Some (ResourceRef ''file'' ''f'' None (Some ''o1'') None)))"
    by code_simp
qed simp_all

text \<open>C3. A list endpoint never returns a row its caller may not open. When the engine's filter is
  folded into a query, every row the query selects is one on which the same engine allows the same
  permission; when the fold gives no query, none may be run, and a truncated enumeration is an error.
  Rows of the tables scoped to a user or to everyone carry no organization.\<close>

theorem filtered_rows_are_allowed:
  assumes "applyAccessFilter base (access_filter_for pg_policyContext db p perm (resourceTypeOf perm)) = Inr (Some q)"
    "distinct (map fst base)" "selects sem q r" "perm \<in> set ALL_PERMISSIONS"
    "scopeOf perm \<in> {Some SelfScope, Some GlobalScope} \<Longrightarrow> r ''organizationId'' = None"
  shows "allowed (check pg_policyContext db p perm (Some (ref_of_row (resourceTypeOf perm) r)))"
proof -
  have "admits sem (access_filter_for pg_policyContext db p perm (resourceTypeOf perm)) r"
    using assms(1-3) decideFilter_keys(1)
    by (intro applyAccessFilter_selects[of base _ q]) (auto simp: access_filter_for_def)
  from postgres.filter_sound[OF this assms(4,5)] show ?thesis .
qed

definition example_row :: row where
  "example_row c =
     (if c = ''id'' then Some ''f1'' else if c = ''organizationId'' then Some ''o1''
      else if c = ''userId'' then Some ''u9'' else None)"

theorem filtered_rows_are_allowed_witness:
  "allowed (check pg_policyContext (env_db example_environment) (UserPrincipal ''u1'' ''o1'' None) ''file:read''
     (Some (ref_of_row (resourceTypeOf ''file:read'') example_row)))"
proof (rule filtered_rows_are_allowed)
  show "applyAccessFilter [(''deletedAt'', Other JNull)]
      (access_filter_for pg_policyContext (env_db example_environment) (UserPrincipal ''u1'' ''o1'' None)
         ''file:read'' (resourceTypeOf ''file:read''))
      = Inr (Some [(''deletedAt'', Other JNull), (''organizationId'', Equals ''o1'')])"
    by code_simp
  show "selects (\<lambda>j v. v = None) [(''deletedAt'', Other JNull), (''organizationId'', Equals ''o1'')] example_row"
    by code_simp
  show "scopeOf ''file:read'' \<in> {Some SelfScope, Some GlobalScope} \<Longrightarrow> example_row ''organizationId'' = None"
    by (simp add: scopeOf_def resourceTypeOf_def RESOURCE_SCOPES_def)
  show "''file:read'' \<in> set ALL_PERMISSIONS" by code_simp
qed simp

text \<open>For the organization-scoped resource types other than the organization itself the filter is
  exact: a row of a tenant the engine would allow is a row the filter admits, so a list hides nothing
  the caller may open.\<close>

theorem filter_hides_no_allowed_row:
  assumes "allowed (check pg_policyContext db p perm (Some (ref_of_row (resourceTypeOf perm) r)))"
    "\<not> is_system p" "scopeOf perm = Some OrganizationScope" "resourceTypeOf perm \<noteq> ''organization''"
    "r ''organizationId'' = Some org" "org \<noteq> []"
  shows "admits sem (access_filter_for pg_policyContext db p perm (resourceTypeOf perm)) r"
  using filter_complete_context[of "pg_policyContext db p" perm r org sem] assms
  by (simp add: postgres.check_decides postgres.same_principal access_filter_for_def)

theorem filter_hides_no_allowed_row_witness:
  "admits (\<lambda>j v. False)
     (access_filter_for pg_policyContext (env_db example_environment) (UserPrincipal ''u1'' ''o1'' None)
        ''file:read'' (resourceTypeOf ''file:read'')) example_row"
proof (rule filter_hides_no_allowed_row)
  show "allowed (check pg_policyContext (env_db example_environment) (UserPrincipal ''u1'' ''o1'' None)
      ''file:read'' (Some (ref_of_row (resourceTypeOf ''file:read'') example_row)))" by code_simp
  show "scopeOf ''file:read'' = Some OrganizationScope" by code_simp
  show "resourceTypeOf ''file:read'' \<noteq> ''organization''" by code_simp
  show "example_row ''organizationId'' = Some ''o1''" by (simp add: example_row_def)
qed simp_all

text \<open>C4. The two engines are interchangeable: when the in-memory Maps mirror the member and role
  tables for the user asked about, both give the same decisions and the same filter, for every list of
  requests; for the system and for API keys they always do.\<close>

theorem engines_agree:
  assumes "\<And>user org m. p = UserPrincipal user org m \<Longrightarrow> mirrors s db org user"
  shows "checkMany im_policyContext s p reqs = checkMany pg_policyContext db p reqs \<and>
         access_filter_for im_policyContext s p perm rt = access_filter_for pg_policyContext db p perm rt"
  using mirrored_answers[of p s db] assms by blast

definition example_maps :: in_memory where
  "example_maps =
     defineCustomRole ''o1'' ''auditor'' [''audit_log:read'']
       (setMemberRoles ''o1'' ''u1'' [''viewer'', ''auditor''] \<lparr> im_roles = [], im_customRoles = [] \<rparr>)"

theorem engines_agree_witness:
  "checkMany im_policyContext example_maps (UserPrincipal ''u1'' ''o1'' None)
      [\<lparr> cr_permission = ''audit_log:read'', cr_resource = None \<rparr>]
    = checkMany pg_policyContext (env_db example_environment) (UserPrincipal ''u1'' ''o1'' None)
      [\<lparr> cr_permission = ''audit_log:read'', cr_resource = None \<rparr>]"
proof (rule conjunct1[OF engines_agree])
  have "mirrors example_maps (env_db example_environment) ''o1'' ''u1''" by code_simp
  then show "UserPrincipal ''u1'' ''o1'' None = UserPrincipal user org m \<Longrightarrow>
      mirrors example_maps (env_db example_environment) org user" for user org m by simp
qed

text \<open>C5. A stored role reads back as it was written: parsing the serialized statements of a list of
  catalog permissions succeeds, finds exactly those permissions with their multiplicities, and reports
  nothing unknown.\<close>

theorem permission_statements_roundtrip:
  assumes "set ps \<subseteq> set ALL_PERMISSIONS"
  shows "\<exists>r. parsePermissionStatements (serializePermissionStatements ps) = Some r \<and>
             mset (granted r) = mset ps \<and> unknown r = []"
  by (rule parse_serialized[OF assms])

theorem permission_statements_roundtrip_witness:
  "\<exists>r. parsePermissionStatements (serializePermissionStatements [''file:read'', ''team:read'', ''file:delete'']) = Some r \<and>
       mset (granted r) = mset [''file:read'', ''team:read'', ''file:delete''] \<and> unknown r = []"
  by (rule permission_statements_roundtrip) code_simp

text \<open>C6. Whatever text a role row holds, the permissions a member resolves to are catalog permissions,
  and a row whose text does not parse grants nothing.\<close>

theorem resolved_permissions_in_catalog:
  "set (pg_resolvePermissions db org rawRole) \<subseteq> set ALL_PERMISSIONS"
proof -
  have "set (grants_of_row row) \<subseteq> set ALL_PERMISSIONS" for row
    using well_sorted_parse[of "or_permission row"]
    by (cases "parsePermissionStatements (or_permission row)") (simp_all add: grants_of_row_def well_sorted_def)
  then have "set (row_grants db org role) \<subseteq> set ALL_PERMISSIONS" for role
    by (auto simp: row_grants_def)
  then show ?thesis
    using system_role_permissions_catalog by (fastforce simp: set_pg_resolvePermissions split: if_splits)
qed

text \<open>A refusal of the permission guard is precise: when some required permission is denied, the
  guard raises the forbidden exception of the first one in the order the route lists them, and lets the
  request through exactly when none is.\<close>

theorem guard_names_first_missing:
  "permission_guard pg_policyContext db ro req = Inl e \<Longrightarrow>
   decide pg_policyContext db req (ro_permissions ro) = Inr ds \<Longrightarrow>
     \<exists>i < length ds. \<not> allowed (ds ! i) \<and> (\<forall>j < i. allowed (ds ! j)) \<and> e = forbidden (ro_permissions ro ! i)"
  by (auto simp: permission_guard_def split: if_splits option.splits dest!: find_index_SomeD)

theorem guard_names_first_missing_witness:
  "\<exists>i < 3. \<not> allowed ([allow, deny permissionNotGranted, deny permissionNotGranted] ! i) \<and>
     (\<forall>j < i. allowed ([allow, deny permissionNotGranted, deny permissionNotGranted] ! j)) \<and>
     forbidden ''team:create'' = forbidden ([''file:read'', ''team:create'', ''team:update''] ! i)"
proof -
  let ?ro = "example_route \<lparr> ro_permissions := [''file:read'', ''team:create'', ''team:update''] \<rparr>"
  let ?req = "(arriving NoHeader None) \<lparr> rq_apiKey := Some
      \<lparr> aa_apiKeyId = ''k'', aa_organizationId = ''o1'', aa_scopes = [''file:read''] \<rparr> \<rparr>"
  have "permission_guard pg_policyContext (env_db example_environment) ?ro ?req = Inl (forbidden ''team:create'')"
    by code_simp
  moreover have "decide pg_policyContext (env_db example_environment) ?req (ro_permissions ?ro)
      = Inr [allow, deny permissionNotGranted, deny permissionNotGranted]"
    by code_simp
  ultimately show ?thesis
    using guard_names_first_missing[of "env_db example_environment" ?ro ?req "forbidden ''team:create''"
        "[allow, deny permissionNotGranted, deny permissionNotGranted]"]
    by (simp add: numeral_3_eq_3)
qed

section \<open>Pages\<close>

text \<open>C7. The cursor is a lossless, canonical token: decoding what was encoded gives back the position,
  and a text that decodes is exactly the encoding of what it decodes to, with a valid id; so no two
  texts stand for the same position and no malformed id reaches a query.\<close>

theorem cursor_codec:
  assumes "four_digit_year t" "is_uuid7 i"
  shows "decodeCursor is_uuid7 (encodeCursor t i) = Some \<lparr> cu_createdAt = t, cu_id = i \<rparr> \<and>
    (\<forall>c d. decodeCursor is_uuid7 c = Some d \<longrightarrow>
       c = encodeCursor (cu_createdAt d) (cu_id d) \<and> is_uuid7 (cu_id d))"
  using decode_encode_cursor[of t is_uuid7 i, OF assms] decodeCursor_sound by blast

theorem cursor_codec_witness:
  "decodeCursor (\<lambda>i. length i = 36) (encodeCursor 1779160000123 ''01972ddb-6010-7f7f-b464-0d20c5e3a8f9'')
    = Some \<lparr> cu_createdAt = 1779160000123, cu_id = ''01972ddb-6010-7f7f-b464-0d20c5e3a8f9'' \<rparr>"
  by (rule conjunct1[OF cursor_codec]; code_simp)

text \<open>C8. Following the cursors of a list endpoint visits every row of the tenant exactly once, newest
  first: starting without a cursor and continuing after the last row of each page while there is more
  gives the sorted list of all selected rows, for every page size of at least one, and it ends.\<close>

theorem page_walk_complete:
  assumes "distinct (map key rows)" "0 < limit" "length (filter sel rows) < n"
  shows "walk_pages key (\<lambda>c. keyset_query key sel rows c limit) n None = newest_first key (filter sel rows)"
proof -
  have "distinct (map key (filter sel rows))" using assms(1) by (rule distinct_map_filter)
  from walk_rest[OF strictly_descending[OF this], of "[]"] show ?thesis
    using assms(2,3) by (simp add: keyset_query_paginates)
qed

theorem page_walk_complete_witness:
  "walk_pages id (\<lambda>c. keyset_query id (\<lambda>r. True) [(3, ''a''), (7, ''b''), (3, ''c'')] c 2) 4 None
     = newest_first id (filter (\<lambda>r. True) [(3, ''a''), (7, ''b''), (3 :: int, ''c'')])"
  by (rule page_walk_complete) simp_all

text \<open>The page arithmetic of offset lists is right: with a page size of at least one and at least
  one page, there is a next page exactly when rows remain beyond the current one, and the skip never
  is negative, whatever the caller passed.\<close>

theorem page_meta_exact:
  assumes "1 \<le> page" "1 \<le> pageSize"
  shows "(pm_hasNextPage (buildPageMeta page pageSize n) \<longleftrightarrow> paginationSkip page pageSize + pageSize < n) \<and>
    pm_hasNextPage (buildPageMeta page pageSize n) = lr_hasMore (toListResponse url items page pageSize n inc) \<and>
    (\<forall>p z. 0 \<le> paginationSkip p z)"
proof -
  have "page < max 1 (ceil_div n pageSize) \<longleftrightarrow> page * pageSize < n"
    using assms ceil_div_less[of pageSize page n] by (simp add: less_max_iff_disj)
  moreover have "0 \<le> paginationSkip p z" for p z
    unfolding paginationSkip_def by (rule mult_nonneg_nonneg) simp_all
  moreover have "paginationSkip page pageSize + pageSize = page * pageSize"
    using assms by (simp add: paginationSkip_def algebra_simps)
  moreover have "max 1 pageSize = pageSize" using assms by simp
  ultimately show ?thesis by (simp add: buildPageMeta_def toListResponse_def Let_def)
qed

theorem page_meta_exact_witness:
  "pm_hasNextPage (buildPageMeta 2 20 41) \<longleftrightarrow> paginationSkip 2 20 + 20 < 41"
  by (rule conjunct1[OF page_meta_exact]) simp_all

section \<open>API keys\<close>


definition example_command :: create_api_key_command where
  "example_command =
     \<lparr> cc_organizationId = ''o1'', cc_userId = ''u1'', cc_name = '' ci '',
       cc_scopes = [''file:read'', ''audit_log:read'', ''file:read''], cc_expiresAt = Some 30 \<rparr>"

definition succeeds :: "(failure + 'a) \<times> 's \<Rightarrow> bool" where
  "succeeds r = (case fst r of Inr _ \<Rightarrow> True | Inl _ \<Rightarrow> False)"

lemma succeeds_obtain:
  assumes "succeeds r" obtains v s where "r = (Inr v, s)"
  using assms by (cases r; cases "fst r") (auto simp: succeeds_def)


text \<open>C10. A revoked key is dead for good: once the revocation of a stored key has been applied, no
  later sequence of creations, revocations and uses makes its secret authenticate again, at any
  time.\<close>

theorem revoked_key_never_authenticates:
  assumes "unique_keys rows" "r \<in> set rows" "ak_keyHash r = sha256 raw"
  shows "verify_presented sha256 now
           (run_keys (snd (prisma_revoke (ak_organizationId r) (ak_id r) t rows)) evs) raw = Inl invalidCredential"
proof -
  let ?rows = "snd (prisma_revoke (ak_organizationId r) (ak_id r) t rows)"
  have "dead_hash (sha256 raw) ?rows"
  proof (cases "ak_revokedAt r")
    case None
    then have "live_row (ak_organizationId r) (ak_id r) r" by (simp add: live_row_def)
    then have "r \<lparr> ak_revokedAt := Some t, ak_updatedAt := t \<rparr> \<in> set ?rows"
      using assms(2) by (force simp: prisma_revoke_def update_rows_def)
    then show ?thesis
      using assms(3) unfolding dead_hash_def
      by (intro bexI[of _ "r \<lparr> ak_revokedAt := Some t, ak_updatedAt := t \<rparr>"]) simp_all
  next
    case (Some x)
    then have "dead_hash (sha256 raw) rows" using assms by (auto simp: dead_hash_def)
    then show ?thesis by (auto simp: prisma_revoke_def intro!: dead_hash_update)
  qed
  moreover have "unique_keys ?rows" using unique_keys_step[OF assms(1), of "Revoke (ak_organizationId r) (ak_id r) t"]
    by (simp add: key_step_def)
  ultimately show ?thesis by (intro dead_hash_rejected dead_hash_run unique_keys_run)
qed

definition example_key :: api_key where
  "example_key =
     \<lparr> ak_id = ''k1'', ak_organizationId = ''o1'', ak_name = ''ci'', ak_prefix = ''sk_abc'', ak_keyHash = ''cba_ks'',
       ak_scopes = [''file:read''], ak_createdById = None, ak_lastUsedAt = None, ak_expiresAt = None,
       ak_revokedAt = None, ak_createdAt = 1, ak_updatedAt = 1 \<rparr>"

theorem revoked_key_never_authenticates_witness:
  "verify_presented rev 9
     (run_keys (snd (prisma_revoke (ak_organizationId example_key) (ak_id example_key) 5 [example_key]))
       [Touch ''k1'' 6, Create example_key]) ''sk_abc'' = Inl invalidCredential"
  by (rule revoked_key_never_authenticates) (simp_all add: unique_keys_def example_key_def)

text \<open>Revocation is a safe, retryable, isolated operation in both repositories: the handler
  succeeds exactly when the organization has the key, a retry answers the same, the key is not live
  afterwards, and no other key of any organization changes its liveness.\<close>

theorem revocation_contract:
  "(fst (revoke_api_key prisma_revoke prisma_exists org i t rows) = Inr () \<longleftrightarrow> prisma_exists org i rows) \<and>
   fst (revoke_api_key prisma_revoke prisma_exists org i t' (snd (revoke_api_key prisma_revoke prisma_exists org i t rows)))
     = fst (revoke_api_key prisma_revoke prisma_exists org i t rows) \<and>
   \<not> prisma_live org i (snd (revoke_api_key prisma_revoke prisma_exists org i t rows)) \<and>
   (fst (revoke_api_key memory_revoke memory_exists org i t s) = Inr () \<longleftrightarrow> memory_exists org i s) \<and>
   \<not> memory_live org i (snd (revoke_api_key memory_revoke memory_exists org i t s)) \<and>
   (prisma_live org' j (snd (revoke_api_key prisma_revoke prisma_exists org i t rows)) \<longleftrightarrow>
      (org', j) \<noteq> (org, i) \<and> prisma_live org' j rows)"
proof (intro conjI)
  show "prisma_live org' j (snd (revoke_api_key prisma_revoke prisma_exists org i t rows)) \<longleftrightarrow>
      (org', j) \<noteq> (org, i) \<and> prisma_live org' j rows"
    using prisma_keys.handler_elsewhere[of org' j org i t rows] prisma_keys.handler_kills[of org i t rows] by auto
qed (rule prisma_keys.handler_succeeds_iff prisma_keys.handler_retry prisma_keys.handler_kills
       memory_keys.handler_succeeds_iff memory_keys.handler_kills)+

text \<open>A fresh key works: right after a successful creation, presenting the returned secret as a
  bearer token on a route open to keys authenticates the caller in the key's organization with the
  issued scopes, as long as the expiry has not come and no other row has the same digest.\<close>

theorem created_key_authenticates:
  assumes "create_api_key db newId now (generateApiKey sha256 rnd) cmd rows = (Inr (dto, raw), rows')"
    "\<And>r. r \<in> set rows \<Longrightarrow> ak_keyHash r \<noteq> sha256 raw"
    "\<And>t. cc_expiresAt cmd = Some t \<Longrightarrow> later < t"
  shows "verify_presented sha256 later rows' raw
    = Inr \<lparr> aa_apiKeyId = newId, aa_organizationId = cc_organizationId cmd, aa_scopes = js_set (cc_scopes cmd) \<rparr>"
proof -
  obtain k where k: "issue newId now (generateApiKey sha256 rnd)
      \<lparr> in_organizationId = cc_organizationId cmd, in_name = cc_name cmd, in_scopes = cc_scopes cmd,
        in_createdById = Some (cc_userId cmd), in_expiresAt = cc_expiresAt cmd,
        in_grantedToIssuer = pg_permissionsFor db (UserPrincipal (cc_userId cmd) (cc_organizationId cmd) None) \<rparr>
      = Inr (k, raw)" "rows' = rows @ [k \<lparr> ak_lastUsedAt := None, ak_revokedAt := None \<rparr>]"
    using assms(1) by (auto simp: create_api_key_def Let_def prisma_create_def split: sum.splits prod.splits if_splits)
  have "List.find (\<lambda>r. ak_keyHash r = sha256 raw) rows = None"
    using assms(2) by (auto simp: find_None_iff)
  then have "List.find (\<lambda>r. ak_keyHash r = sha256 raw) (rows @ [x])
      = (if ak_keyHash x = sha256 raw then Some x else None)" for x
    by (induction rows) (auto split: if_splits)
  then show ?thesis
    using k(1)[unfolded issue_Inr] assms(3)
    by (auto simp: k(2) verify_presented_def generateApiKey_def Let_def split: option.splits)
qed

theorem created_key_authenticates_witness:
  "\<exists>rows. verify_presented rev 11 rows ''sk_abcdefghij''
    = Inr \<lparr> aa_apiKeyId = ''k1'', aa_organizationId = ''o1'', aa_scopes = [''file:read'', ''audit_log:read''] \<rparr>"
proof -
  have "succeeds (create_api_key (env_db example_environment) ''k1'' 10 (generateApiKey rev ''abcdefghij'') example_command [])"
    by code_simp
  then obtain dto raw rows where c: "create_api_key (env_db example_environment) ''k1'' 10 (generateApiKey rev ''abcdefghij'')
      example_command [] = (Inr (dto, raw), rows)"
    by (metis succeeds_obtain surj_pair)
  moreover have "snd (Sum_Type.projr (fst (create_api_key (env_db example_environment) ''k1'' 10
      (generateApiKey rev ''abcdefghij'') example_command []))) = ''sk_abcdefghij''" by code_simp
  ultimately have "raw = ''sk_abcdefghij''" by simp
  moreover have "js_set (cc_scopes example_command) = [''file:read'', ''audit_log:read'']" by code_simp
  ultimately show ?thesis
    using created_key_authenticates[OF c, of 11] by (auto simp: example_command_def)
qed

end
